(* ===== verification/Los_Prelude.thy ===== *)
theory Los_Prelude
  imports "HOL-Library.Word" "HOL-Library.Char_ord" "HOL-Library.List_Lexorder"
begin

text \<open>
  Prelude of the development: the machine integers of the Rust sources as words, the checked and
  saturating operations of the standard library, results with error and panic, strings as byte
  sequences with the few string functions the sources call, and the lemma collections that the
  component theories share.

  Arithmetic follows the release profile of the workspace. No \<open>Cargo.toml\<close> sets
  \<open>overflow-checks\<close>, so \<open>+\<close>, \<open>-\<close> and \<open>*\<close> on machine integers wrap around, which is what the
  operations of \<open>'a word\<close> do. Division by zero and slices out of range panic in every profile and
  are written out as \<open>Panic\<close> where the code can reach them.
\<close>

section \<open>Lemma collections\<close>

named_theorems rust_arith "unsigned value of the Rust integer operations"
named_theorems unat_bounds "bounds on unsigned values"

section \<open>Machine integers\<close>

type_synonym u8 = "8 word"
type_synonym u16 = "16 word"
type_synonym u32 = "32 word"
type_synonym u64 = "64 word"
type_synonym u128 = "128 word"
type_synonym usize = "64 word"
type_synonym bytes = "8 word list"

abbreviation u128_max :: u128 where
  "u128_max \<equiv> - 1"

definition checked_add :: "'a::len word \<Rightarrow> 'a word \<Rightarrow> 'a word option" where
  "checked_add x y = (if unat x + unat y < 2 ^ LENGTH('a) then Some (x + y) else None)"

definition checked_sub :: "'a::len word \<Rightarrow> 'a word \<Rightarrow> 'a word option" where
  "checked_sub x y = (if y \<le> x then Some (x - y) else None)"

definition checked_mul :: "'a::len word \<Rightarrow> 'a word \<Rightarrow> 'a word option" where
  "checked_mul x y = (if unat x * unat y < 2 ^ LENGTH('a) then Some (x * y) else None)"

definition saturating_add :: "'a::len word \<Rightarrow> 'a word \<Rightarrow> 'a word" where
  "saturating_add x y = (case checked_add x y of Some z \<Rightarrow> z | None \<Rightarrow> - 1)"

definition saturating_sub :: "'a::len word \<Rightarrow> 'a word \<Rightarrow> 'a word" where
  "saturating_sub x y = (case checked_sub x y of Some z \<Rightarrow> z | None \<Rightarrow> 0)"

definition saturating_mul :: "'a::len word \<Rightarrow> 'a word \<Rightarrow> 'a word" where
  "saturating_mul x y = (case checked_mul x y of Some z \<Rightarrow> z | None \<Rightarrow> - 1)"

definition saturating_pow :: "'a::len word \<Rightarrow> u32 \<Rightarrow> 'a word" where
  "saturating_pow x n = (if unat x ^ unat n < 2 ^ LENGTH('a) then x ^ unat n else - 1)"

definition div_ceil :: "'a::len word \<Rightarrow> 'a word \<Rightarrow> 'a word" where
  "div_ceil x y = (if x mod y > 0 then x div y + 1 else x div y)"

definition abs_diff :: "'a::len word \<Rightarrow> 'a word \<Rightarrow> 'a word" where
  "abs_diff x y = (if x < y then y - x else x - y)"

lemma unat_less_exp [unat_bounds]: "unat (x :: 'a::len word) < 2 ^ LENGTH('a)"
  by (rule unsigned_less)

lemma unat_of_nat_small: "n < 2 ^ LENGTH('a) \<Longrightarrow> unat (of_nat n :: 'a::len word) = n"
  by (simp add: unat_of_nat)

lemma unat_add_exact:
  fixes x y :: "'a::len word"
  assumes "unat x + unat y < 2 ^ LENGTH('a)"
  shows "unat (x + y) = unat x + unat y"
  using assms by (simp add: unat_word_ariths)

lemma unat_mult_exact:
  fixes x y :: "'a::len word"
  assumes "unat x * unat y < 2 ^ LENGTH('a)"
  shows "unat (x * y) = unat x * unat y"
  using assms by (simp add: unat_word_ariths)

lemma unat_sub_exact:
  fixes x y :: "'a::len word"
  assumes "y \<le> x"
  shows "unat (x - y) = unat x - unat y"
  using assms by (rule unat_sub)

lemma unat_mult_le: "unat (x * y) \<le> unat x * unat (y :: 'a::len word)"
  by (simp add: unat_word_ariths(2))

lemma unat_add_no_wrap:
  fixes x y :: "'a::len word"
  assumes "x \<le> x + y"
  shows "unat x + unat y < 2 ^ LENGTH('a)"
proof (rule ccontr)
  assume over: "\<not> ?thesis"
  then have "unat x + unat y - 2 ^ LENGTH('a) < unat x" using unat_less_exp [of y] unat_less_exp [of x] by linarith
  moreover have "unat x + unat y - 2 ^ LENGTH('a) < 2 ^ LENGTH('a)"
    using unat_less_exp [of y] unat_less_exp [of x] by linarith
  then have "unat (x + y) = unat x + unat y - 2 ^ LENGTH('a)"
    using over by (simp add: unat_word_ariths(1) le_mod_geq)
  ultimately show False using assms by (simp add: word_le_nat_alt)
qed

lemma unat_minus_one_max: "unat (- 1 :: 'a::len word) = 2 ^ LENGTH('a) - 1"
  by (simp add: unsigned_minus_1_eq_mask mask_eq_exp_minus_1)

lemma checked_add_SomeD:
  "checked_add x y = Some z \<Longrightarrow> z = x + y \<and> unat z = unat x + unat y"
  by (auto simp: checked_add_def unat_add_exact split: if_splits)

lemma checked_add_None_iff:
  fixes x y :: "'a::len word"
  shows "checked_add x y = None \<longleftrightarrow> 2 ^ LENGTH('a) \<le> unat x + unat y"
  by (auto simp: checked_add_def)

lemma checked_mul_SomeD:
  "checked_mul x y = Some z \<Longrightarrow> z = x * y \<and> unat z = unat x * unat y"
  by (auto simp: checked_mul_def unat_mult_exact split: if_splits)

lemma checked_sub_SomeD:
  "checked_sub x y = Some z \<Longrightarrow> z = x - y \<and> y \<le> x \<and> unat z = unat x - unat y"
  by (auto simp: checked_sub_def unat_sub_exact split: if_splits)

lemma checked_sub_le [simp]: "y \<le> x \<Longrightarrow> checked_sub x y = Some (x - y)"
  by (simp add: checked_sub_def)

lemma unat_saturating_add [rust_arith]:
  fixes x y :: "'a::len word"
  shows "unat (saturating_add x y) = min (unat x + unat y) (2 ^ LENGTH('a) - 1)"
  by (auto simp: saturating_add_def checked_add_def unat_add_exact unat_minus_one_max)

lemma unat_saturating_sub [rust_arith]:
  "unat (saturating_sub x y) = unat x - unat y"
  by (auto simp: saturating_sub_def checked_sub_def unat_sub_exact word_le_nat_alt)

lemma unat_saturating_mul [rust_arith]:
  fixes x y :: "'a::len word"
  shows "unat (saturating_mul x y) = min (unat x * unat y) (2 ^ LENGTH('a) - 1)"
  by (auto simp: saturating_mul_def checked_mul_def unat_mult_exact unat_minus_one_max)

lemma unat_word_power_exact:
  fixes x :: "'a::len word"
  shows "unat x ^ n < 2 ^ LENGTH('a) \<Longrightarrow> unat (x ^ n) = unat x ^ n"
proof (induction n)
  case 0
  then show ?case by simp
next
  case (Suc n)
  show ?case
  proof (cases "unat x = 0")
    case True
    then have "x = 0" by (simp add: unat_eq_zero)
    then show ?thesis by simp
  next
    case False
    then have "unat x ^ n \<le> unat x ^ Suc n" by simp
    with Suc.prems have "unat x ^ n < 2 ^ LENGTH('a)" by linarith
    with Suc show ?thesis by (simp add: unat_mult_exact)
  qed
qed

lemma unat_saturating_pow [rust_arith]:
  fixes x :: "'a::len word"
  shows "unat (saturating_pow x n) = min (unat x ^ unat n) (2 ^ LENGTH('a) - 1)"
  by (auto simp: saturating_pow_def unat_word_power_exact unat_minus_one_max)

lemma nat_div_ceil:
  fixes a b :: nat
  assumes "0 < b"
  shows "(a + b - 1) div b = (if a mod b > 0 then a div b + 1 else a div b)"
proof -
  define q r where "q = a div b" and "r = a mod b"
  have a: "a = b * q + r" and r: "r < b"
    using assms by (simp_all add: q_def r_def)
  have "(b * q + r + b - 1) div b = (if r > 0 then Suc q else q)"
  proof (cases "r > 0")
    case True
    have "(b * q + r + b - 1) div b = Suc q"
      by (rule div_nat_eqI) (use r True in auto)
    with True show ?thesis by simp
  next
    case False
    have "(b * q + r + b - 1) div b = q"
      by (rule div_nat_eqI) (use assms False in auto)
    with False show ?thesis by simp
  qed
  then show ?thesis by (simp add: a [symmetric]) (simp add: q_def r_def)
qed

lemma unat_div_ceil [rust_arith]:
  fixes x y :: "'a::len word"
  assumes "0 < unat y"
  shows "unat (div_ceil x y) = (unat x + unat y - 1) div unat y"
proof (cases "x mod y > 0")
  case True
  then have m: "0 < unat x mod unat y"
    by (simp add: word_less_nat_alt unat_mod)
  have "unat x div unat y + 1 \<le> unat x"
  proof -
    have "unat x = unat y * (unat x div unat y) + unat x mod unat y" by simp
    moreover have "unat x div unat y \<le> unat y * (unat x div unat y)" using assms by simp
    ultimately show ?thesis using m by linarith
  qed
  then have "unat (x div y + 1) = unat x div unat y + 1"
    using le_less_trans [OF _ unat_less_exp] by (subst unat_add_exact) (simp_all add: unat_div)
  with True m show ?thesis unfolding div_ceil_def nat_div_ceil [OF assms] by simp
next
  case False
  then have "unat x mod unat y = 0"
    by (simp add: word_less_nat_alt unat_mod)
  with False show ?thesis unfolding div_ceil_def nat_div_ceil [OF assms] by (simp add: unat_div)
qed

lemma unat_ucast_small:
  fixes x :: "'a::len word"
  shows "unat x < 2 ^ LENGTH('b) \<Longrightarrow> unat (ucast x :: 'b::len word) = unat x"
  by (simp add: unsigned_ucast_eq take_bit_nat_eq_self)

lemma unat_ucast_widen [rust_arith]:
  "LENGTH('a) \<le> LENGTH('b) \<Longrightarrow> unat (ucast (x :: 'a::len word) :: 'b::len word) = unat x"
  by (rule unat_ucast_small) (rule less_le_trans [OF unat_less_exp], simp)

lemma unat_sum_list_exact:
  fixes ws :: "'a::len word list"
  shows "sum_list (map unat ws) < 2 ^ LENGTH('a) \<Longrightarrow> unat (sum_list ws) = sum_list (map unat ws)"
  by (induction ws) (simp_all add: unat_add_exact)

section \<open>Results\<close>

text \<open>
  A Rust function that returns \<open>Result\<close> ends in \<open>Ok\<close>, in \<open>Err\<close>, or in a panic. An operation on
  \<open>&mut self\<close> is a function that returns this outcome together with the state as it is at that point,
  so that a mutation before an early return stays visible in the model.
\<close>

datatype ('a, 'e) result = Ok 'a | Err 'e | Panic

fun is_ok :: "('a, 'e) result \<Rightarrow> bool" where
  "is_ok (Ok _) = True"
| "is_ok _ = False"

lemma is_ok_iff: "is_ok r \<longleftrightarrow> (\<exists>x. r = Ok x)"
  by (cases r) simp_all

section \<open>Bytes\<close>

text \<open>
  A Rust \<open>String\<close> is a sequence of bytes, and HOL's \<open>char\<close> is a byte: \<open>string\<close> models \<open>String\<close> and
  \<open>&str\<close> with \<open>length\<close> for \<open>len()\<close>, and \<open>as_bytes\<close> reads the same bytes as \<open>u8\<close> values.
\<close>

definition as_bytes :: "string \<Rightarrow> bytes" where
  "as_bytes s = map of_char s"

definition le_bytes :: "nat \<Rightarrow> 'a::len word \<Rightarrow> bytes" where
  "le_bytes n w = map (\<lambda>i. ucast (drop_bit (8 * i) w)) [0..<n]"

abbreviation u64_le_bytes :: "u64 \<Rightarrow> bytes" where
  "u64_le_bytes \<equiv> le_bytes 8"

abbreviation u128_le_bytes :: "u128 \<Rightarrow> bytes" where
  "u128_le_bytes \<equiv> le_bytes 16"

lemma length_le_bytes [simp]: "length (le_bytes n w) = n"
  by (simp add: le_bytes_def)

lemma length_as_bytes [simp]: "length (as_bytes s) = length s"
  by (simp add: as_bytes_def)

lemma unat_of_char: "unat (of_char c :: 8 word) = of_char c"
proof -
  have "(of_char c :: 8 word) = of_nat (of_char c)"
    by (simp only: of_nat_of_char)
  then show ?thesis by (simp only: unat_of_nat) (simp add: take_bit_eq_mod)
qed

lemma as_bytes_inject [simp]: "as_bytes s = as_bytes t \<longleftrightarrow> s = t"
proof -
  have "inj (of_char :: char \<Rightarrow> 8 word)"
    by (rule injI, drule arg_cong [where f = unat]) (simp only: unat_of_char of_char_eq_iff)
  then show ?thesis by (simp add: as_bytes_def inj_map_eq_map)
qed

lemma le_bytes_bit:
  assumes "k < 8 * n" "k < LENGTH('a)"
  shows "bit (le_bytes n (w :: 'a::len word) ! (k div 8)) (k mod 8) = bit w k"
proof -
  have "k div 8 < n" using assms(1) by (simp add: less_mult_imp_div_less)
  then have "le_bytes n w ! (k div 8) = ucast (drop_bit (8 * (k div 8)) w)"
    by (simp add: le_bytes_def)
  then show ?thesis
    using assms(2) by (simp add: bit_unsigned_iff bit_drop_bit_eq)
qed

lemma le_bytes_inject:
  assumes "LENGTH('a) \<le> 8 * n" and "le_bytes n (v :: 'a::len word) = le_bytes n w"
  shows "v = w"
proof (rule bit_word_eqI)
  fix k assume "k < LENGTH('a)"
  with assms(1) have "k < 8 * n" by simp
  with \<open>k < LENGTH('a)\<close> show "bit v k = bit w k"
    using le_bytes_bit [of k n v] le_bytes_bit [of k n w] assms(2) by simp
qed

lemmas u64_le_bytes_inject = le_bytes_inject [where 'a = 64 and n = 8, simplified]
lemmas u128_le_bytes_inject = le_bytes_inject [where 'a = 128 and n = 16, simplified]

text \<open>Reading them back.\<close>

fun from_le_bytes :: "bytes \<Rightarrow> 'a::len word" where
  "from_le_bytes [] = 0"
| "from_le_bytes (b # bs) = ucast b + 256 * from_le_bytes bs"

lemma le_bytes_Suc: "le_bytes (Suc n) w = ucast w # le_bytes n (drop_bit 8 w)"
  by (simp add: le_bytes_def upt_conv_Cons map_Suc_upt [symmetric] comp_def add.commute del: upt_Suc)

lemma ucast_byte: "(ucast (ucast w :: u8) :: 'a::len word) = take_bit 8 w"
  by (rule bit_word_eqI) (auto simp: bit_unsigned_iff bit_take_bit_iff)

lemma from_le_bytes_partial:
  "from_le_bytes (le_bytes n w) + push_bit (8 * n) (drop_bit (8 * n) w) = (w :: 'a::len word)"
proof (induction n arbitrary: w)
  case 0
  then show ?case by (simp add: le_bytes_def)
next
  case (Suc n)
  let ?w = "drop_bit 8 w"
  have "push_bit 8 (from_le_bytes (le_bytes n ?w) + push_bit (8 * n) (drop_bit (8 * n) ?w)) = push_bit 8 ?w"
    by (simp only: Suc.IH)
  then have "256 * from_le_bytes (le_bytes n ?w) + push_bit (8 * Suc n) (drop_bit (8 * Suc n) w)
             = push_bit 8 ?w"
    by (simp add: push_bit_add push_bit_push_bit drop_bit_drop_bit add.commute)
      (simp add: push_bit_eq_mult mult.commute)
  moreover have "take_bit 8 w + push_bit 8 ?w = w" using bits_ident [of 8 w] by (simp add: add.commute)
  ultimately show ?case by (simp add: le_bytes_Suc ucast_byte add.assoc)
qed

lemma from_le_bytes_inverse:
  assumes "LENGTH('a) \<le> 8 * n"
  shows "from_le_bytes (le_bytes n w) = (w :: 'a::len word)"
proof -
  have "drop_bit (8 * n) w = 0" by (rule bit_word_eqI) (use assms in \<open>simp add: bit_drop_bit_eq\<close>)
  then show ?thesis using from_le_bytes_partial [of n w] by simp
qed

lemma from_le_bytes_inverses [simp]: "from_le_bytes (u64_le_bytes w) = w" "from_le_bytes (u128_le_bytes v) = v"
  by (simp_all add: from_le_bytes_inverse)

section \<open>Taking turns\<close>

text \<open>In a window of as many turns as there are members every member has its turn.\<close>

lemma mod_window:
  assumes "j < (n :: nat)"
  shows "\<exists>k < n. (e + k) mod n = j"
proof -
  have n: "0 < n" using assms by simp
  let ?k = "(j + (n - e mod n)) mod n"
  have "e + (n - e mod n) = n * (e div n) + n"
    using mult_div_mod_eq [of n e] mod_less_divisor [OF n, of e] by linarith
  then have "(e + (j + (n - e mod n))) mod n = (j + n * (e div n + 1)) mod n"
    by (metis add.left_commute distrib_left mult.right_neutral)
  also have "\<dots> = j" using assms by (simp only: mod_mult_self2 mod_less)
  finally have "(e + ?k) mod n = j" by (simp only: mod_add_right_eq)
  then show ?thesis using n by (intro exI [of _ ?k]) simp
qed

lemma round_robin_covers:
  assumes "xs \<noteq> []"
  shows "(\<lambda>k. xs ! ((e + k) mod length xs)) ` {..<length xs} = set xs"
proof -
  have "(\<lambda>k. (e + k) mod length xs) ` {..<length xs} = {..<length xs}"
    using assms mod_window [of _ "length xs" e] by fastforce
  then show ?thesis
    by (metis (no_types, lifting) image_cong image_image lessThan_atLeast0 nth_image order_refl take_all_iff)
qed

end
