(* ===== verification/Los_Strings.thy ===== *)
theory Los_Strings
  imports Los_Prelude
begin

text \<open>
  The string functions of the Rust standard library that the sources call, on byte strings:
  \<open>starts_with\<close>, slicing with its character-boundary panic, \<open>split\<close>, \<open>splitn\<close>, \<open>trim\<close>,
  \<open>parse\<close> for unsigned integers and decimal printing, with the round trip of printing and parsing.
\<close>

section \<open>Prefixes and slices\<close>

definition starts_with :: "string \<Rightarrow> string \<Rightarrow> bool" where
  "starts_with s p = (take (length p) s = p)"

lemma starts_with_append [simp]: "starts_with (p @ s) p"
  by (simp add: starts_with_def)

lemma starts_with_drop: "starts_with s p \<Longrightarrow> s = p @ drop (length p) s"
  by (metis append_take_drop_id starts_with_def)

text \<open>
  \<open>&s[..n]\<close> and \<open>&s[n..]\<close> panic unless \<open>n\<close> is at most the length and a character boundary: not in
  front of a UTF-8 continuation byte (\<open>0x80\<close> to \<open>0xBF\<close>).
\<close>

definition is_char_boundary :: "string \<Rightarrow> nat \<Rightarrow> bool" where
  "is_char_boundary s n =
     (if n = 0 then True
      else if n \<ge> length s then n = length s
      else of_char (s ! n) < (128 :: nat) \<or> of_char (s ! n) \<ge> (192 :: nat))"

definition str_slice_to :: "string \<Rightarrow> nat \<Rightarrow> string option" where
  "str_slice_to s n = (if is_char_boundary s n then Some (take n s) else None)"

definition str_slice_from :: "string \<Rightarrow> nat \<Rightarrow> string option" where
  "str_slice_from s n = (if is_char_boundary s n then Some (drop n s) else None)"

section \<open>Searching and letter case\<close>

fun str_contains :: "string \<Rightarrow> string \<Rightarrow> bool" where
  "str_contains [] p = (p = [])"
| "str_contains (c # cs) p = (starts_with (c # cs) p \<or> str_contains cs p)"

definition ends_with :: "string \<Rightarrow> string \<Rightarrow> bool" where
  "ends_with s p = starts_with (rev s) (rev p)"

text \<open>\<open>trim_start_matches("0x")\<close> removes the prefix as often as it occurs.\<close>

fun trim_0x :: "string \<Rightarrow> string" where
  "trim_0x (c # d # cs) = (if c = CHR ''0'' \<and> d = CHR ''x'' then trim_0x cs else c # d # cs)"
| "trim_0x s = s"

definition is_ascii :: "string \<Rightarrow> bool" where
  "is_ascii s = list_all (\<lambda>c. of_char c < (128 :: nat)) s"

definition ascii_lower :: "char \<Rightarrow> char" where
  "ascii_lower c = (if of_char c \<in> {65 .. 90 :: nat} then char_of (of_char c + 32 :: nat) else c)"

definition ascii_upper :: "char \<Rightarrow> char" where
  "ascii_upper c = (if of_char c \<in> {97 .. 122 :: nat} then char_of (of_char c - 32 :: nat) else c)"

definition is_ascii_hexdigit :: "char \<Rightarrow> bool" where
  "is_ascii_hexdigit c = (of_char c \<in> {48 .. 57 :: nat} \<union> {65 .. 70} \<union> {97 .. 102})"

text \<open>\<open>to_lowercase\<close> and \<open>to_uppercase\<close> are those of Unicode; \<open>tables\<close> stands for the case tables of the
  standard library, which matter only for a string that is not ASCII.\<close>

definition to_lowercase :: "(string \<Rightarrow> string) \<Rightarrow> string \<Rightarrow> string" where
  "to_lowercase tables s = (if is_ascii s then map ascii_lower s else tables s)"

definition to_uppercase :: "(string \<Rightarrow> string) \<Rightarrow> string \<Rightarrow> string" where
  "to_uppercase tables s = (if is_ascii s then map ascii_upper s else tables s)"

lemma str_contains_split: "str_contains (a @ p @ b) p"
proof (induction a)
  case Nil
  show ?case using starts_with_append [of p b] by (cases "p @ b") auto
qed simp

lemma starts_with_no_sep:
  assumes "c \<notin> set p"
  shows "starts_with (a @ c # b) p \<longleftrightarrow> starts_with a p"
proof (cases "length p \<le> length a")
  case False
  then obtain k where k: "length p - length a = Suc k" by (cases "length p - length a") auto
  have "c \<in> set (take (length p) (a @ c # b))" by (simp add: k)
  then have "take (length p) (a @ c # b) \<noteq> p" using assms by metis
  moreover have "length (take (length p) a) \<noteq> length p" using False by simp
  then have "take (length p) a \<noteq> p" by metis
  ultimately show ?thesis by (simp add: starts_with_def)
qed (simp add: starts_with_def)

lemma str_contains_nil [simp]: "str_contains s []"
  by (cases s) (simp_all add: starts_with_def)

lemma str_contains_sep:
  assumes "c \<notin> set p"
  shows "str_contains (a @ c # b) p \<longleftrightarrow> str_contains a p \<or> str_contains b p"
proof (induction a)
  case Nil
  show ?case using starts_with_no_sep [OF assms, of "[]" b] by (auto simp: starts_with_def)
next
  case (Cons x a)
  then show ?case using starts_with_no_sep [OF assms, of "x # a" b] by simp
qed

section \<open>Splitting\<close>

primrec str_split :: "char \<Rightarrow> string \<Rightarrow> string list" where
  "str_split c [] = [[]]"
| "str_split c (x # xs) =
     (if x = c then [] # str_split c xs
      else case str_split c xs of [] \<Rightarrow> [[x]] | p # ps \<Rightarrow> (x # p) # ps)"

text \<open>\<open>splitn(n, c)\<close>: at most \<open>n\<close> pieces, the last one holds the rest.\<close>

definition before_char :: "char \<Rightarrow> string \<Rightarrow> string" where
  "before_char c s = takeWhile (\<lambda>x. x \<noteq> c) s"

definition after_char :: "char \<Rightarrow> string \<Rightarrow> string" where
  "after_char c s = tl (dropWhile (\<lambda>x. x \<noteq> c) s)"

fun str_splitn :: "nat \<Rightarrow> char \<Rightarrow> string \<Rightarrow> string list" where
  "str_splitn 0 c s = []"
| "str_splitn (Suc 0) c s = [s]"
| "str_splitn (Suc (Suc n)) c s =
     (if c \<in> set s then before_char c s # str_splitn (Suc n) c (after_char c s) else [s])"

lemma str_split_nonempty: "str_split c s \<noteq> []"
  by (induction s) (auto split: list.split)

lemma length_str_split: "length (str_split c s) = Suc (count_list s c)"
proof (induction s)
  case Nil
  then show ?case by simp
next
  case (Cons x xs)
  then show ?case
    using str_split_nonempty [of c xs] by (auto split: list.split)
qed

lemma str_splitn_two: "length (str_splitn (Suc (Suc n)) c s) \<ge> 2 \<longleftrightarrow> c \<in> set s"
  by (cases n) auto

section \<open>Trimming\<close>

text \<open>
  \<open>trim\<close> removes Unicode white space at both ends. The white-space characters are listed by their
  UTF-8 encodings.
\<close>

definition white_space :: "string list" where
  "white_space =
     [[CHR 0x09], [CHR 0x0A], [CHR 0x0B], [CHR 0x0C], [CHR 0x0D], [CHR 0x20],
      [CHR 0xC2, CHR 0x85], [CHR 0xC2, CHR 0xA0], [CHR 0xE1, CHR 0x9A, CHR 0x80],
      [CHR 0xE2, CHR 0x80, CHR 0x80], [CHR 0xE2, CHR 0x80, CHR 0x81], [CHR 0xE2, CHR 0x80, CHR 0x82],
      [CHR 0xE2, CHR 0x80, CHR 0x83], [CHR 0xE2, CHR 0x80, CHR 0x84], [CHR 0xE2, CHR 0x80, CHR 0x85],
      [CHR 0xE2, CHR 0x80, CHR 0x86], [CHR 0xE2, CHR 0x80, CHR 0x87], [CHR 0xE2, CHR 0x80, CHR 0x88],
      [CHR 0xE2, CHR 0x80, CHR 0x89], [CHR 0xE2, CHR 0x80, CHR 0x8A], [CHR 0xE2, CHR 0x80, CHR 0xA8],
      [CHR 0xE2, CHR 0x80, CHR 0xA9], [CHR 0xE2, CHR 0x80, CHR 0xAF], [CHR 0xE2, CHR 0x81, CHR 0x9F],
      [CHR 0xE3, CHR 0x80, CHR 0x80]]"

text \<open>Strip leading members of \<open>ws\<close>; \<open>fuel\<close> bounds the number of characters removed.\<close>

fun strip_start :: "nat \<Rightarrow> string list \<Rightarrow> string \<Rightarrow> string" where
  "strip_start 0 ws s = s"
| "strip_start (Suc fuel) ws s =
     (case List.find (starts_with s) ws of
        None \<Rightarrow> s
      | Some w \<Rightarrow> strip_start fuel ws (drop (length w) s))"

definition str_trim :: "string \<Rightarrow> string" where
  "str_trim s =
     (let t = strip_start (length s) white_space s
      in rev (strip_start (length t) (map rev white_space) (rev t)))"

text \<open>The fuel is enough: no white space is left in front.\<close>

lemma strip_start_done:
  assumes "\<forall>w \<in> set ws. w \<noteq> []"
  shows "length s \<le> fuel \<Longrightarrow> \<forall>w \<in> set ws. \<not> starts_with (strip_start fuel ws s) w"
proof (induction fuel arbitrary: s)
  case 0
  with assms show ?case by (auto simp: starts_with_def)
next
  case (Suc fuel)
  show ?case
  proof (cases "List.find (starts_with s) ws")
    case None
    then have "\<forall>w \<in> set ws. \<not> starts_with s w" by (simp add: find_None_iff)
    with None show ?thesis by simp
  next
    case (Some w)
    then have "w \<in> set ws" and "starts_with s w" by (auto simp: find_Some_iff)
    with assms have "0 < length w" and "length (drop (length w) s) < length s"
      by (auto simp: starts_with_def intro!: diff_less)
    with Suc.prems have "length (drop (length w) s) \<le> fuel" by linarith
    from Suc.IH [OF this] Some show ?thesis by simp
  qed
qed

section \<open>Decimal numbers\<close>

definition digit_value :: "char \<Rightarrow> 'a::len word option" where
  "digit_value c =
     (if CHR ''0'' \<le> c \<and> c \<le> CHR ''9'' then Some (of_nat (of_char c - 48)) else None)"

fun parse_digits :: "string \<Rightarrow> 'a::len word \<Rightarrow> 'a word option" where
  "parse_digits [] acc = Some acc"
| "parse_digits (c # cs) acc =
     (case digit_value c of
        None \<Rightarrow> None
      | Some d \<Rightarrow>
          (case checked_mul acc 10 of
             None \<Rightarrow> None
           | Some m \<Rightarrow>
               (case checked_add m d of None \<Rightarrow> None | Some v \<Rightarrow> parse_digits cs v)))"

text \<open>
  \<open>str::parse\<close> for an unsigned integer type: the empty string and a lone sign are errors, one
  leading \<open>+\<close> is allowed, overflow is an error.
\<close>

definition parse_uint :: "string \<Rightarrow> 'a::len word option" where
  "parse_uint s =
     (case s of
        [] \<Rightarrow> None
      | c # cs \<Rightarrow>
          if c = CHR ''+'' then (if cs = [] then None else parse_digits cs 0)
          else parse_digits s 0)"

definition digit_char :: "nat \<Rightarrow> char" where
  "digit_char d = char_of (48 + d)"

fun nat_to_string :: "nat \<Rightarrow> string" where
  "nat_to_string n =
     (if n < 10 then [digit_char n] else nat_to_string (n div 10) @ [digit_char (n mod 10)])"

declare nat_to_string.simps [simp del]

definition uint_to_string :: "'a::len word \<Rightarrow> string" where
  "uint_to_string w = nat_to_string (unat w)"

lemma digit_char_value:
  "d < 10 \<Longrightarrow> digit_value (digit_char d) = Some (of_nat d)"
  by (simp add: digit_value_def digit_char_def less_eq_char_def)

lemma parse_digits_append:
  "parse_digits (xs @ ys) acc =
     (case parse_digits xs acc of None \<Rightarrow> None | Some v \<Rightarrow> parse_digits ys v)"
  by (induction xs arbitrary: acc) (auto split: option.split)

lemma nat_to_string_nonempty: "nat_to_string n \<noteq> []"
  by (subst nat_to_string.simps) simp

lemma parse_digit_step:
  fixes acc :: "'a::len word"
  assumes "4 \<le> LENGTH('a)" "d < 10" "10 * unat acc + d < 2 ^ LENGTH('a)"
  shows "parse_digits [digit_char d] acc = Some (10 * acc + of_nat d)"
proof -
  have e: "(16 :: nat) \<le> 2 ^ LENGTH('a)"
    using power_increasing [OF assms(1), of "2 :: nat"] by simp
  then have ten: "take_bit LENGTH('a) (10 :: nat) = 10"
    by (simp add: take_bit_nat_eq_self)
  have dv: "unat (of_nat d :: 'a word) = d"
    using e assms(2) by (simp add: unat_of_nat_small)
  have m: "checked_mul acc 10 = Some (acc * 10)"
    using assms(3) by (simp add: checked_mul_def ten)
  moreover have "unat (acc * 10) = unat acc * 10"
    using assms(3) by (subst unat_mult_exact) (simp_all add: ten)
  ultimately show ?thesis
    using assms(2,3) by (simp add: digit_char_value checked_add_def dv mult.commute)
qed

lemma parse_nat_to_string:
  assumes "4 \<le> LENGTH('a)" "n < 2 ^ LENGTH('a)"
  shows "parse_digits (nat_to_string n) (0 :: 'a::len word) = Some (of_nat n)"
  using assms(2)
proof (induction n rule: nat_to_string.induct)
  case (1 n)
  show ?case
  proof (cases "n < 10")
    case True
    with 1 assms(1) show ?thesis
      by (subst nat_to_string.simps) (simp add: parse_digit_step [where acc = 0, simplified])
  next
    case False
    have "n div 10 < 2 ^ LENGTH('a)" using 1(2) by (rule le_less_trans [OF div_le_dividend])
    with 1(1) False have IH: "parse_digits (nat_to_string (n div 10)) (0 :: 'a word) = Some (of_nat (n div 10))"
      by simp
    have u: "unat (of_nat (n div 10) :: 'a word) = n div 10"
      using \<open>n div 10 < 2 ^ LENGTH('a)\<close> by (rule unat_of_nat_small)
    have "parse_digits [digit_char (n mod 10)] (of_nat (n div 10) :: 'a word)
        = Some (10 * of_nat (n div 10) + of_nat (n mod 10))"
      by (rule parse_digit_step) (use assms(1) 1(2) in \<open>simp_all add: u\<close>)
    also have "(10 * of_nat (n div 10) + of_nat (n mod 10) :: 'a word) = of_nat (10 * (n div 10) + n mod 10)"
      by (simp only: of_nat_add of_nat_mult of_nat_numeral)
    finally show ?thesis
      using False by (subst nat_to_string.simps) (simp add: parse_digits_append IH)
  qed
qed

lemma nat_to_string_digits: "c \<in> set (nat_to_string n) \<Longrightarrow> CHR ''0'' \<le> c \<and> c \<le> CHR ''9''"
proof (induction n rule: nat_to_string.induct)
  case (1 n)
  then show ?case
    by (subst (asm) nat_to_string.simps)
      (auto simp: digit_char_def less_eq_char_def split: if_splits)
qed

lemma parse_uint_to_string:
  assumes "4 \<le> LENGTH('a)"
  shows "parse_uint (uint_to_string w) = Some (w :: 'a::len word)"
proof (cases "nat_to_string (unat w)")
  case Nil
  then show ?thesis using nat_to_string_nonempty by simp
next
  case (Cons c cs)
  then have "c \<noteq> CHR ''+''"
    using nat_to_string_digits [of c "unat w"] by (auto simp: less_eq_char_def)
  then show ?thesis
    using Cons parse_nat_to_string [OF assms, of "unat w"]
    by (simp add: parse_uint_def uint_to_string_def unat_less_exp)
qed

lemma uint_to_string_inject:
  assumes "4 \<le> LENGTH('a)"
  shows "uint_to_string (v :: 'a::len word) = uint_to_string w \<longleftrightarrow> v = w"
  by (metis assms parse_uint_to_string option.inject)

lemma colon_not_digit: "CHR '':'' \<notin> set (nat_to_string n)"
  using nat_to_string_digits [of "CHR '':''" n] by (auto simp: less_eq_char_def)

text \<open>A text splits in one way at its last separator.\<close>

lemma last_sep_split:
  assumes "c \<notin> set f" "c \<notin> set g"
  shows "p @ c # f = q @ c # g \<longleftrightarrow> p = q \<and> f = g"
proof
  assume "p @ c # f = q @ c # g"
  then have "rev f @ c # rev p = rev g @ c # rev q" by (metis append.assoc append_Cons append_Nil rev.simps(2) rev_append rev_rev_ident)
  then have "takeWhile (\<lambda>x. x \<noteq> c) (rev f @ c # rev p) = takeWhile (\<lambda>x. x \<noteq> c) (rev g @ c # rev q)" by simp
  moreover have "takeWhile (\<lambda>x. x \<noteq> c) (rev h @ c # ys) = rev h" if "c \<notin> set h" for h ys
    by (rule takeWhile_tail [THEN trans]) (use that in auto)
  ultimately have "f = g" using assms by simp
  with \<open>p @ c # f = q @ c # g\<close> show "p = q \<and> f = g" by simp
qed simp

end
