(* ===== verification/Crypto.thy ===== *)
theory Crypto
  imports Los_Strings
begin

text \<open>
  The part of \<open>los-crypto\<close> that the ledger calls: address derivation, address validation and the
  dispatch of signature verification. Third-party code is a field of the environment \<open>los_env\<close>:
  the hash functions of \<open>sha2\<close>, \<open>sha3\<close> and \<open>blake2\<close>, the codecs of \<open>bs58\<close> and \<open>hex\<close>, and the
  signature schemes. The Cargo feature \<open>mainnet\<close> is a field too.
\<close>

record los_env =
  mainnet_feature :: bool
  keccak256 :: "bytes \<Rightarrow> bytes"
  sha256 :: "bytes \<Rightarrow> bytes"
  blake2b512 :: "bytes \<Rightarrow> bytes"
  bs58_encode :: "bytes \<Rightarrow> string"
  bs58_decode :: "string \<Rightarrow> bytes option"
  hex_encode :: "bytes \<Rightarrow> string"
  hex_decode :: "string \<Rightarrow> bytes option"
  dilithium_pk_valid :: "bytes \<Rightarrow> bool"
  dilithium_sig_valid :: "bytes \<Rightarrow> bool"
  dilithium_verify :: "bytes \<Rightarrow> bytes \<Rightarrow> bytes \<Rightarrow> bool"
  ed25519_pk_valid :: "bytes \<Rightarrow> bool"
  ed25519_verify :: "bytes \<Rightarrow> bytes \<Rightarrow> bytes \<Rightarrow> bool"

section \<open>Signatures\<close>

definition verify_dilithium5 :: "los_env \<Rightarrow> bytes \<Rightarrow> bytes \<Rightarrow> bytes \<Rightarrow> bool" where
  "verify_dilithium5 env message signature_bytes public_key_bytes =
     (if \<not> dilithium_pk_valid env public_key_bytes then False
      else if \<not> dilithium_sig_valid env signature_bytes then False
      else dilithium_verify env signature_bytes message public_key_bytes)"

definition verify_ed25519 :: "los_env \<Rightarrow> bytes \<Rightarrow> bytes \<Rightarrow> bytes \<Rightarrow> bool" where
  "verify_ed25519 env message signature_bytes public_key_bytes =
     (if length public_key_bytes \<noteq> 32 then False
      else if \<not> ed25519_pk_valid env public_key_bytes then False
      else if length signature_bytes \<noteq> 64 then False
      else ed25519_verify env public_key_bytes message signature_bytes)"

definition crypto_verify_signature :: "los_env \<Rightarrow> bytes \<Rightarrow> bytes \<Rightarrow> bytes \<Rightarrow> bool" where
  "crypto_verify_signature env message signature_bytes public_key_bytes =
     (if \<not> mainnet_feature env \<and> length public_key_bytes = 32 \<and> length signature_bytes = 64
      then verify_ed25519 env message signature_bytes public_key_bytes
      else verify_dilithium5 env message signature_bytes public_key_bytes)"

section \<open>Addresses\<close>

definition version_byte :: u8 where
  "version_byte = 0x4A"

definition address_checksum :: "los_env \<Rightarrow> bytes \<Rightarrow> bytes" where
  "address_checksum env payload = take 4 (sha256 env (sha256 env payload))"

definition public_key_to_address :: "los_env \<Rightarrow> bytes \<Rightarrow> string" where
  "public_key_to_address env public_key_bytes =
     (let pubkey_hash = take 20 (blake2b512 env public_key_bytes);
          payload = version_byte # pubkey_hash;
          checksum = address_checksum env payload;
          address_bytes = payload @ checksum
      in ''LOS'' @ bs58_encode env address_bytes)"

definition validate_address :: "los_env \<Rightarrow> string \<Rightarrow> bool" where
  "validate_address env address =
     (if \<not> starts_with address ''LOS'' then False
      else case bs58_decode env (drop 3 address) of
             None \<Rightarrow> False
           | Some decoded \<Rightarrow>
               if length decoded \<noteq> 25 then False
               else drop 21 decoded = address_checksum env (take 21 decoded))"

definition address_to_pubkey_hash :: "los_env \<Rightarrow> string \<Rightarrow> bytes option" where
  "address_to_pubkey_hash env address =
     (if \<not> validate_address env address then None
      else case bs58_decode env (drop 3 address) of
             None \<Rightarrow> None
           | Some decoded \<Rightarrow> Some (drop 1 (take 21 decoded)))"

text \<open>Documented behaviour of the hash functions and of the Base58 codec.\<close>

definition hash_lengths :: "los_env \<Rightarrow> bool" where
  "hash_lengths env \<longleftrightarrow>
     (\<forall>b. length (blake2b512 env b) = 64) \<and> (\<forall>b. length (sha256 env b) = 32)"

definition bs58_roundtrip :: "los_env \<Rightarrow> bool" where
  "bs58_roundtrip env \<longleftrightarrow> (\<forall>b. bs58_decode env (bs58_encode env b) = Some b)"

lemma public_key_to_address_prefix: "starts_with (public_key_to_address env pk) ''LOS''"
  by (simp add: public_key_to_address_def starts_with_def Let_def)

text \<open>A derived address validates, and the public-key hash can be read back from it.\<close>

theorem derived_address_valid:
  assumes "hash_lengths env" "bs58_roundtrip env"
  shows "validate_address env (public_key_to_address env pk)
    \<and> address_to_pubkey_hash env (public_key_to_address env pk) = Some (take 20 (blake2b512 env pk))"
proof -
  let ?payload = "version_byte # take 20 (blake2b512 env pk)"
  have len: "length ?payload = 21" "length (address_checksum env ?payload) = 4"
    using assms(1) by (simp_all add: hash_lengths_def address_checksum_def)
  have dec: "bs58_decode env (drop 3 (public_key_to_address env pk))
      = Some (?payload @ address_checksum env ?payload)"
    using assms(2) by (simp add: public_key_to_address_def bs58_roundtrip_def Let_def)
  have "validate_address env (public_key_to_address env pk)"
    using len by (simp add: validate_address_def public_key_to_address_prefix dec)
  with len show ?thesis by (simp add: address_to_pubkey_hash_def dec)
qed

text \<open>An environment in which the documented behaviour holds: padding hashes and a plain codec.\<close>

definition plain_env :: "bool \<Rightarrow> los_env" where
  "plain_env mainnet =
     \<lparr>mainnet_feature = mainnet,
      keccak256 = (\<lambda>b. take 32 (b @ replicate 32 0)),
      sha256 = (\<lambda>b. take 32 (b @ replicate 32 0)),
      blake2b512 = (\<lambda>b. take 64 (b @ replicate 64 0)),
      bs58_encode = map (\<lambda>w. char_of (unat w)),
      bs58_decode = (\<lambda>s. Some (as_bytes s)),
      hex_encode = map (\<lambda>w. char_of (unat w)),
      hex_decode = (\<lambda>s. Some (as_bytes s)),
      dilithium_pk_valid = (\<lambda>_. True),
      dilithium_sig_valid = (\<lambda>_. True),
      dilithium_verify = (\<lambda>_ _ _. True),
      ed25519_pk_valid = (\<lambda>_. True),
      ed25519_verify = (\<lambda>_ _ _. True)\<rparr>"

lemma as_bytes_char_of: "as_bytes (map (\<lambda>w. char_of (unat w)) b) = b"
proof -
  have "(of_char (char_of (unat w)) :: 8 word) = w" for w :: "8 word"
  proof -
    have "unat (of_char (char_of (unat w)) :: 8 word) = unat w"
      using unat_less_exp [of w] by (simp add: unat_of_char)
    then show ?thesis by (simp only: word_unat_eq_iff)
  qed
  then show ?thesis by (simp add: as_bytes_def comp_def)
qed

theorem derived_address_valid_witness:
  "validate_address (plain_env True) (public_key_to_address (plain_env True) [1, 2, 3])
    \<and> address_to_pubkey_hash (plain_env True) (public_key_to_address (plain_env True) [1, 2, 3])
      = Some ([1, 2, 3] @ replicate 17 0)"
proof -
  have h: "hash_lengths (plain_env True)" "bs58_roundtrip (plain_env True)"
    by (auto simp: hash_lengths_def bs58_roundtrip_def plain_env_def as_bytes_char_of min_def)
  have "take 20 (blake2b512 (plain_env True) [1, 2, 3]) = [1, 2, 3] @ replicate 17 0"
    by (simp add: plain_env_def take_replicate)
  with derived_address_valid [OF h, of "[1, 2, 3]"] show ?thesis by simp
qed

end
