(* ===== verification/BTree_Map.thy ===== *)
theory BTree_Map
  imports Los_Prelude
begin

text \<open>
  \<open>std::collections::BTreeMap\<close> as a list of entries in strictly increasing key order. Iteration in
  key order, which the sources rely on for determinism, is the list itself. The contract the
  components use (what a lookup returns after an insert or a remove, that entries stay ordered) is
  the locale \<open>ordered_map\<close>, with the lemmas on sums over all values that the conservation proofs
  need; it is interpreted on the list operations below.
\<close>

section \<open>The contract\<close>

locale ordered_map =
  fixes emp :: 'm
    and get :: "'m \<Rightarrow> 'k::linorder \<Rightarrow> 'v option"
    and put :: "'k \<Rightarrow> 'v \<Rightarrow> 'm \<Rightarrow> 'm"
    and del :: "'k \<Rightarrow> 'm \<Rightarrow> 'm"
    and entries :: "'m \<Rightarrow> ('k \<times> 'v) list"
    and ok :: "'m \<Rightarrow> bool"
  assumes ok_emp: "ok emp"
    and get_emp: "get emp k = None"
    and ok_put: "ok m \<Longrightarrow> ok (put k v m)"
    and get_put: "ok m \<Longrightarrow> get (put k v m) k' = (if k' = k then Some v else get m k')"
    and ok_del: "ok m \<Longrightarrow> ok (del k m)"
    and get_del: "ok m \<Longrightarrow> get (del k m) k' = (if k' = k then None else get m k')"
    and entries_ordered: "ok m \<Longrightarrow> sorted_wrt (<) (map fst (entries m))"
    and entries_get: "ok m \<Longrightarrow> (k, v) \<in> set (entries m) \<longleftrightarrow> get m k = Some v"
begin

definition total :: "('v \<Rightarrow> nat) \<Rightarrow> 'm \<Rightarrow> nat" where
  "total f m = sum_list (map (f \<circ> snd) (entries m))"

definition share :: "('v \<Rightarrow> nat) \<Rightarrow> 'k \<Rightarrow> 'm \<Rightarrow> nat" where
  "share f k m = (case get m k of None \<Rightarrow> 0 | Some v \<Rightarrow> f v)"

lemma entries_distinct: "ok m \<Longrightarrow> distinct (map fst (entries m))"
  using entries_ordered by (simp add: strict_sorted_iff)

lemma dom_get: "ok m \<Longrightarrow> dom (get m) = fst ` set (entries m)"
  by (force simp: entries_get [symmetric] dom_def image_def)

lemma finite_dom_get: "ok m \<Longrightarrow> finite (dom (get m))"
  by (simp add: dom_get)

lemma total_as_sum: "ok m \<Longrightarrow> total f m = (\<Sum>k \<in> dom (get m). share f k m)"
proof -
  assume ok: "ok m"
  have "total f m = sum_list (map (\<lambda>e. share f (fst e) m) (entries m))"
    unfolding total_def share_def
    by (rule arg_cong [where f = sum_list], rule map_cong)
      (use ok in \<open>auto simp: entries_get\<close>)
  also have "\<dots> = sum_list (map (\<lambda>k. share f k m) (map fst (entries m)))"
    by (simp add: comp_def)
  also have "\<dots> = (\<Sum>k \<in> set (map fst (entries m)). share f k m)"
    using entries_distinct [OF ok] by (rule sum_list_distinct_conv_sum_set)
  finally show ?thesis by (simp add: dom_get [OF ok])
qed

text \<open>A sum over any finite key set that covers the domain.\<close>

lemma total_as_sum_super:
  assumes "ok m" "finite K" "dom (get m) \<subseteq> K"
  shows "total f m = (\<Sum>k \<in> K. share f k m)"
proof -
  have "(\<Sum>k \<in> dom (get m). share f k m) = (\<Sum>k \<in> K. share f k m)"
    by (rule sum.mono_neutral_left) (use assms in \<open>auto simp: share_def split: option.split\<close>)
  then show ?thesis by (simp add: total_as_sum [OF assms(1)])
qed

lemma share_put: "ok m \<Longrightarrow> share f k' (put k v m) = (if k' = k then f v else share f k' m)"
  by (simp add: share_def get_put)

lemma share_del: "ok m \<Longrightarrow> share f k' (del k m) = (if k' = k then 0 else share f k' m)"
  by (simp add: share_def get_del)

text \<open>Replacing the value of one key changes the total by exactly that key's share.\<close>

lemma total_put:
  assumes "ok m"
  shows "total f (put k v m) + share f k m = total f m + f v"
proof -
  let ?K = "insert k (dom (get m))"
  have fin: "finite ?K" using finite_dom_get [OF assms] by simp
  have sup: "dom (get (put k v m)) \<subseteq> ?K"
    by (auto simp: get_put [OF assms] split: if_splits)
  have "total f (put k v m) = (\<Sum>k' \<in> ?K. if k' = k then f v else share f k' m)"
    using total_as_sum_super [OF ok_put [OF assms] fin sup] by (simp add: share_put [OF assms])
  also have "\<dots> = f v + (\<Sum>k' \<in> ?K - {k}. share f k' m)"
    using fin by (subst sum.remove [of _ k]) (auto intro: sum.cong)
  finally have 1: "total f (put k v m) = f v + (\<Sum>k' \<in> ?K - {k}. share f k' m)" .
  have "total f m = (\<Sum>k' \<in> ?K. share f k' m)"
    by (rule total_as_sum_super [OF assms fin]) auto
  also have "\<dots> = share f k m + (\<Sum>k' \<in> ?K - {k}. share f k' m)"
    using fin by (subst sum.remove [of _ k]) auto
  finally show ?thesis using 1 by simp
qed

lemma share_le_total: "ok m \<Longrightarrow> share f k m \<le> total f m"
proof (cases "k \<in> dom (get m)")
  case True
  assume ok: "ok m"
  then show ?thesis
    using True member_le_sum [of k "dom (get m)" "\<lambda>k. share f k m"] finite_dom_get
    by (simp add: total_as_sum)
next
  case False
  then show ?thesis by (simp add: share_def domIff)
qed

lemma total_del:
  assumes "ok m"
  shows "total f (del k m) + share f k m = total f m"
proof -
  let ?D = "dom (get m)"
  have fin: "finite (insert k ?D)" using finite_dom_get [OF assms] by simp
  have sup: "dom (get (del k m)) \<subseteq> insert k ?D"
    by (auto simp: get_del [OF assms] split: if_splits)
  have "total f (del k m) = (\<Sum>k' \<in> insert k ?D. if k' = k then 0 else share f k' m)"
    using total_as_sum_super [OF ok_del [OF assms] fin sup] by (simp add: share_del [OF assms])
  also have "\<dots> = (\<Sum>k' \<in> insert k ?D - {k}. share f k' m)"
    using fin by (subst sum.remove [of _ k]) (auto intro: sum.cong)
  finally have "total f (del k m) = (\<Sum>k' \<in> insert k ?D - {k}. share f k' m)" .
  moreover have "total f m = (\<Sum>k' \<in> insert k ?D. share f k' m)"
    by (rule total_as_sum_super [OF assms fin]) auto
  ultimately show ?thesis
    using sum.remove [OF fin insertI1, of "\<lambda>k'. share f k' m"] by simp
qed

lemma total_mono:
  assumes "ok m" "ok m'" "\<And>k. share f k m \<le> share f k m'"
  shows "total f m \<le> total f m'"
proof -
  let ?K = "dom (get m) \<union> dom (get m')"
  have fin: "finite ?K" using assms(1,2) by (simp add: finite_dom_get)
  have "total f m = (\<Sum>k \<in> ?K. share f k m)" by (rule total_as_sum_super [OF assms(1) fin]) simp
  also have "\<dots> \<le> (\<Sum>k \<in> ?K. share f k m')" by (rule sum_mono) (rule assms(3))
  also have "\<dots> = total f m'" by (rule total_as_sum_super [OF assms(2) fin, symmetric]) simp
  finally show ?thesis .
qed

lemma total_cong:
  assumes "ok m" and "\<And>k v. get m k = Some v \<Longrightarrow> f v = g v"
  shows "total f m = total g m"
  unfolding total_def
  by (rule arg_cong [where f = sum_list], rule map_cong) (use assms in \<open>auto simp: entries_get\<close>)

end

section \<open>Entries in key order\<close>

type_synonym ('k, 'v) btree_map = "('k \<times> 'v) list"

definition bt_ok :: "('k::linorder, 'v) btree_map \<Rightarrow> bool" where
  "bt_ok m = sorted_wrt (<) (map fst m)"

definition bt_get :: "('k, 'v) btree_map \<Rightarrow> 'k \<Rightarrow> 'v option" where
  "bt_get m k = map_of m k"

definition bt_contains :: "('k, 'v) btree_map \<Rightarrow> 'k \<Rightarrow> bool" where
  "bt_contains m k = (bt_get m k \<noteq> None)"

primrec bt_insert :: "'k::linorder \<Rightarrow> 'v \<Rightarrow> ('k, 'v) btree_map \<Rightarrow> ('k, 'v) btree_map" where
  "bt_insert k v [] = [(k, v)]"
| "bt_insert k v (e # es) =
     (if fst e < k then e # bt_insert k v es
      else if fst e = k then (k, v) # es
      else (k, v) # e # es)"

definition bt_remove :: "'k \<Rightarrow> ('k, 'v) btree_map \<Rightarrow> ('k, 'v) btree_map" where
  "bt_remove k m = filter (\<lambda>e. fst e \<noteq> k) m"

definition bt_keys :: "('k, 'v) btree_map \<Rightarrow> 'k list" where
  "bt_keys m = map fst m"

definition bt_values :: "('k, 'v) btree_map \<Rightarrow> 'v list" where
  "bt_values m = map snd m"

text \<open>\<open>for v in m.values_mut()\<close>: every value is replaced, keys and order stay.\<close>

definition bt_map_values :: "('v \<Rightarrow> 'v) \<Rightarrow> ('k, 'v) btree_map \<Rightarrow> ('k, 'v) btree_map" where
  "bt_map_values f m = map (\<lambda>(k, v). (k, f v)) m"

text \<open>\<open>if let Some(v) = m.get_mut(k)\<close>: the value at one key is replaced if there is one.\<close>

definition bt_modify :: "'k::linorder \<Rightarrow> ('v \<Rightarrow> 'v) \<Rightarrow> ('k, 'v) btree_map \<Rightarrow> ('k, 'v) btree_map" where
  "bt_modify k f m = (case bt_get m k of None \<Rightarrow> m | Some v \<Rightarrow> bt_insert k (f v) m)"

lemma bt_ok_Nil [simp]: "bt_ok []"
  by (simp add: bt_ok_def)

lemma bt_ok_Cons: "bt_ok (e # es) \<longleftrightarrow> (\<forall>x \<in> fst ` set es. fst e < x) \<and> bt_ok es"
  by (auto simp: bt_ok_def)

lemma bt_ok_sorted: "bt_ok m \<Longrightarrow> sorted_wrt (<) (map fst m)"
  by (simp add: bt_ok_def)

lemma bt_get_Nil [simp]: "bt_get [] k = None"
  by (simp add: bt_get_def)

lemma bt_get_Cons [simp]: "bt_get (e # es) k = (if k = fst e then Some (snd e) else bt_get es k)"
  by (simp add: bt_get_def split: prod.split)

lemma set_bt_insert_keys: "fst ` set (bt_insert k v m) = insert k (fst ` set m)"
  by (induction m) auto

lemma bt_ok_insert [simp, intro]: "bt_ok m \<Longrightarrow> bt_ok (bt_insert k v m)"
proof (induction m)
  case Nil
  then show ?case by (simp add: bt_ok_def)
next
  case (Cons e es)
  then show ?case
    using set_bt_insert_keys [of k v es] by (fastforce simp: bt_ok_Cons)
qed

lemma bt_get_insert [simp]: "bt_get (bt_insert k v m) k' = (if k' = k then Some v else bt_get m k')"
  by (induction m) auto

lemma bt_get_absent: "k \<notin> fst ` set m \<Longrightarrow> bt_get m k = None"
  by (simp add: bt_get_def map_of_eq_None_iff)

lemma bt_ok_filter: "bt_ok m \<Longrightarrow> bt_ok (filter P m)"
  by (induction m) (auto simp: bt_ok_Cons)

lemma bt_ok_remove [simp, intro]: "bt_ok m \<Longrightarrow> bt_ok (bt_remove k m)"
  by (simp add: bt_remove_def bt_ok_filter)

lemma bt_get_remove [simp]: "bt_get (bt_remove k m) k' = (if k' = k then None else bt_get m k')"
  by (induction m) (auto simp: bt_remove_def)

lemma bt_entries_get: "bt_ok m \<Longrightarrow> (k, v) \<in> set m \<longleftrightarrow> bt_get m k = Some v"
  by (induction m) (auto simp: bt_ok_Cons bt_get_absent)

lemma bt_keys_iff: "k \<in> set (bt_keys m) \<longleftrightarrow> bt_get m k \<noteq> None"
  by (simp add: bt_keys_def bt_get_def map_of_eq_None_iff)

lemma bt_get_map_values [simp]: "bt_get (bt_map_values f m) k = map_option f (bt_get m k)"
  by (induction m) (auto simp: bt_map_values_def)

lemma bt_ok_map_values [simp]: "bt_ok (bt_map_values f m) = bt_ok m"
  by (simp add: bt_ok_def bt_map_values_def comp_def case_prod_beta)

lemma bt_ok_modify [simp, intro]: "bt_ok m \<Longrightarrow> bt_ok (bt_modify k f m)"
  by (simp add: bt_modify_def split: option.split)

lemma bt_get_modify [simp]:
  "bt_get (bt_modify k f m) k' = (if k' = k then map_option f (bt_get m k) else bt_get m k')"
  by (simp add: bt_modify_def split: option.split)

lemma length_bt_insert: "length (bt_insert k v m) \<le> Suc (length m)"
  by (induction m) auto

lemma length_bt_insert_fresh: "bt_get m k = None \<Longrightarrow> length (bt_insert k v m) = Suc (length m)"
  by (induction m) (auto simp: bt_get_def split: if_splits)

lemma bt_contains_iff: "bt_contains m k \<longleftrightarrow> (\<exists>v. bt_get m k = Some v)"
  by (auto simp: bt_contains_def)

interpretation bt: ordered_map "[]" bt_get bt_insert bt_remove "\<lambda>m. m" bt_ok
  by unfold_locales (simp_all add: bt_entries_get bt_ok_sorted)

text \<open>The sum of a measure over all values, and the facts of the contract on it.\<close>

definition bt_sum :: "('v \<Rightarrow> nat) \<Rightarrow> ('k, 'v) btree_map \<Rightarrow> nat" where
  "bt_sum f m = sum_list (map (f \<circ> snd) m)"

definition bt_share :: "('v \<Rightarrow> nat) \<Rightarrow> 'k \<Rightarrow> ('k, 'v) btree_map \<Rightarrow> nat" where
  "bt_share f k m = (case bt_get m k of None \<Rightarrow> 0 | Some v \<Rightarrow> f v)"

lemma bt_sum_insert: "bt_ok m \<Longrightarrow> bt_sum f (bt_insert k v m) + bt_share f k m = bt_sum f m + f v"
  using bt.total_put [of m f k v]
  by (simp add: bt.total_def bt.share_def bt_sum_def bt_share_def)

lemma bt_sum_remove: "bt_ok m \<Longrightarrow> bt_sum f (bt_remove k m) + bt_share f k m = bt_sum f m"
  using bt.total_del [of m f k]
  by (simp add: bt.total_def bt.share_def bt_sum_def bt_share_def)

lemma bt_share_le_sum: "bt_ok m \<Longrightarrow> bt_share f k m \<le> bt_sum f m"
  using bt.share_le_total [of m f k]
  by (simp add: bt.total_def bt.share_def bt_sum_def bt_share_def)

lemma bt_sum_mono:
  "bt_ok m \<Longrightarrow> bt_ok m' \<Longrightarrow> (\<And>k. bt_share f k m \<le> bt_share f k m') \<Longrightarrow> bt_sum f m \<le> bt_sum f m'"
  using bt.total_mono [of m m' f] by (simp add: bt_sum_def bt.total_def bt_share_def bt.share_def)

lemma bt_sum_cong:
  "bt_ok m \<Longrightarrow> (\<And>k v. bt_get m k = Some v \<Longrightarrow> f v = g v) \<Longrightarrow> bt_sum f m = bt_sum g m"
  using bt.total_cong [of m f g] by (simp add: bt.total_def bt_sum_def)

lemma bt_sum_Nil [simp]: "bt_sum f [] = 0"
  by (simp add: bt_sum_def)

lemma bt_sum_map_values: "bt_sum f (bt_map_values g m) = bt_sum (f \<circ> g) m"
  by (simp add: bt_sum_def bt_map_values_def comp_def case_prod_beta)

lemma bt_sum_values: "bt_sum f m = sum_list (map f (bt_values m))"
  by (simp add: bt_sum_def bt_values_def)

text \<open>Sums whose measure looks at the key as well.\<close>

definition bt_ksum :: "('k \<Rightarrow> 'v \<Rightarrow> nat) \<Rightarrow> ('k, 'v) btree_map \<Rightarrow> nat" where
  "bt_ksum f m = sum_list (map (\<lambda>e. f (fst e) (snd e)) m)"

lemma bt_ksum_Nil [simp]: "bt_ksum f [] = 0"
  by (simp add: bt_ksum_def)

lemma bt_ksum_insert_fresh:
  "bt_get m k = None \<Longrightarrow> bt_ksum f (bt_insert k v m) = bt_ksum f m + f k v"
  by (induction m) (auto simp: bt_ksum_def split: if_splits)

lemma bt_ksum_insert:
  assumes "bt_ok m"
  shows "bt_ksum f (bt_insert k v m) + (case bt_get m k of None \<Rightarrow> 0 | Some v' \<Rightarrow> f k v') = bt_ksum f m + f k v"
  using assms
proof (induction m)
  case Nil
  then show ?case by (simp add: bt_ksum_def)
next
  case (Cons e es)
  then have "k < fst e \<Longrightarrow> bt_get es k = None" by (intro bt_get_absent) (auto simp: bt_ok_Cons)
  with Cons show ?case by (auto simp: bt_ksum_def bt_ok_Cons split: option.splits)
qed

lemma bt_ksum_cong:
  "(\<And>k v. (k, v) \<in> set m \<Longrightarrow> f k v = g k v) \<Longrightarrow> bt_ksum f m = bt_ksum g m"
  unfolding bt_ksum_def by (rule arg_cong [where f = sum_list], rule map_cong) auto

text \<open>Dropping the contribution of one key.\<close>

lemma bt_ksum_without:
  assumes "bt_ok m" "bt_get m k = Some v"
  shows "bt_ksum (\<lambda>k' v'. if k' = k then 0 else f k' v') m + f k v = bt_ksum f m"
  using assms
proof (induction m)
  case Nil
  then show ?case by simp
next
  case (Cons e es)
  show ?case
  proof (cases "fst e = k")
    case True
    with Cons.prems have "\<forall>x \<in> set es. fst x \<noteq> k" by (auto simp: bt_ok_Cons)
    then have "bt_ksum (\<lambda>k' v'. if k' = k then 0 else f k' v') es = bt_ksum f es"
      by (intro bt_ksum_cong) auto
    with True Cons.prems show ?thesis by (simp add: bt_ksum_def)
  next
    case False
    with Cons show ?thesis by (simp add: bt_ksum_def bt_ok_Cons)
  qed
qed

lemma bt_ksum_remove:
  assumes "bt_ok m"
  shows "bt_ksum f (bt_remove k m) + (case bt_get m k of None \<Rightarrow> 0 | Some v' \<Rightarrow> f k v') = bt_ksum f m"
  using assms
proof (induction m)
  case Nil
  then show ?case by (simp add: bt_ksum_def bt_remove_def)
next
  case (Cons e es)
  show ?case
  proof (cases "fst e = k")
    case True
    with Cons.prems have "\<forall>x \<in> set es. fst x \<noteq> k" by (auto simp: bt_ok_Cons)
    then have "bt_remove k es = es" unfolding bt_remove_def by (rule filter_True)
    with True show ?thesis by (auto simp: bt_ksum_def bt_remove_def)
  next
    case False
    with Cons show ?thesis by (auto simp: bt_ksum_def bt_remove_def bt_ok_Cons)
  qed
qed

lemma length_bt_modify: "bt_ok m \<Longrightarrow> length (bt_modify k f m) = length m"
proof -
  assume ok: "bt_ok m"
  have "length (bt_insert k v m) = length m" if "bt_get m k \<noteq> None" for v
    using ok that
  proof (induction m)
    case (Cons e es)
    then have "fst e < k" if "fst e \<noteq> k"
      using that bt_get_absent [of k es] by (fastforce simp: bt_ok_Cons)
    with Cons show ?case by (auto simp: bt_ok_Cons)
  qed simp
  then show ?thesis by (simp add: bt_modify_def split: option.split)
qed

lemma length_bt_remove: "bt_ok m \<Longrightarrow> bt_get m k = Some v \<Longrightarrow> Suc (length (bt_remove k m)) = length m"
proof (induction m)
  case (Cons e es)
  show ?case
  proof (cases "fst e = k")
    case True
    with Cons.prems have "\<forall>x \<in> set es. fst x \<noteq> k" by (auto simp: bt_ok_Cons)
    then show ?thesis using True by (simp add: bt_remove_def)
  next
    case False
    then show ?thesis using Cons by (simp add: bt_remove_def bt_ok_Cons)
  qed
qed simp

end
