(* ===== verification/Step_Systems.thy ===== *)
theory Step_Systems
  imports Main
begin

text \<open>
  Step systems: a state machine given by a step relation, with an invariant that every step keeps
  and a value that no step increases. The components instantiate the locales with their own step
  relations; what holds in every reachable state is proved here once.
\<close>

locale invariant_system =
  fixes step :: "'s \<Rightarrow> 's \<Rightarrow> bool"
    and inv :: "'s \<Rightarrow> bool"
  assumes step_inv: "inv s \<Longrightarrow> step s t \<Longrightarrow> inv t"
begin

lemma reach_inv:
  assumes "step\<^sup>*\<^sup>* s t" and "inv s"
  shows "inv t"
  using assms by (induction rule: rtranclp_induct) (auto intro: step_inv)

text \<open>A relation between the first and the last state that is reflexive, transitive and holds of
  every step from an invariant state holds of every run.\<close>

lemma reach_rel:
  assumes "step\<^sup>*\<^sup>* s t" "inv s"
    and "\<And>s. R s s" "\<And>s t u. R s t \<Longrightarrow> R t u \<Longrightarrow> R s u"
    and "\<And>s t. inv s \<Longrightarrow> step s t \<Longrightarrow> R s t"
  shows "R s t"
  using assms(1)
proof (induction rule: rtranclp_induct)
  case base
  show ?case by (rule assms(3))
next
  case (step t u)
  then have "inv t" using reach_inv assms(2) by blast
  with step show ?case using assms(4,5) by blast
qed

end

locale conserving_system = invariant_system +
  fixes val :: "'s \<Rightarrow> nat"
  assumes step_val: "inv s \<Longrightarrow> step s t \<Longrightarrow> val t \<le> val s"
begin

lemma reach_val:
  assumes "step\<^sup>*\<^sup>* s t" and "inv s"
  shows "val t \<le> val s"
  by (rule reach_rel [OF assms, where R = "\<lambda>s t. val t \<le> val s"]) (auto intro: step_val)

end

text \<open>
  Forward simulation with labels: a concrete step is silent or shows one label, the abstract system
  answers a label with its next state or refuses it. The labels of a concrete run, replayed on the
  abstract system, are all accepted and end in a related state.
\<close>

inductive lrun :: "('l option \<Rightarrow> 'c \<Rightarrow> 'c \<Rightarrow> bool) \<Rightarrow> 'l list \<Rightarrow> 'c \<Rightarrow> 'c \<Rightarrow> bool" for step where
  lrun_nil: "lrun step [] c c"
| lrun_silent: "lrun step ls c c' \<Longrightarrow> step None c' c'' \<Longrightarrow> lrun step ls c c''"
| lrun_label: "lrun step ls c c' \<Longrightarrow> step (Some l) c' c'' \<Longrightarrow> lrun step (ls @ [l]) c c''"

primrec replay :: "('l \<Rightarrow> 'a \<Rightarrow> 'a option) \<Rightarrow> 'l list \<Rightarrow> 'a \<Rightarrow> 'a option" where
  "replay next [] a = Some a"
| "replay next (l # ls) a = (case next l a of None \<Rightarrow> None | Some a' \<Rightarrow> replay next ls a')"

lemma replay_append:
  "replay next (ls @ ms) a = (case replay next ls a of None \<Rightarrow> None | Some a' \<Rightarrow> replay next ms a')"
  by (induction ls arbitrary: a) (auto split: option.split)

locale forward_simulation =
  fixes cstep :: "'l option \<Rightarrow> 'c \<Rightarrow> 'c \<Rightarrow> bool"
    and anext :: "'l \<Rightarrow> 'a \<Rightarrow> 'a option"
    and R :: "'c \<Rightarrow> 'a \<Rightarrow> bool"
  assumes sim_silent: "R c a \<Longrightarrow> cstep None c c' \<Longrightarrow> R c' a"
    and sim_label: "R c a \<Longrightarrow> cstep (Some l) c c' \<Longrightarrow> \<exists>a'. anext l a = Some a' \<and> R c' a'"
begin

lemma sim_run:
  assumes "lrun cstep ls c c'" "R c a"
  shows "\<exists>a'. replay anext ls a = Some a' \<and> R c' a'"
  using assms
proof (induction rule: lrun.induct)
  case (lrun_nil c)
  then show ?case by simp
next
  case (lrun_silent ls c c' c'')
  then show ?case using sim_silent by blast
next
  case (lrun_label ls c c' l c'')
  then obtain a' where "replay anext ls a = Some a'" "R c' a'" by blast
  moreover from this lrun_label obtain a'' where "anext l a' = Some a''" "R c'' a''" using sim_label by blast
  ultimately show ?case by (simp add: replay_append)
qed

end

end
