(* ===== verification/Ledger.thy ===== *)
theory Ledger
  imports Crypto BTree_Map Step_Systems
begin

text \<open>
  The block-lattice ledger of \<open>los-core/src/lib.rs\<close> with its distribution state
  (\<open>los-core/src/distribution.rs\<close>): blocks and their hashes, proof of work, signature check,
  \<open>Ledger::process_block\<close> with one definition per block type, and \<open>claim_accumulated_fees\<close>.
  The system clock is the argument \<open>now\<close>. \<open>BTreeSet<String>\<close> is a set of strings: only membership
  is used.
\<close>

section \<open>Constants and build configuration\<close>

definition MAX_TIMESTAMP_DRIFT_SECS :: u64 where "MAX_TIMESTAMP_DRIFT_SECS = 300"
definition CIL_PER_LOS :: u128 where "CIL_PER_LOS = 100000000000"
definition MIN_VALIDATOR_STAKE_CIL :: u128 where "MIN_VALIDATOR_STAKE_CIL = 1000 * CIL_PER_LOS"
definition BASE_FEE_CIL :: u128 where "BASE_FEE_CIL = 100000"
definition MIN_POW_DIFFICULTY_BITS :: u32 where "MIN_POW_DIFFICULTY_BITS = 16"
definition MIN_DEPLOY_FEE_CIL :: u128 where "MIN_DEPLOY_FEE_CIL = 1000000000"
definition MIN_CALL_FEE_CIL :: u128 where "MIN_CALL_FEE_CIL = BASE_FEE_CIL"
definition MIN_TX_FEE_CIL :: u128 where "MIN_TX_FEE_CIL = 100000"
definition MAX_MINT_PER_BLOCK :: u128 where "MAX_MINT_PER_BLOCK = 1000 * CIL_PER_LOS"
definition PUBLIC_SUPPLY_CAP :: u128 where "PUBLIC_SUPPLY_CAP = 21158413 * CIL_PER_LOS"

definition CHAIN_ID :: "los_env \<Rightarrow> u64" where
  "CHAIN_ID env = (if mainnet_feature env then 1 else 2)"

definition is_testnet_build :: "los_env \<Rightarrow> bool" where
  "is_testnet_build env = (CHAIN_ID env \<noteq> 1)"

definition is_mainnet_build :: "los_env \<Rightarrow> bool" where
  "is_mainnet_build env = (CHAIN_ID env = 1)"

lemmas ledger_constants =
  CIL_PER_LOS_def MIN_VALIDATOR_STAKE_CIL_def BASE_FEE_CIL_def MIN_DEPLOY_FEE_CIL_def
  MIN_CALL_FEE_CIL_def MIN_TX_FEE_CIL_def MAX_MINT_PER_BLOCK_def PUBLIC_SUPPLY_CAP_def
  MAX_TIMESTAMP_DRIFT_SECS_def MIN_POW_DIFFICULTY_BITS_def

section \<open>Distribution state\<close>

record distribution_state =
  remaining_supply :: u128
  total_burned_usd :: u128

definition distribution_new :: distribution_state where
  "distribution_new = \<lparr>remaining_supply = PUBLIC_SUPPLY_CAP, total_burned_usd = 0\<rparr>"

definition calculate_yield :: "distribution_state \<Rightarrow> u128 \<Rightarrow> u128" where
  "calculate_yield d burn_amount_usd =
     (if remaining_supply d = 0 then 0
      else
        let public_cap_los = 21158413;
            numerator = (case checked_mul burn_amount_usd (remaining_supply d) of Some v \<Rightarrow> v | None \<Rightarrow> 0)
        in numerator div (public_cap_los * CIL_PER_LOS))"

section \<open>Blocks\<close>

datatype block_type = Send | Receive | Change | Mint | Slash | ContractDeploy | ContractCall

record block =
  blk_account :: string
  blk_previous :: string
  blk_type :: block_type
  blk_amount :: u128
  blk_link :: string
  blk_signature :: string
  blk_public_key :: string
  blk_work :: u64
  blk_timestamp :: u64
  blk_fee :: u128

fun type_byte :: "block_type \<Rightarrow> u8" where
  "type_byte Send = 0"
| "type_byte Receive = 1"
| "type_byte Change = 2"
| "type_byte Mint = 3"
| "type_byte Slash = 4"
| "type_byte ContractDeploy = 5"
| "type_byte ContractCall = 6"

text \<open>The bytes fed to the hasher, in the order of the \<open>update\<close> calls.\<close>

definition signing_bytes :: "los_env \<Rightarrow> block \<Rightarrow> bytes" where
  "signing_bytes env b =
     u64_le_bytes (CHAIN_ID env) @ as_bytes (blk_account b) @ as_bytes (blk_previous b)
     @ [type_byte (blk_type b)] @ u128_le_bytes (blk_amount b) @ as_bytes (blk_link b)
     @ as_bytes (blk_public_key b) @ u64_le_bytes (blk_work b) @ u64_le_bytes (blk_timestamp b)
     @ u128_le_bytes (blk_fee b)"

definition signing_hash :: "los_env \<Rightarrow> block \<Rightarrow> string" where
  "signing_hash env b = hex_encode env (keccak256 env (signing_bytes env b))"

definition calculate_hash :: "los_env \<Rightarrow> block \<Rightarrow> string" where
  "calculate_hash env b =
     hex_encode env (keccak256 env (as_bytes (signing_hash env b) @ as_bytes (blk_signature b)))"

definition hex_decode_or_empty :: "los_env \<Rightarrow> string \<Rightarrow> bytes" where
  "hex_decode_or_empty env s = (case hex_decode env s of Some b \<Rightarrow> b | None \<Rightarrow> [])"

definition verify_signature :: "los_env \<Rightarrow> block \<Rightarrow> bool" where
  "verify_signature env b =
     (if blk_signature b = [] then False
      else if blk_public_key b = [] then False
      else
        let msg_hash = signing_hash env b;
            sig_bytes = hex_decode_or_empty env (blk_signature b);
            pk_bytes = hex_decode_or_empty env (blk_public_key b)
        in crypto_verify_signature env (as_bytes msg_hash) sig_bytes pk_bytes)"

definition u8_leading_zeros :: "u8 \<Rightarrow> u32" where
  "u8_leading_zeros w = of_nat (length (takeWhile (\<lambda>i. \<not> bit w i) (rev [0..<8])))"

fun count_zero_bits :: "bytes \<Rightarrow> u32 \<Rightarrow> u32" where
  "count_zero_bits [] zero_bits = zero_bits"
| "count_zero_bits (b # bs) zero_bits =
     (if b = 0 then count_zero_bits bs (zero_bits + 8) else zero_bits + u8_leading_zeros b)"

definition verify_pow :: "los_env \<Rightarrow> block \<Rightarrow> bool" where
  "verify_pow env b =
     (case hex_decode env (signing_hash env b) of
        None \<Rightarrow> False
      | Some hash_bytes \<Rightarrow> count_zero_bits hash_bytes 0 \<ge> MIN_POW_DIFFICULTY_BITS)"

section \<open>Ledger state\<close>

record account_state =
  acc_head :: string
  acc_balance :: u128
  acc_block_count :: u64
  acc_is_validator :: bool

datatype process_result = Applied string | Duplicate string

fun process_result_hash :: "process_result \<Rightarrow> string" where
  "process_result_hash (Applied h) = h"
| "process_result_hash (Duplicate h) = h"

fun is_new :: "process_result \<Rightarrow> bool" where
  "is_new (Applied _) = True"
| "is_new (Duplicate _) = False"

record ledger =
  accounts :: "(string, account_state) btree_map"
  blocks :: "(string, block) btree_map"
  distribution :: distribution_state
  claimed_sends :: "string set"
  accumulated_fees_cil :: u128

definition ledger_new :: ledger where
  "ledger_new =
     \<lparr>accounts = [], blocks = [], distribution = distribution_new, claimed_sends = {},
      accumulated_fees_cil = 0\<rparr>"

text \<open>The error messages, with the values they print.\<close>

datatype ledger_error =
    InvalidPoW
  | InvalidSignature
  | AuthInvalidHex
  | AuthEmptyKey
  | AuthWrongOwner string string
  | AccountMissing string
  | ChainError string string
  | TimestampFuture u64 u64
  | TimestampBeforePrevious u64 u64
  | SupplyExhausted
  | AntiWhaleMint u128
  | FeeTooLow u128 u128
  | AmountOverflow
  | InsufficientFunds
  | ReceiveNotSend string block_type
  | ReceiveWrongRecipient string string
  | ReceiveAmountMismatch u128 u128
  | ReceiveAlreadyReceived string
  | ReceiveSendMissing string
  | ChangeEmptyLink
  | DeployBadLink
  | DeployBadHash
  | CallBadLink
  | CallMissingFunction
  | SlashEmptyLink
  | SlashZeroAmount
  | SlashInvalidHex
  | SlashNotValidator string
  | SlashStakeTooLow string u128
  | SlashSignerUnknown string

type_synonym 'a ledger_outcome = "('a, ledger_error) result"

section \<open>Transaction logic per block type\<close>

text \<open>
  Each branch takes the clone \<open>st\<close> of the account state and the ledger, and returns the updated
  clone and the ledger as the branch leaves it.
\<close>

definition is_system_mint :: "block \<Rightarrow> bool" where
  "is_system_mint b = (starts_with (blk_link b) ''REWARD:'' \<or> starts_with (blk_link b) ''FEE_REWARD:'')"

definition is_faucet :: "los_env \<Rightarrow> block \<Rightarrow> bool" where
  "is_faucet env b =
     (if is_testnet_build env
      then starts_with (blk_link b) ''FAUCET:'' \<or> starts_with (blk_link b) ''TESTNET:''
        \<or> starts_with (blk_link b) ''Src:''
      else False)"

definition burned_usd_of_link :: "string \<Rightarrow> u128 option" where
  "burned_usd_of_link link =
     (let parts = str_split (CHR '':'') link
      in if length parts \<ge> 4 then parse_uint (str_trim (parts ! 3)) else None)"

definition process_mint ::
    "los_env \<Rightarrow> block \<Rightarrow> account_state \<Rightarrow> ledger \<Rightarrow> account_state ledger_outcome \<times> ledger" where
  "process_mint env b st L =
     (let d = distribution L in
      if remaining_supply d < blk_amount b then (Err SupplyExhausted, L)
      else if \<not> is_system_mint b \<and> \<not> is_faucet env b \<and> blk_amount b > MAX_MINT_PER_BLOCK
      then (Err (AntiWhaleMint (blk_amount b)), L)
      else
        let st1 = st\<lparr>acc_balance := saturating_add (acc_balance st) (blk_amount b)\<rparr>;
            d1 = d\<lparr>remaining_supply := saturating_sub (remaining_supply d) (blk_amount b)\<rparr>;
            d2 = (case burned_usd_of_link (blk_link b) of
                    Some fiat_price \<Rightarrow> d1\<lparr>total_burned_usd := total_burned_usd d1 + fiat_price\<rparr>
                  | None \<Rightarrow> d1)
        in (Ok st1, L\<lparr>distribution := d2\<rparr>))"

text \<open>The debit of amount and fee, written three times in the source with different minimum fees.\<close>

definition debit_with_fee ::
    "u128 \<Rightarrow> block \<Rightarrow> account_state \<Rightarrow> ledger \<Rightarrow> account_state ledger_outcome \<times> ledger" where
  "debit_with_fee min_fee b st L =
     (if blk_fee b < min_fee then (Err (FeeTooLow (blk_fee b) min_fee), L)
      else case checked_add (blk_amount b) (blk_fee b) of
             None \<Rightarrow> (Err AmountOverflow, L)
           | Some total_debit \<Rightarrow>
               if acc_balance st < total_debit then (Err InsufficientFunds, L)
               else
                 (Ok (st\<lparr>acc_balance := acc_balance st - total_debit\<rparr>),
                  L\<lparr>accumulated_fees_cil := saturating_add (accumulated_fees_cil L) (blk_fee b)\<rparr>))"

definition process_send ::
    "block \<Rightarrow> account_state \<Rightarrow> ledger \<Rightarrow> account_state ledger_outcome \<times> ledger" where
  "process_send b st L = debit_with_fee MIN_TX_FEE_CIL b st L"

definition process_receive ::
    "block \<Rightarrow> account_state \<Rightarrow> ledger \<Rightarrow> account_state ledger_outcome \<times> ledger" where
  "process_receive b st L =
     (case bt_get (blocks L) (blk_link b) of
        None \<Rightarrow> (Err (ReceiveSendMissing (blk_link b)), L)
      | Some send_block \<Rightarrow>
          if blk_type send_block \<noteq> Send
          then (Err (ReceiveNotSend (blk_link b) (blk_type send_block)), L)
          else if blk_link send_block \<noteq> blk_account b
          then (Err (ReceiveWrongRecipient (blk_link send_block) (blk_account b)), L)
          else if blk_amount send_block \<noteq> blk_amount b
          then (Err (ReceiveAmountMismatch (blk_amount send_block) (blk_amount b)), L)
          else if blk_link b \<in> claimed_sends L
          then (Err (ReceiveAlreadyReceived (blk_link b)), L)
          else (Ok (st\<lparr>acc_balance := saturating_add (acc_balance st) (blk_amount b)\<rparr>), L))"

definition process_change ::
    "block \<Rightarrow> account_state \<Rightarrow> ledger \<Rightarrow> account_state ledger_outcome \<times> ledger" where
  "process_change b st L = (if blk_link b = [] then (Err ChangeEmptyLink, L) else (Ok st, L))"

definition process_contract_deploy ::
    "block \<Rightarrow> account_state \<Rightarrow> ledger \<Rightarrow> account_state ledger_outcome \<times> ledger" where
  "process_contract_deploy b st L =
     (if \<not> starts_with (blk_link b) ''DEPLOY:'' then (Err DeployBadLink, L)
      else
        let code_hash = drop 7 (blk_link b) in
        if code_hash = [] \<or> length code_hash < 8 then (Err DeployBadHash, L)
        else debit_with_fee MIN_DEPLOY_FEE_CIL b st L)"

definition process_contract_call ::
    "block \<Rightarrow> account_state \<Rightarrow> ledger \<Rightarrow> account_state ledger_outcome \<times> ledger" where
  "process_contract_call b st L =
     (if \<not> starts_with (blk_link b) ''CALL:'' then (Err CallBadLink, L)
      else
        let call_data = drop 5 (blk_link b);
            call_parts = str_splitn 3 (CHR '':'') call_data
        in if length call_parts < 2 then (Err CallMissingFunction, L)
           else debit_with_fee MIN_CALL_FEE_CIL b st L)"

text \<open>The messages of the slash authorisation print \<open>&signer_addr[..16]\<close>, which can panic.\<close>

definition slash_err ::
    "string \<Rightarrow> (string \<Rightarrow> ledger_error) \<Rightarrow> ledger \<Rightarrow> account_state ledger_outcome \<times> ledger" where
  "slash_err signer_addr e L =
     (case str_slice_to signer_addr 16 of None \<Rightarrow> (Panic, L) | Some s \<Rightarrow> (Err (e s), L))"

definition process_slash ::
    "los_env \<Rightarrow> block \<Rightarrow> account_state \<Rightarrow> ledger \<Rightarrow> account_state ledger_outcome \<times> ledger" where
  "process_slash env b st L =
     (if blk_link b = [] then (Err SlashEmptyLink, L)
      else if blk_amount b = 0 then (Err SlashZeroAmount, L)
      else case hex_decode env (blk_public_key b) of
             None \<Rightarrow> (Err SlashInvalidHex, L)
           | Some pk_bytes \<Rightarrow>
               let signer_addr = public_key_to_address env pk_bytes in
               (case bt_get (accounts L) signer_addr of
                  None \<Rightarrow> slash_err signer_addr SlashSignerUnknown L
                | Some signer_state \<Rightarrow>
                    if \<not> acc_is_validator signer_state
                    then slash_err signer_addr SlashNotValidator L
                    else if acc_balance signer_state < MIN_VALIDATOR_STAKE_CIL
                    then slash_err signer_addr (\<lambda>s. SlashStakeTooLow s (acc_balance signer_state)) L
                    else (Ok (st\<lparr>acc_balance := saturating_sub (acc_balance st) (blk_amount b)\<rparr>), L)))"

definition process_transaction ::
    "los_env \<Rightarrow> block \<Rightarrow> account_state \<Rightarrow> ledger \<Rightarrow> account_state ledger_outcome \<times> ledger" where
  "process_transaction env b st L =
     (case blk_type b of
        Mint \<Rightarrow> process_mint env b st L
      | Send \<Rightarrow> process_send b st L
      | Receive \<Rightarrow> process_receive b st L
      | Change \<Rightarrow> process_change b st L
      | ContractDeploy \<Rightarrow> process_contract_deploy b st L
      | ContractCall \<Rightarrow> process_contract_call b st L
      | Slash \<Rightarrow> process_slash env b st L)"

section \<open>Processing a block\<close>

definition owner_signed_type :: "block_type \<Rightarrow> bool" where
  "owner_signed_type t = (t \<in> {Send, Change, ContractDeploy, ContractCall})"

definition check_owner :: "los_env \<Rightarrow> block \<Rightarrow> ledger_error option" where
  "check_owner env b =
     (if owner_signed_type (blk_type b) then
        (case hex_decode env (blk_public_key b) of
           None \<Rightarrow> Some AuthInvalidHex
         | Some pk_bytes \<Rightarrow>
             if pk_bytes = [] then Some AuthEmptyKey
             else
               let derived_address = public_key_to_address env pk_bytes in
               if derived_address \<noteq> blk_account b
               then Some (AuthWrongOwner derived_address (blk_account b))
               else None)
      else None)"

definition account_or_default :: "ledger \<Rightarrow> string \<Rightarrow> account_state" where
  "account_or_default L a =
     (case bt_get (accounts L) a of
        Some st \<Rightarrow> st
      | None \<Rightarrow> \<lparr>acc_head = ''0'', acc_balance = 0, acc_block_count = 0, acc_is_validator = False\<rparr>)"

definition check_timestamp :: "u64 \<Rightarrow> block \<Rightarrow> ledger \<Rightarrow> ledger_error option" where
  "check_timestamp now b L =
     (if blk_timestamp b > now + MAX_TIMESTAMP_DRIFT_SECS
      then Some (TimestampFuture (blk_timestamp b) now)
      else if blk_previous b \<noteq> ''0'' then
        (case bt_get (blocks L) (blk_previous b) of
           None \<Rightarrow> None
         | Some prev_block \<Rightarrow>
             if blk_timestamp b < blk_timestamp prev_block
             then Some (TimestampBeforePrevious (blk_timestamp b) (blk_timestamp prev_block))
             else None)
      else None)"

text \<open>Steps after the transaction logic: new head and count, the three inserts.\<close>

definition commit_block :: "block \<Rightarrow> string \<Rightarrow> account_state \<Rightarrow> ledger \<Rightarrow> ledger" where
  "commit_block b block_hash st L =
     (let st' = st\<lparr>acc_head := block_hash, acc_block_count := acc_block_count st + 1\<rparr>;
          L1 = L\<lparr>accounts := bt_insert (blk_account b) st' (accounts L)\<rparr>;
          L2 = L1\<lparr>blocks := bt_insert block_hash b (blocks L1)\<rparr>
      in if blk_type b = Receive
         then L2\<lparr>claimed_sends := insert (blk_link b) (claimed_sends L2)\<rparr>
         else L2)"

definition process_block ::
    "los_env \<Rightarrow> u64 \<Rightarrow> block \<Rightarrow> ledger \<Rightarrow> process_result ledger_outcome \<times> ledger" where
  "process_block env now b L =
     (if \<not> verify_pow env b then (Err InvalidPoW, L)
      else if \<not> verify_signature env b then (Err InvalidSignature, L)
      else case check_owner env b of
             Some e \<Rightarrow> (Err e, L)
           | None \<Rightarrow>
               let block_hash = calculate_hash env b in
               if bt_contains (blocks L) block_hash then (Ok (Duplicate block_hash), L)
               else if blk_type b \<notin> {Mint, Receive} \<and> \<not> bt_contains (accounts L) (blk_account b)
               then
                 (case str_slice_to (blk_account b) (min (length (blk_account b)) 16) of
                    None \<Rightarrow> (Panic, L)
                  | Some s \<Rightarrow> (Err (AccountMissing s), L))
               else
                 let st = account_or_default L (blk_account b) in
                 if blk_previous b \<noteq> acc_head st
                 then (Err (ChainError (acc_head st) (blk_previous b)), L)
                 else
                   (case check_timestamp now b L of
                      Some e \<Rightarrow> (Err e, L)
                    | None \<Rightarrow>
                        (case process_transaction env b st L of
                           (Err e, L1) \<Rightarrow> (Err e, L1)
                         | (Panic, L1) \<Rightarrow> (Panic, L1)
                         | (Ok st1, L1) \<Rightarrow>
                             (Ok (Applied block_hash), commit_block b block_hash st1 L1))))"

definition claim_accumulated_fees :: "ledger \<Rightarrow> u128 \<times> ledger" where
  "claim_accumulated_fees L = (accumulated_fees_cil L, L\<lparr>accumulated_fees_cil := 0\<rparr>)"

text \<open>The steps a ledger can take.\<close>

inductive ledger_step :: "los_env \<Rightarrow> ledger \<Rightarrow> ledger \<Rightarrow> bool" for env where
  step_block: "process_block env now b L = (r, L') \<Longrightarrow> ledger_step env L L'"
| step_claim_fees: "claim_accumulated_fees L = (fees, L') \<Longrightarrow> ledger_step env L L'"

inductive_cases ledger_stepE: "ledger_step env L L'"

end
