(* ===== verification/Ledger_Safety.thy ===== *)
theory Ledger_Safety
  imports Ledger
begin

text \<open>
  Safety of the ledger: a block that is not applied leaves the ledger as it was, value is
  conserved by every applied block, no Send is received twice, only the owner of an account spends
  from it, and account heads stay linked to blocks. The invariant of all reachable ledgers is
  \<open>ledger_inv\<close>; the ledger instantiates the step-system locales with it.
\<close>

section \<open>Shape of a run\<close>

lemmas transaction_defs =
  process_mint_def process_send_def process_receive_def process_change_def
  process_contract_deploy_def process_contract_call_def process_slash_def debit_with_fee_def
  slash_err_def Let_def

lemma process_transaction_not_ok:
  "process_transaction env b st L = (r, L1) \<Longrightarrow> \<not> is_ok r \<Longrightarrow> L1 = L"
  by (auto simp: process_transaction_def transaction_defs
      split: block_type.splits if_splits option.splits)

lemma process_transaction_frame:
  "process_transaction env b st L = (Ok st1, L1) \<Longrightarrow>
     accounts L1 = accounts L \<and> blocks L1 = blocks L \<and> claimed_sends L1 = claimed_sends L
     \<and> acc_head st1 = acc_head st \<and> acc_block_count st1 = acc_block_count st
     \<and> acc_is_validator st1 = acc_is_validator st"
  by (auto simp: process_transaction_def transaction_defs
      split: block_type.splits if_splits option.splits)

lemma process_block_cases:
  assumes "process_block env now b L = (r, L')"
  obtains (unchanged) "L' = L" and "\<And>h. r \<noteq> Ok (Applied h)"
  | (applied) st1 L1 where
      "r = Ok (Applied (calculate_hash env b))" "verify_pow env b" "verify_signature env b"
      "check_owner env b = None" "bt_get (blocks L) (calculate_hash env b) = None"
      "blk_type b \<in> {Mint, Receive} \<or> bt_contains (accounts L) (blk_account b)"
      "blk_previous b = acc_head (account_or_default L (blk_account b))"
      "check_timestamp now b L = None"
      "process_transaction env b (account_or_default L (blk_account b)) L = (Ok st1, L1)"
      "L' = commit_block b (calculate_hash env b) st1 L1"
proof -
  obtain r1 L1 where tx:
    "process_transaction env b (account_or_default L (blk_account b)) L = (r1, L1)"
    by (cases "process_transaction env b (account_or_default L (blk_account b)) L")
  show thesis
  proof (cases "L' = L \<and> (\<forall>h. r \<noteq> Ok (Applied h))")
    case True
    then show thesis by (auto intro: unchanged)
  next
    case False
    show thesis
    proof (cases r1)
      case (Ok st1)
      show thesis
        by (rule applied [of st1 L1])
          (use assms False tx Ok in
            \<open>auto simp: process_block_def Let_def bt_contains_def split: if_splits option.splits\<close>)
    qed (use assms False tx process_transaction_not_ok [OF tx] in
          \<open>auto simp: process_block_def Let_def split: if_splits option.splits\<close>)
  qed
qed

text \<open>C5: atomicity. A block that is rejected, that panics or that is a duplicate leaves the whole
  ledger unchanged.\<close>

theorem process_block_atomic:
  assumes "process_block env now b L = (r, L')" and "\<forall>h. r \<noteq> Ok (Applied h)"
  shows "L' = L"
  using assms(1) by (cases rule: process_block_cases) (use assms(2) in auto)

section \<open>Value\<close>

definition in_flight :: "ledger \<Rightarrow> nat" where
  "in_flight L =
     bt_ksum (\<lambda>h b. if blk_type b = Send \<and> h \<notin> claimed_sends L then unat (blk_amount b) else 0)
       (blocks L)"

definition balances_total :: "ledger \<Rightarrow> nat" where
  "balances_total L = bt_sum (\<lambda>st. unat (acc_balance st)) (accounts L)"

text \<open>All value the ledger accounts for: balances, unclaimed Sends, collected fees and the supply
  that is still to be distributed.\<close>

definition ledger_value :: "ledger \<Rightarrow> nat" where
  "ledger_value L =
     balances_total L + in_flight L + unat (accumulated_fees_cil L)
     + unat (remaining_supply (distribution L))"

text \<open>What a block takes out of the ledger: a slash burns, a contract deployment or call moves its
  amount to the virtual machine.\<close>

definition value_removed :: "ledger \<Rightarrow> block \<Rightarrow> nat" where
  "value_removed L b =
     (case blk_type b of
        Slash \<Rightarrow> min (unat (acc_balance (account_or_default L (blk_account b)))) (unat (blk_amount b))
      | ContractDeploy \<Rightarrow> unat (blk_amount b)
      | ContractCall \<Rightarrow> unat (blk_amount b)
      | _ \<Rightarrow> 0)"

definition tx_out :: "block \<Rightarrow> account_state \<Rightarrow> nat" where
  "tx_out b st =
     (if blk_type b \<in> {Send, ContractDeploy, ContractCall} then unat (blk_amount b)
      else if blk_type b = Slash then min (unat (acc_balance st)) (unat (blk_amount b))
      else 0)"

definition tx_in :: "block \<Rightarrow> nat" where
  "tx_in b = (if blk_type b = Receive then unat (blk_amount b) else 0)"

abbreviation (input) local_value :: "account_state \<Rightarrow> ledger \<Rightarrow> nat" where
  "local_value st L \<equiv>
     unat (acc_balance st) + unat (accumulated_fees_cil L) + unat (remaining_supply (distribution L))"

lemma debit_with_fee_value:
  assumes "debit_with_fee f b st L = (Ok st1, L1)" "local_value st L < 2 ^ 128"
  shows "local_value st1 L1 + unat (blk_amount b) = local_value st L"
proof -
  obtain d where d: "checked_add (blk_amount b) (blk_fee b) = Some d" "\<not> acc_balance st < d"
    and st1: "acc_balance st1 = acc_balance st - d"
    and L1: "accumulated_fees_cil L1 = saturating_add (accumulated_fees_cil L) (blk_fee b)"
      "distribution L1 = distribution L"
    using assms(1) by (auto simp: debit_with_fee_def split: if_splits option.splits)
  have "unat d = unat (blk_amount b) + unat (blk_fee b)"
    using checked_add_SomeD [OF d(1)] by blast
  moreover have "unat (acc_balance st1) + unat d = unat (acc_balance st)"
    using d(2) by (simp add: st1 unat_sub_exact word_le_nat_alt word_less_nat_alt)
  ultimately show ?thesis
    using assms(2) by (simp add: L1 unat_saturating_add min_def split: if_splits)
qed

lemma process_mint_value:
  assumes "process_mint env b st L = (Ok st1, L1)" "local_value st L < 2 ^ 128"
  shows "local_value st1 L1 = local_value st L"
proof -
  have le: "unat (blk_amount b) \<le> unat (remaining_supply (distribution L))"
    and st1: "acc_balance st1 = saturating_add (acc_balance st) (blk_amount b)"
    and L1: "remaining_supply (distribution L1)
        = saturating_sub (remaining_supply (distribution L)) (blk_amount b)"
      "accumulated_fees_cil L1 = accumulated_fees_cil L"
    using assms(1)
    by (auto simp: process_mint_def Let_def word_less_nat_alt split: if_splits option.splits)
  show ?thesis
    using le assms(2) by (simp add: st1 L1 unat_saturating_add unat_saturating_sub)
qed

lemma process_transaction_value:
  assumes "process_transaction env b st L = (Ok st1, L1)"
    and "local_value st L + tx_in b < 2 ^ 128"
  shows "local_value st1 L1 + tx_out b st = local_value st L + tx_in b"
proof (cases "blk_type b")
  case Mint
  then show ?thesis
    using assms process_mint_value [of env b st L st1 L1]
    by (simp add: process_transaction_def tx_in_def tx_out_def)
next
  case Receive
  then have "L1 = L" "acc_balance st1 = saturating_add (acc_balance st) (blk_amount b)"
    using assms(1) by (auto simp: process_transaction_def process_receive_def split: option.splits if_splits)
  with Receive assms(2) show ?thesis
    by (simp add: tx_in_def tx_out_def unat_saturating_add)
next
  case Slash
  then have "L1 = L" "acc_balance st1 = saturating_sub (acc_balance st) (blk_amount b)"
    using assms(1)
    by (auto simp: process_transaction_def process_slash_def slash_err_def Let_def split: option.splits if_splits)
  with Slash show ?thesis by (simp add: tx_in_def tx_out_def unat_saturating_sub)
qed (use assms debit_with_fee_value [of _ b st L st1 L1] in
      \<open>auto simp: process_transaction_def process_send_def process_change_def
        process_contract_deploy_def process_contract_call_def Let_def tx_in_def tx_out_def
        split: if_splits\<close>)

section \<open>The invariant of reachable ledgers\<close>

definition maps_ok :: "ledger \<Rightarrow> bool" where
  "maps_ok L \<longleftrightarrow> bt_ok (accounts L) \<and> bt_ok (blocks L)"

definition claims_ok :: "ledger \<Rightarrow> bool" where
  "claims_ok L \<longleftrightarrow>
     (\<forall>h \<in> claimed_sends L. \<exists>s. bt_get (blocks L) h = Some s \<and> blk_type s = Send)
     \<and> (\<forall>h r. bt_get (blocks L) h = Some r \<and> blk_type r = Receive \<longrightarrow> blk_link r \<in> claimed_sends L)"

definition receives_unique :: "ledger \<Rightarrow> bool" where
  "receives_unique L \<longleftrightarrow>
     (\<forall>h h' r r'. bt_get (blocks L) h = Some r \<and> bt_get (blocks L) h' = Some r'
        \<and> blk_type r = Receive \<and> blk_type r' = Receive \<and> blk_link r = blk_link r' \<longrightarrow> h = h')"

definition heads_ok :: "ledger \<Rightarrow> bool" where
  "heads_ok L \<longleftrightarrow>
     (\<forall>a st. bt_get (accounts L) a = Some st \<longrightarrow>
        acc_head st = ''0'' \<or> (\<exists>b. bt_get (blocks L) (acc_head st) = Some b \<and> blk_account b = a))"

definition ledger_inv :: "ledger \<Rightarrow> bool" where
  "ledger_inv L \<longleftrightarrow>
     maps_ok L \<and> claims_ok L \<and> receives_unique L \<and> heads_ok L \<and> ledger_value L < 2 ^ 128"

lemma ledger_new_value: "ledger_value ledger_new = unat PUBLIC_SUPPLY_CAP"
  by (simp add: ledger_value_def balances_total_def in_flight_def ledger_new_def distribution_new_def)

lemma ledger_new_inv: "ledger_inv ledger_new"
  using unat_less_exp [of PUBLIC_SUPPLY_CAP]
  by (simp add: ledger_inv_def ledger_new_value)
    (simp add: maps_ok_def claims_ok_def receives_unique_def heads_ok_def ledger_new_def)

lemma commit_block_sel [simp]:
  "accounts (commit_block b h st L) =
     bt_insert (blk_account b) (st\<lparr>acc_head := h, acc_block_count := acc_block_count st + 1\<rparr>) (accounts L)"
  "blocks (commit_block b h st L) = bt_insert h b (blocks L)"
  "distribution (commit_block b h st L) = distribution L"
  "accumulated_fees_cil (commit_block b h st L) = accumulated_fees_cil L"
  "claimed_sends (commit_block b h st L) =
     (if blk_type b = Receive then insert (blk_link b) (claimed_sends L) else claimed_sends L)"
  by (simp_all add: commit_block_def Let_def)

lemma balances_total_commit:
  assumes "bt_ok (accounts L)" "accounts L1 = accounts L"
  shows "balances_total (commit_block b h st1 L1)
      + unat (acc_balance (account_or_default L (blk_account b)))
    = balances_total L + unat (acc_balance st1)"
  using bt_sum_insert [OF assms(1), of "\<lambda>st. unat (acc_balance st)" "blk_account b"
      "st1\<lparr>acc_head := h, acc_block_count := acc_block_count st1 + 1\<rparr>"] assms(2)
  by (simp add: balances_total_def account_or_default_def bt_share_def split: option.splits)

lemma balance_le_total:
  "bt_ok (accounts L) \<Longrightarrow> unat (acc_balance (account_or_default L a)) \<le> balances_total L"
  using bt_share_le_sum [of "accounts L" "\<lambda>st. unat (acc_balance st)" a]
  by (simp add: balances_total_def account_or_default_def bt_share_def split: option.splits)

lemma in_flight_commit_other:
  assumes "claims_ok L" "bt_get (blocks L) h = None" "blk_type b \<noteq> Receive"
    "blocks L1 = blocks L" "claimed_sends L1 = claimed_sends L"
  shows "in_flight (commit_block b h st1 L1)
    = in_flight L + (if blk_type b = Send then unat (blk_amount b) else 0)"
proof -
  have "h \<notin> claimed_sends L" using assms(1,2) by (force simp: claims_ok_def)
  then show ?thesis
    using assms by (simp add: in_flight_def bt_ksum_insert_fresh)
qed

lemma in_flight_commit_receive:
  assumes "bt_ok (blocks L)" "bt_get (blocks L) h = None" "blk_type b = Receive"
    "blocks L1 = blocks L" "claimed_sends L1 = claimed_sends L"
    "bt_get (blocks L) (blk_link b) = Some s" "blk_type s = Send" "blk_link b \<notin> claimed_sends L"
  shows "in_flight (commit_block b h st1 L1) + unat (blk_amount s) = in_flight L"
proof -
  let ?f = "\<lambda>k v. if blk_type v = Send \<and> k \<notin> claimed_sends L then unat (blk_amount v) else 0"
  have "in_flight (commit_block b h st1 L1)
      = bt_ksum (\<lambda>k v. if k = blk_link b then 0 else ?f k v) (blocks L)"
    using assms(2-5) by (simp add: in_flight_def bt_ksum_insert_fresh) (rule bt_ksum_cong, auto)
  moreover have "?f (blk_link b) s = unat (blk_amount s)" using assms(7,8) by simp
  ultimately show ?thesis
    using bt_ksum_without [OF assms(1,6), of ?f] by (simp add: in_flight_def)
qed

lemma process_receive_ok:
  assumes "process_transaction env b st L = (Ok st1, L1)" "blk_type b = Receive"
  obtains s where "bt_get (blocks L) (blk_link b) = Some s" "blk_type s = Send"
    "blk_link s = blk_account b" "blk_amount s = blk_amount b" "blk_link b \<notin> claimed_sends L"
  using assms by (auto simp: process_transaction_def process_receive_def split: option.splits if_splits)

text \<open>
  What a transaction does to the clone of the account and to the ledger, as far as value and the
  invariant are concerned: only balance, fees and distribution change, value moves by what the block
  type says, and a Receive names an unclaimed Send to the account over the same amount.
\<close>

definition tx_effect :: "block \<Rightarrow> account_state \<Rightarrow> ledger \<Rightarrow> account_state \<Rightarrow> ledger \<Rightarrow> bool" where
  "tx_effect b st L st1 L1 \<longleftrightarrow>
     accounts L1 = accounts L \<and> blocks L1 = blocks L \<and> claimed_sends L1 = claimed_sends L
     \<and> (local_value st L + tx_in b < 2 ^ 128 \<longrightarrow> local_value st1 L1 + tx_out b st = local_value st L + tx_in b)
     \<and> (blk_type b = Receive \<longrightarrow>
          (\<exists>s. bt_get (blocks L) (blk_link b) = Some s \<and> blk_type s = Send \<and> blk_link s = blk_account b
             \<and> blk_amount s = blk_amount b \<and> blk_link b \<notin> claimed_sends L))"

lemma process_transaction_effect:
  assumes "process_transaction env b st L = (Ok st1, L1)"
  shows "tx_effect b st L st1 L1"
proof -
  have "blk_type b = Receive \<longrightarrow>
      (\<exists>s. bt_get (blocks L) (blk_link b) = Some s \<and> blk_type s = Send \<and> blk_link s = blk_account b
         \<and> blk_amount s = blk_amount b \<and> blk_link b \<notin> claimed_sends L)"
    using process_receive_ok [OF assms] by metis
  then show ?thesis
    using process_transaction_frame [OF assms] process_transaction_value [OF assms]
    by (simp add: tx_effect_def)
qed

lemma tx_in_le_in_flight:
  assumes "tx_effect b st L st1 L1" "bt_ok (blocks L)"
  shows "tx_in b \<le> in_flight L"
proof (cases "blk_type b = Receive")
  case True
  obtain s where s: "bt_get (blocks L) (blk_link b) = Some s" "blk_type s = Send"
    "blk_amount s = blk_amount b" "blk_link b \<notin> claimed_sends L"
    using assms(1) True by (auto simp: tx_effect_def)
  show ?thesis
    using bt_ksum_without [OF assms(2) s(1), of
        "\<lambda>h b. if blk_type b = Send \<and> h \<notin> claimed_sends L then unat (blk_amount b) else 0"] s
    by (simp add: in_flight_def tx_in_def True)
qed (simp add: tx_in_def)

text \<open>Every committed block conserves value up to what its type removes.\<close>

lemma commit_value:
  assumes inv: "ledger_inv L"
    and new: "bt_get (blocks L) h = None"
    and tx: "tx_effect b (account_or_default L (blk_account b)) L st1 L1"
  shows "ledger_value (commit_block b h st1 L1) + value_removed L b = ledger_value L"
proof -
  let ?st = "account_or_default L (blk_account b)"
  have fr: "accounts L1 = accounts L" "blocks L1 = blocks L" "claimed_sends L1 = claimed_sends L"
    using tx by (simp_all add: tx_effect_def)
  have ok: "bt_ok (accounts L)" "bt_ok (blocks L)" and cl: "claims_ok L"
    and bound: "ledger_value L < 2 ^ 128"
    using inv by (auto simp: ledger_inv_def maps_ok_def)
  have fl: "tx_in b \<le> in_flight L" by (rule tx_in_le_in_flight [OF tx ok(2)])
  have bal: "unat (acc_balance ?st) \<le> balances_total L" by (rule balance_le_total [OF ok(1)])
  have "local_value ?st L + tx_in b < 2 ^ 128" using fl bal bound by (simp add: ledger_value_def)
  then have loc: "local_value st1 L1 + tx_out b ?st = local_value ?st L + tx_in b"
    using tx by (simp add: tx_effect_def)
  have tot: "balances_total (commit_block b h st1 L1) + unat (acc_balance ?st)
      = balances_total L + unat (acc_balance st1)"
    using fr by (intro balances_total_commit [OF ok(1)]) simp
  have flight: "in_flight (commit_block b h st1 L1) + tx_in b + value_removed L b
      = in_flight L + tx_out b ?st"
  proof (cases "blk_type b = Receive")
    case True
    then obtain s where "bt_get (blocks L) (blk_link b) = Some s" "blk_type s = Send"
      "blk_amount s = blk_amount b" "blk_link b \<notin> claimed_sends L"
      using tx by (auto simp: tx_effect_def)
    then have "in_flight (commit_block b h st1 L1) + unat (blk_amount b) = in_flight L"
      using in_flight_commit_receive [OF ok(2) new True, of L1 s st1] fr by simp
    with True show ?thesis by (simp add: tx_in_def tx_out_def value_removed_def)
  next
    case False
    with in_flight_commit_other [OF cl new False, of L1 st1] fr show ?thesis
      by (cases "blk_type b") (simp_all add: tx_in_def tx_out_def value_removed_def)
  qed
  show ?thesis using loc tot flight by (simp add: ledger_value_def)
qed

lemma commit_inv:
  assumes inv: "ledger_inv L"
    and new: "bt_get (blocks L) h = None"
    and tx: "tx_effect b (account_or_default L (blk_account b)) L st1 L1"
  shows "ledger_inv (commit_block b h st1 L1)"
proof -
  have fr: "accounts L1 = accounts L" "blocks L1 = blocks L" "claimed_sends L1 = claimed_sends L"
    using tx by (simp_all add: tx_effect_def)
  have i: "maps_ok L" "claims_ok L" "receives_unique L" "heads_ok L"
    using inv by (auto simp: ledger_inv_def)
  have fresh: "h \<notin> claimed_sends L" using i(2) new by (force simp: claims_ok_def)
  have link: "blk_type b = Receive \<Longrightarrow> blk_link b \<notin> claimed_sends L
      \<and> (\<exists>s. bt_get (blocks L) (blk_link b) = Some s \<and> blk_type s = Send)"
    using tx by (auto simp: tx_effect_def)
  have 1: "maps_ok (commit_block b h st1 L1)"
    using i(1) fr by (simp add: maps_ok_def)
  have 2: "claims_ok (commit_block b h st1 L1)"
    using i(2) fr fresh link new unfolding claims_ok_def by (auto split: if_splits)
  have 3: "receives_unique (commit_block b h st1 L1)"
    using i(2,3) fr link unfolding receives_unique_def claims_ok_def
    by (simp add: fr) metis
  have 4: "heads_ok (commit_block b h st1 L1)"
    using i(4) new unfolding heads_ok_def by (simp add: fr) (metis option.distinct(1))
  have 5: "ledger_value (commit_block b h st1 L1) < 2 ^ 128"
    using commit_value [OF assms] inv by (simp add: ledger_inv_def)
  from 1 2 3 4 5 show ?thesis by (simp add: ledger_inv_def)
qed

lemmas applied_value = commit_value [OF _ _ process_transaction_effect]
lemmas applied_inv = commit_inv [OF _ _ process_transaction_effect]

lemma process_block_inv:
  assumes "process_block env now b L = (r, L')" "ledger_inv L"
  shows "ledger_inv L' \<and> ledger_value L' \<le> ledger_value L"
  using assms(1)
proof (cases rule: process_block_cases)
  case unchanged
  with assms(2) show ?thesis by simp
next
  case (applied st1 L1)
  with applied_inv [OF assms(2) applied(5,9)] applied_value [OF assms(2) applied(5,9)]
  show ?thesis by simp
qed

lemma claim_fees_value:
  "claim_accumulated_fees L = (f, L') \<Longrightarrow> ledger_value L' + unat f = ledger_value L"
  by (auto simp: claim_accumulated_fees_def ledger_value_def balances_total_def in_flight_def)

lemma inv_parts_fees [simp]:
  "maps_ok (L\<lparr>accumulated_fees_cil := f\<rparr>) = maps_ok L"
  "claims_ok (L\<lparr>accumulated_fees_cil := f\<rparr>) = claims_ok L"
  "receives_unique (L\<lparr>accumulated_fees_cil := f\<rparr>) = receives_unique L"
  "heads_ok (L\<lparr>accumulated_fees_cil := f\<rparr>) = heads_ok L"
  by (simp_all add: maps_ok_def claims_ok_def receives_unique_def heads_ok_def)

lemma claim_fees_inv:
  assumes "claim_accumulated_fees L = (f, L')" "ledger_inv L"
  shows "ledger_inv L' \<and> ledger_value L' \<le> ledger_value L"
  using claim_fees_value [OF assms(1)] assms
  by (auto simp: ledger_inv_def claim_accumulated_fees_def)

lemma ledger_step_inv:
  "ledger_step env L L' \<Longrightarrow> ledger_inv L \<Longrightarrow> ledger_inv L' \<and> ledger_value L' \<le> ledger_value L"
  by (erule ledger_stepE) (blast dest: process_block_inv claim_fees_inv)+

interpretation ledger_sys: conserving_system "ledger_step env" ledger_inv ledger_value for env
  by unfold_locales (blast dest: ledger_step_inv)+

section \<open>An example run\<close>

text \<open>
  A mint, a send and the matching receive, in an environment whose hash keeps only the length of its
  input: the concrete run at which the theorems below are instantiated.
\<close>

definition demo_env :: los_env where
  "demo_env = (plain_env True)
     \<lparr>keccak256 := (\<lambda>b. [0, 0, 1, of_nat (length b)]), bs58_encode := (\<lambda>_. ''A'')\<rparr>"

lemma demo_env_simps [simp]:
  "hex_encode demo_env b = map (\<lambda>w. char_of (unat w)) b"
  "hex_decode demo_env s = Some (as_bytes s)"
  "keccak256 demo_env b = [0, 0, 1, of_nat (length b)]"
  "mainnet_feature demo_env = True"
  "dilithium_pk_valid demo_env b" "dilithium_sig_valid demo_env b" "dilithium_verify demo_env b c d"
  "public_key_to_address demo_env b = ''LOSA''"
  by (simp_all add: demo_env_def plain_env_def public_key_to_address_def Let_def)

lemma demo_pow: "verify_pow demo_env b"
proof -
  have "hex_decode demo_env (signing_hash demo_env b)
      = Some [0, 0, 1, of_nat (length (signing_bytes demo_env b))]"
    by (simp only: demo_env_simps signing_hash_def as_bytes_char_of)
  then show ?thesis
    by (simp add: verify_pow_def MIN_POW_DIFFICULTY_BITS_def u8_leading_zeros_def upt_rec)
qed

lemma demo_signature:
  "verify_signature demo_env b \<longleftrightarrow> blk_signature b \<noteq> [] \<and> blk_public_key b \<noteq> []"
  by (simp add: verify_signature_def crypto_verify_signature_def verify_dilithium5_def)

lemma demo_hash:
  "calculate_hash demo_env b
    = [CHR 0x00, CHR 0x00, CHR 0x01, char_of (unat (of_nat (4 + length (blk_signature b)) :: u8))]"
  by (simp add: calculate_hash_def signing_hash_def char_of_def bit_0)

definition demo_mint :: block where
  "demo_mint =
     \<lparr>blk_account = ''LOSA'', blk_previous = ''0'', blk_type = Mint, blk_amount = 1000000,
      blk_link = ''Src:ETH:tx:250'', blk_signature = ''s'', blk_public_key = ''node'', blk_work = 0,
      blk_timestamp = 10, blk_fee = 0\<rparr>"

definition demo_send :: block where
  "demo_send =
     \<lparr>blk_account = ''LOSA'', blk_previous = calculate_hash demo_env demo_mint, blk_type = Send,
      blk_amount = 5000, blk_link = ''LOSB'', blk_signature = ''ss'', blk_public_key = ''alice'',
      blk_work = 0, blk_timestamp = 20, blk_fee = 100000\<rparr>"

definition demo_receive :: block where
  "demo_receive =
     \<lparr>blk_account = ''LOSB'', blk_previous = ''0'', blk_type = Receive, blk_amount = 5000,
      blk_link = calculate_hash demo_env demo_send, blk_signature = ''sss'', blk_public_key = ''node'',
      blk_work = 0, blk_timestamp = 30, blk_fee = 0\<rparr>"

lemmas demo_blocks = demo_mint_def demo_send_def demo_receive_def

lemma demo_usd: "burned_usd_of_link ''Src:ETH:tx:250'' = Some 250"
  by (simp add: burned_usd_of_link_def parse_uint_def str_trim_def white_space_def starts_with_def
      digit_value_def less_eq_char_def checked_mul_def checked_add_def)

definition demo_L1 :: ledger where
  "demo_L1 =
     \<lparr>accounts = [(''LOSA'', \<lparr>acc_head = calculate_hash demo_env demo_mint, acc_balance = 1000000,
                             acc_block_count = 1, acc_is_validator = False\<rparr>)],
      blocks = [(calculate_hash demo_env demo_mint, demo_mint)],
      distribution = \<lparr>remaining_supply = 2115841299999000000, total_burned_usd = 250\<rparr>,
      claimed_sends = {}, accumulated_fees_cil = 0\<rparr>"

lemmas block_run_defs =
  process_block_def check_owner_def owner_signed_type_def bt_contains_def account_or_default_def
  check_timestamp_def process_transaction_def transaction_defs commit_block_def ledger_constants
  is_system_mint_def is_faucet_def is_testnet_build_def CHAIN_ID_def starts_with_def

lemma demo_run_mint:
  "process_block demo_env 100 demo_mint ledger_new
    = (Ok (Applied (calculate_hash demo_env demo_mint)), demo_L1)"
  using demo_usd
  by (simp add: block_run_defs demo_pow demo_signature demo_mint_def ledger_new_def distribution_new_def demo_L1_def
      saturating_add_def saturating_sub_def checked_add_def)

definition demo_L2 :: ledger where
  "demo_L2 =
     \<lparr>accounts = [(''LOSA'', \<lparr>acc_head = calculate_hash demo_env demo_send, acc_balance = 895000,
                             acc_block_count = 2, acc_is_validator = False\<rparr>)],
      blocks = [(calculate_hash demo_env demo_mint, demo_mint), (calculate_hash demo_env demo_send, demo_send)],
      distribution = \<lparr>remaining_supply = 2115841299999000000, total_burned_usd = 250\<rparr>,
      claimed_sends = {}, accumulated_fees_cil = 100000\<rparr>"

lemma demo_run_send:
  "process_block demo_env 100 demo_send demo_L1
    = (Ok (Applied (calculate_hash demo_env demo_send)), demo_L2)"
  by (simp add: block_run_defs demo_pow demo_signature demo_hash demo_L1_def demo_L2_def demo_blocks as_bytes_def less_char_def
      saturating_add_def saturating_sub_def checked_add_def)


definition demo_L3 :: ledger where
  "demo_L3 = demo_L2\<lparr>accounts := accounts demo_L2 @ [(''LOSB'', \<lparr>acc_head = calculate_hash demo_env demo_receive,
        acc_balance = 5000, acc_block_count = 1, acc_is_validator = False\<rparr>)],
      blocks := blocks demo_L2 @ [(calculate_hash demo_env demo_receive, demo_receive)],
      claimed_sends := {calculate_hash demo_env demo_send}\<rparr>"

lemma demo_run_receive:
  "process_block demo_env 100 demo_receive demo_L2
    = (Ok (Applied (calculate_hash demo_env demo_receive)), demo_L3)"
  by (simp add: block_run_defs demo_pow demo_signature demo_hash demo_L3_def demo_L2_def demo_blocks as_bytes_def less_char_def
      saturating_add_def saturating_sub_def checked_add_def)

lemma demo_reach:
  "(ledger_step demo_env)\<^sup>*\<^sup>* ledger_new demo_L1" "(ledger_step demo_env)\<^sup>*\<^sup>* ledger_new demo_L2"
  "(ledger_step demo_env)\<^sup>*\<^sup>* ledger_new demo_L3"
proof -
  show 1: "(ledger_step demo_env)\<^sup>*\<^sup>* ledger_new demo_L1"
    by (blast intro: r_into_rtranclp step_block demo_run_mint)
  show 2: "(ledger_step demo_env)\<^sup>*\<^sup>* ledger_new demo_L2"
    by (rule rtranclp.rtrancl_into_rtrancl [OF 1 step_block [OF demo_run_send]])
  show "(ledger_step demo_env)\<^sup>*\<^sup>* ledger_new demo_L3"
    by (rule rtranclp.rtrancl_into_rtrancl [OF 2 step_block [OF demo_run_receive]])
qed

lemmas demo_inv = ledger_sys.reach_inv [OF _ ledger_new_inv]

theorem process_block_atomic_witness:
  "snd (process_block demo_env 100 demo_mint demo_L1) = demo_L1"
proof -
  have run: "process_block demo_env 100 demo_mint demo_L1
      = (Ok (Duplicate (calculate_hash demo_env demo_mint)), demo_L1)"
    by (simp add: process_block_def demo_pow demo_signature check_owner_def owner_signed_type_def
        bt_contains_def demo_L1_def Let_def) (simp add: demo_mint_def)
  show ?thesis using process_block_atomic [OF run] run by simp
qed

section \<open>Properties of the ledger\<close>

text \<open>C2: conservation. An applied block changes the value of the ledger by exactly what its type
  takes out (a slash burns, a contract deployment or call hands its amount over), and the invariant
  of reachable ledgers is kept.\<close>

theorem applied_block_conserves_value:
  assumes "ledger_inv L" and "process_block env now b L = (Ok (Applied h), L')"
  shows "ledger_value L' + value_removed L b = ledger_value L \<and> ledger_inv L'"
  using assms(2)
proof (cases rule: process_block_cases)
  case unchanged
  then show ?thesis by blast
next
  case (applied st1 L1)
  with applied_inv [OF assms(1) applied(5,9)] applied_value [OF assms(1) applied(5,9)]
  show ?thesis by simp
qed

theorem applied_block_conserves_value_witness:
  "ledger_value demo_L2 + value_removed demo_L1 demo_send = ledger_value demo_L1 \<and> ledger_inv demo_L2"
  by (rule applied_block_conserves_value [OF demo_inv [OF demo_reach(1)] demo_run_send])

text \<open>C1: supply cap. In every ledger reachable from an empty one, by any sequence of blocks and fee
  claims in any order, balances, unclaimed sends, collected fees and undistributed supply together
  never exceed the public supply cap of 21158413 LOS.\<close>

theorem supply_never_exceeds_cap:
  assumes "(ledger_step env)\<^sup>*\<^sup>* ledger_new L"
  shows "balances_total L + in_flight L + unat (accumulated_fees_cil L)
      + unat (remaining_supply (distribution L)) \<le> 21158413 * 10 ^ 11"
  using ledger_sys.reach_val [OF assms ledger_new_inv] unfolding ledger_new_value
  by (simp add: ledger_value_def ledger_constants)

theorem supply_never_exceeds_cap_witness:
  "balances_total demo_L3 + in_flight demo_L3 + unat (accumulated_fees_cil demo_L3)
      + unat (remaining_supply (distribution demo_L3)) \<le> 21158413 * 10 ^ 11"
  by (rule supply_never_exceeds_cap [OF demo_reach(3)])

text \<open>C4: no double receive. In every reachable ledger two Receive blocks never claim the same Send:
  a Send is credited at most once.\<close>

theorem send_received_at_most_once:
  assumes "(ledger_step env)\<^sup>*\<^sup>* ledger_new L"
    and "bt_get (blocks L) h = Some r" "blk_type r = Receive"
    and "bt_get (blocks L) h' = Some r'" "blk_type r' = Receive"
    and "blk_link r = blk_link r'"
  shows "h = h'"
  using ledger_sys.reach_inv [OF assms(1) ledger_new_inv] assms(2-6)
  unfolding ledger_inv_def receives_unique_def by blast

theorem send_received_at_most_once_witness:
  "calculate_hash demo_env demo_receive = calculate_hash demo_env demo_receive"
proof (rule send_received_at_most_once [OF demo_reach(3)])
  show "bt_get (blocks demo_L3) (calculate_hash demo_env demo_receive) = Some demo_receive"
    by (simp add: demo_L3_def demo_L2_def demo_hash demo_blocks char_of_def bit_0)
  then show "bt_get (blocks demo_L3) (calculate_hash demo_env demo_receive) = Some demo_receive" .
qed (simp_all add: demo_receive_def)

text \<open>C3: authorised debits. When processing a block lowers the balance of an account, the block is
  of that account, its signature verifies, and either the signing key derives to the account, or the
  block is a slash signed by a registered validator with at least the minimum stake.\<close>

theorem debit_is_authorised:
  assumes "process_block env now b L = (r, L')"
    and "bt_get (accounts L) a = Some st" "bt_get (accounts L') a = Some st'"
    and "acc_balance st' < acc_balance st"
  shows "blk_account b = a \<and> verify_signature env b
    \<and> (\<exists>pk. hex_decode env (blk_public_key b) = Some pk
        \<and> (owner_signed_type (blk_type b) \<and> public_key_to_address env pk = a
           \<or> blk_type b = Slash
             \<and> (\<exists>v. bt_get (accounts L) (public_key_to_address env pk) = Some v
                   \<and> acc_is_validator v \<and> MIN_VALIDATOR_STAKE_CIL \<le> acc_balance v)))"
  using assms(1)
proof (cases rule: process_block_cases)
  case unchanged
  then show ?thesis using assms(2-4) by auto
next
  case (applied st1 L1)
  have a: "blk_account b = a" and st': "acc_balance st' = acc_balance st1"
    using applied(10) assms(2-4) process_transaction_frame [OF applied(9)] by (auto split: if_splits)
  have st: "account_or_default L (blk_account b) = st"
    using assms(2) a by (simp add: account_or_default_def)
  note tx = applied(9) [unfolded st]
  show ?thesis
  proof (cases "owner_signed_type (blk_type b)")
    case True
    then show ?thesis
      using applied(3,4) a
      by (auto simp: check_owner_def Let_def split: option.splits if_splits)
  next
    case False
    have "blk_type b = Slash"
    proof (rule ccontr)
      assume "blk_type b \<noteq> Slash"
      with False have "blk_type b = Mint \<or> blk_type b = Receive"
        by (cases "blk_type b") (simp_all add: owner_signed_type_def)
      then have "acc_balance st1 = saturating_add (acc_balance st) (blk_amount b)"
        using tx by (auto simp: process_transaction_def process_mint_def process_receive_def Let_def
            split: option.splits if_splits)
      then have "unat (acc_balance st) \<le> unat (acc_balance st1)"
        using unat_less_exp [of "acc_balance st"] by (simp add: unat_saturating_add)
      then show False using assms(4) st' by (simp add: word_less_nat_alt)
    qed
    then show ?thesis
      using tx a applied(3)
      by (auto simp: process_transaction_def process_slash_def slash_err_def Let_def
          not_less split: option.splits if_splits)
  qed
qed

theorem debit_is_authorised_witness:
  "blk_account demo_send = ''LOSA'' \<and> verify_signature demo_env demo_send
    \<and> (\<exists>pk. hex_decode demo_env (blk_public_key demo_send) = Some pk
        \<and> (owner_signed_type (blk_type demo_send) \<and> public_key_to_address demo_env pk = ''LOSA''
           \<or> blk_type demo_send = Slash
             \<and> (\<exists>v. bt_get (accounts demo_L1) (public_key_to_address demo_env pk) = Some v
                   \<and> acc_is_validator v \<and> MIN_VALIDATOR_STAKE_CIL \<le> acc_balance v)))"
  by (rule debit_is_authorised [OF demo_run_send, of "''LOSA''"
        "\<lparr>acc_head = calculate_hash demo_env demo_mint, acc_balance = 1000000,
          acc_block_count = 1, acc_is_validator = False\<rparr>"
        "\<lparr>acc_head = calculate_hash demo_env demo_send, acc_balance = 895000,
          acc_block_count = 2, acc_is_validator = False\<rparr>"])
    (simp_all add: demo_L1_def demo_L2_def)

text \<open>C6: chain discipline. An applied block extends exactly one account chain: it names the old
  head as its predecessor, becomes the new head, raises the block count by one, is stored under its
  hash, and no other account and no other block changes. Its timestamp is not before that of its
  predecessor and at most 300 seconds ahead of the clock.\<close>

theorem applied_block_extends_chain:
  assumes "process_block env now b L = (Ok (Applied h), L')"
  shows "h = calculate_hash env b \<and> bt_get (blocks L) h = None \<and> bt_get (blocks L') h = Some b
    \<and> (\<forall>h'. h' \<noteq> h \<longrightarrow> bt_get (blocks L') h' = bt_get (blocks L) h')
    \<and> (\<forall>a. a \<noteq> blk_account b \<longrightarrow> bt_get (accounts L') a = bt_get (accounts L) a)
    \<and> blk_previous b = acc_head (account_or_default L (blk_account b))
    \<and> acc_head (account_or_default L' (blk_account b)) = h
    \<and> acc_block_count (account_or_default L' (blk_account b))
        = acc_block_count (account_or_default L (blk_account b)) + 1
    \<and> blk_timestamp b \<le> now + 300
    \<and> (\<forall>p. blk_previous b \<noteq> ''0'' \<and> bt_get (blocks L) (blk_previous b) = Some p
          \<longrightarrow> blk_timestamp p \<le> blk_timestamp b)"
  using assms
proof (cases rule: process_block_cases)
  case unchanged
  then show ?thesis by blast
next
  case (applied st1 L1)
  note fr = process_transaction_frame [OF applied(9)]
  have "blk_timestamp b \<le> now + 300
    \<and> (\<forall>p. blk_previous b \<noteq> ''0'' \<and> bt_get (blocks L) (blk_previous b) = Some p
          \<longrightarrow> blk_timestamp p \<le> blk_timestamp b)"
    using applied(8) by (auto simp: check_timestamp_def MAX_TIMESTAMP_DRIFT_SECS_def not_less
        split: if_splits option.splits)
  moreover have "account_or_default L' (blk_account b)
      = st1\<lparr>acc_head := h, acc_block_count := acc_block_count st1 + 1\<rparr>"
    using applied(1,10) fr by (simp add: account_or_default_def)
  ultimately show ?thesis using applied fr by simp
qed

theorem applied_block_extends_chain_witness:
  "blk_previous demo_send = acc_head (account_or_default demo_L1 (blk_account demo_send))
    \<and> acc_head (account_or_default demo_L2 (blk_account demo_send)) = calculate_hash demo_env demo_send"
  using applied_block_extends_chain [OF demo_run_send] by blast

text \<open>The signed content is bound. With a collision-free hash and encoding, two blocks with
  equal signing hash whose text fields have equal lengths agree in every field but the signature,
  including the fee, the nonce and the timestamp.\<close>

theorem signing_hash_binds_fields:
  assumes "inj (keccak256 env)" "inj (hex_encode env)"
    and "signing_hash env b = signing_hash env c"
    and "length (blk_account b) = length (blk_account c)"
    and "length (blk_previous b) = length (blk_previous c)"
    and "length (blk_link b) = length (blk_link c)"
  shows "b\<lparr>blk_signature := []\<rparr> = c\<lparr>blk_signature := []\<rparr>"
proof -
  have e: "signing_bytes env b = signing_bytes env c"
    using assms(1-3) by (simp add: signing_hash_def inj_eq)
  then have "length (signing_bytes env b) = length (signing_bytes env c)" by simp
  then have pk: "length (blk_public_key b) = length (blk_public_key c)"
    using assms(4-6) by (simp add: signing_bytes_def)
  have "type_byte (blk_type b) = type_byte (blk_type c) \<Longrightarrow> blk_type b = blk_type c"
    by (cases "blk_type b"; cases "blk_type c") simp_all
  then show ?thesis
    using e assms(4-6) pk unfolding signing_bytes_def
    by (simp add: append_eq_append_conv) (auto intro!: block.equality dest: u64_le_bytes_inject u128_le_bytes_inject)
qed

lemma inj_char_of_bytes: "inj (\<lambda>w :: u8. char_of (unat w) :: char)"
proof (rule injI)
  fix v w :: u8
  assume "(char_of (unat v) :: char) = char_of (unat w)"
  then have "map (\<lambda>w. char_of (unat w)) [v] = map (\<lambda>w. char_of (unat w)) [w]" by simp
  then have "[v] = [w]" by (metis as_bytes_char_of)
  then show "v = w" by simp
qed

theorem signing_hash_binds_fields_witness:
  "demo_send\<lparr>blk_signature := []\<rparr> = demo_send\<lparr>blk_signature := ''other'', blk_signature := []\<rparr>"
proof -
  let ?env = "demo_env\<lparr>keccak256 := (\<lambda>b. b)\<rparr>"
  let ?c = "demo_send\<lparr>blk_signature := ''other''\<rparr>"
  have "inj (keccak256 ?env)" "inj (hex_encode ?env)"
    by (simp_all add: demo_env_def plain_env_def inj_char_of_bytes)
  moreover have "signing_hash ?env demo_send = signing_hash ?env ?c"
    by (simp add: signing_hash_def signing_bytes_def)
  ultimately show ?thesis
    using signing_hash_binds_fields [of ?env demo_send ?c] by simp
qed

text \<open>mint limit. On a mainnet build an applied Mint of more than 1000 LOS carries a link that
  begins with REWARD: or FEE_REWARD:, and no Mint exceeds the remaining supply.\<close>

theorem mainnet_mint_limit:
  assumes "is_mainnet_build env" "blk_type b = Mint"
    and "process_block env now b L = (Ok (Applied h), L')"
  shows "blk_amount b \<le> remaining_supply (distribution L)
    \<and> (blk_amount b \<le> 1000 * CIL_PER_LOS
       \<or> starts_with (blk_link b) ''REWARD:'' \<or> starts_with (blk_link b) ''FEE_REWARD:'')"
  using assms(3)
proof (cases rule: process_block_cases)
  case unchanged
  then show ?thesis by blast
next
  case (applied st1 L1)
  then show ?thesis
    using assms(1,2)
    by (auto simp: process_transaction_def process_mint_def Let_def is_system_mint_def is_faucet_def
        is_mainnet_build_def is_testnet_build_def MAX_MINT_PER_BLOCK_def not_less
        split: if_splits option.splits)
qed

theorem mainnet_mint_limit_witness:
  "blk_amount demo_mint \<le> remaining_supply (distribution ledger_new)
    \<and> (blk_amount demo_mint \<le> 1000 * CIL_PER_LOS
       \<or> starts_with (blk_link demo_mint) ''REWARD:'' \<or> starts_with (blk_link demo_mint) ''FEE_REWARD:'')"
  by (rule mainnet_mint_limit [OF _ _ demo_run_mint])
    (simp_all add: is_mainnet_build_def CHAIN_ID_def demo_mint_def)

text \<open>
  The exemption is open to every signer: a Mint is not an owner-signed type, and nothing else in
  \<open>process_block\<close> looks at who signed it. A link that begins with \<open>REWARD:\<close> lifts the limit on every
  build.
\<close>

lemma reward_prefix_lifts_mint_limit:
  assumes "blk_type b = Mint" "starts_with (blk_link b) ''REWARD:''"
    and "blk_amount b \<le> remaining_supply (distribution L)"
  shows "check_owner env b = None \<and> is_ok (fst (process_transaction env b st L))"
  using assms
  by (simp add: check_owner_def owner_signed_type_def process_transaction_def process_mint_def
      is_system_mint_def Let_def)

text \<open>
  The signing bytes are a plain concatenation: text can move across the border between the account
  and the predecessor without changing the hash.
\<close>

lemma signing_hash_field_border:
  "signing_hash env (b\<lparr>blk_account := x @ y, blk_previous := z\<rparr>)
    = signing_hash env (b\<lparr>blk_account := x, blk_previous := y @ z\<rparr>)"
  by (simp add: signing_hash_def signing_bytes_def as_bytes_def)

end
