(* ===== verification/Isqrt.thy ===== *)
theory Isqrt
  imports Los_Prelude
begin

text \<open>
  Newton's integer square root. The sources contain the same loop in \<open>voting.rs\<close>,
  \<open>anti_whale.rs\<close>, \<open>validator_rewards.rs\<close> and in the contracts; each copy is a definition in the
  theory of its component, and all of them run \<open>isqrt_loop\<close>. The locale \<open>integer_sqrt\<close> states what
  the callers rely on (the floor of the real square root) and derives monotonicity, bounds and
  sub-additivity once.
\<close>

section \<open>The contract of an integer square root\<close>

locale integer_sqrt =
  fixes sq :: "'a::len word \<Rightarrow> 'a word"
  assumes sq_lower: "unat (sq n) ^ 2 \<le> unat n"
    and sq_upper: "unat n < (unat (sq n) + 1) ^ 2"
begin

lemma sq_le_iff: "k \<le> unat (sq n) \<longleftrightarrow> k ^ 2 \<le> unat n"
proof
  assume "k \<le> unat (sq n)"
  then have "k ^ 2 \<le> unat (sq n) ^ 2" by (rule power_mono) simp
  then show "k ^ 2 \<le> unat n" using sq_lower [of n] by (rule le_trans)
next
  assume "k ^ 2 \<le> unat n"
  then have "k ^ 2 < (unat (sq n) + 1) ^ 2" using sq_upper [of n] by (rule le_less_trans)
  then have "k < unat (sq n) + 1" by (rule power2_less_imp_less) simp
  then show "k \<le> unat (sq n)" by simp
qed

lemma sq_unique: "r ^ 2 \<le> unat n \<Longrightarrow> unat n < (r + 1) ^ 2 \<Longrightarrow> unat (sq n) = r"
  using sq_le_iff [of r n] sq_le_iff [of "r + 1" n] by auto

lemma sq_mono: "m \<le> n \<Longrightarrow> sq m \<le> sq n"
  using sq_le_iff [of "unat (sq m)" n] sq_lower [of m] by (simp add: word_le_nat_alt)

lemma sq_le_arg: "unat (sq n) \<le> unat n"
  using sq_lower [of n] by (metis le_trans power2_nat_le_imp_le self_le_ge2_pow le_square power2_eq_square)

lemma sq_eq_0_iff: "unat (sq n) = 0 \<longleftrightarrow> unat n = 0"
  using sq_le_iff [of 1 n] by auto

text \<open>Splitting a stake never loses weight: the whole weighs at most as much as its parts.\<close>

lemma sq_subadditive:
  assumes "unat c = unat a + unat b"
  shows "unat (sq c) \<le> unat (sq a) + unat (sq b) + 1"
proof (rule ccontr)
  assume "\<not> ?thesis"
  then have "unat (sq a) + unat (sq b) + 2 \<le> unat (sq c)" by simp
  then have "(unat (sq a) + unat (sq b) + 2) ^ 2 \<le> unat c" by (simp only: sq_le_iff)
  moreover have "unat a < (unat (sq a) + 1) ^ 2" "unat b < (unat (sq b) + 1) ^ 2"
    by (rule sq_upper)+
  moreover have "(unat (sq a) + 1) ^ 2 + (unat (sq b) + 1) ^ 2 \<le> (unat (sq a) + unat (sq b) + 2) ^ 2"
    by (simp add: power2_eq_square algebra_simps)
  ultimately show False using assms by linarith
qed

end

section \<open>The loop\<close>

function isqrt_loop :: "'a::len word \<Rightarrow> 'a word \<Rightarrow> 'a word \<Rightarrow> 'a word" where
  "isqrt_loop n x y = (if y < x then isqrt_loop n y ((y + n div y) div 2) else x)"
  by pat_completeness auto
termination
  by (relation "measure (\<lambda>(n, x, y). unat x)") (auto simp: word_less_nat_alt)

declare isqrt_loop.simps [simp del]

definition isqrt_newton :: "'a::len word \<Rightarrow> 'a word" where
  "isqrt_newton n = (if n = 0 then 0 else isqrt_loop n n (div_ceil n 2))"

text \<open>
  The invariant of the loop, on unsigned values: \<open>x\<close> is positive and not below the root, and \<open>y\<close> is
  the next Newton iterate. In particular the divisor of every iteration is positive.
\<close>

definition newton_inv :: "nat \<Rightarrow> nat \<Rightarrow> nat \<Rightarrow> bool" where
  "newton_inv n x y \<longleftrightarrow> 1 \<le> x \<and> x \<le> n \<and> n < (x + 1) ^ 2 \<and> y = (x + n div x) div 2"

lemma newton_sum_le:
  fixes n x :: nat
  assumes "1 \<le> x" "x \<le> n"
  shows "x + n div x \<le> n + 1"
proof -
  obtain a b where x: "x = a + 1" and n: "n = x + b"
    using assms by (metis add.commute le_Suc_ex)
  have "n \<le> x * (b + 1)" unfolding n x by (simp add: algebra_simps)
  then have "n div x \<le> (x * (b + 1)) div x" by (rule div_le_mono)
  also have "\<dots> = b + 1" using assms by simp
  finally show ?thesis using n by simp
qed

lemma newton_step_root:
  fixes n x :: nat
  assumes "1 \<le> x"
  shows "n < ((x + n div x) div 2 + 1) ^ 2"
proof -
  define q where "q = n div x"
  define y where "y = (x + q) div 2"
  have next_iterate: "x + q + 1 \<le> 2 * (y + 1)"
    unfolding y_def by presburger
  have "n < x * (q + 1)"
    using assms by (simp add: q_def dividend_less_times_div)
  then have "4 * n < 4 * (x * (q + 1))" by simp
  also have "\<dots> \<le> (x + q + 1) ^ 2"
  proof (cases "q + 1 \<le> x")
    case True
    then obtain d where "x = q + 1 + d" using le_Suc_ex by blast
    then show ?thesis by (simp add: power2_eq_square algebra_simps)
  next
    case False
    then obtain d where "q + 1 = x + d" by (metis le_Suc_ex nat_le_linear)
    then have "(x + q + 1) ^ 2 = (2 * x + d) ^ 2" by (simp add: add.assoc)
    then show ?thesis using \<open>q + 1 = x + d\<close> by (simp add: power2_eq_square algebra_simps)
  qed
  also have "(x + q + 1) ^ 2 \<le> (2 * (y + 1)) ^ 2"
    by (rule power_mono [OF next_iterate]) simp
  finally show ?thesis
    unfolding y_def q_def by (simp add: power2_eq_square)
qed

lemma newton_inv_step:
  assumes "newton_inv n x y" "y < x"
  shows "1 \<le> y" and "y < n" and "n < (y + 1) ^ 2"
proof -
  have x: "1 \<le> x" "x \<le> n" and y: "y = (x + n div x) div 2"
    using assms(1) by (auto simp: newton_inv_def)
  have "1 \<le> n div x" using x by (simp add: Suc_leI div_greater_zero_iff)
  then show "1 \<le> y" using x y by simp
  show "y < n" using assms(2) x(2) by simp
  show "n < (y + 1) ^ 2" unfolding y by (rule newton_step_root [OF x(1)])
qed

text \<open>No iteration overflows a word of at least three bits.\<close>

lemma newton_no_overflow:
  fixes n y :: nat
  assumes "1 \<le> y" "y < n" "n < (y + 1) ^ 2" "2 * y \<le> n + 1" "n < 2 ^ L" "3 \<le> L"
  shows "y + n div y < 2 ^ L"
proof (cases "y = 1")
  case True
  then have "y + n div y < 8" using assms(3) by (simp add: power2_eq_square)
  also have "(8 :: nat) \<le> 2 ^ L" using power_increasing [OF assms(6), of "2 :: nat"] by simp
  finally show ?thesis .
next
  case False
  then have "n div y \<le> n div 2" using assms(1) by (intro div_le_mono2) auto
  then have "y + n div y \<le> n" using assms(4) by linarith
  then show ?thesis using assms(5) by simp
qed

lemma isqrt_loop_correct:
  fixes n :: "'a::len word"
  assumes L: "3 \<le> LENGTH('a)" and inv: "newton_inv (unat n) (unat x) (unat y)"
  shows "unat (isqrt_loop n x y) ^ 2 \<le> unat n \<and> unat n < (unat (isqrt_loop n x y) + 1) ^ 2"
  using inv
proof (induction n x y rule: isqrt_loop.induct)
  case (1 n x y)
  show ?case
  proof (cases "y < x")
    case True
    then have lt: "unat y < unat x" by (simp add: word_less_nat_alt)
    note y = newton_inv_step [OF "1.prems" lt]
    have two: "2 * unat y \<le> unat n + 1"
      using "1.prems" newton_sum_le [of "unat x" "unat n"] by (auto simp: newton_inv_def)
    have "unat (y + n div y) = unat y + unat n div unat y"
      using newton_no_overflow [OF y two unat_less_exp L] by (subst unat_add_exact) (simp_all add: unat_div)
    moreover have "unat (2 :: 'a word) = 2"
      using L unat_of_nat_small [of 2, where 'a = 'a] power_increasing [of 3 "LENGTH('a)" "2 :: nat"] by simp
    ultimately have "newton_inv (unat n) (unat y) (unat ((y + n div y) div 2))"
      using y by (simp add: newton_inv_def unat_div)
    from "1.IH" [OF True this] True show ?thesis by (simp add: isqrt_loop.simps [of n x y])
  next
    case False
    then have le: "unat x \<le> unat y" by (simp add: word_less_nat_alt)
    have "unat x \<le> unat n div unat x" and "1 \<le> unat x"
      using "1.prems" le by (auto simp: newton_inv_def)
    then have "unat x * unat x \<le> unat n"
      by (metis div_times_less_eq_dividend le_trans mult_le_mono1)
    then show ?thesis
      using False "1.prems" by (simp add: isqrt_loop.simps [of n x y] newton_inv_def power2_eq_square)
  qed
qed

lemma isqrt_newton_correct:
  fixes n :: "'a::len word"
  assumes "3 \<le> LENGTH('a)"
  shows "unat (isqrt_newton n) ^ 2 \<le> unat n \<and> unat n < (unat (isqrt_newton n) + 1) ^ 2"
proof (cases "n = 0")
  case True
  then show ?thesis by (simp add: isqrt_newton_def)
next
  case False
  then have pos: "1 \<le> unat n" by (simp add: Suc_le_eq unat_gt_0)
  have two: "unat (2 :: 'a word) = 2"
    using assms unat_of_nat_small [of 2, where 'a = 'a] power_increasing [of 3 "LENGTH('a)" "2 :: nat"] by simp
  have "unat (div_ceil n 2) = (unat n + unat n div unat n) div 2"
    using pos two unat_div_ceil [of "2 :: 'a word" n] by simp
  then have "newton_inv (unat n) (unat n) (unat (div_ceil n 2))"
    using pos by (simp add: newton_inv_def power2_eq_square)
  from isqrt_loop_correct [OF assms this] False show ?thesis by (simp add: isqrt_newton_def)
qed

interpretation newton_u128: integer_sqrt "isqrt_newton :: u128 \<Rightarrow> u128"
  by unfold_locales (use isqrt_newton_correct [where 'a = 128] in auto)

interpretation newton_u64: integer_sqrt "isqrt_newton :: u64 \<Rightarrow> u64"
  by unfold_locales (use isqrt_newton_correct [where 'a = 64] in auto)

end
