(* ===== verification/Voting.thy ===== *)
theory Voting
  imports BTree_Map Isqrt Step_Systems
begin

text \<open>
  Quadratic voting (\<open>los-consensus/src/voting.rs\<close>): voting power is the integer square root of
  the stake, tracked per validator in \<open>VotingSystem\<close>. Shown here: the power is the exact floor of
  the square root, monotone and bounded; the registry keeps every stored power equal to the power of
  the stored stake; and two different proposals never both reach consensus.
\<close>

section \<open>Voting power\<close>

definition MIN_STAKE_CIL :: u128 where "MIN_STAKE_CIL = 100000000000000"
definition MAX_STAKE_FOR_VOTING_CIL :: u128 where "MAX_STAKE_FOR_VOTING_CIL = 2193623600000000000000"

definition voting_isqrt :: "u128 \<Rightarrow> u128" where
  "voting_isqrt n = (if n = 0 then 0 else isqrt_loop n n (div_ceil n 2))"

definition calculate_voting_power :: "u128 \<Rightarrow> u128" where
  "calculate_voting_power staked_amount_cil =
     (if staked_amount_cil < MIN_STAKE_CIL then 0
      else
        let clamped_stake = min staked_amount_cil MAX_STAKE_FOR_VOTING_CIL
        in voting_isqrt clamped_stake)"

section \<open>The voting system\<close>

record validator_vote =
  vv_address :: string
  vv_staked_amount_cil :: u128
  vv_voting_power :: u128
  vv_preference :: string
  vv_is_active :: bool

definition validator_vote_new :: "string \<Rightarrow> u128 \<Rightarrow> string \<Rightarrow> bool \<Rightarrow> validator_vote" where
  "validator_vote_new validator_address staked_amount_cil vote_preference is_active =
     \<lparr>vv_address = validator_address, vv_staked_amount_cil = staked_amount_cil,
      vv_voting_power = calculate_voting_power staked_amount_cil,
      vv_preference = vote_preference, vv_is_active = is_active\<rparr>"

record voting_power_summary =
  vps_total_validators :: u32
  vps_total_stake_cil :: u128
  vps_total_voting_power :: u128
  vps_votes :: "validator_vote list"
  vps_average_voting_power :: u128
  vps_max_voting_power :: u128
  vps_min_voting_power :: u128
  vps_concentration_ratio_bps :: u32

record voting_system =
  vs_validators :: "(string, validator_vote) btree_map"

datatype voting_error = StakeExceedsMaximum u128 u128 | VotingValidatorNotFound string

definition voting_system_new :: voting_system where
  "voting_system_new = \<lparr>vs_validators = []\<rparr>"

definition vs_register_validator ::
    "string \<Rightarrow> u128 \<Rightarrow> string \<Rightarrow> bool \<Rightarrow> voting_system \<Rightarrow> (u128, voting_error) result \<times> voting_system" where
  "vs_register_validator validator_address staked_amount_cil vote_preference is_active vs =
     (if staked_amount_cil > MAX_STAKE_FOR_VOTING_CIL
      then (Err (StakeExceedsMaximum staked_amount_cil MAX_STAKE_FOR_VOTING_CIL), vs)
      else
        let vote = validator_vote_new validator_address staked_amount_cil vote_preference is_active;
            voting_power = vv_voting_power vote
        in (Ok voting_power,
            vs\<lparr>vs_validators := bt_insert validator_address vote (vs_validators vs)\<rparr>))"

definition vs_update_stake ::
    "string \<Rightarrow> u128 \<Rightarrow> voting_system \<Rightarrow> (u128, voting_error) result \<times> voting_system" where
  "vs_update_stake validator_address new_stake_cil vs =
     (case bt_get (vs_validators vs) validator_address of
        None \<Rightarrow> (Err (VotingValidatorNotFound validator_address), vs)
      | Some validator \<Rightarrow>
          let validator' = validator\<lparr>vv_staked_amount_cil := new_stake_cil,
                                     vv_voting_power := calculate_voting_power new_stake_cil\<rparr>
          in (Ok (vv_voting_power validator'),
              vs\<lparr>vs_validators := bt_insert validator_address validator' (vs_validators vs)\<rparr>))"

definition vs_update_vote_preference ::
    "string \<Rightarrow> string \<Rightarrow> voting_system \<Rightarrow> (unit, voting_error) result \<times> voting_system" where
  "vs_update_vote_preference validator_address preference vs =
     (case bt_get (vs_validators vs) validator_address of
        None \<Rightarrow> (Err (VotingValidatorNotFound validator_address), vs)
      | Some validator \<Rightarrow>
          (Ok (), vs\<lparr>vs_validators :=
             bt_insert validator_address (validator\<lparr>vv_preference := preference\<rparr>) (vs_validators vs)\<rparr>))"

definition vs_get_validator_power :: "voting_system \<Rightarrow> string \<Rightarrow> u128 option" where
  "vs_get_validator_power vs validator_address =
     map_option vv_voting_power (bt_get (vs_validators vs) validator_address)"

definition sum_power :: "validator_vote list \<Rightarrow> u128" where
  "sum_power votes = sum_list (map vv_voting_power votes)"

definition vs_get_normalized_power :: "voting_system \<Rightarrow> string \<Rightarrow> u32 option" where
  "vs_get_normalized_power vs validator_address =
     (let total_power = sum_power (bt_values (vs_validators vs)) in
      if total_power = 0 then Some 0
      else map_option (\<lambda>v. ucast ((vv_voting_power v * 10000) div total_power))
             (bt_get (vs_validators vs) validator_address))"

fun max_or :: "'a::linorder \<Rightarrow> 'a list \<Rightarrow> 'a" where
  "max_or d [] = d"
| "max_or d (x # xs) = fold max xs x"

fun min_or :: "'a::linorder \<Rightarrow> 'a list \<Rightarrow> 'a" where
  "min_or d [] = d"
| "min_or d (x # xs) = fold min xs x"

definition share_bps :: "u128 \<Rightarrow> u128 \<Rightarrow> u32" where
  "share_bps part whole = (if whole > 0 then ucast ((part * 10000) div whole) else 0)"

definition vs_get_summary :: "voting_system \<Rightarrow> voting_power_summary" where
  "vs_get_summary vs =
     (let votes = filter vv_is_active (bt_values (vs_validators vs));
          total_validators = (of_nat (length votes) :: u32);
          total_stake_cil = sum_list (map vv_staked_amount_cil votes);
          total_voting_power = sum_power votes;
          max_voting_power = (if votes = [] then 0 else max_or 0 (map vv_voting_power votes));
          min_voting_power = (if votes = [] then 0 else min_or 0 (map vv_voting_power votes));
          average_voting_power =
            (if total_validators > 0 then total_voting_power div ucast total_validators else 0);
          concentration_ratio_bps = share_bps max_voting_power total_voting_power
      in \<lparr>vps_total_validators = total_validators, vps_total_stake_cil = total_stake_cil,
          vps_total_voting_power = total_voting_power, vps_votes = votes,
          vps_average_voting_power = average_voting_power, vps_max_voting_power = max_voting_power,
          vps_min_voting_power = min_voting_power,
          vps_concentration_ratio_bps = concentration_ratio_bps\<rparr>)"

definition calculate_proposal_consensus :: "voting_system \<Rightarrow> string \<Rightarrow> u128 \<times> u32 \<times> bool" where
  "calculate_proposal_consensus vs proposal_id =
     (let votes_for = sum_power (filter (\<lambda>v. vv_is_active v \<and> vv_preference v = proposal_id)
                        (bt_values (vs_validators vs)));
          total_voting_power = sum_power (filter vv_is_active (bt_values (vs_validators vs)));
          percentage_bps = share_bps votes_for total_voting_power;
          consensus_reached = percentage_bps > 5000
      in (votes_for, percentage_bps, consensus_reached))"

definition compare_scenarios ::
    "(string \<times> u128) list \<Rightarrow> (string \<times> u128) list \<Rightarrow> u32 \<times> u32 \<times> u32" where
  "compare_scenarios whale_scenario distributed_scenario =
     (let power = (\<lambda>(_ :: string, stake). calculate_voting_power stake);
          whale_total_power = sum_list (map power whale_scenario);
          distributed_total_power = sum_list (map power distributed_scenario);
          max_whale = max_or 0 (map power whale_scenario);
          max_distributed = max_or 0 (map power distributed_scenario);
          whale_bps = share_bps max_whale whale_total_power;
          distributed_bps = share_bps max_distributed distributed_total_power;
          improvement_bps =
            (if whale_bps > 0
             then ucast ((saturating_sub (ucast whale_bps :: u64) (ucast distributed_bps) * 10000)
                         div ucast whale_bps)
             else 0)
      in (whale_bps, distributed_bps, improvement_bps))"

definition vs_clear :: "voting_system \<Rightarrow> voting_system" where
  "vs_clear vs = vs\<lparr>vs_validators := []\<rparr>"

section \<open>The power of a stake\<close>

interpretation voting_sqrt: integer_sqrt voting_isqrt
  using newton_u128.integer_sqrt_axioms unfolding voting_isqrt_def isqrt_newton_def by simp

lemma unat_clamped_stake:
  "unat (min s MAX_STAKE_FOR_VOTING_CIL) = min (unat s) 2193623600000000000000"
  by (auto simp: MAX_STAKE_FOR_VOTING_CIL_def min_def word_le_nat_alt)

lemma voting_power_sq:
  assumes "MIN_STAKE_CIL \<le> s"
  shows "unat (calculate_voting_power s) ^ 2 \<le> min (unat s) 2193623600000000000000"
    and "min (unat s) 2193623600000000000000 < (unat (calculate_voting_power s) + 1) ^ 2"
  using assms voting_sqrt.sq_lower [of "min s MAX_STAKE_FOR_VOTING_CIL"]
    voting_sqrt.sq_upper [of "min s MAX_STAKE_FOR_VOTING_CIL"]
  unfolding unat_clamped_stake by (auto simp: calculate_voting_power_def Let_def)

lemma voting_power_mono: "s \<le> t \<Longrightarrow> calculate_voting_power s \<le> calculate_voting_power t"
  by (auto simp: calculate_voting_power_def Let_def intro!: voting_sqrt.sq_mono min.mono)

lemma voting_power_bound: "unat (calculate_voting_power s) < 2 ^ 36"
proof (cases "MIN_STAKE_CIL \<le> s")
  case True
  show ?thesis
  proof (rule ccontr)
    assume "\<not> ?thesis"
    then have "((2 :: nat) ^ 36) ^ 2 \<le> unat (calculate_voting_power s) ^ 2"
      by (intro power_mono) simp_all
    also have "\<dots> \<le> 2193623600000000000000" using voting_power_sq(1) [OF True] by simp
    finally show False by simp
  qed
next
  case False
  then show ?thesis by (auto simp: calculate_voting_power_def)
qed

text \<open>voting power is zero below the minimum stake and otherwise the exact floor of the
  square root of the stake clamped to the total supply; it grows with the stake and stays below
  2 to the 36, so that ten thousand times a power never overflows.\<close>

theorem voting_power_is_floor_sqrt:
  "(s < MIN_STAKE_CIL \<longrightarrow> calculate_voting_power s = 0)
   \<and> (MIN_STAKE_CIL \<le> s \<longrightarrow>
       unat (calculate_voting_power s) ^ 2 \<le> min (unat s) 2193623600000000000000
       \<and> min (unat s) 2193623600000000000000 < (unat (calculate_voting_power s) + 1) ^ 2)
   \<and> (s \<le> t \<longrightarrow> calculate_voting_power s \<le> calculate_voting_power t)
   \<and> unat (calculate_voting_power s) < 2 ^ 36"
  using voting_power_sq voting_power_mono voting_power_bound
  by (auto simp: calculate_voting_power_def)

theorem voting_power_is_floor_sqrt_witness:
  "unat (calculate_voting_power 1000000000000000) = 31622776
   \<and> calculate_voting_power 1000000000000000 \<le> calculate_voting_power 2000000000000000"
proof -
  note claim = voting_power_is_floor_sqrt [of 1000000000000000 2000000000000000]
  let ?p = "unat (calculate_voting_power 1000000000000000)"
  have "?p ^ 2 \<le> 1000000000000000" "1000000000000000 < (?p + 1) ^ 2"
    using claim by (simp_all add: MIN_STAKE_CIL_def word_le_nat_alt)
  moreover have "?p \<le> 31622776"
  proof (rule ccontr)
    assume "\<not> ?thesis"
    then have "(31622777 :: nat) ^ 2 \<le> ?p ^ 2" by (intro power_mono) simp_all
    with calculation show False by simp
  qed
  moreover have "31622776 \<le> ?p"
  proof (rule ccontr)
    assume "\<not> ?thesis"
    then have "(?p + 1) ^ 2 \<le> (31622776 :: nat) ^ 2" by (intro power_mono) simp_all
    with calculation show False by simp
  qed
  ultimately show ?thesis using claim by (simp add: word_le_nat_alt)
qed

section \<open>The registry\<close>

definition voting_inv :: "voting_system \<Rightarrow> bool" where
  "voting_inv vs \<longleftrightarrow>
     bt_ok (vs_validators vs)
     \<and> (\<forall>a v. bt_get (vs_validators vs) a = Some v \<longrightarrow>
          vv_address v = a \<and> vv_voting_power v = calculate_voting_power (vv_staked_amount_cil v))"

inductive voting_step :: "voting_system \<Rightarrow> voting_system \<Rightarrow> bool" where
  register: "vs_register_validator a s p act vs = (r, vs') \<Longrightarrow> voting_step vs vs'"
| update_stake: "vs_update_stake a s vs = (r, vs') \<Longrightarrow> voting_step vs vs'"
| update_preference: "vs_update_vote_preference a p vs = (r', vs') \<Longrightarrow> voting_step vs vs'"
| clear: "voting_step vs (vs_clear vs)"

lemma voting_inv_new: "voting_inv voting_system_new"
  by (simp add: voting_inv_def voting_system_new_def)

lemma voting_step_inv: "voting_inv vs \<Longrightarrow> voting_step vs vs' \<Longrightarrow> voting_inv vs'"
  by (erule voting_step.cases)
    (auto simp: voting_inv_def vs_register_validator_def vs_update_stake_def
      vs_update_vote_preference_def vs_clear_def validator_vote_new_def Let_def
      split: if_splits option.splits)

interpretation voting_sys: invariant_system voting_step voting_inv
  by unfold_locales (rule voting_step_inv)

lemma voting_inv_values:
  "voting_inv vs \<Longrightarrow> v \<in> set (bt_values (vs_validators vs)) \<Longrightarrow> unat (vv_voting_power v) < 2 ^ 36"
  using voting_power_bound
  by (fastforce simp: voting_inv_def bt_values_def bt_entries_get)

definition nat_power :: "validator_vote list \<Rightarrow> nat" where
  "nat_power votes = sum_list (map (\<lambda>v. unat (vv_voting_power v)) votes)"

lemma nat_power_bound:
  "\<forall>v \<in> set votes. unat (vv_voting_power v) < 2 ^ 36 \<Longrightarrow> nat_power votes \<le> length votes * 2 ^ 36"
  by (induction votes) (auto simp: nat_power_def)

lemma unat_sum_power:
  assumes "\<forall>v \<in> set votes. unat (vv_voting_power v) < 2 ^ 36" "length votes < 2 ^ 64"
  shows "unat (sum_power votes) = nat_power votes" "nat_power votes < 2 ^ 100"
proof -
  have "nat_power votes \<le> length votes * 2 ^ 36" using nat_power_bound assms(1) .
  also have "\<dots> < 2 ^ 64 * 2 ^ 36" using assms(2) by simp
  finally show "nat_power votes < 2 ^ 100" by simp
  then show "unat (sum_power votes) = nat_power votes"
    unfolding sum_power_def nat_power_def by (simp add: unat_sum_list_exact comp_def)
qed

lemma nat_power_filter_le: "nat_power (filter P votes) \<le> nat_power votes"
  by (induction votes) (auto simp: nat_power_def)

lemma nat_power_disjoint:
  "(\<And>v. \<not> (P v \<and> Q v)) \<Longrightarrow> nat_power (filter P votes) + nat_power (filter Q votes) \<le> nat_power votes"
  by (induction votes) (fastforce simp: nat_power_def)+

lemma share_bps_exact:
  assumes "unat part \<le> unat whole" "unat whole < 2 ^ 100"
  shows "unat (share_bps part whole) = unat part * 10000 div unat whole"
    and "unat (share_bps part whole) \<le> 10000"
proof -
  have m: "unat (part * 10000) = unat part * 10000"
    by (subst unat_mult_exact) (use assms in simp_all)
  have "unat part * 10000 div unat whole \<le> unat whole * 10000 div unat whole"
    by (rule div_le_mono) (use assms in simp)
  also have "\<dots> \<le> 10000" by (cases "unat whole = 0") simp_all
  finally have le: "unat part * 10000 div unat whole \<le> 10000" .
  show eq: "unat (share_bps part whole) = unat part * 10000 div unat whole"
    using le by (auto simp: share_bps_def unat_ucast_small m unat_div word_less_nat_alt)
  show "unat (share_bps part whole) \<le> 10000" using le eq by simp
qed

lemma proposal_majority:
  assumes inv: "voting_inv vs" and len: "length (vs_validators vs) < 2 ^ 64"
    and won: "snd (snd (calculate_proposal_consensus vs p))"
  shows "nat_power (filter vv_is_active (bt_values (vs_validators vs)))
         < 2 * nat_power (filter (\<lambda>v. vv_preference v = p) (filter vv_is_active (bt_values (vs_validators vs))))"
proof -
  let ?all = "filter vv_is_active (bt_values (vs_validators vs))"
  let ?for = "filter (\<lambda>v. vv_preference v = p) ?all"
  have pw: "\<forall>v \<in> set ?all. unat (vv_voting_power v) < 2 ^ 36"
    using voting_inv_values [OF inv] by simp
  have l: "length ?all < 2 ^ 64" "length ?for < 2 ^ 64"
    using len le_less_trans [OF length_filter_le] by (fastforce simp: bt_values_def)+
  note all = unat_sum_power [OF pw l(1)]
  have "\<forall>v \<in> set ?for. unat (vv_voting_power v) < 2 ^ 36" using pw by auto
  note sel = unat_sum_power [OF this l(2)]
  have "unat (share_bps (sum_power ?for) (sum_power ?all)) > 5000"
    using won by (simp add: calculate_proposal_consensus_def Let_def word_less_nat_alt conj_commute)
  then have "5000 < nat_power ?for * 10000 div nat_power ?all"
    using all sel nat_power_filter_le [of "\<lambda>v. vv_preference v = p" ?all]
    by (subst (asm) share_bps_exact(1)) simp_all
  moreover from this have pos: "nat_power ?all > 0" by (cases "nat_power ?all") simp_all
  ultimately have "5001 * nat_power ?all \<le> nat_power ?for * 10000"
    using less_eq_div_iff_mult_less_eq [of "nat_power ?all" 5001 "nat_power ?for * 10000"] by simp
  with pos show ?thesis by linarith
qed

text \<open>In every voting system built by the operations, at most one proposal reaches
  consensus: a majority is more than half of the exact active voting power, without wrap-around,
  for any number of validators that fits a machine word.\<close>

theorem at_most_one_proposal_wins:
  assumes "voting_step\<^sup>*\<^sup>* voting_system_new vs"
    and "length (vs_validators vs) < 2 ^ 64"
    and "snd (snd (calculate_proposal_consensus vs p))"
    and "snd (snd (calculate_proposal_consensus vs q))"
  shows "p = q"
proof (rule ccontr)
  assume "p \<noteq> q"
  let ?all = "filter vv_is_active (bt_values (vs_validators vs))"
  have inv: "voting_inv vs"
    using voting_sys.reach_inv assms(1) voting_inv_new by blast
  have "nat_power (filter (\<lambda>v. vv_preference v = p) ?all)
      + nat_power (filter (\<lambda>v. vv_preference v = q) ?all) \<le> nat_power ?all"
    by (rule nat_power_disjoint) (use \<open>p \<noteq> q\<close> in auto)
  then show False
    using proposal_majority [OF inv assms(2,3)] proposal_majority [OF inv assms(2,4)] by linarith
qed

definition one_voter :: voting_system where
  "one_voter = snd (vs_register_validator ''v'' 100000000000000 ''yes'' True voting_system_new)"

lemma one_voter_power: "0 < unat (calculate_voting_power 100000000000000)"
  using voting_power_sq(2) [of 100000000000000] by (cases "unat (calculate_voting_power 100000000000000)")
    (simp_all add: MIN_STAKE_CIL_def)

theorem at_most_one_proposal_wins_witness:
  "snd (snd (calculate_proposal_consensus one_voter ''yes''))
   \<and> \<not> snd (snd (calculate_proposal_consensus one_voter ''no''))"
proof -
  let ?p = "calculate_voting_power 100000000000000"
  have "\<not> MAX_STAKE_FOR_VOTING_CIL < (100000000000000 :: u128)"
    by (simp add: MAX_STAKE_FOR_VOTING_CIL_def)
  then have vals: "vs_validators one_voter = [(''v'', validator_vote_new ''v'' 100000000000000 ''yes'' True)]"
    by (simp add: one_voter_def vs_register_validator_def voting_system_new_def Let_def)
  have "voting_step voting_system_new one_voter"
    unfolding one_voter_def by (rule voting_step.register) (rule prod.collapse [symmetric])
  then have reach: "voting_step\<^sup>*\<^sup>* voting_system_new one_voter" by blast
  have "unat (share_bps ?p ?p) = 10000"
    using share_bps_exact(1) [of ?p ?p] voting_power_bound [of 100000000000000] one_voter_power by simp
  then have yes: "snd (snd (calculate_proposal_consensus one_voter ''yes''))"
    by (simp add: calculate_proposal_consensus_def vals bt_values_def sum_power_def
        validator_vote_new_def word_less_nat_alt Let_def)
  with at_most_one_proposal_wins [OF reach _ yes, of "''no''"] show ?thesis
    by (auto simp: vals)
qed

end
