(* ===== verification/Quorum.thy ===== *)
theory Quorum
  imports Main
begin

text \<open>
  Vote thresholds of Byzantine agreement. A threshold above two thirds of the validators makes any
  two vote sets that reach it overlap in more validators than can be faulty; a threshold that the
  correct validators reach on their own keeps the protocol live. \<open>size_ok\<close> says for how many
  validators the threshold is claimed to be safe. The slashing, checkpoint and aBFT thresholds of the sources are interpreted in the theories that define them.
\<close>

locale safe_quorum =
  fixes quorum :: "nat \<Rightarrow> nat"
    and size_ok :: "nat \<Rightarrow> bool"
  assumes two_thirds: "size_ok n \<Longrightarrow> 2 * n < 3 * quorum n"
begin

lemma quorum_overlap:
  assumes "finite V" "A \<subseteq> V" "B \<subseteq> V" "size_ok (card V)"
    and "quorum (card V) \<le> card A" "quorum (card V) \<le> card B"
  shows "card V < 3 * card (A \<inter> B)"
proof -
  have "finite A" "finite B" using assms(1-3) finite_subset by auto
  then have "card A + card B = card (A \<union> B) + card (A \<inter> B)" by (rule card_Un_Int)
  moreover have "card (A \<union> B) \<le> card V" using assms(1-3) by (simp add: card_mono)
  moreover have "2 * card V < 3 * quorum (card V)" using two_thirds assms(4) .
  ultimately show ?thesis using assms(5,6) by linarith
qed

lemma quorums_share_correct:
  assumes "finite V" "A \<subseteq> V" "B \<subseteq> V" "size_ok (card V)"
    and "quorum (card V) \<le> card A" "quorum (card V) \<le> card B"
    and "F \<subseteq> V" "3 * card F \<le> card V"
  shows "\<exists>v \<in> A \<inter> B. v \<notin> F"
proof (rule ccontr)
  assume "\<not> ?thesis"
  then have "A \<inter> B \<subseteq> F" by blast
  then have "card (A \<inter> B) \<le> card F"
    using assms(1,7) by (meson card_mono finite_subset)
  with quorum_overlap [OF assms(1-6)] assms(8) show False by linarith
qed

end

locale live_quorum = safe_quorum +
  assumes reachable: "size_ok n \<Longrightarrow> 3 * f < n \<Longrightarrow> quorum n + f \<le> n"
begin

lemma correct_validators_suffice:
  assumes "finite V" "F \<subseteq> V" "3 * card F < card V" "size_ok (card V)"
  shows "quorum (card V) \<le> card (V - F)"
  using reachable [OF assms(4,3)] assms(1,2) by (simp add: card_Diff_subset finite_subset)

end

end
