(* ===== verification/Slashing.thy ===== *)
theory Slashing
  imports BTree_Map Los_Strings Quorum Step_Systems "HOL-Library.Sublist"
begin

text \<open>
  Validator slashing (\<open>los-consensus/src/slashing.rs\<close>): the safety profile of each validator, the
  global log of slash events, and slash proposals that execute once enough validators confirm them.
  Shown here: a ban is permanent, every profile's totals equal what its slash history and the global
  log record, a slash executes only with a quorum of distinct confirmations, and two such quorums
  share a correct validator.
\<close>

section \<open>Data\<close>

definition DOUBLE_SIGNING_SLASH_BPS :: u32 where "DOUBLE_SIGNING_SLASH_BPS = 10000"
definition DOWNTIME_SLASH_BPS :: u32 where "DOWNTIME_SLASH_BPS = 100"
definition DOWNTIME_WINDOW_BLOCKS :: u64 where "DOWNTIME_WINDOW_BLOCKS = 50000"
definition MIN_UPTIME_BPS :: u32 where "MIN_UPTIME_BPS = 9500"

datatype violation_type = DoubleSigning | ExtendedDowntime | FraudulentTransaction

record slash_event =
  se_block_height :: u64
  se_validator_address :: string
  se_violation_type :: violation_type
  se_slash_amount_cil :: u128
  se_slash_bps :: u32
  se_timestamp :: u64

datatype validator_status = Active | Slashed | Banned | Unstaking

record signature_record =
  sr_block_height :: u64
  sr_signature_hash :: string
  sr_timestamp :: u64

record safety_profile =
  sp_validator_address :: string
  sp_status :: validator_status
  sp_total_slashed_cil :: u128
  sp_recent_signatures :: "signature_record list"
  sp_blocks_participated :: u64
  sp_total_blocks_observed :: u64
  sp_last_participation_timestamp :: u64
  sp_slash_history :: "slash_event list"
  sp_violation_count :: u32

definition safety_profile_new :: "string \<Rightarrow> safety_profile" where
  "safety_profile_new validator_address =
     \<lparr>sp_validator_address = validator_address, sp_status = Active, sp_total_slashed_cil = 0,
      sp_recent_signatures = [], sp_blocks_participated = 0, sp_total_blocks_observed = 0,
      sp_last_participation_timestamp = 0, sp_slash_history = [], sp_violation_count = 0\<rparr>"

definition get_uptime_bps :: "safety_profile \<Rightarrow> u32" where
  "get_uptime_bps p =
     (if sp_total_blocks_observed p = 0 then 10000
      else ucast (((ucast (sp_blocks_participated p) :: u128) * 10000)
                  div ucast (sp_total_blocks_observed p)))"

definition meets_uptime_requirement :: "safety_profile \<Rightarrow> bool" where
  "meets_uptime_requirement p = (get_uptime_bps p \<ge> MIN_UPTIME_BPS)"

record slash_proposal =
  pr_proposal_id :: string
  pr_offender :: string
  pr_offense_type :: violation_type
  pr_evidence_hash :: string
  pr_proposed_at :: u64
  pr_proposer :: string
  pr_confirmations :: "string list"
  pr_executed :: bool
  pr_staked_amount_cil :: "u128 option"

record slashing_manager =
  sm_validators :: "(string, safety_profile) btree_map"
  sm_slash_events :: "slash_event list"
  sm_current_block_height :: u64
  sm_pending_proposals :: "(string, slash_proposal) btree_map"

datatype slashing_error =
    NotRegistered string | DoubleSigningDetected string u64 | AlreadyBanned string | IsBanned string
  | PermanentlyBanned string | AlreadyUnstaking string | OffenderNotRegistered string
  | ProposalExists | ProposalNotFound | AlreadyExecuted

definition slashing_new :: slashing_manager where
  "slashing_new = \<lparr>sm_validators = [], sm_slash_events = [], sm_current_block_height = 0,
                   sm_pending_proposals = []\<rparr>"

section \<open>Operations on profiles\<close>

definition sm_register_validator :: "string \<Rightarrow> slashing_manager \<Rightarrow> slashing_manager" where
  "sm_register_validator validator_address m =
     (case bt_get (sm_validators m) validator_address of
        Some _ \<Rightarrow> m
      | None \<Rightarrow> m\<lparr>sm_validators :=
                 bt_insert validator_address (safety_profile_new validator_address) (sm_validators m)\<rparr>)"

definition set_profile :: "string \<Rightarrow> safety_profile \<Rightarrow> slashing_manager \<Rightarrow> slashing_manager" where
  "set_profile a p m = m\<lparr>sm_validators := bt_insert a p (sm_validators m)\<rparr>"

definition push_signature :: "signature_record \<Rightarrow> signature_record list \<Rightarrow> signature_record list" where
  "push_signature r sigs =
     (let sigs' = sigs @ [r] in if length sigs' > 1000 then tl sigs' else sigs')"

definition record_signature ::
    "string \<Rightarrow> u64 \<Rightarrow> string \<Rightarrow> u64 \<Rightarrow> slashing_manager
     \<Rightarrow> (unit, slashing_error) result \<times> slashing_manager" where
  "record_signature validator_address block_height signature_hash timestamp m =
     (case bt_get (sm_validators m) validator_address of
        None \<Rightarrow> (Err (NotRegistered validator_address), m)
      | Some profile \<Rightarrow>
          if list_ex (\<lambda>s. sr_block_height s = block_height \<and> sr_signature_hash s \<noteq> signature_hash)
               (sp_recent_signatures profile)
          then (Err (DoubleSigningDetected validator_address block_height), m)
          else
            (Ok (), set_profile validator_address
               (profile\<lparr>sp_recent_signatures :=
                  push_signature \<lparr>sr_block_height = block_height, sr_signature_hash = signature_hash,
                                   sr_timestamp = timestamp\<rparr> (sp_recent_signatures profile)\<rparr>) m))"

definition slash_double_signing ::
    "string \<Rightarrow> u64 \<Rightarrow> u128 \<Rightarrow> u64 \<Rightarrow> slashing_manager
     \<Rightarrow> (u128, slashing_error) result \<times> slashing_manager" where
  "slash_double_signing validator_address block_height staked_amount_cil timestamp m =
     (case bt_get (sm_validators m) validator_address of
        None \<Rightarrow> (Err (NotRegistered validator_address), m)
      | Some profile \<Rightarrow>
          if sp_status profile = Banned then (Err (AlreadyBanned validator_address), m)
          else
            let slash_amount = staked_amount_cil;
                event = \<lparr>se_block_height = block_height, se_validator_address = validator_address,
                         se_violation_type = DoubleSigning, se_slash_amount_cil = slash_amount,
                         se_slash_bps = DOUBLE_SIGNING_SLASH_BPS, se_timestamp = timestamp\<rparr>;
                profile' = profile\<lparr>sp_total_slashed_cil := sp_total_slashed_cil profile + slash_amount,
                                   sp_status := Banned,
                                   sp_violation_count := sp_violation_count profile + 1,
                                   sp_slash_history := sp_slash_history profile @ [event]\<rparr>
            in (Ok slash_amount,
                (set_profile validator_address profile' m)
                  \<lparr>sm_slash_events := sm_slash_events m @ [event]\<rparr>))"

definition record_block_participation ::
    "string \<Rightarrow> u64 \<Rightarrow> u64 \<Rightarrow> slashing_manager \<Rightarrow> (unit, slashing_error) result \<times> slashing_manager" where
  "record_block_participation validator_address block_height timestamp m =
     (case bt_get (sm_validators m) validator_address of
        None \<Rightarrow> (Err (NotRegistered validator_address), m)
      | Some profile \<Rightarrow>
          (Ok (), set_profile validator_address
             (profile\<lparr>sp_blocks_participated := sp_blocks_participated profile + 1,
                      sp_total_blocks_observed := sp_total_blocks_observed profile + 1,
                      sp_last_participation_timestamp := timestamp\<rparr>) m))"

definition record_block_observation ::
    "string \<Rightarrow> slashing_manager \<Rightarrow> (unit, slashing_error) result \<times> slashing_manager" where
  "record_block_observation validator_address m =
     (case bt_get (sm_validators m) validator_address of
        None \<Rightarrow> (Err (NotRegistered validator_address), m)
      | Some profile \<Rightarrow>
          (Ok (), set_profile validator_address
             (profile\<lparr>sp_total_blocks_observed := sp_total_blocks_observed profile + 1\<rparr>) m))"

definition downtime_slash_amount :: "u128 \<Rightarrow> u128" where
  "downtime_slash_amount staked_amount_cil =
     (if DOWNTIME_SLASH_BPS \<ge> 10000 then staked_amount_cil
      else div_ceil (staked_amount_cil * ucast DOWNTIME_SLASH_BPS) 10000)"

definition check_and_slash_downtime ::
    "string \<Rightarrow> u64 \<Rightarrow> u128 \<Rightarrow> u64 \<Rightarrow> slashing_manager
     \<Rightarrow> (u128 option, slashing_error) result \<times> slashing_manager" where
  "check_and_slash_downtime validator_address block_height staked_amount_cil timestamp m =
     (case bt_get (sm_validators m) validator_address of
        None \<Rightarrow> (Err (NotRegistered validator_address), m)
      | Some profile \<Rightarrow>
          if sp_status profile = Banned then (Err (IsBanned validator_address), m)
          else if sp_total_blocks_observed profile \<ge> DOWNTIME_WINDOW_BLOCKS
                  \<and> \<not> meets_uptime_requirement profile
          then
            let slash_amount = downtime_slash_amount staked_amount_cil;
                event = \<lparr>se_block_height = block_height, se_validator_address = validator_address,
                         se_violation_type = ExtendedDowntime, se_slash_amount_cil = slash_amount,
                         se_slash_bps = DOWNTIME_SLASH_BPS, se_timestamp = timestamp\<rparr>;
                profile' = profile\<lparr>sp_total_slashed_cil := sp_total_slashed_cil profile + slash_amount,
                                   sp_status := Slashed,
                                   sp_violation_count := sp_violation_count profile + 1,
                                   sp_slash_history := sp_slash_history profile @ [event],
                                   sp_blocks_participated := 0,
                                   sp_total_blocks_observed := 0\<rparr>
            in (Ok (Some slash_amount),
                (set_profile validator_address profile' m)
                  \<lparr>sm_slash_events := sm_slash_events m @ [event]\<rparr>)
          else (Ok None, m))"

definition get_status :: "slashing_manager \<Rightarrow> string \<Rightarrow> validator_status option" where
  "get_status m validator_address = map_option sp_status (bt_get (sm_validators m) validator_address)"

definition emergency_ban ::
    "string \<Rightarrow> string \<Rightarrow> slashing_manager \<Rightarrow> (unit, slashing_error) result \<times> slashing_manager" where
  "emergency_ban validator_address reason m =
     (case bt_get (sm_validators m) validator_address of
        None \<Rightarrow> (Err (NotRegistered validator_address), m)
      | Some profile \<Rightarrow> (Ok (), set_profile validator_address (profile\<lparr>sp_status := Banned\<rparr>) m))"

definition validators_with_status :: "validator_status \<Rightarrow> slashing_manager \<Rightarrow> string list" where
  "validators_with_status st m =
     map fst (filter (\<lambda>(_, profile). sp_status profile = st) (sm_validators m))"

definition get_banned_validators :: "slashing_manager \<Rightarrow> string list" where
  "get_banned_validators m = validators_with_status Banned m"

definition get_slashed_validators :: "slashing_manager \<Rightarrow> string list" where
  "get_slashed_validators m = validators_with_status Slashed m"

definition get_slash_history :: "slashing_manager \<Rightarrow> string \<Rightarrow> slash_event list option" where
  "get_slash_history m validator_address =
     map_option sp_slash_history (bt_get (sm_validators m) validator_address)"

definition set_unstaking ::
    "string \<Rightarrow> slashing_manager \<Rightarrow> (unit, slashing_error) result \<times> slashing_manager" where
  "set_unstaking validator_address m =
     (case bt_get (sm_validators m) validator_address of
        None \<Rightarrow> (Err (NotRegistered validator_address), m)
      | Some profile \<Rightarrow>
          (case sp_status profile of
             Banned \<Rightarrow> (Err (PermanentlyBanned validator_address), m)
           | Unstaking \<Rightarrow> (Err (AlreadyUnstaking validator_address), m)
           | Active \<Rightarrow> (Ok (), set_profile validator_address (profile\<lparr>sp_status := Unstaking\<rparr>) m)
           | Slashed \<Rightarrow> (Ok (), set_profile validator_address (profile\<lparr>sp_status := Unstaking\<rparr>) m)))"

definition get_total_slashed :: "slashing_manager \<Rightarrow> string \<Rightarrow> u128 option" where
  "get_total_slashed m validator_address =
     map_option sp_total_slashed_cil (bt_get (sm_validators m) validator_address)"

definition update_block_height :: "u64 \<Rightarrow> slashing_manager \<Rightarrow> slashing_manager" where
  "update_block_height height m = m\<lparr>sm_current_block_height := height\<rparr>"

definition sm_remove_validator :: "string \<Rightarrow> slashing_manager \<Rightarrow> bool \<times> slashing_manager" where
  "sm_remove_validator validator_address m =
     (bt_contains (sm_validators m) validator_address,
      m\<lparr>sm_validators := bt_remove validator_address (sm_validators m)\<rparr>)"

definition get_all_validator_addresses :: "slashing_manager \<Rightarrow> string list" where
  "get_all_validator_addresses m = bt_keys (sm_validators m)"

record safety_stats =
  ss_total_validators :: u32
  ss_banned_count :: u32
  ss_slashed_count :: u32
  ss_active_validators :: u32
  ss_total_slashed_cil :: u128
  ss_total_slash_events :: u32

definition get_safety_stats :: "slashing_manager \<Rightarrow> safety_stats" where
  "get_safety_stats m =
     (let total_validators = of_nat (length (sm_validators m));
          banned_count = of_nat (length (filter (\<lambda>p. sp_status p = Banned) (bt_values (sm_validators m))));
          slashed_count = of_nat (length (filter (\<lambda>p. sp_status p = Slashed) (bt_values (sm_validators m))));
          total_slashed = sum_list (map sp_total_slashed_cil (bt_values (sm_validators m)))
      in \<lparr>ss_total_validators = total_validators, ss_banned_count = banned_count,
          ss_slashed_count = slashed_count,
          ss_active_validators = total_validators - banned_count - slashed_count,
          ss_total_slashed_cil = total_slashed,
          ss_total_slash_events = of_nat (length (sm_slash_events m))\<rparr>)"

definition sm_clear :: "slashing_manager \<Rightarrow> slashing_manager" where
  "sm_clear m = slashing_new"

section \<open>Proposals\<close>

definition slash_proposal_id :: "string \<Rightarrow> string \<Rightarrow> u64 \<Rightarrow> string" where
  "slash_proposal_id offender evidence_hash timestamp =
     ''slash_'' @ offender @ ''_'' @ evidence_hash @ ''_'' @ uint_to_string timestamp"

definition propose_slash ::
    "string \<Rightarrow> violation_type \<Rightarrow> string \<Rightarrow> string \<Rightarrow> u64 \<Rightarrow> slashing_manager
     \<Rightarrow> (string, slashing_error) result \<times> slashing_manager" where
  "propose_slash offender offense evidence_hash proposer timestamp m =
     (if \<not> bt_contains (sm_validators m) offender then (Err (OffenderNotRegistered offender), m)
      else
        let proposal_id = slash_proposal_id offender evidence_hash timestamp in
        if bt_contains (sm_pending_proposals m) proposal_id then (Err ProposalExists, m)
        else
          let proposal = \<lparr>pr_proposal_id = proposal_id, pr_offender = offender,
                pr_offense_type = offense, pr_evidence_hash = evidence_hash,
                pr_proposed_at = timestamp, pr_proposer = proposer, pr_confirmations = [proposer],
                pr_executed = False, pr_staked_amount_cil = None\<rparr>
          in (Ok proposal_id,
              m\<lparr>sm_pending_proposals := bt_insert proposal_id proposal (sm_pending_proposals m)\<rparr>))"

definition slash_threshold :: "usize \<Rightarrow> usize" where
  "slash_threshold total_validators = (total_validators * 2) div 3 + 1"

definition set_proposal :: "string \<Rightarrow> slash_proposal \<Rightarrow> slashing_manager \<Rightarrow> slashing_manager" where
  "set_proposal i p m = m\<lparr>sm_pending_proposals := bt_insert i p (sm_pending_proposals m)\<rparr>"

definition execute_offense ::
    "slash_proposal \<Rightarrow> u64 \<Rightarrow> slashing_manager \<Rightarrow> (unit, slashing_error) result \<times> slashing_manager" where
  "execute_offense proposal timestamp m =
     (let offender = pr_offender proposal;
          staked_amount = (case pr_staked_amount_cil proposal of Some amount \<Rightarrow> amount | None \<Rightarrow> 0)
      in case pr_offense_type proposal of
           ExtendedDowntime \<Rightarrow>
             (case check_and_slash_downtime offender (sm_current_block_height m) staked_amount timestamp m of
                (Ok _, m') \<Rightarrow> (Ok (), m') | (Err e, m') \<Rightarrow> (Err e, m') | (Panic, m') \<Rightarrow> (Panic, m'))
         | _ \<Rightarrow>
             (case slash_double_signing offender (sm_current_block_height m) staked_amount timestamp m of
                (Ok _, m') \<Rightarrow> (Ok (), m') | (Err e, m') \<Rightarrow> (Err e, m') | (Panic, m') \<Rightarrow> (Panic, m')))"

definition add_confirmation :: "string \<Rightarrow> slash_proposal \<Rightarrow> slash_proposal" where
  "add_confirmation confirmer proposal =
     (if confirmer \<in> set (pr_confirmations proposal) then proposal
      else proposal\<lparr>pr_confirmations := pr_confirmations proposal @ [confirmer]\<rparr>)"

definition confirm_slash ::
    "string \<Rightarrow> string \<Rightarrow> usize \<Rightarrow> u64 \<Rightarrow> u128 option \<Rightarrow> slashing_manager
     \<Rightarrow> (bool, slashing_error) result \<times> slashing_manager" where
  "confirm_slash proposal_id confirmer total_validators timestamp staked_amount_cil m =
     (case bt_get (sm_pending_proposals m) proposal_id of
        None \<Rightarrow> (Err ProposalNotFound, m)
      | Some proposal \<Rightarrow>
          let proposal1 = (case staked_amount_cil of
                             Some amount \<Rightarrow> proposal\<lparr>pr_staked_amount_cil := Some amount\<rparr>
                           | None \<Rightarrow> proposal)
          in if pr_executed proposal1 then (Err AlreadyExecuted, set_proposal proposal_id proposal1 m)
             else
               let proposal2 = add_confirmation confirmer proposal1;
                   m2 = set_proposal proposal_id proposal2 m
               in if of_nat (length (pr_confirmations proposal2)) \<ge> slash_threshold total_validators
                  then
                    (case execute_offense proposal2 timestamp m2 of
                       (Ok _, m3) \<Rightarrow>
                         (Ok True, m3\<lparr>sm_pending_proposals :=
                            bt_modify proposal_id (\<lambda>p. p\<lparr>pr_executed := True\<rparr>) (sm_pending_proposals m3)\<rparr>)
                     | (Err e, m3) \<Rightarrow> (Err e, m3)
                     | (Panic, m3) \<Rightarrow> (Panic, m3))
                  else (Ok False, m2))"

section \<open>The confirmation threshold\<close>

lemma unat_slash_threshold:
  assumes "unat n < 2 ^ 63"
  shows "unat (slash_threshold n) = unat n * 2 div 3 + 1"
proof -
  have "unat (n * 2) = unat n * 2" using assms by (subst unat_mult_exact) simp_all
  then have d: "unat (n * 2 div 3) = unat n * 2 div 3" by (simp add: unat_div)
  show ?thesis unfolding slash_threshold_def
    by (subst unat_add_exact) (use d assms in \<open>simp_all add: div_less_dividend\<close>)
qed

interpretation slash_quorum: live_quorum "\<lambda>n. unat (slash_threshold (of_nat n))"
    "\<lambda>n. 0 < n \<and> n < 2 ^ 63"
proof unfold_locales
  fix n :: nat assume n: "0 < n \<and> n < 2 ^ 63"
  then have t: "unat (slash_threshold (of_nat n)) = n * 2 div 3 + 1"
    by (subst unat_slash_threshold) (simp_all add: unat_of_nat_small)
  define q r where "q = n * 2 div 3" and "r = n * 2 mod 3"
  have dm: "3 * q + r = 2 * n" "r < 3" by (simp_all add: q_def r_def)
  have t: "unat (slash_threshold (of_nat n)) = q + 1" by (simp add: t q_def)
  show "2 * n < 3 * unat (slash_threshold (of_nat n))" unfolding t using dm by simp
  show "unat (slash_threshold (of_nat n)) + f \<le> n" if "3 * f < n" for f
    unfolding t using that dm by simp
qed

section \<open>Invariant\<close>

definition no_double_sign :: "signature_record list \<Rightarrow> bool" where
  "no_double_sign sigs \<longleftrightarrow>
     (\<forall>s \<in> set sigs. \<forall>t \<in> set sigs.
        sr_block_height s = sr_block_height t \<longrightarrow> sr_signature_hash s = sr_signature_hash t)"

definition profile_ok :: "slash_event list \<Rightarrow> string \<Rightarrow> safety_profile \<Rightarrow> bool" where
  "profile_ok events a p \<longleftrightarrow>
     sp_validator_address p = a
     \<and> sp_total_slashed_cil p = sum_list (map se_slash_amount_cil (sp_slash_history p))
     \<and> sp_violation_count p = of_nat (length (sp_slash_history p))
     \<and> suffix (sp_slash_history p) (filter (\<lambda>e. se_validator_address e = a) events)
     \<and> length (sp_recent_signatures p) \<le> 1000 \<and> no_double_sign (sp_recent_signatures p)"

definition slashing_inv :: "slashing_manager \<Rightarrow> bool" where
  "slashing_inv m \<longleftrightarrow>
     bt_ok (sm_validators m) \<and> bt_ok (sm_pending_proposals m)
     \<and> (\<forall>a p. bt_get (sm_validators m) a = Some p \<longrightarrow> profile_ok (sm_slash_events m) a p)
     \<and> (\<forall>i q. bt_get (sm_pending_proposals m) i = Some q \<longrightarrow> distinct (pr_confirmations q))"

lemma slashing_inv_new: "slashing_inv slashing_new"
  by (simp add: slashing_inv_def slashing_new_def)

lemma profile_ok_new: "profile_ok events a (safety_profile_new a)"
  by (simp add: profile_ok_def safety_profile_new_def no_double_sign_def)

lemma profile_ok_append_other:
  "profile_ok events a p \<Longrightarrow> se_validator_address e \<noteq> a \<Longrightarrow> profile_ok (events @ [e]) a p"
  by (simp add: profile_ok_def)

lemma profile_ok_push:
  assumes "profile_ok events a p" "se_validator_address e = a"
    and "sp_slash_history p' = sp_slash_history p @ [e]"
    and "sp_total_slashed_cil p' = sp_total_slashed_cil p + se_slash_amount_cil e"
    and "sp_violation_count p' = sp_violation_count p + 1"
    and "sp_recent_signatures p' = sp_recent_signatures p"
    and "sp_validator_address p' = sp_validator_address p"
  shows "profile_ok (events @ [e]) a p'"
  using assms by (simp add: profile_ok_def)

lemma no_double_sign_push:
  assumes "no_double_sign sigs"
    and "\<not> list_ex (\<lambda>s. sr_block_height s = sr_block_height r \<and> sr_signature_hash s \<noteq> sr_signature_hash r) sigs"
  shows "no_double_sign (push_signature r sigs)"
proof -
  have "\<forall>s \<in> set sigs. sr_block_height s = sr_block_height r \<longrightarrow> sr_signature_hash s = sr_signature_hash r"
    using assms(2) unfolding list_ex_iff by blast
  then have "no_double_sign (sigs @ [r])"
    using assms(1) unfolding no_double_sign_def set_append ball_Un by (simp only: list.set ball_simps) metis
  moreover have "set (push_signature r sigs) \<subseteq> set (sigs @ [r])"
    by (cases sigs) (auto simp: push_signature_def Let_def split: if_splits)
  ultimately show ?thesis unfolding no_double_sign_def by blast
qed

lemma length_push_signature: "length sigs \<le> 1000 \<Longrightarrow> length (push_signature r sigs) \<le> 1000"
  by (simp add: push_signature_def Let_def)

lemma slashing_inv_set_profile:
  "slashing_inv m \<Longrightarrow> profile_ok (sm_slash_events m) a p \<Longrightarrow> slashing_inv (set_profile a p m)"
  by (auto simp: slashing_inv_def set_profile_def)

lemma slashing_inv_profile:
  "slashing_inv m \<Longrightarrow> bt_get (sm_validators m) a = Some p \<Longrightarrow> profile_ok (sm_slash_events m) a p"
  by (simp add: slashing_inv_def)

lemma slashing_inv_push_event:
  assumes "slashing_inv m" "profile_ok (sm_slash_events m @ [e]) a p'" "se_validator_address e = a"
  shows "slashing_inv ((set_profile a p' m)\<lparr>sm_slash_events := sm_slash_events m @ [e]\<rparr>)"
  using assms by (auto simp: slashing_inv_def set_profile_def intro: profile_ok_append_other)

lemma slashing_inv_register: "slashing_inv m \<Longrightarrow> slashing_inv (sm_register_validator a m)"
  by (auto simp: sm_register_validator_def slashing_inv_def profile_ok_new split: option.split)

lemma slashing_inv_record_signature:
  "slashing_inv m \<Longrightarrow> record_signature a h s ts m = (r, m') \<Longrightarrow> slashing_inv m'"
  using no_double_sign_push [where r = "\<lparr>sr_block_height = h, sr_signature_hash = s, sr_timestamp = ts\<rparr>"]
  by (auto simp: record_signature_def profile_ok_def length_push_signature
      dest: slashing_inv_profile intro!: slashing_inv_set_profile split: option.splits if_splits)

lemma slashing_inv_double_signing:
  "slashing_inv m \<Longrightarrow> slash_double_signing a h st ts m = (r, m') \<Longrightarrow> slashing_inv m'"
  by (auto simp: slash_double_signing_def Let_def intro!: slashing_inv_push_event profile_ok_push
      dest: slashing_inv_profile split: option.splits if_splits)

lemma slashing_inv_downtime:
  "slashing_inv m \<Longrightarrow> check_and_slash_downtime a h st ts m = (r, m') \<Longrightarrow> slashing_inv m'"
  by (auto simp: check_and_slash_downtime_def Let_def intro!: slashing_inv_push_event profile_ok_push
      dest: slashing_inv_profile split: option.splits if_splits)

lemma slashing_inv_proposals:
  "slashing_inv m \<Longrightarrow> bt_ok ps \<Longrightarrow> (\<And>i q. bt_get ps i = Some q \<Longrightarrow> distinct (pr_confirmations q))
   \<Longrightarrow> slashing_inv (m\<lparr>sm_pending_proposals := ps\<rparr>)"
  by (auto simp: slashing_inv_def)

section \<open>Steps\<close>

lemma slashing_inv_set_proposal:
  "slashing_inv m \<Longrightarrow> distinct (pr_confirmations q) \<Longrightarrow> slashing_inv (set_proposal i q m)"
  by (auto simp: slashing_inv_def set_proposal_def)

lemma slashing_inv_proposal:
  "slashing_inv m \<Longrightarrow> bt_get (sm_pending_proposals m) i = Some q \<Longrightarrow> distinct (pr_confirmations q)"
  by (simp add: slashing_inv_def)

lemma distinct_add_confirmation:
  "distinct (pr_confirmations q) \<Longrightarrow> distinct (pr_confirmations (add_confirmation c q))"
  by (simp add: add_confirmation_def)

lemma execute_offense_cases:
  assumes "execute_offense q ts m = (r, m')"
  obtains (downtime) r' st where "check_and_slash_downtime (pr_offender q) (sm_current_block_height m) st ts m = (r', m')"
    | (double) r' st where "slash_double_signing (pr_offender q) (sm_current_block_height m) st ts m = (r', m')"
  using assms
  by (auto simp: execute_offense_def Let_def split: violation_type.splits prod.splits result.splits)

lemma slashing_inv_execute:
  "slashing_inv m \<Longrightarrow> execute_offense q ts m = (r, m') \<Longrightarrow> slashing_inv m'"
  by (erule execute_offense_cases) (auto intro: slashing_inv_downtime slashing_inv_double_signing)

lemma execute_keeps_proposals:
  "execute_offense q ts m = (r, m') \<Longrightarrow> sm_pending_proposals m' = sm_pending_proposals m"
  by (erule execute_offense_cases)
    (auto simp: check_and_slash_downtime_def slash_double_signing_def set_profile_def Let_def
      split: option.splits if_splits)

text \<open>The outcomes of a confirmation.\<close>

definition with_stake :: "u128 option \<Rightarrow> slash_proposal \<Rightarrow> slash_proposal" where
  "with_stake st q = (case st of Some amount \<Rightarrow> q\<lparr>pr_staked_amount_cil := Some amount\<rparr> | None \<Rightarrow> q)"

lemma with_stake_fields [simp]:
  "pr_confirmations (with_stake st q) = pr_confirmations q"
  "pr_executed (with_stake st q) = pr_executed q"
  "pr_offender (with_stake st q) = pr_offender q"
  "pr_offense_type (with_stake st q) = pr_offense_type q"
  by (simp_all add: with_stake_def split: option.split)

lemma add_confirmation_fields [simp]:
  "pr_executed (add_confirmation c q) = pr_executed q"
  "pr_offender (add_confirmation c q) = pr_offender q"
  "set (pr_confirmations (add_confirmation c q)) = insert c (set (pr_confirmations q))"
  by (auto simp: add_confirmation_def)

lemma confirm_slash_cases:
  assumes "confirm_slash i c n ts st m = (r, m')"
  obtains (missing) "bt_get (sm_pending_proposals m) i = None" "r = Err ProposalNotFound" "m' = m"
    | (repeated) q where "bt_get (sm_pending_proposals m) i = Some q" "pr_executed q"
        "r = Err AlreadyExecuted" "m' = set_proposal i (with_stake st q) m"
    | (below) q where "bt_get (sm_pending_proposals m) i = Some q" "\<not> pr_executed q" "r = Ok False"
        "m' = set_proposal i (add_confirmation c (with_stake st q)) m"
        "of_nat (length (pr_confirmations (add_confirmation c (with_stake st q)))) < slash_threshold n"
    | (executed) q m3 where "bt_get (sm_pending_proposals m) i = Some q" "\<not> pr_executed q" "r = Ok True"
        "slash_threshold n \<le> of_nat (length (pr_confirmations (add_confirmation c (with_stake st q))))"
        "execute_offense (add_confirmation c (with_stake st q)) ts
           (set_proposal i (add_confirmation c (with_stake st q)) m) = (Ok (), m3)"
        "m' = m3\<lparr>sm_pending_proposals :=
           bt_modify i (\<lambda>p. p\<lparr>pr_executed := True\<rparr>) (sm_pending_proposals m3)\<rparr>"
    | (failed) q e where "bt_get (sm_pending_proposals m) i = Some q" "\<not> pr_executed q"
        "execute_offense (add_confirmation c (with_stake st q)) ts
           (set_proposal i (add_confirmation c (with_stake st q)) m) = (e, m')" "\<not> is_ok r"
proof (cases "bt_get (sm_pending_proposals m) i")
  case None
  with assms show thesis by (intro missing) (simp_all add: confirm_slash_def)
next
  case (Some q)
  let ?q2 = "add_confirmation c (with_stake st q)"
  note unf = confirm_slash_def Some with_stake_def [symmetric] Let_def
  show thesis
  proof (cases "pr_executed q"; cases "slash_threshold n \<le> of_nat (length (pr_confirmations ?q2))")
    assume "\<not> pr_executed q" "\<not> slash_threshold n \<le> of_nat (length (pr_confirmations ?q2))"
    with assms Some show thesis
      by (intro below [of q]) (auto simp: unf not_le)
  next
    assume False: "\<not> pr_executed q" "slash_threshold n \<le> of_nat (length (pr_confirmations ?q2))"
    obtain e m3 where ex: "execute_offense ?q2 ts (set_proposal i ?q2 m) = (e, m3)" by fastforce
    with assms Some False show thesis
      by (cases e) (auto simp: unf not_less intro: executed failed)
  qed (use assms Some repeated in \<open>auto simp: unf\<close>)
qed

lemma slashing_inv_confirm:
  assumes inv: "slashing_inv m" and "confirm_slash i c n ts st m = (r, m')"
  shows "slashing_inv m'"
proof -
  have set: "slashing_inv (set_proposal i (add_confirmation c (with_stake st q)) m)"
    if "bt_get (sm_pending_proposals m) i = Some q" for q
    using that inv by (auto intro!: slashing_inv_set_proposal distinct_add_confirmation
        dest: slashing_inv_proposal)
  from assms(2) show ?thesis
  proof (cases rule: confirm_slash_cases)
    case (executed q m3)
    then have "slashing_inv m3" using set slashing_inv_execute by blast
    then show ?thesis unfolding executed(6)
      by (intro slashing_inv_proposals)
        (auto simp: slashing_inv_def split: if_splits)
  next
    case (repeated q)
    then show ?thesis using inv by (auto intro!: slashing_inv_set_proposal dest: slashing_inv_proposal)
  qed (use inv set slashing_inv_execute in \<open>auto\<close>)
qed

text \<open>Every operation but the two that delete profiles, and all operations.\<close>

inductive slashing_step :: "slashing_manager \<Rightarrow> slashing_manager \<Rightarrow> bool" where
  register: "slashing_step m (sm_register_validator a m)"
| signature: "record_signature a h s ts m = (r, m') \<Longrightarrow> slashing_step m m'"
| double: "slash_double_signing a h st ts m = (ra, m') \<Longrightarrow> slashing_step m m'"
| participation: "record_block_participation a h ts m = (r, m') \<Longrightarrow> slashing_step m m'"
| observation: "record_block_observation a m = (r, m') \<Longrightarrow> slashing_step m m'"
| downtime: "check_and_slash_downtime a h st ts m = (ro, m') \<Longrightarrow> slashing_step m m'"
| emergency: "emergency_ban a reason m = (r, m') \<Longrightarrow> slashing_step m m'"
| unstaking: "set_unstaking a m = (r, m') \<Longrightarrow> slashing_step m m'"
| height: "slashing_step m (update_block_height h m)"
| propose: "propose_slash a off ev pr ts m = (rs, m') \<Longrightarrow> slashing_step m m'"
| confirm: "confirm_slash i c n ts sto m = (rb, m') \<Longrightarrow> slashing_step m m'"

inductive slashing_any_step :: "slashing_manager \<Rightarrow> slashing_manager \<Rightarrow> bool" where
  keep: "slashing_step m m' \<Longrightarrow> slashing_any_step m m'"
| remove: "sm_remove_validator a m = (b, m') \<Longrightarrow> slashing_any_step m m'"
| clear: "slashing_any_step m (sm_clear m)"

lemma slashing_step_inv: "slashing_inv m \<Longrightarrow> slashing_step m m' \<Longrightarrow> slashing_inv m'"
proof (erule slashing_step.cases, goal_cases)
  case (4 a h ts m r m')
  then show ?case
    by (auto simp: record_block_participation_def profile_ok_def dest: slashing_inv_profile
        intro!: slashing_inv_set_profile split: option.splits)
next
  case (5 a m r m')
  then show ?case
    by (auto simp: record_block_observation_def profile_ok_def dest: slashing_inv_profile
        intro!: slashing_inv_set_profile split: option.splits)
next
  case (7 a reason m r m')
  then show ?case
    by (auto simp: emergency_ban_def profile_ok_def dest: slashing_inv_profile
        intro!: slashing_inv_set_profile split: option.splits)
next
  case (8 a m r m')
  then show ?case
    by (auto simp: set_unstaking_def profile_ok_def dest: slashing_inv_profile
        intro!: slashing_inv_set_profile split: option.splits validator_status.splits)
next
  case (9 m h)
  then show ?case by (simp add: slashing_inv_def update_block_height_def)
next
  case (10 a off ev pr ts m rs m')
  then show ?case by (auto simp: propose_slash_def slashing_inv_def Let_def split: if_splits)
qed (auto intro: slashing_inv_register slashing_inv_record_signature slashing_inv_double_signing
    slashing_inv_downtime slashing_inv_confirm)

lemma slashing_any_step_inv: "slashing_inv m \<Longrightarrow> slashing_any_step m m' \<Longrightarrow> slashing_inv m'"
proof (erule slashing_any_step.cases, goal_cases)
  case (2 a m b m')
  then show ?case by (auto simp: sm_remove_validator_def slashing_inv_def split: if_splits)
qed (auto simp: sm_clear_def slashing_inv_new intro: slashing_step_inv)

interpretation slashing_sys: invariant_system slashing_any_step slashing_inv
  by unfold_locales (rule slashing_any_step_inv)

section \<open>Quorum of an executed slash\<close>

lemma executed_confirm:
  assumes inv: "slashing_inv m" and "confirm_slash i c n ts st m = (Ok True, m')"
    and "unat n < 2 ^ 63" "bt_get (sm_pending_proposals m') i = Some p"
    and "length (pr_confirmations p) < 2 ^ 64"
  shows "pr_executed p" "distinct (pr_confirmations p)"
    "unat (slash_threshold n) \<le> card (set (pr_confirmations p))"
    "\<exists>q. bt_get (sm_pending_proposals m) i = Some q \<and> \<not> pr_executed q"
proof -
  from assms(2) obtain q m3 where q: "bt_get (sm_pending_proposals m) i = Some q" "\<not> pr_executed q"
    and len: "slash_threshold n \<le> of_nat (length (pr_confirmations (add_confirmation c (with_stake st q))))"
    and ex: "execute_offense (add_confirmation c (with_stake st q)) ts
           (set_proposal i (add_confirmation c (with_stake st q)) m) = (Ok (), m3)"
    and m': "m' = m3\<lparr>sm_pending_proposals :=
           bt_modify i (\<lambda>p. p\<lparr>pr_executed := True\<rparr>) (sm_pending_proposals m3)\<rparr>"
    by (cases rule: confirm_slash_cases) auto
  have p: "p = (add_confirmation c (with_stake st q))\<lparr>pr_executed := True\<rparr>"
    using assms(4) execute_keeps_proposals [OF ex] by (simp add: m' set_proposal_def)
  show "\<exists>q. bt_get (sm_pending_proposals m) i = Some q \<and> \<not> pr_executed q" using q by blast
  show "pr_executed p" by (simp add: p)
  show d: "distinct (pr_confirmations p)"
    using slashing_inv_proposal [OF inv q(1)] by (simp add: p distinct_add_confirmation)
  have "unat (slash_threshold n) \<le> length (pr_confirmations p)"
    using len assms(5) by (simp add: p word_le_nat_alt unat_of_nat_small)
  then show "unat (slash_threshold n) \<le> card (set (pr_confirmations p))"
    using d by (simp add: distinct_card)
qed

text \<open>C7: a slash executes only on a proposal that was not executed before and that then has
  at least two thirds plus one distinct confirmations, and any two executed slashes confirmed by
  members of one validator set share a confirming validator outside any faulty third.\<close>

theorem executed_slashes_share_correct_validator:
  assumes "slashing_any_step\<^sup>*\<^sup>* slashing_new m1" "slashing_any_step\<^sup>*\<^sup>* slashing_new m2"
    and "confirm_slash i1 c1 n t1 st1 m1 = (Ok True, m1')"
    and "confirm_slash i2 c2 n t2 st2 m2 = (Ok True, m2')"
    and "bt_get (sm_pending_proposals m1') i1 = Some p1"
    and "bt_get (sm_pending_proposals m2') i2 = Some p2"
    and "finite V" "card V = unat n" "0 < unat n" "unat n < 2 ^ 63"
    and "set (pr_confirmations p1) \<subseteq> V" "set (pr_confirmations p2) \<subseteq> V"
    and "F \<subseteq> V" "3 * card F \<le> card V"
  shows "pr_executed p1 \<and> pr_executed p2
    \<and> unat n * 2 div 3 + 1 \<le> card (set (pr_confirmations p1))
    \<and> (\<exists>v \<in> set (pr_confirmations p1) \<inter> set (pr_confirmations p2). v \<notin> F)"
proof -
  have inv: "slashing_inv m1" "slashing_inv m2"
    using assms(1,2) slashing_sys.reach_inv slashing_inv_new by blast+
  have len: "length (pr_confirmations p) < 2 ^ 64"
    if "set (pr_confirmations p) \<subseteq> V" "distinct (pr_confirmations p)" for p
  proof -
    have "length (pr_confirmations p) = card (set (pr_confirmations p))"
      using that(2) by (simp add: distinct_card)
    also have "\<dots> \<le> card V" using that(1) assms(7) by (simp add: card_mono)
    finally show ?thesis using assms(8,10) by simp
  qed
  have d: "distinct (pr_confirmations p1)" "distinct (pr_confirmations p2)"
    using slashing_inv_confirm [OF inv(1) assms(3)] slashing_inv_confirm [OF inv(2) assms(4)]
      assms(5,6) slashing_inv_proposal by blast+
  note e1 = executed_confirm [OF inv(1) assms(3,10,5) len [OF assms(11) d(1)]]
  note e2 = executed_confirm [OF inv(2) assms(4,10,6) len [OF assms(12) d(2)]]
  have th: "unat (slash_threshold (of_nat (card V))) = unat (slash_threshold n)"
    using assms(8) by simp
  have "\<exists>v \<in> set (pr_confirmations p1) \<inter> set (pr_confirmations p2). v \<notin> F"
    by (rule slash_quorum.quorums_share_correct [OF assms(7,11,12)])
      (use assms e1(3) e2(3) th in simp_all)
  with e1 e2 unat_slash_threshold [OF assms(10)] show ?thesis by simp
qed

section \<open>Bans\<close>

definition banned_frozen :: "string \<Rightarrow> slashing_manager \<Rightarrow> slashing_manager \<Rightarrow> bool" where
  "banned_frozen a m m' \<longleftrightarrow>
     (\<forall>p. bt_get (sm_validators m) a = Some p \<longrightarrow> sp_status p = Banned \<longrightarrow>
        (\<exists>p'. bt_get (sm_validators m') a = Some p' \<and> sp_status p' = Banned
            \<and> sp_slash_history p' = sp_slash_history p
            \<and> sp_total_slashed_cil p' = sp_total_slashed_cil p))"

lemma banned_frozen_trans:
  "banned_frozen a m m' \<Longrightarrow> banned_frozen a m' m'' \<Longrightarrow> banned_frozen a m m''"
  unfolding banned_frozen_def by fastforce

lemma banned_frozen_same:
  "sm_validators m' = sm_validators m \<Longrightarrow> banned_frozen a m m'"
  by (simp add: banned_frozen_def)

lemma banned_frozen_double:
  "slash_double_signing b h st ts m = (r, m') \<Longrightarrow> banned_frozen a m m'"
  by (auto simp: slash_double_signing_def banned_frozen_def set_profile_def Let_def
      split: option.splits if_splits)

lemma banned_frozen_downtime:
  "check_and_slash_downtime b h st ts m = (r, m') \<Longrightarrow> banned_frozen a m m'"
  by (auto simp: check_and_slash_downtime_def banned_frozen_def set_profile_def Let_def
      split: option.splits if_splits)

lemma banned_frozen_execute: "execute_offense q ts m = (r, m') \<Longrightarrow> banned_frozen a m m'"
  by (erule execute_offense_cases) (auto intro: banned_frozen_double banned_frozen_downtime)

lemma banned_frozen_confirm:
  assumes "confirm_slash i c n ts st m = (r, m')"
  shows "banned_frozen a m m'"
proof -
  have set: "banned_frozen a m (set_proposal i q m)" for q
    by (rule banned_frozen_same) (simp add: set_proposal_def)
  from assms show ?thesis
  proof (cases rule: confirm_slash_cases)
    case (executed q m3)
    then have "banned_frozen a m m3" using set banned_frozen_execute banned_frozen_trans by blast
    moreover have "banned_frozen a m3 m'" by (rule banned_frozen_same) (simp add: executed(6))
    ultimately show ?thesis by (rule banned_frozen_trans)
  next
    case (failed q e)
    then show ?thesis using set banned_frozen_execute banned_frozen_trans by blast
  qed (simp_all add: set banned_frozen_same)
qed

lemma banned_frozen_step: "slashing_step m m' \<Longrightarrow> banned_frozen a m m'"
proof (erule slashing_step.cases, goal_cases)
  case (3 b h st ts m ra m')
  then show ?case using banned_frozen_double by blast
next
  case (6 b h st ts m ro m')
  then show ?case using banned_frozen_downtime by blast
next
  case (11 i c n ts sto m rb m')
  then show ?case using banned_frozen_confirm by blast
qed (auto simp: banned_frozen_def sm_register_validator_def record_signature_def
      record_block_participation_def record_block_observation_def emergency_ban_def
      set_unstaking_def update_block_height_def propose_slash_def set_profile_def Let_def
    split: option.splits if_splits validator_status.splits)

text \<open>C8: a ban is permanent. Whatever sequence of operations follows, as long as the profile is
  not deleted (\<open>remove_validator\<close>, \<open>clear\<close>), a banned validator stays banned, is never slashed
  again and its history no longer changes.\<close>

theorem ban_is_permanent:
  assumes "slashing_step\<^sup>*\<^sup>* m m'" and "bt_get (sm_validators m) a = Some p" "sp_status p = Banned"
  shows "get_status m' a = Some Banned \<and> get_total_slashed m' a = get_total_slashed m a
         \<and> get_slash_history m' a = get_slash_history m a"
proof -
  have "banned_frozen a m m'" using assms(1)
    by (induction rule: rtranclp_induct)
      (auto simp: banned_frozen_same intro: banned_frozen_trans banned_frozen_step)
  then show ?thesis using assms(2,3)
    by (auto simp: banned_frozen_def get_status_def get_total_slashed_def get_slash_history_def)
qed

text \<open>In every reachable slashing manager each profile's total is the sum of the amounts in
  its slash history, its violation count is the length of that history, the history is the most
  recent part of the validator's entries in the global log, and the retained signatures contain no
  two different signatures for one height.\<close>

theorem slash_history_accounts_for_totals:
  assumes "slashing_any_step\<^sup>*\<^sup>* slashing_new m" and "bt_get (sm_validators m) a = Some p"
  shows "sp_total_slashed_cil p = sum_list (map se_slash_amount_cil (sp_slash_history p))
    \<and> sp_violation_count p = of_nat (length (sp_slash_history p))
    \<and> suffix (sp_slash_history p) (filter (\<lambda>e. se_validator_address e = a) (sm_slash_events m))
    \<and> length (sp_recent_signatures p) \<le> 1000 \<and> no_double_sign (sp_recent_signatures p)"
  using slashing_sys.reach_inv [OF assms(1) slashing_inv_new] assms(2)
  by (auto simp: slashing_inv_def profile_ok_def)

section \<open>Downtime\<close>

lemma unat_downtime_slash_amount:
  assumes "unat st < 2 ^ 121"
  shows "unat (downtime_slash_amount st) = (unat st + 99) div 100"
proof -
  have "unat (st * 100) = unat st * 100" using assms by (subst unat_mult_exact) simp_all
  then have "unat (downtime_slash_amount st) = (unat st * 100 + 9999) div 10000"
    by (simp add: downtime_slash_amount_def DOWNTIME_SLASH_BPS_def unat_div_ceil)
  also have "\<dots> = (unat st * 100 + 9999) div 100 div 100" by (simp add: div_mult2_eq [symmetric])
  also have "(unat st * 100 + 9999) div 100 = unat st + 99" by simp
  finally show ?thesis .
qed

lemma unat_uptime_bps:
  assumes "sp_blocks_participated p \<le> sp_total_blocks_observed p" "0 < sp_total_blocks_observed p"
  shows "unat (get_uptime_bps p)
         = unat (sp_blocks_participated p) * 10000 div unat (sp_total_blocks_observed p)"
proof -
  let ?b = "sp_blocks_participated p" and ?t = "sp_total_blocks_observed p"
  have le: "unat ?b \<le> unat ?t" and pos: "0 < unat ?t"
    using assms by (simp_all add: word_le_nat_alt word_less_nat_alt)
  have b: "unat ?b < 2 ^ 64" using unat_less_exp [of ?b] by simp
  have m: "unat ((ucast ?b :: u128) * 10000) = unat ?b * 10000"
    using b by (subst unat_mult_exact) (simp_all add: unat_ucast_widen)
  have "unat ?b * 10000 div unat ?t \<le> unat ?t * 10000 div unat ?t"
    by (rule div_le_mono) (use le in simp)
  also have "\<dots> = 10000" using pos by simp
  finally show ?thesis
    using assms(2) by (auto simp: get_uptime_bps_def unat_ucast_small unat_div m unat_ucast_widen)
qed

text \<open>The downtime check slashes exactly when the validator is not banned, the observation
  window is full and the uptime is below 95 percent; it then takes one percent of the stake rounded
  up, never more than the stake, marks the validator slashed and restarts the window. In every other
  case the manager is unchanged.\<close>

theorem downtime_slash_exact:
  assumes "bt_get (sm_validators m) a = Some p" "sp_status p \<noteq> Banned"
    and "sp_blocks_participated p \<le> sp_total_blocks_observed p" "unat st < 2 ^ 121"
    and "check_and_slash_downtime a h st ts m = (r, m')"
  shows "if 50000 \<le> unat (sp_total_blocks_observed p)
            \<and> unat (sp_blocks_participated p) * 10000 div unat (sp_total_blocks_observed p) < 9500
         then r = Ok (Some (downtime_slash_amount st))
              \<and> unat (downtime_slash_amount st) = (unat st + 99) div 100
              \<and> downtime_slash_amount st \<le> st
              \<and> get_status m' a = Some Slashed
              \<and> get_total_slashed m' a = Some (sp_total_slashed_cil p + downtime_slash_amount st)
              \<and> sp_total_blocks_observed (the (bt_get (sm_validators m') a)) = 0
         else r = Ok None \<and> m' = m"
proof -
  have le: "downtime_slash_amount st \<le> st"
    by (simp add: word_le_nat_alt unat_downtime_slash_amount [OF assms(4)])
  have up: "\<not> meets_uptime_requirement p
      \<longleftrightarrow> unat (sp_blocks_participated p) * 10000 div unat (sp_total_blocks_observed p) < 9500"
    if "50000 \<le> unat (sp_total_blocks_observed p)"
  proof -
    have "0 < sp_total_blocks_observed p" using that by (simp add: word_less_nat_alt)
    then show ?thesis using unat_uptime_bps [OF assms(3)]
      by (simp add: meets_uptime_requirement_def MIN_UPTIME_BPS_def word_le_nat_alt not_le)
  qed
  have w: "DOWNTIME_WINDOW_BLOCKS \<le> sp_total_blocks_observed p
      \<longleftrightarrow> 50000 \<le> unat (sp_total_blocks_observed p)"
    by (simp add: DOWNTIME_WINDOW_BLOCKS_def word_le_nat_alt)
  show ?thesis
    using assms(1,2,5) up le unat_downtime_slash_amount [OF assms(4)]
    by (auto simp: check_and_slash_downtime_def w get_status_def get_total_slashed_def set_profile_def
        Let_def split: if_splits)
qed

section \<open>An example run\<close>

definition run_proposed :: slashing_manager where
  "run_proposed =
     snd (propose_slash ''o'' DoubleSigning ''e'' ''v'' 5 (sm_register_validator ''o'' slashing_new))"

definition run_executed :: slashing_manager where
  "run_executed = snd (confirm_slash (slash_proposal_id ''o'' ''e'' 5) ''w'' 2 6 (Some 7) run_proposed)"

lemmas run_defs = run_proposed_def propose_slash_def sm_register_validator_def slashing_new_def
  safety_profile_new_def bt_contains_def Let_def

lemmas run_confirm_defs = confirm_slash_def add_confirmation_def set_proposal_def slash_threshold_def
  execute_offense_def slash_double_signing_def set_profile_def bt_modify_def

lemma run_proposed_reach: "slashing_any_step\<^sup>*\<^sup>* slashing_new run_proposed"
proof -
  have "slashing_any_step slashing_new (sm_register_validator ''o'' slashing_new)"
    by (intro slashing_any_step.keep slashing_step.register)
  moreover have "slashing_any_step (sm_register_validator ''o'' slashing_new) run_proposed"
    unfolding run_proposed_def
    by (intro slashing_any_step.keep slashing_step.propose) (rule prod.collapse [symmetric])
  ultimately show ?thesis by (meson converse_rtranclp_into_rtranclp rtranclp.rtrancl_refl)
qed

lemma run_confirm:
  "confirm_slash (slash_proposal_id ''o'' ''e'' 5) ''w'' 2 6 (Some 7) run_proposed = (Ok True, run_executed)"
  unfolding run_executed_def by (simp add: run_confirm_defs) (simp add: run_defs run_confirm_defs)

lemma run_executed_reach: "slashing_any_step\<^sup>*\<^sup>* slashing_new run_executed"
  using run_proposed_reach slashing_any_step.keep [OF slashing_step.confirm [OF run_confirm]]
  by (rule rtranclp.rtrancl_into_rtrancl)

lemma run_executed_state:
  "\<exists>p. bt_get (sm_pending_proposals run_executed) (slash_proposal_id ''o'' ''e'' 5) = Some p
       \<and> pr_confirmations p = [''v'', ''w'']"
  "\<exists>p. bt_get (sm_validators run_executed) ''o'' = Some p \<and> sp_status p = Banned
       \<and> sp_total_slashed_cil p = 7"
  unfolding run_executed_def by (simp_all add: run_confirm_defs) (simp_all add: run_defs run_confirm_defs)

theorem executed_slashes_share_correct_validator_witness:
  "\<exists>p. bt_get (sm_pending_proposals run_executed) (slash_proposal_id ''o'' ''e'' 5) = Some p
       \<and> pr_executed p \<and> (\<exists>v \<in> set (pr_confirmations p). v \<notin> {})"
proof -
  obtain p where p: "bt_get (sm_pending_proposals run_executed) (slash_proposal_id ''o'' ''e'' 5) = Some p"
    "pr_confirmations p = [''v'', ''w'']"
    using run_executed_state(1) by blast
  show ?thesis
    using executed_slashes_share_correct_validator
      [OF run_proposed_reach run_proposed_reach run_confirm run_confirm p(1) p(1), of "{''v'', ''w''}" "{}"]
    by (simp add: p)
qed

theorem ban_is_permanent_witness:
  "get_status (snd (set_unstaking ''o'' run_executed)) ''o'' = Some Banned
   \<and> get_total_slashed (snd (set_unstaking ''o'' run_executed)) ''o'' = Some 7"
proof -
  obtain p where p: "bt_get (sm_validators run_executed) ''o'' = Some p" "sp_status p = Banned"
    "sp_total_slashed_cil p = 7"
    using run_executed_state(2) by blast
  have "slashing_step run_executed (snd (set_unstaking ''o'' run_executed))"
    by (rule slashing_step.unstaking) (rule prod.collapse [symmetric])
  then have "slashing_step\<^sup>*\<^sup>* run_executed (snd (set_unstaking ''o'' run_executed))" by blast
  from ban_is_permanent [OF this p(1,2)] p show ?thesis by (simp add: get_total_slashed_def)
qed

theorem slash_history_accounts_for_totals_witness:
  "\<exists>p. bt_get (sm_validators run_executed) ''o'' = Some p
       \<and> sum_list (map se_slash_amount_cil (sp_slash_history p)) = 7"
proof -
  obtain p where "bt_get (sm_validators run_executed) ''o'' = Some p" "sp_total_slashed_cil p = 7"
    using run_executed_state(2) by blast
  with slash_history_accounts_for_totals [OF run_executed_reach, of "''o''" p] show ?thesis by auto
qed

definition idle_profile :: safety_profile where
  "idle_profile = (safety_profile_new ''o'')\<lparr>sp_total_blocks_observed := 60000\<rparr>"

definition idle_manager :: slashing_manager where
  "idle_manager = set_profile ''o'' idle_profile slashing_new"

theorem downtime_slash_exact_witness:
  "unat (downtime_slash_amount 250) = 3
   \<and> get_status (snd (check_and_slash_downtime ''o'' 1 250 2 idle_manager)) ''o'' = Some Slashed"
proof -
  have "bt_get (sm_validators idle_manager) ''o'' = Some idle_profile"
    by (simp add: idle_manager_def set_profile_def slashing_new_def)
  from downtime_slash_exact [OF this _ _ _ prod.collapse [symmetric], of 250 1 2] show ?thesis
    by (simp add: idle_profile_def safety_profile_new_def)
qed

end
