(* ===== verification/Abft.thy ===== *)
theory Abft
  imports BTree_Map Crypto Quorum Step_Systems
begin

text \<open>
  The aBFT engine (\<open>los-consensus/src/abft.rs\<close>): authenticated consensus messages, vote collection
  per sequence number, finalisation of the locked block, view changes and leader rotation. The
  system clock is the argument \<open>now\<close>. Shown here: votes come from distinct senders with valid MACs
  and a block is finalised only with \<open>2f + 1\<close> of them; for \<open>n = 3f + 1\<close> validators two such vote
  sets share a correct validator, while for other sizes they can be disjoint; every validator leads
  once per round.
\<close>

section \<open>Blocks and messages\<close>

record abft_block =
  ab_height :: u64
  ab_timestamp :: u64
  ab_data :: bytes
  ab_proposer :: string
  ab_parent_hash :: string

definition abft_block_hash :: "los_env \<Rightarrow> abft_block \<Rightarrow> string" where
  "abft_block_hash env b =
     hex_encode env (keccak256 env
       (as_bytes (uint_to_string (ab_height b)) @ u64_le_bytes (ab_timestamp b) @ ab_data b
        @ as_bytes (ab_proposer b) @ as_bytes (ab_parent_hash b)))"

datatype consensus_message_type = PrePrepare | Prepare | Commit | ViewChange

record consensus_message =
  cm_msg_type :: consensus_message_type
  cm_view :: u64
  cm_sequence :: u64
  cm_block_hash :: string
  cm_sender :: string
  cm_timestamp :: u64
  cm_mac :: bytes

text \<open>\<open>format!("{:?}", msg_type)\<close>\<close>

fun msg_type_debug :: "consensus_message_type \<Rightarrow> string" where
  "msg_type_debug PrePrepare = ''PrePrepare''"
| "msg_type_debug Prepare = ''Prepare''"
| "msg_type_debug Commit = ''Commit''"
| "msg_type_debug ViewChange = ''ViewChange''"

definition compute_keyed_mac ::
    "los_env \<Rightarrow> bytes \<Rightarrow> consensus_message_type \<Rightarrow> u64 \<Rightarrow> u64 \<Rightarrow> string \<Rightarrow> string \<Rightarrow> u64 \<Rightarrow> bytes" where
  "compute_keyed_mac env secret msg_type view sequence block_hash sender timestamp =
     keccak256 env
       (secret @ as_bytes (msg_type_debug msg_type) @ u64_le_bytes view @ u64_le_bytes sequence
        @ as_bytes block_hash @ as_bytes sender @ u64_le_bytes timestamp)"

definition message_new_with_secret ::
    "los_env \<Rightarrow> u64 \<Rightarrow> consensus_message_type \<Rightarrow> u64 \<Rightarrow> u64 \<Rightarrow> string \<Rightarrow> string \<Rightarrow> bytes
     \<Rightarrow> consensus_message" where
  "message_new_with_secret env now msg_type view sequence block_hash sender shared_secret =
     (let timestamp = now;
          mac = compute_keyed_mac env shared_secret msg_type view sequence block_hash sender timestamp
      in \<lparr>cm_msg_type = msg_type, cm_view = view, cm_sequence = sequence, cm_block_hash = block_hash,
          cm_sender = sender, cm_timestamp = timestamp, cm_mac = mac\<rparr>)"

definition message_new ::
    "los_env \<Rightarrow> u64 \<Rightarrow> consensus_message_type \<Rightarrow> u64 \<Rightarrow> u64 \<Rightarrow> string \<Rightarrow> string \<Rightarrow> consensus_message" where
  "message_new env now msg_type view sequence block_hash sender =
     message_new_with_secret env now msg_type view sequence block_hash sender []"

definition verify_mac_with_secret :: "los_env \<Rightarrow> bytes \<Rightarrow> consensus_message \<Rightarrow> bool" where
  "verify_mac_with_secret env shared_secret m =
     (compute_keyed_mac env shared_secret (cm_msg_type m) (cm_view m) (cm_sequence m)
        (cm_block_hash m) (cm_sender m) (cm_timestamp m) = cm_mac m)"

definition verify_mac :: "los_env \<Rightarrow> consensus_message \<Rightarrow> bool" where
  "verify_mac env m = verify_mac_with_secret env [] m"

section \<open>The engine\<close>

datatype validator_state = Normal | ViewChanging | Locked

record abft =
  ac_validator_id :: string
  ac_total_validators :: usize
  ac_f_max_faulty :: usize
  ac_view :: u64
  ac_sequence :: u64
  ac_state :: validator_state
  ac_locked_block :: "abft_block option"
  ac_locked_view :: u64
  ac_pre_prepare_messages :: "(u64, consensus_message) btree_map"
  ac_prepare_votes :: "(u64, consensus_message list) btree_map"
  ac_commit_votes :: "(u64, consensus_message list) btree_map"
  ac_finalized_blocks :: "abft_block list"
  ac_finality_timestamp :: u64
  ac_block_timeout_ms :: u64
  ac_view_change_timeout_ms :: u64
  ac_blocks_finalized :: u64
  ac_view_changes :: u64
  ac_shared_secret :: bytes
  ac_validator_set :: "string list"

definition abft_new :: "string \<Rightarrow> usize \<Rightarrow> abft" where
  "abft_new validator_id total_validators =
     \<lparr>ac_validator_id = validator_id, ac_total_validators = total_validators,
      ac_f_max_faulty = (total_validators - 1) div 3, ac_view = 0, ac_sequence = 0,
      ac_state = Normal, ac_locked_block = None, ac_locked_view = 0, ac_pre_prepare_messages = [],
      ac_prepare_votes = [], ac_commit_votes = [], ac_finalized_blocks = [],
      ac_finality_timestamp = 0, ac_block_timeout_ms = 3000, ac_view_change_timeout_ms = 5000,
      ac_blocks_finalized = 0, ac_view_changes = 0, ac_shared_secret = [], ac_validator_set = []\<rparr>"

definition set_shared_secret :: "bytes \<Rightarrow> abft \<Rightarrow> abft" where
  "set_shared_secret secret c = c\<lparr>ac_shared_secret := secret\<rparr>"

definition update_validator_set :: "string list \<Rightarrow> abft \<Rightarrow> abft" where
  "update_validator_set validators c =
     (let total_validators = max (of_nat (length validators)) 1
      in c\<lparr>ac_total_validators := total_validators, ac_f_max_faulty := (total_validators - 1) div 3,
           ac_validator_set := validators\<rparr>)"

definition create_message ::
    "los_env \<Rightarrow> u64 \<Rightarrow> abft \<Rightarrow> consensus_message_type \<Rightarrow> string \<Rightarrow> consensus_message" where
  "create_message env now c msg_type block_hash =
     message_new_with_secret env now msg_type (ac_view c) (ac_sequence c) block_hash
       (ac_validator_id c) (ac_shared_secret c)"

definition verify_message :: "los_env \<Rightarrow> abft \<Rightarrow> consensus_message \<Rightarrow> bool" where
  "verify_message env c msg = verify_mac_with_secret env (ac_shared_secret c) msg"

definition get_quorum_threshold :: "abft \<Rightarrow> usize" where
  "get_quorum_threshold c = 2 * ac_f_max_faulty c + 1"

datatype abft_error =
    InViewChange | InvalidAuthentication | WrongView u64 u64 | NoLockedBlock | InvalidNewView u64 u64

definition abft_pre_prepare ::
    "los_env \<Rightarrow> u64 \<Rightarrow> abft_block \<Rightarrow> abft \<Rightarrow> (consensus_message, abft_error) result \<times> abft" where
  "abft_pre_prepare env now block c =
     (if ac_state c = ViewChanging then (Err InViewChange, c)
      else
        let c1 = c\<lparr>ac_sequence := ac_sequence c + 1\<rparr>;
            block_hash = abft_block_hash env block;
            message = create_message env now c1 PrePrepare block_hash;
            c2 = c1\<lparr>ac_pre_prepare_messages :=
                      bt_insert (ac_sequence c1) message (ac_pre_prepare_messages c1),
                    ac_locked_block := Some block, ac_locked_view := ac_view c1, ac_state := Locked\<rparr>
        in (Ok message, c2))"

text \<open>\<open>votes.entry(seq).or_default()\<close> with one vote per sender.\<close>

definition add_vote ::
    "consensus_message \<Rightarrow> (u64, consensus_message list) btree_map
     \<Rightarrow> (u64, consensus_message list) btree_map" where
  "add_vote msg m =
     (let votes = (case bt_get m (cm_sequence msg) of Some vs \<Rightarrow> vs | None \<Rightarrow> []);
          votes' = (if list_ex (\<lambda>v. cm_sender v = cm_sender msg) votes then votes else votes @ [msg])
      in bt_insert (cm_sequence msg) votes' m)"

definition abft_prepare ::
    "los_env \<Rightarrow> consensus_message \<Rightarrow> abft \<Rightarrow> (unit, abft_error) result \<times> abft" where
  "abft_prepare env msg c =
     (if \<not> verify_message env c msg then (Err InvalidAuthentication, c)
      else if cm_view msg \<noteq> ac_view c then (Err (WrongView (cm_view msg) (ac_view c)), c)
      else (Ok (), c\<lparr>ac_prepare_votes := add_vote msg (ac_prepare_votes c)\<rparr>))"

definition can_commit :: "abft \<Rightarrow> u64 \<Rightarrow> bool" where
  "can_commit c sequence =
     (case bt_get (ac_prepare_votes c) sequence of
        Some votes \<Rightarrow> of_nat (length votes) \<ge> get_quorum_threshold c
      | None \<Rightarrow> False)"

definition trim_finalized :: "abft_block list \<Rightarrow> abft_block list" where
  "trim_finalized bs = drop (length bs - 10000) bs"

definition finalize_block :: "u64 \<Rightarrow> u64 \<Rightarrow> abft \<Rightarrow> (bool, abft_error) result \<times> abft" where
  "finalize_block now sequence c =
     (case ac_locked_block c of
        None \<Rightarrow> (Err NoLockedBlock, c)
      | Some block \<Rightarrow>
          (Ok True,
           c\<lparr>ac_finalized_blocks := trim_finalized (ac_finalized_blocks c @ [block]),
             ac_blocks_finalized := ac_blocks_finalized c + 1,
             ac_finality_timestamp := now,
             ac_prepare_votes := bt_remove sequence (ac_prepare_votes c),
             ac_commit_votes := bt_remove sequence (ac_commit_votes c),
             ac_state := Normal,
             ac_locked_block := None\<rparr>))"

definition abft_commit ::
    "los_env \<Rightarrow> u64 \<Rightarrow> consensus_message \<Rightarrow> abft \<Rightarrow> (bool, abft_error) result \<times> abft" where
  "abft_commit env now msg c =
     (if \<not> verify_message env c msg then (Err InvalidAuthentication, c)
      else
        let sequence = cm_sequence msg;
            c1 = c\<lparr>ac_commit_votes := add_vote msg (ac_commit_votes c)\<rparr>
        in case bt_get (ac_commit_votes c1) sequence of
             Some votes \<Rightarrow>
               if of_nat (length votes) \<ge> get_quorum_threshold c1 then finalize_block now sequence c1
               else (Ok False, c1)
           | None \<Rightarrow> (Ok False, c1))"

definition initiate_view_change ::
    "los_env \<Rightarrow> u64 \<Rightarrow> abft \<Rightarrow> (consensus_message, abft_error) result \<times> abft" where
  "initiate_view_change env now c =
     (let c1 = c\<lparr>ac_state := ViewChanging, ac_view := ac_view c + 1,
                 ac_view_changes := ac_view_changes c + 1\<rparr>
      in (Ok (message_new_with_secret env now ViewChange (ac_view c1) (ac_sequence c1) ''''
                (ac_validator_id c1) (ac_shared_secret c1)), c1))"

definition complete_view_change :: "u64 \<Rightarrow> abft \<Rightarrow> (unit, abft_error) result \<times> abft" where
  "complete_view_change new_view c =
     (if new_view < ac_view c then (Err (InvalidNewView new_view (ac_view c)), c)
      else (Ok (), c\<lparr>ac_view := new_view, ac_state := Normal, ac_prepare_votes := [],
                     ac_commit_votes := []\<rparr>))"

text \<open>\<open>%\<close> by zero panics; indexing with the remainder is always in range.\<close>

definition get_leader :: "abft \<Rightarrow> u64 \<Rightarrow> (string, abft_error) result" where
  "get_leader c view =
     (if ac_validator_set c = [] then
        (if ac_total_validators c = 0 then Panic
         else Ok (''validator-'' @ uint_to_string (view mod ac_total_validators c)))
      else Ok (ac_validator_set c ! unat (view mod of_nat (length (ac_validator_set c)))))"

definition is_leader :: "abft \<Rightarrow> (bool, abft_error) result" where
  "is_leader c =
     (case get_leader c (ac_view c) of
        Ok l \<Rightarrow> Ok (l = ac_validator_id c) | Err e \<Rightarrow> Err e | Panic \<Rightarrow> Panic)"

definition get_last_finalized_block :: "abft \<Rightarrow> abft_block option" where
  "get_last_finalized_block c =
     (if ac_finalized_blocks c = [] then None else Some (last (ac_finalized_blocks c)))"

fun validator_state_debug :: "validator_state \<Rightarrow> string" where
  "validator_state_debug Normal = ''Normal''"
| "validator_state_debug ViewChanging = ''ViewChanging''"
| "validator_state_debug Locked = ''Locked''"

record consensus_stats =
  cs_current_view :: u64
  cs_current_sequence :: u64
  cs_blocks_finalized :: u64
  cs_view_changes :: u64
  cs_consensus_state :: string
  cs_total_validators :: u32
  cs_max_faulty_validators :: u32
  cs_quorum_threshold :: u32

definition abft_get_statistics :: "abft \<Rightarrow> consensus_stats" where
  "abft_get_statistics c =
     \<lparr>cs_current_view = ac_view c, cs_current_sequence = ac_sequence c,
      cs_blocks_finalized = ac_blocks_finalized c, cs_view_changes = ac_view_changes c,
      cs_consensus_state = validator_state_debug (ac_state c),
      cs_total_validators = ucast (ac_total_validators c),
      cs_max_faulty_validators = ucast (ac_f_max_faulty c),
      cs_quorum_threshold = ucast (get_quorum_threshold c)\<rparr>"

definition is_byzantine_safe :: "abft \<Rightarrow> u64 \<Rightarrow> bool" where
  "is_byzantine_safe c view = (3 * ac_f_max_faulty c < ac_total_validators c)"

definition calculate_finality_time :: "abft \<Rightarrow> u64" where
  "calculate_finality_time c = ac_block_timeout_ms c div 3"

section \<open>Invariant\<close>

definition votes_ok :: "los_env \<Rightarrow> bytes \<Rightarrow> (u64, consensus_message list) btree_map \<Rightarrow> bool" where
  "votes_ok env secret m \<longleftrightarrow>
     bt_ok m
     \<and> (\<forall>s vs. bt_get m s = Some vs \<longrightarrow>
          distinct (map cm_sender vs)
          \<and> (\<forall>v \<in> set vs. cm_sequence v = s \<and> verify_mac_with_secret env secret v))"

definition abft_inv :: "los_env \<Rightarrow> bytes \<Rightarrow> abft \<Rightarrow> bool" where
  "abft_inv env secret c \<longleftrightarrow>
     ac_shared_secret c = secret
     \<and> 0 < ac_total_validators c \<and> ac_f_max_faulty c = (ac_total_validators c - 1) div 3
     \<and> votes_ok env secret (ac_prepare_votes c) \<and> votes_ok env secret (ac_commit_votes c)
     \<and> length (ac_finalized_blocks c) \<le> 10000"

inductive abft_step :: "los_env \<Rightarrow> abft \<Rightarrow> abft \<Rightarrow> bool" for env where
  pre_prepare: "abft_pre_prepare env now b c = (r, c') \<Longrightarrow> abft_step env c c'"
| prepare: "abft_prepare env msg c = (ru, c') \<Longrightarrow> abft_step env c c'"
| commit: "abft_commit env now msg c = (rb, c') \<Longrightarrow> abft_step env c c'"
| initiate: "initiate_view_change env now c = (r, c') \<Longrightarrow> abft_step env c c'"
| complete: "complete_view_change v c = (ru, c') \<Longrightarrow> abft_step env c c'"
| validators: "abft_step env c (update_validator_set vs c)"

lemma votes_ok_Nil [simp]: "votes_ok env secret []"
  by (simp add: votes_ok_def)

lemma votes_ok_add:
  assumes "votes_ok env secret m" "verify_mac_with_secret env secret msg"
  shows "votes_ok env secret (add_vote msg m)"
  using assms
  by (auto simp: votes_ok_def add_vote_def Let_def list_ex_iff split: option.splits if_splits)

lemma votes_ok_remove: "votes_ok env secret m \<Longrightarrow> votes_ok env secret (bt_remove s m)"
  by (auto simp: votes_ok_def split: if_splits)

lemma length_trim_finalized: "length (trim_finalized bs) \<le> 10000"
  by (simp add: trim_finalized_def)

lemma finalize_block_inv:
  "abft_inv env secret c \<Longrightarrow> finalize_block now s c = (r, c') \<Longrightarrow> abft_inv env secret c'"
  by (auto simp: finalize_block_def abft_inv_def votes_ok_remove length_trim_finalized
      split: option.splits)

lemma abft_commit_inv:
  assumes "abft_inv env secret c" "abft_commit env now msg c = (r, c')"
  shows "abft_inv env secret c'"
proof -
  have "abft_inv env secret (c\<lparr>ac_commit_votes := add_vote msg (ac_commit_votes c)\<rparr>)"
    if "verify_message env c msg"
    using that assms(1) by (auto simp: abft_inv_def verify_message_def votes_ok_add)
  with assms show ?thesis
    by (auto simp: abft_commit_def Let_def intro: finalize_block_inv split: if_splits option.splits)
qed

lemma abft_step_inv: "abft_inv env secret c \<Longrightarrow> abft_step env c c' \<Longrightarrow> abft_inv env secret c'"
proof (erule abft_step.cases, goal_cases)
  case (2 msg c ru c')
  then show ?case
    by (auto simp: abft_prepare_def abft_inv_def verify_message_def votes_ok_add split: if_splits)
next
  case (3 now msg c rb c')
  then show ?case using abft_commit_inv by blast
next
  case (6 c vs)
  have "(0 :: usize) < max n 1" for n by (auto simp: max_def word_gt_0 not_le)
  with 6 show ?case by (simp add: update_validator_set_def abft_inv_def Let_def)
qed (auto simp: abft_pre_prepare_def initiate_view_change_def complete_view_change_def abft_inv_def
    Let_def split: if_splits)

interpretation abft_sys: invariant_system "abft_step env" "abft_inv env secret" for env secret
  by unfold_locales (rule abft_step_inv)

lemma abft_inv_new: "0 < n \<Longrightarrow> abft_inv env secret (set_shared_secret secret (abft_new i n))"
  by (simp add: abft_inv_def set_shared_secret_def abft_new_def)

lemma created_message_verifies:
  "ac_shared_secret c = ac_shared_secret c' \<Longrightarrow> verify_message env c (create_message env now c' t h)"
  by (simp add: verify_message_def verify_mac_with_secret_def create_message_def
      message_new_with_secret_def Let_def)

section \<open>Quorums\<close>

lemma unat_f_max_faulty: "0 < n \<Longrightarrow> unat ((n - 1) div 3 :: usize) = (unat n - 1) div 3"
  by (simp add: unat_div unat_sub word_le_nat_alt word_less_nat_alt Suc_leI)

lemma abft_inv_threshold:
  assumes "abft_inv env secret c"
  shows "unat (get_quorum_threshold c) = 2 * ((unat (ac_total_validators c) - 1) div 3) + 1"
proof -
  let ?n = "unat (ac_total_validators c)"
  have f: "unat (ac_f_max_faulty c) = (?n - 1) div 3"
    using assms by (auto simp: abft_inv_def unat_f_max_faulty)
  have "?n < 2 ^ 64" using unat_less_exp [of "ac_total_validators c"] by simp
  moreover have "3 * ((?n - 1) div 3) \<le> ?n - 1" by simp
  moreover have "0 < ?n" using assms by (simp add: abft_inv_def word_less_nat_alt)
  ultimately have b: "2 * ((?n - 1) div 3) + 1 < 2 ^ 64" by linarith
  have "unat (2 * ac_f_max_faulty c) = 2 * ((?n - 1) div 3)"
    by (subst unat_mult_exact) (use f b in simp_all)
  then show ?thesis unfolding get_quorum_threshold_def
    by (subst unat_add_exact) (use b in simp_all)
qed

interpretation abft_quorum: live_quorum "\<lambda>n. 2 * ((n - 1) div 3) + 1" "\<lambda>n. n mod 3 = 1"
proof unfold_locales
  fix n :: nat assume "n mod 3 = 1"
  then obtain f where n: "n = 3 * f + 1" by (metis div_mult_mod_eq mult.commute)
  show "2 * n < 3 * (2 * ((n - 1) div 3) + 1)" by (simp add: n)
  show "2 * ((n - 1) div 3) + 1 + g \<le> n" if "3 * g < n" for g using that by (simp add: n)
qed

text \<open>The commit votes that a commit message completes.\<close>

definition commit_quorum :: "abft \<Rightarrow> consensus_message \<Rightarrow> consensus_message list" where
  "commit_quorum c msg =
     (case bt_get (add_vote msg (ac_commit_votes c)) (cm_sequence msg) of Some vs \<Rightarrow> vs | None \<Rightarrow> [])"

lemma commit_finalizes:
  assumes inv: "abft_inv env secret c" and "abft_commit env now msg c = (Ok True, c')"
  obtains b where "ac_locked_block c = Some b"
    "ac_finalized_blocks c' = trim_finalized (ac_finalized_blocks c @ [b])"
    "ac_locked_block c' = None" "ac_state c' = Normal"
    "2 * ((unat (ac_total_validators c) - 1) div 3) + 1 \<le> length (commit_quorum c msg)"
    "distinct (map cm_sender (commit_quorum c msg))"
    "\<forall>v \<in> set (commit_quorum c msg). cm_sequence v = cm_sequence msg \<and> verify_mac_with_secret env secret v"
proof -
  let ?c1 = "c\<lparr>ac_commit_votes := add_vote msg (ac_commit_votes c)\<rparr>"
  have ver: "verify_message env c msg" using assms(2) by (auto simp: abft_commit_def split: if_splits)
  then have ok: "votes_ok env secret (add_vote msg (ac_commit_votes c))"
    using inv by (auto simp: abft_inv_def verify_message_def votes_ok_add)
  obtain votes where v: "bt_get (add_vote msg (ac_commit_votes c)) (cm_sequence msg) = Some votes"
    by (simp add: add_vote_def Let_def)
  have q: "commit_quorum c msg = votes" by (simp add: commit_quorum_def v)
  have fin: "finalize_block now (cm_sequence msg) ?c1 = (Ok True, c')"
    and len: "get_quorum_threshold c \<le> of_nat (length votes)"
    using assms(2) ver by (auto simp: abft_commit_def v get_quorum_threshold_def Let_def split: if_splits)
  have "unat (get_quorum_threshold c) \<le> unat (of_nat (length votes) :: usize)"
    using len by (simp add: word_le_nat_alt)
  also have "\<dots> \<le> length votes" by (simp add: unat_of_nat)
  finally have thr: "2 * ((unat (ac_total_validators c) - 1) div 3) + 1 \<le> length votes"
    by (simp add: abft_inv_threshold [OF inv])
  show thesis
    using that fin thr ok v unfolding q
    by (auto simp: finalize_block_def votes_ok_def split: option.splits)
qed


text \<open>For every number of validators not of the form \<open>3f + 1\<close> the threshold \<open>2f + 1\<close> of
  a new engine is too small: there are two vote sets that both reach it and overlap in at most
  \<open>f\<close> validators, all of which may be faulty.\<close>

theorem abft_threshold_unsafe_sizes:
  assumes "0 < n" "unat n mod 3 \<noteq> 1"
  shows "\<exists>A B :: nat set. A \<subseteq> {..<unat n} \<and> B \<subseteq> {..<unat n}
           \<and> card A = unat (get_quorum_threshold (abft_new i n))
           \<and> card B = unat (get_quorum_threshold (abft_new i n))
           \<and> card (A \<inter> B) \<le> unat (ac_f_max_faulty (abft_new i n))"
proof -
  define f where "f = (unat n - 1) div 3"
  have n: "0 < unat n" using assms(1) by (simp add: word_less_nat_alt)
  have "3 * f + (unat n - 1) mod 3 = unat n - 1" by (simp add: f_def)
  moreover have "(unat n - 1) mod 3 \<noteq> 0"
  proof
    assume "(unat n - 1) mod 3 = 0"
    then have "Suc (unat n - 1) mod 3 = 1" by (simp add: mod_Suc)
    with n assms(2) show False by simp
  qed
  ultimately have size: "3 * f + 2 \<le> unat n" by linarith
  have q: "unat (get_quorum_threshold (abft_new i n)) = 2 * f + 1"
    using abft_inv_threshold [of undefined "[]" "abft_new i n"] assms(1)
    by (simp add: abft_inv_def abft_new_def f_def)
  have fm: "unat (ac_f_max_faulty (abft_new i n)) = f"
    using assms(1) by (simp add: abft_new_def f_def unat_f_max_faulty)
  let ?A = "{..<2 * f + 1}" and ?B = "{unat n - (2 * f + 1)..<unat n}"
  have "?A \<inter> ?B = {unat n - (2 * f + 1)..<2 * f + 1}" using size by auto
  then have "card (?A \<inter> ?B) \<le> f" using size by simp
  moreover have "card ?A = 2 * f + 1" "card ?B = 2 * f + 1" "?A \<subseteq> {..<unat n}" "?B \<subseteq> {..<unat n}"
    using size by auto
  ultimately show ?thesis unfolding q fm by blast
qed

theorem abft_threshold_unsafe_sizes_witness:
  "\<exists>A B :: nat set. A \<subseteq> {..<6} \<and> B \<subseteq> {..<6} \<and> card A = 3 \<and> card B = 3 \<and> card (A \<inter> B) \<le> 1"
  using abft_threshold_unsafe_sizes [of 6 "''v''"]
  by (simp add: abft_new_def get_quorum_threshold_def)

section \<open>Finalisation does not look at the block hash\<close>

definition lone_block :: abft_block where
  "lone_block = \<lparr>ab_height = 1, ab_timestamp = 2, ab_data = [7], ab_proposer = ''v'', ab_parent_hash = ''p''\<rparr>"

definition lone_engine :: abft where
  "lone_engine = snd (abft_pre_prepare (plain_env True) 9 lone_block (set_shared_secret [5] (abft_new ''v'' 1)))"

definition foreign_commit :: consensus_message where
  "foreign_commit = message_new_with_secret (plain_env True) 10 Commit 77 1 ''other'' ''w'' [5]"

text \<open>Commit votes are counted whatever block hash and view they carry. An engine that has
  locked a block finalises it on a commit message for a different block hash and a different view.\<close>

theorem commit_ignores_block_hash_and_view:
  "\<exists>env secret c msg b c'. (abft_step env)\<^sup>*\<^sup>* (set_shared_secret secret (abft_new ''v'' 1)) c
     \<and> ac_locked_block c = Some b \<and> cm_block_hash msg \<noteq> abft_block_hash env b
     \<and> cm_view msg \<noteq> ac_view c
     \<and> abft_commit env 10 msg c = (Ok True, c') \<and> get_last_finalized_block c' = Some b"
proof -
  have step: "abft_step (plain_env True) (set_shared_secret [5] (abft_new ''v'' 1)) lone_engine"
    unfolding lone_engine_def by (rule abft_step.pre_prepare) (rule prod.collapse [symmetric])
  have eng: "ac_locked_block lone_engine = Some lone_block" "ac_view lone_engine = 0"
    "ac_commit_votes lone_engine = []" "ac_finalized_blocks lone_engine = []"
    "ac_shared_secret lone_engine = [5]" "ac_f_max_faulty lone_engine = 0"
    by (simp_all add: lone_engine_def abft_pre_prepare_def set_shared_secret_def abft_new_def Let_def)
  have msg: "cm_block_hash foreign_commit = ''other''" "cm_view foreign_commit = 77"
    by (simp_all add: foreign_commit_def message_new_with_secret_def Let_def)
  have ver: "verify_message (plain_env True) lone_engine foreign_commit"
    by (simp add: verify_message_def verify_mac_with_secret_def foreign_commit_def eng
        message_new_with_secret_def Let_def)
  have "length (hex_encode (plain_env True) (keccak256 (plain_env True) x)) = 32" for x
    by (simp add: plain_env_def min_def)
  then have hash: "length (abft_block_hash (plain_env True) lone_block) = 32"
    by (simp add: abft_block_hash_def)
  obtain r c' where run: "abft_commit (plain_env True) 10 foreign_commit lone_engine = (r, c')"
    by fastforce
  then have "r = Ok True" "get_last_finalized_block c' = Some lone_block"
    using ver eng by (auto simp: abft_commit_def add_vote_def get_quorum_threshold_def Let_def
        finalize_block_def trim_finalized_def get_last_finalized_block_def)
  moreover have "''other'' \<noteq> abft_block_hash (plain_env True) lone_block"
    using hash by (auto dest: arg_cong [where f = length])
  moreover have "(77 :: u64) \<noteq> 0" by simp
  ultimately show ?thesis
    using r_into_rtranclp [of "abft_step (plain_env True)", OF step] run eng msg by metis
qed

section \<open>Leader rotation\<close>

text \<open>In every window of as many consecutive views as there are validators (without
  wrap-around of the view counter) every validator is the leader of some view, and only validators
  are leaders.\<close>

theorem leader_rotation_covers_validators:
  assumes "ac_validator_set c \<noteq> []"
    and "unat v + length (ac_validator_set c) < 2 ^ 64"
  shows "{get_leader c (v + of_nat k) | k. k < length (ac_validator_set c)} = Ok ` set (ac_validator_set c)"
proof -
  let ?vs = "ac_validator_set c" and ?n = "length (ac_validator_set c)"
  have n: "0 < ?n" using assms(1) by simp
  have lead: "get_leader c (v + of_nat k) = Ok (?vs ! ((unat v + k) mod ?n))" if "k < ?n" for k
  proof -
    have "unat (v + of_nat k) = unat v + k"
      using that assms(2) by (subst unat_add_exact) (simp_all add: unat_of_nat_small)
    then show ?thesis using assms by (simp add: get_leader_def unat_mod unat_of_nat_small)
  qed
  have "(\<lambda>k. ?vs ! ((unat v + k) mod ?n)) ` {..<?n} = set ?vs" by (rule round_robin_covers [OF assms(1)])
  then show ?thesis using lead by (auto simp: setcompr_eq_image image_image simp flip: \<open>_ = set ?vs\<close> intro!: image_cong)
qed

definition three_engine :: abft where
  "three_engine = update_validator_set [''a'', ''b'', ''c''] (abft_new ''a'' 3)"

theorem leader_rotation_covers_validators_witness:
  "{get_leader three_engine (5 + of_nat k) | k. k < 3} = {Ok ''a'', Ok ''b'', Ok ''c''}"
  using leader_rotation_covers_validators [of three_engine 5]
  by (simp add: three_engine_def update_validator_set_def Let_def numeral_3_eq_3)

section \<open>Example engines\<close>

definition lone_commit :: consensus_message where
  "lone_commit = create_message (plain_env True) 10 lone_engine Commit (abft_block_hash (plain_env True) lone_block)"


end
