(* ===== verification/Checkpoint.thy ===== *)
theory Checkpoint
  imports Crypto BTree_Map Quorum Step_Systems "HOL-Library.Multiset"
begin

text \<open>
  Finality checkpoints (\<open>los-consensus/src/checkpoint.rs\<close>). The persistent store is the crate
  \<open>sled\<close> and the encoding of checkpoints is \<open>bincode\<close>: both are the parameter \<open>sled_ops\<close> of the
  definitions, with what the code relies on stated as \<open>sled_laws\<close> (what a lookup returns after an
  insert or a remove, that a prefix scan lists the matching entries, that decoding inverts
  encoding). An operation of the store returns the store it leaves behind and whether it succeeded.
\<close>

section \<open>Checkpoints\<close>

definition CHECKPOINT_INTERVAL :: u64 where "CHECKPOINT_INTERVAL = 1000"

record finality_checkpoint =
  fc_height :: u64
  fc_block_hash :: string
  fc_timestamp :: u64
  fc_validator_count :: u32
  fc_state_root :: string
  fc_signature_count :: u32

definition checkpoint_new :: "u64 \<Rightarrow> u64 \<Rightarrow> string \<Rightarrow> u32 \<Rightarrow> string \<Rightarrow> u32 \<Rightarrow> finality_checkpoint" where
  "checkpoint_new now height block_hash validator_count state_root signature_count =
     \<lparr>fc_height = height, fc_block_hash = block_hash, fc_timestamp = now,
      fc_validator_count = validator_count, fc_state_root = state_root,
      fc_signature_count = signature_count\<rparr>"

definition checkpoint_calculate_id :: "los_env \<Rightarrow> finality_checkpoint \<Rightarrow> string" where
  "checkpoint_calculate_id env cp =
     hex_encode env (keccak256 env
       (u64_le_bytes (fc_height cp) @ as_bytes (fc_block_hash cp) @ as_bytes (fc_state_root cp)))"

definition required_signatures :: "u32 \<Rightarrow> u32" where
  "required_signatures validator_count =
     (let n = ucast validator_count :: u64 in ucast (div_ceil (n * 67) 100))"

definition verify_quorum :: "finality_checkpoint \<Rightarrow> bool" where
  "verify_quorum cp = (fc_signature_count cp \<ge> required_signatures (fc_validator_count cp))"

definition is_valid_interval :: "finality_checkpoint \<Rightarrow> bool" where
  "is_valid_interval cp = (fc_height cp mod CHECKPOINT_INTERVAL = 0)"

section \<open>The store\<close>

record 'd sled_ops =
  sl_get :: "'d \<Rightarrow> string \<Rightarrow> bytes option option"
  sl_insert :: "string \<Rightarrow> bytes \<Rightarrow> 'd \<Rightarrow> bool \<times> 'd"
  sl_remove :: "string \<Rightarrow> 'd \<Rightarrow> bool \<times> 'd"
  sl_flush :: "'d \<Rightarrow> bool \<times> 'd"
  sl_scan_prefix :: "'d \<Rightarrow> string \<Rightarrow> (string \<times> bytes) list option"
  sl_serialize :: "finality_checkpoint \<Rightarrow> bytes option"
  sl_deserialize :: "bytes \<Rightarrow> finality_checkpoint option"

record 'd checkpoint_manager =
  ck_db :: 'd
  ck_latest_height :: u64

datatype checkpoint_error =
    DbError | CodecError | InvalidHeight u64 | InsufficientSignatures u32 u32
  | BeforeCheckpoint u64 u64 | HashMismatch u64 string string | ParentBeforeCheckpoint u64 u64

definition latest_key :: string where "latest_key = ''latest_checkpoint_height''"
definition checkpoint_key :: "u64 \<Rightarrow> string" where
  "checkpoint_key height = ''checkpoint_'' @ uint_to_string height"

definition checkpoint_try_open :: "'d sled_ops \<Rightarrow> 'd \<Rightarrow> ('d checkpoint_manager, checkpoint_error) result" where
  "checkpoint_try_open ops db =
     (case sl_get ops db latest_key of
        None \<Rightarrow> Err DbError
      | Some v \<Rightarrow>
          let latest = (case v of
                          Some b \<Rightarrow> if length b = 8 then from_le_bytes b else from_le_bytes (replicate 8 0)
                        | None \<Rightarrow> 0)
          in Ok \<lparr>ck_db = db, ck_latest_height = latest\<rparr>)"

definition store_latest ::
    "'d sled_ops \<Rightarrow> u64 \<Rightarrow> 'd checkpoint_manager \<Rightarrow> bool \<times> 'd checkpoint_manager" where
  "store_latest ops height m =
     (if height > ck_latest_height m then
        case sl_insert ops latest_key (u64_le_bytes height) (ck_db m) of
          (ok, db) \<Rightarrow> (ok, m\<lparr>ck_latest_height := height, ck_db := db\<rparr>)
      else (True, m))"

definition store_checkpoint ::
    "'d sled_ops \<Rightarrow> finality_checkpoint \<Rightarrow> 'd checkpoint_manager
     \<Rightarrow> (unit, checkpoint_error) result \<times> 'd checkpoint_manager" where
  "store_checkpoint ops cp m =
     (if \<not> is_valid_interval cp then (Err (InvalidHeight (fc_height cp)), m)
      else if \<not> verify_quorum cp
      then (Err (InsufficientSignatures (fc_signature_count cp) (fc_validator_count cp)), m)
      else
        case sl_serialize ops cp of
          None \<Rightarrow> (Err CodecError, m)
        | Some checkpoint_bytes \<Rightarrow>
            (case sl_insert ops (checkpoint_key (fc_height cp)) checkpoint_bytes (ck_db m) of
               (False, db1) \<Rightarrow> (Err DbError, m\<lparr>ck_db := db1\<rparr>)
             | (True, db1) \<Rightarrow>
                 (case store_latest ops (fc_height cp) (m\<lparr>ck_db := db1\<rparr>) of
                    (False, m2) \<Rightarrow> (Err DbError, m2)
                  | (True, m2) \<Rightarrow>
                      (case sl_flush ops (ck_db m2) of
                         (False, db3) \<Rightarrow> (Err DbError, m2\<lparr>ck_db := db3\<rparr>)
                       | (True, db3) \<Rightarrow> (Ok (), m2\<lparr>ck_db := db3\<rparr>)))))"

definition get_checkpoint ::
    "'d sled_ops \<Rightarrow> 'd checkpoint_manager \<Rightarrow> u64 \<Rightarrow> (finality_checkpoint option, checkpoint_error) result" where
  "get_checkpoint ops m height =
     (case sl_get ops (ck_db m) (checkpoint_key height) of
        None \<Rightarrow> Err DbError
      | Some None \<Rightarrow> Ok None
      | Some (Some b) \<Rightarrow> (case sl_deserialize ops b of None \<Rightarrow> Err CodecError | Some cp \<Rightarrow> Ok (Some cp)))"

definition get_latest_checkpoint ::
    "'d sled_ops \<Rightarrow> 'd checkpoint_manager \<Rightarrow> (finality_checkpoint option, checkpoint_error) result" where
  "get_latest_checkpoint ops m =
     (if ck_latest_height m = 0 then Ok None else get_checkpoint ops m (ck_latest_height m))"

definition validate_block_against_checkpoint ::
    "'d sled_ops \<Rightarrow> 'd checkpoint_manager \<Rightarrow> u64 \<Rightarrow> string \<Rightarrow> (bool, checkpoint_error) result" where
  "validate_block_against_checkpoint ops m block_height block_hash =
     (case get_latest_checkpoint ops m of
        Err e \<Rightarrow> Err e | Panic \<Rightarrow> Panic
      | Ok None \<Rightarrow> Ok True
      | Ok (Some cp) \<Rightarrow>
          if block_height < fc_height cp then Err (BeforeCheckpoint block_height (fc_height cp))
          else if block_height = fc_height cp \<and> block_hash \<noteq> fc_block_hash cp
          then Err (HashMismatch block_height (fc_block_hash cp) block_hash)
          else if block_height > fc_height cp \<and> block_height < fc_height cp + CHECKPOINT_INTERVAL
                  \<and> block_height - 1 < fc_height cp
          then Err (ParentBeforeCheckpoint (block_height - 1) (fc_height cp))
          else Ok True)"

definition should_create_checkpoint :: "'d checkpoint_manager \<Rightarrow> u64 \<Rightarrow> bool" where
  "should_create_checkpoint m height =
     (height mod CHECKPOINT_INTERVAL = 0 \<and> height > ck_latest_height m)"

definition checkpoint_prefix :: string where "checkpoint_prefix = ''checkpoint_''"

definition get_all_checkpoints ::
    "'d sled_ops \<Rightarrow> 'd checkpoint_manager \<Rightarrow> (finality_checkpoint list, checkpoint_error) result" where
  "get_all_checkpoints ops m =
     (case sl_scan_prefix ops (ck_db m) checkpoint_prefix of
        None \<Rightarrow> Err DbError
      | Some items \<Rightarrow>
          (let decoded = map (\<lambda>(_, v). sl_deserialize ops v) items in
           if None \<in> set decoded then Err CodecError
           else Ok (sort_key fc_height (map the decoded))))"

fun remove_checkpoints :: "'d sled_ops \<Rightarrow> finality_checkpoint list \<Rightarrow> 'd \<Rightarrow> bool \<times> 'd" where
  "remove_checkpoints ops [] db = (True, db)"
| "remove_checkpoints ops (cp # cps) db =
     (case sl_remove ops (checkpoint_key (fc_height cp)) db of
        (False, db') \<Rightarrow> (False, db')
      | (True, db') \<Rightarrow> remove_checkpoints ops cps db')"

definition prune_old_checkpoints ::
    "'d sled_ops \<Rightarrow> usize \<Rightarrow> 'd checkpoint_manager
     \<Rightarrow> (usize, checkpoint_error) result \<times> 'd checkpoint_manager" where
  "prune_old_checkpoints ops keep_last m =
     (case get_all_checkpoints ops m of
        Err e \<Rightarrow> (Err e, m) | Panic \<Rightarrow> (Panic, m)
      | Ok checkpoints \<Rightarrow>
          if of_nat (length checkpoints) \<le> keep_last then (Ok 0, m)
          else
            let newest_first = sort_key (\<lambda>cp. - uint (fc_height cp)) checkpoints;
                old = drop (unat keep_last) newest_first
            in case remove_checkpoints ops old (ck_db m) of
                 (False, db) \<Rightarrow> (Err DbError, m\<lparr>ck_db := db\<rparr>)
               | (True, db) \<Rightarrow>
                   (case sl_flush ops db of
                      (False, db') \<Rightarrow> (Err DbError, m\<lparr>ck_db := db'\<rparr>)
                    | (True, db') \<Rightarrow> (Ok (of_nat (length old)), m\<lparr>ck_db := db'\<rparr>)))"

text \<open>What the code relies on of \<open>sled\<close> and \<open>bincode\<close>.\<close>

definition sled_laws :: "'d sled_ops \<Rightarrow> bool" where
  "sled_laws ops \<longleftrightarrow>
     (\<forall>db k v db'. sl_insert ops k v db = (True, db') \<longrightarrow>
        (\<forall>k'. sl_get ops db' k' = (if k' = k then Some (Some v) else sl_get ops db k')))
     \<and> (\<forall>db k db'. sl_remove ops k db = (True, db') \<longrightarrow>
        (\<forall>k'. sl_get ops db' k' = (if k' = k then Some None else sl_get ops db k')))
     \<and> (\<forall>db db' k. sl_flush ops db = (True, db') \<longrightarrow> sl_get ops db' k = sl_get ops db k)
     \<and> (\<forall>db p items. sl_scan_prefix ops db p = Some items \<longrightarrow>
        distinct (map fst items)
        \<and> (\<forall>k v. (k, v) \<in> set items \<longleftrightarrow> starts_with k p \<and> sl_get ops db k = Some (Some v)))
     \<and> (\<forall>cp b. sl_serialize ops cp = Some b \<longrightarrow> sl_deserialize ops b = Some cp)"

section \<open>Quorum\<close>

lemma unat_required_signatures: "unat (required_signatures n) = (67 * unat n + 99) div 100"
proof -
  have n: "unat n < 2 ^ 32" using unat_less_exp [of n] by simp
  have "unat ((ucast n :: u64) * 67) = 67 * unat n"
    using n by (subst unat_mult_exact) (simp_all add: unat_ucast_widen)
  then have "unat (div_ceil ((ucast n :: u64) * 67) 100) = (67 * unat n + 99) div 100"
    by (simp add: unat_div_ceil)
  moreover have "(67 * unat n + 99) div 100 < 2 ^ 32" using n by linarith
  ultimately show ?thesis by (simp add: required_signatures_def Let_def unat_ucast_small)
qed

interpretation checkpoint_quorum: safe_quorum "\<lambda>n. unat (required_signatures (of_nat n))"
    "\<lambda>n. 0 < n \<and> n < 2 ^ 32"
proof unfold_locales
  fix n :: nat assume n: "0 < n \<and> n < 2 ^ 32"
  then have "unat (required_signatures (of_nat n)) = (67 * n + 99) div 100"
    by (simp add: unat_required_signatures unat_of_nat_small)
  then show "2 * n < 3 * unat (required_signatures (of_nat n))" using n by linarith
qed

text \<open>A checkpoint that passes the quorum check carries at least 67 percent of the validator
  count, rounded up; two sets of that many signers out of one validator set share a signer outside
  any third of faulty validators.\<close>

theorem checkpoint_quorums_share_correct_validator:
  assumes "verify_quorum cp1" "verify_quorum cp2"
    and "card V = unat (fc_validator_count cp1)" "card V = unat (fc_validator_count cp2)"
    and "finite V" "0 < card V" "A \<subseteq> V" "B \<subseteq> V"
    and "card A = unat (fc_signature_count cp1)" "card B = unat (fc_signature_count cp2)"
    and "F \<subseteq> V" "3 * card F \<le> card V"
  shows "67 * card V \<le> 100 * card A \<and> (\<exists>v \<in> A \<inter> B. v \<notin> F)"
proof -
  have "card V < 2 ^ 32" using unat_less_exp [of "fc_validator_count cp1"] assms(3) by simp
  moreover have "of_nat (card V) = fc_validator_count cp1" unfolding assms(3) by simp
  moreover have "of_nat (card V) = fc_validator_count cp2" unfolding assms(4) by simp
  ultimately have "\<exists>v \<in> A \<inter> B. v \<notin> F"
    using assms by (intro checkpoint_quorum.quorums_share_correct [OF assms(5,7,8)])
      (auto simp: verify_quorum_def word_le_nat_alt)
  moreover have "67 * card V \<le> 100 * card A"
    using assms(1,3,9) by (simp add: verify_quorum_def word_le_nat_alt unat_required_signatures)
  ultimately show ?thesis by blast
qed

theorem checkpoint_quorums_share_correct_validator_witness:
  "67 * card {..<4 :: nat} \<le> 100 * card {..<3 :: nat}
   \<and> (\<exists>v \<in> {..<3} \<inter> {1..<4}. v \<notin> {1 :: nat})"
  using checkpoint_quorums_share_correct_validator
    [of "checkpoint_new 0 1000 ''h'' 4 ''s'' 3" "checkpoint_new 0 1000 ''k'' 4 ''s'' 3"
      "{..<4 :: nat}" "{..<3}" "{1..<4}" "{1}"]
  by (simp add: subset_eq verify_quorum_def checkpoint_new_def word_le_nat_alt unat_required_signatures)

section \<open>Keys and the stored height\<close>

lemma checkpoint_key_inject [simp]: "checkpoint_key h = checkpoint_key h' \<longleftrightarrow> h = h'"
  by (simp add: checkpoint_key_def uint_to_string_inject)

lemma checkpoint_key_not_latest [simp]: "checkpoint_key h \<noteq> latest_key" "latest_key \<noteq> checkpoint_key h"
  by (simp_all add: checkpoint_key_def latest_key_def)

lemma checkpoint_key_prefix [simp]: "starts_with (checkpoint_key h) checkpoint_prefix"
  unfolding checkpoint_key_def checkpoint_prefix_def by (rule starts_with_append)

lemma latest_key_not_prefix [simp]: "\<not> starts_with latest_key checkpoint_prefix"
  by (simp add: latest_key_def checkpoint_prefix_def starts_with_def)

section \<open>Round trip through the store\<close>

lemma sled_lawsD:
  assumes "sled_laws ops"
  shows "sl_insert ops k v db = (True, db') \<Longrightarrow>
      sl_get ops db' k' = (if k' = k then Some (Some v) else sl_get ops db k')"
    and "sl_remove ops k db = (True, db') \<Longrightarrow>
      sl_get ops db' k' = (if k' = k then Some None else sl_get ops db k')"
    and "sl_flush ops db = (True, db') \<Longrightarrow> sl_get ops db' k = sl_get ops db k"
    and "sl_serialize ops cp = Some b \<Longrightarrow> sl_deserialize ops b = Some cp"
  using assms unfolding sled_laws_def by blast+

lemma store_latest_get:
  assumes "sled_laws ops" "store_latest ops h m = (True, m')"
  shows "ck_latest_height m' = max (ck_latest_height m) h"
    and "sl_get ops (ck_db m') k =
           (if k = latest_key \<and> ck_latest_height m < h then Some (Some (u64_le_bytes h))
            else sl_get ops (ck_db m) k)"
  using assms(2) sled_lawsD(1) [OF assms(1)]
  by (auto simp: store_latest_def max_def not_le split: if_splits prod.splits)

lemma store_checkpoint_effect:
  assumes laws: "sled_laws ops" and "store_checkpoint ops cp m = (Ok (), m')"
  obtains b where "is_valid_interval cp" "verify_quorum cp" "sl_deserialize ops b = Some cp"
    "ck_latest_height m' = max (ck_latest_height m) (fc_height cp)"
    "\<And>k. sl_get ops (ck_db m') k =
       (if k = checkpoint_key (fc_height cp) then Some (Some b)
        else if k = latest_key \<and> ck_latest_height m < fc_height cp then Some (Some (u64_le_bytes (fc_height cp)))
        else sl_get ops (ck_db m) k)"
proof -
  from assms(2) obtain b db1 m2 db3 where g: "is_valid_interval cp" "verify_quorum cp"
    and s: "sl_serialize ops cp = Some b"
    and i: "sl_insert ops (checkpoint_key (fc_height cp)) b (ck_db m) = (True, db1)"
    and l: "store_latest ops (fc_height cp) (m\<lparr>ck_db := db1\<rparr>) = (True, m2)"
    and f: "sl_flush ops (ck_db m2) = (True, db3)" and m': "m' = m2\<lparr>ck_db := db3\<rparr>"
    by (auto simp: store_checkpoint_def split: if_splits option.splits prod.splits bool.splits)
  show thesis
    by (rule that [of b])
      (use g sled_lawsD(4) [OF laws s] store_latest_get [OF laws l] sled_lawsD(1) [OF laws i]
        sled_lawsD(3) [OF laws f] in \<open>auto simp: m'\<close>)
qed

text \<open>A stored checkpoint is aligned and has its quorum; reading its height returns exactly it,
  whatever was stored there before; every other height reads as before; the latest height only
  grows, and opening the store again finds the same latest height.\<close>

theorem checkpoint_store_roundtrip:
  assumes "sled_laws ops" "store_checkpoint ops cp m = (Ok (), m')"
    and "checkpoint_try_open ops (ck_db m) = Ok m"
  shows "is_valid_interval cp \<and> verify_quorum cp
    \<and> get_checkpoint ops m' (fc_height cp) = Ok (Some cp)
    \<and> get_checkpoint ops m' h = (if h = fc_height cp then Ok (Some cp) else get_checkpoint ops m h)
    \<and> ck_latest_height m' = max (ck_latest_height m) (fc_height cp)
    \<and> checkpoint_try_open ops (ck_db m') = Ok m'"
proof -
  obtain b where e: "is_valid_interval cp" "verify_quorum cp" "sl_deserialize ops b = Some cp"
    "ck_latest_height m' = max (ck_latest_height m) (fc_height cp)"
    and get: "\<And>k. sl_get ops (ck_db m') k =
       (if k = checkpoint_key (fc_height cp) then Some (Some b)
        else if k = latest_key \<and> ck_latest_height m < fc_height cp then Some (Some (u64_le_bytes (fc_height cp)))
        else sl_get ops (ck_db m) k)"
    by (rule store_checkpoint_effect [OF assms(1,2)]) blast
  have "checkpoint_try_open ops (ck_db m') = Ok \<lparr>ck_db = ck_db m', ck_latest_height = ck_latest_height m'\<rparr>"
    using assms(3) e(4)
    by (cases "ck_latest_height m < fc_height cp")
      (auto simp: checkpoint_try_open_def get Let_def max_def not_less split: option.splits,
       (metis checkpoint_manager.select_convs(2))+)
  then show ?thesis using e by (simp add: get_checkpoint_def get)
qed

section \<open>Finality\<close>

definition entry_ok :: "'d sled_ops \<Rightarrow> u64 \<Rightarrow> string \<Rightarrow> bytes \<Rightarrow> bool" where
  "entry_ok ops latest k v \<longleftrightarrow>
     (\<exists>cp. k = checkpoint_key (fc_height cp) \<and> sl_deserialize ops v = Some cp
        \<and> fc_height cp \<le> latest \<and> is_valid_interval cp \<and> verify_quorum cp)"

definition checkpoint_inv :: "'d sled_ops \<Rightarrow> 'd checkpoint_manager \<Rightarrow> bool" where
  "checkpoint_inv ops m \<longleftrightarrow>
     (\<forall>k v. starts_with k checkpoint_prefix \<longrightarrow> sl_get ops (ck_db m) k = Some (Some v) \<longrightarrow>
        entry_ok ops (ck_latest_height m) k v)
     \<and> (ck_latest_height m \<noteq> 0 \<longrightarrow>
        (\<exists>v. sl_get ops (ck_db m) (checkpoint_key (ck_latest_height m)) = Some (Some v)))"

definition checkpoint_fresh :: "'d sled_ops \<Rightarrow> 'd checkpoint_manager \<Rightarrow> bool" where
  "checkpoint_fresh ops m \<longleftrightarrow>
     ck_latest_height m = 0 \<and> (\<forall>k. sl_get ops (ck_db m) k = Some None)"

inductive checkpoint_step :: "'d sled_ops \<Rightarrow> 'd checkpoint_manager \<Rightarrow> 'd checkpoint_manager \<Rightarrow> bool"
  for ops where
  store: "store_checkpoint ops cp m = (Ok (), m') \<Longrightarrow> checkpoint_step ops m m'"
| prune: "prune_old_checkpoints ops keep_last m = (Ok n, m') \<Longrightarrow> 0 < keep_last \<Longrightarrow> checkpoint_step ops m m'"

lemma checkpoint_inv_fresh: "checkpoint_fresh ops m \<Longrightarrow> checkpoint_inv ops m"
  by (simp add: checkpoint_inv_def checkpoint_fresh_def)

lemma entry_ok_mono: "entry_ok ops l k v \<Longrightarrow> l \<le> l' \<Longrightarrow> entry_ok ops l' k v"
  unfolding entry_ok_def using order_trans by metis

lemma checkpoint_inv_store:
  assumes "sled_laws ops" "checkpoint_inv ops m" "store_checkpoint ops cp m = (Ok (), m')"
  shows "checkpoint_inv ops m'"
proof -
  obtain b where e: "is_valid_interval cp" "verify_quorum cp" "sl_deserialize ops b = Some cp"
    "ck_latest_height m' = max (ck_latest_height m) (fc_height cp)"
    and get: "\<And>k. sl_get ops (ck_db m') k =
       (if k = checkpoint_key (fc_height cp) then Some (Some b)
        else if k = latest_key \<and> ck_latest_height m < fc_height cp then Some (Some (u64_le_bytes (fc_height cp)))
        else sl_get ops (ck_db m) k)"
    by (rule store_checkpoint_effect [OF assms(1,3)]) blast
  have new: "entry_ok ops (ck_latest_height m') (checkpoint_key (fc_height cp)) b"
    unfolding entry_ok_def using e by (intro exI [of _ cp]) simp
  have old: "entry_ok ops (ck_latest_height m') k v"
    if "starts_with k checkpoint_prefix" "sl_get ops (ck_db m) k = Some (Some v)" for k v
  proof -
    have "entry_ok ops (ck_latest_height m) k v" using that assms(2) by (simp add: checkpoint_inv_def)
    then show ?thesis by (rule entry_ok_mono) (simp add: e(4))
  qed
  have "k \<noteq> latest_key" if "starts_with k checkpoint_prefix" for k using that by auto
  then have "entry_ok ops (ck_latest_height m') k v"
    if "starts_with k checkpoint_prefix" "sl_get ops (ck_db m') k = Some (Some v)" for k v
    using that new old by (auto simp: get split: if_splits)
  moreover have "\<exists>v. sl_get ops (ck_db m') (checkpoint_key (ck_latest_height m')) = Some (Some v)"
    if "ck_latest_height m' \<noteq> 0"
    using that assms(2) e(4) by (auto simp: get checkpoint_inv_def max_def split: if_splits)
  ultimately show ?thesis unfolding checkpoint_inv_def by blast
qed

lemma remove_checkpoints_get:
  assumes "sled_laws ops" "remove_checkpoints ops cps db = (True, db')"
  shows "sl_get ops db' k = (if k \<in> checkpoint_key ` fc_height ` set cps then Some None else sl_get ops db k)"
  using assms(2)
  by (induction cps arbitrary: db) (auto simp: sled_lawsD(2) [OF assms(1)] split: prod.splits bool.splits)

text \<open>The newest checkpoint is not among those dropped when at least one is kept.\<close>

lemma newest_not_dropped:
  fixes cps :: "finality_checkpoint list"
  assumes "distinct (map fc_height cps)" "\<forall>cp \<in> set cps. fc_height cp \<le> newest" "0 < k"
  shows "newest \<notin> fc_height ` set (drop k (sort_key (\<lambda>cp. - uint (fc_height cp)) cps))"
proof
  let ?s = "sort_key (\<lambda>cp. - uint (fc_height cp)) cps"
  assume "newest \<in> fc_height ` set (drop k ?s)"
  then obtain i where "i < length (drop k ?s)" "fc_height (drop k ?s ! i) = newest"
    unfolding set_conv_nth by blast
  then have i: "k + i < length ?s" "fc_height (?s ! (k + i)) = newest" by simp_all
  have pos: "0 < length ?s" using i(1) by linarith
  have "- uint (fc_height (?s ! 0)) \<le> - uint (fc_height (?s ! (k + i)))"
    using sorted_nth_mono [OF sorted_sort_key [of "\<lambda>cp. - uint (fc_height cp)" cps], of 0 "k + i"] i(1)
    by (simp only: length_map nth_map [OF pos] nth_map [OF i(1)] le0 simp_thms)
  then have "newest \<le> fc_height (?s ! 0)" using i(2) by (simp add: word_le_def)
  moreover have "?s ! 0 \<in> set cps" using i(1) by (metis gr_implies_not0 neq0_conv nth_mem set_sort)
  ultimately have "fc_height (?s ! 0) = newest" using assms(2) by (simp add: dual_order.eq_iff)
  moreover have "distinct (map fc_height ?s)"
  proof -
    have "mset (map fc_height ?s) = mset (map fc_height cps)" by simp
    then show ?thesis using assms(1) by (metis mset_eq_imp_distinct_iff)
  qed
  ultimately show False
    using i pos assms(3) nth_eq_iff_index_eq [of "map fc_height ?s" 0 "k + i"] by simp
qed

lemma get_all_checkpoints_entries:
  assumes laws: "sled_laws ops" and inv: "checkpoint_inv ops m"
    and "get_all_checkpoints ops m = Ok cps"
  shows "distinct (map fc_height cps)" "\<forall>cp \<in> set cps. fc_height cp \<le> ck_latest_height m"
proof -
  from assms(3) obtain items where scan: "sl_scan_prefix ops (ck_db m) checkpoint_prefix = Some items"
    and cps: "cps = sort_key fc_height (map (\<lambda>x. the (sl_deserialize ops (snd x))) items)"
    by (auto simp: get_all_checkpoints_def Let_def comp_def case_prod_beta split: option.splits if_splits)
  have items: "distinct (map fst items)"
    "\<And>k v. (k, v) \<in> set items \<Longrightarrow> starts_with k checkpoint_prefix \<and> sl_get ops (ck_db m) k = Some (Some v)"
    using laws scan unfolding sled_laws_def by blast+
  have entry: "fst e = checkpoint_key (fc_height (the (sl_deserialize ops (snd e))))
      \<and> fc_height (the (sl_deserialize ops (snd e))) \<le> ck_latest_height m" if "e \<in> set items" for e
  proof -
    have "entry_ok ops (ck_latest_height m) (fst e) (snd e)"
      using inv items(2) [of "fst e" "snd e"] that by (simp add: checkpoint_inv_def)
    then show ?thesis unfolding entry_ok_def by fastforce
  qed
  let ?h = "\<lambda>e. fc_height (the (sl_deserialize ops (snd e)))"
  have "map fst items = map (checkpoint_key \<circ> ?h) items" using entry by simp
  then have "distinct (map (checkpoint_key \<circ> ?h) items)" using items(1) by (simp only:)
  then have "distinct (map checkpoint_key (map ?h items))" by simp
  then have "distinct (map ?h items)" using distinct_map by blast
  moreover have "mset (map fc_height cps) = mset (map ?h items)"
    by (simp add: cps image_mset.compositionality comp_def)
  ultimately show "distinct (map fc_height cps)" by (metis mset_eq_imp_distinct_iff)
  show "\<forall>cp \<in> set cps. fc_height cp \<le> ck_latest_height m" using entry by (auto simp: cps)
qed

lemma checkpoint_inv_prune:
  assumes laws: "sled_laws ops" and inv: "checkpoint_inv ops m"
    and run: "prune_old_checkpoints ops keep_last m = (Ok n, m')" and keep: "0 < keep_last"
  shows "checkpoint_inv ops m'" "ck_latest_height m' = ck_latest_height m"
proof -
  from run have "m' = m \<or> (\<exists>cps db db'. get_all_checkpoints ops m = Ok cps
      \<and> remove_checkpoints ops
          (drop (unat keep_last) (sort_key (\<lambda>cp. - uint (fc_height cp)) cps)) (ck_db m) = (True, db)
      \<and> sl_flush ops db = (True, db') \<and> m' = m\<lparr>ck_db := db'\<rparr>)"
    by (auto simp: prune_old_checkpoints_def Let_def split: result.splits if_splits prod.splits bool.splits)
  then have "checkpoint_inv ops m' \<and> ck_latest_height m' = ck_latest_height m"
  proof (elim disjE exE conjE)
    fix cps :: "finality_checkpoint list" and db db'
    let ?old = "drop (unat keep_last) (sort_key (\<lambda>cp. - uint (fc_height cp)) cps)"
    assume all: "get_all_checkpoints ops m = Ok cps"
      and rem: "remove_checkpoints ops ?old (ck_db m) = (True, db)"
      and fl: "sl_flush ops db = (True, db')" and m': "m' = m\<lparr>ck_db := db'\<rparr>"
    have get: "sl_get ops (ck_db m') k =
        (if k \<in> checkpoint_key ` fc_height ` set ?old then Some None else sl_get ops (ck_db m) k)" for k
      using remove_checkpoints_get [OF laws rem] sled_lawsD(3) [OF laws fl] by (simp add: m')
    have "0 < unat keep_last" using keep by (simp add: word_less_nat_alt)
    then have "ck_latest_height m \<notin> fc_height ` set ?old"
      using newest_not_dropped get_all_checkpoints_entries [OF laws inv all] by blast
    then have "checkpoint_key (ck_latest_height m) \<notin> checkpoint_key ` fc_height ` set ?old" by auto
    then show ?thesis using inv unfolding checkpoint_inv_def get by (simp add: m')
  qed (use inv in simp)
  then show "checkpoint_inv ops m'" "ck_latest_height m' = ck_latest_height m" by simp_all
qed

lemma checkpoint_step_inv:
  "sled_laws ops \<and> checkpoint_inv ops m \<Longrightarrow> checkpoint_step ops m m' \<Longrightarrow> sled_laws ops \<and> checkpoint_inv ops m'"
  by (erule checkpoint_step.cases) (auto intro: checkpoint_inv_store checkpoint_inv_prune(1))

interpretation checkpoint_sys: invariant_system "checkpoint_step ops" "\<lambda>m. sled_laws ops \<and> checkpoint_inv ops m"
  for ops
  by unfold_locales (rule checkpoint_step_inv)

lemma checkpoint_step_latest:
  assumes "sled_laws ops" "checkpoint_inv ops m" "checkpoint_step ops m m'"
  shows "ck_latest_height m \<le> ck_latest_height m'"
  using assms(3)
proof cases
  case (store cp)
  then show ?thesis using store_checkpoint_effect [OF assms(1)] by (metis max.cobounded1)
next
  case (prune keep_last n)
  then show ?thesis using checkpoint_inv_prune(2) [OF assms(1,2)] by simp
qed

text \<open>Finality. From an empty store, through any sequence of stored checkpoints and prunings
  that keep at least one, the latest checkpoint height never falls, its checkpoint stays in the
  store with its quorum, and a block passes validation exactly when it is above that height or is
  the checkpointed block itself.\<close>

theorem finality_checkpoint_enforced:
  assumes "sled_laws ops" "checkpoint_fresh ops m0" "(checkpoint_step ops)\<^sup>*\<^sup>* m0 m"
    and "(checkpoint_step ops)\<^sup>*\<^sup>* m m'" "ck_latest_height m \<noteq> 0"
  shows "ck_latest_height m \<le> ck_latest_height m'
    \<and> (\<exists>cp. get_latest_checkpoint ops m' = Ok (Some cp) \<and> fc_height cp = ck_latest_height m'
          \<and> is_valid_interval cp \<and> verify_quorum cp
          \<and> (validate_block_against_checkpoint ops m' h hash = Ok True
              \<longleftrightarrow> ck_latest_height m' < h \<or> h = ck_latest_height m' \<and> hash = fc_block_hash cp))"
proof -
  have inv: "sled_laws ops \<and> checkpoint_inv ops m"
    using checkpoint_sys.reach_inv [OF assms(3)] assms(1) checkpoint_inv_fresh [OF assms(2)] by blast
  have inv': "checkpoint_inv ops m'" using checkpoint_sys.reach_inv [OF assms(4) inv] by blast
  have le: "ck_latest_height m \<le> ck_latest_height m'"
    by (rule checkpoint_sys.reach_rel [OF assms(4) inv, where R = "\<lambda>a b. ck_latest_height a \<le> ck_latest_height b"])
      (auto intro: order_trans checkpoint_step_latest)
  have nz: "ck_latest_height m' \<noteq> 0" using le assms(5) by (auto simp: word_le_nat_alt unat_eq_zero)
  then obtain v where "sl_get ops (ck_db m') (checkpoint_key (ck_latest_height m')) = Some (Some v)"
    "entry_ok ops (ck_latest_height m') (checkpoint_key (ck_latest_height m')) v"
    using inv' unfolding checkpoint_inv_def by (metis checkpoint_key_prefix)
  then obtain cp where cp: "get_latest_checkpoint ops m' = Ok (Some cp)" "fc_height cp = ck_latest_height m'"
    "is_valid_interval cp" "verify_quorum cp"
    using nz by (auto simp: get_latest_checkpoint_def get_checkpoint_def entry_ok_def)
  have parent: "\<not> h - 1 < ck_latest_height m'" if "ck_latest_height m' < h"
  proof -
    have "1 \<le> h" using that by (simp add: word_le_nat_alt word_less_nat_alt)
    then have "unat (h - 1) = unat h - 1" by (simp add: unat_sub_exact)
    with that show ?thesis by (simp add: word_less_nat_alt)
  qed
  show ?thesis
    using le cp parent
    by (auto simp: validate_block_against_checkpoint_def not_less intro!: exI [of _ cp] split: if_splits)
qed

section \<open>An example store\<close>

definition list_sled :: "finality_checkpoint \<Rightarrow> finality_checkpoint \<Rightarrow> (string, bytes) btree_map sled_ops" where
  "list_sled a b =
     \<lparr>sl_get = (\<lambda>db k. Some (bt_get db k)),
      sl_insert = (\<lambda>k v db. (True, bt_insert k v db)),
      sl_remove = (\<lambda>k db. (True, bt_remove k db)),
      sl_flush = (\<lambda>db. (True, db)),
      sl_scan_prefix = (\<lambda>db p. if bt_ok db then Some (filter (\<lambda>e. starts_with (fst e) p) db) else None),
      sl_serialize = (\<lambda>cp. if cp = a then Some [1] else if cp = b then Some [2] else None),
      sl_deserialize = (\<lambda>v. if v = [1] then Some a else if v = [2] then Some b else None)\<rparr>"

lemma list_sled_laws: "sled_laws (list_sled a b)"
proof -
  have "distinct (map fst (filter P db))" if "bt_ok db" for P and db :: "(string, bytes) btree_map"
    using bt_ok_sorted [OF bt_ok_filter [OF that]] by (simp add: strict_sorted_iff)
  then show ?thesis
    by (auto simp: sled_laws_def list_sled_def bt_entries_get split: if_splits)
qed

definition cp_one :: finality_checkpoint where "cp_one = checkpoint_new 7 1000 ''h1'' 4 ''s'' 3"
definition cp_two :: finality_checkpoint where "cp_two = checkpoint_new 8 1000 ''h2'' 4 ''s'' 3"

abbreviation demo_sled :: "(string, bytes) btree_map sled_ops" where
  "demo_sled \<equiv> list_sled cp_one cp_two"

definition demo_empty :: "(string, bytes) btree_map checkpoint_manager" where
  "demo_empty = \<lparr>ck_db = [], ck_latest_height = 0\<rparr>"

definition demo_stored :: "(string, bytes) btree_map checkpoint_manager" where
  "demo_stored = snd (store_checkpoint demo_sled cp_one demo_empty)"

definition demo_replaced :: "(string, bytes) btree_map checkpoint_manager" where
  "demo_replaced = snd (store_checkpoint demo_sled cp_two demo_stored)"

lemma cp_ok: "is_valid_interval cp_one" "verify_quorum cp_one" "is_valid_interval cp_two" "verify_quorum cp_two"
  "fc_height cp_one = 1000" "fc_height cp_two = 1000" "cp_one \<noteq> cp_two" "cp_two \<noteq> cp_one"
  by (simp_all add: cp_one_def cp_two_def checkpoint_new_def is_valid_interval_def CHECKPOINT_INTERVAL_def
      verify_quorum_def word_le_nat_alt unat_required_signatures)

lemma demo_store_one: "store_checkpoint demo_sled cp_one demo_empty = (Ok (), demo_stored)"
  unfolding demo_stored_def
  by (simp add: store_checkpoint_def store_latest_def list_sled_def cp_ok demo_empty_def)

lemma demo_store_two: "store_checkpoint demo_sled cp_two demo_stored = (Ok (), demo_replaced)"
  unfolding demo_replaced_def
  by (simp add: store_checkpoint_def store_latest_def list_sled_def cp_ok split: prod.split)

lemma demo_open: "checkpoint_try_open demo_sled (ck_db demo_stored) = Ok demo_stored"
  by (simp add: demo_stored_def store_checkpoint_def store_latest_def list_sled_def cp_ok demo_empty_def
      checkpoint_try_open_def Let_def)

theorem checkpoint_store_roundtrip_witness:
  "get_checkpoint demo_sled demo_replaced 1000 = Ok (Some cp_two)
   \<and> get_checkpoint demo_sled demo_stored 1000 = Ok (Some cp_one)"
proof -
  have open_empty: "checkpoint_try_open demo_sled (ck_db demo_empty) = Ok demo_empty"
    by (simp add: checkpoint_try_open_def demo_empty_def list_sled_def Let_def)
  show ?thesis
    using checkpoint_store_roundtrip [OF list_sled_laws demo_store_one open_empty]
      checkpoint_store_roundtrip [OF list_sled_laws demo_store_two demo_open]
    by (simp add: cp_ok)
qed

theorem finality_checkpoint_enforced_witness:
  "validate_block_against_checkpoint demo_sled demo_stored 1500 ''x'' = Ok True
   \<and> validate_block_against_checkpoint demo_sled demo_stored 1000 ''x'' \<noteq> Ok True
   \<and> validate_block_against_checkpoint demo_sled demo_stored 999 ''x'' \<noteq> Ok True"
proof -
  have fresh: "checkpoint_fresh demo_sled demo_empty"
    by (simp add: checkpoint_fresh_def demo_empty_def list_sled_def)
  have "checkpoint_step demo_sled demo_empty demo_stored" by (rule checkpoint_step.store [OF demo_store_one])
  then have reach: "(checkpoint_step demo_sled)\<^sup>*\<^sup>* demo_empty demo_stored" by blast
  have latest: "ck_latest_height demo_stored = 1000"
    by (rule store_checkpoint_effect [OF list_sled_laws demo_store_one]) (simp add: cp_ok demo_empty_def)
  have get: "get_latest_checkpoint demo_sled demo_stored = Ok (Some cp_one)"
    by (simp add: demo_stored_def store_checkpoint_def store_latest_def list_sled_def cp_ok demo_empty_def
        get_latest_checkpoint_def get_checkpoint_def)
  note fin = finality_checkpoint_enforced [OF list_sled_laws fresh reach rtranclp.rtrancl_refl]
  show ?thesis
    using fin [of 1500 "''x''"] fin [of 1000 "''x''"] fin [of 999 "''x''"] get
    by (auto simp: latest cp_one_def checkpoint_new_def)
qed

end
