(* ===== verification/Rewards.thy ===== *)
theory Rewards
  imports Ledger Isqrt Step_Systems
begin

text \<open>
  Validator rewards (\<open>los-core/src/validator_rewards.rs\<close> and its constants in \<open>los-core/src/lib.rs\<close>):
  a pool of 500,000 LOS paid out per epoch in proportion to the square root of the stake, with a
  rate that halves every 48 epochs. Shown here: an epoch never pays more than its rate or the pool,
  shares are the exact floors of the proportional shares, the pool's accounting is exact in every
  reachable state, and the halving schedule alone keeps 20,000 LOS in the pool forever.
\<close>

section \<open>Constants\<close>

definition VALIDATOR_REWARD_POOL_CIL :: u128 where "VALIDATOR_REWARD_POOL_CIL = 500000 * CIL_PER_LOS"
definition REWARD_EPOCH_SECS :: u64 where "REWARD_EPOCH_SECS = 30 * 24 * 60 * 60"
definition TESTNET_REWARD_EPOCH_SECS :: u64 where "TESTNET_REWARD_EPOCH_SECS = 2 * 60"
definition REWARD_RATE_INITIAL_CIL :: u128 where "REWARD_RATE_INITIAL_CIL = 5000 * CIL_PER_LOS"
definition REWARD_HALVING_INTERVAL_EPOCHS :: u64 where "REWARD_HALVING_INTERVAL_EPOCHS = 48"
definition REWARD_MIN_UPTIME_PCT :: u64 where "REWARD_MIN_UPTIME_PCT = 95"
definition REWARD_PROBATION_EPOCHS :: u64 where "REWARD_PROBATION_EPOCHS = 1"

definition effective_reward_epoch_secs :: "los_env \<Rightarrow> u64" where
  "effective_reward_epoch_secs env =
     (if is_testnet_build env then TESTNET_REWARD_EPOCH_SECS else REWARD_EPOCH_SECS)"

section \<open>Per-validator state\<close>

definition reward_isqrt :: "u128 \<Rightarrow> u128" where
  "reward_isqrt n = (if n = 0 then 0 else isqrt_loop n n (div_ceil n 2))"

record reward_state =
  rs_join_epoch :: u64
  rs_heartbeats_current_epoch :: u64
  rs_expected_heartbeats :: u64
  rs_cumulative_rewards_cil :: u128
  rs_is_genesis :: bool
  rs_stake_cil :: u128
  rs_last_epoch_uptime_pct :: u64

definition reward_state_new :: "u64 \<Rightarrow> bool \<Rightarrow> u128 \<Rightarrow> reward_state" where
  "reward_state_new join_epoch is_genesis stake_cil =
     \<lparr>rs_join_epoch = join_epoch, rs_heartbeats_current_epoch = 0, rs_expected_heartbeats = 0,
      rs_cumulative_rewards_cil = 0, rs_is_genesis = is_genesis, rs_stake_cil = stake_cil,
      rs_last_epoch_uptime_pct = 0\<rparr>"

definition uptime_pct :: "reward_state \<Rightarrow> u64" where
  "uptime_pct s =
     (if rs_expected_heartbeats s = 0 then 0
      else min ((rs_heartbeats_current_epoch s * 100) div rs_expected_heartbeats s) 100)"

definition display_uptime_pct :: "reward_state \<Rightarrow> u64" where
  "display_uptime_pct s = max (uptime_pct s) (rs_last_epoch_uptime_pct s)"

definition is_eligible :: "u64 \<Rightarrow> reward_state \<Rightarrow> bool" where
  "is_eligible current_epoch s =
     (if current_epoch < rs_join_epoch s + REWARD_PROBATION_EPOCHS then False
      else if uptime_pct s < REWARD_MIN_UPTIME_PCT then False
      else if rs_stake_cil s < MIN_VALIDATOR_STAKE_CIL then False
      else True)"

definition sqrt_stake_weight :: "reward_state \<Rightarrow> u128" where
  "sqrt_stake_weight s = reward_isqrt (rs_stake_cil s div CIL_PER_LOS)"

section \<open>The pool\<close>

record reward_pool =
  rp_remaining_cil :: u128
  rp_current_epoch :: u64
  rp_epoch_start_timestamp :: u64
  rp_halvings_occurred :: u64
  rp_total_distributed_cil :: u128
  rp_validators :: "(string, reward_state) btree_map"
  rp_epoch_duration_secs :: u64

definition reward_pool_with_balance :: "los_env \<Rightarrow> u64 \<Rightarrow> u128 \<Rightarrow> reward_pool" where
  "reward_pool_with_balance env genesis_timestamp balance_cil =
     \<lparr>rp_remaining_cil = balance_cil, rp_current_epoch = 0,
      rp_epoch_start_timestamp = genesis_timestamp, rp_halvings_occurred = 0,
      rp_total_distributed_cil = 0, rp_validators = [],
      rp_epoch_duration_secs = effective_reward_epoch_secs env\<rparr>"

definition reward_pool_new :: "los_env \<Rightarrow> u64 \<Rightarrow> reward_pool" where
  "reward_pool_new env genesis_timestamp =
     \<lparr>rp_remaining_cil = VALIDATOR_REWARD_POOL_CIL, rp_current_epoch = 0,
      rp_epoch_start_timestamp = genesis_timestamp, rp_halvings_occurred = 0,
      rp_total_distributed_cil = 0, rp_validators = [],
      rp_epoch_duration_secs = effective_reward_epoch_secs env\<rparr>"

definition rp_register_validator :: "string \<Rightarrow> bool \<Rightarrow> u128 \<Rightarrow> reward_pool \<Rightarrow> reward_pool" where
  "rp_register_validator address is_genesis stake_cil p =
     p\<lparr>rp_validators :=
        bt_insert address
          (case bt_get (rp_validators p) address of
             Some v \<Rightarrow> v\<lparr>rs_stake_cil := stake_cil, rs_is_genesis := is_genesis\<rparr>
           | None \<Rightarrow> reward_state_new (rp_current_epoch p) is_genesis stake_cil)
          (rp_validators p)\<rparr>"

definition beat :: "reward_state \<Rightarrow> reward_state" where
  "beat s = s\<lparr>rs_heartbeats_current_epoch := rs_heartbeats_current_epoch s + 1\<rparr>"

definition record_heartbeat :: "string \<Rightarrow> reward_pool \<Rightarrow> reward_pool" where
  "record_heartbeat address p = p\<lparr>rp_validators := bt_modify address beat (rp_validators p)\<rparr>"

definition record_heartbeat_once ::
    "string \<Rightarrow> string set \<Rightarrow> reward_pool \<Rightarrow> bool \<times> string set \<times> reward_pool" where
  "record_heartbeat_once address seen_this_tick p =
     (if address \<in> seen_this_tick then (False, seen_this_tick, p)
      else if bt_contains (rp_validators p) address
      then (True, insert address seen_this_tick, record_heartbeat address p)
      else (False, seen_this_tick, p))"

definition epoch_reward_rate :: "reward_pool \<Rightarrow> u128" where
  "epoch_reward_rate p =
     (let halvings = rp_current_epoch p div REWARD_HALVING_INTERVAL_EPOCHS in
      if halvings \<ge> 128 then 0 else drop_bit (unat halvings) REWARD_RATE_INITIAL_CIL)"

definition is_epoch_complete :: "reward_pool \<Rightarrow> u64 \<Rightarrow> bool" where
  "is_epoch_complete p now_secs =
     (now_secs \<ge> rp_epoch_start_timestamp p + rp_epoch_duration_secs p)"

definition epoch_remaining_secs :: "reward_pool \<Rightarrow> u64 \<Rightarrow> u64" where
  "epoch_remaining_secs p now_secs =
     saturating_sub (rp_epoch_start_timestamp p + rp_epoch_duration_secs p) now_secs"

definition catch_up_epochs :: "u64 \<Rightarrow> reward_pool \<Rightarrow> u64 \<times> reward_pool" where
  "catch_up_epochs now_secs p =
     (if rp_epoch_duration_secs p = 0 then (0, p)
      else
        let elapsed = saturating_sub now_secs (rp_epoch_start_timestamp p);
            epochs_behind = elapsed div rp_epoch_duration_secs p
        in if epochs_behind \<le> 1 then (0, p)
           else
             let skip = epochs_behind - 1;
                 epoch = rp_current_epoch p + skip
             in (skip,
                 p\<lparr>rp_current_epoch := epoch,
                   rp_epoch_start_timestamp :=
                     rp_epoch_start_timestamp p + skip * rp_epoch_duration_secs p,
                   rp_halvings_occurred := epoch div REWARD_HALVING_INTERVAL_EPOCHS,
                   rp_validators := bt_map_values
                     (\<lambda>s. s\<lparr>rs_heartbeats_current_epoch := 0, rs_expected_heartbeats := 0\<rparr>)
                     (rp_validators p)\<rparr>))"

definition expect_heartbeats :: "u64 \<Rightarrow> reward_state \<Rightarrow> reward_state" where
  "expect_heartbeats full_expected s =
     (if rs_heartbeats_current_epoch s = 0 then s\<lparr>rs_expected_heartbeats := full_expected\<rparr>
      else if rs_expected_heartbeats s = 0 \<and> full_expected > 0
      then s\<lparr>rs_expected_heartbeats := min (rs_heartbeats_current_epoch s) full_expected\<rparr>
      else s\<lparr>rs_expected_heartbeats := full_expected\<rparr>)"

definition set_expected_heartbeats :: "u64 \<Rightarrow> reward_pool \<Rightarrow> reward_pool" where
  "set_expected_heartbeats heartbeat_interval_secs p =
     (let full_expected =
            (if heartbeat_interval_secs > 0 then rp_epoch_duration_secs p div heartbeat_interval_secs else 0)
      in p\<lparr>rp_validators := bt_map_values (expect_heartbeats full_expected) (rp_validators p)\<rparr>)"

definition advance_epoch :: "reward_pool \<Rightarrow> reward_pool" where
  "advance_epoch p =
     (let epoch = rp_current_epoch p + 1
      in p\<lparr>rp_current_epoch := epoch,
           rp_epoch_start_timestamp := rp_epoch_start_timestamp p + rp_epoch_duration_secs p,
           rp_halvings_occurred := epoch div REWARD_HALVING_INTERVAL_EPOCHS,
           rp_validators := bt_map_values
             (\<lambda>s. s\<lparr>rs_last_epoch_uptime_pct := uptime_pct s, rs_heartbeats_current_epoch := 0,
                    rs_expected_heartbeats := 0\<rparr>) (rp_validators p)\<rparr>)"

definition eligible_weights :: "reward_pool \<Rightarrow> (string \<times> u128) list" where
  "eligible_weights p =
     filter (\<lambda>(_, w). w > 0)
       (map (\<lambda>(addr, v). (addr, sqrt_stake_weight v))
         (filter (\<lambda>(_, v). is_eligible (rp_current_epoch p) v) (rp_validators p)))"

definition reward_share :: "u128 \<Rightarrow> u128 \<Rightarrow> u128 \<Rightarrow> u128" where
  "reward_share budget total_weight weight =
     (case checked_mul budget weight of Some product \<Rightarrow> product div total_weight | None \<Rightarrow> 0)"

definition epoch_rewards :: "u128 \<Rightarrow> (string \<times> u128) list \<Rightarrow> (string \<times> u128) list" where
  "epoch_rewards budget eligible =
     (let total_weight = sum_list (map snd eligible)
      in filter (\<lambda>(_, r). r > 0) (map (\<lambda>(a, w). (a, reward_share budget total_weight w)) eligible))"

definition credit_reward :: "u128 \<Rightarrow> reward_state \<Rightarrow> reward_state" where
  "credit_reward reward s = s\<lparr>rs_cumulative_rewards_cil := rs_cumulative_rewards_cil s + reward\<rparr>"

definition credit_rewards ::
    "(string \<times> u128) list \<Rightarrow> (string, reward_state) btree_map \<Rightarrow> (string, reward_state) btree_map" where
  "credit_rewards rewards vs = fold (\<lambda>(addr, reward). bt_modify addr (credit_reward reward)) rewards vs"

definition distribute_epoch_rewards :: "reward_pool \<Rightarrow> (string \<times> u128) list \<times> reward_pool" where
  "distribute_epoch_rewards p =
     (let epoch_rate = epoch_reward_rate p in
      if epoch_rate = 0 \<or> rp_remaining_cil p = 0 then ([], advance_epoch p)
      else
        let budget = min epoch_rate (rp_remaining_cil p);
            eligible = eligible_weights p
        in if eligible = [] then ([], advance_epoch p)
           else if sum_list (map snd eligible) = 0 then ([], advance_epoch p)
           else
             let rewards = epoch_rewards budget eligible;
                 actually_distributed = sum_list (map snd rewards)
             in (rewards,
                 advance_epoch
                   (p\<lparr>rp_remaining_cil := saturating_sub (rp_remaining_cil p) actually_distributed,
                      rp_total_distributed_cil := rp_total_distributed_cil p + actually_distributed,
                      rp_validators := credit_rewards rewards (rp_validators p)\<rparr>)))"

definition advance_epoch_only :: "reward_pool \<Rightarrow> reward_pool" where
  "advance_epoch_only p = advance_epoch p"

definition sync_reward_from_gossip :: "string \<Rightarrow> u128 \<Rightarrow> reward_pool \<Rightarrow> reward_pool" where
  "sync_reward_from_gossip recipient amount_cil p =
     p\<lparr>rp_remaining_cil := saturating_sub (rp_remaining_cil p) amount_cil,
       rp_total_distributed_cil := rp_total_distributed_cil p + amount_cil,
       rp_validators := bt_modify recipient (credit_reward amount_cil) (rp_validators p)\<rparr>"

definition rp_unregister_validator :: "string \<Rightarrow> reward_pool \<Rightarrow> bool \<times> reward_pool" where
  "rp_unregister_validator address p =
     (bt_contains (rp_validators p) address, p\<lparr>rp_validators := bt_remove address (rp_validators p)\<rparr>)"

definition rp_update_stake :: "string \<Rightarrow> u128 \<Rightarrow> reward_pool \<Rightarrow> reward_pool" where
  "rp_update_stake address new_stake_cil p =
     p\<lparr>rp_validators := bt_modify address (\<lambda>s. s\<lparr>rs_stake_cil := new_stake_cil\<rparr>) (rp_validators p)\<rparr>"

record reward_pool_summary =
  ps_remaining_cil :: u128
  ps_total_distributed_cil :: u128
  ps_current_epoch :: u64
  ps_epoch_reward_rate_cil :: u128
  ps_halvings_occurred :: u64
  ps_total_validators :: u64
  ps_eligible_validators :: u64
  ps_pool_exhaustion_bps :: u64

definition pool_summary :: "reward_pool \<Rightarrow> reward_pool_summary" where
  "pool_summary p =
     \<lparr>ps_remaining_cil = rp_remaining_cil p, ps_total_distributed_cil = rp_total_distributed_cil p,
      ps_current_epoch = rp_current_epoch p, ps_epoch_reward_rate_cil = epoch_reward_rate p,
      ps_halvings_occurred = rp_halvings_occurred p,
      ps_total_validators = of_nat (length (rp_validators p)),
      ps_eligible_validators =
        of_nat (length (filter (is_eligible (rp_current_epoch p)) (bt_values (rp_validators p)))),
      ps_pool_exhaustion_bps =
        (if VALIDATOR_REWARD_POOL_CIL > 0
         then ucast ((VALIDATOR_REWARD_POOL_CIL - rp_remaining_cil p) * 10000 div VALIDATOR_REWARD_POOL_CIL)
         else 0)\<rparr>"

section \<open>Weights and shares\<close>

interpretation reward_sqrt: integer_sqrt reward_isqrt
  using newton_u128.integer_sqrt_axioms unfolding reward_isqrt_def isqrt_newton_def by simp

lemma unat_weight_bound: "unat (sqrt_stake_weight s) < 2 ^ 46"
proof (rule ccontr)
  let ?n = "rs_stake_cil s div CIL_PER_LOS"
  assume "\<not> ?thesis"
  then have "((2 :: nat) ^ 46) ^ 2 \<le> unat (sqrt_stake_weight s) ^ 2" by (intro power_mono) simp_all
  also have "\<dots> \<le> unat ?n" unfolding sqrt_stake_weight_def by (rule reward_sqrt.sq_lower)
  also have "unat ?n = unat (rs_stake_cil s) div 100000000000" by (simp add: unat_div CIL_PER_LOS_def)
  also have "\<dots> \<le> 2 ^ 128 div 100000000000"
    using unat_less_exp [of "rs_stake_cil s"] by (intro div_le_mono) simp
  finally show False by simp
qed

lemma div_add_le: "0 < c \<Longrightarrow> a div c + b div c \<le> (a + b) div (c :: nat)"
  by (simp add: less_eq_div_iff_mult_less_eq distrib_right add_mono div_times_less_eq_dividend)

lemma sum_floor_shares:
  "0 < c \<Longrightarrow> sum_list (map (\<lambda>w. b * w div c) ws) \<le> b * sum_list ws div (c :: nat)"
proof (induction ws)
  case (Cons w ws)
  then have "sum_list (map (\<lambda>w. b * w div c) (w # ws)) \<le> b * w div c + b * sum_list ws div c" by simp
  also have "\<dots> \<le> (b * w + b * sum_list ws) div c" by (rule div_add_le [OF Cons.prems])
  finally show ?case by (simp add: distrib_left)
qed simp

definition weights_ok :: "(string \<times> u128) list \<Rightarrow> bool" where
  "weights_ok ws \<longleftrightarrow> length ws < 2 ^ 64 \<and> (\<forall>(a, w) \<in> set ws. unat w < 2 ^ 46)"

lemma unat_total_weight:
  assumes "weights_ok ws"
  shows "unat (sum_list (map snd ws)) = sum_list (map (unat \<circ> snd) ws)"
proof -
  have "sum_list (map (unat \<circ> snd) ws) \<le> length ws * 2 ^ 46"
    if "\<forall>(a, w) \<in> set ws. unat w < 2 ^ 46" for ws :: "(string \<times> u128) list"
    using that by (induction ws) auto
  with assms have "sum_list (map (unat \<circ> snd) ws) \<le> length ws * 2 ^ 46" by (simp add: weights_ok_def)
  also have "\<dots> < 2 ^ 128" using assms by (simp add: weights_ok_def)
  finally show ?thesis using unat_sum_list_exact [of "map snd ws"] by simp
qed

lemma unat_reward_share:
  assumes "unat budget < 2 ^ 49" "unat w < 2 ^ 46"
  shows "unat (reward_share budget tw w) = unat budget * unat w div unat tw"
proof -
  have "unat budget * unat w < 2 ^ 49 * 2 ^ 46" using assms by (intro mult_strict_mono) simp_all
  then have "unat budget * unat w < 2 ^ LENGTH(128)" by simp
  then show ?thesis by (simp add: reward_share_def checked_mul_def unat_div unat_mult_exact)
qed

lemma sum_list_filter_pos:
  "sum_list (map (unat \<circ> snd) (filter (\<lambda>(_, r). r > 0) rs)) = sum_list (map (unat \<circ> snd) (rs :: (string \<times> u128) list))"
  by (induction rs) (auto simp: word_gt_0)

lemma epoch_rewards_sum:
  assumes "weights_ok ws" "unat budget < 2 ^ 49" "0 < sum_list (map snd ws)"
  shows "sum_list (map (unat \<circ> snd) (epoch_rewards budget ws)) \<le> unat budget"
    and "unat (sum_list (map snd (epoch_rewards budget ws))) = sum_list (map (unat \<circ> snd) (epoch_rewards budget ws))"
proof -
  let ?W = "sum_list (map (unat \<circ> snd) ws)"
  have W: "0 < ?W" using assms(3) unat_total_weight [OF assms(1)] by (simp add: word_less_nat_alt)
  have "sum_list (map (unat \<circ> snd) (epoch_rewards budget ws))
      = sum_list (map (\<lambda>w. unat budget * w div ?W) (map (unat \<circ> snd) ws))"
    unfolding epoch_rewards_def Let_def sum_list_filter_pos
    using assms(1) unat_reward_share [OF assms(2)]
    by (auto simp: unat_total_weight [OF assms(1)] weights_ok_def comp_def case_prod_beta
        intro!: arg_cong [where f = sum_list])
  also have "\<dots> \<le> unat budget * ?W div ?W" by (rule sum_floor_shares [OF W])
  also have "\<dots> = unat budget" using W by simp
  finally show le: "sum_list (map (unat \<circ> snd) (epoch_rewards budget ws)) \<le> unat budget" .
  show "unat (sum_list (map snd (epoch_rewards budget ws))) = sum_list (map (unat \<circ> snd) (epoch_rewards budget ws))"
    using unat_sum_list_exact [of "map snd (epoch_rewards budget ws)"]
      le_less_trans [OF le unat_less_exp] by simp
qed

lemma weights_ok_eligible: "length (rp_validators p) < 2 ^ 64 \<Longrightarrow> weights_ok (eligible_weights p)"
proof -
  assume len: "length (rp_validators p) < 2 ^ 64"
  have "length (eligible_weights p) \<le> length (rp_validators p)"
    unfolding eligible_weights_def by (metis (no_types, lifting) length_filter_le length_map order_trans)
  moreover have "unat w < 2 ^ 46" if "(a, w) \<in> set (eligible_weights p)" for a w
    using that unat_weight_bound by (auto simp: eligible_weights_def simp del: One_nat_def)
  ultimately show ?thesis using len unfolding weights_ok_def by fastforce
qed

section \<open>The halving schedule\<close>

definition schedule :: "nat \<Rightarrow> nat" where
  "schedule e = 500000000000000 div 2 ^ (e div 48)"

lemma unat_epoch_reward_rate: "unat (epoch_reward_rate p) = schedule (unat (rp_current_epoch p))"
proof -
  let ?h = "rp_current_epoch p div REWARD_HALVING_INTERVAL_EPOCHS"
  have h: "unat ?h = unat (rp_current_epoch p) div 48"
    by (simp add: unat_div REWARD_HALVING_INTERVAL_EPOCHS_def)
  have r: "unat REWARD_RATE_INITIAL_CIL = 500000000000000"
    by (simp add: REWARD_RATE_INITIAL_CIL_def CIL_PER_LOS_def)
  show ?thesis
  proof (cases "128 \<le> ?h")
    case True
    then have "128 \<le> unat ?h" by (simp add: word_le_nat_alt)
    then have "(2 :: nat) ^ 128 \<le> 2 ^ unat ?h" by (intro power_increasing) simp_all
    then have "500000000000000 < (2 :: nat) ^ unat ?h" by simp
    then have "schedule (unat (rp_current_epoch p)) = 0" unfolding schedule_def h [symmetric] by simp
    with True show ?thesis by (simp add: epoch_reward_rate_def)
  next
    case False
    have "unat (drop_bit (unat ?h) REWARD_RATE_INITIAL_CIL) = 500000000000000 div 2 ^ unat ?h"
      unfolding unat_drop_bit_eq r by (rule drop_bit_eq_div)
    with False show ?thesis by (simp add: epoch_reward_rate_def Let_def schedule_def h)
  qed
qed

lemma schedule_le: "schedule e \<le> 500000000000000"
  by (simp add: schedule_def)

lemma halving_sum: "(\<Sum>h < k. R div 2 ^ h) + 2 * (R div 2 ^ k) \<le> 2 * (R :: nat)"
proof (induction k)
  case (Suc k)
  have "R div 2 ^ Suc k = R div 2 ^ k div 2" 
    by (simp only: div_mult2_eq [symmetric] power_Suc mult.commute)
  then have "2 * (R div 2 ^ Suc k) \<le> R div 2 ^ k" by simp
  with Suc show ?case by simp
qed simp

lemma schedule_block: "(\<Sum>e < 48 * k. schedule e) = 48 * (\<Sum>h < k. 500000000000000 div 2 ^ h)"
proof (induction k)
  case (Suc k)
  have "(\<Sum>e < 48 * Suc k. schedule e) = (\<Sum>e < 48 * k. schedule e) + (\<Sum>e \<in> {48 * k..<48 * k + 48}. schedule e)"
    by (simp add: lessThan_atLeast0 sum.atLeastLessThan_concat add.commute)
  also have "(\<Sum>e \<in> {48 * k..<48 * k + 48}. schedule e) = (\<Sum>e \<in> {48 * k..<48 * k + 48}. 500000000000000 div 2 ^ k)"
  proof (rule sum.cong [OF refl])
    fix e assume "e \<in> {48 * k..<48 * k + 48}"
    then have "e div 48 = k" by (intro div_nat_eqI) auto
    then show "schedule e = 500000000000000 div 2 ^ k" by (simp add: schedule_def)
  qed
  finally show ?case using Suc by (simp add: distrib_left)
qed simp

lemma schedule_total: "(\<Sum>e < n. schedule e) \<le> 48000000000000000"
proof -
  have "(\<Sum>e < n. schedule e) \<le> (\<Sum>e < 48 * n. schedule e)" by (rule sum_mono2) auto
  also have "\<dots> = 48 * (\<Sum>h < n. 500000000000000 div 2 ^ h)" by (rule schedule_block)
  also have "\<dots> \<le> 48 * (2 * 500000000000000)" using halving_sum [of 500000000000000 n] by linarith
  finally show ?thesis by simp
qed

section \<open>One distribution\<close>

abbreviation paid :: "(string \<times> u128) list \<Rightarrow> nat" where
  "paid rewards \<equiv> sum_list (map (unat \<circ> snd) rewards)"

abbreviation budget_of :: "reward_pool \<Rightarrow> u128" where
  "budget_of p \<equiv> min (epoch_reward_rate p) (rp_remaining_cil p)"

lemma unat_budget:
  "unat (budget_of p) = min (schedule (unat (rp_current_epoch p))) (unat (rp_remaining_cil p))"
  by (auto simp: min_def word_le_nat_alt unat_epoch_reward_rate)

lemma budget_small: "unat (budget_of p) < 2 ^ 49"
proof -
  have "unat (budget_of p) \<le> schedule (unat (rp_current_epoch p))"
    unfolding unat_budget by (rule min.cobounded1)
  also have "\<dots> \<le> 500000000000000" by (rule schedule_le)
  finally show ?thesis by simp
qed

lemma distribute_cases:
  assumes "distribute_epoch_rewards p = (rewards, p')"
  obtains (none) "rewards = []" "p' = advance_epoch p"
    | (some) "rewards = epoch_rewards (budget_of p) (eligible_weights p)"
        "0 < sum_list (map snd (eligible_weights p))"
        "p' = advance_epoch
           (p\<lparr>rp_remaining_cil := saturating_sub (rp_remaining_cil p) (sum_list (map snd rewards)),
              rp_total_distributed_cil := rp_total_distributed_cil p + sum_list (map snd rewards),
              rp_validators := credit_rewards rewards (rp_validators p)\<rparr>)"
  using assms by (auto simp: distribute_epoch_rewards_def Let_def word_gt_0 split: if_splits)

lemma advance_epoch_fields [simp]:
  "rp_remaining_cil (advance_epoch p) = rp_remaining_cil p"
  "rp_total_distributed_cil (advance_epoch p) = rp_total_distributed_cil p"
  "rp_current_epoch (advance_epoch p) = rp_current_epoch p + 1"
  by (simp_all add: advance_epoch_def Let_def)

text \<open>What one distribution pays.\<close>

lemma distribute_paid:
  assumes "distribute_epoch_rewards p = (rewards, p')" "length (rp_validators p) < 2 ^ 64"
  shows "paid rewards \<le> min (schedule (unat (rp_current_epoch p))) (unat (rp_remaining_cil p))"
    and "unat (rp_remaining_cil p') + paid rewards = unat (rp_remaining_cil p)"
    and "rp_total_distributed_cil p' = rp_total_distributed_cil p + sum_list (map snd rewards)"
    and "unat (sum_list (map snd rewards)) = paid rewards"
    and "rp_current_epoch p' = rp_current_epoch p + 1"
proof -
  have "paid rewards \<le> unat (budget_of p) \<and> unat (sum_list (map snd rewards)) = paid rewards
    \<and> unat (rp_remaining_cil p') + paid rewards = unat (rp_remaining_cil p)
    \<and> rp_total_distributed_cil p' = rp_total_distributed_cil p + sum_list (map snd rewards)
    \<and> rp_current_epoch p' = rp_current_epoch p + 1"
    using assms(1)
  proof (cases rule: distribute_cases)
    case some
    note s = epoch_rewards_sum [OF weights_ok_eligible [OF assms(2)] budget_small [of p] some(2), folded some(1)]
    have "paid rewards \<le> unat (rp_remaining_cil p)" using s(1) unfolding unat_budget by simp
    with s show ?thesis by (simp add: some(3) unat_saturating_sub)
  qed simp
  then show "paid rewards \<le> min (schedule (unat (rp_current_epoch p))) (unat (rp_remaining_cil p))"
    "unat (rp_remaining_cil p') + paid rewards = unat (rp_remaining_cil p)"
    "rp_total_distributed_cil p' = rp_total_distributed_cil p + sum_list (map snd rewards)"
    "unat (sum_list (map snd rewards)) = paid rewards"
    "rp_current_epoch p' = rp_current_epoch p + 1"
    unfolding unat_budget by blast+
qed

text \<open>C11: an epoch pays at most its scheduled rate and at most what the pool holds; the pool
  falls by exactly what is paid; and every payment goes to a registered validator that is past
  probation, has the uptime and the stake, and is the exact floor of its share by square-root
  weight.\<close>

theorem epoch_distribution_exact:
  assumes "distribute_epoch_rewards p = (rewards, p')"
    and "bt_ok (rp_validators p)" "length (rp_validators p) < 2 ^ 64"
  shows "paid rewards \<le> min (500000000000000 div 2 ^ (unat (rp_current_epoch p) div 48))
                            (unat (rp_remaining_cil p))
    \<and> unat (rp_remaining_cil p') + paid rewards = unat (rp_remaining_cil p)
    \<and> (\<forall>(a, r) \<in> set rewards. \<exists>v. bt_get (rp_validators p) a = Some v
          \<and> is_eligible (rp_current_epoch p) v
          \<and> unat r = unat (budget_of p) * unat (sqrt_stake_weight v)
                     div sum_list (map (unat \<circ> snd) (eligible_weights p)))"
proof -
  have share: "\<exists>v. bt_get (rp_validators p) a = Some v \<and> is_eligible (rp_current_epoch p) v
      \<and> unat r = unat (budget_of p) * unat (sqrt_stake_weight v) div sum_list (map (unat \<circ> snd) (eligible_weights p))"
    if "(a, r) \<in> set rewards" for a r
    using assms(1)
  proof (cases rule: distribute_cases)
    case some
    from that some(1) obtain w where w: "(a, w) \<in> set (eligible_weights p)"
      "r = reward_share (budget_of p) (sum_list (map snd (eligible_weights p))) w"
      by (auto simp: epoch_rewards_def Let_def)
    then obtain v where v: "(a, v) \<in> set (rp_validators p)" "is_eligible (rp_current_epoch p) v"
      "w = sqrt_stake_weight v"
      by (auto simp: eligible_weights_def)
    then have "unat r = unat (budget_of p) * unat (sqrt_stake_weight v)
        div sum_list (map (unat \<circ> snd) (eligible_weights p))"
      using w(2) unat_reward_share [OF budget_small unat_weight_bound]
        unat_total_weight [OF weights_ok_eligible [OF assms(3)]] by metis
    with v assms(2) show ?thesis by (auto simp: bt_entries_get)
  qed (use that in simp)
  then show ?thesis using distribute_paid [OF assms(1,3)] by (auto simp: schedule_def)
qed

section \<open>The pool over time\<close>

definition cumulative :: "reward_state \<Rightarrow> nat" where
  "cumulative s = unat (rs_cumulative_rewards_cil s)"

definition reward_inv :: "reward_pool \<Rightarrow> bool" where
  "reward_inv p \<longleftrightarrow>
     bt_ok (rp_validators p) \<and> length (rp_validators p) < 2 ^ 64
     \<and> unat (rp_remaining_cil p) + unat (rp_total_distributed_cil p) = 50000000000000000
     \<and> bt_sum cumulative (rp_validators p) \<le> unat (rp_total_distributed_cil p)"

definition schedule_inv :: "reward_pool \<Rightarrow> bool" where
  "schedule_inv p \<longleftrightarrow>
     reward_inv p
     \<and> unat (rp_total_distributed_cil p) \<le> (\<Sum>e < unat (rp_current_epoch p). schedule e)"

text \<open>The operations of a node that distributes itself, and of one that also learns of payments by
  gossip. The side conditions bound the number of validators and of epochs by a machine word and a
  gossiped amount by the pool.\<close>

inductive leader_step :: "reward_pool \<Rightarrow> reward_pool \<Rightarrow> bool" where
  register: "length (rp_validators p) + 1 < 2 ^ 64 \<Longrightarrow> leader_step p (rp_register_validator a g s p)"
| heartbeat: "leader_step p (record_heartbeat a p)"
| heartbeat_once: "record_heartbeat_once a seen p = (b, seen', p') \<Longrightarrow> leader_step p p'"
| catch_up: "catch_up_epochs now p = (k, p') \<Longrightarrow> unat (rp_current_epoch p) + unat k < 2 ^ 64 \<Longrightarrow> leader_step p p'"
| expected: "leader_step p (set_expected_heartbeats i p)"
| distribute: "distribute_epoch_rewards p = (rewards, p') \<Longrightarrow> unat (rp_current_epoch p) + 1 < 2 ^ 64 \<Longrightarrow> leader_step p p'"
| advance: "unat (rp_current_epoch p) + 1 < 2 ^ 64 \<Longrightarrow> leader_step p (advance_epoch_only p)"
| unregister: "rp_unregister_validator a p = (b, p') \<Longrightarrow> leader_step p p'"
| update_stake: "leader_step p (rp_update_stake a s p)"

inductive reward_step :: "reward_pool \<Rightarrow> reward_pool \<Rightarrow> bool" where
  own: "leader_step p p' \<Longrightarrow> reward_step p p'"
| gossip: "amount \<le> rp_remaining_cil p \<Longrightarrow> reward_step p (sync_reward_from_gossip a amount p)"

lemma unat_add_le: "unat (x + y) \<le> unat x + unat (y :: 'a::len word)"
  by (simp add: unat_word_ariths)

lemma bt_sum_modify_le:
  assumes "bt_ok m" "\<And>v. f (g v) \<le> f v + c"
  shows "bt_sum f (bt_modify k g m) \<le> bt_sum f m + c"
proof (cases "bt_get m k")
  case None
  then show ?thesis by (simp add: bt_modify_def)
next
  case (Some v)
  then show ?thesis
    using bt_sum_insert [OF assms(1), of f k "g v"] assms(2) [of v]
    by (simp add: bt_modify_def bt_share_def)
qed

lemma cumulative_credit: "cumulative (credit_reward r s) \<le> cumulative s + unat r"
  by (simp add: cumulative_def credit_reward_def unat_add_le)

lemma credit_rewards_ok:
  assumes "bt_ok vs"
  shows "bt_ok (credit_rewards rewards vs)" "length (credit_rewards rewards vs) = length vs"
    "bt_sum cumulative (credit_rewards rewards vs) \<le> bt_sum cumulative vs + paid rewards"
proof -
  have "bt_ok (credit_rewards rewards vs) \<and> length (credit_rewards rewards vs) = length vs
      \<and> bt_sum cumulative (credit_rewards rewards vs) \<le> bt_sum cumulative vs + paid rewards"
    using assms
  proof (induction rewards arbitrary: vs)
    case Nil
    then show ?case by (simp add: credit_rewards_def)
  next
    case (Cons x rewards)
    obtain a r where x: "x = (a, r)" by (cases x)
    let ?vs = "bt_modify a (credit_reward r) vs"
    have "bt_sum cumulative ?vs \<le> bt_sum cumulative vs + unat r"
      using Cons.prems by (rule bt_sum_modify_le) (rule cumulative_credit)
    moreover have "bt_ok ?vs" "length ?vs = length vs" using Cons.prems by (simp_all add: length_bt_modify)
    ultimately show ?case using Cons.IH [of ?vs] by (auto simp: x credit_rewards_def)
  qed
  then show "bt_ok (credit_rewards rewards vs)" "length (credit_rewards rewards vs) = length vs"
    "bt_sum cumulative (credit_rewards rewards vs) \<le> bt_sum cumulative vs + paid rewards" by simp_all
qed

lemma length_bt_map_values [simp]: "length (bt_map_values f m) = length m"
  by (simp add: bt_map_values_def)

lemma bt_sum_map_same: "(\<And>v. f (g v) = f v) \<Longrightarrow> bt_sum f (bt_map_values g m) = bt_sum f m"
  by (simp add: bt_sum_map_values comp_def)

text \<open>Operations that leave the money alone.\<close>

lemma reward_inv_frame:
  assumes "reward_inv p" "rp_remaining_cil p' = rp_remaining_cil p"
    "rp_total_distributed_cil p' = rp_total_distributed_cil p" "bt_ok (rp_validators p')"
    "length (rp_validators p') < 2 ^ 64"
    "bt_sum cumulative (rp_validators p') \<le> bt_sum cumulative (rp_validators p)"
  shows "reward_inv p'"
  using assms unfolding reward_inv_def by auto

lemma reward_inv_advance: "reward_inv p \<Longrightarrow> reward_inv (advance_epoch p)"
  by (rule reward_inv_frame [of p])
    (simp_all add: reward_inv_def advance_epoch_def Let_def bt_sum_map_same cumulative_def)

lemma reward_inv_register:
  assumes "reward_inv p" "length (rp_validators p) + 1 < 2 ^ 64"
  shows "reward_inv (rp_register_validator a g s p)"
proof (rule reward_inv_frame [OF assms(1)])
  have ok: "bt_ok (rp_validators p)" using assms(1) by (simp add: reward_inv_def)
  let ?v = "case bt_get (rp_validators p) a of
      Some v \<Rightarrow> v\<lparr>rs_stake_cil := s, rs_is_genesis := g\<rparr>
    | None \<Rightarrow> reward_state_new (rp_current_epoch p) g s"
  have "cumulative ?v = bt_share cumulative a (rp_validators p)"
    by (simp add: bt_share_def cumulative_def reward_state_new_def split: option.split)
  then show "bt_sum cumulative (rp_validators (rp_register_validator a g s p)) \<le> bt_sum cumulative (rp_validators p)"
    using bt_sum_insert [OF ok, of cumulative a ?v] by (simp add: rp_register_validator_def)
  show "length (rp_validators (rp_register_validator a g s p)) < 2 ^ 64"
    using assms(2) length_bt_insert [of a ?v "rp_validators p"] by (simp add: rp_register_validator_def)
qed (use assms(1) in \<open>simp_all add: rp_register_validator_def reward_inv_def\<close>)

lemma reward_inv_modify:
  assumes "reward_inv p" "\<And>s. rs_cumulative_rewards_cil (f s) = rs_cumulative_rewards_cil s"
  shows "reward_inv (p\<lparr>rp_validators := bt_modify a f (rp_validators p)\<rparr>)"
  using assms bt_sum_modify_le [of "rp_validators p" cumulative f 0 a]
  by (intro reward_inv_frame [OF assms(1)]) (auto simp: reward_inv_def length_bt_modify cumulative_def)

lemma reward_inv_map:
  assumes "reward_inv p" "\<And>s. rs_cumulative_rewards_cil (f s) = rs_cumulative_rewards_cil s"
    "rp_remaining_cil p' = rp_remaining_cil p" "rp_total_distributed_cil p' = rp_total_distributed_cil p"
    "rp_validators p' = bt_map_values f (rp_validators p)"
  shows "reward_inv p'"
  using assms by (intro reward_inv_frame [OF assms(1)])
    (auto simp: reward_inv_def bt_sum_map_same cumulative_def)

lemma reward_inv_distribute:
  assumes inv: "reward_inv p" and run: "distribute_epoch_rewards p = (rewards, p')"
  shows "reward_inv p'"
    "unat (rp_total_distributed_cil p') = unat (rp_total_distributed_cil p) + paid rewards"
proof -
  have ok: "bt_ok (rp_validators p)" and len: "length (rp_validators p) < 2 ^ 64"
    using inv by (simp_all add: reward_inv_def)
  note d = distribute_paid [OF run len]
  have "unat (rp_total_distributed_cil p) + paid rewards < 2 ^ 128"
    using d(2) inv by (simp add: reward_inv_def)
  then show total: "unat (rp_total_distributed_cil p') = unat (rp_total_distributed_cil p) + paid rewards"
    unfolding d(3) using d(4) by (subst unat_add_exact) simp_all
  note c = credit_rewards_ok [OF ok, of rewards]
  have vs: "rp_validators p' = bt_map_values
      (\<lambda>s. s\<lparr>rs_last_epoch_uptime_pct := uptime_pct s, rs_heartbeats_current_epoch := 0,
             rs_expected_heartbeats := 0\<rparr>) (credit_rewards rewards (rp_validators p))"
    using run by (cases rule: distribute_cases) (simp_all add: advance_epoch_def Let_def credit_rewards_def)
  have "bt_sum cumulative (rp_validators p') = bt_sum cumulative (credit_rewards rewards (rp_validators p))"
    unfolding vs by (rule bt_sum_map_same) (simp add: cumulative_def)
  then show "reward_inv p'"
    using c d(2) total inv len by (simp add: reward_inv_def vs)
qed

lemma catch_up_cases:
  assumes "catch_up_epochs now p = (k, p')"
  obtains (same) "k = 0" "p' = p"
    | (skip) "rp_remaining_cil p' = rp_remaining_cil p"
        "rp_total_distributed_cil p' = rp_total_distributed_cil p"
        "rp_current_epoch p' = rp_current_epoch p + k"
        "rp_validators p' = bt_map_values
           (\<lambda>s. s\<lparr>rs_heartbeats_current_epoch := 0, rs_expected_heartbeats := 0\<rparr>) (rp_validators p)"
  using assms by (auto simp: catch_up_epochs_def Let_def split: if_splits)

lemma reward_inv_heartbeat: "reward_inv p \<Longrightarrow> reward_inv (record_heartbeat a p)"
  unfolding record_heartbeat_def by (rule reward_inv_modify) (simp_all add: beat_def)

lemma leader_step_inv:
  assumes inv: "reward_inv p" and "leader_step p p'"
  shows "reward_inv p'"
  using assms(2)
proof cases
  case (register a g s)
  then show ?thesis using inv reward_inv_register by simp
next
  case (heartbeat a)
  then show ?thesis using inv reward_inv_heartbeat by simp
next
  case (heartbeat_once a seen b seen')
  then show ?thesis using inv
    by (auto simp: record_heartbeat_once_def reward_inv_heartbeat split: if_splits)
next
  case (catch_up now k)
  from catch_up(1) show ?thesis
  proof (cases rule: catch_up_cases)
    case skip
    show ?thesis by (rule reward_inv_map [OF inv _ skip(1,2,4)]) simp
  qed (use inv in simp)
next
  case (expected i)
  show ?thesis
    by (rule reward_inv_map [OF inv, of "expect_heartbeats (if i > 0 then rp_epoch_duration_secs p div i else 0)"])
      (simp_all add: expected set_expected_heartbeats_def expect_heartbeats_def Let_def)
next
  case (distribute rewards)
  then show ?thesis using inv reward_inv_distribute(1) by blast
next
  case advance
  then show ?thesis using inv by (simp add: advance_epoch_only_def reward_inv_advance)
next
  case (unregister a b)
  have "bt_sum cumulative (bt_remove a (rp_validators p)) \<le> bt_sum cumulative (rp_validators p)"
    using inv bt_sum_remove [of "rp_validators p" cumulative a] by (simp add: reward_inv_def)
  moreover have "length (bt_remove a (rp_validators p)) \<le> length (rp_validators p)"
    by (simp add: bt_remove_def)
  ultimately show ?thesis using inv unregister by (auto simp: rp_unregister_validator_def reward_inv_def)
next
  case (update_stake a s)
  show ?thesis unfolding update_stake rp_update_stake_def by (rule reward_inv_modify) (use inv in simp_all)
qed

lemma reward_inv_gossip:
  assumes inv: "reward_inv p" and "amount \<le> rp_remaining_cil p"
  shows "reward_inv (sync_reward_from_gossip a amount p)"
proof -
  have am: "unat amount \<le> unat (rp_remaining_cil p)" using assms(2) by (simp add: word_le_nat_alt)
  have "unat (rp_total_distributed_cil p + amount) = unat (rp_total_distributed_cil p) + unat amount"
    using inv am by (subst unat_add_exact) (simp_all add: reward_inv_def)
  moreover have "bt_sum cumulative (bt_modify a (credit_reward amount) (rp_validators p))
      \<le> bt_sum cumulative (rp_validators p) + unat amount"
    using inv by (intro bt_sum_modify_le) (simp_all add: reward_inv_def cumulative_credit)
  ultimately show ?thesis
    using inv am by (auto simp: reward_inv_def sync_reward_from_gossip_def unat_saturating_sub length_bt_modify)
qed

lemma reward_step_inv: "reward_inv p \<Longrightarrow> reward_step p p' \<Longrightarrow> reward_inv p'"
  by (erule reward_step.cases) (auto intro: leader_step_inv reward_inv_gossip)

interpretation reward_sys: invariant_system reward_step reward_inv
  by unfold_locales (rule reward_step_inv)

lemma unat_pool: "unat VALIDATOR_REWARD_POOL_CIL = 50000000000000000"
  by (simp add: VALIDATOR_REWARD_POOL_CIL_def CIL_PER_LOS_def)

lemma reward_inv_new: "reward_inv (reward_pool_new env ts)"
  by (simp add: reward_inv_def reward_pool_new_def unat_pool)

lemma leader_step_schedule:
  assumes inv: "schedule_inv p" and step: "leader_step p p'"
  shows "schedule_inv p'"
proof -
  have r: "reward_inv p" using inv by (simp add: schedule_inv_def)
  have frame: ?thesis if "rp_total_distributed_cil p' = rp_total_distributed_cil p"
    "unat (rp_current_epoch p) \<le> unat (rp_current_epoch p')"
  proof -
    have "(\<Sum>e < unat (rp_current_epoch p). schedule e) \<le> (\<Sum>e < unat (rp_current_epoch p'). schedule e)"
      by (rule sum_mono2) (use that(2) in auto)
    then show ?thesis using inv that(1) leader_step_inv [OF r step] by (simp add: schedule_inv_def)
  qed
  from step show ?thesis
  proof cases
    case (heartbeat_once a seen b seen')
    then show ?thesis
      by (intro frame) (auto simp: record_heartbeat_once_def record_heartbeat_def split: if_splits)
  next
    case (catch_up now k)
    from catch_up(1) show ?thesis
    proof (cases rule: catch_up_cases)
      case skip
      then show ?thesis using catch_up(2) by (intro frame) (simp_all add: unat_add_exact)
    qed (use frame in simp)
  next
    case (distribute rewards)
    note d = distribute_paid [OF distribute(1)] and t = reward_inv_distribute [OF r distribute(1)]
    have e: "unat (rp_current_epoch p') = unat (rp_current_epoch p) + 1"
      using d(5) r distribute(2) by (simp add: reward_inv_def unat_add_exact)
    have "paid rewards \<le> schedule (unat (rp_current_epoch p))" using d(1) r by (simp add: reward_inv_def)
    then show ?thesis using inv t by (simp add: schedule_inv_def e)
  next
    case advance
    then show ?thesis by (intro frame) (simp_all add: advance_epoch_only_def unat_add_exact)
  next
    case (unregister a b)
    then show ?thesis by (intro frame) (auto simp: rp_unregister_validator_def)
  qed (rule frame; simp add: rp_register_validator_def record_heartbeat_def
      set_expected_heartbeats_def rp_update_stake_def Let_def)+
qed

interpretation schedule_sys: invariant_system leader_step schedule_inv
  by unfold_locales (rule leader_step_schedule)

lemma schedule_inv_new: "schedule_inv (reward_pool_new env ts)"
  using reward_inv_new [of env ts] by (simp add: schedule_inv_def reward_pool_new_def)


text \<open>The halving schedule bounds the payout for all time. A node that distributes by itself
  never pays more than 480,000 LOS in total, so 20,000 LOS of the pool are never paid out.\<close>

theorem halving_never_exhausts_pool:
  assumes "leader_step\<^sup>*\<^sup>* (reward_pool_new env ts) p"
  shows "unat (rp_total_distributed_cil p) \<le> 480000 * unat CIL_PER_LOS
    \<and> 20000 * unat CIL_PER_LOS \<le> unat (rp_remaining_cil p)"
proof -
  have "schedule_inv p" using schedule_sys.reach_inv [OF assms schedule_inv_new] .
  then have "unat (rp_total_distributed_cil p) \<le> 48000000000000000"
    "unat (rp_remaining_cil p) + unat (rp_total_distributed_cil p) = 50000000000000000"
    using schedule_total [of "unat (rp_current_epoch p)"] by (simp_all add: schedule_inv_def reward_inv_def)
  then show ?thesis by (simp add: CIL_PER_LOS_def)
qed

section \<open>An example pool\<close>

text \<open>A validator with 10,000 LOS that answered every heartbeat of the epoch after its probation.\<close>

definition demo_validator :: reward_state where
  "demo_validator = \<lparr>rs_join_epoch = 0, rs_heartbeats_current_epoch = 10, rs_expected_heartbeats = 10,
     rs_cumulative_rewards_cil = 0, rs_is_genesis = False, rs_stake_cil = 1000000000000000,
     rs_last_epoch_uptime_pct = 100\<rparr>"

definition demo_pool :: reward_pool where
  "demo_pool = (reward_pool_new (plain_env True) 0)\<lparr>rp_current_epoch := 1,
     rp_validators := [(''v'', demo_validator)]\<rparr>"

theorem epoch_distribution_exact_witness:
  "paid (fst (distribute_epoch_rewards demo_pool)) \<le> 500000000000000
   \<and> unat (rp_remaining_cil (snd (distribute_epoch_rewards demo_pool)))
     + paid (fst (distribute_epoch_rewards demo_pool)) = 50000000000000000"
  using epoch_distribution_exact [of demo_pool, OF prod.collapse [symmetric]]
  by (simp add: demo_pool_def reward_pool_new_def unat_pool bt_ok_def)


theorem halving_never_exhausts_pool_witness:
  "20000 * unat CIL_PER_LOS
   \<le> unat (rp_remaining_cil (snd (distribute_epoch_rewards (reward_pool_new (plain_env True) 0))))"
proof -
  let ?p = "reward_pool_new (plain_env True) 0"
  have "leader_step ?p (snd (distribute_epoch_rewards ?p))"
    by (rule leader_step.distribute [OF prod.collapse [symmetric]]) (simp add: reward_pool_new_def)
  then have "leader_step\<^sup>*\<^sup>* ?p (snd (distribute_epoch_rewards ?p))" by blast
  from halving_never_exhausts_pool [OF this] show ?thesis by simp
qed

end
