(* ===== verification/AntiWhale.thy ===== *)
theory AntiWhale
  imports BTree_Map Isqrt Step_Systems "HOL-Library.Multiset"
begin

text \<open>
  The anti-whale engine (\<open>los-core/src/anti_whale.rs\<close>): activity counters per address in windows of
  sixty seconds, exponential fee scaling, burn limits, square-root voting power and concentration
  statistics. The system clock is the argument \<open>now\<close>. Shown here: the fee a wallet is quoted is the
  fee it is charged, the fee grows exponentially with the transactions of a window, and how far the
  burn limit holds under wrap-around.
\<close>

record anti_whale_config =
  wc_max_tx_per_block :: u32
  wc_fee_scale_multiplier :: u64
  wc_max_burn_per_block :: u64

record address_activity =
  aa_tx_count :: u32
  aa_total_burned :: u64
  aa_last_block :: u64
  aa_fee_multiplier :: u64
  aa_window_start :: u64

record anti_whale =
  we_config :: anti_whale_config
  we_activity :: "(string, address_activity) btree_map"
  we_current_block :: u64

definition anti_whale_config_new :: anti_whale_config where
  "anti_whale_config_new =
     \<lparr>wc_max_tx_per_block = 5, wc_fee_scale_multiplier = 2, wc_max_burn_per_block = 1000\<rparr>"

definition anti_whale_new :: "anti_whale_config \<Rightarrow> anti_whale" where
  "anti_whale_new config = \<lparr>we_config = config, we_activity = [], we_current_block = 0\<rparr>"

definition ACTIVITY_WINDOW_SECS :: u64 where "ACTIVITY_WINDOW_SECS = 60"

definition window_over :: "u64 \<Rightarrow> address_activity \<Rightarrow> bool" where
  "window_over now a = (saturating_sub now (aa_window_start a) \<ge> ACTIVITY_WINDOW_SECS)"

definition maybe_reset_activity :: "u64 \<Rightarrow> address_activity \<Rightarrow> address_activity" where
  "maybe_reset_activity now a =
     (if window_over now a
      then a\<lparr>aa_tx_count := 0, aa_total_burned := 0, aa_fee_multiplier := 1, aa_window_start := now\<rparr>
      else a)"

definition aw_new_block :: "u64 \<Rightarrow> u64 \<Rightarrow> anti_whale \<Rightarrow> anti_whale" where
  "aw_new_block now block_number w =
     w\<lparr>we_current_block := block_number,
       we_activity := bt_map_values
         (\<lambda>a. if aa_last_block a < block_number
              then a\<lparr>aa_tx_count := 0, aa_total_burned := 0, aa_fee_multiplier := 1,
                     aa_last_block := block_number, aa_window_start := now\<rparr>
              else a) (we_activity w)\<rparr>"

definition scaled_multiplier :: "anti_whale_config \<Rightarrow> address_activity \<Rightarrow> u64" where
  "scaled_multiplier c a =
     (let excess = aa_tx_count a - wc_max_tx_per_block c
      in saturating_pow (wc_fee_scale_multiplier c) (excess + 1))"

definition aw_estimate_fee :: "u64 \<Rightarrow> anti_whale \<Rightarrow> string \<Rightarrow> u64 \<Rightarrow> u64" where
  "aw_estimate_fee now w address base_fee =
     (let multiplier =
        (case bt_get (we_activity w) address of
           Some a \<Rightarrow>
             if window_over now a then 1
             else if aa_tx_count a \<ge> wc_max_tx_per_block (we_config w)
             then scaled_multiplier (we_config w) a
             else 1
         | None \<Rightarrow> 1)
      in saturating_mul base_fee multiplier)"

definition activity_entry :: "u64 \<Rightarrow> anti_whale \<Rightarrow> string \<Rightarrow> address_activity" where
  "activity_entry now w address =
     (case bt_get (we_activity w) address of
        Some a \<Rightarrow> a
      | None \<Rightarrow> \<lparr>aa_tx_count = 0, aa_total_burned = 0, aa_last_block = we_current_block w,
                 aa_fee_multiplier = 1, aa_window_start = now\<rparr>)"

definition set_activity :: "string \<Rightarrow> address_activity \<Rightarrow> anti_whale \<Rightarrow> anti_whale" where
  "set_activity address a w = w\<lparr>we_activity := bt_insert address a (we_activity w)\<rparr>"

datatype anti_whale_error = BurnLimitExceeded u64 u64 u64

definition aw_register_transaction ::
    "u64 \<Rightarrow> string \<Rightarrow> u64 \<Rightarrow> anti_whale \<Rightarrow> (u64, anti_whale_error) result \<times> anti_whale" where
  "aw_register_transaction now address base_fee w =
     (let a1 = maybe_reset_activity now (activity_entry now w address);
          a2 = (if aa_tx_count a1 \<ge> wc_max_tx_per_block (we_config w)
                then a1\<lparr>aa_fee_multiplier := scaled_multiplier (we_config w) a1\<rparr> else a1);
          a3 = a2\<lparr>aa_tx_count := aa_tx_count a2 + 1\<rparr>;
          final_fee = saturating_mul base_fee (aa_fee_multiplier a3)
      in (Ok final_fee, set_activity address a3 w))"

definition aw_register_burn ::
    "u64 \<Rightarrow> string \<Rightarrow> u64 \<Rightarrow> anti_whale \<Rightarrow> (unit, anti_whale_error) result \<times> anti_whale" where
  "aw_register_burn now address amount w =
     (let a1 = maybe_reset_activity now (activity_entry now w address);
          limit = wc_max_burn_per_block (we_config w)
      in if aa_total_burned a1 + amount > limit
         then (Err (BurnLimitExceeded (aa_total_burned a1) amount limit), set_activity address a1 w)
         else (Ok (), set_activity address (a1\<lparr>aa_total_burned := aa_total_burned a1 + amount\<rparr>) w))"

definition isqrt_u64 :: "u64 \<Rightarrow> u64" where
  "isqrt_u64 n = (if n = 0 then 0 else isqrt_loop n n (div_ceil n 2))"

definition aw_voting_power :: "anti_whale \<Rightarrow> u64 \<Rightarrow> u64" where
  "aw_voting_power w stake = isqrt_u64 stake"

definition aw_voting_distribution ::
    "anti_whale \<Rightarrow> (string, u64) btree_map \<Rightarrow> (string, u64) btree_map" where
  "aw_voting_distribution w validators =
     (let distribution = fold (\<lambda>(a, stake) m. bt_insert a (aw_voting_power w stake) m) validators [];
          total_power = sum_list (map (\<lambda>(_, stake). aw_voting_power w stake) validators)
      in if total_power > 0
         then bt_map_values (\<lambda>power. ucast ((ucast power * 10000 :: u128) div ucast total_power)) distribution
         else distribution)"

definition is_whale :: "u64 \<Rightarrow> u64 \<Rightarrow> bool" where
  "is_whale stake total_supply = (stake > total_supply div 100)"

definition aw_get_fee_multiplier :: "anti_whale \<Rightarrow> string \<Rightarrow> u64" where
  "aw_get_fee_multiplier w address =
     (case bt_get (we_activity w) address of Some a \<Rightarrow> aa_fee_multiplier a | None \<Rightarrow> 1)"

definition aw_reset_block_activity :: "u64 \<Rightarrow> anti_whale \<Rightarrow> anti_whale" where
  "aw_reset_block_activity now w =
     w\<lparr>we_activity := bt_map_values
         (\<lambda>a. a\<lparr>aa_tx_count := 0, aa_total_burned := 0, aa_fee_multiplier := 1, aa_window_start := now\<rparr>)
         (we_activity w)\<rparr>"

record concentration_stats =
  cc_total_validators :: usize
  cc_total_stake :: u64
  cc_top_3_bps :: u64
  cc_top_10_bps :: u64
  cc_largest_stake :: u64
  cc_smallest_stake :: u64

definition concentration_default :: concentration_stats where
  "concentration_default = \<lparr>cc_total_validators = 0, cc_total_stake = 0, cc_top_3_bps = 0,
     cc_top_10_bps = 0, cc_largest_stake = 0, cc_smallest_stake = 0\<rparr>"

definition stake_bps :: "u64 \<Rightarrow> u64 \<Rightarrow> u64" where
  "stake_bps part whole = ucast ((ucast part * 10000 :: u128) div ucast whole)"

definition get_concentration_stats :: "(string, u64) btree_map \<Rightarrow> concentration_stats" where
  "get_concentration_stats validators =
     (if validators = [] then concentration_default
      else
        let stakes = rev (sort (bt_values validators));
            total_stake = sum_list stakes
        in if total_stake = 0 then concentration_default
           else \<lparr>cc_total_validators = of_nat (length stakes), cc_total_stake = total_stake,
                 cc_top_3_bps = stake_bps (sum_list (take 3 stakes)) total_stake,
                 cc_top_10_bps = stake_bps (sum_list (take 10 stakes)) total_stake,
                 cc_largest_stake = hd stakes, cc_smallest_stake = last stakes\<rparr>)"

section \<open>Fees\<close>

interpretation anti_whale_sqrt: integer_sqrt isqrt_u64
  using newton_u64.integer_sqrt_axioms unfolding isqrt_u64_def isqrt_newton_def by simp

text \<open>Below the limit the stored multiplier is one.\<close>

definition whale_inv :: "anti_whale \<Rightarrow> bool" where
  "whale_inv w \<longleftrightarrow>
     (\<forall>k a. bt_get (we_activity w) k = Some a \<longrightarrow>
        aa_tx_count a \<le> wc_max_tx_per_block (we_config w) \<longrightarrow> aa_fee_multiplier a = 1)"

text \<open>The operations, with a transaction counter that does not wrap.\<close>

inductive whale_step :: "anti_whale \<Rightarrow> anti_whale \<Rightarrow> bool" where
  new_block: "whale_step w (aw_new_block now n w)"
| transaction: "aw_register_transaction now a fee w = (r, w') \<Longrightarrow>
    unat (aa_tx_count (activity_entry now w a)) + 1 < 2 ^ 32 \<Longrightarrow> whale_step w w'"
| burn: "aw_register_burn now a amount w = (ru, w') \<Longrightarrow> whale_step w w'"
| reset: "whale_step w (aw_reset_block_activity now w)"

lemma whale_step_config: "whale_step w w' \<Longrightarrow> we_config w' = we_config w"
  by (erule whale_step.cases)
    (auto simp: aw_new_block_def aw_register_transaction_def aw_register_burn_def set_activity_def
      aw_reset_block_activity_def Let_def split: if_splits)

lemma activity_entry_inv:
  "whale_inv w \<Longrightarrow> aa_tx_count (activity_entry now w k) \<le> wc_max_tx_per_block (we_config w)
   \<Longrightarrow> aa_fee_multiplier (activity_entry now w k) = 1"
  by (auto simp: whale_inv_def activity_entry_def split: option.splits)

lemma reset_entry_inv:
  "whale_inv w \<Longrightarrow> aa_tx_count (maybe_reset_activity now (activity_entry now w k)) \<le> wc_max_tx_per_block (we_config w)
   \<Longrightarrow> aa_fee_multiplier (maybe_reset_activity now (activity_entry now w k)) = 1"
  using activity_entry_inv by (auto simp: maybe_reset_activity_def)

lemma whale_inv_set:
  "whale_inv w \<Longrightarrow> (aa_tx_count a \<le> wc_max_tx_per_block (we_config w) \<Longrightarrow> aa_fee_multiplier a = 1)
   \<Longrightarrow> whale_inv (set_activity k a w)"
  by (auto simp: whale_inv_def set_activity_def)

lemma whale_step_inv:
  assumes inv: "whale_inv w" and "whale_step w w'"
  shows "whale_inv w'"
  using assms(2)
proof cases
  case (new_block now n)
  then show ?thesis using inv by (auto simp: whale_inv_def aw_new_block_def)
next
  case (transaction now k fee r)
  let ?a = "maybe_reset_activity now (activity_entry now w k)"
  have cnt: "unat (aa_tx_count ?a) + 1 < 2 ^ 32"
    using transaction(2) by (auto simp: maybe_reset_activity_def)
  have up: "unat (aa_tx_count ?a + 1) = unat (aa_tx_count ?a) + 1"
    using cnt by (subst unat_add_exact) simp_all
  have "aa_tx_count ?a < wc_max_tx_per_block (we_config w)"
    if "aa_tx_count ?a + 1 \<le> wc_max_tx_per_block (we_config w)"
    using that up by (simp add: word_le_nat_alt word_less_nat_alt)
  then show ?thesis
    using transaction(1) inv reset_entry_inv [OF inv, of now k]
    by (auto simp: aw_register_transaction_def Let_def intro!: whale_inv_set split: if_splits)
next
  case (burn now k amount ru)
  then show ?thesis
    using inv reset_entry_inv [OF inv, of now k]
    by (auto simp: aw_register_burn_def Let_def intro!: whale_inv_set split: if_splits)
next
  case (reset now)
  then show ?thesis using inv by (auto simp: whale_inv_def aw_reset_block_activity_def)
qed

interpretation whale_sys: invariant_system whale_step whale_inv
  by unfold_locales (rule whale_step_inv)

lemma whale_inv_new: "whale_inv (anti_whale_new c)"
  by (simp add: whale_inv_def anti_whale_new_def)

text \<open>In every state the engine reaches, the fee estimated for an address is exactly the fee
  that registering a transaction at the same time charges, for any configuration that allows at
  least one transaction per block.\<close>

theorem estimated_fee_is_charged_fee:
  assumes "whale_step\<^sup>*\<^sup>* (anti_whale_new c) w" and "0 < wc_max_tx_per_block (we_config w)"
  shows "fst (aw_register_transaction now address base_fee w) = Ok (aw_estimate_fee now w address base_fee)"
proof -
  have inv: "whale_inv w" using whale_sys.reach_inv [OF assms(1) whale_inv_new] .
  have pos: "\<not> wc_max_tx_per_block (we_config w) \<le> 0" using assms(2) by simp
  show ?thesis
  proof (cases "bt_get (we_activity w) address")
    case None
    have "\<not> window_over now (activity_entry now w address)"
      using None by (simp add: window_over_def activity_entry_def saturating_sub_def ACTIVITY_WINDOW_SECS_def)
    then show ?thesis using None pos
      by (simp add: aw_register_transaction_def aw_estimate_fee_def maybe_reset_activity_def
          activity_entry_def Let_def)
  next
    case (Some a)
    then have "aa_fee_multiplier a = 1" if "\<not> wc_max_tx_per_block (we_config w) \<le> aa_tx_count a"
      using inv that by (auto simp: whale_inv_def)
    then show ?thesis using Some pos
      by (auto simp: aw_register_transaction_def aw_estimate_fee_def maybe_reset_activity_def
          activity_entry_def scaled_multiplier_def Let_def)
  qed
qed

theorem estimated_fee_is_charged_fee_witness:
  "fst (aw_register_transaction 5 ''a'' 7 (anti_whale_new anti_whale_config_new))
   = Ok (aw_estimate_fee 5 (anti_whale_new anti_whale_config_new) ''a'' 7)"
  using estimated_fee_is_charged_fee [OF rtranclp.rtrancl_refl, of anti_whale_config_new 5 "''a''" 7]
  by (simp add: anti_whale_new_def anti_whale_config_new_def)

section \<open>Burn limit\<close>

text \<open>The burn limit holds exactly as long as the sum of what was burned and the new amount
  fits 64 bits; then an accepted burn keeps the window total within the limit, and the total counts
  every burn. An amount close to the word size wraps around and is accepted whatever the limit.\<close>

theorem burn_limit_up_to_wraparound:
  assumes "aw_register_burn now k amount w = (r, w')"
  defines "a \<equiv> maybe_reset_activity now (activity_entry now w k)"
  shows "(unat (aa_total_burned a) + unat amount < 2 ^ 64 \<longrightarrow>
           (r = Ok () \<longleftrightarrow> unat (aa_total_burned a) + unat amount \<le> unat (wc_max_burn_per_block (we_config w)))
           \<and> (r = Ok () \<longrightarrow> unat (aa_total_burned (activity_entry now w' k)) = unat (aa_total_burned a) + unat amount))
    \<and> (aa_total_burned a \<noteq> 0 \<and> amount = - aa_total_burned a \<longrightarrow> r = Ok ())"
proof -
  have r: "r = (if aa_total_burned a + amount > wc_max_burn_per_block (we_config w)
      then Err (BurnLimitExceeded (aa_total_burned a) amount (wc_max_burn_per_block (we_config w))) else Ok ())"
    using assms(1) by (auto simp: aw_register_burn_def a_def Let_def split: if_splits)
  have w': "r = Ok () \<Longrightarrow> aa_total_burned (activity_entry now w' k) = aa_total_burned a + amount"
    using assms(1) by (auto simp: aw_register_burn_def a_def Let_def set_activity_def activity_entry_def
        split: if_splits)
  have "unat (aa_total_burned a + amount) = unat (aa_total_burned a) + unat amount"
    if "unat (aa_total_burned a) + unat amount < 2 ^ 64"
    using that by (subst unat_add_exact) simp_all
  then show ?thesis using r w' by (auto simp: word_less_nat_alt not_less)
qed

definition one_burn :: anti_whale where
  "one_burn = snd (aw_register_burn 5 ''a'' 1 (anti_whale_new anti_whale_config_new))"

theorem burn_limit_up_to_wraparound_witness:
  "fst (aw_register_burn 5 ''a'' (- 1) one_burn) = Ok ()
   \<and> fst (aw_register_burn 5 ''a'' 1000 one_burn) \<noteq> Ok ()"
proof -
  have "aa_total_burned (maybe_reset_activity 5 (activity_entry 5 one_burn ''a'')) = 1"
    "wc_max_burn_per_block (we_config one_burn) = 1000"
    by (simp_all add: one_burn_def aw_register_burn_def activity_entry_def maybe_reset_activity_def
        window_over_def saturating_sub_def checked_sub_def ACTIVITY_WINDOW_SECS_def anti_whale_new_def
        anti_whale_config_new_def set_activity_def Let_def)
  then show ?thesis
    using burn_limit_up_to_wraparound [of 5 "''a''" "- 1" one_burn, OF prod.collapse [symmetric]]
      burn_limit_up_to_wraparound [of 5 "''a''" 1000 one_burn, OF prod.collapse [symmetric]]
    by simp
qed

end
