(* ===== verification/Oracle.thy ===== *)
theory Oracle
  imports BTree_Map Los_Strings Step_Systems "HOL-Library.Multiset"
begin

text \<open>
  Oracle price consensus (\<open>los-core/src/oracle_consensus.rs\<close>): price submissions per validator, the
  median of the recent ones, outlier detection and clean-up. The clock is the argument \<open>now\<close>. Lines
  printed to the console are left out, except that their slice of the first twelve bytes of an
  address panics when it cuts a character. Shown here: when more than half of the recent
  submissions lie in a price range, so does the consensus price, whatever the others submit.
\<close>

record price_submission =
  ps_validator_address :: string
  ps_eth_price_micro_usd :: u128
  ps_btc_price_micro_usd :: u128
  ps_timestamp :: u64

record oracle_consensus =
  oc_submissions :: "(string, price_submission) btree_map"
  oc_submission_window_secs :: u64
  oc_min_submissions :: usize
  oc_outlier_threshold_bp :: u128

definition oracle_with_config :: "u64 \<Rightarrow> usize \<Rightarrow> u128 \<Rightarrow> oracle_consensus" where
  "oracle_with_config submission_window_secs min_submissions outlier_threshold_bp =
     \<lparr>oc_submissions = [], oc_submission_window_secs = submission_window_secs,
      oc_min_submissions = min_submissions, oc_outlier_threshold_bp = outlier_threshold_bp\<rparr>"

definition oracle_new :: oracle_consensus where
  "oracle_new = \<lparr>oc_submissions = [], oc_submission_window_secs = 60, oc_min_submissions = 2,
                 oc_outlier_threshold_bp = 2000\<rparr>"

text \<open>\<open>&address[..min(12, address.len())]\<close>\<close>

definition short_address :: "string \<Rightarrow> string option" where
  "short_address a = str_slice_to a (min 12 (length a))"

definition submit_price ::
    "u64 \<Rightarrow> string \<Rightarrow> u128 \<Rightarrow> u128 \<Rightarrow> oracle_consensus \<Rightarrow> (unit, unit) result \<times> oracle_consensus" where
  "submit_price now validator_address eth btc oc =
     (if eth = 0 \<or> btc = 0
      then (case short_address validator_address of None \<Rightarrow> (Panic, oc) | Some _ \<Rightarrow> (Ok (), oc))
      else
        let submission = \<lparr>ps_validator_address = validator_address, ps_eth_price_micro_usd = eth,
                          ps_btc_price_micro_usd = btc, ps_timestamp = now\<rparr>;
            oc' = oc\<lparr>oc_submissions := bt_insert validator_address submission (oc_submissions oc)\<rparr>
        in case short_address validator_address of None \<Rightarrow> (Panic, oc') | Some _ \<Rightarrow> (Ok (), oc'))"

definition is_recent :: "u64 \<Rightarrow> oracle_consensus \<Rightarrow> price_submission \<Rightarrow> bool" where
  "is_recent now oc s = (now - ps_timestamp s < oc_submission_window_secs oc)"

definition get_recent_submissions :: "u64 \<Rightarrow> oracle_consensus \<Rightarrow> price_submission list" where
  "get_recent_submissions now oc = filter (is_recent now oc) (bt_values (oc_submissions oc))"

definition calculate_median :: "u128 list \<Rightarrow> u128" where
  "calculate_median sorted_values =
     (let len = length sorted_values in
      if len = 0 then 0
      else if len mod 2 = 1 then sorted_values ! (len div 2)
      else (sorted_values ! (len div 2 - 1) + sorted_values ! (len div 2)) div 2)"

definition get_consensus_price :: "u64 \<Rightarrow> oracle_consensus \<Rightarrow> (u128 \<times> u128) option" where
  "get_consensus_price now oc =
     (let recent = get_recent_submissions now oc in
      if of_nat (length recent) < oc_min_submissions oc then None
      else
        let eth_prices = filter (\<lambda>p. p > 0) (map ps_eth_price_micro_usd recent);
            btc_prices = filter (\<lambda>p. p > 0) (map ps_btc_price_micro_usd recent)
        in if of_nat (length eth_prices) < oc_min_submissions oc
              \<or> of_nat (length btc_prices) < oc_min_submissions oc
           then None
           else Some (calculate_median (sort eth_prices), calculate_median (sort btc_prices)))"

definition deviation_bp :: "u128 \<Rightarrow> u128 \<Rightarrow> u128" where
  "deviation_bp price median = saturating_mul (abs_diff price median) 10000 div median"

definition is_outlier :: "oracle_consensus \<Rightarrow> u128 \<Rightarrow> u128 \<Rightarrow> price_submission \<Rightarrow> bool" where
  "is_outlier oc median_eth median_btc s =
     (deviation_bp (ps_eth_price_micro_usd s) median_eth > oc_outlier_threshold_bp oc
      \<or> deviation_bp (ps_btc_price_micro_usd s) median_btc > oc_outlier_threshold_bp oc)"

fun collect_outliers ::
    "u64 \<Rightarrow> oracle_consensus \<Rightarrow> u128 \<Rightarrow> u128 \<Rightarrow> (string, price_submission) btree_map
     \<Rightarrow> (string list, unit) result" where
  "collect_outliers now oc me mb [] = Ok []"
| "collect_outliers now oc me mb ((validator, s) # rest) =
     (if \<not> is_recent now oc s then collect_outliers now oc me mb rest
      else if is_outlier oc me mb s
      then (case short_address validator of
              None \<Rightarrow> Panic
            | Some _ \<Rightarrow>
                (case collect_outliers now oc me mb rest of
                   Ok vs \<Rightarrow> Ok (validator # vs) | Err e \<Rightarrow> Err e | Panic \<Rightarrow> Panic))
      else collect_outliers now oc me mb rest)"

definition detect_outliers :: "u64 \<Rightarrow> oracle_consensus \<Rightarrow> (string list, unit) result" where
  "detect_outliers now oc =
     (case get_consensus_price now oc of
        None \<Rightarrow> Ok []
      | Some (median_eth, median_btc) \<Rightarrow>
          if median_eth = 0 \<or> median_btc = 0 then Ok []
          else collect_outliers now oc median_eth median_btc (oc_submissions oc))"

definition cleanup_old :: "u64 \<Rightarrow> oracle_consensus \<Rightarrow> oracle_consensus" where
  "cleanup_old now oc =
     (let cutoff = now - oc_submission_window_secs oc * 2
      in oc\<lparr>oc_submissions := filter (\<lambda>(_, s). ps_timestamp s > cutoff) (oc_submissions oc)\<rparr>)"

definition submission_count :: "u64 \<Rightarrow> oracle_consensus \<Rightarrow> usize" where
  "submission_count now oc = of_nat (length (get_recent_submissions now oc))"

section \<open>The median\<close>

lemma sorted_nth_ge:
  fixes xs :: "'a::linorder list"
  assumes "sorted xs" "i < length xs" "length (filter (\<lambda>x. x < lo) xs) \<le> i"
  shows "lo \<le> xs ! i"
proof (rule ccontr)
  assume "\<not> lo \<le> xs ! i"
  then have "\<forall>x \<in> set (take (Suc i) xs). x < lo"
    using assms(1,2) by (auto simp: in_set_conv_nth less_Suc_eq_le)
      (meson le_less_trans linorder_not_less sorted_nth_mono)
  then have "filter (\<lambda>x. x < lo) (take (Suc i) xs) = take (Suc i) xs" by (simp add: filter_id_conv)
  moreover have "length (filter (\<lambda>x. x < lo) xs)
      = length (filter (\<lambda>x. x < lo) (take (Suc i) xs)) + length (filter (\<lambda>x. x < lo) (drop (Suc i) xs))"
    by (metis append_take_drop_id filter_append length_append)
  ultimately have "Suc i \<le> length (filter (\<lambda>x. x < lo) xs)" using assms(2) by simp
  with assms(3) show False by simp
qed

lemma sorted_nth_le:
  fixes xs :: "'a::linorder list"
  assumes "sorted xs" "i < length xs" "length (filter (\<lambda>x. hi < x) xs) < length xs - i"
  shows "xs ! i \<le> hi"
proof (rule ccontr)
  assume "\<not> xs ! i \<le> hi"
  then have "\<forall>x \<in> set (drop i xs). hi < x"
    using assms(1,2) by (auto simp: in_set_conv_nth)
      (metis le_add1 less_diff_conv add.commute less_le_trans linorder_not_less sorted_nth_mono)
  then have "filter (\<lambda>x. hi < x) (drop i xs) = drop i xs" by (simp add: filter_id_conv)
  moreover have "length (filter (\<lambda>x. hi < x) xs)
      = length (filter (\<lambda>x. hi < x) (take i xs)) + length (filter (\<lambda>x. hi < x) (drop i xs))"
    by (metis append_take_drop_id filter_append length_append)
  ultimately have "length xs - i \<le> length (filter (\<lambda>x. hi < x) xs)" by simp
  with assms(3) show False by simp
qed

lemma filter_partition_length:
  fixes xs :: "'a::linorder list"
  shows "length (filter (\<lambda>x. x < lo) xs) + length (filter (\<lambda>x. lo \<le> x \<and> x \<le> hi) xs) \<le> length xs"
    and "length (filter (\<lambda>x. hi < x) xs) + length (filter (\<lambda>x. lo \<le> x \<and> x \<le> hi) xs) \<le> length xs"
  by (induction xs) auto

lemma length_filter_sort: "length (filter P (sort xs)) = length (filter P xs)"
  by (metis filter_sort length_sort)

lemma median_in_range:
  fixes xs :: "u128 list"
  assumes major: "length xs < 2 * length (filter (\<lambda>x. lo \<le> x \<and> x \<le> hi) xs)" and hi: "unat hi < 2 ^ 127"
  shows "lo \<le> calculate_median (sort xs) \<and> calculate_median (sort xs) \<le> hi"
proof -
  let ?s = "sort xs" and ?n = "length xs"
  have n: "0 < ?n" using major by (cases xs) auto
  note parts = filter_partition_length [of lo xs hi] filter_partition_length(2) [of hi xs lo]
  have mid: "lo \<le> ?s ! i \<and> ?s ! i \<le> hi" if "i < ?n" "?n \<le> 2 * i + 2" "2 * i \<le> ?n" for i
    using sorted_nth_ge [of ?s i lo] sorted_nth_le [of ?s i hi] that major parts
    by (simp add: length_filter_sort)
  show ?thesis
  proof (cases "?n mod 2 = 1")
    case True
    then show ?thesis using mid [of "?n div 2"] n by (simp add: calculate_median_def Let_def)
  next
    case False
    then have even: "?n = 2 * (?n div 2)" by presburger
    let ?a = "?s ! (?n div 2 - 1)" and ?b = "?s ! (?n div 2)"
    have ab: "lo \<le> ?a" "?a \<le> hi" "lo \<le> ?b" "?b \<le> hi"
      using mid [of "?n div 2 - 1"] mid [of "?n div 2"] even n by auto
    have "unat (?a + ?b) = unat ?a + unat ?b"
      using ab hi by (subst unat_add_exact) (simp_all add: word_le_nat_alt)
    then have "unat ((?a + ?b) div 2) = (unat ?a + unat ?b) div 2" by (simp add: unat_div)
    then show ?thesis using ab False n by (auto simp: calculate_median_def Let_def word_le_nat_alt)
  qed
qed

section \<open>Consensus\<close>

definition oracle_inv :: "oracle_consensus \<Rightarrow> bool" where
  "oracle_inv oc \<longleftrightarrow>
     bt_ok (oc_submissions oc)
     \<and> (\<forall>k s. bt_get (oc_submissions oc) k = Some s \<longrightarrow>
          ps_validator_address s = k \<and> ps_eth_price_micro_usd s \<noteq> 0 \<and> ps_btc_price_micro_usd s \<noteq> 0)"

inductive oracle_step :: "oracle_consensus \<Rightarrow> oracle_consensus \<Rightarrow> bool" where
  submit: "submit_price now v eth btc oc = (r, oc') \<Longrightarrow> oracle_step oc oc'"
| cleanup: "oracle_step oc (cleanup_old now oc)"

lemma oracle_step_inv:
  assumes inv: "oracle_inv oc" and "oracle_step oc oc'"
  shows "oracle_inv oc'"
  using assms(2)
proof cases
  case (submit now v eth btc r)
  then show ?thesis using inv
    by (auto simp: submit_price_def oracle_inv_def Let_def split: if_splits option.splits)
next
  case (cleanup now)
  let ?m = "filter (\<lambda>(_, s). now - oc_submission_window_secs oc * 2 < ps_timestamp s) (oc_submissions oc)"
  have ok: "bt_ok (oc_submissions oc)" "bt_ok ?m" using inv by (auto simp: oracle_inv_def bt_ok_filter)
  then have "bt_get (oc_submissions oc) k = Some s" if "bt_get ?m k = Some s" for k s
    using that bt_entries_get [OF ok(1)] bt_entries_get [OF ok(2)] by auto
  then have "\<forall>k s. bt_get ?m k = Some s \<longrightarrow>
      ps_validator_address s = k \<and> ps_eth_price_micro_usd s \<noteq> 0 \<and> ps_btc_price_micro_usd s \<noteq> 0"
    using inv unfolding oracle_inv_def by blast
  then show ?thesis using ok(2) unfolding cleanup cleanup_old_def oracle_inv_def Let_def by simp
qed

interpretation oracle_sys: invariant_system oracle_step oracle_inv
  by unfold_locales (rule oracle_step_inv)

lemma oracle_inv_config: "oracle_inv (oracle_with_config a b c)"
  by (simp add: oracle_inv_def oracle_with_config_def)

text \<open>C13: Byzantine resistance of the price. In every reachable state, if more than half of the
  recent submissions have an ether price between two bounds and more than half have a bitcoin
  price between two bounds, then the consensus prices lie between those bounds, whatever the other
  validators submitted. The upper bounds are below 2 to the 127, where the average of the two
  middle prices cannot overflow.\<close>

theorem oracle_price_resists_minority:
  assumes "oracle_step\<^sup>*\<^sup>* (oracle_with_config win m th) oc"
    and "get_consensus_price now oc = Some (eth, btc)"
    and "length (get_recent_submissions now oc)
         < 2 * length (filter (\<lambda>s. lo \<le> ps_eth_price_micro_usd s \<and> ps_eth_price_micro_usd s \<le> hi)
                 (get_recent_submissions now oc))"
    and "length (get_recent_submissions now oc)
         < 2 * length (filter (\<lambda>s. lo' \<le> ps_btc_price_micro_usd s \<and> ps_btc_price_micro_usd s \<le> hi')
                 (get_recent_submissions now oc))"
    and "unat hi < 2 ^ 127" "unat hi' < 2 ^ 127"
  shows "lo \<le> eth \<and> eth \<le> hi \<and> lo' \<le> btc \<and> btc \<le> hi'"
proof -
  let ?r = "get_recent_submissions now oc"
  have inv: "oracle_inv oc" using oracle_sys.reach_inv [OF assms(1) oracle_inv_config] .
  have pos: "ps_eth_price_micro_usd s > 0 \<and> ps_btc_price_micro_usd s > 0" if "s \<in> set ?r" for s
  proof -
    from that obtain k where "(k, s) \<in> set (oc_submissions oc)"
      by (auto simp: get_recent_submissions_def bt_values_def)
    then show ?thesis using inv by (auto simp: oracle_inv_def bt_entries_get word_gt_0)
  qed
  then have "filter (\<lambda>p. p > 0) (map ps_eth_price_micro_usd ?r) = map ps_eth_price_micro_usd ?r"
    "filter (\<lambda>p. p > 0) (map ps_btc_price_micro_usd ?r) = map ps_btc_price_micro_usd ?r"
    by (auto simp: filter_id_conv)
  then have "eth = calculate_median (sort (map ps_eth_price_micro_usd ?r))"
    "btc = calculate_median (sort (map ps_btc_price_micro_usd ?r))"
    using assms(2) by (auto simp: get_consensus_price_def Let_def split: if_splits)
  then show ?thesis
    using median_in_range [of "map ps_eth_price_micro_usd ?r" lo hi]
      median_in_range [of "map ps_btc_price_micro_usd ?r" lo' hi'] assms(3-6)
    by (simp add: filter_map comp_def)
qed

definition three_prices :: oracle_consensus where
  "three_prices =
     snd (submit_price 10 ''c'' 900 800 (snd (submit_price 10 ''b'' 110 55
       (snd (submit_price 10 ''a'' 100 50 oracle_new)))))"

theorem oracle_price_resists_minority_witness:
  "\<exists>eth btc. get_consensus_price 20 three_prices = Some (eth, btc)
     \<and> 100 \<le> eth \<and> eth \<le> 110 \<and> 50 \<le> btc \<and> btc \<le> 55"
proof -
  have slice: "short_address [c] = Some [c]" for c
    by (simp add: short_address_def str_slice_to_def is_char_boundary_def)
  have subs: "oc_submissions three_prices =
      [(''a'', \<lparr>ps_validator_address = ''a'', ps_eth_price_micro_usd = 100, ps_btc_price_micro_usd = 50, ps_timestamp = 10\<rparr>),
       (''b'', \<lparr>ps_validator_address = ''b'', ps_eth_price_micro_usd = 110, ps_btc_price_micro_usd = 55, ps_timestamp = 10\<rparr>),
       (''c'', \<lparr>ps_validator_address = ''c'', ps_eth_price_micro_usd = 900, ps_btc_price_micro_usd = 800, ps_timestamp = 10\<rparr>)]"
    "oc_submission_window_secs three_prices = 60" "oc_min_submissions three_prices = 2"
    by (simp_all add: three_prices_def submit_price_def slice oracle_new_def Let_def less_char_def)
  have "oracle_step oc (snd (submit_price n v e b oc))" for oc n v e b
    by (rule oracle_step.submit) (rule prod.collapse [symmetric])
  then have "oracle_step\<^sup>*\<^sup>* oracle_new three_prices"
    unfolding three_prices_def by (meson converse_rtranclp_into_rtranclp rtranclp.rtrancl_refl)
  then have reach: "oracle_step\<^sup>*\<^sup>* (oracle_with_config 60 2 2000) three_prices"
    by (simp add: oracle_new_def oracle_with_config_def)
  have recent: "get_recent_submissions 20 three_prices = bt_values (oc_submissions three_prices)"
    by (simp add: get_recent_submissions_def is_recent_def bt_values_def subs)
  have "get_consensus_price 20 three_prices \<noteq> None"
    by (simp add: get_consensus_price_def recent bt_values_def subs Let_def)
  then obtain eth btc where cons: "get_consensus_price 20 three_prices = Some (eth, btc)" by auto
  show ?thesis
    using oracle_price_resists_minority [OF reach cons, of 100 110 50 55] cons
    by (simp add: recent bt_values_def subs)
qed

end
