(* ===== verification/Contract_Host.thy ===== *)
theory Contract_Host
  imports BTree_Map Los_Strings Isqrt
begin

text \<open>
  What the WASM contracts of \<open>los-contracts\<close> see of the virtual machine through \<open>los-sdk\<close> and the host
  functions of \<open>los-vm/src/host.rs\<close>: a key-value state, the caller, the arguments, the block timestamp,
  emitted events and the return value; and the number, JSON and square-root helpers that
  \<open>los-contracts/src/lib.rs\<close> shares with the contract binaries.

  Keys and values are byte strings. The host cuts every key to 1024 bytes without telling the contract
  (\<open>host_key\<close>). Its other limits do not bind these contracts and are left out: values up to 256 KB
  (arguments arrive cut to 64 KB and callers to 256 bytes), 1024 changed keys and 256 events per call.
\<close>

section \<open>Host interface\<close>

record contract_ctx =
  cx_caller :: string
  cx_args :: "string list"
  cx_timestamp :: u64
  cx_self :: string

record contract_state =
  ct_kv :: "(string, string) btree_map"
  ct_events :: "(string \<times> string) list"
  ct_return :: string
  ct_logs :: "string list"

definition cx_arg :: "contract_ctx \<Rightarrow> nat \<Rightarrow> string option" where
  "cx_arg ctx i = (if i < length (cx_args ctx) then Some (cx_args ctx ! i) else None)"

text \<open>\<open>match arg(i) { Some(v) if !v.is_empty() => v, _ => ... }\<close>\<close>

definition arg_nonempty :: "contract_ctx \<Rightarrow> nat \<Rightarrow> string option" where
  "arg_nonempty ctx i = (case cx_arg ctx i of Some v \<Rightarrow> if v \<noteq> [] then Some v else None | None \<Rightarrow> None)"

text \<open>\<open>arg(i).unwrap_or_default()\<close>\<close>

definition arg_or_empty :: "contract_ctx \<Rightarrow> nat \<Rightarrow> string" where
  "arg_or_empty ctx i = (case cx_arg ctx i of Some v \<Rightarrow> v | None \<Rightarrow> [])"

definition MAX_STATE_KEY_SIZE :: nat where
  "MAX_STATE_KEY_SIZE = 1024"

definition host_key :: "string \<Rightarrow> string" where
  "host_key key = take MAX_STATE_KEY_SIZE key"

definition state_set_str :: "string \<Rightarrow> string \<Rightarrow> contract_state \<Rightarrow> contract_state" where
  "state_set_str key val s = s\<lparr>ct_kv := bt_insert (host_key key) val (ct_kv s)\<rparr>"

definition state_get_str :: "contract_state \<Rightarrow> string \<Rightarrow> string option" where
  "state_get_str s key = bt_get (ct_kv s) (host_key key)"

definition state_del :: "string \<Rightarrow> contract_state \<Rightarrow> contract_state" where
  "state_del key s = s\<lparr>ct_kv := bt_remove (host_key key) (ct_kv s)\<rparr>"

definition event_emit :: "string \<Rightarrow> string \<Rightarrow> contract_state \<Rightarrow> contract_state" where
  "event_emit event_type data_json s = s\<lparr>ct_events := ct_events s @ [(event_type, data_json)]\<rparr>"

definition host_log :: "string \<Rightarrow> contract_state \<Rightarrow> contract_state" where
  "host_log msg s = s\<lparr>ct_logs := ct_logs s @ [msg]\<rparr>"

definition set_return_str :: "string \<Rightarrow> contract_state \<Rightarrow> contract_state" where
  "set_return_str v s = s\<lparr>ct_return := v\<rparr>"

section \<open>Decimal numbers\<close>

fun parse_dec_loop :: "string \<Rightarrow> 'a::len word \<Rightarrow> 'a word" where
  "parse_dec_loop [] acc = acc"
| "parse_dec_loop (b # bs) acc =
     (if CHR ''0'' \<le> b \<and> b \<le> CHR ''9'' then
        case checked_mul acc 10 of
          None \<Rightarrow> 0
        | Some v \<Rightarrow>
            (case checked_add v (of_nat (of_char b - 48)) of None \<Rightarrow> 0 | Some w \<Rightarrow> parse_dec_loop bs w)
      else 0)"

definition parse_u128 :: "string \<Rightarrow> u128" where
  "parse_u128 s = parse_dec_loop s 0"

definition parse_u64 :: "string \<Rightarrow> u64" where
  "parse_u64 s = parse_dec_loop s 0"

definition arg_u128 :: "contract_ctx \<Rightarrow> nat \<Rightarrow> u128 option" where
  "arg_u128 ctx i = map_option parse_u128 (cx_arg ctx i)"

text \<open>The digits are written from the end of the buffer towards its start.\<close>

function digits_loop :: "u128 \<Rightarrow> string \<Rightarrow> string" where
  "digits_loop v buf = (if v = 0 then buf else digits_loop (v div 10) (digit_char (unat (v mod 10)) # buf))"
  by auto

termination digits_loop
  by (relation "measure (unat \<circ> fst)") (auto simp: unat_div unat_gt_0 unat_eq_zero)

definition u128_to_str :: "u128 \<Rightarrow> string" where
  "u128_to_str val = (if val = 0 then ''0'' else digits_loop val [])"

declare digits_loop.simps [simp del]

lemma digits_loop_nat: "v \<noteq> 0 \<Longrightarrow> digits_loop v buf = nat_to_string (unat v) @ buf"
proof (induction v buf rule: digits_loop.induct)
  case (1 v buf)
  have d: "unat (v div 10) = unat v div 10" by (simp add: unat_div)
  have m: "unat (v mod 10) = unat v mod 10" by (simp add: unat_mod)
  show ?case
  proof (cases "v div 10 = 0")
    case True
    then have lt: "unat v < 10" using d by (simp add: div_eq_0_iff)
    then show ?thesis
      using 1(2) True m digits_loop.simps [of v buf] digits_loop.simps [of 0]
      by (simp add: nat_to_string.simps [of "unat v"])
  next
    case False
    then have "\<not> unat v < 10" using d by (metis div_less unat_eq_zero)
    then show ?thesis
      using 1 False m d digits_loop.simps [of v buf] by (simp add: nat_to_string.simps [of "unat v"])
  qed
qed

lemma u128_to_str_eq: "u128_to_str v = uint_to_string v"
  by (simp add: u128_to_str_def uint_to_string_def digits_loop_nat nat_to_string.simps [of 0] digit_char_def char_of_def bit_0)

lemma parse_dec_loop_digits: "parse_dec_loop s acc = (case parse_digits s acc of Some v \<Rightarrow> v | None \<Rightarrow> 0)"
  by (induction s arbitrary: acc) (auto simp: digit_value_def split: option.split)

lemma parse_u128_to_str [simp]: "parse_u128 (u128_to_str v) = v"
  using parse_nat_to_string [where 'a = 128, of "unat v"] unat_less_exp [of v]
  by (simp add: parse_u128_def parse_dec_loop_digits u128_to_str_eq uint_to_string_def)

lemma parse_u128_empty [simp]: "parse_u128 [] = 0"
  by (simp add: parse_u128_def)

section \<open>JSON and square root\<close>

fun json_escape :: "string \<Rightarrow> string" where
  "json_escape [] = []"
| "json_escape (c # cs) =
     (if c = CHR 0x22 then [CHR 0x5C, CHR 0x22]
      else if c = CHR 0x5C then [CHR 0x5C, CHR 0x5C]
      else if c = CHR 0x0A then [CHR 0x5C, CHR ''n'']
      else [c]) @ json_escape cs"

definition json_str :: "string \<Rightarrow> string" where
  "json_str s = [CHR 0x22] @ s @ [CHR 0x22]"

text \<open>An object whose values are all written as strings, as the format strings of the contracts do.\<close>

fun json_fields :: "(string \<times> string) list \<Rightarrow> string" where
  "json_fields [] = []"
| "json_fields [(k, v)] = json_str k @ '':'' @ json_str v"
| "json_fields ((k, v) # fs) = json_str k @ '':'' @ json_str v @ '','' @ json_fields fs"

definition json_obj :: "(string \<times> string) list \<Rightarrow> string" where
  "json_obj fs = ''{'' @ json_fields fs @ ''}''"

text \<open>An object whose values are already JSON.\<close>

fun json_raw_fields :: "(string \<times> string) list \<Rightarrow> string" where
  "json_raw_fields [] = []"
| "json_raw_fields [(k, v)] = json_str k @ '':'' @ v"
| "json_raw_fields ((k, v) # fs) = json_str k @ '':'' @ v @ '','' @ json_raw_fields fs"

definition json_raw :: "(string \<times> string) list \<Rightarrow> string" where
  "json_raw fs = ''{'' @ json_raw_fields fs @ ''}''"

definition json_bool :: "bool \<Rightarrow> string" where
  "json_bool b = (if b then ''true'' else ''false'')"

definition contract_fail :: "string \<Rightarrow> contract_state \<Rightarrow> int \<times> contract_state" where
  "contract_fail msg s =
     (1, set_return_str (''{'' @ json_str ''success'' @ '':false,'' @ json_str ''message'' @ '':''
           @ json_str (json_escape msg) @ ''}'') s)"

definition contract_ok :: "string \<Rightarrow> contract_state \<Rightarrow> int \<times> contract_state" where
  "contract_ok msg s =
     (0, set_return_str (''{'' @ json_str ''success'' @ '':true,'' @ json_str ''message'' @ '':''
           @ json_str (json_escape msg) @ ''}'') s)"

definition contract_ok_data :: "string \<Rightarrow> string \<Rightarrow> contract_state \<Rightarrow> int \<times> contract_state" where
  "contract_ok_data msg data s =
     (0, set_return_str (''{'' @ json_str ''success'' @ '':true,'' @ json_str ''message'' @ '':''
           @ json_str (json_escape msg) @ '','' @ json_str ''data'' @ '':'' @ data @ ''}'') s)"

definition contract_isqrt :: "u128 \<Rightarrow> u128" where
  "contract_isqrt n = (if n = 0 then 0 else isqrt_loop n n (div_ceil n 2))"

interpretation contract_sqrt: integer_sqrt contract_isqrt
  using newton_u128.integer_sqrt_axioms unfolding contract_isqrt_def isqrt_newton_def by simp

section \<open>State helpers\<close>

definition get_state_str :: "contract_state \<Rightarrow> string \<Rightarrow> string" where
  "get_state_str s key = (case state_get_str s key of Some v \<Rightarrow> v | None \<Rightarrow> [])"

definition get_state_u128 :: "contract_state \<Rightarrow> string \<Rightarrow> u128" where
  "get_state_u128 s key = parse_u128 (get_state_str s key)"

definition get_state_u64 :: "contract_state \<Rightarrow> string \<Rightarrow> u64" where
  "get_state_u64 s key = parse_u64 (get_state_str s key)"

definition set_state_u128 :: "string \<Rightarrow> u128 \<Rightarrow> contract_state \<Rightarrow> contract_state" where
  "set_state_u128 key val s = state_set_str key (u128_to_str val) s"

definition set_state_u64 :: "string \<Rightarrow> u64 \<Rightarrow> contract_state \<Rightarrow> contract_state" where
  "set_state_u64 key val s = state_set_str key (u128_to_str (ucast val)) s"

text \<open>A key below the host's limit is told apart from every other key, also from the cut ones.\<close>

abbreviation short_key :: "string \<Rightarrow> bool" where
  "short_key k \<equiv> length k < MAX_STATE_KEY_SIZE"

text \<open>A literal key is short by computation.\<close>

lemma literal_less_key_size [simp]:
  "numeral n < MAX_STATE_KEY_SIZE \<longleftrightarrow> numeral n < (1024 :: nat)"
  "Suc k < MAX_STATE_KEY_SIZE \<longleftrightarrow> Suc k < 1024"
  by (simp_all add: MAX_STATE_KEY_SIZE_def)

lemma host_key_short [simp]: "short_key k \<Longrightarrow> host_key k = k"
  by (simp add: host_key_def)

lemma host_key_eq_short [simp]: "short_key k \<Longrightarrow> host_key k' = k \<longleftrightarrow> k' = k"
  by (auto simp: host_key_def min_def split: if_splits)

lemma host_key_eq_short' [simp]: "short_key k \<Longrightarrow> k = host_key k' \<longleftrightarrow> k = k'"
  using host_key_eq_short by metis

lemma state_get_set [simp]:
  "short_key k' \<Longrightarrow> state_get_str (state_set_str k v s) k' = (if k' = k then Some v else state_get_str s k')"
  "short_key k' \<Longrightarrow> state_get_str (set_state_u128 k n s) k' = (if k' = k then Some (u128_to_str n) else state_get_str s k')"
  by (simp_all add: set_state_u128_def state_get_str_def state_set_str_def)

lemma get_str_set [simp]:
  "short_key k' \<Longrightarrow> get_state_str (state_set_str k v s) k' = (if k' = k then v else get_state_str s k')"
  by (simp add: get_state_str_def state_get_str_def state_set_str_def)

lemma get_str_set_num [simp]:
  "short_key k' \<Longrightarrow>
     get_state_str (set_state_u128 k n s) k' = (if k' = k then u128_to_str n else get_state_str s k')"
  "short_key k' \<Longrightarrow>
     get_state_str (set_state_u64 k m s) k' = (if k' = k then u128_to_str (ucast m) else get_state_str s k')"
  by (simp_all add: set_state_u128_def set_state_u64_def)

lemma get_u128_set [simp]:
  "short_key k' \<Longrightarrow> get_state_u128 (set_state_u128 k n s) k' = (if k' = k then n else get_state_u128 s k')"
  "short_key k' \<Longrightarrow> get_state_u128 (set_state_u64 k m s) k' = (if k' = k then ucast m else get_state_u128 s k')"
  "short_key k' \<Longrightarrow> get_state_u128 (state_set_str k v s) k' = (if k' = k then parse_u128 v else get_state_u128 s k')"
  by (simp_all add: get_state_u128_def)

lemma get_str_frame [simp]:
  "get_state_str (event_emit e d s) k = get_state_str s k"
  "get_state_str (set_return_str r s) k = get_state_str s k"
  "get_state_u128 (event_emit e d s) k = get_state_u128 s k"
  "get_state_u128 (set_return_str r s) k = get_state_u128 s k"
  "get_state_str (host_log m s) k = get_state_str s k"
  "get_state_u128 (host_log m s) k = get_state_u128 s k"
  by (simp_all add: get_state_u128_def get_state_str_def state_get_str_def event_emit_def set_return_str_def host_log_def)

lemma get_str_del [simp]:
  "short_key k' \<Longrightarrow> get_state_str (state_del k s) k' = (if k' = k then [] else get_state_str s k')"
  "short_key k' \<Longrightarrow> get_state_u128 (state_del k s) k' = (if k' = k then 0 else get_state_u128 s k')"
  by (simp_all add: get_state_u128_def get_state_str_def state_get_str_def state_del_def)

text \<open>Well-formedness and sums over a set of keys, here for the number a value stands for.\<close>

abbreviation kv_ok :: "contract_state \<Rightarrow> bool" where
  "kv_ok s \<equiv> bt_ok (ct_kv s)"

lemma kv_ok_ops [simp]:
  "kv_ok s \<Longrightarrow> kv_ok (state_set_str k v s)"
  "kv_ok s \<Longrightarrow> kv_ok (set_state_u128 k n s)"
  "kv_ok s \<Longrightarrow> kv_ok (set_state_u64 k m s)"
  "kv_ok s \<Longrightarrow> kv_ok (state_del k s)"
  "kv_ok (event_emit e d s) = kv_ok s"
  "kv_ok (set_return_str r s) = kv_ok s"
  "kv_ok (host_log msg s) = kv_ok s"
  by (simp_all add: state_set_str_def set_state_u128_def set_state_u64_def state_del_def event_emit_def
      set_return_str_def host_log_def)

definition num_sum :: "(string \<Rightarrow> bool) \<Rightarrow> contract_state \<Rightarrow> nat" where
  "num_sum P s = bt_ksum (\<lambda>k v. if P k then unat (parse_u128 v) else 0) (ct_kv s)"

lemma num_sum_frame [simp]:
  "num_sum P (event_emit e d s) = num_sum P s"
  "num_sum P (set_return_str r s) = num_sum P s"
  "num_sum P (host_log m s) = num_sum P s"
  by (simp_all add: num_sum_def event_emit_def set_return_str_def host_log_def)

lemma num_sum_set:
  assumes "kv_ok s"
  shows "num_sum P (state_set_str k v s) + (if P (host_key k) then unat (get_state_u128 s k) else 0) =
    num_sum P s + (if P (host_key k) then unat (parse_u128 v) else 0)"
  using bt_ksum_insert [OF assms, of "\<lambda>k v. if P k then unat (parse_u128 v) else 0" "host_key k" v]
  by (auto simp: num_sum_def state_set_str_def get_state_u128_def get_state_str_def state_get_str_def
      split: option.splits)

lemma num_sum_set_u128:
  assumes "kv_ok s" "P (host_key k)"
  shows "num_sum P (set_state_u128 k n s) + unat (get_state_u128 s k) = num_sum P s + unat n"
  using num_sum_set [OF assms(1), of P k "u128_to_str n"] assms(2) by (simp add: set_state_u128_def)

lemma num_sum_del:
  assumes "kv_ok s"
  shows "num_sum P (state_del k s) + (if P (host_key k) then unat (get_state_u128 s k) else 0) = num_sum P s"
  using bt_ksum_remove [OF assms, of "\<lambda>k v. if P k then unat (parse_u128 v) else 0" "host_key k"]
  by (auto simp: num_sum_def state_del_def get_state_u128_def get_state_str_def state_get_str_def
      split: option.splits)

lemma num_le_num_sum:
  assumes "kv_ok s" "P (host_key k)"
  shows "unat (get_state_u128 s k) \<le> num_sum P s"
  using num_sum_del [OF assms(1), of P k] assms(2) by simp

lemma num_sum_set_other [simp]:
  assumes "kv_ok s" "\<not> P (host_key k)"
  shows "num_sum P (state_set_str k v s) = num_sum P s"
    "num_sum P (set_state_u128 k n s) = num_sum P s"
    "num_sum P (set_state_u64 k m s) = num_sum P s"
    "num_sum P (state_del k s) = num_sum P s"
  using num_sum_set [OF assms(1), of P k] assms num_sum_del [OF assms(1), of P k]
  by (simp_all add: set_state_u128_def set_state_u64_def)

end
