(* ===== verification/Usp01.thy ===== *)
theory Usp01
  imports BTree_Map Los_Strings Step_Systems "HOL-Library.Product_Lexorder"
begin

text \<open>
  The USP-01 token standard (\<open>los-vm/src/usp01.rs\<close>): metadata and action validation, and the
  reference token with balances, allowances, burning and the wrapped-asset bridge. The JSON encoding
  of the metadata (\<open>serde_json\<close>) is the parameter \<open>json_of\<close>, \<open>None\<close> standing for an encoding error.
  Shown here: balances always add up to the total supply, an account loses tokens only through its
  own action or a sufficient allowance that shrinks by the same amount, and a refused action changes
  nothing.
\<close>

section \<open>Data\<close>

record token_metadata =
  tm_name :: string
  tm_symbol :: string
  tm_decimals :: u8
  tm_total_supply :: u128
  tm_is_wrapped :: bool
  tm_wrapped_origin :: string
  tm_max_supply :: u128

datatype token_error =
    NameLength | SymbolLength | DecimalsRange | SupplyZero | SupplyAboveMax | OriginMissing
  | OperatorMissing | RecipientEmpty | AmountZero | SpenderEmpty | AddressEmpty | AccountEmpty
  | ProofEmpty | DestinationEmpty

definition metadata_validate :: "token_metadata \<Rightarrow> (unit, token_error) result" where
  "metadata_validate m =
     (if tm_name m = [] \<or> length (tm_name m) > 64 then Err NameLength
      else if tm_symbol m = [] \<or> length (tm_symbol m) > 8 then Err SymbolLength
      else if tm_decimals m > 18 then Err DecimalsRange
      else if tm_total_supply m = 0 then Err SupplyZero
      else if tm_max_supply m > 0 \<and> tm_total_supply m > tm_max_supply m then Err SupplyAboveMax
      else if tm_is_wrapped m \<and> tm_wrapped_origin m = [] then Err OriginMissing
      else Ok ())"

datatype usp01_action =
    Init string string u8 u128 bool string u128
  | Transfer string u128
  | Approve string u128
  | TransferFrom string string u128
  | Burn u128
  | BalanceOf string
  | AllowanceOf string string
  | TotalSupply
  | TokenInfo
  | WrapMint string u128 string
  | WrapBurn u128 string

datatype usp01_event =
    EvTransfer string string u128
  | EvApproval string string u128
  | EvBurn string u128
  | EvWrapMint string u128 string
  | EvWrapBurn string u128 string

record usp01_response =
  ur_success :: bool
  ur_data :: "string option"
  ur_message :: string
  ur_events :: "usp01_event list"

fun validate_action :: "usp01_action \<Rightarrow> (unit, token_error) result" where
  "validate_action (Init name symbol decimals total_supply _ _ max_supply) =
     (if name = [] \<or> length name > 64 then Err NameLength
      else if symbol = [] \<or> length symbol > 8 then Err SymbolLength
      else if decimals > 18 then Err DecimalsRange
      else if total_supply = 0 then Err SupplyZero
      else if max_supply > 0 \<and> total_supply > max_supply then Err SupplyAboveMax
      else Ok ())"
| "validate_action (Transfer to amount) =
     (if to = [] then Err RecipientEmpty else if amount = 0 then Err AmountZero else Ok ())"
| "validate_action (Approve spender _) = (if spender = [] then Err SpenderEmpty else Ok ())"
| "validate_action (TransferFrom from to amount) =
     (if from = [] \<or> to = [] then Err AddressEmpty else if amount = 0 then Err AmountZero else Ok ())"
| "validate_action (Burn amount) = (if amount = 0 then Err AmountZero else Ok ())"
| "validate_action (BalanceOf account) = (if account = [] then Err AccountEmpty else Ok ())"
| "validate_action (AllowanceOf owner spender) =
     (if owner = [] \<or> spender = [] then Err AddressEmpty else Ok ())"
| "validate_action TotalSupply = Ok ()"
| "validate_action TokenInfo = Ok ()"
| "validate_action (WrapMint to amount proof_text) =
     (if to = [] then Err RecipientEmpty
      else if amount = 0 then Err AmountZero
      else if proof_text = [] then Err ProofEmpty
      else Ok ())"
| "validate_action (WrapBurn amount destination) =
     (if amount = 0 then Err AmountZero
      else if destination = [] then Err DestinationEmpty
      else Ok ())"

section \<open>The reference token\<close>

record usp01_token =
  ut_metadata :: token_metadata
  ut_balances :: "(string, u128) btree_map"
  ut_allowances :: "(string \<times> string, u128) btree_map"
  ut_bridge_operator :: string

definition usp01_new ::
    "string \<Rightarrow> string \<Rightarrow> u8 \<Rightarrow> u128 \<Rightarrow> string \<Rightarrow> (usp01_token, token_error) result" where
  "usp01_new name symbol decimals total_supply creator =
     (let metadata = \<lparr>tm_name = name, tm_symbol = symbol, tm_decimals = decimals,
                      tm_total_supply = total_supply, tm_is_wrapped = False,
                      tm_wrapped_origin = '''', tm_max_supply = 0\<rparr>
      in case metadata_validate metadata of
           Err e \<Rightarrow> Err e
         | Panic \<Rightarrow> Panic
         | Ok _ \<Rightarrow> Ok \<lparr>ut_metadata = metadata, ut_balances = bt_insert creator total_supply [],
                       ut_allowances = [], ut_bridge_operator = ''''\<rparr>)"

definition usp01_new_wrapped ::
    "string \<Rightarrow> string \<Rightarrow> u8 \<Rightarrow> string \<Rightarrow> string \<Rightarrow> (usp01_token, token_error) result" where
  "usp01_new_wrapped name symbol decimals wrapped_origin bridge_operator =
     (if wrapped_origin = [] then Err OriginMissing
      else if bridge_operator = [] then Err OperatorMissing
      else Ok \<lparr>ut_metadata = \<lparr>tm_name = name, tm_symbol = symbol, tm_decimals = decimals,
                 tm_total_supply = 0, tm_is_wrapped = True, tm_wrapped_origin = wrapped_origin,
                 tm_max_supply = 0\<rparr>,
               ut_balances = [], ut_allowances = [], ut_bridge_operator = bridge_operator\<rparr>)"

definition or_zero :: "u128 option \<Rightarrow> u128" where
  "or_zero v = (case v of Some x \<Rightarrow> x | None \<Rightarrow> 0)"

text \<open>\<open>let bal = m.entry(k).or_insert(0); *bal = bal.checked_sub(amount).unwrap_or(0)\<close> and the
  credit with \<open>checked_add\<close>.\<close>

definition debit :: "'k::linorder \<Rightarrow> u128 \<Rightarrow> ('k, u128) btree_map \<Rightarrow> ('k, u128) btree_map" where
  "debit k amount m =
     bt_insert k (case checked_sub (or_zero (bt_get m k)) amount of Some x \<Rightarrow> x | None \<Rightarrow> 0) m"

definition credit :: "'k::linorder \<Rightarrow> u128 \<Rightarrow> ('k, u128) btree_map \<Rightarrow> ('k, u128) btree_map" where
  "credit k amount m =
     bt_insert k (case checked_add (or_zero (bt_get m k)) amount of Some x \<Rightarrow> x | None \<Rightarrow> u128_max) m"

definition refuse :: "string \<Rightarrow> usp01_response" where
  "refuse message = \<lparr>ur_success = False, ur_data = None, ur_message = message, ur_events = []\<rparr>"

definition accept :: "string \<Rightarrow> usp01_event list \<Rightarrow> usp01_response" where
  "accept message events = \<lparr>ur_success = True, ur_data = None, ur_message = message, ur_events = events\<rparr>"

definition answer :: "string \<Rightarrow> string \<Rightarrow> usp01_response" where
  "answer data message = \<lparr>ur_success = True, ur_data = Some data, ur_message = message, ur_events = []\<rparr>"

definition supply_update :: "(u128 \<Rightarrow> u128) \<Rightarrow> usp01_token \<Rightarrow> usp01_token" where
  "supply_update f t =
     t\<lparr>ut_metadata := (ut_metadata t)\<lparr>tm_total_supply := f (tm_total_supply (ut_metadata t))\<rparr>\<rparr>"

definition execute_transfer ::
    "string \<Rightarrow> string \<Rightarrow> u128 \<Rightarrow> usp01_token \<Rightarrow> usp01_response \<times> usp01_token" where
  "execute_transfer caller to amount t =
     (let from_balance = or_zero (bt_get (ut_balances t) caller) in
      if from_balance < amount
      then (refuse (''Insufficient balance: have '' @ uint_to_string from_balance @ '' need ''
                    @ uint_to_string amount), t)
      else (accept (''Transferred '' @ uint_to_string amount @ '' to '' @ to) [EvTransfer caller to amount],
            t\<lparr>ut_balances := credit to amount (debit caller amount (ut_balances t))\<rparr>))"

definition execute_approve ::
    "string \<Rightarrow> string \<Rightarrow> u128 \<Rightarrow> usp01_token \<Rightarrow> usp01_response \<times> usp01_token" where
  "execute_approve caller spender amount t =
     (accept (''Approved '' @ uint_to_string amount @ '' for '' @ spender) [EvApproval caller spender amount],
      t\<lparr>ut_allowances := bt_insert (caller, spender) amount (ut_allowances t)\<rparr>)"

definition execute_transfer_from ::
    "string \<Rightarrow> string \<Rightarrow> string \<Rightarrow> u128 \<Rightarrow> usp01_token \<Rightarrow> usp01_response \<times> usp01_token" where
  "execute_transfer_from caller from to amount t =
     (let allowance = or_zero (bt_get (ut_allowances t) (from, caller)) in
      if allowance < amount
      then (refuse (''Allowance exceeded: have '' @ uint_to_string allowance @ '' need ''
                    @ uint_to_string amount), t)
      else
        let from_balance = or_zero (bt_get (ut_balances t) from) in
        if from_balance < amount
        then (refuse (''Insufficient balance: '' @ from @ '' has '' @ uint_to_string from_balance
                      @ '' need '' @ uint_to_string amount), t)
        else (accept (''Transferred '' @ uint_to_string amount @ '' from '' @ from @ '' to '' @ to)
                [EvTransfer from to amount],
              t\<lparr>ut_balances := credit to amount (debit from amount (ut_balances t)),
                ut_allowances := debit (from, caller) amount (ut_allowances t)\<rparr>))"

definition execute_burn :: "string \<Rightarrow> u128 \<Rightarrow> usp01_token \<Rightarrow> usp01_response \<times> usp01_token" where
  "execute_burn caller amount t =
     (let balance = or_zero (bt_get (ut_balances t) caller) in
      if balance < amount
      then (refuse (''Insufficient balance to burn: have '' @ uint_to_string balance @ '' need ''
                    @ uint_to_string amount), t)
      else (accept (''Burned '' @ uint_to_string amount @ '' tokens'') [EvBurn caller amount],
            supply_update (\<lambda>s. saturating_sub s amount)
              (t\<lparr>ut_balances := debit caller amount (ut_balances t)\<rparr>)))"

definition execute_wrap_mint ::
    "string \<Rightarrow> string \<Rightarrow> u128 \<Rightarrow> string \<Rightarrow> usp01_token \<Rightarrow> usp01_response \<times> usp01_token" where
  "execute_wrap_mint caller to amount proof_text t =
     (if \<not> tm_is_wrapped (ut_metadata t) then (refuse ''WrapMint: token is not a wrapped asset'', t)
      else if caller \<noteq> ut_bridge_operator t then (refuse ''WrapMint: only bridge operator can mint'', t)
      else (accept (''Wrapped '' @ uint_to_string amount @ '' to '' @ to) [EvWrapMint to amount proof_text],
            supply_update (\<lambda>s. saturating_add s amount)
              (t\<lparr>ut_balances := credit to amount (ut_balances t)\<rparr>)))"

definition execute_wrap_burn ::
    "string \<Rightarrow> u128 \<Rightarrow> string \<Rightarrow> usp01_token \<Rightarrow> usp01_response \<times> usp01_token" where
  "execute_wrap_burn caller amount destination t =
     (if \<not> tm_is_wrapped (ut_metadata t) then (refuse ''WrapBurn: token is not a wrapped asset'', t)
      else
        let balance = or_zero (bt_get (ut_balances t) caller) in
        if balance < amount
        then (refuse (''WrapBurn: insufficient balance '' @ uint_to_string balance @ '' need ''
                      @ uint_to_string amount), t)
        else (accept (''Unwrap '' @ uint_to_string amount @ '' to '' @ destination)
                [EvWrapBurn caller amount destination],
              supply_update (\<lambda>s. saturating_sub s amount)
                (t\<lparr>ut_balances := debit caller amount (ut_balances t)\<rparr>)))"

fun usp01_execute ::
    "(token_metadata \<Rightarrow> string option) \<Rightarrow> string \<Rightarrow> usp01_action \<Rightarrow> usp01_token
     \<Rightarrow> usp01_response \<times> usp01_token" where
  "usp01_execute json_of caller (Init _ _ _ _ _ _ _) t = (refuse ''Init can only be called at deployment'', t)"
| "usp01_execute json_of caller (Transfer to amount) t = execute_transfer caller to amount t"
| "usp01_execute json_of caller (Approve spender amount) t = execute_approve caller spender amount t"
| "usp01_execute json_of caller (TransferFrom from to amount) t = execute_transfer_from caller from to amount t"
| "usp01_execute json_of caller (Burn amount) t = execute_burn caller amount t"
| "usp01_execute json_of caller (BalanceOf account) t =
     (let balance = or_zero (bt_get (ut_balances t) account)
      in (answer (uint_to_string balance) (''Balance: '' @ uint_to_string balance), t))"
| "usp01_execute json_of caller (AllowanceOf owner spender) t =
     (let allowance = or_zero (bt_get (ut_allowances t) (owner, spender))
      in (answer (uint_to_string allowance) (''Allowance: '' @ uint_to_string allowance), t))"
| "usp01_execute json_of caller TotalSupply t =
     (answer (uint_to_string (tm_total_supply (ut_metadata t))) ''Total supply'', t)"
| "usp01_execute json_of caller TokenInfo t =
     (answer (case json_of (ut_metadata t) of Some s \<Rightarrow> s | None \<Rightarrow> ''{}'') ''Token info'', t)"
| "usp01_execute json_of caller (WrapMint to amount proof_text) t = execute_wrap_mint caller to amount proof_text t"
| "usp01_execute json_of caller (WrapBurn amount destination) t = execute_wrap_burn caller amount destination t"

section \<open>Conservation\<close>

abbreviation balance_of :: "usp01_token \<Rightarrow> string \<Rightarrow> u128" where
  "balance_of t a \<equiv> or_zero (bt_get (ut_balances t) a)"

abbreviation allowance_of :: "usp01_token \<Rightarrow> string \<Rightarrow> string \<Rightarrow> u128" where
  "allowance_of t owner spender \<equiv> or_zero (bt_get (ut_allowances t) (owner, spender))"

abbreviation supply_of :: "usp01_token \<Rightarrow> nat" where
  "supply_of t \<equiv> unat (tm_total_supply (ut_metadata t))"

abbreviation balances_total :: "usp01_token \<Rightarrow> nat" where
  "balances_total t \<equiv> bt_sum unat (ut_balances t)"

definition token_inv :: "usp01_token \<Rightarrow> bool" where
  "token_inv t \<longleftrightarrow> bt_ok (ut_balances t) \<and> bt_ok (ut_allowances t) \<and> balances_total t = supply_of t"

lemma bt_share_unat: "bt_share unat k m = unat (or_zero (bt_get m k))"
  by (simp add: bt_share_def or_zero_def split: option.split)

lemma get_debit [simp]:
  "amount \<le> or_zero (bt_get m k) \<Longrightarrow>
   or_zero (bt_get (debit k amount m) k') =
     (if k' = k then or_zero (bt_get m k) - amount else or_zero (bt_get m k'))"
  by (simp add: debit_def) (simp add: or_zero_def)

lemma bt_ok_debit_credit [simp]: "bt_ok m \<Longrightarrow> bt_ok (debit k a m)" "bt_ok m \<Longrightarrow> bt_ok (credit k a m)"
  by (simp_all add: debit_def credit_def)

lemma sum_debit:
  assumes "bt_ok m" "amount \<le> or_zero (bt_get m k)"
  shows "bt_sum unat (debit k amount m) + unat amount = bt_sum unat m"
proof -
  have "bt_sum unat (debit k amount m) + unat (or_zero (bt_get m k))
      = bt_sum unat m + unat (or_zero (bt_get m k) - amount)"
    using bt_sum_insert [OF assms(1), of unat k "or_zero (bt_get m k) - amount"] assms(2)
    by (simp add: debit_def bt_share_unat)
  then show ?thesis using assms(2) by (simp add: unat_sub_exact word_le_nat_alt)
qed

lemma credit_exact:
  assumes "bt_ok m" "bt_sum unat m + unat amount < 2 ^ 128"
  shows "bt_sum unat (credit k amount m) = bt_sum unat m + unat amount"
    and "unat (or_zero (bt_get (credit k amount m) k')) =
         unat (or_zero (bt_get m k')) + (if k' = k then unat amount else 0)"
proof -
  have "unat (or_zero (bt_get m k)) \<le> bt_sum unat m"
    using bt_share_le_sum [OF assms(1), of unat k] by (simp add: bt_share_unat)
  then have b: "unat (or_zero (bt_get m k)) + unat amount < 2 ^ 128" using assms(2) by linarith
  then have c: "credit k amount m = bt_insert k (or_zero (bt_get m k) + amount) m"
    by (simp add: credit_def checked_add_def)
  have e: "unat (or_zero (bt_get m k) + amount) = unat (or_zero (bt_get m k)) + unat amount"
    using b by (subst unat_add_exact) simp_all
  show "bt_sum unat (credit k amount m) = bt_sum unat m + unat amount"
    using bt_sum_insert [OF assms(1), of unat k "or_zero (bt_get m k) + amount"]
    by (simp add: c e bt_share_unat)
  show "unat (or_zero (bt_get (credit k amount m) k')) =
         unat (or_zero (bt_get m k')) + (if k' = k then unat amount else 0)"
    using e by (simp add: c or_zero_def split: option.split)
qed

text \<open>Moving an amount between two accounts, which may be the same one.\<close>

lemma move_exact:
  fixes to :: string
  assumes "token_inv t" "amount \<le> balance_of t from"
  defines "m \<equiv> credit to amount (debit from amount (ut_balances t))"
  shows "bt_ok m" "bt_sum unat m = balances_total t"
    and "unat (or_zero (bt_get m a)) =
         unat (balance_of t a) - (if a = from then unat amount else 0) + (if a = to then unat amount else 0)"
proof -
  have ok: "bt_ok (ut_balances t)" using assms(1) by (simp add: token_inv_def)
  have d: "bt_sum unat (debit from amount (ut_balances t)) + unat amount = balances_total t"
    by (rule sum_debit [OF ok assms(2)])
  have "balances_total t < 2 ^ 128"
    using assms(1) unat_less_exp [of "tm_total_supply (ut_metadata t)"] by (simp add: token_inv_def)
  then have b: "bt_sum unat (debit from amount (ut_balances t)) + unat amount < 2 ^ 128" using d by simp
  show "bt_ok m" using ok by (simp add: m_def)
  show "bt_sum unat m = balances_total t"
    unfolding m_def using credit_exact(1) [OF _ b] ok d by simp
  show "unat (or_zero (bt_get m a)) =
         unat (balance_of t a) - (if a = from then unat amount else 0) + (if a = to then unat amount else 0)"
    unfolding m_def using credit_exact(2) [OF _ b] ok assms(2) by (simp add: unat_sub_exact)
qed

lemma burn_exact:
  assumes "token_inv t" "amount \<le> balance_of t a"
  shows "token_inv (supply_update (\<lambda>s. saturating_sub s amount)
           (t\<lparr>ut_balances := debit a amount (ut_balances t)\<rparr>))"
  using assms sum_debit [of "ut_balances t" amount a]
  by (simp add: token_inv_def supply_update_def unat_saturating_sub)

definition no_mint_overflow :: "usp01_action \<Rightarrow> usp01_token \<Rightarrow> bool" where
  "no_mint_overflow action t =
     (case action of WrapMint _ amount _ \<Rightarrow> supply_of t + unat amount < 2 ^ 128 | _ \<Rightarrow> True)"

inductive usp01_step :: "(token_metadata \<Rightarrow> string option) \<Rightarrow> usp01_token \<Rightarrow> usp01_token \<Rightarrow> bool"
  for json_of where
  execute: "usp01_execute json_of caller action t = (r, t') \<Longrightarrow> no_mint_overflow action t
            \<Longrightarrow> usp01_step json_of t t'"

lemma token_inv_execute:
  assumes inv: "token_inv t" and "usp01_execute json_of caller action t = (r, t')"
    and "no_mint_overflow action t"
  shows "token_inv t'"
proof (cases action)
  case (Transfer to amount)
  then show ?thesis
    using assms(1,2) move_exact(1,2) [OF inv, of amount caller to]
    by (auto simp: execute_transfer_def token_inv_def Let_def not_less split: if_splits)
next
  case (TransferFrom src to amount)
  then show ?thesis
    using assms(1,2) move_exact(1,2) [OF inv, of amount src to]
    by (auto simp: execute_transfer_from_def token_inv_def Let_def not_less split: if_splits)
next
  case (Burn amount)
  then show ?thesis
    using assms(1,2) burn_exact [OF inv]
    by (auto simp: execute_burn_def Let_def not_less split: if_splits)
next
  case (WrapBurn amount destination)
  then show ?thesis
    using assms(1,2) burn_exact [OF inv]
    by (auto simp: execute_wrap_burn_def Let_def not_less split: if_splits)
next
  case (WrapMint to amount proof_text)
  then have "supply_of t + unat amount < 2 ^ 128" using assms(3) by (simp add: no_mint_overflow_def)
  then show ?thesis
    using WrapMint assms(1,2) credit_exact(1) [of "ut_balances t" amount to]
    by (auto simp: execute_wrap_mint_def token_inv_def supply_update_def unat_saturating_add
        split: if_splits)
qed (use assms in \<open>auto simp: execute_approve_def token_inv_def Let_def\<close>)

interpretation usp01_sys: invariant_system "usp01_step json_of" token_inv for json_of
  by unfold_locales (auto elim!: usp01_step.cases intro: token_inv_execute)

lemma token_inv_new: "usp01_new n s d supply creator = Ok t \<Longrightarrow> token_inv t"
  by (auto simp: usp01_new_def token_inv_def Let_def bt_ok_def bt_sum_def split: result.splits)

lemma token_inv_new_wrapped: "usp01_new_wrapped n s d origin operator = Ok t \<Longrightarrow> token_inv t"
  by (auto simp: usp01_new_wrapped_def token_inv_def split: if_splits)


text \<open>One action lowers the balance of an account only if the account is the caller, or the
  caller spends an allowance: then the action is a \<open>TransferFrom\<close> within the allowance, and balance
  and allowance both fall by exactly its amount. Only the bridge operator of a wrapped token can
  raise the supply, and a refused action changes nothing and emits no event.\<close>

theorem token_debit_is_authorised:
  assumes "token_inv t" "usp01_execute json_of caller action t = (r, t')" "no_mint_overflow action t"
  shows "(balance_of t' a < balance_of t a \<longrightarrow>
            a = caller \<or>
            (\<exists>to amount. action = TransferFrom a to amount
               \<and> amount \<le> allowance_of t a caller
               \<and> unat (allowance_of t' a caller) + unat amount = unat (allowance_of t a caller)
               \<and> unat (balance_of t' a) + unat amount = unat (balance_of t a)))
    \<and> (supply_of t < supply_of t' \<longrightarrow>
         tm_is_wrapped (ut_metadata t) \<and> caller = ut_bridge_operator t \<and> ur_success r)
    \<and> (\<not> ur_success r \<longrightarrow> t' = t \<and> ur_events r = [])"
proof (cases action)
  case (Transfer to amount)
  then show ?thesis
    using assms(2) move_exact(3) [OF assms(1), of amount caller to a]
    by (auto simp: execute_transfer_def Let_def not_less refuse_def accept_def word_less_nat_alt
        word_le_nat_alt split: if_splits)
next
  case (TransferFrom src to amount)
  show ?thesis
  proof (cases "allowance_of t src caller < amount \<or> balance_of t src < amount")
    case True
    then show ?thesis using TransferFrom assms(2)
      by (auto simp: execute_transfer_from_def Let_def refuse_def split: if_splits)
  next
    case False
    then have le: "amount \<le> allowance_of t src caller" "amount \<le> balance_of t src" by auto
    have t': "ut_balances t' = credit to amount (debit src amount (ut_balances t))"
      "ut_allowances t' = debit (src, caller) amount (ut_allowances t)"
      "ut_metadata t' = ut_metadata t" "ur_success r"
      using False TransferFrom assms(2) by (auto simp: execute_transfer_from_def Let_def accept_def)
    note move = move_exact(3) [OF assms(1) le(2), of to a]
    have al: "unat (allowance_of t' src caller) + unat amount = unat (allowance_of t src caller)"
      using le(1) by (simp add: t' unat_sub_exact word_le_nat_alt)
    show ?thesis
    proof (cases "a = src \<and> a \<noteq> to")
      case True
      then have "unat (balance_of t' a) + unat amount = unat (balance_of t a)"
        using move le(2) by (auto simp: t' word_le_nat_alt)
      then show ?thesis using True TransferFrom le al t' by simp
    next
      case False
      then have "unat (balance_of t a) \<le> unat (balance_of t' a)"
        using move le(2) by (auto simp: t' word_le_nat_alt)
      then show ?thesis using t' by (simp add: word_less_nat_alt)
    qed
  qed
next
  case (WrapMint to amount proof_text)
  then have b: "supply_of t + unat amount < 2 ^ 128" using assms(3) by (simp add: no_mint_overflow_def)
  show ?thesis
    using WrapMint assms(1,2) credit_exact(2) [of "ut_balances t" amount to a] b
    by (auto simp: execute_wrap_mint_def token_inv_def supply_update_def refuse_def accept_def
        word_less_nat_alt split: if_splits)
qed (use assms(2) in \<open>auto simp: execute_approve_def execute_burn_def execute_wrap_burn_def supply_update_def
    refuse_def accept_def answer_def unat_saturating_sub Let_def not_less split: if_splits\<close>)

section \<open>An example token\<close>

definition demo_token :: usp01_token where
  "demo_token = \<lparr>ut_metadata = \<lparr>tm_name = ''T'', tm_symbol = ''T'', tm_decimals = 8, tm_total_supply = 100,
       tm_is_wrapped = False, tm_wrapped_origin = '''', tm_max_supply = 0\<rparr>,
     ut_balances = [(''a'', 100)], ut_allowances = [], ut_bridge_operator = ''''\<rparr>"

definition demo_approved :: usp01_token where
  "demo_approved = snd (usp01_execute (\<lambda>_. None) ''a'' (Approve ''b'' 40) demo_token)"

definition demo_spent :: usp01_token where
  "demo_spent = snd (usp01_execute (\<lambda>_. None) ''b'' (TransferFrom ''a'' ''c'' 30) demo_approved)"

lemma demo_token_new: "usp01_new ''T'' ''T'' 8 100 ''a'' = Ok demo_token"
  by (simp add: usp01_new_def metadata_validate_def demo_token_def Let_def)

lemma demo_run: "(usp01_step (\<lambda>_. None))\<^sup>*\<^sup>* demo_token demo_spent"
proof -
  have "usp01_step (\<lambda>_. None) demo_token demo_approved"
    unfolding demo_approved_def
    by (rule usp01_step.execute [OF prod.collapse [symmetric]]) (simp add: no_mint_overflow_def)
  moreover have "usp01_step (\<lambda>_. None) demo_approved demo_spent"
    unfolding demo_spent_def
    by (rule usp01_step.execute [OF prod.collapse [symmetric]]) (simp add: no_mint_overflow_def)
  ultimately show ?thesis by (meson converse_rtranclp_into_rtranclp rtranclp.rtrancl_refl)
qed


theorem token_debit_is_authorised_witness:
  "balance_of demo_spent ''a'' = 70
   \<and> unat (allowance_of demo_spent ''a'' ''b'') + 30 = unat (allowance_of demo_approved ''a'' ''b'')"
proof -
  have inv: "token_inv demo_approved"
    by (simp add: token_inv_def demo_approved_def execute_approve_def demo_token_def bt_ok_def bt_sum_def)
  have bal: "balance_of demo_spent ''a'' = 70" "balance_of demo_approved ''a'' = 100"
    by (simp_all add: demo_spent_def demo_approved_def execute_approve_def execute_transfer_from_def
        demo_token_def or_zero_def debit_def credit_def Let_def less_char_def)
  obtain r where run: "usp01_execute (\<lambda>_. None) ''b'' (TransferFrom ''a'' ''c'' 30) demo_approved = (r, demo_spent)"
    unfolding demo_spent_def by (metis prod.collapse)
  have "\<exists>to amount. TransferFrom ''a'' ''c'' 30 = TransferFrom ''a'' to amount
      \<and> unat (allowance_of demo_spent ''a'' ''b'') + unat amount = unat (allowance_of demo_approved ''a'' ''b'')"
    using token_debit_is_authorised [OF inv run, of "''a''"] bal
    by (auto simp: no_mint_overflow_def word_less_nat_alt)
  then show ?thesis using bal by auto
qed

end
