(* ===== verification/Usp01_Contract.thy ===== *)
theory Usp01_Contract
  imports Contract_Host Usp01
begin

text \<open>
  The deployable USP-01 token contract (\<open>los-contracts/src/usp01_token.rs\<close>): every exported function
  takes the call context and the contract state and returns the exit code with the new state. The
  comments of \<open>los-vm/src/usp01.rs\<close> call its in-process token the reference implementation of the
  standard; that the contract refines it is shown in \<open>Usp01_Refinement\<close>.
\<close>

section \<open>Helpers\<close>

definition bal_key :: "string \<Rightarrow> string" where
  "bal_key addr = ''bal:'' @ addr"

definition allow_key :: "string \<Rightarrow> string \<Rightarrow> string" where
  "allow_key owner spender = ''allow:'' @ owner @ '':'' @ spender"

definition get_balance :: "contract_state \<Rightarrow> string \<Rightarrow> u128" where
  "get_balance s addr = get_state_u128 s (bal_key addr)"

definition set_balance :: "string \<Rightarrow> u128 \<Rightarrow> contract_state \<Rightarrow> contract_state" where
  "set_balance addr amount s = set_state_u128 (bal_key addr) amount s"

definition get_allowance :: "contract_state \<Rightarrow> string \<Rightarrow> string \<Rightarrow> u128" where
  "get_allowance s owner spender = get_state_u128 s (allow_key owner spender)"

definition set_allowance :: "string \<Rightarrow> string \<Rightarrow> u128 \<Rightarrow> contract_state \<Rightarrow> contract_state" where
  "set_allowance owner spender amount s = set_state_u128 (allow_key owner spender) amount s"

definition get_total_supply :: "contract_state \<Rightarrow> u128" where
  "get_total_supply s = get_state_u128 s ''usp01:total_supply''"

definition set_total_supply :: "u128 \<Rightarrow> contract_state \<Rightarrow> contract_state" where
  "set_total_supply val s = set_state_u128 ''usp01:total_supply'' val s"

definition is_initialized :: "contract_state \<Rightarrow> bool" where
  "is_initialized s = (state_get_str s ''usp01:init'' = Some ''1'')"

definition token_fail :: "string \<Rightarrow> contract_state \<Rightarrow> int \<times> contract_state" where
  "token_fail msg s = (1, set_return_str (json_raw [(''success'', ''false''), (''msg'', json_str msg)]) s)"

definition token_ok_data :: "string \<Rightarrow> contract_state \<Rightarrow> int \<times> contract_state" where
  "token_ok_data data s = (0, set_return_str (json_raw [(''success'', ''true''), (''data'', data)]) s)"

definition token_return :: "string \<Rightarrow> contract_state \<Rightarrow> int \<times> contract_state" where
  "token_return data s = (0, set_return_str data s)"

fun token_json_escape :: "string \<Rightarrow> string" where
  "token_json_escape [] = []"
| "token_json_escape (c # cs) =
     (if c = CHR 0x22 then [CHR 0x5C, CHR 0x22]
      else if c = CHR 0x5C then [CHR 0x5C, CHR 0x5C]
      else if c = CHR 0x0A then [CHR 0x5C, CHR ''n'']
      else if c = CHR 0x0D then [CHR 0x5C, CHR ''r'']
      else if c = CHR 0x09 then [CHR 0x5C, CHR ''t'']
      else [c]) @ token_json_escape cs"

definition token_is_wrapped :: "contract_state \<Rightarrow> bool" where
  "token_is_wrapped s = (get_state_str s ''usp01:is_wrapped'' = ''1'')"

section \<open>Exported functions\<close>

definition store_token ::
  "string \<Rightarrow> string \<Rightarrow> u64 \<Rightarrow> u128 \<Rightarrow> bool \<Rightarrow> string \<Rightarrow> u128 \<Rightarrow> string \<Rightarrow> string \<Rightarrow> contract_state \<Rightarrow> contract_state" where
  "store_token name symbol decimals total_supply is_wrapped wrapped_origin max_supply bridge_operator creator s =
     (let s = state_set_str ''usp01:init'' ''1'' s;
          s = state_set_str ''usp01:name'' name s;
          s = state_set_str ''usp01:symbol'' symbol s;
          s = state_set_str ''usp01:decimals'' (uint_to_string decimals) s;
          s = set_total_supply total_supply s;
          s = state_set_str ''usp01:is_wrapped'' (if is_wrapped then ''1'' else ''0'') s;
          s = state_set_str ''usp01:wrapped_origin'' wrapped_origin s;
          s = state_set_str ''usp01:max_supply'' (u128_to_str max_supply) s;
          s = state_set_str ''usp01:bridge_operator'' bridge_operator s;
          s = state_set_str ''usp01:owner'' creator s
      in set_balance creator total_supply s)"

definition token_init :: "contract_ctx \<Rightarrow> contract_state \<Rightarrow> int \<times> contract_state" where
  "token_init ctx s =
     (if is_initialized s then token_fail ''Already initialized'' s
      else case cx_arg ctx 0 of None \<Rightarrow> token_fail ''name required (1-64 chars)'' s
      | Some name \<Rightarrow>
        if name = [] \<or> length name > 64 then token_fail ''name required (1-64 chars)'' s
        else case cx_arg ctx 1 of None \<Rightarrow> token_fail ''symbol required (1-8 chars)'' s
      | Some symbol \<Rightarrow>
        if symbol = [] \<or> length symbol > 8 then token_fail ''symbol required (1-8 chars)'' s
        else case parse_uint (arg_or_empty ctx 2) of None \<Rightarrow> token_fail ''decimals must be 0-18'' s
      | Some (decimals :: u64) \<Rightarrow>
        if decimals > 18 then token_fail ''decimals must be 0-18'' s
        else
          let total_supply = parse_u128 (arg_or_empty ctx 3) in
          if total_supply = 0 then token_fail ''total_supply must be > 0'' s
          else
            let is_wrapped = (arg_or_empty ctx 4 = ''1'');
                wrapped_origin = arg_or_empty ctx 5;
                max_supply = (if arg_or_empty ctx 6 = [] then 0 else parse_u128 (arg_or_empty ctx 6));
                bridge_operator = arg_or_empty ctx 7 in
            if max_supply > 0 \<and> total_supply > max_supply then token_fail ''total_supply exceeds max_supply'' s
            else if is_wrapped \<and> wrapped_origin = [] then token_fail ''wrapped tokens must specify wrapped_origin'' s
            else if is_wrapped \<and> bridge_operator = [] then token_fail ''wrapped tokens must specify bridge_operator'' s
            else
              let creator = cx_caller ctx in
              if creator = [] then token_fail ''caller address not available'' s
              else
                let s = store_token name symbol decimals total_supply is_wrapped wrapped_origin max_supply
                          bridge_operator creator s;
                    s = event_emit ''USP01:Init''
                      (json_raw
                        [(''name'', json_str (token_json_escape name)),
                         (''symbol'', json_str (token_json_escape symbol)), (''decimals'', uint_to_string decimals),
                         (''total_supply'', json_str (u128_to_str total_supply)),
                         (''creator'', json_str (token_json_escape creator))]) s;
                    s = host_log (''USP-01 token initialized: '' @ name @ '' ('' @ symbol @ '') supply=''
                          @ u128_to_str total_supply) s
                in token_return
                     (json_raw
                       [(''success'', ''true''), (''name'', json_str (token_json_escape name)),
                        (''symbol'', json_str (token_json_escape symbol)),
                        (''total_supply'', json_str (u128_to_str total_supply)),
                        (''owner'', json_str (token_json_escape creator)),
                        (''contract'', json_str (token_json_escape (cx_self ctx)))]) s)"

text \<open>A debit and a credit as \<open>transfer\<close> and \<open>transfer_from\<close> perform them: the debited balance is
  already stored when the credit is checked.\<close>

definition move_balance ::
  "string \<Rightarrow> string \<Rightarrow> u128 \<Rightarrow> (contract_state \<Rightarrow> int \<times> contract_state) \<Rightarrow> contract_state \<Rightarrow> int \<times> contract_state" where
  "move_balance from_addr to_addr amount k s =
     (case checked_sub (get_balance s from_addr) amount of
        None \<Rightarrow> token_fail ''arithmetic underflow'' s
      | Some new_from \<Rightarrow>
          let s = set_balance from_addr new_from s in
          case checked_add (get_balance s to_addr) amount of
            None \<Rightarrow> token_fail ''arithmetic overflow'' s
          | Some new_to \<Rightarrow> k (set_balance to_addr new_to s))"

definition transfer :: "contract_ctx \<Rightarrow> contract_state \<Rightarrow> int \<times> contract_state" where
  "transfer ctx s =
     (if \<not> is_initialized s then token_fail ''Contract not initialized'' s
      else case arg_nonempty ctx 0 of None \<Rightarrow> token_fail ''recipient address required'' s
      | Some to_addr \<Rightarrow>
        let amount = parse_u128 (arg_or_empty ctx 1); from_addr = cx_caller ctx in
        if amount = 0 then token_fail ''amount must be > 0'' s
        else if from_addr = [] then token_fail ''caller address not available'' s
        else if from_addr = to_addr then token_fail ''cannot transfer to self'' s
        else if get_balance s from_addr < amount then token_fail ''insufficient balance'' s
        else move_balance from_addr to_addr amount
          (\<lambda>s. token_return
             (json_raw
               [(''success'', ''true''), (''from'', json_str (token_json_escape from_addr)),
                (''to'', json_str (token_json_escape to_addr)),
                (''amount'', json_str (u128_to_str amount))])
             (event_emit ''USP01:Transfer''
               (json_obj
                 [(''from'', token_json_escape from_addr), (''to'', token_json_escape to_addr),
                  (''amount'', u128_to_str amount)]) s)) s)"

definition approve :: "contract_ctx \<Rightarrow> contract_state \<Rightarrow> int \<times> contract_state" where
  "approve ctx s =
     (if \<not> is_initialized s then token_fail ''Contract not initialized'' s
      else case arg_nonempty ctx 0 of None \<Rightarrow> token_fail ''spender address required'' s
      | Some spender \<Rightarrow>
        let amount = parse_u128 (arg_or_empty ctx 1); owner = cx_caller ctx in
        if owner = [] then token_fail ''caller address not available'' s
        else if owner = spender then token_fail ''cannot approve self'' s
        else
          let s = set_allowance owner spender amount s;
              s = event_emit ''USP01:Approval''
                (json_obj
                  [(''owner'', token_json_escape owner), (''spender'', token_json_escape spender),
                   (''amount'', u128_to_str amount)]) s
          in token_return
               (json_raw
                 [(''success'', ''true''), (''owner'', json_str (token_json_escape owner)),
                  (''spender'', json_str (token_json_escape spender)),
                  (''amount'', json_str (u128_to_str amount))]) s)"

definition transfer_from :: "contract_ctx \<Rightarrow> contract_state \<Rightarrow> int \<times> contract_state" where
  "transfer_from ctx s =
     (if \<not> is_initialized s then token_fail ''Contract not initialized'' s
      else case arg_nonempty ctx 0 of None \<Rightarrow> token_fail ''from address required'' s
      | Some from_addr \<Rightarrow> (case arg_nonempty ctx 1 of None \<Rightarrow> token_fail ''to address required'' s
      | Some to_addr \<Rightarrow>
        let amount = parse_u128 (arg_or_empty ctx 2) in
        if amount = 0 then token_fail ''amount must be > 0'' s
        else if from_addr = to_addr then token_fail ''from and to must differ'' s
        else
          let spender = cx_caller ctx in
          if spender = [] then token_fail ''caller address not available'' s
          else
            let allowance = get_allowance s from_addr spender in
            if allowance < amount then token_fail ''allowance exceeded'' s
            else if get_balance s from_addr < amount then token_fail ''insufficient balance'' s
            else move_balance from_addr to_addr amount
              (\<lambda>s.
                let new_allowance = (case checked_sub allowance amount of Some v \<Rightarrow> v | None \<Rightarrow> 0);
                    s = set_allowance from_addr spender new_allowance s;
                    s = event_emit ''USP01:Transfer''
                      (json_obj
                        [(''from'', token_json_escape from_addr), (''to'', token_json_escape to_addr),
                         (''amount'', u128_to_str amount), (''spender'', token_json_escape spender)]) s
                in token_return
                     (json_raw
                       [(''success'', ''true''), (''from'', json_str (token_json_escape from_addr)),
                        (''to'', json_str (token_json_escape to_addr)),
                        (''amount'', json_str (u128_to_str amount)),
                        (''spender'', json_str (token_json_escape spender))]) s) s))"

definition debit_and_burn ::
  "string \<Rightarrow> u128 \<Rightarrow> (u128 \<Rightarrow> contract_state \<Rightarrow> int \<times> contract_state) \<Rightarrow> contract_state \<Rightarrow> int \<times> contract_state" where
  "debit_and_burn from_addr amount k s =
     (case checked_sub (get_balance s from_addr) amount of
        None \<Rightarrow> token_fail ''arithmetic underflow'' s
      | Some new_bal \<Rightarrow>
          let s = set_balance from_addr new_bal s;
              new_supply = saturating_sub (get_total_supply s) amount
          in k new_supply (set_total_supply new_supply s))"

definition burn :: "contract_ctx \<Rightarrow> contract_state \<Rightarrow> int \<times> contract_state" where
  "burn ctx s =
     (if \<not> is_initialized s then token_fail ''Contract not initialized'' s
      else
        let amount = parse_u128 (arg_or_empty ctx 0); from_addr = cx_caller ctx in
        if amount = 0 then token_fail ''amount must be > 0'' s
        else if from_addr = [] then token_fail ''caller address not available'' s
        else if get_balance s from_addr < amount then token_fail ''insufficient balance to burn'' s
        else debit_and_burn from_addr amount
          (\<lambda>new_supply s. token_return
             (json_raw
               [(''success'', ''true''), (''burned'', json_str (u128_to_str amount)),
                (''new_supply'', json_str (u128_to_str new_supply))])
             (event_emit ''USP01:Burn''
               (json_obj
                 [(''from'', token_json_escape from_addr), (''amount'', u128_to_str amount),
                  (''new_supply'', u128_to_str new_supply)]) s)) s)"

definition token_balance_of :: "contract_ctx \<Rightarrow> contract_state \<Rightarrow> int \<times> contract_state" where
  "token_balance_of ctx s =
     (if \<not> is_initialized s then token_fail ''Contract not initialized'' s
      else case arg_nonempty ctx 0 of None \<Rightarrow> token_fail ''account address required'' s
      | Some account \<Rightarrow>
          token_ok_data (json_obj
            [(''account'', token_json_escape account),
             (''balance'', u128_to_str (get_balance s account))]) s)"

definition token_allowance_of :: "contract_ctx \<Rightarrow> contract_state \<Rightarrow> int \<times> contract_state" where
  "token_allowance_of ctx s =
     (if \<not> is_initialized s then token_fail ''Contract not initialized'' s
      else case arg_nonempty ctx 0 of None \<Rightarrow> token_fail ''owner address required'' s
      | Some owner \<Rightarrow> (case arg_nonempty ctx 1 of None \<Rightarrow> token_fail ''spender address required'' s
      | Some spender \<Rightarrow>
          token_ok_data
            (json_obj
              [(''owner'', token_json_escape owner), (''spender'', token_json_escape spender),
               (''allowance'', u128_to_str (get_allowance s owner spender))]) s))"

definition token_total_supply :: "contract_state \<Rightarrow> int \<times> contract_state" where
  "token_total_supply s =
     (if \<not> is_initialized s then token_fail ''Contract not initialized'' s
      else token_ok_data (json_obj [(''total_supply'', u128_to_str (get_total_supply s))]) s)"

definition token_info :: "contract_ctx \<Rightarrow> contract_state \<Rightarrow> int \<times> contract_state" where
  "token_info ctx s =
     (if \<not> is_initialized s then token_fail ''Contract not initialized'' s
      else
        let field = (\<lambda>k. json_str (token_json_escape (get_state_str s k)))
        in token_ok_data
          (json_raw
            [(''name'', field ''usp01:name''), (''symbol'', field ''usp01:symbol''),
             (''decimals'', u128_to_str (get_state_u128 s ''usp01:decimals'')),
             (''total_supply'', json_str (u128_to_str (get_total_supply s))),
             (''is_wrapped'', json_bool (token_is_wrapped s)),
             (''wrapped_origin'', field ''usp01:wrapped_origin''),
             (''max_supply'', json_str (u128_to_str (get_state_u128 s ''usp01:max_supply''))),
             (''bridge_operator'', field ''usp01:bridge_operator''), (''owner'', field ''usp01:owner''),
             (''contract'', json_str (token_json_escape (cx_self ctx))), (''standard'', json_str ''USP-01'')]) s)"

definition wrap_mint :: "contract_ctx \<Rightarrow> contract_state \<Rightarrow> int \<times> contract_state" where
  "wrap_mint ctx s =
     (if \<not> is_initialized s then token_fail ''Contract not initialized'' s
      else if \<not> token_is_wrapped s then token_fail ''not a wrapped asset'' s
      else if cx_caller ctx \<noteq> get_state_str s ''usp01:bridge_operator'' then
        token_fail ''only bridge operator can mint wrapped tokens'' s
      else case arg_nonempty ctx 0 of None \<Rightarrow> token_fail ''recipient address required'' s
      | Some to_addr \<Rightarrow>
        let amount = parse_u128 (arg_or_empty ctx 1) in
        if amount = 0 then token_fail ''amount must be > 0'' s
        else case arg_nonempty ctx 2 of None \<Rightarrow> token_fail ''deposit proof required'' s
      | Some proof_text \<Rightarrow>
        let max_supply = get_state_u128 s ''usp01:max_supply''; supply = get_total_supply s in
        if max_supply > 0 \<and> checked_add supply amount = None then token_fail ''supply overflow'' s
        else if max_supply > 0 \<and> supply + amount > max_supply then token_fail ''would exceed max supply cap'' s
        else case checked_add (get_balance s to_addr) amount of None \<Rightarrow> token_fail ''balance overflow'' s
      | Some new_to \<Rightarrow>
        let s = set_balance to_addr new_to s;
            new_supply = saturating_add supply amount;
            s = set_total_supply new_supply s;
            s = event_emit ''USP01:WrapMint''
              (json_obj
                [(''to'', token_json_escape to_addr), (''amount'', u128_to_str amount),
                 (''proof'', token_json_escape proof_text), (''new_supply'', u128_to_str new_supply)]) s
        in token_return
             (json_raw
               [(''success'', ''true''), (''to'', json_str (token_json_escape to_addr)),
                (''amount'', json_str (u128_to_str amount)),
                (''proof'', json_str (token_json_escape proof_text))]) s)"

definition wrap_burn :: "contract_ctx \<Rightarrow> contract_state \<Rightarrow> int \<times> contract_state" where
  "wrap_burn ctx s =
     (if \<not> is_initialized s then token_fail ''Contract not initialized'' s
      else if \<not> token_is_wrapped s then token_fail ''not a wrapped asset'' s
      else
        let amount = parse_u128 (arg_or_empty ctx 0) in
        if amount = 0 then token_fail ''amount must be > 0'' s
        else case arg_nonempty ctx 1 of None \<Rightarrow> token_fail ''destination address required'' s
      | Some destination \<Rightarrow>
        let from_addr = cx_caller ctx in
        if from_addr = [] then token_fail ''caller address not available'' s
        else if get_balance s from_addr < amount then token_fail ''insufficient balance for wrap burn'' s
        else debit_and_burn from_addr amount
          (\<lambda>new_supply s. token_return
             (json_raw
               [(''success'', ''true''), (''from'', json_str (token_json_escape from_addr)),
                (''amount'', json_str (u128_to_str amount)),
                (''destination'', json_str (token_json_escape destination))])
             (event_emit ''USP01:WrapBurn''
               (json_obj
                 [(''from'', token_json_escape from_addr), (''amount'', u128_to_str amount),
                  (''destination'', token_json_escape destination), (''new_supply'', u128_to_str new_supply)]) s)) s)"

end
