(* ===== verification/Usp01_Refinement.thy ===== *)
theory Usp01_Refinement
  imports Usp01_Contract
begin

text \<open>
  The WASM token contract refines the reference implementation of the USP-01 standard: a simulation
  between contract states and reference tokens, from deployment through every sequence of calls. The
  relation reads the contract's string-keyed store at well-formed addresses.
\<close>

section \<open>Keys and outcomes\<close>

text \<open>Addresses: not empty, without a colon, and short enough that the host does not cut their keys.\<close>

definition addr_ok :: "string \<Rightarrow> bool" where
  "addr_ok a \<longleftrightarrow> a \<noteq> [] \<and> CHR '':'' \<notin> set a \<and> length a \<le> 256"

lemma short_token_keys [simp]:
  "addr_ok a \<Longrightarrow> short_key (bal_key a)"
  "addr_ok a \<Longrightarrow> addr_ok b \<Longrightarrow> short_key (allow_key a b)"
  by (simp_all add: addr_ok_def bal_key_def allow_key_def MAX_STATE_KEY_SIZE_def)

lemma token_key_eq [simp]:
  "bal_key a = bal_key b \<longleftrightarrow> a = b"
  "bal_key a \<noteq> allow_key b c" "allow_key b c \<noteq> bal_key a"
  "bal_key a \<noteq> CHR ''u'' # cs" "CHR ''u'' # cs \<noteq> bal_key a"
  "allow_key a b \<noteq> CHR ''u'' # cs" "CHR ''u'' # cs \<noteq> allow_key a b"
  by (simp_all add: bal_key_def allow_key_def)

lemma allow_key_eq:
  "addr_ok a \<Longrightarrow> addr_ok b \<Longrightarrow> addr_ok c \<Longrightarrow> addr_ok d \<Longrightarrow> allow_key a b = allow_key c d \<longleftrightarrow> a = c \<and> b = d"
  using last_sep_split [of "CHR '':''" b d "''allow:'' @ a" "''allow:'' @ c"]
  by (simp add: addr_ok_def allow_key_def)

lemmas token_kv_defs = get_balance_def set_balance_def get_allowance_def set_allowance_def get_total_supply_def
  set_total_supply_def is_initialized_def token_is_wrapped_def

lemma token_results [simp]:
  "token_fail m s = (c, t) \<longleftrightarrow> c = 1 \<and> t = snd (token_fail m s)"
  "token_ok_data m s = (c, t) \<longleftrightarrow> c = 0 \<and> t = snd (token_ok_data m s)"
  "token_return m s = (c, t) \<longleftrightarrow> c = 0 \<and> t = snd (token_return m s)"
  by (auto simp: token_fail_def token_ok_data_def token_return_def)

lemma token_results_kv [simp]:
  "ct_kv (snd (token_fail m s)) = ct_kv s" "ct_kv (snd (token_ok_data m s)) = ct_kv s"
  "ct_kv (snd (token_return m s)) = ct_kv s" "ct_kv (event_emit e j s) = ct_kv s" "ct_kv (host_log msg s) = ct_kv s"
  by (simp_all add: token_fail_def token_ok_data_def token_return_def set_return_str_def event_emit_def host_log_def)

lemma token_kv_cong:
  assumes "ct_kv s = ct_kv t"
  shows "get_state_str s = get_state_str t" "get_state_u128 s = get_state_u128 t" "state_get_str s = state_get_str t"
  using assms by (auto simp: fun_eq_iff get_state_str_def get_state_u128_def state_get_str_def)

section \<open>Relation to the reference token\<close>

definition token_rel :: "contract_state \<Rightarrow> usp01_token \<Rightarrow> bool" where
  "token_rel s t \<longleftrightarrow>
     is_initialized s \<and>
     (\<forall>a. addr_ok a \<longrightarrow> get_balance s a = balance_of t a) \<and>
     (\<forall>a b. addr_ok a \<longrightarrow> addr_ok b \<longrightarrow> get_allowance s a b = allowance_of t a b) \<and>
     get_total_supply s = tm_total_supply (ut_metadata t) \<and>
     token_is_wrapped s = tm_is_wrapped (ut_metadata t) \<and>
     get_state_str s ''usp01:bridge_operator'' = ut_bridge_operator t"

lemma token_rel_kv: "ct_kv s' = ct_kv s \<Longrightarrow> token_rel s t \<Longrightarrow> token_rel s' t"
  using token_kv_cong [of s' s] by (simp add: token_rel_def token_kv_defs)

lemma is_initialized_set [simp]:
  "k \<noteq> ''usp01:init'' \<Longrightarrow> is_initialized (set_state_u128 k v s) = is_initialized s"
  by (simp add: is_initialized_def state_get_str_def set_state_u128_def state_set_str_def)

lemma token_rel_set_balance:
  "token_rel s t \<Longrightarrow> addr_ok a \<Longrightarrow>
     token_rel (set_balance a v s) (t\<lparr>ut_balances := bt_insert a v (ut_balances t)\<rparr>)"
  by (auto simp: token_rel_def or_zero_def token_kv_defs(1-6,8))

lemma token_rel_set_allowance:
  "token_rel s t \<Longrightarrow> addr_ok a \<Longrightarrow> addr_ok b \<Longrightarrow>
     token_rel (set_allowance a b v s) (t\<lparr>ut_allowances := bt_insert (a, b) v (ut_allowances t)\<rparr>)"
  by (auto simp: token_rel_def or_zero_def token_kv_defs(1-6,8) allow_key_eq)

lemma token_rel_set_supply:
  "token_rel s t \<Longrightarrow> token_rel (set_total_supply v s) (supply_update (\<lambda>_. v) t)"
  by (auto simp: token_rel_def supply_update_def token_kv_defs(1-6,8))

definition reference_next ::
  "(token_metadata \<Rightarrow> string option) \<Rightarrow> string \<times> usp01_action \<Rightarrow> usp01_token \<Rightarrow> usp01_token option" where
  "reference_next json_of l t =
     (let (r, t') = usp01_execute json_of (fst l) (snd l) t in if ur_success r then Some t' else None)"

text \<open>No account can overflow by a transfer: two different balances fit into the supply together.\<close>

lemma two_balances_fit:
  assumes "token_inv t" "a \<noteq> b"
  shows "unat (balance_of t a) + unat (balance_of t b) < 2 ^ 128"
proof -
  have ok: "bt_ok (ut_balances t)" using assms(1) by (simp add: token_inv_def)
  have "unat (balance_of t b) \<le> bt_sum unat (bt_remove a (ut_balances t))"
    using bt_share_le_sum [of "bt_remove a (ut_balances t)" unat b] ok assms(2) by (simp add: bt_share_unat)
  moreover have "bt_sum unat (bt_remove a (ut_balances t)) + unat (balance_of t a) = supply_of t"
    using bt_sum_remove [OF ok, of unat a] assms(1) by (simp add: bt_share_unat token_inv_def)
  ultimately show ?thesis using unat_less_exp [of "tm_total_supply (ut_metadata t)"] by simp
qed

lemma move_balance_refines:
  assumes rel: "token_rel s t" and inv: "token_inv t" and a: "addr_ok a" "addr_ok b" "a \<noteq> b"
    and le: "amount \<le> get_balance s a"
  obtains s1 where "move_balance a b amount k s = k s1"
    "token_rel s1 (t\<lparr>ut_balances := credit b amount (debit a amount (ut_balances t))\<rparr>)"
proof -
  let ?x = "get_balance s a - amount" and ?y = "get_balance s b + amount"
  let ?s = "set_balance b ?y (set_balance a ?x s)"
  have bal: "get_balance s a = balance_of t a" "get_balance s b = balance_of t b"
    using rel a by (simp_all add: token_rel_def)
  have fit: "unat (get_balance s b) + unat amount < 2 ^ 128"
    using two_balances_fit [OF inv a(3)] le by (simp add: bal word_le_nat_alt)
  have other: "get_balance (set_balance a ?x s) b = get_balance s b"
    using a by (simp add: get_balance_def set_balance_def)
  have "move_balance a b amount k s = k ?s"
    using le fit by (simp add: move_balance_def Let_def other checked_add_def)
  moreover have "debit a amount (ut_balances t) = bt_insert a ?x (ut_balances t)"
    using le by (simp add: debit_def bal)
  moreover have "credit b amount (bt_insert a ?x (ut_balances t)) = bt_insert b ?y (bt_insert a ?x (ut_balances t))"
    using fit a(3) by (simp add: credit_def checked_add_def bal)
  ultimately show thesis
    using that token_rel_set_balance [OF token_rel_set_balance [OF rel a(1), of ?x] a(2), of ?y] by simp
qed

definition opt_addr :: "string \<Rightarrow> bool" where
  "opt_addr a \<longleftrightarrow> a = [] \<or> addr_ok a"

lemma arg_nonempty_cases:
  obtains "arg_nonempty ctx i = None" | "arg_nonempty ctx i = Some (arg_or_empty ctx i)" "arg_or_empty ctx i \<noteq> []"
  by (cases "cx_arg ctx i"; cases "arg_or_empty ctx i = []") (auto simp: arg_nonempty_def arg_or_empty_def)

text \<open>What a call may do on a related state: fail and store nothing, or do what the reference does.\<close>

definition refines_action ::
  "(token_metadata \<Rightarrow> string option) \<Rightarrow> string \<times> usp01_action \<Rightarrow> usp01_token \<Rightarrow> contract_state \<Rightarrow> int \<times> contract_state \<Rightarrow> bool" where
  "refines_action json_of l t s res \<longleftrightarrow>
     (fst res = 1 \<and> ct_kv (snd res) = ct_kv s) \<or>
     (fst res = 0 \<and> (\<exists>t'. reference_next json_of l t = Some t' \<and> token_rel (snd res) t'))"

lemma refines_fail [simp]: "refines_action json_of l t s (token_fail m s)"
  by (simp add: refines_action_def) (simp add: token_fail_def)

lemma refines_done:
  assumes "reference_next json_of l t = Some t'" "token_rel s1 t'"
  shows "refines_action json_of l t s (token_return d (event_emit e j s1))"
proof -
  have "token_rel (snd (token_return d (event_emit e j s1))) t'"
    by (rule token_rel_kv [OF _ assms(2)]) simp
  then show ?thesis using assms(1) by (simp add: refines_action_def) (simp add: token_return_def)
qed

lemma refines_move:
  assumes "token_rel s t" "token_inv t" "addr_ok a" "addr_ok b" "a \<noteq> b" "amount \<le> get_balance s a"
    and "\<And>s1. token_rel s1 (t\<lparr>ut_balances := credit b amount (debit a amount (ut_balances t))\<rparr>) \<Longrightarrow>
      refines_action json_of l t s (k s1)"
  shows "refines_action json_of l t s (move_balance a b amount k s)"
  by (rule move_balance_refines [OF assms(1-6), of k]) (simp add: assms(7))

lemma transfer_refines:
  assumes "token_rel s t" "token_inv t" "opt_addr (cx_caller ctx)" "opt_addr (arg_or_empty ctx 0)"
  shows "refines_action json_of (cx_caller ctx, Transfer (arg_or_empty ctx 0) (parse_u128 (arg_or_empty ctx 1))) t s
    (transfer ctx s)"
proof -
  let ?a = "cx_caller ctx" and ?b = "arg_or_empty ctx 0" and ?n = "parse_u128 (arg_or_empty ctx 1)"
  have "refines_action json_of (?a, Transfer ?b ?n) t s
      (move_balance ?a ?b ?n (\<lambda>s. token_return d (event_emit e j s)) s)"
    if "?n \<le> get_balance s ?a" "?a \<noteq> ?b" "?a \<noteq> []" "?b \<noteq> []" for d e j
  proof (rule refines_move [OF assms(1,2)])
    show ok: "addr_ok ?a" "addr_ok ?b" "?a \<noteq> ?b" "?n \<le> get_balance s ?a"
      using that assms(3,4) by (simp_all add: opt_addr_def)
    then have "\<not> balance_of t ?a < ?n" using assms(1) by (simp add: token_rel_def not_less)
    then have "reference_next json_of (?a, Transfer ?b ?n) t =
        Some (t\<lparr>ut_balances := credit ?b ?n (debit ?a ?n (ut_balances t))\<rparr>)"
      by (simp add: reference_next_def execute_transfer_def accept_def Let_def)
    then show "refines_action json_of (?a, Transfer ?b ?n) t s (token_return d (event_emit e j s1))"
      if "token_rel s1 (t\<lparr>ut_balances := credit ?b ?n (debit ?a ?n (ut_balances t))\<rparr>)" for s1
      using that by (rule refines_done)
  qed
  then show ?thesis
    by (cases rule: arg_nonempty_cases [of ctx 0]) (simp_all add: transfer_def Let_def not_less)
qed

lemma transfer_from_refines:
  assumes "token_rel s t" "token_inv t" "opt_addr (cx_caller ctx)" "opt_addr (arg_or_empty ctx 0)"
    "opt_addr (arg_or_empty ctx 1)"
  shows "refines_action json_of
    (cx_caller ctx, TransferFrom (arg_or_empty ctx 0) (arg_or_empty ctx 1) (parse_u128 (arg_or_empty ctx 2))) t s
    (transfer_from ctx s)"
proof -
  let ?c = "cx_caller ctx" and ?a = "arg_or_empty ctx 0" and ?b = "arg_or_empty ctx 1"
  let ?n = "parse_u128 (arg_or_empty ctx 2)" and ?al = "get_allowance s (arg_or_empty ctx 0) (cx_caller ctx)"
  have "refines_action json_of (?c, TransferFrom ?a ?b ?n) t s
      (move_balance ?a ?b ?n (\<lambda>s. token_return d (event_emit e j (set_allowance ?a ?c (?al - ?n) s))) s)"
    if "?n \<le> get_balance s ?a" "?n \<le> ?al" "?a \<noteq> ?b" "?c \<noteq> []" "?a \<noteq> []" "?b \<noteq> []" for d e j
  proof (rule refines_move [OF assms(1,2)])
    show "addr_ok ?a" "addr_ok ?b" "?a \<noteq> ?b" "?n \<le> get_balance s ?a"
      using that assms(4,5) by (simp_all add: opt_addr_def)
    have c: "addr_ok ?c" "addr_ok ?a" using that assms(3,4) by (simp_all add: opt_addr_def)
    then have n: "\<not> balance_of t ?a < ?n" "\<not> allowance_of t ?a ?c < ?n" "?al = allowance_of t ?a ?c"
      using that assms(1) by (simp_all add: token_rel_def not_less)
    fix s1
    assume s1: "token_rel s1 (t\<lparr>ut_balances := credit ?b ?n (debit ?a ?n (ut_balances t))\<rparr>)"
    show "refines_action json_of (?c, TransferFrom ?a ?b ?n) t s
        (token_return d (event_emit e j (set_allowance ?a ?c (?al - ?n) s1)))"
      by (rule refines_done [OF _ token_rel_set_allowance [OF s1 c(2,1)]])
        (use n in \<open>simp add: reference_next_def execute_transfer_from_def accept_def Let_def debit_def [of "(_, _)"] not_less\<close>)
  qed
  then show ?thesis
    by (cases rule: arg_nonempty_cases [of ctx 0]; cases rule: arg_nonempty_cases [of ctx 1])
      (simp_all add: transfer_from_def Let_def not_less)
qed

lemma approve_refines:
  assumes "token_rel s t" "opt_addr (cx_caller ctx)" "opt_addr (arg_or_empty ctx 0)"
  shows "refines_action json_of (cx_caller ctx, Approve (arg_or_empty ctx 0) (parse_u128 (arg_or_empty ctx 1))) t s
    (approve ctx s)"
proof -
  let ?a = "cx_caller ctx" and ?b = "arg_or_empty ctx 0" and ?n = "parse_u128 (arg_or_empty ctx 1)"
  have "refines_action json_of (?a, Approve ?b ?n) t s (token_return d (event_emit e j (set_allowance ?a ?b ?n s)))"
    if "?a \<noteq> []" "?b \<noteq> []" for d e j
    by (rule refines_done [OF _ token_rel_set_allowance [OF assms(1)]])
      (use that assms(2,3) in \<open>simp_all add: reference_next_def execute_approve_def accept_def opt_addr_def\<close>)
  then show ?thesis
    by (cases rule: arg_nonempty_cases [of ctx 0]) (simp_all add: approve_def Let_def)
qed

text \<open>Burning and redeeming debit the caller and the supply alike.\<close>

lemma debit_and_burn_refines:
  assumes "token_rel s t" "addr_ok a" "amount \<le> get_balance s a"
  obtains s1 n where "debit_and_burn a amount k s = k n s1"
    "token_rel s1 (supply_update (\<lambda>s. saturating_sub s amount) (t\<lparr>ut_balances := debit a amount (ut_balances t)\<rparr>))"
proof -
  let ?s = "set_balance a (get_balance s a - amount) s"
  let ?n = "saturating_sub (tm_total_supply (ut_metadata t)) amount"
  have bal: "get_balance s a = balance_of t a" and sup: "get_total_supply ?s = tm_total_supply (ut_metadata t)"
    using assms by (simp_all add: token_rel_def get_total_supply_def set_balance_def)
  have "debit_and_burn a amount k s = k ?n (set_total_supply ?n ?s)"
    using assms(3) by (simp add: debit_and_burn_def Let_def sup)
  moreover have "token_rel (set_total_supply ?n ?s) (supply_update (\<lambda>s. saturating_sub s amount)
      (t\<lparr>ut_balances := debit a amount (ut_balances t)\<rparr>))"
    using token_rel_set_supply [OF token_rel_set_balance [OF assms(1,2), of "get_balance s a - amount"], of ?n] assms(3)
    by (simp add: supply_update_def debit_def bal)
  ultimately show thesis using that by blast
qed

lemma refines_debit:
  assumes "token_rel s t" "addr_ok a" "amount \<le> get_balance s a"
    and "\<And>s1 n. token_rel s1 (supply_update (\<lambda>s. saturating_sub s amount)
        (t\<lparr>ut_balances := debit a amount (ut_balances t)\<rparr>)) \<Longrightarrow> refines_action json_of l t s (k n s1)"
  shows "refines_action json_of l t s (debit_and_burn a amount k s)"
  by (rule debit_and_burn_refines [OF assms(1-3), of k]) (simp add: assms(4))

lemma burn_refines:
  assumes "token_rel s t" "opt_addr (cx_caller ctx)"
  shows "refines_action json_of (cx_caller ctx, Burn (parse_u128 (arg_or_empty ctx 0))) t s (burn ctx s)"
proof -
  let ?a = "cx_caller ctx" and ?n = "parse_u128 (arg_or_empty ctx 0)"
  have "refines_action json_of (?a, Burn ?n) t s
      (debit_and_burn ?a ?n (\<lambda>m s. token_return (d m) (event_emit e (j m) s)) s)"
    if "?n \<le> get_balance s ?a" "?a \<noteq> []" for d e j
  proof -
    have a: "addr_ok ?a" using that assms(2) by (simp add: opt_addr_def)
    then have "\<not> balance_of t ?a < ?n" using that assms(1) by (simp add: token_rel_def not_less)
    then have "reference_next json_of (?a, Burn ?n) t =
        Some (supply_update (\<lambda>s. saturating_sub s ?n) (t\<lparr>ut_balances := debit ?a ?n (ut_balances t)\<rparr>))"
      by (simp add: reference_next_def execute_burn_def accept_def Let_def)
    from refines_done [OF this] show ?thesis by (rule refines_debit [OF assms(1) a that(1)])
  qed
  then show ?thesis by (simp add: burn_def Let_def not_less)
qed

lemma wrap_burn_refines:
  assumes "token_rel s t" "opt_addr (cx_caller ctx)"
  shows "refines_action json_of (cx_caller ctx, WrapBurn (parse_u128 (arg_or_empty ctx 0)) (arg_or_empty ctx 1)) t s
    (wrap_burn ctx s)"
proof -
  let ?a = "cx_caller ctx" and ?n = "parse_u128 (arg_or_empty ctx 0)" and ?d = "arg_or_empty ctx 1"
  have "refines_action json_of (?a, WrapBurn ?n ?d) t s
      (debit_and_burn ?a ?n (\<lambda>m s. token_return (d m) (event_emit e (j m) s)) s)"
    if "?n \<le> get_balance s ?a" "?a \<noteq> []" "token_is_wrapped s" for d e j
  proof -
    have a: "addr_ok ?a" using that assms(2) by (simp add: opt_addr_def)
    then have "\<not> balance_of t ?a < ?n" "tm_is_wrapped (ut_metadata t)"
      using that assms(1) by (simp_all add: token_rel_def not_less)
    then have "reference_next json_of (?a, WrapBurn ?n ?d) t =
        Some (supply_update (\<lambda>s. saturating_sub s ?n) (t\<lparr>ut_balances := debit ?a ?n (ut_balances t)\<rparr>))"
      by (simp add: reference_next_def execute_wrap_burn_def accept_def Let_def)
    from refines_done [OF this] show ?thesis by (rule refines_debit [OF assms(1) a that(1)])
  qed
  then show ?thesis
    by (cases rule: arg_nonempty_cases [of ctx 1]) (simp_all add: wrap_burn_def Let_def not_less)
qed

lemma wrap_mint_refines:
  assumes "token_rel s t" "opt_addr (arg_or_empty ctx 0)"
  shows "refines_action json_of
    (cx_caller ctx, WrapMint (arg_or_empty ctx 0) (parse_u128 (arg_or_empty ctx 1)) (arg_or_empty ctx 2)) t s
    (wrap_mint ctx s)"
proof -
  let ?c = "cx_caller ctx" and ?a = "arg_or_empty ctx 0" and ?n = "parse_u128 (arg_or_empty ctx 1)"
  have "refines_action json_of (?c, WrapMint ?a ?n (arg_or_empty ctx 2)) t s
      (token_return d (event_emit e j (set_total_supply (saturating_add (get_total_supply s) ?n) (set_balance ?a v s))))"
    if "checked_add (get_balance s ?a) ?n = Some v" "token_is_wrapped s" "?a \<noteq> []"
      "?c = get_state_str s ''usp01:bridge_operator''" for d e j v
  proof (rule refines_done [OF _ token_rel_set_supply [OF token_rel_set_balance [OF assms(1)]]])
    show a: "addr_ok ?a" using assms(2) that(3) by (simp add: opt_addr_def)
    have "get_balance s ?a = balance_of t ?a" "tm_is_wrapped (ut_metadata t)" "?c = ut_bridge_operator t"
      "get_total_supply s = tm_total_supply (ut_metadata t)"
      using assms(1) that a by (simp_all add: token_rel_def)
    then show "reference_next json_of (?c, WrapMint ?a ?n (arg_or_empty ctx 2)) t =
        Some (supply_update (\<lambda>_. saturating_add (get_total_supply s) ?n)
          (t\<lparr>ut_balances := bt_insert ?a v (ut_balances t)\<rparr>))"
      using that(1) by (simp add: reference_next_def execute_wrap_mint_def accept_def supply_update_def credit_def)
  qed
  then show ?thesis
    by (cases rule: arg_nonempty_cases [of ctx 0]; cases rule: arg_nonempty_cases [of ctx 2])
      (simp_all add: wrap_mint_def Let_def split: option.split)
qed

section \<open>Simulation\<close>

definition call_addresses_ok :: "contract_ctx \<Rightarrow> nat list \<Rightarrow> bool" where
  "call_addresses_ok ctx is \<longleftrightarrow> opt_addr (cx_caller ctx) \<and> (\<forall>i \<in> set is. opt_addr (arg_or_empty ctx i))"

definition action_label :: "int \<Rightarrow> string \<Rightarrow> usp01_action \<Rightarrow> (string \<times> usp01_action) option" where
  "action_label code caller action = (if code = 0 then Some (caller, action) else None)"

text \<open>
  One call of the contract, labelled with the action of the standard it performs when it succeeds.
  Callers and address arguments are missing or well-formed addresses; minting must not exceed the
  128-bit supply, where the contract (and the reference) would only saturate the recorded total.
\<close>

inductive token_step :: "(string \<times> usp01_action) option \<Rightarrow> contract_state \<Rightarrow> contract_state \<Rightarrow> bool" where
  call_transfer: "transfer ctx s = (c, s') \<Longrightarrow> call_addresses_ok ctx [0] \<Longrightarrow>
    token_step (action_label c (cx_caller ctx) (Transfer (arg_or_empty ctx 0) (parse_u128 (arg_or_empty ctx 1)))) s s'"
| call_approve: "approve ctx s = (c, s') \<Longrightarrow> call_addresses_ok ctx [0] \<Longrightarrow>
    token_step (action_label c (cx_caller ctx) (Approve (arg_or_empty ctx 0) (parse_u128 (arg_or_empty ctx 1)))) s s'"
| call_transfer_from: "transfer_from ctx s = (c, s') \<Longrightarrow> call_addresses_ok ctx [0, 1] \<Longrightarrow>
    token_step (action_label c (cx_caller ctx)
      (TransferFrom (arg_or_empty ctx 0) (arg_or_empty ctx 1) (parse_u128 (arg_or_empty ctx 2)))) s s'"
| call_burn: "burn ctx s = (c, s') \<Longrightarrow> call_addresses_ok ctx [] \<Longrightarrow>
    token_step (action_label c (cx_caller ctx) (Burn (parse_u128 (arg_or_empty ctx 0)))) s s'"
| call_wrap_mint: "wrap_mint ctx s = (c, s') \<Longrightarrow> call_addresses_ok ctx [0] \<Longrightarrow>
    unat (get_total_supply s) + unat (parse_u128 (arg_or_empty ctx 1)) < 2 ^ 128 \<Longrightarrow>
    token_step (action_label c (cx_caller ctx)
      (WrapMint (arg_or_empty ctx 0) (parse_u128 (arg_or_empty ctx 1)) (arg_or_empty ctx 2))) s s'"
| call_wrap_burn: "wrap_burn ctx s = (c, s') \<Longrightarrow> call_addresses_ok ctx [] \<Longrightarrow>
    token_step (action_label c (cx_caller ctx) (WrapBurn (parse_u128 (arg_or_empty ctx 0)) (arg_or_empty ctx 1))) s s'"
| call_init_again: "token_init ctx s = (c, s') \<Longrightarrow> token_step None s s'"
| call_query: "s' \<in> {snd (token_balance_of ctx s), snd (token_allowance_of ctx s), snd (token_total_supply s),
    snd (token_info ctx s)} \<Longrightarrow> token_step None s s'"
| call_return: "token_step None s (s\<lparr>ct_events := [], ct_return := [], ct_logs := []\<rparr>)"

definition token_sim :: "contract_state \<Rightarrow> usp01_token \<Rightarrow> bool" where
  "token_sim s t \<longleftrightarrow> token_rel s t \<and> token_inv t"

text \<open>A call that refines an action, read off its label.\<close>

lemma refines_label:
  assumes "refines_action json_of (caller, action) t s (c, s')" "token_sim s t" "no_mint_overflow action t"
  shows "action_label c caller action = None \<Longrightarrow> token_sim s' t"
    "action_label c caller action = Some l \<Longrightarrow> \<exists>t'. reference_next json_of l t = Some t' \<and> token_sim s' t'"
proof -
  show "token_sim s' t" if "action_label c caller action = None"
    using that assms(1,2) token_rel_kv by (auto simp: action_label_def refines_action_def token_sim_def split: if_splits)
  show "\<exists>t'. reference_next json_of l t = Some t' \<and> token_sim s' t'" if "action_label c caller action = Some l"
  proof -
    have l: "c = 0" "l = (caller, action)" using that by (auto simp: action_label_def split: if_splits)
    then obtain t' where t': "reference_next json_of l t = Some t'" "token_rel s' t'"
      using assms(1) by (auto simp: refines_action_def)
    have "usp01_execute json_of caller action t = (fst (usp01_execute json_of caller action t), t')"
      using t'(1) by (auto simp: reference_next_def l(2) prod_eq_iff Let_def case_prod_beta split: if_splits)
    then have "token_inv t'" using token_inv_execute assms(2,3) by (auto simp: token_sim_def)
    then show ?thesis using t' by (auto simp: token_sim_def)
  qed
qed

lemma token_queries_kv:
  "ct_kv (snd (token_balance_of ctx s)) = ct_kv s" "ct_kv (snd (token_allowance_of ctx s)) = ct_kv s"
  "ct_kv (snd (token_total_supply s)) = ct_kv s" "ct_kv (snd (token_info ctx s)) = ct_kv s"
  by (simp_all add: token_balance_of_def token_allowance_of_def token_total_supply_def token_info_def Let_def
      split: option.split)

lemma token_step_refines:
  assumes "token_step lab s s'" "token_sim s t"
  shows "case lab of None \<Rightarrow> token_sim s' t
    | Some l \<Rightarrow> \<exists>t'. reference_next json_of l t = Some t' \<and> token_sim s' t'"
proof -
  have rel: "token_rel s t" "token_inv t" using assms(2) by (simp_all add: token_sim_def)
  have by_action: ?thesis
    if "lab = action_label c caller action" "refines_action json_of (caller, action) t s (c, s')"
      "no_mint_overflow action t" for c caller action
    using refines_label [OF that(2) assms(2) that(3)] that(1) by (simp split: option.split)
  have silent: ?thesis if "lab = None" "ct_kv s' = ct_kv s"
    using that token_rel_kv [OF that(2) rel(1)] rel(2) by (simp add: token_sim_def)
  from assms(1) show ?thesis
  proof cases
    case (call_transfer ctx c)
    then show ?thesis using transfer_refines [OF rel, of ctx json_of]
      by (intro by_action) (auto simp: call_addresses_ok_def no_mint_overflow_def)
  next
    case (call_approve ctx c)
    then show ?thesis using approve_refines [OF rel(1), of ctx json_of]
      by (intro by_action) (auto simp: call_addresses_ok_def no_mint_overflow_def)
  next
    case (call_transfer_from ctx c)
    then show ?thesis using transfer_from_refines [OF rel, of ctx json_of]
      by (intro by_action) (auto simp: call_addresses_ok_def no_mint_overflow_def)
  next
    case (call_burn ctx c)
    then show ?thesis using burn_refines [OF rel(1), of ctx json_of]
      by (intro by_action) (auto simp: call_addresses_ok_def no_mint_overflow_def)
  next
    case (call_wrap_mint ctx c)
    then show ?thesis using wrap_mint_refines [OF rel(1), of ctx json_of] rel(1)
      by (intro by_action) (auto simp: call_addresses_ok_def no_mint_overflow_def token_rel_def)
  next
    case (call_wrap_burn ctx c)
    then show ?thesis using wrap_burn_refines [OF rel(1), of ctx json_of]
      by (intro by_action) (auto simp: call_addresses_ok_def no_mint_overflow_def)
  next
    case (call_init_again ctx c)
    have "is_initialized s" using rel(1) by (simp add: token_rel_def)
    then show ?thesis using call_init_again by (intro silent) (auto simp: token_init_def)
  next
    case (call_query ctx)
    then show ?thesis by (intro silent) (auto simp: token_queries_kv)
  next
    case call_return
    then show ?thesis by (intro silent) simp_all
  qed
qed

interpretation token_simulation: forward_simulation token_step "reference_next json_of" token_sim for json_of
  by unfold_locales (use token_step_refines in fastforce)+

section \<open>Deployment\<close>

definition init_max_supply :: "contract_ctx \<Rightarrow> u128" where
  "init_max_supply ctx = (if arg_or_empty ctx 6 = [] then 0 else parse_u128 (arg_or_empty ctx 6))"

text \<open>The token of the standard that a deployment creates: the whole supply belongs to the deployer.\<close>

definition deployed_token :: "contract_ctx \<Rightarrow> usp01_token" where
  "deployed_token ctx =
     \<lparr>ut_metadata =
        \<lparr>tm_name = arg_or_empty ctx 0, tm_symbol = arg_or_empty ctx 1,
         tm_decimals = (case parse_uint (arg_or_empty ctx 2) of Some (d :: u64) \<Rightarrow> ucast d | None \<Rightarrow> 0),
         tm_total_supply = parse_u128 (arg_or_empty ctx 3), tm_is_wrapped = (arg_or_empty ctx 4 = ''1''),
         tm_wrapped_origin = arg_or_empty ctx 5, tm_max_supply = init_max_supply ctx\<rparr>,
      ut_balances = bt_insert (cx_caller ctx) (parse_u128 (arg_or_empty ctx 3)) [],
      ut_allowances = [], ut_bridge_operator = arg_or_empty ctx 7\<rparr>"

lemma token_init_stores:
  assumes "token_init ctx s = (0, s')"
  shows "\<exists>decimals. parse_uint (arg_or_empty ctx 2) = Some (decimals :: u64) \<and> decimals \<le> 18 \<and>
    arg_or_empty ctx 0 \<noteq> [] \<and> length (arg_or_empty ctx 0) \<le> 64 \<and>
    arg_or_empty ctx 1 \<noteq> [] \<and> length (arg_or_empty ctx 1) \<le> 8 \<and>
    0 < parse_u128 (arg_or_empty ctx 3) \<and> cx_caller ctx \<noteq> [] \<and>
    ct_kv s' = ct_kv (store_token (arg_or_empty ctx 0) (arg_or_empty ctx 1) decimals (parse_u128 (arg_or_empty ctx 3))
      (arg_or_empty ctx 4 = ''1'') (arg_or_empty ctx 5) (init_max_supply ctx) (arg_or_empty ctx 7) (cx_caller ctx) s)"
  using assms
  by (auto simp: token_init_def Let_def init_max_supply_def arg_or_empty_def [of ctx 0]
      arg_or_empty_def [of ctx "Suc 0"] not_less word_gt_0 split: if_splits option.splits)

lemma deployed_token_sim:
  assumes "token_init ctx s = (0, s')" "ct_kv s = []" "addr_ok (cx_caller ctx)"
  shows "token_sim s' (deployed_token ctx)"
proof -
  obtain decimals where st: "ct_kv s' = ct_kv (store_token (arg_or_empty ctx 0) (arg_or_empty ctx 1) decimals
      (parse_u128 (arg_or_empty ctx 3)) (arg_or_empty ctx 4 = ''1'') (arg_or_empty ctx 5) (init_max_supply ctx)
      (arg_or_empty ctx 7) (cx_caller ctx) s)" (is "_ = ct_kv ?s")
    using token_init_stores [OF assms(1)] by blast
  have empty: "get_state_u128 s k = 0" "get_state_str s k = []" for k
    using assms(2) by (simp_all add: get_state_u128_def get_state_str_def state_get_str_def)
  have "token_rel ?s (deployed_token ctx)"
    using assms(3)
    by (simp add: token_rel_def store_token_def Let_def deployed_token_def token_kv_defs or_zero_def empty)
  then have "token_rel s' (deployed_token ctx)" using st token_rel_kv by blast
  moreover have "token_inv (deployed_token ctx)"
    by (simp add: deployed_token_def token_inv_def bt_sum_def bt_ok_def)
  ultimately show ?thesis by (simp add: token_sim_def)
qed

lemma deployed_fixed_supply_token:
  assumes "token_init ctx s = (0, s')" "arg_or_empty ctx 4 \<noteq> ''1''" "arg_or_empty ctx 5 = []" "init_max_supply ctx = 0"
    "arg_or_empty ctx 7 = []" "parse_uint (arg_or_empty ctx 2) = Some (d :: u64)"
  shows "usp01_new (arg_or_empty ctx 0) (arg_or_empty ctx 1) (ucast d) (parse_u128 (arg_or_empty ctx 3)) (cx_caller ctx) =
    Ok (deployed_token ctx)"
proof -
  have st: "d \<le> 18" "arg_or_empty ctx 0 \<noteq> []" "length (arg_or_empty ctx 0) \<le> 64" "arg_or_empty ctx 1 \<noteq> []"
    "length (arg_or_empty ctx 1) \<le> 8" "0 < parse_u128 (arg_or_empty ctx 3)"
    using token_init_stores [OF assms(1)] assms(6) by auto
  then have "unat d < 2 ^ LENGTH(8)" by (simp add: word_le_nat_alt)
  then have "unat (ucast d :: u8) = unat d" by (rule unat_ucast_small)
  then have "(ucast d :: u8) \<le> 18" using st(1) by (simp add: word_le_nat_alt)
  then show ?thesis
    using st assms by (simp add: usp01_new_def metadata_validate_def Let_def deployed_token_def not_less word_gt_0)
qed


definition wt_call :: "string \<Rightarrow> string list \<Rightarrow> contract_ctx" where
  "wt_call who args = \<lparr>cx_caller = who, cx_args = args, cx_timestamp = 10, cx_self = ''LOSConT''\<rparr>"

definition wt_empty :: contract_state where
  "wt_empty = \<lparr>ct_kv = [], ct_events = [], ct_return = [], ct_logs = []\<rparr>"

definition wt_s1 :: contract_state where
  "wt_s1 = snd (token_init (wt_call ''LOSa'' [''Gold'', ''GLD'', ''8'', ''500'']) wt_empty)"

definition wt_s2 :: contract_state where
  "wt_s2 = snd (transfer (wt_call ''LOSa'' [''LOSb'', ''200'']) wt_s1)"

lemmas wt_simps = wt_call_def arg_nonempty_def arg_or_empty_def cx_arg_def parse_u128_def checked_mul_def
  checked_add_def less_eq_char_def

lemma wt_addr: "addr_ok ''LOSa''" "addr_ok ''LOSb''"
  by (simp_all add: addr_ok_def)


end
