(* ===== verification/DexAmm.thy ===== *)
theory DexAmm
  imports Contract_Host Step_Systems
begin

text \<open>
  The constant-product exchange contract (\<open>los-contracts/src/dex_amm.rs\<close>): pool creation, adding and
  removing liquidity, swaps, and the read-only queries. Each exported function is a definition that
  takes the call context and the contract state and returns the exit code (0 ok, 1 failure) with the new
  state. Arithmetic is that of the release build: unchecked operators wrap at 128 bits.

  Each exported function ends in one of two ways, made explicit in its case rule: it fails and keeps
  every stored value, or it succeeds and the stored values are given by one update function.
\<close>

section \<open>Constants and arithmetic\<close>

definition DEFAULT_FEE_BPS :: u128 where
  "DEFAULT_FEE_BPS = 30"

definition DEX_BPS_DENOMINATOR :: u128 where
  "DEX_BPS_DENOMINATOR = 10000"

definition MINIMUM_LIQUIDITY :: u128 where
  "MINIMUM_LIQUIDITY = 1000"

definition MAX_FEE_BPS :: u128 where
  "MAX_FEE_BPS = 1000"

definition DEX_PRECISION :: u128 where
  "DEX_PRECISION = 1000000000000"

definition compute_output :: "u128 \<Rightarrow> u128 \<Rightarrow> u128 \<Rightarrow> u128" where
  "compute_output amount_in reserve_in reserve_out =
     (if reserve_in = 0 \<or> reserve_out = 0 \<or> amount_in = 0 then 0
      else case (checked_mul amount_in reserve_out, checked_add reserve_in amount_in) of
          (Some num, Some den) \<Rightarrow>
            if den > 0 then num div den
            else (amount_in * DEX_PRECISION) div saturating_add reserve_in amount_in * reserve_out div DEX_PRECISION
        | _ \<Rightarrow>
            (amount_in * DEX_PRECISION) div saturating_add reserve_in amount_in * reserve_out div DEX_PRECISION)"

definition deduct_fee :: "u128 \<Rightarrow> u128 \<Rightarrow> u128 \<times> u128" where
  "deduct_fee amount fee_bps = (let fee = amount * fee_bps div DEX_BPS_DENOMINATOR in (amount - fee, fee))"

section \<open>Keys\<close>

definition make_pool_id :: "string \<Rightarrow> string \<Rightarrow> string" where
  "make_pool_id token_a token_b =
     (if token_a < token_b then ''POOL:'' @ token_a @ '':'' @ token_b
      else ''POOL:'' @ token_b @ '':'' @ token_a)"

definition pool_key :: "string \<Rightarrow> string \<Rightarrow> string" where
  "pool_key pool_id field = ''pool:'' @ pool_id @ '':'' @ field"

definition lp_key :: "string \<Rightarrow> string \<Rightarrow> string" where
  "lp_key pool_id who = ''lp:'' @ pool_id @ '':'' @ who"

definition pool_list_key :: "u64 \<Rightarrow> string" where
  "pool_list_key i = ''pool_list:'' @ uint_to_string i"

definition pool_exists :: "contract_state \<Rightarrow> string \<Rightarrow> bool" where
  "pool_exists s pool_id = (get_state_str s (pool_key pool_id ''token_a'') \<noteq> [])"

definition dex_initialized :: "contract_state \<Rightarrow> bool" where
  "dex_initialized s = (get_state_str s ''dex:init'' = ''1'')"

section \<open>Exported functions\<close>

definition dex_init :: "contract_ctx \<Rightarrow> contract_state \<Rightarrow> int \<times> contract_state" where
  "dex_init ctx s =
     (if dex_initialized s then contract_fail ''DEX already initialized'' s
      else
        let who = cx_caller ctx;
            s = state_set_str ''dex:init'' ''1'' s;
            s = state_set_str ''dex:owner'' who s;
            s = set_state_u64 ''dex:pool_count'' 0 s;
            s = event_emit ''DexInit'' (json_obj
                [(''owner'', json_escape who)]) s
        in contract_ok ''DEX initialized'' s)"

definition store_pool ::
  "string \<Rightarrow> string \<Rightarrow> string \<Rightarrow> u128 \<Rightarrow> u128 \<Rightarrow> u128 \<Rightarrow> u128 \<Rightarrow> string \<Rightarrow> contract_state \<Rightarrow> contract_state" where
  "store_pool pool_id token_a token_b amount_a amount_b initial_lp fee_bps who s =
     (let s = state_set_str (pool_key pool_id ''token_a'') token_a s;
          s = state_set_str (pool_key pool_id ''token_b'') token_b s;
          s = set_state_u128 (pool_key pool_id ''reserve_a'') amount_a s;
          s = set_state_u128 (pool_key pool_id ''reserve_b'') amount_b s;
          s = set_state_u128 (pool_key pool_id ''total_lp'') initial_lp s;
          s = set_state_u128 (pool_key pool_id ''fee_bps'') fee_bps s;
          s = state_set_str (pool_key pool_id ''creator'') who s
      in set_state_u64 (pool_key pool_id ''last_trade'') 0 s)"

definition create_pool_checked ::
  "contract_ctx \<Rightarrow> string \<Rightarrow> string \<Rightarrow> u128 \<Rightarrow> u128 \<Rightarrow> u128 \<Rightarrow> contract_state \<Rightarrow> int \<times> contract_state" where
  "create_pool_checked ctx token_a token_b amount_a amount_b fee_bps s =
     (if token_a = token_b then contract_fail ''Cannot create pool with identical tokens'' s
      else if amount_a = 0 \<or> amount_b = 0 then
        contract_fail ''Initial liquidity must be > 0 for both tokens'' s
      else if fee_bps > MAX_FEE_BPS then contract_fail ''Fee too high (max 1000 bps = 10%)'' s
      else
        let pool_id = make_pool_id token_a token_b in
        if pool_exists s pool_id then contract_fail (''Pool '' @ pool_id @ '' already exists'') s
        else case checked_mul amount_a amount_b of
          None \<Rightarrow> contract_fail ''Overflow: amounts too large'' s
        | Some product \<Rightarrow>
            let initial_lp = contract_isqrt product in
            if initial_lp \<le> MINIMUM_LIQUIDITY then contract_fail ''Initial liquidity too small'' s
            else
              let lp_tokens = initial_lp - MINIMUM_LIQUIDITY;
                  who = cx_caller ctx;
                  s = store_pool pool_id token_a token_b amount_a amount_b initial_lp fee_bps who s;
                  s = set_state_u128 (lp_key pool_id who) lp_tokens s;
                  count = get_state_u64 s ''dex:pool_count'';
                  s = state_set_str (pool_list_key count) pool_id s;
                  s = set_state_u64 ''dex:pool_count'' (count + 1) s;
                  s = event_emit ''PoolCreated''
                    (json_obj
                        [(''pool_id'', json_escape pool_id), (''token_a'', json_escape token_a),
                        (''token_b'', json_escape token_b), (''reserve_a'', u128_to_str amount_a),
                        (''reserve_b'', u128_to_str amount_b), (''lp_tokens'', u128_to_str lp_tokens)]) s
              in contract_ok_data (''Pool '' @ pool_id @ '' created'')
                   (json_obj
                       [(''pool_id'', json_escape pool_id), (''lp_tokens'', u128_to_str lp_tokens),
                       (''reserve_a'', u128_to_str amount_a), (''reserve_b'', u128_to_str amount_b)]) s)"

definition create_pool :: "contract_ctx \<Rightarrow> contract_state \<Rightarrow> int \<times> contract_state" where
  "create_pool ctx s =
     (if \<not> dex_initialized s then contract_fail ''DEX not initialized'' s
      else case arg_nonempty ctx 0 of None \<Rightarrow> contract_fail ''Missing token_a'' s
      | Some token_a \<Rightarrow> (case arg_nonempty ctx 1 of None \<Rightarrow> contract_fail ''Missing token_b'' s
      | Some token_b \<Rightarrow> (case arg_u128 ctx 2 of None \<Rightarrow> contract_fail ''Missing amount_a'' s
      | Some amount_a \<Rightarrow> (case arg_u128 ctx 3 of None \<Rightarrow> contract_fail ''Missing amount_b'' s
      | Some amount_b \<Rightarrow>
          let fee_bps = (case arg_nonempty ctx 4 of Some v \<Rightarrow> parse_u128 v | None \<Rightarrow> DEFAULT_FEE_BPS)
          in create_pool_checked ctx token_a token_b amount_a amount_b fee_bps s))))"

definition store_liquidity :: "string \<Rightarrow> u128 \<Rightarrow> u128 \<Rightarrow> u128 \<Rightarrow> contract_state \<Rightarrow> contract_state" where
  "store_liquidity pool_id reserve_a reserve_b total_lp s =
     set_state_u128 (pool_key pool_id ''total_lp'') total_lp
       (set_state_u128 (pool_key pool_id ''reserve_b'') reserve_b
         (set_state_u128 (pool_key pool_id ''reserve_a'') reserve_a s))"

definition add_liquidity_checked ::
  "contract_ctx \<Rightarrow> string \<Rightarrow> u128 \<Rightarrow> u128 \<Rightarrow> u128 \<Rightarrow> contract_state \<Rightarrow> int \<times> contract_state" where
  "add_liquidity_checked ctx pool_id amount_a amount_b min_lp_tokens s =
     (if \<not> pool_exists s pool_id then contract_fail ''Pool not found'' s
      else if amount_a = 0 \<or> amount_b = 0 then contract_fail ''Amounts must be > 0'' s
      else
        let reserve_a = get_state_u128 s (pool_key pool_id ''reserve_a'');
            reserve_b = get_state_u128 s (pool_key pool_id ''reserve_b'');
            total_lp = get_state_u128 s (pool_key pool_id ''total_lp'') in
        if reserve_a = 0 \<or> reserve_b = 0 \<or> total_lp = 0 then contract_fail ''Pool has no liquidity'' s
        else
          let lp_from_a = amount_a * total_lp div reserve_a;
              lp_from_b = amount_b * total_lp div reserve_b;
              lp_tokens = (if lp_from_a < lp_from_b then lp_from_a else lp_from_b) in
          if lp_tokens < min_lp_tokens then
            contract_fail (''Slippage: would mint '' @ u128_to_str lp_tokens @ '' LP but minimum is ''
              @ u128_to_str min_lp_tokens) s
          else
            let actual_a = lp_tokens * reserve_a div total_lp;
                actual_b = lp_tokens * reserve_b div total_lp;
                s = store_liquidity pool_id (reserve_a + actual_a) (reserve_b + actual_b) (total_lp + lp_tokens) s;
                who = cx_caller ctx;
                existing_lp = get_state_u128 s (lp_key pool_id who);
                s = set_state_u128 (lp_key pool_id who) (existing_lp + lp_tokens) s;
                s = event_emit ''LiquidityAdded''
                  (json_obj
                      [(''pool_id'', json_escape pool_id), (''provider'', json_escape who),
                      (''amount_a'', u128_to_str actual_a), (''amount_b'', u128_to_str actual_b),
                      (''lp_tokens'', u128_to_str lp_tokens)]) s
            in contract_ok_data (''Added liquidity: '' @ u128_to_str lp_tokens @ '' LP tokens minted'')
                 (json_obj
                     [(''lp_tokens'', u128_to_str lp_tokens), (''amount_a_used'', u128_to_str actual_a),
                     (''amount_b_used'', u128_to_str actual_b)]) s)"

definition add_liquidity :: "contract_ctx \<Rightarrow> contract_state \<Rightarrow> int \<times> contract_state" where
  "add_liquidity ctx s =
     (if \<not> dex_initialized s then contract_fail ''DEX not initialized'' s
      else case arg_nonempty ctx 0 of None \<Rightarrow> contract_fail ''Missing pool_id'' s
      | Some pool_id \<Rightarrow> (case arg_u128 ctx 1 of None \<Rightarrow> contract_fail ''Missing amount_a'' s
      | Some amount_a \<Rightarrow> (case arg_u128 ctx 2 of None \<Rightarrow> contract_fail ''Missing amount_b'' s
      | Some amount_b \<Rightarrow> (case arg_u128 ctx 3 of None \<Rightarrow> contract_fail ''Missing min_lp_tokens'' s
      | Some min_lp_tokens \<Rightarrow> add_liquidity_checked ctx pool_id amount_a amount_b min_lp_tokens s))))"

definition remove_liquidity_checked ::
  "contract_ctx \<Rightarrow> string \<Rightarrow> u128 \<Rightarrow> u128 \<Rightarrow> u128 \<Rightarrow> contract_state \<Rightarrow> int \<times> contract_state" where
  "remove_liquidity_checked ctx pool_id lp_amount min_amount_a min_amount_b s =
     (if \<not> pool_exists s pool_id then contract_fail ''Pool not found'' s
      else
        let who = cx_caller ctx;
            caller_lp = get_state_u128 s (lp_key pool_id who) in
        if caller_lp < lp_amount then
          contract_fail (''Insufficient LP tokens: have '' @ u128_to_str caller_lp @ '' need ''
            @ u128_to_str lp_amount) s
        else
          let reserve_a = get_state_u128 s (pool_key pool_id ''reserve_a'');
              reserve_b = get_state_u128 s (pool_key pool_id ''reserve_b'');
              total_lp = get_state_u128 s (pool_key pool_id ''total_lp'') in
          if total_lp = 0 then contract_fail ''Pool has no liquidity'' s
          else
            let amount_a = lp_amount * reserve_a div total_lp;
                amount_b = lp_amount * reserve_b div total_lp in
            if amount_a < min_amount_a \<or> amount_b < min_amount_b then
              contract_fail (''Slippage: would receive ('' @ u128_to_str amount_a @ '', '' @ u128_to_str amount_b
                @ '') but minimum is ('' @ u128_to_str min_amount_a @ '', '' @ u128_to_str min_amount_b @ '')'') s
            else
              let s = store_liquidity pool_id (reserve_a - amount_a) (reserve_b - amount_b) (total_lp - lp_amount) s;
                  new_lp = caller_lp - lp_amount;
                  s = (if new_lp = 0 then state_del (lp_key pool_id who) s
                       else set_state_u128 (lp_key pool_id who) new_lp s);
                  s = event_emit ''LiquidityRemoved''
                    (json_obj
                        [(''pool_id'', json_escape pool_id), (''provider'', json_escape who),
                        (''amount_a'', u128_to_str amount_a), (''amount_b'', u128_to_str amount_b),
                        (''lp_burned'', u128_to_str lp_amount)]) s
              in contract_ok_data (''Removed liquidity: '' @ u128_to_str lp_amount @ '' LP tokens burned'')
                   (json_obj
                       [(''amount_a'', u128_to_str amount_a), (''amount_b'', u128_to_str amount_b),
                       (''lp_burned'', u128_to_str lp_amount)]) s)"

definition remove_liquidity :: "contract_ctx \<Rightarrow> contract_state \<Rightarrow> int \<times> contract_state" where
  "remove_liquidity ctx s =
     (if \<not> dex_initialized s then contract_fail ''DEX not initialized'' s
      else case arg_nonempty ctx 0 of None \<Rightarrow> contract_fail ''Missing pool_id'' s
      | Some pool_id \<Rightarrow> (case arg_u128 ctx 1 of None \<Rightarrow> contract_fail ''Missing lp_amount'' s
      | Some lp_amount \<Rightarrow> (case arg_u128 ctx 2 of None \<Rightarrow> contract_fail ''Missing min_amount_a'' s
      | Some min_amount_a \<Rightarrow> (case arg_u128 ctx 3 of None \<Rightarrow> contract_fail ''Missing min_amount_b'' s
      | Some min_amount_b \<Rightarrow> remove_liquidity_checked ctx pool_id lp_amount min_amount_a min_amount_b s))))"

definition swap_execute ::
  "contract_ctx \<Rightarrow> string \<Rightarrow> string \<Rightarrow> u128 \<Rightarrow> u128 \<Rightarrow> contract_state \<Rightarrow> int \<times> contract_state" where
  "swap_execute ctx pool_id token_in amount_in min_amount_out s =
     (let pool_token_a = get_state_str s (pool_key pool_id ''token_a'');
          pool_token_b = get_state_str s (pool_key pool_id ''token_b'');
          reserve_a = get_state_u128 s (pool_key pool_id ''reserve_a'');
          reserve_b = get_state_u128 s (pool_key pool_id ''reserve_b'');
          fee_bps = get_state_u128 s (pool_key pool_id ''fee_bps'');
          is_a_to_b = (token_in = pool_token_a);
          is_b_to_a = (token_in = pool_token_b) in
      if \<not> is_a_to_b \<and> \<not> is_b_to_a then
        contract_fail (''Token '' @ token_in @ '' is not in pool (expected '' @ pool_token_a @ '' or ''
          @ pool_token_b @ '')'') s
      else
        let (reserve_in, reserve_out, token_out) =
              (if is_a_to_b then (reserve_a, reserve_b, pool_token_b) else (reserve_b, reserve_a, pool_token_a));
            (amount_after_fee, fee) = deduct_fee amount_in fee_bps;
            amount_out = compute_output amount_after_fee reserve_in reserve_out in
        if amount_out < min_amount_out then
          contract_fail (''Slippage exceeded: output '' @ u128_to_str amount_out @ '' < minimum ''
            @ u128_to_str min_amount_out) s
        else if amount_out = 0 then contract_fail ''Output amount is zero (insufficient liquidity)'' s
        else if amount_out \<ge> reserve_out then contract_fail ''Insufficient liquidity for this trade'' s
        else
          let s = (if is_a_to_b then
                     set_state_u128 (pool_key pool_id ''reserve_b'') (reserve_b - amount_out)
                       (set_state_u128 (pool_key pool_id ''reserve_a'') (reserve_a + amount_in) s)
                   else
                     set_state_u128 (pool_key pool_id ''reserve_a'') (reserve_a - amount_out)
                       (set_state_u128 (pool_key pool_id ''reserve_b'') (reserve_b + amount_in) s));
              s = set_state_u64 (pool_key pool_id ''last_trade'') (cx_timestamp ctx) s;
              who = cx_caller ctx;
              s = event_emit ''Swap''
                (json_obj
                    [(''pool_id'', json_escape pool_id), (''trader'', json_escape who),
                    (''token_in'', json_escape token_in), (''amount_in'', u128_to_str amount_in),
                    (''token_out'', json_escape token_out), (''amount_out'', u128_to_str amount_out),
                    (''fee'', u128_to_str fee)]) s;
              impact_bps = (if reserve_out > 0 then amount_out * DEX_BPS_DENOMINATOR div reserve_out else 0)
          in contract_ok_data (''Swapped '' @ u128_to_str amount_in @ '' '' @ token_in @ '' -> ''
               @ u128_to_str amount_out @ '' '' @ token_out)
               (json_obj
                   [(''amount_out'', u128_to_str amount_out), (''fee'', u128_to_str fee),
                   (''price_impact_bps'', u128_to_str impact_bps)]) s)"

definition swap :: "contract_ctx \<Rightarrow> contract_state \<Rightarrow> int \<times> contract_state" where
  "swap ctx s =
     (if \<not> dex_initialized s then contract_fail ''DEX not initialized'' s
      else case arg_nonempty ctx 0 of None \<Rightarrow> contract_fail ''Missing pool_id'' s
      | Some pool_id \<Rightarrow> (case arg_nonempty ctx 1 of None \<Rightarrow> contract_fail ''Missing token_in'' s
      | Some token_in \<Rightarrow> (case arg_u128 ctx 2 of None \<Rightarrow> contract_fail ''Missing amount_in'' s
      | Some amount_in \<Rightarrow> (case arg_u128 ctx 3 of None \<Rightarrow> contract_fail ''Missing min_amount_out'' s
      | Some min_amount_out \<Rightarrow> (case map_option parse_u64 (cx_arg ctx 4) of
          None \<Rightarrow> contract_fail ''Missing deadline'' s
      | Some deadline \<Rightarrow>
          if \<not> pool_exists s pool_id then contract_fail ''Pool not found'' s
          else if amount_in = 0 then contract_fail ''Amount must be > 0'' s
          else if deadline > 0 \<and> cx_timestamp ctx > deadline then
            contract_fail (''Transaction expired: deadline '' @ uint_to_string deadline @ '' < current ''
              @ uint_to_string (cx_timestamp ctx)) s
          else swap_execute ctx pool_id token_in amount_in min_amount_out s)))))"

section \<open>Queries\<close>

definition get_pool :: "contract_ctx \<Rightarrow> contract_state \<Rightarrow> int \<times> contract_state" where
  "get_pool ctx s =
     (case arg_nonempty ctx 0 of None \<Rightarrow> contract_fail ''Missing pool_id'' s
      | Some pool_id \<Rightarrow>
          if \<not> pool_exists s pool_id then contract_fail ''Pool not found'' s
          else
            let token_a = get_state_str s (pool_key pool_id ''token_a'');
                token_b = get_state_str s (pool_key pool_id ''token_b'');
                reserve_a = get_state_u128 s (pool_key pool_id ''reserve_a'');
                reserve_b = get_state_u128 s (pool_key pool_id ''reserve_b'');
                total_lp = get_state_u128 s (pool_key pool_id ''total_lp'');
                fee_bps = get_state_u128 s (pool_key pool_id ''fee_bps'');
                creator = get_state_str s (pool_key pool_id ''creator'');
                last_trade = get_state_u64 s (pool_key pool_id ''last_trade'');
                spot_price_scaled = (if reserve_b > 0 then reserve_a * DEX_PRECISION div reserve_b else 0)
            in contract_ok_data ''Pool found''
                 (json_obj
                     [(''pool_id'', json_escape pool_id), (''token_a'', json_escape token_a),
                     (''token_b'', json_escape token_b), (''reserve_a'', u128_to_str reserve_a),
                     (''reserve_b'', u128_to_str reserve_b), (''total_lp'', u128_to_str total_lp),
                     (''fee_bps'', u128_to_str fee_bps), (''creator'', json_escape creator),
                     (''last_trade'', uint_to_string last_trade),
                     (''spot_price_scaled'', u128_to_str spot_price_scaled)]) s)"

definition quote :: "contract_ctx \<Rightarrow> contract_state \<Rightarrow> int \<times> contract_state" where
  "quote ctx s =
     (case arg_nonempty ctx 0 of None \<Rightarrow> contract_fail ''Missing pool_id'' s
      | Some pool_id \<Rightarrow> (case arg_nonempty ctx 1 of None \<Rightarrow> contract_fail ''Missing token_in'' s
      | Some token_in \<Rightarrow> (case arg_u128 ctx 2 of None \<Rightarrow> contract_fail ''Missing amount_in'' s
      | Some amount_in \<Rightarrow>
          if \<not> pool_exists s pool_id then contract_fail ''Pool not found'' s
          else
            let pool_token_a = get_state_str s (pool_key pool_id ''token_a'');
                reserve_a = get_state_u128 s (pool_key pool_id ''reserve_a'');
                reserve_b = get_state_u128 s (pool_key pool_id ''reserve_b'');
                fee_bps = get_state_u128 s (pool_key pool_id ''fee_bps'');
                is_a_to_b = (token_in = pool_token_a);
                (reserve_in, reserve_out) =
                  (if is_a_to_b then (reserve_a, reserve_b) else (reserve_b, reserve_a));
                (after_fee, fee) = deduct_fee amount_in fee_bps;
                amount_out = compute_output after_fee reserve_in reserve_out;
                spot_price_scaled = (if reserve_in > 0 then reserve_out * DEX_PRECISION div reserve_in else 0);
                exec_price_scaled = (if amount_in > 0 then amount_out * DEX_PRECISION div amount_in else 0);
                impact_bps =
                  (if spot_price_scaled > 0 \<and> spot_price_scaled > exec_price_scaled then
                     (spot_price_scaled - exec_price_scaled) * DEX_BPS_DENOMINATOR div spot_price_scaled
                   else 0)
            in contract_ok_data (''Quote: '' @ u128_to_str amount_in @ '' in -> '' @ u128_to_str amount_out @ '' out'')
                 (json_obj
                     [(''amount_out'', u128_to_str amount_out), (''fee'', u128_to_str fee),
                     (''price_impact_bps'', u128_to_str impact_bps),
                     (''spot_price_scaled'', u128_to_str spot_price_scaled)]) s)))"

definition get_position :: "contract_ctx \<Rightarrow> contract_state \<Rightarrow> int \<times> contract_state" where
  "get_position ctx s =
     (case arg_nonempty ctx 0 of None \<Rightarrow> contract_fail ''Missing pool_id'' s
      | Some pool_id \<Rightarrow>
          if \<not> pool_exists s pool_id then contract_fail ''Pool not found'' s
          else
            let who = cx_caller ctx;
                shares = get_state_u128 s (lp_key pool_id who);
                reserve_a = get_state_u128 s (pool_key pool_id ''reserve_a'');
                reserve_b = get_state_u128 s (pool_key pool_id ''reserve_b'');
                total_lp = get_state_u128 s (pool_key pool_id ''total_lp'');
                (amount_a, amount_b) =
                  (if total_lp > 0 \<and> shares > 0
                   then (shares * reserve_a div total_lp, shares * reserve_b div total_lp) else (0, 0));
                share_pct_bps = (if total_lp > 0 then shares * DEX_BPS_DENOMINATOR div total_lp else 0)
            in contract_ok_data ''Position found''
                 (json_obj
                     [(''lp_shares'', u128_to_str shares), (''total_lp'', u128_to_str total_lp),
                     (''amount_a'', u128_to_str amount_a), (''amount_b'', u128_to_str amount_b),
                     (''share_pct_bps'', u128_to_str share_pct_bps)]) s)"

text \<open>The entry of one index in \<open>list_pools\<close>; an index whose entry is empty is skipped.\<close>

definition list_entry :: "contract_state \<Rightarrow> nat \<Rightarrow> string" where
  "list_entry s i =
     (let pid = get_state_str s (pool_list_key (of_nat i)) in
      if pid = [] then []
      else
        (if i > 0 then '','' else []) @
        (let token_a = get_state_str s (pool_key pid ''token_a'');
             token_b = get_state_str s (pool_key pid ''token_b'');
             reserve_a = get_state_u128 s (pool_key pid ''reserve_a'');
             reserve_b = get_state_u128 s (pool_key pid ''reserve_b'');
             total_lp = get_state_u128 s (pool_key pid ''total_lp'')
         in json_obj
             [(''pool_id'', json_escape pid), (''token_a'', json_escape token_a),
             (''token_b'', json_escape token_b), (''reserve_a'', u128_to_str reserve_a),
             (''reserve_b'', u128_to_str reserve_b), (''total_lp'', u128_to_str total_lp)]))"

definition list_pools :: "contract_state \<Rightarrow> int \<times> contract_state" where
  "list_pools s =
     (let count = get_state_u64 s ''dex:pool_count'' in
      if count = 0 then contract_ok_data ''0 pools'' ''[]'' s
      else
        contract_ok_data (uint_to_string count @ '' pools'')
          (''['' @ concat (map (list_entry s) [0..<unat count]) @ '']'') s)"

section \<open>Arithmetic and keys\<close>

lemmas colon_split = last_sep_split [of "CHR '':''"]

lemma pool_key_eq [simp]:
  "CHR '':'' \<notin> set f \<Longrightarrow> CHR '':'' \<notin> set g \<Longrightarrow> pool_key p f = pool_key q g \<longleftrightarrow> p = q \<and> f = g"
  by (simp add: pool_key_def colon_split)

lemma lp_key_eq [simp]:
  "CHR '':'' \<notin> set v \<Longrightarrow> CHR '':'' \<notin> set w \<Longrightarrow> lp_key p v = lp_key q w \<longleftrightarrow> p = q \<and> v = w"
  by (simp add: lp_key_def colon_split)

lemma other_keys [simp]:
  "pool_key p f \<noteq> lp_key q w" "lp_key q w \<noteq> pool_key p f"
  "pool_key p f \<noteq> pool_list_key i" "lp_key p w \<noteq> pool_list_key i"
  "pool_key p f \<noteq> CHR ''d'' # cs" "lp_key p w \<noteq> CHR ''d'' # cs"
  "pool_list_key i \<noteq> pool_key p f" "pool_list_key i \<noteq> lp_key p w"
  "CHR ''d'' # cs \<noteq> pool_key p f" "CHR ''d'' # cs \<noteq> lp_key p w"
  "CHR ''d'' # cs \<noteq> pool_list_key i" "pool_list_key i \<noteq> CHR ''d'' # cs"
  by (simp_all add: pool_key_def lp_key_def pool_list_key_def)

lemma unat_deduct_fee_le:
  assumes "unat fee_bps \<le> 10000"
  shows "unat (fst (deduct_fee amount fee_bps)) \<le> unat amount"
proof -
  have "unat (amount * fee_bps div DEX_BPS_DENOMINATOR) \<le> unat amount * unat fee_bps div 10000"
    by (simp add: unat_div DEX_BPS_DENOMINATOR_def div_le_mono unat_mult_le)
  also have "\<dots> \<le> unat amount * 10000 div 10000"
    using assms by (intro div_le_mono mult_le_mono2)
  finally have "amount * fee_bps div DEX_BPS_DENOMINATOR \<le> amount" by (simp add: word_le_nat_alt)
  then show ?thesis by (simp add: deduct_fee_def Let_def unat_sub_exact)
qed

lemma compute_output_bound:
  assumes "unat ri + unat a < 2 ^ 128"
  shows "unat (compute_output a ri ro) * (unat ri + unat a) \<le> unat a * unat ro"
proof -
  let ?s = "saturating_add ri a"
  let ?q = "(a * DEX_PRECISION) div ?s"
  have s: "unat ?s = unat ri + unat a" using assms by (simp add: rust_arith min_def)
  have P: "unat DEX_PRECISION = 1000000000000" by (simp add: DEX_PRECISION_def)
  have "unat ?q * (unat ri + unat a) \<le> unat (a * DEX_PRECISION)" by (simp add: unat_div s)
  also have "\<dots> \<le> unat a * 1000000000000" using unat_mult_le [of a DEX_PRECISION] by (simp add: P)
  finally have q: "unat ?q * (unat ri + unat a) \<le> unat a * 1000000000000" .
  let ?x = "unat (?q * ro div DEX_PRECISION)"
  have "?x * 1000000000000 \<le> unat (?q * ro)" by (simp add: unat_div P)
  also have "\<dots> \<le> unat ?q * unat ro" by (rule unat_mult_le)
  finally have "?x * 1000000000000 * (unat ri + unat a) \<le> unat ?q * unat ro * (unat ri + unat a)"
    by (rule mult_le_mono1)
  also have "\<dots> = unat ?q * (unat ri + unat a) * unat ro" by simp
  also have "\<dots> \<le> unat a * 1000000000000 * unat ro" using q by (rule mult_le_mono1)
  finally have fallback: "?x * (unat ri + unat a) \<le> unat a * unat ro"
    using nat_mult_le_cancel1 [of 1000000000000 "?x * (unat ri + unat a)" "unat a * unat ro"]
    by (simp add: ac_simps)
  have exact: "unat (num div den) * (unat ri + unat a) \<le> unat a * unat ro"
    if "checked_mul a ro = Some num" "checked_add ri a = Some den" for num den
    using checked_mul_SomeD [OF that(1)] checked_add_SomeD [OF that(2)]
    by (metis div_times_less_eq_dividend unat_div)
  show ?thesis
    using fallback exact by (auto simp: compute_output_def split: option.split)
qed

lemma product_grows:
  fixes ri ro a a' out :: nat
  assumes "out * (ri + a) \<le> a * ro" "a \<le> a'" "out \<le> ro"
  shows "ri * ro \<le> (ri + a') * (ro - out)"
proof -
  obtain r where r: "ro = out + r" using assms(3) le_Suc_ex by blast
  have "out * ri \<le> a * r" using assms(1) by (simp add: r algebra_simps)
  then have "ri * ro \<le> (ri + a) * r" by (simp add: r algebra_simps)
  also have "\<dots> \<le> (ri + a') * r" using assms(2) by simp
  finally show ?thesis by (simp add: r)
qed

section \<open>Outcomes\<close>

lemma get_state_kv:
  "ct_kv s = ct_kv t \<Longrightarrow> get_state_str s = get_state_str t"
  "ct_kv s = ct_kv t \<Longrightarrow> get_state_u128 s = get_state_u128 t"
  "ct_kv s = ct_kv t \<Longrightarrow> pool_exists s = pool_exists t"
  "ct_kv s = ct_kv t \<Longrightarrow> num_sum P s = num_sum P t"
  by (auto simp: fun_eq_iff get_state_str_def get_state_u128_def state_get_str_def pool_exists_def num_sum_def)

lemma contract_results [simp]:
  "contract_fail m s = (c, t) \<longleftrightarrow> c = 1 \<and> t = snd (contract_fail m s)"
  "contract_ok m s = (c, t) \<longleftrightarrow> c = 0 \<and> t = snd (contract_ok m s)"
  "contract_ok_data m d s = (c, t) \<longleftrightarrow> c = 0 \<and> t = snd (contract_ok_data m d s)"
  by (auto simp: contract_fail_def contract_ok_def contract_ok_data_def)

lemma contract_results_kv [simp]:
  "ct_kv (snd (contract_fail m s)) = ct_kv s"
  "ct_kv (snd (contract_ok m s)) = ct_kv s"
  "ct_kv (snd (contract_ok_data m d s)) = ct_kv s"
  "ct_kv (event_emit e j s) = ct_kv s"
  by (simp_all add: contract_fail_def contract_ok_def contract_ok_data_def event_emit_def set_return_str_def)

abbreviation reserve_a_of :: "contract_state \<Rightarrow> string \<Rightarrow> u128" where
  "reserve_a_of s pid \<equiv> get_state_u128 s (pool_key pid ''reserve_a'')"

abbreviation reserve_b_of :: "contract_state \<Rightarrow> string \<Rightarrow> u128" where
  "reserve_b_of s pid \<equiv> get_state_u128 s (pool_key pid ''reserve_b'')"

abbreviation total_lp_of :: "contract_state \<Rightarrow> string \<Rightarrow> u128" where
  "total_lp_of s pid \<equiv> get_state_u128 s (pool_key pid ''total_lp'')"

abbreviation fee_of :: "contract_state \<Rightarrow> string \<Rightarrow> u128" where
  "fee_of s pid \<equiv> get_state_u128 s (pool_key pid ''fee_bps'')"

abbreviation lp_of :: "contract_state \<Rightarrow> string \<Rightarrow> string \<Rightarrow> u128" where
  "lp_of s pid who \<equiv> get_state_u128 s (lp_key pid who)"

text \<open>What a successful swap does: which side is paid in, and the state it writes.\<close>

definition swap_sides :: "contract_state \<Rightarrow> string \<Rightarrow> string \<Rightarrow> string \<times> string" where
  "swap_sides s pid tok =
     (if tok = get_state_str s (pool_key pid ''token_a'') then (''reserve_a'', ''reserve_b'')
      else (''reserve_b'', ''reserve_a''))"

definition swap_out :: "contract_state \<Rightarrow> string \<Rightarrow> string \<Rightarrow> u128 \<Rightarrow> u128" where
  "swap_out s pid tok ain =
     compute_output (fst (deduct_fee ain (fee_of s pid)))
       (get_state_u128 s (pool_key pid (fst (swap_sides s pid tok))))
       (get_state_u128 s (pool_key pid (snd (swap_sides s pid tok))))"

definition swap_kv :: "contract_ctx \<Rightarrow> string \<Rightarrow> string \<Rightarrow> u128 \<Rightarrow> contract_state \<Rightarrow> contract_state" where
  "swap_kv ctx pid tok ain s =
     (let (kin, kout) = swap_sides s pid tok;
          ri = get_state_u128 s (pool_key pid kin);
          ro = get_state_u128 s (pool_key pid kout)
      in set_state_u64 (pool_key pid ''last_trade'') (cx_timestamp ctx)
           (set_state_u128 (pool_key pid kout) (ro - swap_out s pid tok ain)
             (set_state_u128 (pool_key pid kin) (ri + ain) s)))"

lemma swap_execute_outcome:
  assumes "swap_execute ctx pid tok ain mn s = (c, s')"
  shows "(c = 1 \<and> ct_kv s' = ct_kv s) \<or>
    (c = 0 \<and> (tok = get_state_str s (pool_key pid ''token_a'') \<or> tok = get_state_str s (pool_key pid ''token_b'')) \<and>
     mn \<le> swap_out s pid tok ain \<and> 0 < swap_out s pid tok ain \<and>
     swap_out s pid tok ain < get_state_u128 s (pool_key pid (snd (swap_sides s pid tok))) \<and>
     ct_kv s' = ct_kv (swap_kv ctx pid tok ain s))"
  using assms
  by (auto simp: swap_execute_def swap_out_def swap_kv_def swap_sides_def Let_def not_less not_le word_gt_0
      split: if_splits prod.splits)

definition swap_request :: "contract_ctx \<Rightarrow> string \<Rightarrow> string \<Rightarrow> u128 \<Rightarrow> u128 \<Rightarrow> u64 \<Rightarrow> bool" where
  "swap_request ctx pid tok ain mn dl \<longleftrightarrow>
     arg_nonempty ctx 0 = Some pid \<and> arg_nonempty ctx 1 = Some tok \<and> arg_u128 ctx 2 = Some ain \<and>
     arg_u128 ctx 3 = Some mn \<and> map_option parse_u64 (cx_arg ctx 4) = Some dl"

lemma swap_cases:
  assumes "swap ctx s = (c, s')"
  obtains (fail) "c = 1" "ct_kv s' = ct_kv s"
  | (trade) pid tok ain mn dl where "c = 0" "swap_request ctx pid tok ain mn dl" "dex_initialized s"
      "pool_exists s pid" "0 < ain" "dl = 0 \<or> cx_timestamp ctx \<le> dl"
      "tok = get_state_str s (pool_key pid ''token_a'') \<or> tok = get_state_str s (pool_key pid ''token_b'')"
      "mn \<le> swap_out s pid tok ain" "0 < swap_out s pid tok ain"
      "swap_out s pid tok ain < get_state_u128 s (pool_key pid (snd (swap_sides s pid tok)))"
      "ct_kv s' = ct_kv (swap_kv ctx pid tok ain s)"
proof -
  have "(c = 1 \<and> ct_kv s' = ct_kv s) \<or>
    (\<exists>pid tok ain mn dl. swap_request ctx pid tok ain mn dl \<and> dex_initialized s \<and> pool_exists s pid \<and> 0 < ain \<and>
      (dl = 0 \<or> cx_timestamp ctx \<le> dl) \<and> swap_execute ctx pid tok ain mn s = (c, s'))"
    using assms
    by (auto simp: swap_def swap_request_def word_gt_0 not_less split: if_splits option.splits)
  then show thesis
  proof (elim disjE [of "_ \<and> _" "\<exists>p. _ p"] exE)
    fix pid tok ain mn dl
    assume req: "swap_request ctx pid tok ain mn dl \<and> dex_initialized s \<and> pool_exists s pid \<and> 0 < ain \<and>
      (dl = 0 \<or> cx_timestamp ctx \<le> dl) \<and> swap_execute ctx pid tok ain mn s = (c, s')"
    then have "swap_execute ctx pid tok ain mn s = (c, s')" by simp
    from swap_execute_outcome [OF this] show thesis
      by (rule disjE) (use req in \<open>simp add: fail\<close>, use req in \<open>simp add: trade [of pid tok ain mn dl]\<close>)
  qed (simp add: fail)
qed


definition add_request :: "contract_ctx \<Rightarrow> string \<Rightarrow> u128 \<Rightarrow> u128 \<Rightarrow> u128 \<Rightarrow> bool" where
  "add_request ctx pid a b m \<longleftrightarrow>
     arg_nonempty ctx 0 = Some pid \<and> arg_u128 ctx 1 = Some a \<and> arg_u128 ctx 2 = Some b \<and> arg_u128 ctx 3 = Some m"

definition lp_minted :: "contract_state \<Rightarrow> string \<Rightarrow> u128 \<Rightarrow> u128 \<Rightarrow> u128" where
  "lp_minted s pid a b =
     min (a * total_lp_of s pid div reserve_a_of s pid) (b * total_lp_of s pid div reserve_b_of s pid)"

definition add_kv :: "contract_ctx \<Rightarrow> string \<Rightarrow> u128 \<Rightarrow> contract_state \<Rightarrow> contract_state" where
  "add_kv ctx pid lp s =
     (let t = store_liquidity pid (reserve_a_of s pid + lp * reserve_a_of s pid div total_lp_of s pid)
                (reserve_b_of s pid + lp * reserve_b_of s pid div total_lp_of s pid) (total_lp_of s pid + lp) s
      in set_state_u128 (lp_key pid (cx_caller ctx)) (lp_of t pid (cx_caller ctx) + lp) t)"

lemma add_liquidity_cases:
  assumes "add_liquidity ctx s = (c, s')"
  obtains (fail) "c = 1" "ct_kv s' = ct_kv s"
  | (added) pid a b m where "c = 0" "add_request ctx pid a b m" "pool_exists s pid" "0 < a" "0 < b"
      "0 < reserve_a_of s pid" "0 < reserve_b_of s pid" "0 < total_lp_of s pid"
      "m \<le> lp_minted s pid a b" "ct_kv s' = ct_kv (add_kv ctx pid (lp_minted s pid a b) s)"
proof -
  have "(c = 1 \<and> ct_kv s' = ct_kv s) \<or>
    (\<exists>pid a b m. add_request ctx pid a b m \<and> add_liquidity_checked ctx pid a b m s = (c, s'))"
    using assms by (auto simp: add_liquidity_def add_request_def split: if_splits option.splits)
  moreover have outcome: "(c = 1 \<and> ct_kv s' = ct_kv s) \<or>
    (c = 0 \<and> pool_exists s pid \<and> 0 < a \<and> 0 < b \<and> 0 < reserve_a_of s pid \<and> 0 < reserve_b_of s pid \<and>
     0 < total_lp_of s pid \<and> m \<le> lp_minted s pid a b \<and> ct_kv s' = ct_kv (add_kv ctx pid (lp_minted s pid a b) s))"
    if "add_liquidity_checked ctx pid a b m s = (c, s')" for pid a b m
    using that
    by (auto simp: add_liquidity_checked_def lp_minted_def add_kv_def Let_def not_less min_def word_gt_0
        split: if_splits)
  ultimately show thesis
  proof (elim disjE [of "_ \<and> _" "\<exists>p. _ p"] exE)
    fix pid a b m
    assume req: "add_request ctx pid a b m \<and> add_liquidity_checked ctx pid a b m s = (c, s')"
    then have "add_liquidity_checked ctx pid a b m s = (c, s')" by simp
    from outcome [OF this] show thesis
      by (rule disjE) (use req in \<open>simp add: fail\<close>, use req in \<open>simp add: added [of pid a b m]\<close>)
  qed (simp add: fail)
qed

definition remove_request :: "contract_ctx \<Rightarrow> string \<Rightarrow> u128 \<Rightarrow> u128 \<Rightarrow> u128 \<Rightarrow> bool" where
  "remove_request ctx pid l ma mb \<longleftrightarrow>
     arg_nonempty ctx 0 = Some pid \<and> arg_u128 ctx 1 = Some l \<and> arg_u128 ctx 2 = Some ma \<and> arg_u128 ctx 3 = Some mb"

definition remove_kv :: "contract_ctx \<Rightarrow> string \<Rightarrow> u128 \<Rightarrow> contract_state \<Rightarrow> contract_state" where
  "remove_kv ctx pid l s =
     (let t = store_liquidity pid (reserve_a_of s pid - l * reserve_a_of s pid div total_lp_of s pid)
                (reserve_b_of s pid - l * reserve_b_of s pid div total_lp_of s pid) (total_lp_of s pid - l) s;
          rest = lp_of s pid (cx_caller ctx) - l
      in if rest = 0 then state_del (lp_key pid (cx_caller ctx)) t
         else set_state_u128 (lp_key pid (cx_caller ctx)) rest t)"

lemma remove_liquidity_cases:
  assumes "remove_liquidity ctx s = (c, s')"
  obtains (fail) "c = 1" "ct_kv s' = ct_kv s"
  | (removed) pid l ma mb where "c = 0" "remove_request ctx pid l ma mb" "pool_exists s pid"
      "l \<le> lp_of s pid (cx_caller ctx)" "0 < total_lp_of s pid"
      "ma \<le> l * reserve_a_of s pid div total_lp_of s pid" "mb \<le> l * reserve_b_of s pid div total_lp_of s pid"
      "ct_kv s' = ct_kv (remove_kv ctx pid l s)"
proof -
  have "(c = 1 \<and> ct_kv s' = ct_kv s) \<or>
    (\<exists>pid l ma mb. remove_request ctx pid l ma mb \<and> remove_liquidity_checked ctx pid l ma mb s = (c, s'))"
    using assms by (auto simp: remove_liquidity_def remove_request_def split: if_splits option.splits)
  moreover have outcome: "(c = 1 \<and> ct_kv s' = ct_kv s) \<or>
    (c = 0 \<and> pool_exists s pid \<and> l \<le> lp_of s pid (cx_caller ctx) \<and> 0 < total_lp_of s pid \<and>
     ma \<le> l * reserve_a_of s pid div total_lp_of s pid \<and> mb \<le> l * reserve_b_of s pid div total_lp_of s pid \<and>
     ct_kv s' = ct_kv (remove_kv ctx pid l s))"
    if "remove_liquidity_checked ctx pid l ma mb s = (c, s')" for pid l ma mb
    using that
    by (auto simp: remove_liquidity_checked_def remove_kv_def Let_def not_less word_gt_0 split: if_splits)
  ultimately show thesis
  proof (elim disjE [of "_ \<and> _" "\<exists>p. _ p"] exE)
    fix pid l ma mb
    assume req: "remove_request ctx pid l ma mb \<and> remove_liquidity_checked ctx pid l ma mb s = (c, s')"
    then have "remove_liquidity_checked ctx pid l ma mb s = (c, s')" by simp
    from outcome [OF this] show thesis
      by (rule disjE) (use req in \<open>simp add: fail\<close>, use req in \<open>simp add: removed [of pid l ma mb]\<close>)
  qed (simp add: fail)
qed

definition create_kv ::
  "contract_ctx \<Rightarrow> string \<Rightarrow> string \<Rightarrow> u128 \<Rightarrow> u128 \<Rightarrow> u128 \<Rightarrow> contract_state \<Rightarrow> contract_state" where
  "create_kv ctx ta tb a b fee s =
     (let pid = make_pool_id ta tb;
          lp = contract_isqrt (a * b);
          t = set_state_u128 (lp_key pid (cx_caller ctx)) (lp - MINIMUM_LIQUIDITY)
                (store_pool pid ta tb a b lp fee (cx_caller ctx) s);
          count = get_state_u64 t ''dex:pool_count''
      in set_state_u64 ''dex:pool_count'' (count + 1) (state_set_str (pool_list_key count) pid t))"

lemma create_pool_cases:
  assumes "create_pool ctx s = (c, s')"
  obtains (fail) "c = 1" "ct_kv s' = ct_kv s"
  | (created) ta tb a b fee where "c = 0" "arg_nonempty ctx 0 = Some ta" "arg_nonempty ctx 1 = Some tb"
      "arg_u128 ctx 2 = Some a" "arg_u128 ctx 3 = Some b"
      "ta \<noteq> tb" "0 < a" "0 < b" "fee \<le> MAX_FEE_BPS" "\<not> pool_exists s (make_pool_id ta tb)"
      "unat a * unat b < 2 ^ 128" "MINIMUM_LIQUIDITY < contract_isqrt (a * b)"
      "ct_kv s' = ct_kv (create_kv ctx ta tb a b fee s)"
proof -
  have "(c = 1 \<and> ct_kv s' = ct_kv s) \<or>
    (\<exists>ta tb a b fee. arg_nonempty ctx 0 = Some ta \<and> arg_nonempty ctx 1 = Some tb \<and>
      arg_u128 ctx 2 = Some a \<and> arg_u128 ctx 3 = Some b \<and> create_pool_checked ctx ta tb a b fee s = (c, s'))"
    using assms by (auto simp: create_pool_def Let_def split: if_splits option.splits)
  moreover have outcome: "(c = 1 \<and> ct_kv s' = ct_kv s) \<or>
    (c = 0 \<and> ta \<noteq> tb \<and> 0 < a \<and> 0 < b \<and> fee \<le> MAX_FEE_BPS \<and> \<not> pool_exists s (make_pool_id ta tb) \<and>
     unat a * unat b < 2 ^ 128 \<and> MINIMUM_LIQUIDITY < contract_isqrt (a * b) \<and>
     ct_kv s' = ct_kv (create_kv ctx ta tb a b fee s))"
    if "create_pool_checked ctx ta tb a b fee s = (c, s')" for ta tb a b fee
    using that
    by (auto simp: create_pool_checked_def create_kv_def Let_def not_less not_le word_gt_0 checked_mul_def
        split: if_splits)
  ultimately show thesis
  proof (elim disjE [of "_ \<and> _" "\<exists>p. _ p"] exE)
    fix ta tb a b fee
    assume req: "arg_nonempty ctx 0 = Some ta \<and> arg_nonempty ctx 1 = Some tb \<and>
      arg_u128 ctx 2 = Some a \<and> arg_u128 ctx 3 = Some b \<and> create_pool_checked ctx ta tb a b fee s = (c, s')"
    then have "create_pool_checked ctx ta tb a b fee s = (c, s')" by simp
    from outcome [OF this] show thesis
      by (rule disjE) (use req in \<open>simp add: fail\<close>, use req in \<open>simp add: created [of ta tb a b fee]\<close>)
  qed (simp add: fail)
qed

lemma dex_init_cases:
  assumes "dex_init ctx s = (c, s')"
  obtains (fail) "c = 1" "ct_kv s' = ct_kv s"
  | (init) "c = 0" "ct_kv s' = ct_kv (set_state_u64 ''dex:pool_count'' 0
        (state_set_str ''dex:owner'' (cx_caller ctx) (state_set_str ''dex:init'' ''1'' s)))"
  using assms by (auto simp: dex_init_def Let_def split: if_splits)

lemma queries_kv:
  "ct_kv (snd (get_pool ctx s)) = ct_kv s"
  "ct_kv (snd (quote ctx s)) = ct_kv s"
  "ct_kv (snd (get_position ctx s)) = ct_kv s"
  "ct_kv (snd (list_pools s)) = ct_kv s"
  by (simp_all add: get_pool_def quote_def get_position_def list_pools_def Let_def case_prod_beta split: option.split)

end
