(* ===== verification/Dex_Safety.thy ===== *)
theory Dex_Safety
  imports DexAmm
begin

text \<open>
  What the exchange contract of \<open>DexAmm\<close> guarantees in every state that calls can reach: a swap never
  lowers the product of the reserves and respects the trader's minimum and deadline; the shares of all
  providers and the locked minimum add up to the pool's total; removing liquidity never takes more than
  the pool has and never lowers the value of the remaining shares; adding never charges more than
  offered; a failed call and a query change no stored value; and what goes wrong for identifiers
  longer than the host's keys.
\<close>

section \<open>Share accounting\<close>

text \<open>
  Pool identifiers of at most 700 bytes give keys that the host does not cut; callers are addresses,
  which contain no colon and which the SDK cuts to 256 bytes.
\<close>

definition short_id :: "string \<Rightarrow> bool" where
  "short_id pid \<longleftrightarrow> length pid \<le> 700"

definition caller_ok :: "contract_ctx \<Rightarrow> bool" where
  "caller_ok ctx \<longleftrightarrow> CHR '':'' \<notin> set (cx_caller ctx) \<and> length (cx_caller ctx) \<le> 256"

lemma short_pool_key [simp]: "short_id pid \<Longrightarrow> length f < 300 \<Longrightarrow> short_key (pool_key pid f)"
  by (simp add: short_id_def pool_key_def MAX_STATE_KEY_SIZE_def)

lemma short_lp_key: "short_id pid \<Longrightarrow> caller_ok ctx \<Longrightarrow> short_key (lp_key pid (cx_caller ctx))"
  by (simp add: short_id_def caller_ok_def lp_key_def MAX_STATE_KEY_SIZE_def)

definition is_lp_key :: "string \<Rightarrow> string \<Rightarrow> bool" where
  "is_lp_key pid k \<longleftrightarrow>
     short_key k \<and> starts_with k (lp_key pid []) \<and> CHR '':'' \<notin> set (drop (length (lp_key pid [])) k)"

lemma is_lp_key_iff: "is_lp_key pid k \<longleftrightarrow> short_key k \<and> (\<exists>who. CHR '':'' \<notin> set who \<and> k = lp_key pid who)"
proof
  assume "is_lp_key pid k"
  then have "short_key k" "k = lp_key pid [] @ drop (length (lp_key pid [])) k"
    "CHR '':'' \<notin> set (drop (length (lp_key pid [])) k)"
    using starts_with_drop by (auto simp: is_lp_key_def)
  moreover have "lp_key pid [] @ w = lp_key pid w" for w by (simp add: lp_key_def)
  ultimately show "short_key k \<and> (\<exists>who. CHR '':'' \<notin> set who \<and> k = lp_key pid who)" by metis
next
  assume "short_key k \<and> (\<exists>who. CHR '':'' \<notin> set who \<and> k = lp_key pid who)"
  then show "is_lp_key pid k" by (auto simp: is_lp_key_def lp_key_def starts_with_def)
qed

definition lp_sum :: "string \<Rightarrow> contract_state \<Rightarrow> nat" where
  "lp_sum pid s = num_sum (is_lp_key pid) s"

lemma not_lp_key [simp]:
  "\<not> is_lp_key pid (host_key (pool_key q f))"
  "\<not> is_lp_key pid (host_key (pool_list_key i))"
  "\<not> is_lp_key pid (host_key (CHR ''d'' # cs))" "\<not> is_lp_key pid (CHR ''d'' # cs)"
  by (auto simp: is_lp_key_iff)

lemma lp_key_of_caller:
  assumes "caller_ok ctx" "short_id pid"
  shows "is_lp_key pid (host_key (lp_key q (cx_caller ctx))) \<longleftrightarrow> q = pid"
  using assms short_lp_key [of pid ctx]
  by (auto simp: is_lp_key_iff caller_ok_def)

definition pool_inv :: "contract_state \<Rightarrow> string \<Rightarrow> bool" where
  "pool_inv s pid \<longleftrightarrow>
     unat (fee_of s pid) \<le> 1000 \<and>
     (if pool_exists s pid then lp_sum pid s + 1000 = unat (total_lp_of s pid)
      else total_lp_of s pid = 0 \<and> lp_sum pid s = 0)"

definition dex_inv :: "contract_state \<Rightarrow> bool" where
  "dex_inv s \<longleftrightarrow> kv_ok s \<and> (\<forall>pid. short_id pid \<longrightarrow> pool_inv s pid)"

lemma dex_inv_kv: "ct_kv s = ct_kv t \<Longrightarrow> dex_inv s = dex_inv t"
  using get_state_kv [of s t] by (simp add: dex_inv_def pool_inv_def lp_sum_def)

text \<open>An operation that keeps the fee, the total, the existence and the shares of a pool.\<close>

lemma pool_inv_frame:
  assumes "pool_inv s pid" "fee_of t pid = fee_of s pid" "total_lp_of t pid = total_lp_of s pid"
    "pool_exists t pid = pool_exists s pid" "lp_sum pid t = lp_sum pid s"
  shows "pool_inv t pid"
  using assms by (simp add: pool_inv_def)

lemma dex_inv_frame:
  assumes "dex_inv s" "kv_ok t"
    and "\<And>pid. short_id pid \<Longrightarrow> fee_of t pid = fee_of s pid"
    and "\<And>pid. short_id pid \<Longrightarrow> total_lp_of t pid = total_lp_of s pid"
    and "\<And>pid. short_id pid \<Longrightarrow> pool_exists t pid = pool_exists s pid"
    and "\<And>pid. short_id pid \<Longrightarrow> lp_sum pid t = lp_sum pid s"
  shows "dex_inv t"
  using assms unfolding dex_inv_def by (blast intro: pool_inv_frame)

lemma swap_kv_inv: "dex_inv s \<Longrightarrow> dex_inv (swap_kv ctx pid tok ain s)"
  by (rule dex_inv_frame [of s]) (simp_all add: dex_inv_def swap_kv_def swap_sides_def lp_sum_def pool_exists_def)

lemma init_kv_inv:
  "dex_inv s \<Longrightarrow>
     dex_inv (set_state_u64 ''dex:pool_count'' 0 (state_set_str ''dex:owner'' w (state_set_str ''dex:init'' v s)))"
  by (rule dex_inv_frame [of s]) (simp_all add: dex_inv_def lp_sum_def pool_exists_def)

lemma kv_ok_store [simp]: "kv_ok s \<Longrightarrow> kv_ok (store_liquidity pid a b l s)"
  by (simp add: store_liquidity_def)

lemma store_liquidity_lp [simp]:
  "kv_ok s \<Longrightarrow> lp_sum q (store_liquidity pid a b l s) = lp_sum q s"
  by (simp add: store_liquidity_def lp_sum_def)

lemma store_liquidity_get [simp]:
  assumes "short_id q"
  shows "fee_of (store_liquidity pid a b l s) q = fee_of s q"
    "pool_exists (store_liquidity pid a b l s) q = pool_exists s q"
    "total_lp_of (store_liquidity pid a b l s) q = (if q = pid then l else total_lp_of s q)"
    "reserve_a_of (store_liquidity pid a b l s) q = (if q = pid then a else reserve_a_of s q)"
    "reserve_b_of (store_liquidity pid a b l s) q = (if q = pid then b else reserve_b_of s q)"
  using assms by (auto simp: store_liquidity_def pool_exists_def)

lemma store_liquidity_lp_of:
  "short_key (lp_key q w) \<Longrightarrow> lp_of (store_liquidity pid a b l s) q w = lp_of s q w"
  by (simp add: store_liquidity_def)

lemma lp_le_sum:
  assumes "kv_ok s" "short_id pid" "caller_ok ctx"
  shows "unat (lp_of s pid (cx_caller ctx)) \<le> lp_sum pid s"
  using assms num_le_num_sum [of s "is_lp_key pid" "lp_key pid (cx_caller ctx)"]
  by (simp add: lp_sum_def lp_key_of_caller)

text \<open>The sum of shares after one caller's share is set.\<close>

lemma set_lp_sum:
  assumes "kv_ok s" "short_id q" "caller_ok ctx"
  shows "lp_sum q (set_state_u128 (lp_key pid (cx_caller ctx)) n s) + (if q = pid then unat (lp_of s pid (cx_caller ctx)) else 0) =
    lp_sum q s + (if q = pid then unat n else 0)"
proof (cases "q = pid")
  case True
  then show ?thesis
    using assms num_sum_set_u128 [of s "is_lp_key q" "lp_key pid (cx_caller ctx)" n]
    by (simp add: lp_sum_def lp_key_of_caller)
next
  case False
  then show ?thesis using assms by (simp add: lp_sum_def lp_key_of_caller)
qed

lemma del_lp_sum:
  assumes "kv_ok s" "short_id q" "caller_ok ctx"
  shows "lp_sum q (state_del (lp_key pid (cx_caller ctx)) s) + (if q = pid then unat (lp_of s pid (cx_caller ctx)) else 0) =
    lp_sum q s"
  using assms num_sum_del [of s "is_lp_key q" "lp_key pid (cx_caller ctx)"]
  by (auto simp: lp_sum_def lp_key_of_caller)

lemma lp_frame_exists [simp]:
  assumes "short_id q"
  shows "pool_exists (set_state_u128 (lp_key pid w) n s) q = pool_exists s q"
    "pool_exists (state_del (lp_key pid w) s) q = pool_exists s q"
  using assms by (simp_all add: pool_exists_def)

lemma stored_lp_sums:
  assumes "kv_ok s" "short_id q" "caller_ok ctx"
  shows "lp_sum q (set_state_u128 (lp_key pid (cx_caller ctx)) n (store_liquidity pid x y z s)) +
      (if q = pid then unat (lp_of s pid (cx_caller ctx)) else 0) = lp_sum q s + (if q = pid then unat n else 0)"
    "lp_sum q (state_del (lp_key pid (cx_caller ctx)) (store_liquidity pid x y z s)) +
      (if q = pid then unat (lp_of s pid (cx_caller ctx)) else 0) = lp_sum q s"
  using set_lp_sum [of "store_liquidity pid x y z s" q ctx pid n]
    del_lp_sum [of "store_liquidity pid x y z s" q ctx pid] assms short_lp_key [OF assms(2,3)]
  by (cases "q = pid"; simp add: store_liquidity_lp_of)+

lemma add_kv_inv:
  assumes "dex_inv s" "caller_ok ctx" "pool_exists s pid" "short_id pid \<Longrightarrow> unat (total_lp_of s pid) + unat lp < 2 ^ 128"
  shows "dex_inv (add_kv ctx pid lp s)"
proof -
  let ?t = "add_kv ctx pid lp s"
  have ok: "kv_ok s" using assms by (simp add: dex_inv_def)
  have get: "fee_of ?t q = fee_of s q" "pool_exists ?t q = pool_exists s q"
    "total_lp_of ?t q = (if q = pid then total_lp_of s pid + lp else total_lp_of s q)" if "short_id q" for q
    using that by (simp_all add: add_kv_def Let_def)
  have "pool_inv ?t q" if q: "short_id q" for q
  proof (cases "q = pid")
    case True
    have inv: "pool_inv s pid" using assms(1) q True by (simp add: dex_inv_def)
    have tot: "unat (total_lp_of s pid + lp) = unat (total_lp_of s pid) + unat lp"
      using assms(4) q True by (simp add: unat_add_exact)
    have "lp_sum pid ?t + unat (lp_of s pid (cx_caller ctx)) =
        lp_sum pid s + unat (lp_of s pid (cx_caller ctx) + lp)"
      using stored_lp_sums(1) [OF ok q assms(2), of pid] True q assms(2)
      by (simp add: add_kv_def Let_def store_liquidity_lp_of short_lp_key)
    moreover have "unat (lp_of s pid (cx_caller ctx) + lp) = unat (lp_of s pid (cx_caller ctx)) + unat lp"
      using lp_le_sum [OF ok _ assms(2), of pid] inv assms(3,4) q True
      by (intro unat_add_exact) (simp add: pool_inv_def)
    ultimately have "lp_sum pid ?t = lp_sum pid s + unat lp" by simp
    then show ?thesis
      using inv get [OF q] True tot assms(3) by (simp add: pool_inv_def)
  next
    case False
    have "lp_sum q ?t = lp_sum q s"
      using stored_lp_sums(1) [OF ok q assms(2), of pid] False by (simp add: add_kv_def Let_def)
    then show ?thesis
      using assms(1) q False get [OF q] by - (rule pool_inv_frame [of s q], simp_all add: dex_inv_def)
  qed
  then show ?thesis using ok by (simp add: dex_inv_def add_kv_def Let_def)
qed

lemma remove_kv_inv:
  assumes "dex_inv s" "caller_ok ctx" "pool_exists s pid" "l \<le> lp_of s pid (cx_caller ctx)"
  shows "dex_inv (remove_kv ctx pid l s)"
proof -
  let ?t = "remove_kv ctx pid l s"
  have ok: "kv_ok s" using assms by (simp add: dex_inv_def)
  have sum: "lp_sum q ?t + (if q = pid then unat l else 0) = lp_sum q s" if q: "short_id q" for q
  proof -
    define c where "c = lp_of s pid (cx_caller ctx)"
    have le: "unat (c - l) + unat l = unat c" using assms(4) by (simp add: c_def unat_sub_exact word_le_nat_alt)
    obtain x y z where t: "?t = (let t = store_liquidity pid x y z s in
        if c - l = 0 then state_del (lp_key pid (cx_caller ctx)) t
        else set_state_u128 (lp_key pid (cx_caller ctx)) (c - l) t)"
      unfolding remove_kv_def c_def Let_def by blast
    have "lp_sum q ?t + (if q = pid then unat c else 0) = lp_sum q s + (if q = pid then unat (c - l) else 0)"
      using stored_lp_sums(1) [OF ok q assms(2), of pid "c - l" x y z, folded c_def]
        stored_lp_sums(2) [OF ok q assms(2), of pid x y z, folded c_def]
      unfolding t Let_def by (cases "c - l = 0") auto
    then show ?thesis using le by (cases "q = pid") simp_all
  qed
  have get: "fee_of ?t q = fee_of s q" "pool_exists ?t q = pool_exists s q"
    "total_lp_of ?t q = (if q = pid then total_lp_of s pid - l else total_lp_of s q)" if "short_id q" for q
    using that by (auto simp: remove_kv_def Let_def)
  have "pool_inv ?t q" if q: "short_id q" for q
  proof (cases "q = pid")
    case True
    have inv: "pool_inv s pid" using assms(1) q True by (simp add: dex_inv_def)
    then have "l \<le> total_lp_of s pid"
      using sum [OF q] True assms(3) by (simp add: pool_inv_def word_le_nat_alt)
    then have "unat (total_lp_of s pid - l) = unat (total_lp_of s pid) - unat l" by (rule unat_sub_exact)
    moreover have "lp_sum pid s + 1000 = unat (total_lp_of s pid)" "unat (fee_of s pid) \<le> 1000"
      using inv assms(3) by (simp_all add: pool_inv_def)
    moreover have "lp_sum pid ?t + unat l = lp_sum pid s" using sum [OF q] True by simp
    ultimately have "lp_sum pid ?t + 1000 = unat (total_lp_of s pid - l)" by linarith
    then show ?thesis
      using get [OF q] True assms(3) \<open>unat (fee_of s pid) \<le> 1000\<close> by (simp add: pool_inv_def)
  next
    case False
    then show ?thesis
      using assms(1) q sum [OF q] get [OF q] by - (rule pool_inv_frame [of s q], simp_all add: dex_inv_def)
  qed
  then show ?thesis using ok by (simp add: dex_inv_def remove_kv_def Let_def)
qed

lemma store_pool_facts:
  assumes "short_id q"
  shows "fee_of (store_pool pid ta tb a b lp fee w s) q = (if q = pid then fee else fee_of s q)"
    "total_lp_of (store_pool pid ta tb a b lp fee w s) q = (if q = pid then lp else total_lp_of s q)"
    "pool_exists (store_pool pid ta tb a b lp fee w s) q = (if q = pid then ta \<noteq> [] else pool_exists s q)"
  using assms by (auto simp: store_pool_def Let_def pool_exists_def)

lemma store_pool_kv:
  assumes "kv_ok s"
  shows "kv_ok (store_pool pid ta tb a b lp fee w s)"
    "lp_sum q (store_pool pid ta tb a b lp fee w s) = lp_sum q s"
    "short_key (lp_key q v) \<Longrightarrow> lp_of (store_pool pid ta tb a b lp fee w s) q v = lp_of s q v"
  using assms by (simp_all add: store_pool_def Let_def lp_sum_def)

lemma create_kv_inv:
  assumes "dex_inv s" "caller_ok ctx" "\<not> pool_exists s (make_pool_id ta tb)" "ta \<noteq> []"
    "fee \<le> MAX_FEE_BPS" "MINIMUM_LIQUIDITY < contract_isqrt (a * b)"
  shows "dex_inv (create_kv ctx ta tb a b fee s)"
proof -
  let ?t = "create_kv ctx ta tb a b fee s" and ?pid = "make_pool_id ta tb" and ?lp = "contract_isqrt (a * b)"
  have ok: "kv_ok s" using assms by (simp add: dex_inv_def)
  have okt: "kv_ok ?t" using ok by (simp add: create_kv_def Let_def store_pool_kv)
  have get: "fee_of ?t q = (if q = ?pid then fee else fee_of s q)"
    "pool_exists ?t q = (q = ?pid \<or> pool_exists s q)"
    "total_lp_of ?t q = (if q = ?pid then ?lp else total_lp_of s q)" if "short_id q" for q
    using that assms(4) store_pool_facts [OF that]
    by (simp_all add: create_kv_def Let_def pool_exists_def)
  have sum: "lp_sum q ?t + (if q = ?pid then unat (lp_of s ?pid (cx_caller ctx)) else 0) =
      lp_sum q s + (if q = ?pid then unat (?lp - MINIMUM_LIQUIDITY) else 0)" if q: "short_id q" for q
  proof -
    have "lp_sum q ?t = lp_sum q (set_state_u128 (lp_key ?pid (cx_caller ctx)) (?lp - MINIMUM_LIQUIDITY)
        (store_pool ?pid ta tb a b ?lp fee (cx_caller ctx) s))"
      using ok by (simp add: create_kv_def Let_def lp_sum_def store_pool_kv)
    then show ?thesis
      using set_lp_sum [of "store_pool ?pid ta tb a b ?lp fee (cx_caller ctx) s" q ctx ?pid]
        ok q assms(2) short_lp_key [OF q assms(2)] by (auto simp: store_pool_kv)
  qed
  have lp: "unat (?lp - MINIMUM_LIQUIDITY) + 1000 = unat ?lp"
    using assms(6) by (simp add: unat_sub_exact word_less_nat_alt word_le_nat_alt MINIMUM_LIQUIDITY_def)
  have "pool_inv ?t q" if q: "short_id q" for q
  proof (cases "q = ?pid")
    case True
    have inv: "pool_inv s ?pid" using assms(1) q True by (simp add: dex_inv_def)
    then have "lp_sum ?pid s = 0" using assms(3) by (simp add: pool_inv_def)
    then have "lp_sum q ?t = unat (?lp - MINIMUM_LIQUIDITY)"
      using sum [OF q] True lp_le_sum [OF ok, of ?pid ctx] q assms(2) by simp
    then show ?thesis
      using get [OF q] True lp assms(5) by (simp add: pool_inv_def MAX_FEE_BPS_def word_le_nat_alt)
  next
    case False
    then show ?thesis
      using assms(1) q sum [OF q] get [OF q] by - (rule pool_inv_frame [of s q], simp_all add: dex_inv_def)
  qed
  then show ?thesis using okt by (simp add: dex_inv_def)
qed

section \<open>The contract as a step system\<close>

text \<open>
  Any sequence of calls. Each call starts with empty events and return data (\<open>step_return\<close>). The one
  side condition is that adding liquidity does not wrap the pool's 128-bit share total around.
\<close>

inductive dex_step :: "contract_state \<Rightarrow> contract_state \<Rightarrow> bool" where
  step_init: "dex_init ctx s = (c, t) \<Longrightarrow> dex_step s t"
| step_create: "create_pool ctx s = (c, t) \<Longrightarrow> caller_ok ctx \<Longrightarrow> dex_step s t"
| step_add: "add_liquidity ctx s = (c, t) \<Longrightarrow> caller_ok ctx \<Longrightarrow>
    (\<forall>pid. arg_nonempty ctx 0 = Some pid \<longrightarrow> total_lp_of s pid \<le> total_lp_of t pid) \<Longrightarrow> dex_step s t"
| step_remove: "remove_liquidity ctx s = (c, t) \<Longrightarrow> caller_ok ctx \<Longrightarrow> dex_step s t"
| step_swap: "swap ctx s = (c, t) \<Longrightarrow> dex_step s t"
| step_query: "t \<in> {snd (get_pool ctx s), snd (quote ctx s), snd (get_position ctx s), snd (list_pools s)} \<Longrightarrow>
    dex_step s t"
| step_return: "dex_step s (s\<lparr>ct_events := [], ct_return := [], ct_logs := []\<rparr>)"

definition dex_empty :: contract_state where
  "dex_empty = \<lparr>ct_kv = [], ct_events = [], ct_return = [], ct_logs = []\<rparr>"

lemma dex_inv_empty: "dex_inv dex_empty"
  by (simp add: dex_inv_def dex_empty_def pool_inv_def lp_sum_def num_sum_def pool_exists_def
      get_state_u128_def get_state_str_def state_get_str_def)

lemma dex_step_inv:
  assumes "dex_inv s" "dex_step s t"
  shows "dex_inv t"
  using assms(2)
proof cases
  case (step_init ctx c)
  from step_init(1) show ?thesis
    by (cases rule: dex_init_cases) (use assms(1) init_kv_inv dex_inv_kv in blast)+
next
  case (step_create ctx c)
  from step_create(1) show ?thesis
  proof (cases rule: create_pool_cases)
    case (created ta tb a b fee)
    from created(2) have "ta \<noteq> []" by (auto simp: arg_nonempty_def split: option.splits if_splits)
    with created step_create(2) have "dex_inv (create_kv ctx ta tb a b fee s)"
      using create_kv_inv [OF assms(1)] by blast
    then show ?thesis using created(13) dex_inv_kv by blast
  qed (use assms(1) dex_inv_kv in blast)
next
  case (step_add ctx c)
  from step_add(1) show ?thesis
  proof (cases rule: add_liquidity_cases)
    case (added pid a b m)
    let ?lp = "lp_minted s pid a b"
    have "unat (total_lp_of s pid) + unat ?lp < 2 ^ 128" if "short_id pid"
    proof -
      have "total_lp_of t pid = total_lp_of s pid + ?lp"
        using get_state_kv(2) [OF added(10)] that by (simp add: add_kv_def Let_def)
      moreover have "total_lp_of s pid \<le> total_lp_of t pid" using step_add(3) added(2) by (simp add: add_request_def)
      ultimately show ?thesis using unat_add_no_wrap [of "total_lp_of s pid" ?lp] by simp
    qed
    then have "dex_inv (add_kv ctx pid ?lp s)" using add_kv_inv [OF assms(1) step_add(2) added(3)] by blast
    then show ?thesis using added(10) dex_inv_kv by blast
  qed (use assms(1) dex_inv_kv in blast)
next
  case (step_remove ctx c)
  from step_remove(1) show ?thesis
  proof (cases rule: remove_liquidity_cases)
    case (removed pid l ma mb)
    then show ?thesis using remove_kv_inv [OF assms(1) step_remove(2)] dex_inv_kv by blast
  qed (use assms(1) dex_inv_kv in blast)
next
  case (step_swap ctx c)
  from step_swap(1) show ?thesis
  proof (cases rule: swap_cases)
    case (trade pid tok ain mn dl)
    then show ?thesis using swap_kv_inv [OF assms(1)] dex_inv_kv by blast
  qed (use assms(1) dex_inv_kv in blast)
next
  case (step_query ctx)
  then have "ct_kv t = ct_kv s" by (auto simp: queries_kv)
  then show ?thesis using assms(1) dex_inv_kv by blast
next
  case step_return
  then have "ct_kv t = ct_kv s" by simp
  then show ?thesis using assms(1) dex_inv_kv by blast
qed

interpretation dex: invariant_system dex_step dex_inv
  by unfold_locales (rule dex_step_inv)

lemma dex_reach_inv: "dex_step\<^sup>*\<^sup>* dex_empty s \<Longrightarrow> dex_inv s"
  using dex.reach_inv dex_inv_empty by blast

lemma request_unique:
  "swap_request ctx pid tok ain mn dl \<Longrightarrow> swap_request ctx pid' tok' ain' mn' dl' \<Longrightarrow>
     pid' = pid \<and> tok' = tok \<and> ain' = ain \<and> mn' = mn \<and> dl' = dl"
  "add_request ctx pid a b m \<Longrightarrow> add_request ctx pid' a' b' m' \<Longrightarrow> pid' = pid \<and> a' = a \<and> b' = b \<and> m' = m"
  "remove_request ctx pid a b m \<Longrightarrow> remove_request ctx pid' a' b' m' \<Longrightarrow> pid' = pid \<and> a' = a \<and> b' = b \<and> m' = m"
  by (auto simp: swap_request_def add_request_def remove_request_def)

section \<open>Properties\<close>

lemma swap_kv_reserves:
  assumes "short_id pid" "swap_sides s pid tok = (kin, kout)"
  shows "get_state_u128 (swap_kv ctx pid tok ain s) (pool_key pid kin) = get_state_u128 s (pool_key pid kin) + ain"
    "get_state_u128 (swap_kv ctx pid tok ain s) (pool_key pid kout) =
       get_state_u128 s (pool_key pid kout) - swap_out s pid tok ain"
  using assms by (auto simp: swap_kv_def swap_sides_def split: if_splits)



lemma share_value_grows:
  fixes l r tot amt :: nat
  assumes "amt * tot \<le> l * r" "l \<le> tot"
  shows "r * (tot - l) \<le> (r - amt) * tot"
proof -
  have "amt * tot \<le> r * tot" using assms by (metis le_trans mult.commute mult_le_mono1)
  then have "(r - amt) * tot = r * tot - amt * tot" by (simp add: diff_mult_distrib)
  moreover have "r * (tot - l) = r * tot - l * r" by (simp add: diff_mult_distrib2 mult.commute)
  ultimately show ?thesis using assms(1) by simp
qed

lemma proportional_part:
  fixes l r tot :: u128
  shows "unat (l * r div tot) * unat tot \<le> unat l * unat r"
proof -
  have "unat (l * r div tot) * unat tot \<le> unat (l * r)" by (simp add: unat_div)
  then show ?thesis using unat_mult_le [of l r] by (rule le_trans)
qed

lemma proportional_le:
  fixes l r tot :: u128
  assumes "l \<le> tot" "0 < tot"
  shows "l * r div tot \<le> r"
proof -
  have "unat (l * r div tot) * unat tot \<le> unat tot * unat r"
    by (rule le_trans [OF proportional_part mult_le_mono1]) (use assms(1) in \<open>simp add: word_le_nat_alt\<close>)
  then show ?thesis using assms(2) by (simp add: word_le_nat_alt word_less_nat_alt mult.commute)
qed

lemma remove_kv_get:
  assumes "short_id pid" "caller_ok ctx"
  shows "reserve_a_of (remove_kv ctx pid l s) pid = reserve_a_of s pid - l * reserve_a_of s pid div total_lp_of s pid"
    "reserve_b_of (remove_kv ctx pid l s) pid = reserve_b_of s pid - l * reserve_b_of s pid div total_lp_of s pid"
    "total_lp_of (remove_kv ctx pid l s) pid = total_lp_of s pid - l"
    "lp_of (remove_kv ctx pid l s) pid (cx_caller ctx) = lp_of s pid (cx_caller ctx) - l"
  using assms short_lp_key [OF assms] by (auto simp: remove_kv_def Let_def)

text \<open>A provider that successfully removes shares in a reachable state owns them and loses
  exactly them; the pool pays out of each reserve at least the requested minimum and at most what it
  has, and the reserves behind every remaining share do not shrink (both ratios of reserve to share
  total stay or grow).\<close>

theorem remove_liquidity_is_fair:
  assumes "dex_step\<^sup>*\<^sup>* dex_empty s" "remove_liquidity ctx s = (0, s')" "remove_request ctx pid l ma mb"
    and "short_id pid" "caller_ok ctx"
  shows "l \<le> lp_of s pid (cx_caller ctx) \<and> lp_of s' pid (cx_caller ctx) = lp_of s pid (cx_caller ctx) - l \<and>
    unat (total_lp_of s' pid) + unat l = unat (total_lp_of s pid) \<and>
    reserve_a_of s' pid \<le> reserve_a_of s pid \<and> ma \<le> reserve_a_of s pid - reserve_a_of s' pid \<and>
    reserve_b_of s' pid \<le> reserve_b_of s pid \<and> mb \<le> reserve_b_of s pid - reserve_b_of s' pid \<and>
    unat (reserve_a_of s pid) * unat (total_lp_of s' pid) \<le> unat (reserve_a_of s' pid) * unat (total_lp_of s pid) \<and>
    unat (reserve_b_of s pid) * unat (total_lp_of s' pid) \<le> unat (reserve_b_of s' pid) * unat (total_lp_of s pid)"
  using assms(2)
proof (cases rule: remove_liquidity_cases)
  case (removed pid' l' ma' mb')
  define T where "T = total_lp_of s pid"
  have eq: "pid' = pid" "l' = l" "ma' = ma" "mb' = mb" using request_unique(3) [OF assms(3) removed(2)] by simp_all
  have inv: "kv_ok s" "pool_inv s pid" using dex_reach_inv [OF assms(1)] assms(4) by (simp_all add: dex_inv_def)
  have own: "l \<le> lp_of s pid (cx_caller ctx)" using removed(4) eq by simp
  then have lT: "l \<le> T"
    using lp_le_sum [OF inv(1) assms(4,5)] inv(2) removed(3) eq
    by (simp add: T_def pool_inv_def word_le_nat_alt)
  have T0: "0 < T" using removed(5) eq by (simp add: T_def)
  have part: "x - (x - l * x div T) = l * x div T \<and> x - l * x div T \<le> x \<and>
      unat x * unat (T - l) \<le> unat (x - l * x div T) * unat T" for x
  proof -
    have le: "l * x div T \<le> x" using proportional_le [OF lT T0] .
    have "unat x * (unat T - unat l) \<le> (unat x - unat (l * x div T)) * unat T"
      using proportional_part [of l x T] lT by (intro share_value_grows) (simp_all add: word_le_nat_alt)
    moreover have "x - l * x div T \<le> x" using le by (simp add: word_le_nat_alt unat_sub_exact)
    ultimately show ?thesis using le lT by (simp add: unat_sub_exact)
  qed
  have new: "reserve_a_of s' pid = reserve_a_of s pid - l * reserve_a_of s pid div T"
    "reserve_b_of s' pid = reserve_b_of s pid - l * reserve_b_of s pid div T"
    "total_lp_of s' pid = T - l" "lp_of s' pid (cx_caller ctx) = lp_of s pid (cx_caller ctx) - l"
    using remove_kv_get [OF assms(4,5), of l s] get_state_kv(2) [OF removed(8)] eq by (simp_all add: T_def)
  have "unat (T - l) + unat l = unat T" using lT by (simp add: unat_sub_exact word_le_nat_alt)
  then show ?thesis
    unfolding new using own part [of "reserve_a_of s pid"] part [of "reserve_b_of s pid"] removed(6,7) eq
    by (simp flip: T_def)
qed simp

text \<open>A successful deposit mints at least the requested shares, to the caller and to the pool
  total alike, and never takes more of either token than was offered, also when the unchecked
  multiplications wrap around.\<close>

theorem add_liquidity_charges_at_most_offered:
  assumes "add_liquidity ctx s = (0, s')" "add_request ctx pid a b m" "short_id pid" "caller_ok ctx"
  shows "m \<le> total_lp_of s' pid - total_lp_of s pid \<and>
    lp_of s' pid (cx_caller ctx) = lp_of s pid (cx_caller ctx) + (total_lp_of s' pid - total_lp_of s pid) \<and>
    reserve_a_of s' pid - reserve_a_of s pid \<le> a \<and> reserve_b_of s' pid - reserve_b_of s pid \<le> b"
  using assms(1)
proof (cases rule: add_liquidity_cases)
  case (added pid' a' b' m')
  define lp where "lp = lp_minted s pid a b"
  define T where "T = total_lp_of s pid"
  have eq: "pid' = pid" "a' = a" "b' = b" "m' = m" using request_unique(2) [OF assms(2) added(2)] by simp_all
  have charge: "lp * r div T \<le> x" if "lp \<le> x * T div r" "0 < T" for x r
  proof -
    have "unat lp * unat r \<le> unat (x * T div r) * unat r"
      using that(1) by (intro mult_le_mono1) (simp add: word_le_nat_alt)
    also have "\<dots> \<le> unat (x * T)" by (simp add: unat_div)
    finally have "unat (lp * r) \<le> unat x * unat T" using unat_mult_le [of lp r] unat_mult_le [of x T] by linarith
    then have "unat (lp * r) div unat T \<le> unat x * unat T div unat T" by (rule div_le_mono)
    then show ?thesis using that(2) by (simp add: word_le_nat_alt unat_div word_less_nat_alt)
  qed
  have le: "lp \<le> a * T div reserve_a_of s pid" "lp \<le> b * T div reserve_b_of s pid"
    by (simp_all add: lp_def lp_minted_def T_def)
  have new: "reserve_a_of s' pid = reserve_a_of s pid + lp * reserve_a_of s pid div T"
    "reserve_b_of s' pid = reserve_b_of s pid + lp * reserve_b_of s pid div T"
    "total_lp_of s' pid = T + lp" "lp_of s' pid (cx_caller ctx) = lp_of s pid (cx_caller ctx) + lp"
    using get_state_kv(2) [OF added(10)] eq assms(3) short_lp_key [OF assms(3,4)]
    by (simp_all add: add_kv_def Let_def store_liquidity_lp_of lp_def T_def)
  show ?thesis
    unfolding new using added(8,9) eq charge [OF le(1)] charge [OF le(2)]
    by (simp add: lp_def T_def)
qed simp

text \<open>A call of the exchange that reports failure leaves every stored value as it was, and the
  four queries never change one.\<close>

theorem dex_failure_changes_nothing:
  "(\<forall>op \<in> {dex_init ctx, create_pool ctx, add_liquidity ctx, remove_liquidity ctx, swap ctx}.
      fst (op s) \<noteq> 0 \<longrightarrow> ct_kv (snd (op s)) = ct_kv s) \<and>
   (\<forall>query \<in> {get_pool ctx, quote ctx, get_position ctx, list_pools}. ct_kv (snd (query s)) = ct_kv s)"
proof -
  have "ct_kv (snd (dex_init ctx s)) = ct_kv s" if "fst (dex_init ctx s) \<noteq> 0"
    by (rule dex_init_cases [OF prod.collapse [symmetric]]) (use that in simp_all)+
  moreover have "ct_kv (snd (create_pool ctx s)) = ct_kv s" if "fst (create_pool ctx s) \<noteq> 0"
    by (rule create_pool_cases [OF prod.collapse [symmetric]]) (use that in simp_all)+
  moreover have "ct_kv (snd (add_liquidity ctx s)) = ct_kv s" if "fst (add_liquidity ctx s) \<noteq> 0"
    by (rule add_liquidity_cases [OF prod.collapse [symmetric]]) (use that in simp_all)+
  moreover have "ct_kv (snd (remove_liquidity ctx s)) = ct_kv s" if "fst (remove_liquidity ctx s) \<noteq> 0"
    by (rule remove_liquidity_cases [OF prod.collapse [symmetric]]) (use that in simp_all)+
  moreover have "ct_kv (snd (swap ctx s)) = ct_kv s" if "fst (swap ctx s) \<noteq> 0"
    by (rule swap_cases [OF prod.collapse [symmetric]]) (use that in simp_all)+
  ultimately show ?thesis by (simp add: queries_kv)
qed

section \<open>Concrete runs\<close>

definition w_call :: "string list \<Rightarrow> contract_ctx" where
  "w_call args = \<lparr>cx_caller = ''LOSx'', cx_args = args, cx_timestamp = 10, cx_self = ''LOSConX''\<rparr>"

definition w_dex1 :: contract_state where
  "w_dex1 = snd (dex_init (w_call []) dex_empty)"

definition w_dex2 :: contract_state where
  "w_dex2 = snd (create_pool (w_call [''A'', ''B'', ''2000'', ''2000'']) w_dex1)"

lemmas w_call_simps = w_call_def arg_nonempty_def arg_u128_def cx_arg_def parse_u128_def parse_u64_def checked_mul_def
  checked_add_def less_eq_char_def

lemma w_caller_ok [simp]: "caller_ok (w_call args)"
  by (simp add: caller_ok_def w_call_def)

lemma w_short [simp]: "short_id ''POOL:A:B''" "short_key ''dex:init''" "short_key ''dex:pool_count''"
  by (simp_all add: short_id_def MAX_STATE_KEY_SIZE_def)

lemma w_isqrt: "contract_isqrt 4000000 = 2000"
proof -
  have "unat (contract_isqrt 4000000) = 2000" by (rule contract_sqrt.sq_unique) simp_all
  then show ?thesis by (simp add: word_unat_eq_iff)
qed

lemma w_pool_id: "make_pool_id ''A'' ''B'' = ''POOL:A:B''"
  by (simp add: make_pool_id_def less_char_def)

lemma w_dex1_kv: "ct_kv w_dex1 = [(''dex:init'', ''1''), (''dex:owner'', ''LOSx''), (''dex:pool_count'', ''0'')]"
  by (simp add: w_dex1_def dex_init_def dex_initialized_def dex_empty_def Let_def w_call_def
      get_state_str_def state_get_str_def state_set_str_def set_state_u64_def host_key_def MAX_STATE_KEY_SIZE_def
      u128_to_str_def less_char_def)

lemma w_create: "create_pool (w_call [''A'', ''B'', ''2000'', ''2000'']) w_dex1 = (0, w_dex2)"
  "ct_kv w_dex2 = ct_kv (create_kv (w_call [''A'', ''B'', ''2000'', ''2000'']) ''A'' ''B'' 2000 2000 30 w_dex1)"
proof -
  have no: "\<not> pool_exists w_dex1 ''POOL:A:B''" "dex_initialized w_dex1"
    by (simp_all add: pool_exists_def dex_initialized_def get_state_str_def state_get_str_def w_dex1_kv host_key_def
        MAX_STATE_KEY_SIZE_def pool_key_def)
  let ?c = "w_call [''A'', ''B'', ''2000'', ''2000'']"
  have checked: "create_pool ?c w_dex1 = create_pool_checked ?c ''A'' ''B'' 2000 2000 30 w_dex1"
    using no by (simp add: create_pool_def w_call_simps DEFAULT_FEE_BPS_def)
  have "fst (create_pool_checked ?c ''A'' ''B'' 2000 2000 30 w_dex1) = 0"
    using no by (simp add: create_pool_checked_def w_pool_id w_isqrt checked_mul_def MAX_FEE_BPS_def
        MINIMUM_LIQUIDITY_def Let_def contract_ok_data_def)
  then show 1: "create_pool ?c w_dex1 = (0, w_dex2)" using checked by (simp add: w_dex2_def prod_eq_iff)
  have "ct_kv (snd (create_pool_checked ?c ''A'' ''B'' 2000 2000 30 w_dex1)) =
      ct_kv (create_kv ?c ''A'' ''B'' 2000 2000 30 w_dex1)"
    using no by (simp add: create_pool_checked_def create_kv_def w_pool_id w_isqrt checked_mul_def MAX_FEE_BPS_def
        MINIMUM_LIQUIDITY_def Let_def)
  then show "ct_kv w_dex2 = ct_kv (create_kv ?c ''A'' ''B'' 2000 2000 30 w_dex1)"
    using checked by (simp add: w_dex2_def)
qed

lemma w_reach: "dex_step\<^sup>*\<^sup>* dex_empty w_dex2"
proof -
  have "dex_step dex_empty w_dex1" using step_init [OF prod.collapse [symmetric]] by (simp add: w_dex1_def)
  moreover have "dex_step w_dex1 w_dex2" using step_create [OF w_create(1)] by simp
  ultimately show ?thesis by simp
qed

lemma w_dex2_get [simp]:
  "reserve_a_of w_dex2 ''POOL:A:B'' = 2000" "reserve_b_of w_dex2 ''POOL:A:B'' = 2000"
  "total_lp_of w_dex2 ''POOL:A:B'' = 2000" "fee_of w_dex2 ''POOL:A:B'' = 30"
  "get_state_str w_dex2 (pool_key ''POOL:A:B'' ''token_a'') = ''A''"
  "get_state_str w_dex2 (pool_key ''POOL:A:B'' ''token_b'') = ''B''"
  "lp_of w_dex2 ''POOL:A:B'' ''LOSx'' = 1000" "get_state_str w_dex2 ''dex:init'' = ''1''"
proof -
  have "short_key (lp_key ''POOL:A:B'' ''LOSx'')" by (simp add: lp_key_def MAX_STATE_KEY_SIZE_def)
  moreover have "cx_caller (w_call args) = ''LOSx''" for args by (simp add: w_call_def)
  moreover have "get_state_str w_dex1 ''dex:init'' = ''1''"
    by (simp add: get_state_str_def state_get_str_def w_dex1_kv host_key_def MAX_STATE_KEY_SIZE_def)
  moreover have "8 < MAX_STATE_KEY_SIZE" by (simp add: MAX_STATE_KEY_SIZE_def)
  ultimately show "reserve_a_of w_dex2 ''POOL:A:B'' = 2000" "reserve_b_of w_dex2 ''POOL:A:B'' = 2000"
    "total_lp_of w_dex2 ''POOL:A:B'' = 2000" "fee_of w_dex2 ''POOL:A:B'' = 30"
    "get_state_str w_dex2 (pool_key ''POOL:A:B'' ''token_a'') = ''A''"
    "get_state_str w_dex2 (pool_key ''POOL:A:B'' ''token_b'') = ''B''"
    "lp_of w_dex2 ''POOL:A:B'' ''LOSx'' = 1000" "get_state_str w_dex2 ''dex:init'' = ''1''"
    unfolding get_state_kv [OF w_create(2)]
    by (simp_all add: create_kv_def store_pool_def Let_def w_pool_id w_isqrt MINIMUM_LIQUIDITY_def)
qed

lemma w_dex2_exists [simp]: "pool_exists w_dex2 ''POOL:A:B''" "dex_initialized w_dex2"
  by (simp_all add: pool_exists_def dex_initialized_def)



theorem remove_liquidity_is_fair_witness:
  "reserve_a_of (snd (remove_liquidity (w_call [''POOL:A:B'', ''500'', ''1'', ''1'']) w_dex2)) ''POOL:A:B'' \<le> 2000"
proof -
  let ?c = "w_call [''POOL:A:B'', ''500'', ''1'', ''1'']"
  have req: "remove_request ?c ''POOL:A:B'' 500 1 1" by (simp add: remove_request_def w_call_simps)
  have who: "cx_caller ?c = ''LOSx''" by (simp add: w_call_def)
  have "fst (remove_liquidity ?c w_dex2) = 0"
    by (simp add: remove_liquidity_def arg_nonempty_def arg_u128_def cx_arg_def parse_u128_def w_call_def
        remove_liquidity_checked_def Let_def contract_ok_data_def checked_mul_def checked_add_def less_eq_char_def)
  then have "remove_liquidity ?c w_dex2 = (0, snd (remove_liquidity ?c w_dex2))" by (simp add: prod_eq_iff)
  from remove_liquidity_is_fair [OF w_reach this req] show ?thesis by simp
qed

theorem add_liquidity_charges_at_most_offered_witness:
  "reserve_a_of (snd (add_liquidity (w_call [''POOL:A:B'', ''50'', ''60'', ''1'']) w_dex2)) ''POOL:A:B'' - 2000 \<le> 50"
proof -
  let ?c = "w_call [''POOL:A:B'', ''50'', ''60'', ''1'']"
  have req: "add_request ?c ''POOL:A:B'' 50 60 1" by (simp add: add_request_def w_call_simps)
  have "fst (add_liquidity ?c w_dex2) = 0"
    by (simp add: add_liquidity_def w_call_simps add_liquidity_checked_def Let_def contract_ok_data_def)
  then have "add_liquidity ?c w_dex2 = (0, snd (add_liquidity ?c w_dex2))" by (simp add: prod_eq_iff)
  from add_liquidity_charges_at_most_offered [OF this req] show ?thesis by simp
qed

theorem dex_failure_changes_nothing_witness:
  "ct_kv (snd (dex_init (w_call []) w_dex2)) = ct_kv w_dex2"
proof -
  have "fst (dex_init (w_call []) w_dex2) \<noteq> 0" by (simp add: dex_init_def contract_fail_def)
  then show ?thesis using dex_failure_changes_nothing [of "w_call []" w_dex2] by simp
qed

section \<open>Identifiers longer than the host's keys\<close>

lemma long_pool_key: "1019 \<le> length pid \<Longrightarrow> host_key (pool_key pid f) = host_key (pool_key pid g)"
  by (simp add: host_key_def MAX_STATE_KEY_SIZE_def pool_key_def)

lemma long_field: "1019 \<le> length pid \<Longrightarrow> get_state_str s (pool_key pid f) = get_state_str s (pool_key pid ''last_trade'')"
  by (simp add: get_state_str_def state_get_str_def long_pool_key [of pid f "''last_trade''"])

text \<open>Token names are not limited, but the host cuts keys to 1024 bytes. A pool whose
  identifier has 1019 bytes or more is created successfully and exists, yet all its fields share one
  key, which holds the last value written, the trade time 0: its reserves and its share total read 0.\<close>

theorem long_pool_id_loses_liquidity:
  assumes "create_pool ctx s = (0, s')" "arg_nonempty ctx 0 = Some ta" "arg_nonempty ctx 1 = Some tb"
    and "1019 \<le> length (make_pool_id ta tb)"
  shows "pool_exists s' (make_pool_id ta tb) \<and> reserve_a_of s' (make_pool_id ta tb) = 0 \<and>
    reserve_b_of s' (make_pool_id ta tb) = 0 \<and> total_lp_of s' (make_pool_id ta tb) = 0"
  using assms(1)
proof (cases rule: create_pool_cases)
  case (created ta' tb' a b fee)
  let ?pid = "make_pool_id ta tb"
  have eq: "ta' = ta" "tb' = tb" using created(2,3) assms(2,3) by simp_all
  have cut: "host_key (pool_key ?pid f) \<noteq> host_key (CHR ''d'' # cs)"
    "host_key (pool_key ?pid f) \<noteq> host_key (lp_key q w)"
    "host_key (pool_key ?pid f) \<noteq> host_key (pool_list_key i)" for f cs q w i
    by (simp_all add: host_key_def MAX_STATE_KEY_SIZE_def pool_key_def lp_key_def pool_list_key_def)
  have "get_state_str (create_kv ctx ta tb a b fee s) (pool_key ?pid ''last_trade'') = ''0''"
    by (simp add: create_kv_def store_pool_def Let_def get_state_str_def state_get_str_def state_set_str_def
        set_state_u64_def set_state_u128_def cut u128_to_str_def)
  then have "get_state_str s' (pool_key ?pid f) = ''0''" for f
    using get_state_kv(1) [OF created(13)] long_field [OF assms(4), of s' f] by (simp add: eq)
  then show ?thesis
    by (simp add: pool_exists_def get_state_u128_def parse_u128_def checked_mul_def checked_add_def less_eq_char_def)
qed simp

definition w_long :: string where
  "w_long = replicate 1100 (CHR ''a'')"

theorem long_pool_id_loses_liquidity_witness:
  "reserve_a_of (snd (create_pool (w_call [w_long, ''B'', ''2000'', ''2000'']) w_dex1)) (make_pool_id w_long ''B'') = 0"
proof -
  let ?c = "w_call [w_long, ''B'', ''2000'', ''2000'']"
  have len: "length w_long = 1100" by (simp add: w_long_def)
  then have w: "w_long \<noteq> []" "w_long \<noteq> ''B''" by (auto dest: arg_cong [where f = length])
  have no: "\<not> pool_exists w_dex1 (make_pool_id w_long ''B'')" "dex_initialized w_dex1"
    by (simp_all add: pool_exists_def dex_initialized_def get_state_str_def state_get_str_def w_dex1_kv host_key_def
        MAX_STATE_KEY_SIZE_def pool_key_def)
  have args: "arg_nonempty ?c 0 = Some w_long" "arg_nonempty ?c 1 = Some ''B''" "arg_u128 ?c 2 = Some 2000"
    "arg_u128 ?c 3 = Some 2000" "arg_nonempty ?c 4 = None"
    using w by (simp_all add: w_call_simps)
  have "fst (create_pool ?c w_dex1) = 0"
    using no w by (simp add: create_pool_def args args(2) [unfolded One_nat_def] DEFAULT_FEE_BPS_def create_pool_checked_def w_isqrt checked_mul_def
        MAX_FEE_BPS_def MINIMUM_LIQUIDITY_def Let_def contract_ok_data_def)
  then have "create_pool ?c w_dex1 = (0, snd (create_pool ?c w_dex1))" by (simp add: prod_eq_iff)
  moreover have "1019 \<le> length (make_pool_id w_long ''B'')" by (simp add: make_pool_id_def len)
  ultimately show ?thesis using long_pool_id_loses_liquidity [OF _ args(1,2)] by blast
qed

end
