(* ===== verification/Node_Core.thy ===== *)
theory Node_Core
  imports Ledger_Safety
begin

text \<open>
  Shared parts of the node (\<open>los-node/src/main.rs\<close>, \<open>los-node/src/testnet_config.rs\<close>): the operating
  mode, short addresses, proof-of-work search, signing, the conversion of burned coins, the per-address
  request limiter, and the places where handlers change the ledger directly instead of calling
  \<open>process_block\<close>. Shown here: the search for a proof of work ends and finds the least nonce, and a direct
  debit and credit are the commits of a Send and of its Receive, so they conserve value.
\<close>

section \<open>Operating mode\<close>

datatype testnet_level = Functional | Consensus | Production

record testnet_config =
  tc_level :: testnet_level
  tc_enable_faucet :: bool
  tc_consensus_threshold_bps :: u32
  tc_oracle_consensus :: bool
  tc_signature_validation :: bool
  tc_byzantine_testing :: bool
  tc_economic_incentives :: bool

definition config_functional :: testnet_config where
  "config_functional =
     \<lparr>tc_level = Functional, tc_enable_faucet = True, tc_consensus_threshold_bps = 0,
      tc_oracle_consensus = False, tc_signature_validation = False, tc_byzantine_testing = False,
      tc_economic_incentives = False\<rparr>"

definition config_consensus_testing :: testnet_config where
  "config_consensus_testing =
     \<lparr>tc_level = Consensus, tc_enable_faucet = True, tc_consensus_threshold_bps = 6700,
      tc_oracle_consensus = True, tc_signature_validation = True, tc_byzantine_testing = True,
      tc_economic_incentives = False\<rparr>"

definition config_production_simulation :: testnet_config where
  "config_production_simulation =
     \<lparr>tc_level = Production, tc_enable_faucet = False, tc_consensus_threshold_bps = 6700,
      tc_oracle_consensus = True, tc_signature_validation = True, tc_byzantine_testing = True,
      tc_economic_incentives = True\<rparr>"

definition should_enable_consensus :: "testnet_config \<Rightarrow> bool" where
  "should_enable_consensus c = (tc_level c \<in> {Consensus, Production})"

definition should_validate_signatures :: "testnet_config \<Rightarrow> bool" where
  "should_validate_signatures c = tc_signature_validation c"

definition should_enable_faucet :: "testnet_config \<Rightarrow> bool" where
  "should_enable_faucet c = tc_enable_faucet c"

text \<open>The second argument is the environment variable \<open>LOS_TESTNET_LEVEL\<close>.\<close>

definition get_testnet_config :: "los_env \<Rightarrow> string option \<Rightarrow> testnet_config" where
  "get_testnet_config env level =
     (if is_mainnet_build env then config_production_simulation
      else if level = Some ''functional'' then config_functional
      else if level = Some ''consensus'' then config_consensus_testing
      else if level = Some ''production'' then config_production_simulation
      else config_consensus_testing)"

lemma mainnet_config_strict:
  "is_mainnet_build env \<Longrightarrow> should_enable_consensus (get_testnet_config env level)
     \<and> should_validate_signatures (get_testnet_config env level)
     \<and> \<not> should_enable_faucet (get_testnet_config env level)"
  by (simp add: get_testnet_config_def config_production_simulation_def should_enable_consensus_def
      should_validate_signatures_def should_enable_faucet_def)

section \<open>The node and its clock\<close>

text \<open>
  The identity of a node, and third-party code its handlers call: Dilithium5 signing, and Base64 with
  \<open>serde_json\<close> for blocks on the wire. A handler reads the clock several times; here it runs at one
  moment, given in seconds, milliseconds and as a monotonic instant in nanoseconds.
\<close>

record node_env =
  ne_env :: los_env
  ne_level :: "string option"
  ne_address :: string
  ne_public_key :: bytes
  ne_sign :: "bytes \<Rightarrow> bytes option"
  ne_block_to_b64 :: "block \<Rightarrow> string"
  ne_block_of_b64 :: "string \<Rightarrow> block option"

record clock =
  ck_secs :: u64
  ck_millis :: u128
  ck_instant :: nat

abbreviation ne_config :: "node_env \<Rightarrow> testnet_config" where
  "ne_config ne \<equiv> get_testnet_config (ne_env ne) (ne_level ne)"

text \<open>\<open>get_short_addr\<close> slices bytes 3 to 11 and panics when one of them is not a character boundary.\<close>

definition get_short_addr :: "string \<Rightarrow> string option" where
  "get_short_addr full_addr =
     (if length full_addr < 12 then Some full_addr
      else if is_char_boundary full_addr 3 \<and> is_char_boundary full_addr 11
      then Some (''los_'' @ drop 3 (take 11 full_addr)) else None)"

definition try_sign_hex :: "node_env \<Rightarrow> bytes \<Rightarrow> string option" where
  "try_sign_hex ne msg = map_option (hex_encode (ne_env ne)) (ne_sign ne msg)"

section \<open>Proof of work\<close>

definition MAX_POW_ITERATIONS :: nat where
  "MAX_POW_ITERATIONS = 10000000"

text \<open>The counter is a \<open>u64\<close> that stays far below its range.\<close>

function pow_search :: "los_env \<Rightarrow> block \<Rightarrow> nat \<Rightarrow> block" where
  "pow_search env b nonce =
     (let b = b\<lparr>blk_work := of_nat nonce\<rparr> in
      if verify_pow env b then b
      else if MAX_POW_ITERATIONS \<le> nonce + 1 then b
      else pow_search env b (nonce + 1))"
  by auto

termination pow_search
  by (relation "measure (\<lambda>(env, b, nonce). MAX_POW_ITERATIONS - nonce)") auto

declare pow_search.simps [simp del]

definition solve_pow :: "los_env \<Rightarrow> block \<Rightarrow> block" where
  "solve_pow env b = pow_search env b 0"

definition compute_pow_inline :: "los_env \<Rightarrow> block \<Rightarrow> block" where
  "compute_pow_inline env b = pow_search env b 0"

abbreviation pow_at :: "los_env \<Rightarrow> block \<Rightarrow> nat \<Rightarrow> bool" where
  "pow_at env b n \<equiv> verify_pow env (b\<lparr>blk_work := of_nat n\<rparr>)"

lemma pow_search_result:
  assumes "nonce < MAX_POW_ITERATIONS"
  shows "\<exists>n. pow_search env b nonce = b\<lparr>blk_work := of_nat n\<rparr> \<and> nonce \<le> n \<and> n < MAX_POW_ITERATIONS
    \<and> (\<forall>k. nonce \<le> k \<and> k < n \<longrightarrow> \<not> pow_at env b k) \<and> (pow_at env b n \<or> n + 1 = MAX_POW_ITERATIONS)"
  using assms
proof (induction env b nonce rule: pow_search.induct)
  case (1 env b nonce)
  show ?case
  proof (cases "pow_at env b nonce \<or> MAX_POW_ITERATIONS \<le> nonce + 1")
    case True
    with 1(2) show ?thesis
      by (intro exI [of _ nonce]) (auto simp: pow_search.simps [of env b nonce] Let_def)
  next
    case False
    then obtain n where n: "pow_search env (b\<lparr>blk_work := of_nat nonce\<rparr>) (nonce + 1) = b\<lparr>blk_work := of_nat n\<rparr>"
        "nonce + 1 \<le> n" "n < MAX_POW_ITERATIONS"
        "\<forall>k. nonce + 1 \<le> k \<and> k < n \<longrightarrow> \<not> pow_at env b k" "pow_at env b n \<or> n + 1 = MAX_POW_ITERATIONS"
      using 1(1) [OF refl] by auto
    have "pow_search env b nonce = b\<lparr>blk_work := of_nat n\<rparr>"
      using False n(1) by (simp add: pow_search.simps [of env b nonce] Let_def)
    moreover have "\<forall>k. nonce \<le> k \<and> k < n \<longrightarrow> \<not> pow_at env b k"
      using False n(4) by (metis Suc_eq_plus1 le_antisym not_less_eq_eq)
    ultimately show ?thesis using n(2,3,5) by (intro exI [of _ n]) simp
  qed
qed

text \<open>C19: termination of the proof-of-work search. It always returns the block with only its nonce
  changed; if some nonce below ten million is valid it returns the least valid one, and otherwise the
  last nonce tried.\<close>

theorem solve_pow_finds_least_nonce:
  "\<exists>n < 10000000. solve_pow env b = b\<lparr>blk_work := of_nat n\<rparr>
     \<and> (if \<exists>k < 10000000. pow_at env b k then pow_at env b n \<and> (\<forall>k < n. \<not> pow_at env b k)
        else n = 9999999)"
proof -
  obtain n where n: "solve_pow env b = b\<lparr>blk_work := of_nat n\<rparr>" "n < MAX_POW_ITERATIONS"
      "\<forall>k < n. \<not> pow_at env b k" "pow_at env b n \<or> n + 1 = MAX_POW_ITERATIONS"
    using pow_search_result [of 0 env b] by (auto simp: solve_pow_def MAX_POW_ITERATIONS_def)
  have "pow_at env b n" if "k < 10000000" "pow_at env b k" for k
  proof (rule ccontr)
    assume "\<not> pow_at env b n"
    then have "k < n \<or> k = n" using n(4) that(1) by (auto simp: MAX_POW_ITERATIONS_def)
    then show False using n(3) that(2) \<open>\<not> pow_at env b n\<close> by blast
  qed
  then show ?thesis using n by (auto simp: MAX_POW_ITERATIONS_def intro!: exI [of _ n])
qed

theorem solve_pow_finds_least_nonce_witness:
  "pow_at demo_env demo_send 0 \<and> solve_pow demo_env demo_send = demo_send\<lparr>blk_work := of_nat 0\<rparr>"
proof -
  have "\<exists>k < 10000000. pow_at demo_env demo_send k"
    by (rule exI [of _ 0]) (simp add: demo_pow)
  then obtain n where n: "solve_pow demo_env demo_send = demo_send\<lparr>blk_work := of_nat n\<rparr>"
      "\<forall>k < n. \<not> pow_at demo_env demo_send k"
    using solve_pow_finds_least_nonce [of demo_env demo_send] by (simp only: if_True) blast
  have "n = 0" using n(2) demo_pow by auto
  with n(1) show ?thesis by (simp add: demo_pow)
qed

lemma solve_pow_fields [simp]:
  "blk_account (solve_pow env b) = blk_account b" "blk_previous (solve_pow env b) = blk_previous b"
  "blk_type (solve_pow env b) = blk_type b" "blk_amount (solve_pow env b) = blk_amount b"
  "blk_link (solve_pow env b) = blk_link b" "blk_signature (solve_pow env b) = blk_signature b"
  "blk_public_key (solve_pow env b) = blk_public_key b" "blk_timestamp (solve_pow env b) = blk_timestamp b"
  "blk_fee (solve_pow env b) = blk_fee b"
  using pow_search_result [of 0 env b] by (auto simp: solve_pow_def MAX_POW_ITERATIONS_def)

section \<open>Conversion of burned coins\<close>

datatype mint_error = BurnValueOverflow | MintAmountOverflow

definition calculate_mint_cil :: "u128 \<Rightarrow> u128 \<Rightarrow> string \<Rightarrow> (u128, mint_error) result" where
  "calculate_mint_cil amt_base price_micro_usd symbol =
     (let base_divisor = (if symbol = ''ETH'' then 1000000000000000000 else 100000000) in
      case checked_mul amt_base price_micro_usd of
        None \<Rightarrow> Err BurnValueOverflow
      | Some v \<Rightarrow>
          let usd_micro = v div base_divisor in
          (case checked_mul usd_micro CIL_PER_LOS of
             None \<Rightarrow> Err MintAmountOverflow
           | Some r \<Rightarrow> Ok (r div 10000)))"

section \<open>Requests per address\<close>

record endpoint_limiter =
  el_requests :: "(string, nat list) btree_map"
  el_max_requests :: u32
  el_window :: nat
  el_last_cleanup :: nat

definition endpoint_limiter_new :: "u32 \<Rightarrow> u64 \<Rightarrow> nat \<Rightarrow> endpoint_limiter" where
  "endpoint_limiter_new max_requests window_secs now =
     \<lparr>el_requests = [], el_max_requests = max_requests, el_window = unat window_secs * 1000000000,
      el_last_cleanup = now\<rparr>"

definition el_cleanup :: "nat \<Rightarrow> endpoint_limiter \<Rightarrow> endpoint_limiter" where
  "el_cleanup now el =
     (if 60 * 1000000000 < now - el_last_cleanup el then
        el\<lparr>el_requests :=
             filter (\<lambda>e. snd e \<noteq> [])
               (bt_map_values (filter (\<lambda>t. now - t < el_window el)) (el_requests el)),
           el_last_cleanup := now\<rparr>
      else el)"

definition el_recent :: "nat \<Rightarrow> string \<Rightarrow> endpoint_limiter \<Rightarrow> nat list" where
  "el_recent now address el =
     filter (\<lambda>t. now - t < el_window el)
       (case bt_get (el_requests el) address of Some ts \<Rightarrow> ts | None \<Rightarrow> [])"

definition el_wait :: "nat \<Rightarrow> nat list \<Rightarrow> endpoint_limiter \<Rightarrow> u64" where
  "el_wait now timestamps el =
     (let elapsed = now - hd timestamps
      in if elapsed < el_window el then of_nat ((el_window el - elapsed) div 1000000000) + 1 else 1)"

text \<open>With a limit of 0 the wait indexes an empty vector and panics.\<close>

definition check_and_record :: "nat \<Rightarrow> string \<Rightarrow> endpoint_limiter \<Rightarrow> (unit, u64) result \<times> endpoint_limiter" where
  "check_and_record now address el =
     (let el = el_cleanup now el;
          timestamps = el_recent now address el;
          keep = (\<lambda>ts. el\<lparr>el_requests := bt_insert address ts (el_requests el)\<rparr>)
      in if unat (el_max_requests el) \<le> length timestamps then
           (if timestamps = [] then Panic else Err (el_wait now timestamps el), keep timestamps)
         else (Ok (), keep (timestamps @ [now])))"

definition check_only :: "nat \<Rightarrow> string \<Rightarrow> endpoint_limiter \<Rightarrow> (unit, u64) result \<times> endpoint_limiter" where
  "check_only now address el =
     (let timestamps = el_recent now address el;
          el = el\<lparr>el_requests := bt_insert address timestamps (el_requests el)\<rparr>
      in if unat (el_max_requests el) \<le> length timestamps then
           (if timestamps = [] then Panic else Err (el_wait now timestamps el), el)
         else (Ok (), el))"

definition record_success :: "nat \<Rightarrow> string \<Rightarrow> endpoint_limiter \<Rightarrow> endpoint_limiter" where
  "record_success now address el =
     el\<lparr>el_requests := bt_insert address
          ((case bt_get (el_requests el) address of Some ts \<Rightarrow> ts | None \<Rightarrow> []) @ [now]) (el_requests el)\<rparr>"

section \<open>Direct changes of the ledger\<close>

text \<open>
  Several handlers change the ledger without \<open>process_block\<close>. The pieces they share: an account that is
  missing is created, the account is debited, and a Receive is credited.
\<close>

definition ensure_account :: "string \<Rightarrow> ledger \<Rightarrow> ledger" where
  "ensure_account a L =
     (if bt_contains (accounts L) a then L
      else L\<lparr>accounts := bt_insert a \<lparr>acc_head = ''0'', acc_balance = 0, acc_block_count = 0, acc_is_validator = False\<rparr> (accounts L)\<rparr>)"

definition debit_refused :: "block \<Rightarrow> ledger \<Rightarrow> bool" where
  "debit_refused b L =
     (case bt_get (accounts L) (blk_account b) of
        Some st \<Rightarrow> acc_head st \<noteq> blk_previous b \<or> acc_balance st < saturating_add (blk_amount b) (blk_fee b)
      | None \<Rightarrow> False)"

definition direct_debit :: "block \<Rightarrow> string \<Rightarrow> ledger \<Rightarrow> ledger" where
  "direct_debit b h L =
     L\<lparr>accounts := bt_modify (blk_account b)
         (\<lambda>st. st\<lparr>acc_balance := acc_balance st - saturating_add (blk_amount b) (blk_fee b), acc_head := h,
               acc_block_count := acc_block_count st + 1\<rparr>) (accounts L),
       accumulated_fees_cil := saturating_add (accumulated_fees_cil L) (blk_fee b),
       blocks := bt_insert h b (blocks L)\<rparr>"

definition direct_credit :: "block \<Rightarrow> string \<Rightarrow> ledger \<Rightarrow> ledger" where
  "direct_credit r h L =
     L\<lparr>accounts := bt_modify (blk_account r)
         (\<lambda>st. st\<lparr>acc_balance := saturating_add (acc_balance st) (blk_amount r), acc_head := h,
               acc_block_count := acc_block_count st + 1\<rparr>) (accounts L),
       blocks := bt_insert h r (blocks L),
       claimed_sends := insert (blk_link r) (claimed_sends L)\<rparr>"

text \<open>A validator whose balance fell below the minimum stake loses its flag.\<close>

definition auto_unregister :: "string \<Rightarrow> ledger \<Rightarrow> ledger" where
  "auto_unregister a L =
     L\<lparr>accounts := bt_modify a
         (\<lambda>st. if acc_is_validator st \<and> acc_balance st < MIN_VALIDATOR_STAKE_CIL
               then st\<lparr>acc_is_validator := False\<rparr> else st) (accounts L)\<rparr>"

definition auto_receive_block :: "node_env \<Rightarrow> clock \<Rightarrow> string \<Rightarrow> string \<Rightarrow> u128 \<Rightarrow> ledger \<Rightarrow> block" where
  "auto_receive_block ne ck target send_hash amount L =
     solve_pow (ne_env ne)
       \<lparr>blk_account = target, blk_previous = acc_head (account_or_default L target), blk_type = Receive,
        blk_amount = amount, blk_link = send_hash, blk_signature = [],
        blk_public_key = hex_encode (ne_env ne) (ne_public_key ne), blk_work = 0,
        blk_timestamp = ck_secs ck, blk_fee = 0\<rparr>"

lemma bt_insert_same [simp]: "bt_insert k v (bt_insert k w m) = bt_insert k v m"
  by (induction m) auto

lemma account_or_default_ensure [simp]: "account_or_default (ensure_account a L) x = account_or_default L x"
  by (auto simp: account_or_default_def ensure_account_def bt_contains_def)

lemma ensure_account_sel [simp]:
  "blocks (ensure_account a L) = blocks L" "claimed_sends (ensure_account a L) = claimed_sends L"
  "distribution (ensure_account a L) = distribution L"
  "accumulated_fees_cil (ensure_account a L) = accumulated_fees_cil L"
  "bt_contains (accounts (ensure_account a L)) a"
  by (auto simp: ensure_account_def bt_contains_def)

lemma insert_ensure [simp]: "bt_insert a st (accounts (ensure_account a L)) = bt_insert a st (accounts L)"
  by (auto simp: ensure_account_def)

lemma bt_modify_contained:
  "bt_contains (accounts L) a \<Longrightarrow>
     bt_modify a f (accounts L) = bt_insert a (f (account_or_default L a)) (accounts L)"
  by (auto simp: bt_modify_def account_or_default_def bt_contains_def)

text \<open>The direct changes are commits of the block they store.\<close>

lemma direct_debit_commit:
  assumes "blk_type b \<noteq> Receive"
  shows "direct_debit b h (ensure_account (blk_account b) L) =
    commit_block b h
      ((account_or_default L (blk_account b))\<lparr>acc_balance :=
          acc_balance (account_or_default L (blk_account b)) - saturating_add (blk_amount b) (blk_fee b)\<rparr>)
      (L\<lparr>accumulated_fees_cil := saturating_add (accumulated_fees_cil L) (blk_fee b)\<rparr>)"
  using assms
  by (intro ledger.equality) (simp_all add: direct_debit_def bt_modify_contained commit_block_def Let_def)

lemma direct_credit_commit:
  assumes "blk_type r = Receive"
  shows "direct_credit r h (ensure_account (blk_account r) L) =
    commit_block r h
      ((account_or_default L (blk_account r))\<lparr>acc_balance :=
          saturating_add (acc_balance (account_or_default L (blk_account r))) (blk_amount r)\<rparr>) L"
  using assms
  by (intro ledger.equality) (simp_all add: direct_credit_def bt_modify_contained commit_block_def Let_def)

text \<open>
  The sum of amount and fee saturates; with less than \<open>2^128 - 1\<close> in the whole ledger a balance that
  covers it shows that it did not.
\<close>

lemma direct_debit_local:
  assumes "\<not> acc_balance st < saturating_add (blk_amount b) (blk_fee b)" "local_value st L < 2 ^ 128 - 1"
  shows "unat (acc_balance st - saturating_add (blk_amount b) (blk_fee b))
      + unat (saturating_add (accumulated_fees_cil L) (blk_fee b)) + unat (remaining_supply (distribution L))
      + unat (blk_amount b) = local_value st L"
proof -
  let ?d = "saturating_add (blk_amount b) (blk_fee b)"
  have le: "unat ?d \<le> unat (acc_balance st)" using assms(1) by (simp add: word_less_nat_alt)
  have "unat ?d = min (unat (blk_amount b) + unat (blk_fee b)) (2 ^ 128 - 1)" by (simp add: unat_saturating_add)
  then have d: "unat ?d = unat (blk_amount b) + unat (blk_fee b)" using le assms(2) by (auto simp: min_def split: if_splits)
  have "unat (acc_balance st - ?d) = unat (acc_balance st) - unat ?d" using le by (simp add: unat_sub_exact word_le_nat_alt)
  moreover have "unat (saturating_add (accumulated_fees_cil L) (blk_fee b)) = unat (accumulated_fees_cil L) + unat (blk_fee b)"
    using le d assms(2) by (simp add: unat_saturating_add)
  ultimately show ?thesis using le d by simp
qed

lemma local_value_le:
  assumes "ledger_inv L"
  shows "local_value (account_or_default L a) L \<le> ledger_value L"
  using balance_le_total [of L a] assms by (simp add: ledger_inv_def maps_ok_def ledger_value_def)

lemma debit_effect:
  assumes "ledger_inv L" "ledger_value L < 2 ^ 128 - 1" "blk_type b \<in> {Send, ContractDeploy, ContractCall}"
    and "\<not> debit_refused b (ensure_account (blk_account b) L)"
  shows "tx_effect b (account_or_default L (blk_account b)) L
    ((account_or_default L (blk_account b))\<lparr>acc_balance :=
        acc_balance (account_or_default L (blk_account b)) - saturating_add (blk_amount b) (blk_fee b)\<rparr>)
    (L\<lparr>accumulated_fees_cil := saturating_add (accumulated_fees_cil L) (blk_fee b)\<rparr>)"
proof -
  let ?st = "account_or_default L (blk_account b)"
  have le: "\<not> acc_balance ?st < saturating_add (blk_amount b) (blk_fee b)"
    using assms(4) by (auto simp: debit_refused_def account_or_default_def ensure_account_def bt_contains_def
        split: option.splits if_splits)
  have "local_value ?st L < 2 ^ 128 - 1" using local_value_le [OF assms(1)] assms(2) le_less_trans by blast
  then show ?thesis
    using assms(3) direct_debit_local [OF le] by (auto simp: tx_effect_def tx_in_def tx_out_def)
qed

lemma direct_debit_safe:
  assumes "ledger_inv L" "ledger_value L < 2 ^ 128 - 1" "blk_type b \<in> {Send, ContractDeploy, ContractCall}"
    and "\<not> debit_refused b (ensure_account (blk_account b) L)" "bt_get (blocks L) h = None"
  defines "L' \<equiv> direct_debit b h (ensure_account (blk_account b) L)"
  shows "ledger_inv L'" and "ledger_value L' + value_removed L b = ledger_value L"
proof -
  have r: "blk_type b \<noteq> Receive" using assms(3) by auto
  show "ledger_inv L'" "ledger_value L' + value_removed L b = ledger_value L"
    using commit_inv [OF assms(1,5) debit_effect [OF assms(1-4)]]
      commit_value [OF assms(1,5) debit_effect [OF assms(1-4)]] r
    by (simp_all add: L'_def direct_debit_commit)
qed

text \<open>Storing a Receive for an unclaimed Send to the account conserves value.\<close>

lemma direct_credit_safe:
  assumes "ledger_inv L" "blk_type r = Receive" "bt_get (blocks L) h = None"
    and "bt_get (blocks L) (blk_link r) = Some s" "blk_type s = Send" "blk_link s = blk_account r"
      "blk_amount s = blk_amount r" "blk_link r \<notin> claimed_sends L"
  defines "L' \<equiv> direct_credit r h (ensure_account (blk_account r) L)"
  shows "ledger_inv L'" and "ledger_value L' = ledger_value L"
proof -
  let ?st = "account_or_default L (blk_account r)"
  have tx: "tx_effect r ?st L (?st\<lparr>acc_balance := saturating_add (acc_balance ?st) (blk_amount r)\<rparr>) L"
    using assms(2,4-8) by (auto simp: tx_effect_def tx_in_def tx_out_def unat_saturating_add)
  show "ledger_inv L'" "ledger_value L' = ledger_value L"
    using commit_inv [OF assms(1,3) tx] commit_value [OF assms(1,3) tx] assms(2)
    by (simp_all add: L'_def direct_credit_commit value_removed_def)
qed

lemma auto_unregister_sel [simp]:
  "blocks (auto_unregister a L) = blocks L" "claimed_sends (auto_unregister a L) = claimed_sends L"
  "distribution (auto_unregister a L) = distribution L"
  "accumulated_fees_cil (auto_unregister a L) = accumulated_fees_cil L"
  by (simp_all add: auto_unregister_def)

lemma claims_depend:
  assumes "blocks L' = blocks L" "claimed_sends L' = claimed_sends L"
  shows "claims_ok L' = claims_ok L" "receives_unique L' = receives_unique L"
  unfolding claims_ok_def receives_unique_def assms by (rule refl)+

text \<open>Changes of account flags leave invariant and value alone.\<close>

lemma modify_flag_safe:
  fixes a :: string
  assumes "ledger_inv L" and f: "\<And>st. acc_balance (f st) = acc_balance st \<and> acc_head (f st) = acc_head st"
  defines "L' \<equiv> L\<lparr>accounts := bt_modify a f (accounts L)\<rparr>"
  shows "ledger_inv L'" and "ledger_value L' = ledger_value L"
proof -
  have ok: "bt_ok (accounts L)" using assms(1) by (simp add: ledger_inv_def maps_ok_def)
  have "balances_total L' = balances_total L"
  proof (cases "bt_get (accounts L) a")
    case (Some st)
    then show ?thesis
      using bt_sum_insert [OF ok, of "\<lambda>st. unat (acc_balance st)" a "f st"] f [of st]
      by (simp add: L'_def balances_total_def bt_modify_def bt_share_def)
  qed (simp add: L'_def balances_total_def bt_modify_def)
  then show v: "ledger_value L' = ledger_value L" by (simp add: L'_def ledger_value_def in_flight_def)
  have "heads_ok L" using assms(1) by (simp add: ledger_inv_def)
  then have "heads_ok L'"
    using f unfolding heads_ok_def L'_def by (simp split: if_splits) (metis)
  moreover have "claims_ok L'" "receives_unique L'"
    using assms(1) claims_depend [of L' L] by (simp_all add: L'_def ledger_inv_def)
  ultimately show "ledger_inv L'"
    using assms(1) v ok by (simp add: ledger_inv_def L'_def maps_ok_def)
qed

lemma auto_unregister_safe:
  assumes "ledger_inv L"
  shows "ledger_inv (auto_unregister a L)" "ledger_value (auto_unregister a L) = ledger_value L"
  unfolding auto_unregister_def by (rule modify_flag_safe [OF assms]; simp)+

lemma ensure_account_safe:
  assumes "ledger_inv L"
  shows "ledger_inv (ensure_account a L)" "ledger_value (ensure_account a L) = ledger_value L"
proof -
  have ok: "bt_ok (accounts L)" using assms by (simp add: ledger_inv_def maps_ok_def)
  have "balances_total (ensure_account a L) = balances_total L"
  proof (cases "bt_contains (accounts L) a")
    case False
    then have "bt_get (accounts L) a = None" by (simp add: bt_contains_def)
    with False show ?thesis
      using bt_sum_insert [OF ok, of "\<lambda>st. unat (acc_balance st)" a
          "\<lparr>acc_head = ''0'', acc_balance = 0, acc_block_count = 0, acc_is_validator = False\<rparr>"]
      by (simp add: ensure_account_def balances_total_def bt_share_def)
  qed (simp add: ensure_account_def)
  then show v: "ledger_value (ensure_account a L) = ledger_value L" by (simp add: ledger_value_def in_flight_def)
  have "heads_ok (ensure_account a L)"
    using assms unfolding ledger_inv_def heads_ok_def ensure_account_def by (auto split: if_splits)
  moreover have "maps_ok (ensure_account a L)" using assms by (simp add: ledger_inv_def maps_ok_def ensure_account_def)
  ultimately show "ledger_inv (ensure_account a L)"
    using assms v claims_depend [of "ensure_account a L" L] by (simp add: ledger_inv_def)
qed

end
