(* ===== verification/Mempool.thy ===== *)
theory Mempool
  imports Ledger Step_Systems
begin

text \<open>
  The transaction pool (\<open>los-node/src/mempool.rs\<close>): pending blocks by hash, a priority index and an
  index by sender. The hash maps are ordered maps here; the one iteration over a hash map
  (\<open>remove_expired\<close>) has a result that does not depend on its order. The clock is the argument
  \<open>now\<close>. Shown here: the two indexes always agree with the stored transactions, the pool never grows
  beyond its limit, and the next transactions handed out are those of highest priority.
\<close>

section \<open>State and operations\<close>

definition MAX_MEMPOOL_SIZE :: nat where
  "MAX_MEMPOOL_SIZE = 10000"

definition TX_EXPIRATION_SECS :: u64 where
  "TX_EXPIRATION_SECS = 86400"

record mempool_tx =
  mt_block :: block
  mt_received_at :: u64
  mt_priority :: u64
  mt_fee :: u64

record mempool =
  mp_transactions :: "(string, mempool_tx) btree_map"
  mp_queue :: "(u64, string list) btree_map"
  mp_by_sender :: "(string, string list) btree_map"
  mp_total_received :: u64
  mp_total_accepted :: u64
  mp_total_rejected :: u64
  mp_total_expired :: u64

datatype mempool_error = AlreadyInMempool | PriorityTooLow | EmptyAccount | MissingSignature

definition mempool_new :: mempool where
  "mempool_new = \<lparr>mp_transactions = [], mp_queue = [], mp_by_sender = [], mp_total_received = 0,
     mp_total_accepted = 0, mp_total_rejected = 0, mp_total_expired = 0\<rparr>"

text \<open>\<open>m.entry(k).or_default().push(x)\<close>, and \<open>retain\<close> with removal of an empty entry.\<close>

definition index_push :: "'k::linorder \<Rightarrow> 'a \<Rightarrow> ('k, 'a list) btree_map \<Rightarrow> ('k, 'a list) btree_map" where
  "index_push k x m = bt_insert k ((case bt_get m k of Some xs \<Rightarrow> xs | None \<Rightarrow> []) @ [x]) m"

definition index_drop :: "'k::linorder \<Rightarrow> 'a \<Rightarrow> ('k, 'a list) btree_map \<Rightarrow> ('k, 'a list) btree_map" where
  "index_drop k x m =
     (case bt_get m k of
        None \<Rightarrow> m
      | Some xs \<Rightarrow>
          let xs' = filter (\<lambda>h. h \<noteq> x) xs
          in if xs' = [] then bt_remove k m else bt_insert k xs' m)"

definition remove_transaction :: "string \<Rightarrow> mempool \<Rightarrow> mempool_tx option \<times> mempool" where
  "remove_transaction tx_hash m =
     (case bt_get (mp_transactions m) tx_hash of
        None \<Rightarrow> (None, m)
      | Some tx \<Rightarrow>
          (Some tx,
           m\<lparr>mp_transactions := bt_remove tx_hash (mp_transactions m),
             mp_queue := index_drop (mt_priority tx) tx_hash (mp_queue m),
             mp_by_sender := index_drop (blk_account (mt_block tx)) tx_hash (mp_by_sender m)\<rparr>))"

definition evict_lowest_priority :: "mempool \<Rightarrow> mempool" where
  "evict_lowest_priority m =
     (case mp_queue m of
        (_, hash # _) # _ \<Rightarrow> snd (remove_transaction hash m)
      | _ \<Rightarrow> m)"

definition count_rejected :: "mempool \<Rightarrow> mempool" where
  "count_rejected m = m\<lparr>mp_total_rejected := mp_total_rejected m + 1\<rparr>"

definition store_transaction :: "string \<Rightarrow> mempool_tx \<Rightarrow> mempool \<Rightarrow> mempool" where
  "store_transaction tx_hash tx m =
     m\<lparr>mp_transactions := bt_insert tx_hash tx (mp_transactions m),
       mp_queue := index_push (mt_priority tx) tx_hash (mp_queue m),
       mp_by_sender := index_push (blk_account (mt_block tx)) tx_hash (mp_by_sender m),
       mp_total_accepted := mp_total_accepted m + 1\<rparr>"

text \<open>The part after the size check.\<close>

definition admit_transaction ::
  "u64 \<Rightarrow> string \<Rightarrow> block \<Rightarrow> u64 \<Rightarrow> u64 \<Rightarrow> mempool \<Rightarrow> (string, mempool_error) result \<times> mempool" where
  "admit_transaction now tx_hash b fee priority m =
     (if blk_account b = [] then (Err EmptyAccount, count_rejected m)
      else if blk_signature b = [] then (Err MissingSignature, count_rejected m)
      else (Ok tx_hash,
            store_transaction tx_hash
              \<lparr>mt_block = b, mt_received_at = now, mt_priority = priority, mt_fee = fee\<rparr> m))"

definition add_transaction ::
  "los_env \<Rightarrow> u64 \<Rightarrow> block \<Rightarrow> u64 \<Rightarrow> u64 \<Rightarrow> mempool \<Rightarrow> (string, mempool_error) result \<times> mempool" where
  "add_transaction env now b fee priority m =
     (let m = m\<lparr>mp_total_received := mp_total_received m + 1\<rparr>;
          tx_hash = calculate_hash env b in
      if bt_contains (mp_transactions m) tx_hash then (Err AlreadyInMempool, count_rejected m)
      else if MAX_MEMPOOL_SIZE \<le> length (mp_transactions m) then
        case mp_queue m of
          [] \<Rightarrow> admit_transaction now tx_hash b fee priority m
        | (lowest_priority, _) # _ \<Rightarrow>
            if lowest_priority < priority
            then admit_transaction now tx_hash b fee priority (evict_lowest_priority m)
            else (Err PriorityTooLow, count_rejected m)
      else admit_transaction now tx_hash b fee priority m)"

definition get_transaction :: "string \<Rightarrow> mempool \<Rightarrow> mempool_tx option" where
  "get_transaction tx_hash m = bt_get (mp_transactions m) tx_hash"

text \<open>The nested loop pushes a hash and then compares the length, so it returns one hash for count 0.\<close>

fun next_loop :: "string list \<Rightarrow> nat \<Rightarrow> string list \<Rightarrow> string list" where
  "next_loop [] count acc = acc"
| "next_loop (h # hs) count acc =
     (let acc = acc @ [h] in if count \<le> length acc then acc else next_loop hs count acc)"

definition get_next_transactions :: "nat \<Rightarrow> mempool \<Rightarrow> string list" where
  "get_next_transactions count m = next_loop (concat (map snd (rev (mp_queue m)))) count []"

definition get_transactions_by_sender :: "string \<Rightarrow> mempool \<Rightarrow> string list" where
  "get_transactions_by_sender address m = (case bt_get (mp_by_sender m) address of Some hs \<Rightarrow> hs | None \<Rightarrow> [])"

definition tx_expired :: "u64 \<Rightarrow> mempool_tx \<Rightarrow> bool" where
  "tx_expired now tx = (saturating_sub now (mt_received_at tx) > TX_EXPIRATION_SECS)"

definition remove_expired :: "u64 \<Rightarrow> mempool \<Rightarrow> nat \<times> mempool" where
  "remove_expired now m =
     (let expired = map fst (filter (\<lambda>e. tx_expired now (snd e)) (mp_transactions m));
          m = fold (\<lambda>h m. snd (remove_transaction h m)) expired m
      in (length expired, m\<lparr>mp_total_expired := mp_total_expired m + of_nat (length expired)\<rparr>))"

record mempool_stats =
  ms_size :: nat
  ms_total_received :: u64
  ms_total_accepted :: u64
  ms_total_rejected :: u64
  ms_total_expired :: u64
  ms_unique_senders :: nat

definition mempool_stats_of :: "mempool \<Rightarrow> mempool_stats" where
  "mempool_stats_of m =
     \<lparr>ms_size = length (mp_transactions m), ms_total_received = mp_total_received m,
      ms_total_accepted = mp_total_accepted m, ms_total_rejected = mp_total_rejected m,
      ms_total_expired = mp_total_expired m, ms_unique_senders = length (mp_by_sender m)\<rparr>"

definition mempool_contains :: "string \<Rightarrow> mempool \<Rightarrow> bool" where
  "mempool_contains tx_hash m = bt_contains (mp_transactions m) tx_hash"

definition mempool_len :: "mempool \<Rightarrow> nat" where
  "mempool_len m = length (mp_transactions m)"

definition mempool_is_empty :: "mempool \<Rightarrow> bool" where
  "mempool_is_empty m = (mp_transactions m = [])"

definition mempool_clear :: "mempool \<Rightarrow> mempool" where
  "mempool_clear m = m\<lparr>mp_transactions := [], mp_queue := [], mp_by_sender := []\<rparr>"

section \<open>Indexes\<close>

text \<open>An index maps each key to the hashes of the stored values with that key, each once, and has no
  empty entries. It is a locale so that the priority queue and the sender index share the lemmas.\<close>

definition index_at :: "('k, 'a list) btree_map \<Rightarrow> 'k \<Rightarrow> 'a list" where
  "index_at idx k = (case bt_get idx k of Some xs \<Rightarrow> xs | None \<Rightarrow> [])"

definition index_ok :: "('k::linorder, 'a list) btree_map \<Rightarrow> bool" where
  "index_ok idx \<longleftrightarrow> bt_ok idx \<and> (\<forall>k. bt_get idx k \<noteq> Some []) \<and> (\<forall>k. distinct (index_at idx k))"

lemma index_at_push [simp]: "index_at (index_push k x m) k' = index_at m k' @ (if k' = k then [x] else [])"
  by (simp add: index_at_def index_push_def)

lemma index_at_drop [simp]:
  "index_at (index_drop k x m) k' = (if k' = k then filter (\<lambda>h. h \<noteq> x) (index_at m k') else index_at m k')"
  by (auto simp: index_at_def index_drop_def Let_def split: option.split)

lemma index_ok_push:
  assumes "index_ok m" "x \<notin> set (index_at m k)"
  shows "index_ok (index_push k x m)"
proof -
  have "distinct (index_at (index_push k x m) k')" for k'
    using assms unfolding index_ok_def by (cases "k' = k") auto
  moreover have "bt_ok (index_push k x m)" "bt_get (index_push k x m) k' \<noteq> Some []" for k'
    using assms by (simp_all add: index_ok_def index_push_def)
  ultimately show ?thesis unfolding index_ok_def by blast
qed

lemma index_ok_drop: "index_ok m \<Longrightarrow> index_ok (index_drop k x m)"
  by (simp add: index_ok_def) (auto simp: index_drop_def Let_def split: option.split)

locale hash_index =
  fixes key :: "'v \<Rightarrow> 'k::linorder"
begin

definition agrees :: "(string, 'v) btree_map \<Rightarrow> ('k, string list) btree_map \<Rightarrow> bool" where
  "agrees txs idx \<longleftrightarrow> index_ok idx \<and> (\<forall>k h. h \<in> set (index_at idx k) \<longleftrightarrow> (\<exists>v. bt_get txs h = Some v \<and> key v = k))"

lemma agrees_empty: "agrees [] []"
  by (simp add: agrees_def index_ok_def index_at_def)

lemma agrees_push:
  assumes "agrees txs idx" "bt_get txs h = None"
  shows "agrees (bt_insert h v txs) (index_push (key v) h idx)"
proof -
  have "h \<notin> set (index_at idx (key v))" using assms by (simp add: agrees_def)
  then have "index_ok (index_push (key v) h idx)" using assms by (intro index_ok_push) (simp_all add: agrees_def)
  then show ?thesis using assms by (auto simp: agrees_def)
qed

lemma agrees_drop:
  assumes "agrees txs idx" "bt_get txs h = Some v"
  shows "agrees (bt_remove h txs) (index_drop (key v) h idx)"
  using assms index_ok_drop by (auto simp: agrees_def)

end

interpretation queue_index: hash_index mt_priority .
interpretation sender_index: hash_index "\<lambda>tx. blk_account (mt_block tx)" .

definition mempool_inv :: "mempool \<Rightarrow> bool" where
  "mempool_inv m \<longleftrightarrow> bt_ok (mp_transactions m) \<and> length (mp_transactions m) \<le> MAX_MEMPOOL_SIZE \<and>
     queue_index.agrees (mp_transactions m) (mp_queue m) \<and>
     sender_index.agrees (mp_transactions m) (mp_by_sender m)"

lemma remove_transaction_inv:
  assumes "mempool_inv m" "remove_transaction h m = (r, m')"
  shows "mempool_inv m'" "r = bt_get (mp_transactions m) h"
    "bt_get (mp_transactions m') h' = (if h' = h then None else bt_get (mp_transactions m) h')"
    "r \<noteq> None \<Longrightarrow> Suc (length (mp_transactions m')) = length (mp_transactions m)"
proof -
  show "mempool_inv m'"
  proof (cases "bt_get (mp_transactions m) h")
    case None
    then show ?thesis using assms by (simp add: remove_transaction_def)
  next
    case (Some tx)
    have "length (bt_remove h (mp_transactions m)) \<le> length (mp_transactions m)" by (simp add: bt_remove_def)
    then show ?thesis
      using assms Some queue_index.agrees_drop [OF _ Some] sender_index.agrees_drop [OF _ Some]
      by (auto simp: remove_transaction_def mempool_inv_def)
  qed
  show "r = bt_get (mp_transactions m) h"
    "bt_get (mp_transactions m') h' = (if h' = h then None else bt_get (mp_transactions m) h')"
    using assms(2) by (auto simp: remove_transaction_def split: option.splits)
  show "Suc (length (mp_transactions m')) = length (mp_transactions m)" if "r \<noteq> None"
    using assms that length_bt_remove by (auto simp: remove_transaction_def mempool_inv_def split: option.splits)
qed

text \<open>A full pool has a lowest entry, so eviction makes room for one transaction.\<close>

lemma evict_makes_room:
  assumes "mempool_inv m" "mp_transactions m \<noteq> []"
  obtains h tx m' p hs q where "mp_queue m = (p, h # hs) # q" "evict_lowest_priority m = m'" "mempool_inv m'"
    "bt_get (mp_transactions m) h = Some tx" "mt_priority tx = p"
    "Suc (length (mp_transactions m')) = length (mp_transactions m)"
    "\<And>h'. bt_get (mp_transactions m') h' = (if h' = h then None else bt_get (mp_transactions m) h')"
proof -
  obtain h0 tx0 where "bt_get (mp_transactions m) h0 = Some tx0"
    using assms(2) by (cases "mp_transactions m") (simp, metis bt_get_Cons)
  then have "h0 \<in> set (index_at (mp_queue m) (mt_priority tx0))"
    using assms(1) by (simp add: mempool_inv_def queue_index.agrees_def)
  then have "mp_queue m \<noteq> []" by (auto simp: index_at_def)
  then obtain p hs0 q where q: "mp_queue m = (p, hs0) # q" by (metis list.exhaust surj_pair)
  moreover have "bt_get (mp_queue m) p \<noteq> Some []"
    using assms(1) by (simp add: mempool_inv_def queue_index.agrees_def index_ok_def)
  ultimately have "hs0 \<noteq> []" by auto
  then obtain h hs where hs: "hs0 = h # hs" by (cases hs0) auto
  then have "h \<in> set (index_at (mp_queue m) p)" by (simp add: q index_at_def)
  then obtain tx where tx: "bt_get (mp_transactions m) h = Some tx" "mt_priority tx = p"
    using assms(1) by (auto simp: mempool_inv_def queue_index.agrees_def)
  obtain r m' where r: "remove_transaction h m = (r, m')" by (cases "remove_transaction h m")
  have "evict_lowest_priority m = m'" by (simp add: evict_lowest_priority_def q hs r)
  then show thesis
    using that q hs tx remove_transaction_inv [OF assms(1) r] by auto
qed

lemma admit_inv:
  assumes "mempool_inv m" "length (mp_transactions m) < MAX_MEMPOOL_SIZE" "bt_get (mp_transactions m) h = None"
    "admit_transaction now h b fee p m = (r, m')"
  shows "mempool_inv m'"
proof -
  let ?tx = "\<lparr>mt_block = b, mt_received_at = now, mt_priority = p, mt_fee = fee\<rparr>"
  have "length (bt_insert h ?tx (mp_transactions m)) \<le> MAX_MEMPOOL_SIZE"
    using assms(2) length_bt_insert [of h ?tx "mp_transactions m"] by simp
  then show ?thesis
    using assms queue_index.agrees_push [OF _ assms(3), of _ ?tx] sender_index.agrees_push [OF _ assms(3), of _ ?tx]
    by (auto simp: admit_transaction_def mempool_inv_def count_rejected_def store_transaction_def split: if_splits)
qed

section \<open>Reachable pools\<close>

inductive mempool_step :: "mempool \<Rightarrow> mempool \<Rightarrow> bool" where
  step_add: "add_transaction env now b fee p m = (r, m') \<Longrightarrow> mempool_step m m'"
| step_remove: "remove_transaction h m = (r, m') \<Longrightarrow> mempool_step m m'"
| step_expire: "remove_expired now m = (n, m') \<Longrightarrow> mempool_step m m'"
| step_clear: "mempool_step m (mempool_clear m)"

lemma mempool_inv_count [simp]:
  "mempool_inv (m\<lparr>mp_total_received := n\<rparr>) = mempool_inv m"
  "mempool_inv (m\<lparr>mp_total_expired := n\<rparr>) = mempool_inv m"
  "mempool_inv (count_rejected m) = mempool_inv m"
  by (simp_all add: mempool_inv_def count_rejected_def)

lemma add_transaction_inv:
  assumes inv: "mempool_inv m" and add: "add_transaction env now b fee p m = (r, m')"
  shows "mempool_inv m'"
proof -
  let ?h = "calculate_hash env b" and ?m = "m\<lparr>mp_total_received := mp_total_received m + 1\<rparr>"
  have m: "mempool_inv ?m" using inv by simp
  consider (known) "bt_contains (mp_transactions m) ?h"
    | (room) "bt_get (mp_transactions m) ?h = None" "length (mp_transactions m) < MAX_MEMPOOL_SIZE"
    | (full) "bt_get (mp_transactions m) ?h = None" "MAX_MEMPOOL_SIZE \<le> length (mp_transactions m)"
    by (fastforce simp: bt_contains_def)
  then show ?thesis
  proof cases
    case known
    then show ?thesis using add m by (auto simp: add_transaction_def Let_def)
  next
    case room
    then show ?thesis using add admit_inv [OF m] by (simp add: add_transaction_def Let_def bt_contains_def)
  next
    case full
    then have "mp_transactions ?m \<noteq> []" by (auto simp: MAX_MEMPOOL_SIZE_def)
    from evict_makes_room [OF m this] obtain h0 tx0 m0 p0 hs0 q0 where ev:
      "mp_queue ?m = (p0, h0 # hs0) # q0" "evict_lowest_priority ?m = m0" "mempool_inv m0"
      "Suc (length (mp_transactions m0)) = length (mp_transactions ?m)"
      "\<And>h'. bt_get (mp_transactions m0) h' = (if h' = h0 then None else bt_get (mp_transactions ?m) h')" by metis
    have "length (mp_transactions m0) < MAX_MEMPOOL_SIZE" "bt_get (mp_transactions m0) ?h = None"
      using ev(4,5) full inv by (simp_all add: mempool_inv_def)
    then have admit: "mempool_inv m1" if "admit_transaction now ?h b fee p m0 = (r1, m1)" for r1 m1
      using admit_inv [OF ev(3) _ _ that] by blast
    have "add_transaction env now b fee p m =
        (if p0 < p then admit_transaction now ?h b fee p m0 else (Err PriorityTooLow, count_rejected ?m))"
      using full ev(1,2) by (simp add: add_transaction_def Let_def bt_contains_def)
    then show ?thesis using add m by (cases "p0 < p") (auto intro: admit [OF sym])
  qed
qed

lemma fold_remove_inv: "mempool_inv m \<Longrightarrow> mempool_inv (fold (\<lambda>h m. snd (remove_transaction h m)) hs m)"
  by (induction hs arbitrary: m) (auto intro: remove_transaction_inv(1) [OF _ prod.collapse [symmetric]])

lemma mempool_step_inv:
  assumes "mempool_inv m" "mempool_step m m'"
  shows "mempool_inv m'"
  using assms(2)
proof cases
  case step_clear
  then show ?thesis
    by (simp add: mempool_inv_def mempool_clear_def queue_index.agrees_empty sender_index.agrees_empty)
next
  case (step_expire now n)
  then show ?thesis using fold_remove_inv [OF assms(1)] by (auto simp: remove_expired_def Let_def)
qed (use assms(1) add_transaction_inv remove_transaction_inv(1) in blast)+

lemma mempool_inv_new: "mempool_inv mempool_new"
  by (simp add: mempool_inv_def mempool_new_def queue_index.agrees_empty sender_index.agrees_empty)

interpretation mempool: invariant_system mempool_step mempool_inv
  by unfold_locales (rule mempool_step_inv)

lemma next_loop_take:
  "length acc < max 1 count \<Longrightarrow> next_loop hs count acc = acc @ take (max 1 count - length acc) hs"
proof (induction hs arbitrary: acc)
  case (Cons h hs)
  show ?case
  proof (cases "count \<le> Suc (length acc)")
    case True
    then have "max 1 count - length acc = 1" using Cons.prems by (auto simp: max_def split: if_splits)
    then show ?thesis using True by simp
  next
    case False
    then have "max 1 count - length acc = Suc (max 1 count - Suc (length acc))" by auto
    then show ?thesis using False Cons.IH [of "acc @ [h]"] by simp
  qed
qed simp

text \<open>The hashes in the order the pool hands them out.\<close>

definition ordered_hashes :: "mempool \<Rightarrow> string list" where
  "ordered_hashes m = concat (map snd (rev (mp_queue m)))"

lemma get_next_take: "get_next_transactions count m = take (max 1 count) (ordered_hashes m)"
  by (simp add: get_next_transactions_def ordered_hashes_def next_loop_take)

definition tx_priority :: "mempool \<Rightarrow> string \<Rightarrow> u64" where
  "tx_priority m h = (case bt_get (mp_transactions m) h of Some tx \<Rightarrow> mt_priority tx | None \<Rightarrow> 0)"

lemma queue_sorted:
  fixes q :: "('k::linorder, string list) btree_map" and prio :: "string \<Rightarrow> 'k"
  assumes "bt_ok q" "\<forall>(p, hs) \<in> set q. distinct hs \<and> (\<forall>h \<in> set hs. prio h = p)"
  shows "distinct (concat (map snd (rev q))) \<and> sorted_wrt (\<lambda>h h'. prio h' \<le> prio h) (concat (map snd (rev q)))"
  using assms
proof (induction q)
  case (Cons e q)
  obtain p hs where e: "e = (p, hs)" by (cases e)
  have above: "p < prio h" if "h \<in> set (concat (map snd (rev q)))" for h
    using that Cons.prems by (fastforce simp: bt_ok_Cons e)
  moreover have here: "prio h = p" if "h \<in> set hs" for h using that Cons.prems by (auto simp: e)
  moreover have "sorted_wrt (\<lambda>h h'. prio h' \<le> prio h) hs" using here by (auto simp: sorted_wrt_iff_nth_less)
  moreover have "distinct hs" using Cons.prems by (auto simp: e)
  moreover have IH: "distinct (concat (map snd (rev q)))" "sorted_wrt (\<lambda>h h'. prio h' \<le> prio h) (concat (map snd (rev q)))"
    using Cons by (auto simp: bt_ok_Cons)
  ultimately show ?case
    by (auto simp: e sorted_wrt_append simp del: set_concat intro: less_imp_le)
qed simp

lemma ordered_hashes_facts:
  assumes "mempool_inv m"
  shows "distinct (ordered_hashes m)" "sorted_wrt (\<lambda>h h'. tx_priority m h' \<le> tx_priority m h) (ordered_hashes m)"
    "set (ordered_hashes m) = {h. mempool_contains h m}" "length (ordered_hashes m) = mempool_len m"
proof -
  have q: "index_ok (mp_queue m)" "bt_ok (mp_queue m)" "bt_ok (mp_transactions m)"
    "\<And>p h. h \<in> set (index_at (mp_queue m) p) \<longleftrightarrow> (\<exists>tx. bt_get (mp_transactions m) h = Some tx \<and> mt_priority tx = p)"
    using assms by (auto simp: mempool_inv_def queue_index.agrees_def index_ok_def)
  have at: "index_at (mp_queue m) p = hs" if "(p, hs) \<in> set (mp_queue m)" for p hs
    using that q(2) bt_entries_get [of "mp_queue m" p hs] by (simp add: index_at_def)
  have "\<forall>(p, hs) \<in> set (mp_queue m). distinct hs \<and> (\<forall>h \<in> set hs. tx_priority m h = p)"
    using at q by (fastforce simp: index_ok_def tx_priority_def)
  from queue_sorted [OF q(2) this]
  show d: "distinct (ordered_hashes m)" and "sorted_wrt (\<lambda>h h'. tx_priority m h' \<le> tx_priority m h) (ordered_hashes m)"
    by (simp_all add: ordered_hashes_def)
  have "set (ordered_hashes m) = (\<Union>p. set (index_at (mp_queue m) p))"
  proof (intro set_eqI iffI)
    fix h assume "h \<in> set (ordered_hashes m)"
    then show "h \<in> (\<Union>p. set (index_at (mp_queue m) p))" using at by (force simp: ordered_hashes_def)
  next
    fix h assume "h \<in> (\<Union>p. set (index_at (mp_queue m) p))"
    then obtain p where "h \<in> set (index_at (mp_queue m) p)" by blast
    then obtain hs where "bt_get (mp_queue m) p = Some hs" "h \<in> set hs"
      by (cases "bt_get (mp_queue m) p") (simp_all add: index_at_def)
    then have "(p, hs) \<in> set (mp_queue m)" "h \<in> set hs" using q(2) by (simp_all add: bt_entries_get)
    then show "h \<in> set (ordered_hashes m)" by (force simp: ordered_hashes_def)
  qed
  also have "\<dots> = {h. mempool_contains h m}" using q(4) by (auto simp: mempool_contains_def bt_contains_iff)
  finally show s: "set (ordered_hashes m) = {h. mempool_contains h m}" .
  also have "\<dots> = set (bt_keys (mp_transactions m))" by (auto simp: bt_keys_iff mempool_contains_def bt_contains_def)
  finally have "card (set (ordered_hashes m)) = card (set (bt_keys (mp_transactions m)))" by simp
  moreover have "distinct (bt_keys (mp_transactions m))" using bt.entries_distinct [OF q(3)] by (simp add: bt_keys_def)
  ultimately have "length (ordered_hashes m) = length (bt_keys (mp_transactions m))" using d by (metis distinct_card)
  then show "length (ordered_hashes m) = mempool_len m" by (simp add: bt_keys_def mempool_len_def)
qed

text \<open>A full pool evicts its lowest transaction before it validates the new block: a block without an
  account is refused and has pushed out a pending transaction all the same.\<close>

lemma refused_block_evicts:
  assumes "mempool_inv m" "length (mp_transactions m) = MAX_MEMPOOL_SIZE" "\<not> mempool_contains (calculate_hash env b) m"
    and "blk_account b = []" "mp_queue m = (p0, hs) # q" "p0 < p"
  shows "fst (add_transaction env now b fee p m) = Err EmptyAccount \<and>
    Suc (mempool_len (snd (add_transaction env now b fee p m))) = mempool_len m"
proof -
  let ?m = "m\<lparr>mp_total_received := mp_total_received m + 1\<rparr>"
  have "mempool_inv ?m" "mp_transactions ?m \<noteq> []" using assms(1,2) by (auto simp: MAX_MEMPOOL_SIZE_def)
  from evict_makes_room [OF this] obtain m0 where
    "evict_lowest_priority ?m = m0" "Suc (length (mp_transactions m0)) = length (mp_transactions ?m)" by metis
  then show ?thesis
    using assms by (simp add: add_transaction_def Let_def admit_transaction_def mempool_contains_def mempool_len_def
        count_rejected_def)
qed

text \<open>C17: in every state the pool reaches it holds at most 10,000 transactions, its sender index
  lists exactly the pending transactions of each sender once, and the next transactions it hands out
  are distinct pending ones, as many as asked for or there are (one when asked for none), ordered by
  priority, and no transaction left behind has a higher priority than one handed out.\<close>

theorem mempool_hands_out_highest_priority:
  assumes "mempool_step\<^sup>*\<^sup>* mempool_new m"
  shows "mempool_len m \<le> 10000 \<and>
    (\<forall>a. distinct (get_transactions_by_sender a m) \<and>
       set (get_transactions_by_sender a m) =
         {h. \<exists>tx. get_transaction h m = Some tx \<and> blk_account (mt_block tx) = a}) \<and>
    (let r = get_next_transactions count m in
       distinct r \<and> length r = min (max 1 count) (mempool_len m) \<and> (\<forall>h \<in> set r. mempool_contains h m) \<and>
       sorted_wrt (\<lambda>h h'. tx_priority m h' \<le> tx_priority m h) r \<and>
       (\<forall>h \<in> set r. \<forall>h'. mempool_contains h' m \<longrightarrow> h' \<notin> set r \<longrightarrow> tx_priority m h' \<le> tx_priority m h))"
proof -
  have inv: "mempool_inv m" using mempool.reach_inv [OF assms mempool_inv_new] .
  note o = ordered_hashes_facts [OF inv]
  let ?r = "take (max 1 count) (ordered_hashes m)" and ?rest = "drop (max 1 count) (ordered_hashes m)"
  have whole: "ordered_hashes m = ?r @ ?rest" by simp
  have "sorted_wrt (\<lambda>h h'. tx_priority m h' \<le> tx_priority m h) (?r @ ?rest)" using o(2) by simp
  then have best: "\<forall>h \<in> set ?r. \<forall>h' \<in> set ?rest. tx_priority m h' \<le> tx_priority m h"
    "sorted_wrt (\<lambda>h h'. tx_priority m h' \<le> tx_priority m h) ?r" unfolding sorted_wrt_append by blast+
  have split: "{h. mempool_contains h m} = set ?r \<union> set ?rest" using o(3) whole by (metis set_append)
  have "get_transactions_by_sender a m = index_at (mp_by_sender m) a" for a
    by (simp add: get_transactions_by_sender_def index_at_def)
  then have senders: "distinct (get_transactions_by_sender a m)"
    "set (get_transactions_by_sender a m) = {h. \<exists>tx. get_transaction h m = Some tx \<and> blk_account (mt_block tx) = a}" for a
    using inv by (auto simp: mempool_inv_def sender_index.agrees_def index_ok_def get_transaction_def)
  have "mempool_len m \<le> 10000" using inv by (simp add: mempool_inv_def mempool_len_def MAX_MEMPOOL_SIZE_def)
  then show ?thesis
    using best split senders o(1,4) by (auto simp: Let_def get_next_take min.commute simp del: One_nat_def)
qed

definition wm_env :: los_env where
  "wm_env = \<lparr>mainnet_feature = False, keccak256 = (\<lambda>bs. bs), sha256 = (\<lambda>bs. bs), blake2b512 = (\<lambda>bs. bs),
     bs58_encode = (\<lambda>bs. []), bs58_decode = (\<lambda>s. None), hex_encode = (\<lambda>bs. ''h''), hex_decode = (\<lambda>s. None),
     dilithium_pk_valid = (\<lambda>_. True), dilithium_sig_valid = (\<lambda>_. True), dilithium_verify = (\<lambda>_ _ _. True),
     ed25519_pk_valid = (\<lambda>_. True), ed25519_verify = (\<lambda>_ _ _. True)\<rparr>"

definition wm_block :: block where
  "wm_block = \<lparr>blk_account = ''LOSa'', blk_previous = ''0'', blk_type = Send, blk_amount = 5, blk_link = ''LOSb'',
     blk_signature = ''s'', blk_public_key = ''k'', blk_work = 0, blk_timestamp = 1, blk_fee = 1\<rparr>"

definition wm_pool :: mempool where
  "wm_pool = snd (add_transaction wm_env 100 wm_block 1 7 mempool_new)"

theorem mempool_hands_out_highest_priority_witness:
  "mempool_step\<^sup>*\<^sup>* mempool_new wm_pool \<and> mempool_len wm_pool = 1 \<and> length (get_next_transactions 3 wm_pool) = 1"
proof -
  have "mempool_step mempool_new wm_pool"
    using step_add [OF prod.collapse [symmetric]] by (simp add: wm_pool_def)
  then have reach: "mempool_step\<^sup>*\<^sup>* mempool_new wm_pool" by simp
  have "mempool_len wm_pool = 1"
    by (simp add: wm_pool_def add_transaction_def mempool_new_def wm_block_def wm_env_def bt_contains_def Let_def
        admit_transaction_def store_transaction_def mempool_len_def MAX_MEMPOOL_SIZE_def)
  then show ?thesis
    using reach mempool_hands_out_highest_priority [OF reach, of 3] by (simp add: Let_def)
qed

end
