(* ===== verification/Node_Send.thy ===== *)
theory Node_Send
  imports Node_Core Mempool Slashing AntiWhale Voting
begin

text \<open>
  Transfers through a node (\<open>los-node/src/main.rs\<close>): the handler of \<open>POST /send\<close>, the gossip handlers of
  \<open>CONFIRM_REQ\<close>, \<open>CONFIRM_RES\<close> and \<open>BLOCK_CONFIRMED\<close>, and the cleanup of pending sends. A gossip handler
  runs in the event loop of the node: \<open>None\<close> is a panic there, which ends the process. A panic in the API
  handler ends that request only. Messages on the standard output are left out, except that printing a
  short address may panic.
\<close>

section \<open>State\<close>

record node =
  nd_ledger :: ledger
  nd_pending_sends :: "(string, block \<times> u128) btree_map"
  nd_send_voters :: "(string, string list) btree_map"
  nd_mempool :: mempool
  nd_slashing :: slashing_manager
  nd_anti_whale :: anti_whale
  nd_send_limiter :: endpoint_limiter
  nd_outbox :: "string list"

definition SEND_CONSENSUS_THRESHOLD :: u128 where
  "SEND_CONSENSUS_THRESHOLD = 20000"

definition MIN_DISTINCT_VOTERS :: nat where
  "MIN_DISTINCT_VOTERS = 2"

definition TESTNET_FUNCTIONAL_THRESHOLD :: u128 where
  "TESTNET_FUNCTIONAL_THRESHOLD = 1"

definition PENDING_TTL_SECS :: u64 where
  "PENDING_TTL_SECS = 300"

fun colon_join :: "string list \<Rightarrow> string" where
  "colon_join [] = []"
| "colon_join [s] = s"
| "colon_join (s # t # ss) = s @ '':'' @ colon_join (t # ss)"

definition push_msg :: "string list \<Rightarrow> node \<Rightarrow> node" where
  "push_msg parts nd = nd\<lparr>nd_outbox := nd_outbox nd @ [colon_join parts]\<rparr>"

text \<open>Printing short addresses.\<close>

definition printable :: "string list \<Rightarrow> bool" where
  "printable addrs = list_all (\<lambda>a. get_short_addr a \<noteq> None) addrs"

section \<open>\<open>POST /send\<close>\<close>

record send_request =
  rq_from :: "string option"
  rq_target :: string
  rq_amount :: u128
  rq_amount_cil :: "u128 option"
  rq_signature :: "string option"
  rq_public_key :: "string option"
  rq_previous :: "string option"
  rq_work :: "u64 option"
  rq_timestamp :: "u64 option"
  rq_fee :: "u128 option"

record send_response =
  rs_tx_hash :: string
  rs_initial_power :: u128
  rs_fee_paid_cil :: u128
  rs_fee_multiplier_bps :: u128

datatype send_error =
    RateLimitExceeded u64
  | InvalidSender
  | InvalidTarget
  | ZeroAmount
  | SelfSend
  | AddressNotFound
  | AmountTooLarge
  | PublicKeyRequired
  | AntiWhaleFailed anti_whale_error
  | InsufficientBalance u128 u128 u128
  | SenderNotFound
  | ClientFeeTooLow u128 u128
  | ClientSignatureInvalid
  | MainnetNeedsSignature
  | ExternalNeedsSignature
  | SigningFailed
  | ChainSequenceError string string
  | InsufficientForDebit

type_synonym send_outcome = "(send_response, send_error) result \<times> node"

definition option_or :: "'a option \<Rightarrow> 'a \<Rightarrow> 'a" where
  "option_or x d = (case x of Some v \<Rightarrow> v | None \<Rightarrow> d)"

text \<open>The lookup prints the short form of every account until it finds one that matches.\<close>

fun find_account :: "string \<Rightarrow> string list \<Rightarrow> string option option" where
  "find_account target [] = Some None"
| "find_account target (k # ks) =
     (case get_short_addr k of
        None \<Rightarrow> None
      | Some s \<Rightarrow> if s = target \<or> k = target then Some (Some k) else find_account target ks)"

definition send_target :: "los_env \<Rightarrow> string \<Rightarrow> ledger \<Rightarrow> string option option" where
  "send_target env target L =
     (case find_account target (bt_keys (accounts L)) of
        None \<Rightarrow> None
      | Some (Some k) \<Rightarrow> Some (Some k)
      | Some None \<Rightarrow> Some (if validate_address env target then Some target else None))"

definition draft_send :: "clock \<Rightarrow> send_request \<Rightarrow> string \<Rightarrow> string \<Rightarrow> u128 \<Rightarrow> string \<Rightarrow> block" where
  "draft_send ck rq sender target amt pubkey =
     \<lparr>blk_account = sender, blk_previous = option_or (rq_previous rq) ''0'', blk_type = Send,
      blk_amount = amt, blk_link = target, blk_signature = [], blk_public_key = pubkey,
      blk_work = option_or (rq_work rq) 0,
      blk_timestamp = (if rq_signature rq \<noteq> None then option_or (rq_timestamp rq) (ck_secs ck) else ck_secs ck),
      blk_fee = (if rq_signature rq \<noteq> None then option_or (rq_fee rq) 0 else 0)\<rparr>"

definition fee_multiplier_bps :: "u128 \<Rightarrow> u128" where
  "fee_multiplier_bps fee = (if BASE_FEE_CIL > 0 then fee * 10000 div BASE_FEE_CIL else 10000)"

definition pending_total :: "string \<Rightarrow> node \<Rightarrow> u128" where
  "pending_total sender nd =
     sum_list (map (blk_amount \<circ> fst) (filter (\<lambda>e. blk_account (fst e) = sender) (bt_values (nd_pending_sends nd))))"

text \<open>The Receive the node makes for the recipient; \<open>None\<close> if signing fails.\<close>

definition auto_receive :: "node_env \<Rightarrow> clock \<Rightarrow> string \<Rightarrow> string \<Rightarrow> u128 \<Rightarrow> ledger \<Rightarrow> block option" where
  "auto_receive ne ck target send_hash amount L =
     (let recv = auto_receive_block ne ck target send_hash amount L
      in map_option (\<lambda>sig. recv\<lparr>blk_signature := sig\<rparr>)
           (try_sign_hex ne (as_bytes (signing_hash (ne_env ne) recv))))"

definition send_now :: "node_env \<Rightarrow> clock \<Rightarrow> block \<Rightarrow> u128 \<Rightarrow> node \<Rightarrow> send_outcome" where
  "send_now ne ck blk initial_power nd =
     (let env = ne_env ne; L = nd_ledger nd; hash = calculate_hash env blk;
          sender = blk_account blk; target = blk_link blk in
      case bt_get (accounts L) sender of
        None \<Rightarrow> (Err SenderNotFound, nd)
      | Some st \<Rightarrow>
          if acc_head st \<noteq> blk_previous blk then (Err (ChainSequenceError (acc_head st) (blk_previous blk)), nd)
          else if acc_balance st < saturating_add (blk_amount blk) (blk_fee blk) then (Err InsufficientForDebit, nd)
          else
            let L1 = direct_debit blk hash L in
            if \<not> printable [sender, target] then (Panic, nd\<lparr>nd_ledger := L1\<rparr>)
            else
              let L2 = ensure_account target (auto_unregister sender L1) in
              (case auto_receive ne ck target hash (blk_amount blk) L2 of
                 None \<Rightarrow> (Err SigningFailed, nd\<lparr>nd_ledger := L2\<rparr>)
               | Some recv \<Rightarrow>
                   let L3 = direct_credit recv (calculate_hash env recv) L2 in
                   (Ok \<lparr>rs_tx_hash = hash, rs_initial_power = initial_power, rs_fee_paid_cil = blk_fee blk,
                        rs_fee_multiplier_bps = fee_multiplier_bps (blk_fee blk)\<rparr>,
                    push_msg [''BLOCK_CONFIRMED'', ne_block_to_b64 ne blk, ne_block_to_b64 ne recv]
                      (nd\<lparr>nd_ledger := L3\<rparr>))))"

definition send_queue :: "node_env \<Rightarrow> clock \<Rightarrow> block \<Rightarrow> u128 \<Rightarrow> u128 \<Rightarrow> node \<Rightarrow> send_outcome" where
  "send_queue ne ck blk initial_power final_fee nd =
     (let env = ne_env ne; hash = calculate_hash env blk;
          nd1 = nd\<lparr>nd_pending_sends := bt_insert hash (blk, 0) (nd_pending_sends nd),
                  nd_mempool := snd (add_transaction env (ck_secs ck) blk (ucast (blk_fee blk)) (ucast initial_power)
                                  (nd_mempool nd))\<rparr>
      in (Ok \<lparr>rs_tx_hash = hash, rs_initial_power = initial_power, rs_fee_paid_cil = final_fee,
              rs_fee_multiplier_bps = fee_multiplier_bps final_fee\<rparr>,
          push_msg [''CONFIRM_REQ'', hash, blk_account blk, uint_to_string (blk_amount blk),
                    uint_to_string (ck_millis ck), ne_block_to_b64 ne blk] nd1))"

text \<open>The signature of the client, or the node's own where the operating mode allows it.\<close>

definition sign_send :: "node_env \<Rightarrow> send_request \<Rightarrow> block \<Rightarrow> (block, send_error) result" where
  "sign_send ne rq blk =
     (case rq_signature rq of
        Some sig \<Rightarrow>
          let blk = blk\<lparr>blk_signature := sig\<rparr>
          in if verify_signature (ne_env ne) blk then Ok blk else Err ClientSignatureInvalid
      | None \<Rightarrow>
          if is_mainnet_build (ne_env ne) then Err MainnetNeedsSignature
          else if blk_account blk \<noteq> ne_address ne \<and> should_validate_signatures (ne_config ne)
          then Err ExternalNeedsSignature
          else case try_sign_hex ne (as_bytes (signing_hash (ne_env ne) blk)) of
                 None \<Rightarrow> Err SigningFailed
               | Some sig \<Rightarrow> Ok (blk\<lparr>blk_signature := sig\<rparr>))"

definition send_block :: "node_env \<Rightarrow> clock \<Rightarrow> send_request \<Rightarrow> block \<Rightarrow> u128 \<Rightarrow> u128 \<Rightarrow> node \<Rightarrow> send_outcome" where
  "send_block ne ck rq blk initial_power final_fee nd =
     (let client_signed = (rq_signature rq \<noteq> None) in
      if client_signed \<and> blk_fee blk < final_fee then (Err (ClientFeeTooLow (blk_fee blk) final_fee), nd)
      else
        let blk = (if client_signed then blk else blk\<lparr>blk_fee := final_fee\<rparr>);
            blk = (if rq_work rq = None then solve_pow (ne_env ne) blk else blk) in
        case sign_send ne rq blk of
          Panic \<Rightarrow> (Panic, nd)
        | Err e \<Rightarrow> (Err e, nd)
        | Ok blk \<Rightarrow>
            if \<not> should_enable_consensus (ne_config ne) \<or> client_signed
            then send_now ne ck blk initial_power nd
            else send_queue ne ck blk initial_power final_fee nd)"

text \<open>Balance and fee: the sum of the check wraps around.\<close>

definition send_from :: "node_env \<Rightarrow> clock \<Rightarrow> send_request \<Rightarrow> block \<Rightarrow> node \<Rightarrow> send_outcome" where
  "send_from ne ck rq blk nd =
     (case bt_get (accounts (nd_ledger nd)) (blk_account blk) of
        None \<Rightarrow> (Err SenderNotFound, nd)
      | Some st \<Rightarrow>
          let blk = (if rq_previous rq = None then blk\<lparr>blk_previous := acc_head st\<rparr> else blk);
              (fee, aw) = aw_register_transaction (ck_secs ck) (blk_account blk) (ucast BASE_FEE_CIL) (nd_anti_whale nd);
              nd = nd\<lparr>nd_anti_whale := aw\<rparr> in
          (case fee of
             Panic \<Rightarrow> (Panic, nd)
           | Err e \<Rightarrow> (Err (AntiWhaleFailed e), nd)
           | Ok fee \<Rightarrow>
               let final_fee = ucast fee; pending = pending_total (blk_account blk) nd in
               if final_fee > BASE_FEE_CIL \<and> \<not> printable [blk_account blk] then (Panic, nd)
               else if acc_balance st < blk_amount blk + final_fee + pending
               then (Err (InsufficientBalance (blk_amount blk) final_fee pending), nd)
               else send_block ne ck rq blk (acc_balance st div CIL_PER_LOS) final_fee nd))"

definition send_to :: "node_env \<Rightarrow> clock \<Rightarrow> send_request \<Rightarrow> string \<Rightarrow> string \<Rightarrow> node \<Rightarrow> send_outcome" where
  "send_to ne ck rq sender target nd =
     (case (case rq_amount_cil rq of Some c \<Rightarrow> Some c | None \<Rightarrow> checked_mul (rq_amount rq) CIL_PER_LOS) of
        None \<Rightarrow> (Err AmountTooLarge, nd)
      | Some amt \<Rightarrow>
          (case (if rq_signature rq \<noteq> None then rq_public_key rq
                 else Some (hex_encode (ne_env ne) (ne_public_key ne))) of
             None \<Rightarrow> (Err PublicKeyRequired, nd)
           | Some pubkey \<Rightarrow> send_from ne ck rq (draft_send ck rq sender target amt pubkey) nd))"

definition handle_send :: "node_env \<Rightarrow> clock \<Rightarrow> send_request \<Rightarrow> node \<Rightarrow> send_outcome" where
  "handle_send ne ck rq nd =
     (let env = ne_env ne; sender = option_or (rq_from rq) (ne_address ne);
          (allowed, el) = check_and_record (ck_instant ck) sender (nd_send_limiter nd);
          nd = nd\<lparr>nd_send_limiter := el\<rparr> in
      case allowed of
        Panic \<Rightarrow> (Panic, nd)
      | Err wait \<Rightarrow> (Err (RateLimitExceeded wait), nd)
      | Ok _ \<Rightarrow>
          if \<not> validate_address env sender then (Err InvalidSender, nd)
          else if \<not> validate_address env (rq_target rq) then (Err InvalidTarget, nd)
          else if option_or (rq_amount_cil rq) (rq_amount rq * CIL_PER_LOS) = 0 then (Err ZeroAmount, nd)
          else if rq_target rq = sender then (Err SelfSend, nd)
          else case send_target env (rq_target rq) (nd_ledger nd) of
                 None \<Rightarrow> (Panic, nd)
               | Some None \<Rightarrow> (Err AddressNotFound, nd)
               | Some (Some target) \<Rightarrow> send_to ne ck rq sender target nd)"

section \<open>Gossip: requests and votes\<close>

text \<open>\<open>CONFIRM_REQ:hash:sender:amount:time[:block]\<close>, answered in a task of its own by a signed vote.\<close>

definition request_valid :: "los_env \<Rightarrow> ledger \<Rightarrow> string \<Rightarrow> string \<Rightarrow> u128 \<Rightarrow> block option \<Rightarrow> bool" where
  "request_valid env L tx_hash sender_addr amount block_from_msg =
     ((case bt_get (blocks L) tx_hash of
         Some b \<Rightarrow> blk_type b = Send \<and> blk_account b = sender_addr \<and> blk_amount b = amount
       | None \<Rightarrow> False)
      \<or> (case block_from_msg of
           Some b \<Rightarrow>
             calculate_hash env b = tx_hash \<and> blk_type b = Send \<and> blk_account b = sender_addr
             \<and> blk_amount b = amount \<and> verify_signature env b \<and> verify_pow env b
             \<and> public_key_to_address env (hex_decode_or_empty env (blk_public_key b)) = sender_addr
         | None \<Rightarrow> False))"

definition vote_payload :: "string \<Rightarrow> string \<Rightarrow> string \<Rightarrow> string \<Rightarrow> string" where
  "vote_payload tx_hash sender voter ts = colon_join [tx_hash, sender, ''YES'', voter, ts]"

definition handle_confirm_req :: "node_env \<Rightarrow> clock \<Rightarrow> string \<Rightarrow> node \<Rightarrow> node" where
  "handle_confirm_req ne ck data nd =
     (let env = ne_env ne; parts = str_split (CHR '':'') data in
      if length parts < 5 then nd
      else
        let tx_hash = parts ! 1; sender_addr = parts ! 2;
            amount = option_or (parse_uint (parts ! 3)) 0;
            block_from_msg = (if 6 \<le> length parts then ne_block_of_b64 ne (parts ! 5) else None);
            sender_balance = (case bt_get (accounts (nd_ledger nd)) sender_addr of Some a \<Rightarrow> acc_balance a | None \<Rightarrow> 0)
        in if \<not> request_valid env (nd_ledger nd) tx_hash sender_addr amount block_from_msg then nd
           else if sender_balance < amount then nd
           else
             let ts = uint_to_string (ck_millis ck) in
             (case ne_sign ne (as_bytes (vote_payload tx_hash sender_addr (ne_address ne) ts)) of
                None \<Rightarrow> nd
              | Some sig \<Rightarrow>
                  push_msg [''CONFIRM_RES'', tx_hash, sender_addr, ''YES'', ne_address ne, ts,
                            hex_encode env sig, hex_encode env (ne_public_key ne)] nd))"

definition min_voters :: "node_env \<Rightarrow> nat" where
  "min_voters ne = (if \<not> should_enable_consensus (ne_config ne) then 1 else MIN_DISTINCT_VOTERS)"

definition send_threshold :: "node_env \<Rightarrow> u128" where
  "send_threshold ne =
     (if \<not> should_enable_consensus (ne_config ne) then TESTNET_FUNCTIONAL_THRESHOLD else SEND_CONSENSUS_THRESHOLD)"

definition record_finalization :: "clock \<Rightarrow> string \<Rightarrow> ledger \<Rightarrow> slashing_manager \<Rightarrow> slashing_manager" where
  "record_finalization ck account L sm =
     (case bt_get (accounts L) account of
        Some acc \<Rightarrow>
          if acc_balance acc \<ge> MIN_VALIDATOR_STAKE_CIL
          then snd (record_block_participation account (of_nat (length (blocks L))) (ck_secs ck)
                      (sm_register_validator account sm))
          else sm
      | None \<Rightarrow> sm)"

text \<open>Every result \<open>Ok\<close> of \<open>process_block\<close> is followed by the credit, a duplicate too.\<close>

definition credit_recipient :: "node_env \<Rightarrow> clock \<Rightarrow> block \<Rightarrow> node \<Rightarrow> node option" where
  "credit_recipient ne ck blk nd =
     (let env = ne_env ne; target = blk_link blk; send_hash = calculate_hash env blk;
          L = ensure_account target (nd_ledger nd) in
      case auto_receive ne ck target send_hash (blk_amount blk) L of
        None \<Rightarrow> Some (nd\<lparr>nd_ledger := L\<rparr>)
      | Some recv \<Rightarrow>
          if blk_signature recv = [] then Some (nd\<lparr>nd_ledger := L\<rparr>)
          else if \<not> printable [target] then None
          else Some (push_msg [''BLOCK_CONFIRMED'', ne_block_to_b64 ne blk, ne_block_to_b64 ne recv]
                       (nd\<lparr>nd_ledger := direct_credit recv (calculate_hash env recv) L\<rparr>)))"

definition unregister_sender :: "block \<Rightarrow> node \<Rightarrow> node option" where
  "unregister_sender blk nd =
     (let L = nd_ledger nd; st = account_or_default L (blk_account blk) in
      if acc_is_validator st \<and> acc_balance st < MIN_VALIDATOR_STAKE_CIL \<and> \<not> printable [blk_account blk] then None
      else Some (nd\<lparr>nd_ledger := auto_unregister (blk_account blk) L\<rparr>))"

definition apply_pending :: "node_env \<Rightarrow> clock \<Rightarrow> block \<Rightarrow> node \<Rightarrow> node option" where
  "apply_pending ne ck blk nd =
     (case process_block (ne_env ne) (ck_secs ck) blk (nd_ledger nd) of
        (Panic, L) \<Rightarrow> None
      | (Err e, L) \<Rightarrow> Some (nd\<lparr>nd_ledger := L\<rparr>)
      | (Ok _, L) \<Rightarrow>
          let nd = nd\<lparr>nd_ledger := L, nd_slashing := record_finalization ck (blk_account blk) L (nd_slashing nd)\<rparr> in
          if blk_type blk = Send
          then (case unregister_sender blk nd of None \<Rightarrow> None | Some nd \<Rightarrow> credit_recipient ne ck blk nd)
          else Some nd)"

definition finalize_send :: "node_env \<Rightarrow> clock \<Rightarrow> string \<Rightarrow> block \<Rightarrow> node \<Rightarrow> node option" where
  "finalize_send ne ck tx_hash blk nd =
     map_option (\<lambda>nd. nd\<lparr>nd_pending_sends := bt_remove tx_hash (nd_pending_sends nd),
                        nd_send_voters := bt_remove tx_hash (nd_send_voters nd),
                        nd_mempool := snd (remove_transaction tx_hash (nd_mempool nd))\<rparr>)
       (apply_pending ne ck blk nd)"

definition count_vote :: "node_env \<Rightarrow> clock \<Rightarrow> string \<Rightarrow> string \<Rightarrow> node \<Rightarrow> node option" where
  "count_vote ne ck tx_hash voter nd =
     (let voter_balance = (case bt_get (accounts (nd_ledger nd)) voter of Some a \<Rightarrow> acc_balance a | None \<Rightarrow> 0);
          power = calculate_voting_power voter_balance;
          voters = option_or (bt_get (nd_send_voters nd) tx_hash) [] in
      if \<not> printable [voter] then None
      else if voter \<in> set voters then Some nd
      else
        let voters = voters @ [voter];
            nd = nd\<lparr>nd_send_voters := bt_insert tx_hash voters (nd_send_voters nd)\<rparr> in
        (case bt_get (nd_pending_sends nd) tx_hash of
           None \<Rightarrow> Some nd
         | Some (blk, votes) \<Rightarrow>
             let votes = (if power > 0 then votes + power * 1000 else votes);
                 nd = nd\<lparr>nd_pending_sends := bt_insert tx_hash (blk, votes) (nd_pending_sends nd)\<rparr> in
             if votes \<ge> send_threshold ne \<and> length voters \<ge> min_voters ne
             then finalize_send ne ck tx_hash blk nd else Some nd))"

definition vote_authentic :: "los_env \<Rightarrow> string list \<Rightarrow> bool" where
  "vote_authentic env parts =
     (let pk = hex_decode_or_empty env (parts ! 7)
      in crypto_verify_signature env (as_bytes (vote_payload (parts ! 1) (parts ! 2) (parts ! 4) (parts ! 5)))
           (hex_decode_or_empty env (parts ! 6)) pk
         \<and> public_key_to_address env pk = parts ! 4)"

text \<open>\<open>CONFIRM_RES:hash:sender:YES:voter:time:signature:key\<close>. Both refusals print the voter's address.\<close>

definition handle_confirm_res :: "node_env \<Rightarrow> clock \<Rightarrow> string \<Rightarrow> node \<Rightarrow> node option" where
  "handle_confirm_res ne ck data nd =
     (let parts = str_split (CHR '':'') data in
      if length parts \<noteq> 8 then Some nd
      else if \<not> vote_authentic (ne_env ne) parts then (if printable [parts ! 4] then Some nd else None)
      else if \<not> bt_contains (nd_pending_sends nd) (parts ! 1) then Some nd
      else count_vote ne ck (parts ! 1) (parts ! 4) nd)"

section \<open>Gossip: confirmed blocks\<close>

definition confirmed_valid :: "los_env \<Rightarrow> block \<Rightarrow> block \<Rightarrow> bool" where
  "confirmed_valid env send recv =
     (blk_type send = Send \<and> verify_signature env send \<and> verify_pow env send
      \<and> blk_type recv = Receive \<and> verify_pow env recv \<and> blk_amount recv = blk_amount send
      \<and> blk_link recv = calculate_hash env send \<and> blk_account recv = blk_link send)"

text \<open>The refusal of a fork prints the account, its head and the predecessor named by the block.\<close>

definition refusal_prints :: "block \<Rightarrow> ledger \<Rightarrow> string list" where
  "refusal_prints b L =
     (let st = account_or_default L (blk_account b)
      in if acc_head st \<noteq> blk_previous b then [blk_account b, acc_head st, blk_previous b] else [blk_account b])"

definition apply_confirmed :: "los_env \<Rightarrow> block \<Rightarrow> block \<Rightarrow> ledger \<Rightarrow> ledger option" where
  "apply_confirmed env send recv L =
     (let send_hash = calculate_hash env send; recv_hash = calculate_hash env recv;
          L = ensure_account (blk_account send) L in
      if debit_refused send L then (if printable (refusal_prints send L) then Some L else None)
      else if \<not> printable [blk_account send, blk_account recv] then None
      else Some (direct_credit recv recv_hash (ensure_account (blk_account recv) (direct_debit send send_hash L))))"

definition handle_block_confirmed :: "node_env \<Rightarrow> string \<Rightarrow> node \<Rightarrow> node option" where
  "handle_block_confirmed ne data nd =
     (let env = ne_env ne; parts = str_splitn 3 (CHR '':'') data in
      if length parts \<noteq> 3 then Some nd
      else case (ne_block_of_b64 ne (parts ! 1), ne_block_of_b64 ne (parts ! 2)) of
             (Some send, Some recv) \<Rightarrow>
               if \<not> confirmed_valid env send recv then Some nd
               else if bt_contains (blocks (nd_ledger nd)) (calculate_hash env send) then Some nd
               else map_option (\<lambda>L. nd\<lparr>nd_ledger := L\<rparr>) (apply_confirmed env send recv (nd_ledger nd))
           | _ \<Rightarrow> Some nd)"

section \<open>Cleanup\<close>

definition cleanup_pending :: "clock \<Rightarrow> node \<Rightarrow> node" where
  "cleanup_pending ck nd =
     nd\<lparr>nd_pending_sends :=
          filter (\<lambda>e. saturating_sub (ck_secs ck) (blk_timestamp (fst (snd e))) < PENDING_TTL_SECS) (nd_pending_sends nd)\<rparr>"

end
