(* ===== verification/Node_Send_Safety.thy ===== *)
theory Node_Send_Safety
  imports Node_Send
begin

text \<open>
  What transfers through a node guarantee and what they do not: confirmed blocks conserve value, a
  pending send is only finalised by distinct authentic votes; but the two paths that change the ledger
  directly do not ask for the owner's key, a duplicate confirmation credits twice, and a malformed
  address in a message ends the node.
\<close>

section \<open>Confirmed blocks conserve value\<close>

lemma direct_debit_sel [simp]:
  "blocks (direct_debit b h L) = bt_insert h b (blocks L)"
  "claimed_sends (direct_debit b h L) = claimed_sends L"
  "distribution (direct_debit b h L) = distribution L"
  by (simp_all add: direct_debit_def)

lemma direct_credit_sel [simp]:
  "blocks (direct_credit r h L) = bt_insert h r (blocks L)"
  "claimed_sends (direct_credit r h L) = insert (blk_link r) (claimed_sends L)"
  "distribution (direct_credit r h L) = distribution L"
  "accumulated_fees_cil (direct_credit r h L) = accumulated_fees_cil L"
  by (simp_all add: direct_credit_def)

lemma unclaimed_fresh: "ledger_inv L \<Longrightarrow> bt_get (blocks L) h = None \<Longrightarrow> h \<notin> claimed_sends L"
  by (force simp: ledger_inv_def claims_ok_def)

text \<open>A Send that is debited directly, and the Receive for it.\<close>

lemma transfer_safe:
  assumes "ledger_inv L" "ledger_value L < 2 ^ 128 - 1"
    and "blk_type s = Send" "\<not> debit_refused s (ensure_account (blk_account s) L)" "bt_get (blocks L) hs = None"
    and "ledger_inv (direct_debit s hs (ensure_account (blk_account s) L)) \<Longrightarrow> ledger_inv L1"
      "ledger_value L1 = ledger_value (direct_debit s hs (ensure_account (blk_account s) L))"
      "blocks L1 = bt_insert hs s (blocks L)" "claimed_sends L1 = claimed_sends L"
    and "blk_type r = Receive" "blk_link r = hs" "blk_account r = blk_link s" "blk_amount r = blk_amount s"
    and "hr \<noteq> hs" "bt_get (blocks L) hr = None"
  shows "ledger_inv (direct_credit r hr (ensure_account (blk_account r) L1))"
    and "ledger_value (direct_credit r hr (ensure_account (blk_account r) L1)) = ledger_value L"
proof -
  have d: "ledger_inv L1" "ledger_value L1 = ledger_value L"
    using direct_debit_safe [OF assms(1,2) _ assms(4,5)] assms(3,6,7) by (simp_all add: value_removed_def)
  have c: "bt_get (blocks L1) hr = None" "bt_get (blocks L1) (blk_link r) = Some s" "blk_link r \<notin> claimed_sends L1"
    using assms(8,9,11,14,15) unclaimed_fresh [OF assms(1,5)] by simp_all
  show "ledger_inv (direct_credit r hr (ensure_account (blk_account r) L1))"
    "ledger_value (direct_credit r hr (ensure_account (blk_account r) L1)) = ledger_value L"
    using direct_credit_safe [OF d(1) assms(10) c(1,2) assms(3) _ _ c(3)] assms(12,13) d(2) by simp_all
qed

lemma apply_confirmed_cases:
  assumes "apply_confirmed env send recv L = Some L'"
  shows "(debit_refused send (ensure_account (blk_account send) L) \<and> L' = ensure_account (blk_account send) L)
    \<or> (\<not> debit_refused send (ensure_account (blk_account send) L)
       \<and> L' = direct_credit recv (calculate_hash env recv) (ensure_account (blk_account recv)
                (direct_debit send (calculate_hash env send) (ensure_account (blk_account send) L))))"
  using assms by (auto simp: apply_confirmed_def Let_def split: if_splits)

lemma apply_confirmed_safe:
  assumes "ledger_inv L" "ledger_value L < 2 ^ 128 - 1" "confirmed_valid env send recv"
    and "bt_get (blocks L) (calculate_hash env send) = None"
    and "calculate_hash env recv \<noteq> calculate_hash env send" "bt_get (blocks L) (calculate_hash env recv) = None"
    and "apply_confirmed env send recv L = Some L'"
  shows "ledger_inv L' \<and> ledger_value L' = ledger_value L"
  using apply_confirmed_cases [OF assms(7)]
proof
  assume "\<not> debit_refused send (ensure_account (blk_account send) L)
       \<and> L' = direct_credit recv (calculate_hash env recv) (ensure_account (blk_account recv)
                (direct_debit send (calculate_hash env send) (ensure_account (blk_account send) L)))"
  then show ?thesis
    using transfer_safe [OF assms(1,2) _ _ assms(4), of send "direct_debit send (calculate_hash env send) (ensure_account (blk_account send) L)"
        recv "calculate_hash env recv"] assms(3,5,6)
    by (auto simp: confirmed_valid_def)
qed (use ensure_account_safe [OF assms(1)] in simp)

lemma get_modify_other: "a \<noteq> k \<Longrightarrow> bt_get (bt_modify k f m) a = bt_get m a"
  by simp

lemma get_ensure_other: "a \<noteq> k \<Longrightarrow> bt_get (accounts (ensure_account k L)) a = bt_get (accounts L) a"
  by (simp add: ensure_account_def)

lemma direct_other_accounts:
  "a \<noteq> blk_account b \<Longrightarrow> bt_get (accounts (direct_debit b h L)) a = bt_get (accounts L) a"
  "a \<noteq> blk_account b \<Longrightarrow> bt_get (accounts (direct_credit b h L)) a = bt_get (accounts L) a"
  by (simp_all add: direct_debit_def direct_credit_def)

lemma handle_block_confirmed_cases:
  assumes "handle_block_confirmed ne data nd = Some nd'"
    and "str_splitn 3 (CHR '':'') data = [tag, x, y]" "ne_block_of_b64 ne x = Some send" "ne_block_of_b64 ne y = Some recv"
  shows "nd' = nd \<or> (confirmed_valid (ne_env ne) send recv
    \<and> bt_get (blocks (nd_ledger nd)) (calculate_hash (ne_env ne) send) = None
    \<and> (\<exists>L'. apply_confirmed (ne_env ne) send recv (nd_ledger nd) = Some L' \<and> nd' = nd\<lparr>nd_ledger := L'\<rparr>))"
  using assms by (auto simp: handle_block_confirmed_def Let_def bt_contains_def split: if_splits)

text \<open>C20: A confirmed pair of blocks received from a peer conserves value. Whatever the message
  is, the invariant of the ledger is kept, its value stays the same, and only the accounts named by the two
  blocks change, provided the Receive has a hash of its own.\<close>

theorem block_confirmed_conserves_value:
  assumes "ledger_inv (nd_ledger nd)" "ledger_value (nd_ledger nd) < 2 ^ 128 - 1"
    and "str_splitn 3 (CHR '':'') data = [tag, x, y]" "ne_block_of_b64 ne x = Some send" "ne_block_of_b64 ne y = Some recv"
    and "calculate_hash (ne_env ne) recv \<noteq> calculate_hash (ne_env ne) send"
      "bt_get (blocks (nd_ledger nd)) (calculate_hash (ne_env ne) recv) = None"
    and "handle_block_confirmed ne data nd = Some nd'"
  shows "ledger_inv (nd_ledger nd') \<and> ledger_value (nd_ledger nd') = ledger_value (nd_ledger nd)
    \<and> (\<forall>a. a \<noteq> blk_account send \<longrightarrow> a \<noteq> blk_account recv \<longrightarrow>
           bt_get (accounts (nd_ledger nd')) a = bt_get (accounts (nd_ledger nd)) a)"
  using handle_block_confirmed_cases [OF assms(8,3-5)]
proof
  assume "confirmed_valid (ne_env ne) send recv
    \<and> bt_get (blocks (nd_ledger nd)) (calculate_hash (ne_env ne) send) = None
    \<and> (\<exists>L'. apply_confirmed (ne_env ne) send recv (nd_ledger nd) = Some L' \<and> nd' = nd\<lparr>nd_ledger := L'\<rparr>)"
  then obtain L' where v: "confirmed_valid (ne_env ne) send recv"
      "bt_get (blocks (nd_ledger nd)) (calculate_hash (ne_env ne) send) = None"
      "apply_confirmed (ne_env ne) send recv (nd_ledger nd) = Some L'" "nd' = nd\<lparr>nd_ledger := L'\<rparr>"
    by blast
  show ?thesis
    using apply_confirmed_safe [OF assms(1,2) v(1,2) assms(6,7) v(3)] apply_confirmed_cases [OF v(3)] v(4)
    by (auto simp: direct_other_accounts get_ensure_other)
qed (use assms(1) in simp)

text \<open>A node whose peers send the blocks of the example run.\<close>

definition demo_node_env :: "los_env \<Rightarrow> (string \<Rightarrow> block option) \<Rightarrow> node_env" where
  "demo_node_env env decode =
     \<lparr>ne_env = env, ne_level = None, ne_address = ''LOSN'', ne_public_key = [1], ne_sign = (\<lambda>_. Some [1]),
      ne_block_to_b64 = (\<lambda>_. ''b''), ne_block_of_b64 = decode\<rparr>"

definition demo_node :: "ledger \<Rightarrow> node" where
  "demo_node L =
     \<lparr>nd_ledger = L, nd_pending_sends = [], nd_send_voters = [], nd_mempool = mempool_new,
      nd_slashing = slashing_new, nd_anti_whale = anti_whale_new anti_whale_config_new,
      nd_send_limiter = endpoint_limiter_new 10 60 0, nd_outbox = []\<rparr>"

definition demo_decode :: "block \<Rightarrow> block \<Rightarrow> string \<Rightarrow> block option" where
  "demo_decode send recv s = (if s = ''s'' then Some send else if s = ''r'' then Some recv else None)"

lemma demo_message: "str_splitn 3 (CHR '':'') ''BLOCK_CONFIRMED:s:r'' = [''BLOCK_CONFIRMED'', ''s'', ''r'']"
  by (simp add: numeral_3_eq_3 before_char_def after_char_def)

lemma demo_confirmed:
  "handle_block_confirmed (demo_node_env demo_env (demo_decode demo_send demo_receive)) ''BLOCK_CONFIRMED:s:r''
     (demo_node demo_L1) = Some (demo_node demo_L3)"
  by (simp add: handle_block_confirmed_def demo_message demo_node_env_def demo_decode_def demo_node_def
      confirmed_valid_def demo_pow demo_signature bt_contains_def apply_confirmed_def ensure_account_def
      debit_refused_def direct_debit_def direct_credit_def bt_modify_def printable_def get_short_addr_def
      demo_hash demo_L1_def demo_L2_def demo_L3_def demo_blocks saturating_add_def checked_add_def as_bytes_def
      less_char_def Let_def)

theorem block_confirmed_conserves_value_witness:
  "ledger_inv demo_L3 \<and> ledger_value demo_L3 = ledger_value demo_L1"
proof -
  have v: "ledger_value demo_L1 < 2 ^ 128 - 1"
    using ledger_sys.reach_val [OF demo_reach(1) ledger_new_inv] unfolding ledger_new_value
    by (simp add: ledger_constants)
  have h: "calculate_hash demo_env demo_receive \<noteq> calculate_hash demo_env demo_send"
      "bt_get (blocks demo_L1) (calculate_hash demo_env demo_receive) = None"
    by (simp_all add: demo_hash demo_blocks demo_L1_def)
  show ?thesis
    using block_confirmed_conserves_value [OF _ _ demo_message _ _ _ _ demo_confirmed, of demo_send demo_receive]
      demo_inv [OF demo_reach(1)] v h
    by (simp add: demo_node_def demo_node_env_def demo_decode_def)
qed

section \<open>Who may spend\<close>

text \<open>a confirmed pair of blocks spends from any account. A Send signed with a key that is not the
  owner's is refused by \<open>process_block\<close>; the same Send inside a \<open>BLOCK_CONFIRMED\<close> message of any peer is
  applied by the handler: the account loses amount and fee, and the recipient named by the Send is credited.
  No vote and no key of the owner is needed.\<close>

theorem block_confirmed_spends_any_account:
  assumes "str_splitn 3 (CHR '':'') data = [tag, x, y]" "ne_block_of_b64 ne x = Some send" "ne_block_of_b64 ne y = Some recv"
    and "confirmed_valid (ne_env ne) send recv"
    and "hex_decode (ne_env ne) (blk_public_key send) = Some pk" "pk \<noteq> []"
      "public_key_to_address (ne_env ne) pk \<noteq> blk_account send"
    and "bt_get (blocks (nd_ledger nd)) (calculate_hash (ne_env ne) send) = None"
    and "bt_get (accounts (nd_ledger nd)) (blk_account send) = Some st" "acc_head st = blk_previous send"
      "saturating_add (blk_amount send) (blk_fee send) \<le> acc_balance st"
    and "blk_link send \<noteq> blk_account send" "printable [blk_account send, blk_link send]"
  shows "fst (process_block (ne_env ne) now send (nd_ledger nd))
      = Err (AuthWrongOwner (public_key_to_address (ne_env ne) pk) (blk_account send))
    \<and> (\<exists>nd'. handle_block_confirmed ne data nd = Some nd'
        \<and> acc_balance (account_or_default (nd_ledger nd') (blk_account send))
            = acc_balance st - saturating_add (blk_amount send) (blk_fee send)
        \<and> acc_balance (account_or_default (nd_ledger nd') (blk_link send))
            = saturating_add (acc_balance (account_or_default (nd_ledger nd) (blk_link send))) (blk_amount send))"
proof -
  let ?L = "nd_ledger nd" and ?env = "ne_env ne"
  have v: "verify_pow ?env send" "verify_signature ?env send" "blk_type send = Send" "blk_account recv = blk_link send"
      "blk_amount recv = blk_amount send"
    using assms(4) by (simp_all add: confirmed_valid_def)
  have e: "ensure_account (blk_account send) ?L = ?L"
    using assms(9) by (simp add: ensure_account_def bt_contains_def)
  have "\<not> debit_refused send ?L" using assms(9-11) by (simp add: debit_refused_def not_less)
  then have a: "apply_confirmed ?env send recv ?L = Some (direct_credit recv (calculate_hash ?env recv)
      (ensure_account (blk_account recv) (direct_debit send (calculate_hash ?env send) ?L)))"
    using assms(13) v(4) by (simp add: apply_confirmed_def Let_def e)
  have "handle_block_confirmed ne data nd = Some (nd\<lparr>nd_ledger := direct_credit recv (calculate_hash ?env recv)
      (ensure_account (blk_account recv) (direct_debit send (calculate_hash ?env send) ?L))\<rparr>)"
    using assms(1-4,8) a by (simp add: handle_block_confirmed_def bt_contains_def Let_def)
  moreover have "fst (process_block ?env now send ?L) = Err (AuthWrongOwner (public_key_to_address ?env pk) (blk_account send))"
    using v assms(5-7) by (simp add: process_block_def check_owner_def owner_signed_type_def Let_def)
  moreover have "acc_balance (account_or_default (direct_credit recv (calculate_hash ?env recv)
      (ensure_account (blk_account recv) (direct_debit send (calculate_hash ?env send) ?L))) (blk_account send))
      = acc_balance st - saturating_add (blk_amount send) (blk_fee send)"
    using assms(9,12) v(4)
    by (simp add: account_or_default_def direct_other_accounts get_ensure_other) (simp add: direct_debit_def)
  moreover have "acc_balance (account_or_default (direct_credit recv (calculate_hash ?env recv)
      (ensure_account (blk_account recv) (direct_debit send (calculate_hash ?env send) ?L))) (blk_link send))
      = saturating_add (acc_balance (account_or_default ?L (blk_link send))) (blk_amount send)"
    using assms(12) v(4,5)
    by (auto simp: direct_credit_def bt_modify_contained account_or_default_def direct_debit_def ensure_account_def bt_contains_def
        split: option.split)
  ultimately show ?thesis by auto
qed

text \<open>The account \<open>LOSV\<close> is not the address of any key in the example environment.\<close>

definition victim_ledger :: ledger where
  "victim_ledger = demo_L1\<lparr>accounts := [(''LOSV'', \<lparr>acc_head = ''0'', acc_balance = 900000, acc_block_count = 0,
     acc_is_validator = False\<rparr>)]\<rparr>"

definition theft_send :: block where
  "theft_send = demo_send\<lparr>blk_account := ''LOSV'', blk_previous := ''0'', blk_public_key := ''mallory''\<rparr>"

lemma theft_hash: "calculate_hash demo_env theft_send = calculate_hash demo_env demo_send"
  by (simp add: demo_hash theft_send_def)

theorem block_confirmed_spends_any_account_witness:
  "fst (process_block demo_env 100 theft_send victim_ledger) = Err (AuthWrongOwner ''LOSA'' ''LOSV'')
    \<and> (\<exists>nd'. handle_block_confirmed (demo_node_env demo_env (demo_decode theft_send demo_receive)) ''BLOCK_CONFIRMED:s:r''
          (demo_node victim_ledger) = Some nd'
        \<and> acc_balance (account_or_default (nd_ledger nd') ''LOSV'') = 795000
        \<and> acc_balance (account_or_default (nd_ledger nd') ''LOSB'') = 5000)"
proof -
  let ?ne = "demo_node_env demo_env (demo_decode theft_send demo_receive)"
  have s: "blk_account theft_send = ''LOSV''" "blk_link theft_send = ''LOSB''" "blk_amount theft_send = 5000"
      "blk_fee theft_send = 100000" "blk_previous theft_send = ''0''" "blk_public_key theft_send = ''mallory''"
      "blk_signature theft_send = ''ss''" "blk_type theft_send = Send"
    by (simp_all add: theft_send_def demo_send_def)
  have v: "confirmed_valid (ne_env ?ne) theft_send demo_receive"
    by (simp add: confirmed_valid_def demo_node_env_def demo_pow demo_signature theft_hash s)
      (simp add: demo_receive_def)
  have d: "saturating_add 5000 100000 = (105000 :: u128)" "saturating_add 0 5000 = (5000 :: u128)"
    by (simp_all add: saturating_add_def checked_add_def)
  have c: "ne_block_of_b64 ?ne ''s'' = Some theft_send" "ne_block_of_b64 ?ne ''r'' = Some demo_receive"
    by (simp_all add: demo_node_env_def demo_decode_def)
  show ?thesis
    using block_confirmed_spends_any_account [OF demo_message c v, of "as_bytes ''mallory''" "demo_node victim_ledger" _ 100]
    by (simp add: demo_node_env_def demo_node_def victim_ledger_def s d theft_hash demo_hash demo_blocks demo_L1_def
        printable_def get_short_addr_def account_or_default_def as_bytes_def)
qed

text \<open>The part of \<open>POST /send\<close> that changes the ledger conserves value as well.\<close>

lemma ensure_existing: "bt_get (accounts L) a = Some st \<Longrightarrow> ensure_account a L = L"
  by (simp add: ensure_account_def bt_contains_def)

lemma auto_receive_fields:
  assumes "auto_receive ne ck target h amount L = Some recv"
  shows "blk_type recv = Receive" "blk_account recv = target" "blk_link recv = h" "blk_amount recv = amount"
  using assms by (auto simp: auto_receive_def auto_receive_block_def Let_def)

lemma send_now_conserves:
  assumes "ledger_inv (nd_ledger nd)" "ledger_value (nd_ledger nd) < 2 ^ 128 - 1" "blk_type blk = Send"
    and "bt_get (blocks (nd_ledger nd)) (calculate_hash (ne_env ne) blk) = None"
    and "\<And>recv. blk_type recv = Receive \<and> blk_link recv = calculate_hash (ne_env ne) blk \<Longrightarrow>
      calculate_hash (ne_env ne) recv \<noteq> calculate_hash (ne_env ne) blk
      \<and> bt_get (blocks (nd_ledger nd)) (calculate_hash (ne_env ne) recv) = None"
    and "send_now ne ck blk pwr nd = (r, nd')"
  shows "ledger_inv (nd_ledger nd') \<and> ledger_value (nd_ledger nd') = ledger_value (nd_ledger nd)"
proof -
  let ?L = "nd_ledger nd" and ?h = "calculate_hash (ne_env ne) blk"
  let ?L1 = "direct_debit blk ?h ?L"
  let ?L2 = "auto_unregister (blk_account blk) ?L1"
  let ?L3 = "ensure_account (blk_link blk) ?L2"
  have "nd_ledger nd' = ?L
    \<or> (\<exists>st. bt_get (accounts ?L) (blk_account blk) = Some st \<and> \<not> debit_refused blk ?L
        \<and> (nd_ledger nd' = ?L1 \<or> nd_ledger nd' = ?L3
          \<or> (\<exists>recv. auto_receive ne ck (blk_link blk) ?h (blk_amount blk) ?L3 = Some recv
               \<and> nd_ledger nd' = direct_credit recv (calculate_hash (ne_env ne) recv) ?L3)))"
    using assms(6)
    by (auto simp: send_now_def Let_def debit_refused_def push_msg_def split: option.splits if_splits)
  then consider "nd_ledger nd' = ?L"
    | st where "bt_get (accounts ?L) (blk_account blk) = Some st" "\<not> debit_refused blk ?L"
        "nd_ledger nd' = ?L1 \<or> nd_ledger nd' = ?L3
          \<or> (\<exists>recv. auto_receive ne ck (blk_link blk) ?h (blk_amount blk) ?L3 = Some recv
               \<and> nd_ledger nd' = direct_credit recv (calculate_hash (ne_env ne) recv) ?L3)"
    by blast
  then show ?thesis
  proof cases
    case 2
    note e = ensure_existing [OF 2(1)]
    have d: "ledger_inv ?L1" "ledger_value ?L1 = ledger_value ?L"
      using direct_debit_safe [OF assms(1,2), of blk ?h] assms(3,4) 2(2) by (simp_all add: e value_removed_def)
    have u: "ledger_inv ?L2" "ledger_value ?L2 = ledger_value ?L"
      using auto_unregister_safe [OF d(1)] d(2) by simp_all
    show ?thesis
      using 2(3)
    proof (elim disjE exE conjE)
      fix recv
      assume r: "auto_receive ne ck (blk_link blk) ?h (blk_amount blk) ?L3 = Some recv"
        "nd_ledger nd' = direct_credit recv (calculate_hash (ne_env ne) recv) ?L3"
      note f = auto_receive_fields [OF r(1)]
      show ?thesis
        using transfer_safe [OF assms(1,2,3) _ assms(4), of ?L2 recv "calculate_hash (ne_env ne) recv"]
          2(2) assms(5) [of recv] f r(2) u
        by (simp add: e auto_unregister_safe d)
    qed (use d u ensure_account_safe [OF u(1)] in simp_all)
  qed (use assms(1) in simp)
qed

text \<open>A request signed by the client, after all checks of the handler.\<close>

definition client_block :: "clock \<Rightarrow> send_request \<Rightarrow> string \<Rightarrow> u128 \<Rightarrow> string \<Rightarrow> string \<Rightarrow> block" where
  "client_block ck rq sender amt key sig =
     (draft_send ck rq sender (rq_target rq) amt key)\<lparr>blk_signature := sig\<rparr>"

lemma handle_send_client:
  assumes "rq_from rq = Some sender" "rq_amount_cil rq = Some amt" "amt \<noteq> 0" "rq_signature rq = Some sig"
      "rq_public_key rq = Some key" "rq_previous rq = Some (acc_head st)" "rq_work rq = Some w"
    and "validate_address (ne_env ne) sender" "validate_address (ne_env ne) (rq_target rq)" "rq_target rq \<noteq> sender"
    and "check_and_record (ck_instant ck) sender (nd_send_limiter nd) = (Ok u, el)"
    and "send_target (ne_env ne) (rq_target rq) (nd_ledger nd) = Some (Some (rq_target rq))"
    and "bt_get (accounts (nd_ledger nd)) sender = Some st"
    and "aw_register_transaction (ck_secs ck) sender (ucast BASE_FEE_CIL) (nd_anti_whale nd) = (Ok fee, aw)"
    and "ucast fee \<le> option_or (rq_fee rq) 0" "printable [sender]"
    and "amt + ucast fee + pending_total sender nd \<le> acc_balance st"
    and "verify_signature (ne_env ne) (client_block ck rq sender amt key sig)"
  shows "handle_send ne ck rq nd
    = send_now ne ck (client_block ck rq sender amt key sig) (acc_balance st div CIL_PER_LOS)
        (nd\<lparr>nd_send_limiter := el, nd_anti_whale := aw\<rparr>)"
proof -
  have n: "\<not> option_or (rq_fee rq) 0 < ucast fee" "\<not> acc_balance st < amt + ucast fee + pending_total sender nd"
    using assms(15,17) by (simp_all add: not_less)
  have p: "pending_total sender (nd\<lparr>nd_send_limiter := el, nd_anti_whale := aw\<rparr>) = pending_total sender nd"
    by (simp add: pending_total_def)
  let ?d = "draft_send ck rq sender (rq_target rq) amt key"
  have d: "blk_account ?d = sender" "blk_amount ?d = amt" "blk_fee ?d = option_or (rq_fee rq) 0"
    using assms(4) by (simp_all add: draft_send_def)
  have "sign_send ne rq ?d = Ok (client_block ck rq sender amt key sig)"
    using assms(4,18) by (simp add: sign_send_def client_block_def)
  then have "send_block ne ck rq ?d pw (ucast fee) m = send_now ne ck (client_block ck rq sender amt key sig) pw m" for pw m
    using assms(4,7) n(1) d by (simp add: send_block_def)
  then have "send_from ne ck rq ?d (nd\<lparr>nd_send_limiter := el\<rparr>)
      = send_now ne ck (client_block ck rq sender amt key sig) (acc_balance st div CIL_PER_LOS)
          (nd\<lparr>nd_send_limiter := el, nd_anti_whale := aw\<rparr>)"
    using assms(6,13,14,16) n(2) d p by (simp add: send_from_def)
  then show ?thesis
    using assms(1-5,8-12) by (simp add: handle_send_def send_to_def option_or_def)
qed

text \<open>\<open>POST /send\<close> spends from any account. The handler checks the client's signature
  against the key the client supplies and never compares that key with the sender's address; a request
  signed with any other key is finalised at once, without consensus, and debits the named sender.\<close>

theorem send_api_spends_any_account:
  assumes "rq_from rq = Some sender" "rq_amount_cil rq = Some amt" "amt \<noteq> 0" "rq_signature rq = Some sig"
      "rq_public_key rq = Some key" "rq_previous rq = Some (acc_head st)" "rq_work rq = Some w"
    and "validate_address (ne_env ne) sender" "validate_address (ne_env ne) (rq_target rq)" "rq_target rq \<noteq> sender"
    and "check_and_record (ck_instant ck) sender (nd_send_limiter nd) = (Ok u, el)"
    and "send_target (ne_env ne) (rq_target rq) (nd_ledger nd) = Some (Some (rq_target rq))"
    and "bt_get (accounts (nd_ledger nd)) sender = Some st"
    and "aw_register_transaction (ck_secs ck) sender (ucast BASE_FEE_CIL) (nd_anti_whale nd) = (Ok fee, aw)"
    and "ucast fee \<le> option_or (rq_fee rq) 0" "printable [sender, rq_target rq]"
    and "amt + ucast fee + pending_total sender nd \<le> acc_balance st"
      "saturating_add amt (option_or (rq_fee rq) 0) \<le> acc_balance st"
    and "verify_signature (ne_env ne) (client_block ck rq sender amt key sig)"
    and "hex_decode (ne_env ne) key = Some pk" "pk \<noteq> []" "public_key_to_address (ne_env ne) pk \<noteq> sender"
    and "\<And>msg. ne_sign ne msg \<noteq> None"
  shows "\<not> is_ok (fst (process_block (ne_env ne) now (client_block ck rq sender amt key sig) (nd_ledger nd)))
    \<and> is_ok (fst (handle_send ne ck rq nd))
    \<and> acc_balance (account_or_default (nd_ledger (snd (handle_send ne ck rq nd))) sender)
        = acc_balance st - saturating_add amt (option_or (rq_fee rq) 0)"
proof -
  let ?b = "client_block ck rq sender amt key sig"
  let ?nd = "nd\<lparr>nd_send_limiter := el, nd_anti_whale := aw\<rparr>"
  have b: "blk_account ?b = sender" "blk_link ?b = rq_target rq" "blk_amount ?b = amt" "blk_type ?b = Send"
      "blk_fee ?b = option_or (rq_fee rq) 0" "blk_previous ?b = acc_head st" "blk_public_key ?b = key"
    using assms(4,6) by (simp_all add: client_block_def draft_send_def option_or_def)
  have p: "printable [sender]" using assms(16) by (simp add: printable_def)
  have run: "handle_send ne ck rq nd = send_now ne ck ?b (acc_balance st div CIL_PER_LOS) ?nd"
    by (rule handle_send_client) (use assms p in simp_all)
  have sg: "auto_receive ne ck t h a L \<noteq> None" for t h a L
    using assms(23) by (simp add: auto_receive_def try_sign_hex_def Let_def)
  obtain recv where r: "auto_receive ne ck (rq_target rq) (calculate_hash (ne_env ne) ?b) amt
      (ensure_account (rq_target rq) (auto_unregister sender (direct_debit ?b (calculate_hash (ne_env ne) ?b) (nd_ledger nd))))
      = Some recv"
    using sg by blast
  have L: "is_ok (fst (handle_send ne ck rq nd))"
    "nd_ledger (snd (handle_send ne ck rq nd)) = direct_credit recv (calculate_hash (ne_env ne) recv)
      (ensure_account (rq_target rq) (auto_unregister sender (direct_debit ?b (calculate_hash (ne_env ne) ?b) (nd_ledger nd))))"
    unfolding run using assms(13,16,18) r
    by (simp_all add: send_now_def Let_def b not_less push_msg_def)
  have "acc_balance (account_or_default (nd_ledger (snd (handle_send ne ck rq nd))) sender)
      = acc_balance st - saturating_add amt (option_or (rq_fee rq) 0)"
    unfolding L(2) using assms(10,13) auto_receive_fields(2) [OF r] b
    by (auto simp: account_or_default_def direct_other_accounts get_ensure_other auto_unregister_def direct_debit_def)
  moreover have "\<not> is_ok (fst (process_block (ne_env ne) now ?b (nd_ledger nd)))"
    using assms(20-22) b by (simp add: process_block_def check_owner_def owner_signed_type_def Let_def)
  ultimately show ?thesis using L(1) by blast
qed

definition open_env :: los_env where
  "open_env = demo_env\<lparr>bs58_decode := (\<lambda>_. Some (replicate 25 0)), sha256 := (\<lambda>_. replicate 32 0)\<rparr>"

lemma open_env_simps [simp]:
  "hex_decode open_env s = Some (as_bytes s)" "mainnet_feature open_env = True"
  "dilithium_pk_valid open_env b" "dilithium_sig_valid open_env b" "dilithium_verify open_env b c d"
  "public_key_to_address open_env b = ''LOSA''"
  by (simp_all add: open_env_def demo_env_def plain_env_def public_key_to_address_def Let_def)

lemma open_env_valid: "starts_with a ''LOS'' \<Longrightarrow> validate_address open_env a"
  by (simp add: validate_address_def open_env_def address_checksum_def)

lemma open_env_signature:
  "verify_signature open_env b \<longleftrightarrow> blk_signature b \<noteq> [] \<and> blk_public_key b \<noteq> []"
  by (simp add: verify_signature_def crypto_verify_signature_def verify_dilithium5_def hex_decode_or_empty_def)

definition theft_request :: send_request where
  "theft_request =
     \<lparr>rq_from = Some ''LOSV'', rq_target = ''LOST'', rq_amount = 0, rq_amount_cil = Some 5000,
      rq_signature = Some ''sig'', rq_public_key = Some ''mallory'', rq_previous = Some ''0'', rq_work = Some 0,
      rq_timestamp = Some 0, rq_fee = Some 100000\<rparr>"

abbreviation demo_clock :: clock where
  "demo_clock \<equiv> \<lparr>ck_secs = 100, ck_millis = 100000, ck_instant = 0\<rparr>"

theorem send_api_spends_any_account_witness:
  "is_ok (fst (handle_send (demo_node_env open_env (\<lambda>_. None)) demo_clock theft_request (demo_node victim_ledger)))
    \<and> acc_balance (account_or_default (nd_ledger (snd (handle_send (demo_node_env open_env (\<lambda>_. None)) demo_clock
         theft_request (demo_node victim_ledger)))) ''LOSV'') = 795000"
proof -
  let ?ne = "demo_node_env open_env (\<lambda>_. None)" and ?nd = "demo_node victim_ledger"
  let ?st = "\<lparr>acc_head = ''0'', acc_balance = 900000, acc_block_count = 0, acc_is_validator = False\<rparr> :: account_state"
  have ne: "ne_env ?ne = open_env" "\<And>msg. ne_sign ?ne msg \<noteq> None" by (simp_all add: demo_node_env_def)
  have rq: "rq_from theft_request = Some ''LOSV''" "rq_amount_cil theft_request = Some 5000" "(5000 :: u128) \<noteq> 0"
      "rq_signature theft_request = Some ''sig''" "rq_public_key theft_request = Some ''mallory''"
      "rq_previous theft_request = Some (acc_head ?st)" "rq_work theft_request = Some 0"
      "rq_target theft_request = ''LOST''" "option_or (rq_fee theft_request) 0 = (100000 :: u128)"
    by (simp_all add: theft_request_def option_or_def)
  have el: "check_and_record 0 ''LOSV'' (nd_send_limiter ?nd)
      = (Ok (), (nd_send_limiter ?nd)\<lparr>el_requests := [(''LOSV'', [0])]\<rparr>)"
    by (simp add: check_and_record_def demo_node_def endpoint_limiter_new_def el_cleanup_def el_recent_def)
  have tgt: "send_target open_env ''LOST'' (nd_ledger ?nd) = Some (Some ''LOST'')"
    by (simp add: send_target_def demo_node_def victim_ledger_def bt_keys_def get_short_addr_def open_env_valid starts_with_def)
  have st: "bt_get (accounts (nd_ledger ?nd)) ''LOSV'' = Some ?st" by (simp add: demo_node_def victim_ledger_def)
  obtain aw where aw: "aw_register_transaction 100 ''LOSV'' (ucast BASE_FEE_CIL) (nd_anti_whale ?nd) = (Ok 100000, aw)"
    by (simp add: aw_register_transaction_def demo_node_def anti_whale_new_def anti_whale_config_new_def
        activity_entry_def maybe_reset_activity_def window_over_def BASE_FEE_CIL_def saturating_mul_def checked_mul_def Let_def
        saturating_sub_def checked_sub_def ACTIVITY_WINDOW_SECS_def)
  have d: "saturating_add 5000 100000 = (105000 :: u128)" by (simp add: saturating_add_def checked_add_def)
  have sg: "verify_signature open_env (client_block demo_clock theft_request ''LOSV'' 5000 ''mallory'' ''sig'')"
    by (simp add: open_env_signature client_block_def draft_send_def)
  show ?thesis
    using send_api_spends_any_account [of theft_request "''LOSV''" 5000 "''sig''" "''mallory''" ?st 0 ?ne demo_clock ?nd "()"
        "(nd_send_limiter ?nd)\<lparr>el_requests := [(''LOSV'', [0])]\<rparr>" 100000 aw "as_bytes ''mallory''"]
      el tgt st aw sg rq d ne
    by (simp add: open_env_valid starts_with_def printable_def get_short_addr_def as_bytes_def)
      (simp add: pending_total_def demo_node_def bt_values_def)
qed

section \<open>Votes\<close>

text \<open>The vote that completes the quorum of a pending send.\<close>

lemma completing_vote:
  assumes "length (str_split (CHR '':'') data) = 8" "vote_authentic (ne_env ne) (str_split (CHR '':'') data)"
    and "bt_get (nd_pending_sends nd) tx = Some (blk, votes)" "tx = str_split (CHR '':'') data ! 1"
      "voter = str_split (CHR '':'') data ! 4"
    and "voters = option_or (bt_get (nd_send_voters nd) tx) []" "voter \<notin> set voters" "printable [voter]"
    and "pw = calculate_voting_power (acc_balance (account_or_default (nd_ledger nd) voter))"
      "votes' = (if pw > 0 then votes + pw * 1000 else votes)"
    and "send_threshold ne \<le> votes'" "min_voters ne \<le> Suc (length voters)"
  shows "handle_confirm_res ne ck data nd = finalize_send ne ck tx blk
      (nd\<lparr>nd_send_voters := bt_insert tx (voters @ [voter]) (nd_send_voters nd),
          nd_pending_sends := bt_insert tx (blk, votes') (nd_pending_sends nd)\<rparr>)"
proof -
  have p: "(case bt_get (accounts (nd_ledger nd)) voter of Some a \<Rightarrow> acc_balance a | None \<Rightarrow> 0)
      = acc_balance (account_or_default (nd_ledger nd) voter)"
    by (simp add: account_or_default_def split: option.split)
  have "handle_confirm_res ne ck data nd = count_vote ne ck tx voter nd"
    using assms(1-5) by (simp add: handle_confirm_res_def Let_def bt_contains_def)
  also have "\<dots> = finalize_send ne ck tx blk
      (nd\<lparr>nd_send_voters := bt_insert tx (voters @ [voter]) (nd_send_voters nd),
          nd_pending_sends := bt_insert tx (blk, votes') (nd_pending_sends nd)\<rparr>)"
    unfolding count_vote_def p using assms(3,6-12) by (cases "pw > 0") (simp_all add: Let_def)
  finally show ?thesis .
qed

lemma credit_claimed_value:
  assumes "ledger_inv L" "blk_type r = Receive" "bt_get (blocks L) h = None" "blk_link r \<in> claimed_sends L"
    and "ledger_value L + unat (blk_amount r) < 2 ^ 128"
  shows "ledger_value (direct_credit r h (ensure_account (blk_account r) L)) = ledger_value L + unat (blk_amount r)"
proof -
  let ?st = "account_or_default L (blk_account r)"
  let ?st1 = "?st\<lparr>acc_balance := saturating_add (acc_balance ?st) (blk_amount r)\<rparr>"
  have ok: "bt_ok (accounts L)" "claims_ok L" using assms(1) by (simp_all add: ledger_inv_def maps_ok_def)
  have "local_value ?st L \<le> ledger_value L" by (rule local_value_le [OF assms(1)])
  then have "unat (saturating_add (acc_balance ?st) (blk_amount r)) = unat (acc_balance ?st) + unat (blk_amount r)"
    using assms(5) by (simp add: unat_saturating_add)
  then have b: "balances_total (commit_block r h ?st1 L) = balances_total L + unat (blk_amount r)"
    using balances_total_commit [OF ok(1), of L r h ?st1] by simp
  have "insert (blk_link r) (claimed_sends L) = claimed_sends L" using assms(4) by blast
  then have "in_flight (commit_block r h ?st1 L) = in_flight L"
    using assms(2,3) by (simp add: in_flight_def bt_ksum_insert_fresh)
  with b show ?thesis by (simp add: direct_credit_commit [OF assms(2)] ledger_value_def)
qed

lemma process_block_duplicate:
  assumes "verify_pow env b" "verify_signature env b" "check_owner env b = None"
    and "bt_get (blocks L) (calculate_hash env b) = Some c"
  shows "process_block env now b L = (Ok (Duplicate (calculate_hash env b)), L)"
  using assms by (simp add: process_block_def bt_contains_def)

text \<open>A confirmed duplicate creates money. If a pending Send has already reached the ledger by
  another way and its amount was received, the vote that completes the quorum credits the recipient a
  second time: the value of the ledger grows by the amount of the Send.\<close>

theorem duplicate_confirmation_creates_value:
  assumes "length (str_split (CHR '':'') data) = 8" "vote_authentic (ne_env ne) (str_split (CHR '':'') data)"
    and "tx = str_split (CHR '':'') data ! 1" "voter = str_split (CHR '':'') data ! 4"
    and "bt_get (nd_pending_sends nd) tx = Some (blk, votes)" "send_threshold ne \<le> votes"
      "bt_get (nd_send_voters nd) tx = Some [first]" "voter \<noteq> first" "printable [voter]"
      "acc_balance (account_or_default (nd_ledger nd) voter) < MIN_STAKE_CIL"
    and "ledger_inv (nd_ledger nd)" "ledger_value (nd_ledger nd) + unat (blk_amount blk) < 2 ^ 128"
    and "blk_type blk = Send" "verify_pow (ne_env ne) blk" "verify_signature (ne_env ne) blk" "check_owner (ne_env ne) blk = None"
    and "bt_get (blocks (nd_ledger nd)) (calculate_hash (ne_env ne) blk) = Some blk"
      "calculate_hash (ne_env ne) blk \<in> claimed_sends (nd_ledger nd)"
    and "printable [blk_account blk, blk_link blk]"
    and "auto_receive ne ck (blk_link blk) (calculate_hash (ne_env ne) blk) (blk_amount blk)
        (ensure_account (blk_link blk) (auto_unregister (blk_account blk) (nd_ledger nd))) = Some recv"
      "blk_signature recv \<noteq> []" "bt_get (blocks (nd_ledger nd)) (calculate_hash (ne_env ne) recv) = None"
  shows "\<exists>nd'. handle_confirm_res ne ck data nd = Some nd'
    \<and> ledger_value (nd_ledger nd') = ledger_value (nd_ledger nd) + unat (blk_amount blk)"
proof -
  let ?nd = "nd\<lparr>nd_send_voters := bt_insert tx [first, voter] (nd_send_voters nd),
      nd_pending_sends := bt_insert tx (blk, votes) (nd_pending_sends nd)\<rparr>"
  let ?L = "auto_unregister (blk_account blk) (nd_ledger nd)"
  have z: "calculate_voting_power (acc_balance (account_or_default (nd_ledger nd) voter)) = 0"
    using assms(10) by (simp add: calculate_voting_power_def)
  have run: "handle_confirm_res ne ck data nd = finalize_send ne ck tx blk ?nd"
    using completing_vote [OF assms(1,2,5,3,4), of "[first]" 0 votes ck] assms(6-9) z
    by (simp add: option_or_def min_voters_def MIN_DISTINCT_VOTERS_def)
  note f = auto_receive_fields [OF assms(20)]
  have u: "ledger_inv ?L" "ledger_value ?L = ledger_value (nd_ledger nd)"
    using auto_unregister_safe [OF assms(11)] by simp_all
  have v: "ledger_value (direct_credit recv (calculate_hash (ne_env ne) recv) (ensure_account (blk_link blk) ?L))
      = ledger_value (nd_ledger nd) + unat (blk_amount blk)"
    using credit_claimed_value [OF u(1) f(1), of "calculate_hash (ne_env ne) recv"] assms(12,18,22) f u(2) by simp
  have p: "printable [blk_account blk]" "printable [blk_link blk]" using assms(19) by (simp_all add: printable_def)
  show ?thesis
    unfolding run finalize_send_def apply_pending_def
    using process_block_duplicate [OF assms(14-17), of "ck_secs ck"] assms(13,20,21) p v
    by (simp add: unregister_sender_def credit_recipient_def push_msg_def Let_def)
qed

text \<open>The example run, with the Send still pending although it was applied and received.\<close>

definition dup_env :: node_env where
  "dup_env = (demo_node_env demo_env (\<lambda>_. None))\<lparr>ne_sign := (\<lambda>_. Some [1, 1, 1, 1])\<rparr>"

definition dup_node :: node where
  "dup_node = (demo_node demo_L3)
     \<lparr>nd_pending_sends := [(calculate_hash demo_env demo_send, (demo_send, 20000))],
      nd_send_voters := [(calculate_hash demo_env demo_send, [''LOSB''])]\<rparr>"

definition dup_vote :: string where
  "dup_vote = ''CONFIRM_RES:'' @ calculate_hash demo_env demo_send @ '':LOSA:YES:LOSA:1:s:k''"

lemma dup_vote_parts:
  "str_split (CHR '':'') dup_vote
    = [''CONFIRM_RES'', calculate_hash demo_env demo_send, ''LOSA'', ''YES'', ''LOSA'', ''1'', ''s'', ''k'']"
  by (simp add: dup_vote_def demo_hash demo_send_def char_of_def bit_0)

theorem duplicate_confirmation_creates_value_witness:
  "\<exists>nd'. handle_confirm_res dup_env demo_clock dup_vote dup_node = Some nd'
    \<and> ledger_value (nd_ledger nd') = ledger_value demo_L3 + 5000"
proof -
  let ?h = "calculate_hash demo_env demo_send"
  have ne: "ne_env dup_env = demo_env" "\<And>m. ne_sign dup_env m = Some [1, 1, 1, 1]"
    by (simp_all add: dup_env_def demo_node_env_def)
  have nd: "nd_ledger dup_node = demo_L3" by (simp add: dup_node_def demo_node_def)
  have s: "blk_type demo_send = Send" "blk_amount demo_send = 5000" "blk_account demo_send = ''LOSA''" "blk_link demo_send = ''LOSB''"
    by (simp_all add: demo_send_def)
  have au: "vote_authentic demo_env (str_split (CHR '':'') dup_vote)"
    by (simp add: dup_vote_parts vote_authentic_def crypto_verify_signature_def verify_dilithium5_def)
  have o: "check_owner demo_env demo_send = None"
    by (simp add: check_owner_def demo_send_def as_bytes_def)
  have b: "bt_get (blocks demo_L3) ?h = Some demo_send" "?h \<in> claimed_sends demo_L3"
    by (simp_all add: demo_L3_def demo_L2_def demo_hash demo_blocks char_of_def bit_0)
  have val: "ledger_value demo_L3 + unat (blk_amount demo_send) < 2 ^ 128"
    using ledger_sys.reach_val [OF demo_reach(3) ledger_new_inv] unfolding ledger_new_value
    by (simp add: ledger_constants s)
  define recv where "recv = (auto_receive_block dup_env demo_clock ''LOSB'' ?h 5000
      (ensure_account ''LOSB'' (auto_unregister ''LOSA'' demo_L3)))\<lparr>blk_signature := hex_encode demo_env [1, 1, 1, 1]\<rparr>"
  have r: "auto_receive dup_env demo_clock ''LOSB'' ?h 5000 (ensure_account ''LOSB'' (auto_unregister ''LOSA'' demo_L3)) = Some recv"
    "blk_signature recv \<noteq> []"
    by (simp_all add: auto_receive_def try_sign_hex_def ne recv_def Let_def)
  have f: "bt_get (blocks demo_L3) (calculate_hash demo_env recv) = None"
    by (simp add: demo_L3_def demo_L2_def demo_hash demo_blocks recv_def char_of_def bit_0)
  have pd: "bt_get (nd_pending_sends dup_node) ?h = Some (demo_send, 20000)" "bt_get (nd_send_voters dup_node) ?h = Some [''LOSB'']"
    "send_threshold dup_env \<le> 20000" "acc_balance (account_or_default demo_L3 ''LOSA'') < MIN_STAKE_CIL"
    by (simp_all add: dup_node_def send_threshold_def SEND_CONSENSUS_THRESHOLD_def TESTNET_FUNCTIONAL_THRESHOLD_def
        account_or_default_def demo_L3_def demo_L2_def MIN_STAKE_CIL_def)
  have p: "printable [''LOSA'']" "printable [''LOSA'', ''LOSB'']" by (simp_all add: printable_def get_short_addr_def)
  have v: "verify_signature demo_env demo_send" by (simp add: demo_signature demo_send_def)
  have i: "ledger_inv demo_L3" by (rule demo_inv [OF demo_reach(3)])
  have "\<exists>nd'. handle_confirm_res dup_env demo_clock dup_vote dup_node = Some nd'
    \<and> ledger_value (nd_ledger nd') = ledger_value (nd_ledger dup_node) + unat (blk_amount demo_send)"
    by (rule duplicate_confirmation_creates_value [of dup_vote dup_env ?h "''LOSA''" dup_node demo_send 20000 "''LOSB''" demo_clock recv])
      (simp_all only: ne nd s dup_vote_parts au [unfolded dup_vote_parts] o b val [unfolded s] r f pd p v i demo_pow, simp_all)
  then show ?thesis by (simp only: nd s) simp
qed

section \<open>A finalised send has its quorum\<close>

inductive node_step :: "node_env \<Rightarrow> node \<Rightarrow> node \<Rightarrow> bool" for ne where
  api_send: "handle_send ne ck rq nd = (r, nd') \<Longrightarrow> node_step ne nd nd'"
| confirm_req: "node_step ne nd (handle_confirm_req ne ck data nd)"
| confirm_res: "handle_confirm_res ne ck data nd = Some nd' \<Longrightarrow> node_step ne nd nd'"
| block_confirmed: "handle_block_confirmed ne data nd = Some nd' \<Longrightarrow> node_step ne nd nd'"
| cleanup: "node_step ne nd (cleanup_pending ck nd)"

definition voted :: "los_env \<Rightarrow> string \<Rightarrow> string \<Rightarrow> bool" where
  "voted env h v \<longleftrightarrow> (\<exists>parts. length parts = 8 \<and> vote_authentic env parts \<and> parts ! 1 = h \<and> parts ! 4 = v)"

definition votes_inv :: "los_env \<Rightarrow> node \<Rightarrow> bool" where
  "votes_inv env nd \<longleftrightarrow>
     (\<forall>(h, vs) \<in> set (nd_send_voters nd). distinct vs \<and> (\<forall>v \<in> set vs. voted env h v))
     \<and> (\<forall>(h, b, n) \<in> set (nd_pending_sends nd). calculate_hash env b = h \<and> blk_type b = Send)"

lemma set_bt_insert: "set (bt_insert k v m) \<subseteq> insert (k, v) (set m)"
  by (induction m) auto

lemma bt_get_set: "bt_get m k = Some v \<Longrightarrow> (k, v) \<in> set m"
  by (simp add: bt_get_def map_of_SomeD)

lemma push_msg_frame [simp]:
  "nd_ledger (push_msg m nd) = nd_ledger nd" "nd_send_voters (push_msg m nd) = nd_send_voters nd"
  "nd_pending_sends (push_msg m nd) = nd_pending_sends nd"
  by (simp_all add: push_msg_def)

definition votes_frame :: "los_env \<Rightarrow> node \<Rightarrow> node \<Rightarrow> bool" where
  "votes_frame env nd nd' \<longleftrightarrow> nd_send_voters nd' = nd_send_voters nd
     \<and> (nd_pending_sends nd' = nd_pending_sends nd
        \<or> (\<exists>b. blk_type b = Send \<and> nd_pending_sends nd' = bt_insert (calculate_hash env b) (b, 0) (nd_pending_sends nd)))"

lemma send_now_frame: "send_now ne ck blk p nd = (r, nd') \<Longrightarrow> votes_frame (ne_env ne) nd nd'"
  by (auto simp: send_now_def Let_def votes_frame_def split: option.splits if_splits)

lemma send_queue_frame:
  "send_queue ne ck blk p f nd = (r, nd') \<Longrightarrow> blk_type blk = Send \<Longrightarrow> votes_frame (ne_env ne) nd nd'"
  by (auto simp: send_queue_def Let_def votes_frame_def)

lemma sign_send_type: "sign_send ne rq blk = Ok b \<Longrightarrow> blk_type b = blk_type blk"
  by (auto simp: sign_send_def Let_def split: option.splits if_splits)

lemma votes_frame_refl [simp]: "votes_frame env nd nd" "votes_frame env nd (nd\<lparr>nd_anti_whale := w\<rparr>)"
    "votes_frame env nd (nd\<lparr>nd_send_limiter := el\<rparr>)"
  by (simp_all add: votes_frame_def)

lemma votes_frame_update [simp]:
  "votes_frame env (nd\<lparr>nd_anti_whale := w\<rparr>) nd' = votes_frame env nd nd'"
  "votes_frame env (nd\<lparr>nd_send_limiter := el\<rparr>) nd' = votes_frame env nd nd'"
  by (simp_all add: votes_frame_def)

lemma send_block_frame:
  assumes "send_block ne ck rq blk p f nd = (r, nd')" "blk_type blk = Send"
  shows "votes_frame (ne_env ne) nd nd'"
proof -
  let ?c = "if rq_signature rq \<noteq> None then blk else blk\<lparr>blk_fee := f\<rparr>"
  let ?b = "if rq_work rq = None then solve_pow (ne_env ne) ?c else ?c"
  have t: "blk_type ?b = Send" using assms(2) by simp
  show ?thesis
  proof (cases "sign_send ne rq ?b")
    case (Ok b)
    have "blk_type b = Send" using sign_send_type [OF Ok] t by simp
    with Ok assms(1) show ?thesis
      by (auto simp: send_block_def Let_def dest: send_now_frame send_queue_frame split: if_splits)
  qed (use assms(1) in \<open>auto simp: send_block_def Let_def split: if_splits\<close>)
qed

lemma send_from_frame:
  assumes "send_from ne ck rq blk nd = (r, nd')" "blk_type blk = Send"
  shows "votes_frame (ne_env ne) nd nd'"
proof (cases "bt_get (accounts (nd_ledger nd)) (blk_account blk)")
  case (Some st)
  define b where "b = (if rq_previous rq = None then blk\<lparr>blk_previous := acc_head st\<rparr> else blk)"
  obtain fee aw where aw: "aw_register_transaction (ck_secs ck) (blk_account b) (ucast BASE_FEE_CIL) (nd_anti_whale nd) = (fee, aw)"
    by (cases "aw_register_transaction (ck_secs ck) (blk_account b) (ucast BASE_FEE_CIL) (nd_anti_whale nd)")
  let ?nd = "nd\<lparr>nd_anti_whale := aw\<rparr>"
  have "blk_type b = Send" using assms(2) by (simp add: b_def)
  then have f: "votes_frame (ne_env ne) ?nd nd'" if "send_block ne ck rq b p f ?nd = (r, nd')" for p f
    using send_block_frame that by blast
  note run = assms(1) [unfolded send_from_def Let_def Some option.case b_def [symmetric] aw prod.case]
  show ?thesis
    using run f by (cases fee) (auto split: if_splits)
qed (use assms(1) in \<open>simp add: send_from_def\<close>)

lemma handle_send_frame:
  assumes "handle_send ne ck rq nd = (r, nd')"
  shows "votes_frame (ne_env ne) nd nd'"
proof -
  obtain a el where el: "check_and_record (ck_instant ck) (option_or (rq_from rq) (ne_address ne)) (nd_send_limiter nd) = (a, el)"
    by fastforce
  let ?nd = "nd\<lparr>nd_send_limiter := el\<rparr>"
  have "nd' = ?nd \<or> (\<exists>s t. send_to ne ck rq s t ?nd = (r, nd'))"
  proof (cases a)
    case (Ok u)
    show ?thesis
    proof (cases "send_target (ne_env ne) (rq_target rq) (nd_ledger nd)")
      case (Some t)
      then show ?thesis
        using assms el Ok by (cases t) (simp_all add: handle_send_def Let_def split: if_splits, blast+)
    qed (use assms el Ok in \<open>simp add: handle_send_def Let_def split: if_splits\<close>)
  qed (use assms el in \<open>simp_all add: handle_send_def Let_def\<close>)
  moreover have "votes_frame (ne_env ne) nd nd'" if "send_to ne ck rq s t ?nd = (r, nd')" for s t
    using that send_from_frame [of ne ck rq _ ?nd r nd']
    by (auto simp: send_to_def draft_send_def split: option.splits if_splits)
  ultimately show ?thesis by auto
qed

lemma votes_inv_frame:
  assumes "votes_inv env nd" "votes_frame env nd nd'"
  shows "votes_inv env nd'"
  using assms set_bt_insert [where m = "nd_pending_sends nd"] unfolding votes_inv_def votes_frame_def by fastforce

lemma credit_recipient_frame:
  "credit_recipient ne ck blk nd = Some nd' \<Longrightarrow>
     nd_send_voters nd' = nd_send_voters nd \<and> nd_pending_sends nd' = nd_pending_sends nd"
  by (auto simp: credit_recipient_def Let_def split: option.splits if_splits)

lemma unregister_sender_frame:
  "unregister_sender blk nd = Some nd' \<Longrightarrow>
     nd_send_voters nd' = nd_send_voters nd \<and> nd_pending_sends nd' = nd_pending_sends nd"
  by (auto simp: unregister_sender_def Let_def split: if_splits)

lemma apply_pending_frame:
  assumes "apply_pending ne ck blk nd = Some nd'"
  shows "nd_send_voters nd' = nd_send_voters nd \<and> nd_pending_sends nd' = nd_pending_sends nd"
proof -
  obtain r L where run: "process_block (ne_env ne) (ck_secs ck) blk (nd_ledger nd) = (r, L)" by fastforce
  show ?thesis
    using assms run
    by (cases r) (auto simp: apply_pending_def Let_def split: if_splits option.splits
        dest!: unregister_sender_frame credit_recipient_frame)
qed

lemma count_vote_cases:
  assumes "count_vote ne ck tx voter nd = Some nd'"
  shows "nd' = nd \<or> (let vs = option_or (bt_get (nd_send_voters nd) tx) [] in voter \<notin> set vs \<and>
     (let nd1 = nd\<lparr>nd_send_voters := bt_insert tx (vs @ [voter]) (nd_send_voters nd)\<rparr> in nd' = nd1
      \<or> (\<exists>b n n'. bt_get (nd_pending_sends nd) tx = Some (b, n) \<and>
         (let nd2 = nd1\<lparr>nd_pending_sends := bt_insert tx (b, n') (nd_pending_sends nd)\<rparr> in
           nd' = nd2 \<or> (send_threshold ne \<le> n' \<and> min_voters ne \<le> Suc (length vs)
              \<and> finalize_send ne ck tx b nd2 = Some nd')))))"
  using assms unfolding count_vote_def Let_def by (auto split: if_splits option.splits prod.splits)

lemma votes_inv_voters:
  assumes "votes_inv env nd"
  shows "distinct (option_or (bt_get (nd_send_voters nd) h) [])"
    and "\<forall>v \<in> set (option_or (bt_get (nd_send_voters nd) h) []). voted env h v"
proof -
  have "distinct vs \<and> (\<forall>v \<in> set vs. voted env h v)" if "bt_get (nd_send_voters nd) h = Some vs" for vs
    using assms bt_get_set [OF that] by (auto simp: votes_inv_def)
  then show "distinct (option_or (bt_get (nd_send_voters nd) h) [])"
    "\<forall>v \<in> set (option_or (bt_get (nd_send_voters nd) h) []). voted env h v"
    by (cases "bt_get (nd_send_voters nd) h"; simp add: option_or_def)+
qed

lemma votes_inv_subset:
  "votes_inv env nd \<Longrightarrow> set (nd_send_voters nd') \<subseteq> set (nd_send_voters nd) \<Longrightarrow>
     set (nd_pending_sends nd') \<subseteq> set (nd_pending_sends nd) \<Longrightarrow> votes_inv env nd'"
  unfolding votes_inv_def by blast

lemma count_vote_inv:
  assumes "votes_inv (ne_env ne) nd" "voted (ne_env ne) tx voter" "count_vote ne ck tx voter nd = Some nd'"
  shows "votes_inv (ne_env ne) nd'"
proof -
  let ?vs = "option_or (bt_get (nd_send_voters nd) tx) []"
  note vs = votes_inv_voters [OF assms(1), of tx]
  have pb: "calculate_hash (ne_env ne) b = tx \<and> blk_type b = Send" if "bt_get (nd_pending_sends nd) tx = Some (b, n)" for b n
    using assms(1) bt_get_set [OF that] by (auto simp: votes_inv_def)
  let ?nd1 = "nd\<lparr>nd_send_voters := bt_insert tx (?vs @ [voter]) (nd_send_voters nd)\<rparr>"
  have 1: "votes_inv (ne_env ne) ?nd1" if "voter \<notin> set ?vs"
    using assms(1,2) vs that set_bt_insert [of tx "?vs @ [voter]" "nd_send_voters nd"]
    unfolding votes_inv_def by fastforce
  have 2: "votes_inv (ne_env ne) (?nd1\<lparr>nd_pending_sends := bt_insert tx (b, n') (nd_pending_sends nd)\<rparr>)"
    if "voter \<notin> set ?vs" "bt_get (nd_pending_sends nd) tx = Some (b, n)" for b n n'
    using 1 [OF that(1)] pb [OF that(2)] set_bt_insert [of tx "(b, n')" "nd_pending_sends nd"]
    unfolding votes_inv_def by fastforce
  have 3: "votes_inv (ne_env ne) m'" if "votes_inv (ne_env ne) m" "finalize_send ne ck tx b m = Some m'" for b m m'
    by (rule votes_inv_subset [OF that(1)])
      (use that(2) in \<open>auto simp: finalize_send_def bt_remove_def dest!: apply_pending_frame\<close>)
  show ?thesis
    using count_vote_cases [OF assms(3)] assms(1) 1 2 3 unfolding Let_def by blast
qed

lemma node_step_votes: "node_step ne nd nd' \<Longrightarrow> votes_inv (ne_env ne) nd \<Longrightarrow> votes_inv (ne_env ne) nd'"
proof (induction rule: node_step.induct)
  case (api_send ck rq nd r nd')
  then show ?case using votes_inv_frame handle_send_frame by blast
next
  case (confirm_req nd ck data)
  have "votes_frame (ne_env ne) nd (handle_confirm_req ne ck data nd)"
    by (simp add: handle_confirm_req_def Let_def votes_frame_def split: option.split)
  then show ?case using confirm_req votes_inv_frame by blast
next
  case (confirm_res ck data nd nd')
  let ?parts = "str_split (CHR '':'') data"
  have "nd' = nd \<or> (length ?parts = 8 \<and> vote_authentic (ne_env ne) ?parts
      \<and> count_vote ne ck (?parts ! 1) (?parts ! 4) nd = Some nd')"
    using confirm_res(1) by (auto simp: handle_confirm_res_def Let_def split: if_splits)
  then show ?case
    using confirm_res(2) count_vote_inv [of ne nd "?parts ! 1" "?parts ! 4" ck nd'] by (auto simp: voted_def)
next
  case (block_confirmed data nd nd')
  then have "votes_frame (ne_env ne) nd nd'"
    by (auto simp: handle_block_confirmed_def Let_def votes_frame_def split: if_splits option.splits)
  then show ?case using block_confirmed votes_inv_frame by blast
next
  case (cleanup nd ck)
  then show ?case by (auto simp: votes_inv_def cleanup_pending_def)
qed

interpretation node_votes: invariant_system "node_step ne" "votes_inv (ne_env ne)" for ne
  by unfold_locales (blast intro: node_step_votes)


text \<open>
  What the quorum is worth: one vote of any validator with the minimum stake exceeds the threshold
  of 20,000 by far, since power is the square root of a stake in CIL and is multiplied by 1000; and the
  second voter needs no stake at all.
\<close>

lemma one_validator_reaches_threshold:
  assumes "MIN_STAKE_CIL \<le> s"
  shows "SEND_CONSENSUS_THRESHOLD \<le> calculate_voting_power s * 1000"
proof -
  have m: "10 ^ 14 \<le> unat s" using assms by (simp add: MIN_STAKE_CIL_def word_le_nat_alt)
  have up: "min (unat s) 2193623600000000000000 < (unat (calculate_voting_power s) + 1) ^ 2"
    and lo: "unat (calculate_voting_power s) ^ 2 \<le> min (unat s) 2193623600000000000000"
    using voting_power_sq [OF assms] by blast+
  have "unat (calculate_voting_power s) < 2 ^ 64"
  proof (rule power_less_imp_less_base)
    show "unat (calculate_voting_power s) ^ 2 < (2 ^ 64) ^ 2" using lo by simp
  qed simp
  then have w: "unat (calculate_voting_power s * 1000) = unat (calculate_voting_power s) * 1000"
    by (simp add: unat_mult_exact)
  have "20 \<le> unat (calculate_voting_power s)"
  proof (rule ccontr)
    assume "\<not> 20 \<le> unat (calculate_voting_power s)"
    then have "(unat (calculate_voting_power s) + 1) ^ 2 \<le> 20 ^ 2" by (intro power_mono) auto
    with up m show False by simp
  qed
  then show ?thesis by (simp add: SEND_CONSENSUS_THRESHOLD_def word_le_nat_alt w)
qed

text \<open>An example: a test node queues its own transfer, a validator and an address without stake vote.\<close>

definition vote_env :: los_env where
  "vote_env = open_env\<lparr>mainnet_feature := False, blake2b512 := (\<lambda>b. b),
     bs58_encode := (\<lambda>b. [char_of (unat (b ! 1))])\<rparr>"

definition vote_node_env :: node_env where
  "vote_node_env = (demo_node_env vote_env (\<lambda>_. None))\<lparr>ne_public_key := [78]\<rparr>"

definition vote_ledger :: ledger where
  "vote_ledger = ledger_new\<lparr>accounts :=
     [(''LOSA'', \<lparr>acc_head = ''0'', acc_balance = 100000000000000, acc_block_count = 0, acc_is_validator = True\<rparr>),
      (''LOSN'', \<lparr>acc_head = ''0'', acc_balance = 900000, acc_block_count = 0, acc_is_validator = False\<rparr>)]\<rparr>"

definition vote_request :: send_request where
  "vote_request =
     \<lparr>rq_from = None, rq_target = ''LOST'', rq_amount = 0, rq_amount_cil = Some 5000, rq_signature = None,
      rq_public_key = None, rq_previous = None, rq_work = Some 0, rq_timestamp = None, rq_fee = None\<rparr>"

definition vote_block :: block where
  "vote_block =
     \<lparr>blk_account = ''LOSN'', blk_previous = ''0'', blk_type = Send, blk_amount = 5000, blk_link = ''LOST'',
      blk_signature = [CHR 0x01], blk_public_key = ''N'', blk_work = 0, blk_timestamp = 100, blk_fee = 100000\<rparr>"

lemma vote_env_simps [simp]:
  "hex_decode vote_env s = Some (as_bytes s)" "hex_encode vote_env b = map (\<lambda>w. char_of (unat w)) b"
  "\<not> mainnet_feature vote_env" "keccak256 vote_env b = [0, 0, 1, of_nat (length b)]"
  "dilithium_pk_valid vote_env b" "dilithium_sig_valid vote_env b" "dilithium_verify vote_env b c d"
  "public_key_to_address vote_env [k] = ''LOS'' @ [char_of (unat k)]"
  by (simp_all add: vote_env_def open_env_def demo_env_def plain_env_def public_key_to_address_def Let_def)

lemma vote_env_checks:
  "starts_with a ''LOS'' \<Longrightarrow> validate_address vote_env a"
  "verify_pow vote_env b"
  "\<not> is_mainnet_build vote_env"
  "length pk \<noteq> 32 \<Longrightarrow> crypto_verify_signature vote_env m s pk"
proof -
  have "hex_decode vote_env (signing_hash vote_env b)
      = Some [0, 0, 1, of_nat (length (signing_bytes vote_env b))]"
    by (simp only: vote_env_simps signing_hash_def as_bytes_char_of)
  then show "verify_pow vote_env b"
    by (simp add: verify_pow_def MIN_POW_DIFFICULTY_BITS_def u8_leading_zeros_def upt_rec)
qed (simp_all add: validate_address_def vote_env_def open_env_def address_checksum_def is_mainnet_build_def CHAIN_ID_def
      crypto_verify_signature_def verify_dilithium5_def demo_env_def plain_env_def)

lemma vote_hash:
  "calculate_hash vote_env b
    = [CHR 0x00, CHR 0x00, CHR 0x01, char_of (unat (of_nat (4 + length (blk_signature b)) :: u8))]"
  by (simp add: calculate_hash_def signing_hash_def char_of_def bit_0)

lemma vote_config: "should_enable_consensus (get_testnet_config vote_env (ne_level vote_node_env))" "ne_env vote_node_env = vote_env"
    "ne_address vote_node_env = ''LOSN''"
  by (simp_all add: vote_node_env_def demo_node_env_def get_testnet_config_def vote_env_checks config_consensus_testing_def
      should_enable_consensus_def)

lemma vote_queued:
  "\<exists>r nd. handle_send vote_node_env demo_clock vote_request (demo_node vote_ledger) = (r, nd)
     \<and> nd_ledger nd = vote_ledger \<and> nd_send_voters nd = []
     \<and> nd_pending_sends nd = [(calculate_hash vote_env vote_block, (vote_block, 0))]"
proof -
  let ?nd = "demo_node vote_ledger"
  obtain el where el: "check_and_record 0 ''LOSN'' (nd_send_limiter ?nd) = (Ok (), el)"
    by (simp add: check_and_record_def demo_node_def endpoint_limiter_new_def el_cleanup_def el_recent_def)
  obtain aw where aw: "aw_register_transaction 100 ''LOSN'' (ucast BASE_FEE_CIL) (nd_anti_whale ?nd) = (Ok 100000, aw)"
    by (simp add: aw_register_transaction_def demo_node_def anti_whale_new_def anti_whale_config_new_def
        activity_entry_def maybe_reset_activity_def window_over_def BASE_FEE_CIL_def saturating_mul_def checked_mul_def Let_def
        saturating_sub_def checked_sub_def ACTIVITY_WINDOW_SECS_def)
  have tgt: "send_target vote_env ''LOST'' (nd_ledger ?nd) = Some (Some ''LOST'')"
    by (simp add: send_target_def demo_node_def vote_ledger_def bt_keys_def get_short_addr_def vote_env_checks starts_with_def)
  have st: "bt_get (accounts (nd_ledger ?nd)) ''LOSN''
      = Some \<lparr>acc_head = ''0'', acc_balance = 900000, acc_block_count = 0, acc_is_validator = False\<rparr>"
    by (simp add: demo_node_def vote_ledger_def)
  let ?d = "draft_send demo_clock vote_request ''LOSN'' ''LOST'' 5000 ''N''"
  have sg: "sign_send vote_node_env vote_request (?d\<lparr>blk_previous := ''0'', blk_fee := 100000\<rparr>) = Ok vote_block"
    by (simp add: sign_send_def vote_request_def vote_config vote_env_checks draft_send_def option_or_def try_sign_hex_def)
      (simp add: vote_node_env_def demo_node_env_def vote_block_def char_of_def bit_0)
  have d: "blk_account ?d = ''LOSN''" "blk_amount ?d = 5000" by (simp_all add: draft_send_def)
  have rq: "rq_signature vote_request = None" "rq_previous vote_request = None" "rq_work vote_request = Some 0"
    by (simp_all add: vote_request_def)
  have pt: "pending_total ''LOSN'' (?nd\<lparr>nd_send_limiter := el, nd_anti_whale := aw\<rparr>) = 0"
    by (simp add: pending_total_def demo_node_def bt_values_def)
  have "send_from vote_node_env demo_clock vote_request ?d (?nd\<lparr>nd_send_limiter := el\<rparr>)
      = send_queue vote_node_env demo_clock vote_block (900000 div CIL_PER_LOS) 100000
          (?nd\<lparr>nd_send_limiter := el, nd_anti_whale := aw\<rparr>)"
    using st aw sg
    by (simp add: send_from_def d rq pt send_block_def vote_config BASE_FEE_CIL_def Let_def)
  then have "handle_send vote_node_env demo_clock vote_request ?nd
      = send_queue vote_node_env demo_clock vote_block (900000 div CIL_PER_LOS) 100000
          (?nd\<lparr>nd_send_limiter := el, nd_anti_whale := aw\<rparr>)"
    using el tgt
    by (simp add: handle_send_def send_to_def vote_config vote_env_checks starts_with_def option_or_def vote_request_def)
      (simp add: vote_node_env_def demo_node_env_def char_of_def bit_0)
  then show ?thesis
    by (simp add: send_queue_def Let_def vote_config) (simp add: demo_node_def)
qed

definition vote_msg :: "char \<Rightarrow> string" where
  "vote_msg c = ''CONFIRM_RES:'' @ calculate_hash vote_env vote_block @ '':LOSN:YES:LOS'' @ [c] @ '':1:s:'' @ [c]"

lemma vote_msg_parts:
  assumes "c \<noteq> CHR '':''"
  shows "str_split (CHR '':'') (vote_msg c)
    = [''CONFIRM_RES'', calculate_hash vote_env vote_block, ''LOSN'', ''YES'', ''LOS'' @ [c], ''1'', ''s'', [c]]"
  using assms by (simp add: vote_msg_def vote_hash vote_block_def char_of_def bit_0)

lemma vote_msg_authentic:
  assumes "c \<noteq> CHR '':''"
  shows "vote_authentic vote_env (str_split (CHR '':'') (vote_msg c))"
proof -
  have "map (\<lambda>w. char_of (unat w)) (as_bytes [c]) = [c]"
    by (simp add: as_bytes_def unat_of_char)
  then show ?thesis
    by (simp add: vote_msg_parts [OF assms] vote_authentic_def vote_env_checks hex_decode_or_empty_def as_bytes_def)
qed

lemma first_vote:
  assumes "nd_ledger nd = vote_ledger" "nd_send_voters nd = []"
    "nd_pending_sends nd = [(calculate_hash vote_env vote_block, (vote_block, 0))]"
  shows "\<exists>n nd'. handle_confirm_res vote_node_env demo_clock (vote_msg (CHR ''A'')) nd = Some nd' \<and> nd_ledger nd' = vote_ledger
    \<and> nd_send_voters nd' = [(calculate_hash vote_env vote_block, [''LOSA''])]
    \<and> nd_pending_sends nd' = [(calculate_hash vote_env vote_block, (vote_block, n))] \<and> 20000 \<le> n"
proof -
  let ?p = "calculate_voting_power 100000000000000"
  have t: "20000 \<le> ?p * 1000"
    using one_validator_reaches_threshold [of 100000000000000] by (simp add: MIN_STAKE_CIL_def SEND_CONSENSUS_THRESHOLD_def)
  then have "?p \<noteq> 0" by auto
  then have "?p > 0" by (simp add: word_gt_0)
  then have "count_vote vote_node_env demo_clock (calculate_hash vote_env vote_block) ''LOSA'' nd
      = Some (nd\<lparr>nd_send_voters := [(calculate_hash vote_env vote_block, [''LOSA''])],
                nd_pending_sends := [(calculate_hash vote_env vote_block, (vote_block, ?p * 1000))]\<rparr>)"
    using assms by (simp add: count_vote_def option_or_def printable_def get_short_addr_def vote_ledger_def min_voters_def vote_config
        MIN_DISTINCT_VOTERS_def)
  moreover have "handle_confirm_res vote_node_env demo_clock (vote_msg (CHR ''A'')) nd
      = count_vote vote_node_env demo_clock (calculate_hash vote_env vote_block) ''LOSA'' nd"
    using assms(3) vote_msg_authentic [of "CHR ''A''"]
    by (simp add: handle_confirm_res_def vote_config vote_msg_parts bt_contains_def)
  ultimately show ?thesis using assms(1) t by auto
qed

lemma vote_applied:
  "\<exists>L. process_block vote_env 100 vote_block vote_ledger = (Ok (Applied (calculate_hash vote_env vote_block)), L)"
proof -
  have b: "blk_account vote_block = ''LOSN''" "blk_previous vote_block = ''0''" "blk_type vote_block = Send"
      "blk_amount vote_block = 5000" "blk_public_key vote_block = ''N''" "blk_timestamp vote_block = 100" "blk_fee vote_block = 100000"
    by (simp_all add: vote_block_def)
  have s: "verify_signature vote_env vote_block"
    by (simp add: verify_signature_def vote_block_def vote_env_checks hex_decode_or_empty_def as_bytes_def)
  have o: "check_owner vote_env vote_block = None"
    by (simp add: check_owner_def b as_bytes_def char_of_def bit_0)
  have n: "bt_contains (blocks vote_ledger) h = False" for h by (simp add: vote_ledger_def ledger_new_def bt_contains_def)
  have a: "bt_contains (accounts vote_ledger) ''LOSN''" "acc_head (account_or_default vote_ledger ''LOSN'') = ''0''"
      "acc_balance (account_or_default vote_ledger ''LOSN'') = 900000"
    by (simp_all add: vote_ledger_def bt_contains_def account_or_default_def)
  have t: "check_timestamp 100 vote_block vote_ledger = None" by (simp add: check_timestamp_def b MAX_TIMESTAMP_DRIFT_SECS_def)
  have d: "checked_add 5000 100000 = Some (105000 :: u128)" by (simp add: checked_add_def)
  have tx: "process_transaction vote_env vote_block st vote_ledger = (Ok (st\<lparr>acc_balance := 795000\<rparr>),
      vote_ledger\<lparr>accumulated_fees_cil := saturating_add (accumulated_fees_cil vote_ledger) 100000\<rparr>)"
    if "acc_balance st = 900000" for st
    using that d by (simp add: process_transaction_def process_send_def debit_with_fee_def b MIN_TX_FEE_CIL_def)
  show ?thesis
    using tx [OF a(3)] by (simp add: process_block_def vote_env_checks s o n a b t Let_def)
qed

lemma second_vote:
  assumes "nd_ledger nd = vote_ledger" "nd_send_voters nd = [(calculate_hash vote_env vote_block, [''LOSA''])]"
    "nd_pending_sends nd = [(calculate_hash vote_env vote_block, (vote_block, n))]" "20000 \<le> n"
  shows "\<exists>nd'. handle_confirm_res vote_node_env demo_clock (vote_msg (CHR ''B'')) nd = Some nd' \<and> nd_ledger nd' \<noteq> vote_ledger"
proof -
  let ?h = "calculate_hash vote_env vote_block"
  let ?nd = "nd\<lparr>nd_send_voters := bt_insert ?h ([''LOSA''] @ [''LOSB'']) (nd_send_voters nd),
      nd_pending_sends := bt_insert ?h (vote_block, n) (nd_pending_sends nd)\<rparr>"
  have run: "handle_confirm_res vote_node_env demo_clock (vote_msg (CHR ''B'')) nd = finalize_send vote_node_env demo_clock ?h vote_block ?nd"
    by (rule completing_vote [where pw = 0 and votes = n])
      (use assms vote_msg_authentic [of "CHR ''B''"] in \<open>simp_all add: vote_msg_parts vote_config option_or_def printable_def get_short_addr_def
        account_or_default_def vote_ledger_def calculate_voting_power_def MIN_STAKE_CIL_def send_threshold_def
        SEND_CONSENSUS_THRESHOLD_def min_voters_def MIN_DISTINCT_VOTERS_def\<close>)
  obtain L where L: "process_block vote_env 100 vote_block vote_ledger = (Ok (Applied ?h), L)" using vote_applied by blast
  define L1 where "L1 = ensure_account ''LOST'' (auto_unregister ''LOSN'' L)"
  obtain recv where r: "auto_receive vote_node_env demo_clock ''LOST'' ?h 5000 L1 = Some recv" "blk_signature recv \<noteq> []"
    by (simp add: auto_receive_def try_sign_hex_def Let_def vote_config) (simp add: vote_node_env_def demo_node_env_def)
  have b: "blk_account vote_block = ''LOSN''" "blk_link vote_block = ''LOST''" "blk_amount vote_block = 5000" "blk_type vote_block = Send"
    by (simp_all add: vote_block_def)
  have p: "printable [''LOSN'']" "printable [''LOST'']" by (simp_all add: printable_def get_short_addr_def)
  have "\<exists>nd'. apply_pending vote_node_env demo_clock vote_block ?nd = Some nd'
      \<and> nd_ledger nd' = direct_credit recv (calculate_hash vote_env recv) L1"
    using L r p by (simp add: apply_pending_def vote_config assms(1) b unregister_sender_def credit_recipient_def Let_def L1_def)
  then obtain nd' where nd': "apply_pending vote_node_env demo_clock vote_block ?nd = Some nd'"
      "nd_ledger nd' = direct_credit recv (calculate_hash vote_env recv) L1" by blast
  have "bt_get (blocks (nd_ledger nd')) (calculate_hash vote_env recv) = Some recv" by (simp add: nd'(2))
  moreover have "bt_get (blocks vote_ledger) (calculate_hash vote_env recv) = None" by (simp add: vote_ledger_def ledger_new_def)
  ultimately have "nd_ledger nd' \<noteq> vote_ledger" by auto
  then show ?thesis unfolding run finalize_send_def nd'(1) by simp
qed


section \<open>A message that ends the node\<close>

text \<open>
  Refusing a vote with a bad signature prints the short form of the address it names. An address with a
  two-byte character at its fourth byte makes the slice panic.
\<close>

lemma refused_vote_ends_node:
  assumes "length (str_split (CHR '':'') data) = 8" "\<not> vote_authentic (ne_env ne) (str_split (CHR '':'') data)"
    and "str_split (CHR '':'') data ! 4 = ''LO'' @ [CHR 0xC3, CHR 0xA9] @ rest" "8 \<le> length rest"
  shows "handle_confirm_res ne ck data nd = None"
proof -
  have "get_short_addr (''LO'' @ [CHR 0xC3, CHR 0xA9] @ rest) = None"
    using assms(4) by (simp add: get_short_addr_def is_char_boundary_def numeral_3_eq_3)
  then show ?thesis using assms(1-3) by (simp add: handle_confirm_res_def printable_def)
qed

end
