(* ===== verification/RateLimiter.thy ===== *)
theory RateLimiter
  imports BTree_Map
begin

text \<open>
  The token-bucket rate limiter of the REST interface (\<open>los-node/src/rate_limiter.rs\<close>). Instants are
  nanoseconds of the monotonic clock, given as the argument \<open>now\<close>; addresses are any ordered type. The
  mutexes serialise the calls, so a sequence of calls is a list. The \<open>warp\<close> filters around it are not
  modelled. Shown here: over any sequence of requests an address is admitted at most its burst plus the
  configured rate times the elapsed time, whatever the other addresses do and although idle buckets are
  dropped.
\<close>

section \<open>State and operations\<close>

definition MILLITOKEN :: u64 where
  "MILLITOKEN = 1000"

abbreviation nanos_per_milli :: nat where
  "nanos_per_milli \<equiv> 1000000"

abbreviation nanos_per_sec :: nat where
  "nanos_per_sec \<equiv> 1000000000"

record token_bucket =
  tb_tokens_milli :: u64
  tb_last_refill :: nat

record 'ip rate_limiter =
  rl_buckets :: "('ip, token_bucket) btree_map"
  rl_max_tokens_milli :: u64
  rl_refill_rate :: u32
  rl_cleanup_interval :: nat
  rl_last_cleanup :: nat

definition rate_limiter_new :: "u32 \<Rightarrow> u32 option \<Rightarrow> nat \<Rightarrow> 'ip rate_limiter" where
  "rate_limiter_new requests_per_second burst_size now =
     (let max_tokens = (case burst_size of Some b \<Rightarrow> b | None \<Rightarrow> requests_per_second * 2)
      in \<lparr>rl_buckets = [], rl_max_tokens_milli = ucast max_tokens * MILLITOKEN,
          rl_refill_rate = requests_per_second, rl_cleanup_interval = 300 * nanos_per_sec,
          rl_last_cleanup = now\<rparr>)"

definition cleanup_if_needed :: "nat \<Rightarrow> 'ip rate_limiter \<Rightarrow> 'ip rate_limiter" where
  "cleanup_if_needed now rl =
     (if rl_cleanup_interval rl \<le> now - rl_last_cleanup rl then
        rl\<lparr>rl_buckets := filter (\<lambda>e. now - tb_last_refill (snd e) < 600 * nanos_per_sec) (rl_buckets rl),
           rl_last_cleanup := now\<rparr>
      else rl)"

definition check_rate_limit :: "nat \<Rightarrow> 'ip::linorder \<Rightarrow> 'ip rate_limiter \<Rightarrow> bool \<times> 'ip rate_limiter" where
  "check_rate_limit now ip rl =
     (let rl = cleanup_if_needed now rl;
          bucket = (case bt_get (rl_buckets rl) ip of
              Some b \<Rightarrow> b
            | None \<Rightarrow> \<lparr>tb_tokens_milli = rl_max_tokens_milli rl, tb_last_refill = now\<rparr>);
          elapsed_ms = of_nat ((now - tb_last_refill bucket) div nanos_per_milli);
          tokens_to_add_milli = elapsed_ms * ucast (rl_refill_rate rl);
          tokens = min (tb_tokens_milli bucket + tokens_to_add_milli) (rl_max_tokens_milli rl);
          allowed = (tokens \<ge> MILLITOKEN);
          bucket = \<lparr>tb_tokens_milli = (if allowed then tokens - MILLITOKEN else tokens), tb_last_refill = now\<rparr>
      in (allowed, rl\<lparr>rl_buckets := bt_insert ip bucket (rl_buckets rl)\<rparr>))"

definition get_tokens_milli :: "'ip \<Rightarrow> 'ip rate_limiter \<Rightarrow> u64 option" where
  "get_tokens_milli ip rl = map_option tb_tokens_milli (bt_get (rl_buckets rl) ip)"

definition tracked_ips :: "'ip rate_limiter \<Rightarrow> nat" where
  "tracked_ips rl = length (rl_buckets rl)"

definition reset_ip :: "'ip \<Rightarrow> 'ip rate_limiter \<Rightarrow> 'ip rate_limiter" where
  "reset_ip ip rl = rl\<lparr>rl_buckets := bt_remove ip (rl_buckets rl)\<rparr>"

definition reset_all :: "'ip rate_limiter \<Rightarrow> 'ip rate_limiter" where
  "reset_all rl = rl\<lparr>rl_buckets := []\<rparr>"

section \<open>Requests in sequence\<close>

text \<open>Requests with their times; the number of those of one address that are admitted.\<close>

fun admitted :: "'ip::linorder \<Rightarrow> (nat \<times> 'ip) list \<Rightarrow> 'ip rate_limiter \<Rightarrow> nat" where
  "admitted ip [] rl = 0"
| "admitted ip ((now, from_ip) # reqs) rl =
     (let (allowed, rl') = check_rate_limit now from_ip rl
      in (if allowed \<and> from_ip = ip then 1 else 0) + admitted ip reqs rl')"

text \<open>
  The tokens an address could spend now, in nanosecond units: a bucket that was dropped counts as full.
  The limiter's clock never runs ahead of \<open>now\<close>.
\<close>

definition credit_at :: "nat \<Rightarrow> 'ip \<Rightarrow> 'ip rate_limiter \<Rightarrow> nat" where
  "credit_at now ip rl =
     (case bt_get (rl_buckets rl) ip of
        None \<Rightarrow> unat (rl_max_tokens_milli rl) * nanos_per_milli
      | Some b \<Rightarrow> unat (tb_tokens_milli b) * nanos_per_milli + unat (rl_refill_rate rl) * (now - tb_last_refill b))"

definition same_config :: "'ip rate_limiter \<Rightarrow> 'ip rate_limiter \<Rightarrow> bool" where
  "same_config rl rl' \<longleftrightarrow> rl_max_tokens_milli rl' = rl_max_tokens_milli rl \<and> rl_refill_rate rl' = rl_refill_rate rl"

definition refills_when_idle :: "'ip rate_limiter \<Rightarrow> bool" where
  "refills_when_idle rl \<longleftrightarrow> unat (rl_max_tokens_milli rl) \<le> 600000 * unat (rl_refill_rate rl)"

lemma bt_get_filter:
  assumes "bt_ok m"
  shows "bt_get (filter P m) k = (case bt_get m k of Some v \<Rightarrow> if P (k, v) then Some v else None | None \<Rightarrow> None)"
  using assms
proof (induction m)
  case (Cons e es)
  have "bt_get es k = None" if "fst e = k" using that Cons.prems by (intro bt_get_absent) (auto simp: bt_ok_Cons)
  with Cons show ?case by (cases e) (auto simp: bt_ok_Cons split: option.splits)
qed simp

lemma cleanup_facts:
  assumes "bt_ok (rl_buckets rl)"
  shows "bt_ok (rl_buckets (cleanup_if_needed now rl))" "same_config rl (cleanup_if_needed now rl)"
    and "refills_when_idle rl \<Longrightarrow> credit_at now ip (cleanup_if_needed now rl) \<le> credit_at now ip rl"
proof -
  show "bt_ok (rl_buckets (cleanup_if_needed now rl))" "same_config rl (cleanup_if_needed now rl)"
    using assms by (simp_all add: cleanup_if_needed_def same_config_def bt_ok_filter)
  assume full: "refills_when_idle rl"
  have "unat (rl_max_tokens_milli rl) * nanos_per_milli \<le> unat (rl_refill_rate rl) * d" if "600 * nanos_per_sec \<le> d" for d
  proof -
    have "unat (rl_max_tokens_milli rl) * nanos_per_milli \<le> unat (rl_refill_rate rl) * (600 * nanos_per_sec)"
      using full by (simp add: refills_when_idle_def)
    also have "\<dots> \<le> unat (rl_refill_rate rl) * d" using that by (rule mult_le_mono2)
    finally show ?thesis .
  qed
  then show "credit_at now ip (cleanup_if_needed now rl) \<le> credit_at now ip rl"
    using bt_get_filter [OF assms] by (auto simp: cleanup_if_needed_def credit_at_def not_less le_add2 trans_le_add2 split: option.split)
qed

lemma refill_bound:
  fixes tok :: u64 and rate :: u32
  shows "unat (tok + of_nat (d div nanos_per_milli) * ucast rate) * nanos_per_milli \<le>
    unat tok * nanos_per_milli + unat rate * d"
proof -
  let ?e = "of_nat (d div nanos_per_milli) :: u64"
  have "unat (tok + ?e * ucast rate) \<le> unat tok + unat (?e * ucast rate)"
    by (simp add: unat_word_ariths(1))
  also have "unat (?e * ucast rate) \<le> unat ?e * unat (ucast rate :: u64)" by (rule unat_mult_le)
  also have "unat ?e \<le> d div nanos_per_milli" by (simp add: unat_of_nat)
  also have "unat (ucast rate :: u64) = unat rate" by (simp add: rust_arith)
  finally have "unat (tok + ?e * ucast rate) \<le> unat tok + d div nanos_per_milli * unat rate" by simp
  then have "unat (tok + ?e * ucast rate) * nanos_per_milli \<le>
      unat tok * nanos_per_milli + unat rate * (d div nanos_per_milli * nanos_per_milli)"
    by (simp add: algebra_simps)
  also have "\<dots> \<le> unat tok * nanos_per_milli + unat rate * d" by (simp add: div_times_less_eq_dividend)
  finally show ?thesis .
qed

lemma check_rate_limit_credit:
  assumes "bt_ok (rl_buckets rl)" "refills_when_idle rl" "check_rate_limit now from_ip rl = (allowed, rl')"
  shows "bt_ok (rl_buckets rl')" "same_config rl rl'"
    and "credit_at now ip rl' + (if allowed \<and> from_ip = ip then nanos_per_sec else 0) \<le> credit_at now ip rl"
proof -
  let ?c = "cleanup_if_needed now rl"
  note clean = cleanup_facts [OF assms(1), of now]
  show "bt_ok (rl_buckets rl')" "same_config rl rl'"
    using assms(3) clean(1,2) by (auto simp: check_rate_limit_def Let_def same_config_def)
  have step: "credit_at now ip rl' + (if allowed \<and> from_ip = ip then nanos_per_sec else 0) \<le> credit_at now ip ?c"
  proof (cases "from_ip = ip")
    case False
    obtain b where "rl' = ?c\<lparr>rl_buckets := bt_insert from_ip b (rl_buckets ?c)\<rparr>"
      using assms(3) by (auto simp: check_rate_limit_def Let_def)
    with False show ?thesis by (simp add: credit_at_def split: option.split)
  next
    case True
    obtain tok l where b: "(case bt_get (rl_buckets ?c) ip of Some b \<Rightarrow> b
        | None \<Rightarrow> \<lparr>tb_tokens_milli = rl_max_tokens_milli ?c, tb_last_refill = now\<rparr>) =
        \<lparr>tb_tokens_milli = tok, tb_last_refill = l\<rparr>" by (metis token_bucket.cases)
    let ?e = "of_nat ((now - l) div nanos_per_milli) :: u64"
    define x where "x = min (tok + ?e * ucast (rl_refill_rate ?c)) (rl_max_tokens_milli ?c)"
    have before: "unat tok * nanos_per_milli + unat (rl_refill_rate ?c) * (now - l) = credit_at now ip ?c"
      using b by (auto simp: credit_at_def split: option.splits)
    have "unat x \<le> unat (tok + ?e * ucast (rl_refill_rate ?c))" by (simp add: x_def unat_mono min_def word_le_nat_alt)
    then have x: "unat x * nanos_per_milli \<le> credit_at now ip ?c"
      unfolding before [symmetric] by (rule le_trans [OF mult_le_mono1 refill_bound])
    have res: "allowed = (MILLITOKEN \<le> x)"
      "rl' = ?c\<lparr>rl_buckets := bt_insert ip \<lparr>tb_tokens_milli = (if allowed then x - MILLITOKEN else x), tb_last_refill = now\<rparr>
         (rl_buckets ?c)\<rparr>"
      using assms(3) True b by (auto simp: check_rate_limit_def Let_def x_def)
    have "credit_at now ip rl' + (if allowed then nanos_per_sec else 0) = unat x * nanos_per_milli"
      using res by (auto simp: credit_at_def unat_sub_exact word_le_nat_alt MILLITOKEN_def diff_mult_distrib)
    then show ?thesis using x True by simp
  qed
  show "credit_at now ip rl' + (if allowed \<and> from_ip = ip then nanos_per_sec else 0) \<le> credit_at now ip rl"
    using step clean(3) [OF assms(2), of ip] by (rule le_trans)
qed

lemma credit_time:
  assumes "now \<le> later"
  shows "credit_at later ip rl \<le> credit_at now ip rl + unat (rl_refill_rate rl) * (later - now)"
proof -
  have "unat (rl_refill_rate rl) * (later - l) \<le> unat (rl_refill_rate rl) * (now - l) + unat (rl_refill_rate rl) * (later - now)" for l
    unfolding distrib_left [symmetric] by (rule mult_le_mono2) (use assms in simp)
  then show ?thesis by (auto simp: credit_at_def split: option.split)
qed

lemma admitted_bound:
  assumes "bt_ok (rl_buckets rl)" "refills_when_idle rl" "sorted (t0 # map fst reqs @ [t1])"
  shows "admitted ip reqs rl * nanos_per_sec \<le> credit_at t0 ip rl + unat (rl_refill_rate rl) * (t1 - t0)"
  using assms
proof (induction reqs arbitrary: rl t0)
  case Nil
  then show ?case by simp
next
  case (Cons r reqs)
  obtain now from_ip where r: "r = (now, from_ip)" by (cases r)
  obtain allowed rl' where c: "check_rate_limit now from_ip rl = (allowed, rl')" by (cases "check_rate_limit now from_ip rl")
  note step = check_rate_limit_credit [OF Cons.prems(1,2) c]
  have conf: "refills_when_idle rl'" "rl_refill_rate rl' = rl_refill_rate rl"
    using step(2) Cons.prems(2) by (simp_all add: same_config_def refills_when_idle_def)
  have times: "t0 \<le> now" "now \<le> t1" "sorted (now # map fst reqs @ [t1])" using Cons.prems(3) by (auto simp: r)
  have "admitted ip reqs rl' * nanos_per_sec \<le> credit_at now ip rl' + unat (rl_refill_rate rl) * (t1 - now)"
    using Cons.IH [OF step(1) conf(1) times(3)] conf(2) by simp
  moreover have "credit_at now ip rl \<le> credit_at t0 ip rl + unat (rl_refill_rate rl) * (now - t0)"
    using credit_time [OF times(1)] .
  moreover have "unat (rl_refill_rate rl) * (now - t0) + unat (rl_refill_rate rl) * (t1 - now) = unat (rl_refill_rate rl) * (t1 - t0)"
    using times by (simp flip: distrib_left)
  ultimately have "admitted ip reqs rl' * nanos_per_sec + (if allowed \<and> from_ip = ip then nanos_per_sec else 0) \<le>
      credit_at t0 ip rl + unat (rl_refill_rate rl) * (t1 - t0)"
    using step(3) [of ip] by linarith
  then show ?case by (auto simp: r c)
qed

text \<open>C18: for a limiter with at most 600 seconds of burst, however requests of all addresses are
  interleaved over time, the requests of one address admitted between the limiter's start and a later
  time are at most the burst plus the rate times the elapsed time (here in billionths of a request).
  Dropped buckets and wrap-around of the 64-bit refill never admit more.\<close>

theorem rate_limit_is_enforced:
  fixes ip :: "'ip::linorder"
  assumes "sorted (t0 # map fst reqs @ [t1])" "unat burst \<le> 600 * unat rps"
  shows "admitted ip reqs (rate_limiter_new rps (Some burst) t0) * 1000000000 \<le>
    unat burst * 1000000000 + unat rps * (t1 - t0)"
proof -
  let ?rl = "rate_limiter_new rps (Some burst) t0 :: 'ip rate_limiter"
  have "unat (ucast burst * MILLITOKEN) = unat burst * 1000"
  proof -
    have "unat burst * 1000 < 2 ^ 64" using unat_less_exp [of burst] by simp
    then show ?thesis
      using unat_mult_exact [of "ucast burst :: u64" MILLITOKEN] by (simp add: MILLITOKEN_def rust_arith)
  qed
  then have conf: "unat (rl_max_tokens_milli ?rl) = unat burst * 1000" "rl_refill_rate ?rl = rps" "rl_buckets ?rl = []"
    by (simp_all add: rate_limiter_new_def Let_def)
  have "admitted ip reqs ?rl * nanos_per_sec \<le> credit_at t0 ip ?rl + unat (rl_refill_rate ?rl) * (t1 - t0)"
    by (rule admitted_bound) (use assms in \<open>simp_all add: conf refills_when_idle_def\<close>)
  then show ?thesis by (simp add: credit_at_def conf)
qed

theorem rate_limit_is_enforced_witness:
  "admitted (7 :: nat) [(0, 7), (1, 8), (5, 7), (9, 7)] (rate_limiter_new 1 (Some 2) 0) * 1000000000 \<le>
    2 * 1000000000 + 1 * (10 - 0)"
  using rate_limit_is_enforced [of 0 "[(0, 7), (1, 8), (5, 7), (9, 7)]" 10 2 1 "7 :: nat"] by simp

end
