(* ===== verification/Utf8.thy ===== *)
theory Utf8
  imports Los_Strings
begin

text \<open>
  UTF-8 as the Rust standard library checks it. \<open>utf8_scan\<close> is one step of the scanner behind
  \<open>String::from_utf8\<close> and \<open>String::from_utf8_lossy\<close>: it reads one character or one maximal broken piece
  of a byte sequence. The first function accepts a sequence of characters only, the second replaces every
  broken piece by the replacement character U+FFFD.
\<close>

section \<open>Bytes and strings\<close>

definition string_of_bytes :: "bytes \<Rightarrow> string" where
  "string_of_bytes bs = map (\<lambda>b. char_of (unat b)) bs"

lemma length_string_of_bytes [simp]: "length (string_of_bytes bs) = length bs"
  by (simp add: string_of_bytes_def)

lemma of_char_char_of_byte: "(of_char (char_of (unat (b :: u8))) :: u8) = b"
proof -
  have "unat b < 256"
    using unat_less_exp [of b] by simp
  then have "unat (of_char (char_of (unat b)) :: u8) = unat b"
    by (simp add: unat_of_char)
  then show ?thesis
    by (simp add: word_unat_eq_iff)
qed

lemma as_bytes_string_of_bytes [simp]: "as_bytes (string_of_bytes bs) = bs"
  by (induction bs) (simp_all add: string_of_bytes_def as_bytes_def of_char_char_of_byte)

lemma string_of_bytes_as_bytes [simp]: "string_of_bytes (as_bytes s) = s"
  by (metis as_bytes_inject as_bytes_string_of_bytes)

section \<open>The scanner\<close>

text \<open>\<open>safe_get\<close>: the byte at an index, 0 past the end.\<close>

definition safe_get :: "bytes \<Rightarrow> nat \<Rightarrow> u8" where
  "safe_get bs i = (if i < length bs then bs ! i else 0)"

definition is_cont :: "u8 \<Rightarrow> bool" where
  "is_cont b = (0x80 \<le> b \<and> b \<le> 0xBF)"

text \<open>The second byte that may follow a leading byte of a three-byte or four-byte character.\<close>

definition second_of_three :: "u8 \<Rightarrow> u8 \<Rightarrow> bool" where
  "second_of_three b c =
     (if b = 0xE0 then 0xA0 \<le> c \<and> c \<le> 0xBF
      else if b = 0xED then 0x80 \<le> c \<and> c \<le> 0x9F
      else is_cont c)"

definition second_of_four :: "u8 \<Rightarrow> u8 \<Rightarrow> bool" where
  "second_of_four b c =
     (if b = 0xF0 then 0x90 \<le> c \<and> c \<le> 0xBF
      else if b = 0xF4 then 0x80 \<le> c \<and> c \<le> 0x8F
      else is_cont c)"

text \<open>
  Reads the head of a non-empty sequence: whether it is a character, and the number of bytes read, which is
  the width of the character or the length of the broken piece.
\<close>

definition utf8_scan :: "bytes \<Rightarrow> bool \<times> nat" where
  "utf8_scan bs =
     (let b = safe_get bs 0 in
      if b < 0x80 then (True, 1)
      else if 0xC2 \<le> b \<and> b \<le> 0xDF then
        (if is_cont (safe_get bs 1) then (True, 2) else (False, 1))
      else if 0xE0 \<le> b \<and> b \<le> 0xEF then
        (if \<not> second_of_three b (safe_get bs 1) then (False, 1)
         else if is_cont (safe_get bs 2) then (True, 3) else (False, 2))
      else if 0xF0 \<le> b \<and> b \<le> 0xF4 then
        (if \<not> second_of_four b (safe_get bs 1) then (False, 1)
         else if \<not> is_cont (safe_get bs 2) then (False, 2)
         else if is_cont (safe_get bs 3) then (True, 4) else (False, 3))
      else (False, 1))"

lemma utf8_scan_positive: "0 < snd (utf8_scan bs)"
  by (simp add: utf8_scan_def Let_def)

lemma utf8_scan_ascii: "b < 0x80 \<Longrightarrow> utf8_scan (b # bs) = (True, 1)"
  by (simp add: utf8_scan_def safe_get_def)

function utf8_valid :: "bytes \<Rightarrow> bool" where
  "utf8_valid bs =
     (if bs = [] then True
      else fst (utf8_scan bs) \<and> utf8_valid (drop (snd (utf8_scan bs)) bs))"
  by auto

termination utf8_valid
  by (relation "measure length") (auto simp: utf8_scan_positive)

definition replacement_character :: bytes where
  "replacement_character = [0xEF, 0xBF, 0xBD]"

function lossy_bytes :: "bytes \<Rightarrow> bytes" where
  "lossy_bytes bs =
     (if bs = [] then []
      else (if fst (utf8_scan bs) then take (snd (utf8_scan bs)) bs else replacement_character)
           @ lossy_bytes (drop (snd (utf8_scan bs)) bs))"
  by auto

termination lossy_bytes
  by (relation "measure length") (auto simp: utf8_scan_positive)

declare utf8_valid.simps [simp del] lossy_bytes.simps [simp del]

definition from_utf8 :: "bytes \<Rightarrow> string option" where
  "from_utf8 bs = (if utf8_valid bs then Some (string_of_bytes bs) else None)"

definition from_utf8_lossy :: "bytes \<Rightarrow> string" where
  "from_utf8_lossy bs = string_of_bytes (lossy_bytes bs)"

section \<open>Laws\<close>

lemma utf8_valid_Nil [simp]: "utf8_valid []"
  by (simp add: utf8_valid.simps)

lemma lossy_bytes_Nil [simp]: "lossy_bytes [] = []"
  by (simp add: lossy_bytes.simps)

lemma lossy_bytes_valid: "utf8_valid bs \<Longrightarrow> lossy_bytes bs = bs"
proof (induction bs rule: utf8_valid.induct)
  case (1 bs)
  then show ?case
    by (cases "bs = []") (simp_all add: utf8_valid.simps [of bs] lossy_bytes.simps [of bs])
qed

lemma from_utf8_lossy_valid: "utf8_valid bs \<Longrightarrow> from_utf8_lossy bs = string_of_bytes bs"
  by (simp add: from_utf8_lossy_def lossy_bytes_valid)

lemma from_utf8_eq_Some: "from_utf8 bs = Some s \<longleftrightarrow> utf8_valid bs \<and> bs = as_bytes s"
  by (auto simp: from_utf8_def)

lemma utf8_valid_ascii: "\<forall>b \<in> set bs. b < 0x80 \<Longrightarrow> utf8_valid bs"
  by (induction bs) (simp_all add: utf8_valid.simps [of "_ # _"] utf8_scan_ascii)

end
