(* ===== verification/Host_Functions.thy ===== *)
theory Host_Functions
  imports Utf8 Contract_Host Crypto Step_Systems
begin

text \<open>
  The host functions of \<open>los-vm/src/host.rs\<close>: what a WASM guest can do to the data of its call through the
  sixteen imports of module \<open>env\<close>. The guest's linear memory is a byte list, absent when the module exports
  none; the call's data is the record \<open>host_data\<close>. Parameters of the functions are \<open>i32\<close> and \<open>i64\<close> words of
  the guest, which the code reads as unsigned numbers.

  \<open>blake3\<close> and \<open>serde_json\<close> are fields of \<open>vm_env\<close>. The mutex around the data is only poisoned by a thread
  that panics while it holds the lock, which no host function does, so the lock is left out.
\<close>

unbundle bit_operations_syntax

type_synonym i32 = "32 word"
type_synonym i64 = "64 word"

section \<open>Limits\<close>

definition MAX_STATE_VALUE_SIZE :: u32 where "MAX_STATE_VALUE_SIZE = 262144"
definition HOST_MAX_STATE_KEY_SIZE :: u32 where "HOST_MAX_STATE_KEY_SIZE = 1024"
definition MAX_RETURN_DATA_SIZE :: u32 where "MAX_RETURN_DATA_SIZE = 262144"
definition MAX_LOG_SIZE :: u32 where "MAX_LOG_SIZE = 4096"
definition MAX_EVENTS :: nat where "MAX_EVENTS = 256"
definition MAX_TRANSFERS :: nat where "MAX_TRANSFERS = 64"
definition MAX_STATE_KEYS :: nat where "MAX_STATE_KEYS = 1024"
definition MAX_LOGS :: nat where "MAX_LOGS = 256"

section \<open>Data of a call\<close>

record contract_event =
  ev_contract :: string
  ev_event_type :: string
  ev_data :: "(string, string) btree_map"
  ev_timestamp :: u64

record host_data =
  hd_state :: "(string, bytes) btree_map"
  hd_dirty_keys :: "string list"
  hd_events :: "contract_event list"
  hd_transfers :: "(string \<times> u128) list"
  hd_caller :: string
  hd_self_address :: string
  hd_balance :: u128
  hd_timestamp :: u64
  hd_args :: "string list"
  hd_return_data :: bytes
  hd_logs :: "string list"
  hd_aborted :: bool
  hd_abort_message :: string

record host_state =
  hs_memory :: "bytes option"
  hs_inner :: host_data

record vm_env =
  blake3 :: "bytes \<Rightarrow> bytes"
  vm_hex :: "bytes \<Rightarrow> string"
  json_string_map :: "string \<Rightarrow> (string, string) btree_map option"

abbreviation upd_inner :: "(host_data \<Rightarrow> host_data) \<Rightarrow> host_state \<Rightarrow> host_state" where
  "upd_inner f hs \<equiv> hs\<lparr>hs_inner := f (hs_inner hs)\<rparr>"

section \<open>Guest memory\<close>

definition read_guest_bytes :: "host_state \<Rightarrow> u32 \<Rightarrow> u32 \<Rightarrow> bytes option" where
  "read_guest_bytes hs ptr len =
     (if len = 0 then Some []
      else case hs_memory hs of
        None \<Rightarrow> None
      | Some mem \<Rightarrow>
          if unat ptr + unat len \<le> length mem then Some (take (unat len) (drop (unat ptr) mem)) else None)"

definition read_guest_string :: "host_state \<Rightarrow> u32 \<Rightarrow> u32 \<Rightarrow> string option" where
  "read_guest_string hs ptr len =
     (case read_guest_bytes hs ptr len of None \<Rightarrow> None | Some bs \<Rightarrow> from_utf8 bs)"

definition write_guest_bytes :: "host_state \<Rightarrow> u32 \<Rightarrow> bytes \<Rightarrow> u32 \<Rightarrow> i32 \<times> host_state" where
  "write_guest_bytes hs ptr data max_len =
     (case hs_memory hs of
        None \<Rightarrow> (-1, hs)
      | Some mem \<Rightarrow>
          let write_len = min (length data) (unat max_len) in
          if write_len = 0 then (0, hs)
          else if unat ptr + write_len \<le> length mem then
            (of_nat write_len,
             hs\<lparr>hs_memory := Some (take (unat ptr) mem @ take write_len data @ drop (unat ptr + write_len) mem)\<rparr>)
          else (-1, hs))"

section \<open>Host functions\<close>

definition host_log_fn :: "host_state \<Rightarrow> i32 \<Rightarrow> i32 \<Rightarrow> host_state" where
  "host_log_fn hs ptr len =
     (case read_guest_string hs ptr (min len MAX_LOG_SIZE) of
        None \<Rightarrow> hs
      | Some msg \<Rightarrow>
          if length (hd_logs (hs_inner hs)) < MAX_LOGS
          then upd_inner (\<lambda>d. d\<lparr>hd_logs := hd_logs d @ [msg]\<rparr>) hs else hs)"

definition host_abort_fn :: "host_state \<Rightarrow> i32 \<Rightarrow> i32 \<Rightarrow> host_state" where
  "host_abort_fn hs ptr len =
     (let msg = (case read_guest_string hs ptr (min len MAX_LOG_SIZE) of None \<Rightarrow> [] | Some m \<Rightarrow> m) in
      upd_inner (\<lambda>d. d\<lparr>hd_aborted := True, hd_abort_message := msg\<rparr>) hs)"

definition host_set_state_fn :: "host_state \<Rightarrow> i32 \<Rightarrow> i32 \<Rightarrow> i32 \<Rightarrow> i32 \<Rightarrow> host_state" where
  "host_set_state_fn hs key_ptr key_len val_ptr val_len =
     (case read_guest_string hs key_ptr (min key_len HOST_MAX_STATE_KEY_SIZE) of
        None \<Rightarrow> hs
      | Some key \<Rightarrow>
          (case read_guest_bytes hs val_ptr (min val_len MAX_STATE_VALUE_SIZE) of
             None \<Rightarrow> hs
           | Some val \<Rightarrow>
               let dirty = hd_dirty_keys (hs_inner hs) in
               if MAX_STATE_KEYS \<le> length dirty \<and> key \<notin> set dirty then hs
               else upd_inner (\<lambda>d. d\<lparr>hd_state := bt_insert key val (hd_state d),
                                     hd_dirty_keys := List.insert key dirty\<rparr>) hs))"

definition host_get_state_fn :: "host_state \<Rightarrow> i32 \<Rightarrow> i32 \<Rightarrow> i32 \<Rightarrow> i32 \<Rightarrow> i32 \<times> host_state" where
  "host_get_state_fn hs key_ptr key_len out_ptr out_max =
     (case read_guest_string hs key_ptr (min key_len HOST_MAX_STATE_KEY_SIZE) of
        None \<Rightarrow> (-1, hs)
      | Some key \<Rightarrow>
          (case bt_get (hd_state (hs_inner hs)) key of
             None \<Rightarrow> (-1, hs)
           | Some data \<Rightarrow> write_guest_bytes hs out_ptr data out_max))"

definition host_del_state_fn :: "host_state \<Rightarrow> i32 \<Rightarrow> i32 \<Rightarrow> host_state" where
  "host_del_state_fn hs key_ptr key_len =
     (case read_guest_string hs key_ptr (min key_len HOST_MAX_STATE_KEY_SIZE) of
        None \<Rightarrow> hs
      | Some key \<Rightarrow>
          upd_inner (\<lambda>d. d\<lparr>hd_state := bt_remove key (hd_state d),
                           hd_dirty_keys := List.insert key (hd_dirty_keys d)\<rparr>) hs)"

definition host_emit_event_fn :: "vm_env \<Rightarrow> host_state \<Rightarrow> i32 \<Rightarrow> i32 \<Rightarrow> i32 \<Rightarrow> i32 \<Rightarrow> host_state" where
  "host_emit_event_fn ve hs type_ptr type_len data_ptr data_len =
     (case read_guest_string hs type_ptr (min type_len 256) of
        None \<Rightarrow> hs
      | Some event_type \<Rightarrow>
          (case read_guest_string hs data_ptr (min data_len MAX_STATE_VALUE_SIZE) of
             None \<Rightarrow> hs
           | Some data_str \<Rightarrow>
               let data = (case json_string_map ve data_str of None \<Rightarrow> [] | Some m \<Rightarrow> m) in
               if MAX_EVENTS \<le> length (hd_events (hs_inner hs)) then hs
               else upd_inner (\<lambda>d. d\<lparr>hd_events := hd_events d @
                      [\<lparr>ev_contract = hd_self_address d, ev_event_type = event_type, ev_data = data,
                        ev_timestamp = hd_timestamp d\<rparr>]\<rparr>) hs))"

definition transfer_amount :: "i64 \<Rightarrow> i64 \<Rightarrow> u128" where
  "transfer_amount amount_lo amount_hi = push_bit 64 (ucast amount_hi) OR ucast amount_lo"

definition host_transfer_fn :: "host_state \<Rightarrow> i32 \<Rightarrow> i32 \<Rightarrow> i64 \<Rightarrow> i64 \<Rightarrow> i32 \<times> host_state" where
  "host_transfer_fn hs addr_ptr addr_len amount_lo amount_hi =
     (case read_guest_string hs addr_ptr (min addr_len 256) of
        None \<Rightarrow> (2, hs)
      | Some recipient \<Rightarrow>
          if recipient = [] then (2, hs)
          else
            let amount = transfer_amount amount_lo amount_hi; d = hs_inner hs in
            if amount = 0 then (0, hs)
            else if MAX_TRANSFERS \<le> length (hd_transfers d) then (3, hs)
            else if hd_balance d < amount then (1, hs)
            else (0, upd_inner (\<lambda>d. d\<lparr>hd_balance := hd_balance d - amount,
                                       hd_transfers := hd_transfers d @ [(recipient, amount)]\<rparr>) hs))"

definition host_get_caller_fn :: "host_state \<Rightarrow> i32 \<Rightarrow> i32 \<Rightarrow> i32 \<times> host_state" where
  "host_get_caller_fn hs out_ptr out_max =
     write_guest_bytes hs out_ptr (as_bytes (hd_caller (hs_inner hs))) out_max"

definition host_get_self_address_fn :: "host_state \<Rightarrow> i32 \<Rightarrow> i32 \<Rightarrow> i32 \<times> host_state" where
  "host_get_self_address_fn hs out_ptr out_max =
     write_guest_bytes hs out_ptr (as_bytes (hd_self_address (hs_inner hs))) out_max"

definition host_get_balance_lo_fn :: "host_state \<Rightarrow> i64" where
  "host_get_balance_lo_fn hs = ucast (hd_balance (hs_inner hs) AND 0xFFFFFFFFFFFFFFFF)"

definition host_get_balance_hi_fn :: "host_state \<Rightarrow> i64" where
  "host_get_balance_hi_fn hs = ucast (drop_bit 64 (hd_balance (hs_inner hs)))"

definition host_get_timestamp_fn :: "host_state \<Rightarrow> i64" where
  "host_get_timestamp_fn hs = hd_timestamp (hs_inner hs)"

definition host_get_arg_count_fn :: "host_state \<Rightarrow> i32" where
  "host_get_arg_count_fn hs = of_nat (length (hd_args (hs_inner hs)))"

text \<open>\<open>idx as usize\<close> extends the sign of the \<open>i32\<close>, so a negative index is out of range.\<close>

definition host_get_arg_fn :: "host_state \<Rightarrow> i32 \<Rightarrow> i32 \<Rightarrow> i32 \<Rightarrow> i32 \<times> host_state" where
  "host_get_arg_fn hs idx out_ptr out_max =
     (let i = unat (scast idx :: usize); args = hd_args (hs_inner hs) in
      if i < length args then write_guest_bytes hs out_ptr (as_bytes (args ! i)) out_max else (-1, hs))"

definition host_set_return_fn :: "host_state \<Rightarrow> i32 \<Rightarrow> i32 \<Rightarrow> host_state" where
  "host_set_return_fn hs ptr len =
     (case read_guest_bytes hs ptr (min len MAX_RETURN_DATA_SIZE) of
        None \<Rightarrow> hs
      | Some data \<Rightarrow> upd_inner (\<lambda>d. d\<lparr>hd_return_data := data\<rparr>) hs)"

definition host_blake3_fn :: "vm_env \<Rightarrow> host_state \<Rightarrow> i32 \<Rightarrow> i32 \<Rightarrow> i32 \<Rightarrow> i32 \<times> host_state" where
  "host_blake3_fn ve hs data_ptr data_len out_ptr =
     (case read_guest_bytes hs data_ptr (min data_len MAX_STATE_VALUE_SIZE) of
        None \<Rightarrow> (-1, hs)
      | Some data \<Rightarrow> write_guest_bytes hs out_ptr (blake3 ve data) 32)"

section \<open>The import object\<close>

text \<open>\<open>create_host_imports\<close>: the calls a guest can make, and their effect. A value is returned as a word of its type.\<close>

datatype host_call =
    Host_Log i32 i32
  | Host_Abort i32 i32
  | Host_Set_State i32 i32 i32 i32
  | Host_Get_State i32 i32 i32 i32
  | Host_Del_State i32 i32
  | Host_Emit_Event i32 i32 i32 i32
  | Host_Transfer i32 i32 i64 i64
  | Host_Get_Caller i32 i32
  | Host_Get_Self_Address i32 i32
  | Host_Get_Balance_Lo
  | Host_Get_Balance_Hi
  | Host_Get_Timestamp
  | Host_Get_Arg_Count
  | Host_Get_Arg i32 i32 i32
  | Host_Set_Return i32 i32
  | Host_Blake3 i32 i32 i32

datatype host_return = No_Value | Ret32 i32 | Ret64 i64

abbreviation ret32 :: "i32 \<times> host_state \<Rightarrow> host_return \<times> host_state" where
  "ret32 r \<equiv> (Ret32 (fst r), snd r)"

fun host_import :: "vm_env \<Rightarrow> host_call \<Rightarrow> host_state \<Rightarrow> host_return \<times> host_state" where
  "host_import ve (Host_Log p l) hs = (No_Value, host_log_fn hs p l)"
| "host_import ve (Host_Abort p l) hs = (No_Value, host_abort_fn hs p l)"
| "host_import ve (Host_Set_State kp kl vp vl) hs = (No_Value, host_set_state_fn hs kp kl vp vl)"
| "host_import ve (Host_Get_State kp kl op om) hs = ret32 (host_get_state_fn hs kp kl op om)"
| "host_import ve (Host_Del_State kp kl) hs = (No_Value, host_del_state_fn hs kp kl)"
| "host_import ve (Host_Emit_Event tp tn dp dn) hs = (No_Value, host_emit_event_fn ve hs tp tn dp dn)"
| "host_import ve (Host_Transfer ap al lo hi) hs = ret32 (host_transfer_fn hs ap al lo hi)"
| "host_import ve (Host_Get_Caller op om) hs = ret32 (host_get_caller_fn hs op om)"
| "host_import ve (Host_Get_Self_Address op om) hs = ret32 (host_get_self_address_fn hs op om)"
| "host_import ve Host_Get_Balance_Lo hs = (Ret64 (host_get_balance_lo_fn hs), hs)"
| "host_import ve Host_Get_Balance_Hi hs = (Ret64 (host_get_balance_hi_fn hs), hs)"
| "host_import ve Host_Get_Timestamp hs = (Ret64 (host_get_timestamp_fn hs), hs)"
| "host_import ve Host_Get_Arg_Count hs = (Ret32 (host_get_arg_count_fn hs), hs)"
| "host_import ve (Host_Get_Arg i op om) hs = ret32 (host_get_arg_fn hs i op om)"
| "host_import ve (Host_Set_Return p l) hs = (No_Value, host_set_return_fn hs p l)"
| "host_import ve (Host_Blake3 dp dl op) hs = ret32 (host_blake3_fn ve hs dp dl op)"

section \<open>What a guest can do\<close>

text \<open>
  A guest is a sequence of host calls, each with the linear memory at that moment; what the guest computes
  in between is its own business. \<open>guest_calls\<close> is their effect on the data of the call.
\<close>

definition guest_call :: "vm_env \<Rightarrow> bytes option \<times> host_call \<Rightarrow> host_data \<Rightarrow> host_data" where
  "guest_call ve mc d = hs_inner (snd (host_import ve (snd mc) \<lparr>hs_memory = fst mc, hs_inner = d\<rparr>))"

definition guest_calls :: "vm_env \<Rightarrow> (bytes option \<times> host_call) list \<Rightarrow> host_data \<Rightarrow> host_data" where
  "guest_calls ve mcs d = fold (guest_call ve) mcs d"

lemma guest_calls_Nil [simp]: "guest_calls ve [] d = d"
  by (simp add: guest_calls_def)

lemma guest_calls_append: "guest_calls ve (xs @ ys) d = guest_calls ve ys (guest_calls ve xs d)"
  by (simp add: guest_calls_def)

inductive guest_step :: "vm_env \<Rightarrow> host_data \<Rightarrow> host_data \<Rightarrow> bool" for ve where
  guest_step: "guest_step ve d (guest_call ve mc d)"

lemma guest_calls_reach: "(guest_step ve)\<^sup>*\<^sup>* d (guest_calls ve mcs d)"
proof (induction mcs rule: rev_induct)
  case (snoc mc mcs)
  then show ?case
    by (simp add: guest_calls_append) (auto simp: guest_calls_def intro: rtranclp.rtrancl_into_rtrancl guest_step)
qed simp

definition transfer_total :: "(string \<times> u128) list \<Rightarrow> nat" where
  "transfer_total ts = sum_list (map (\<lambda>t. unat (snd t)) ts)"

lemma transfer_total_simps [simp]:
  "transfer_total [] = 0" "transfer_total (ts @ us) = transfer_total ts + transfer_total us"
  "transfer_total (t # ts) = unat (snd t) + transfer_total ts"
  by (simp_all add: transfer_total_def)

text \<open>The balance and the requested transfers always add up to the balance at the start.\<close>

definition funds_ok :: "host_data \<Rightarrow> host_data \<Rightarrow> bool" where
  "funds_ok d0 d \<longleftrightarrow>
     unat (hd_balance d) + transfer_total (hd_transfers d) = unat (hd_balance d0) \<and>
     length (hd_transfers d) \<le> MAX_TRANSFERS \<and>
     (\<forall>t \<in> set (hd_transfers d). fst t \<noteq> [] \<and> snd t \<noteq> 0)"

text \<open>Only keys marked as changed differ from the state at the start.\<close>

definition state_tracked :: "host_data \<Rightarrow> host_data \<Rightarrow> bool" where
  "state_tracked d0 d \<longleftrightarrow>
     bt_ok (hd_state d) \<and> distinct (hd_dirty_keys d) \<and>
     (\<forall>k. k \<notin> set (hd_dirty_keys d) \<longrightarrow> bt_get (hd_state d) k = bt_get (hd_state d0) k)"

text \<open>What the guest learns about its call never changes, and its events carry its address and time.\<close>

definition context_kept :: "host_data \<Rightarrow> host_data \<Rightarrow> bool" where
  "context_kept d0 d \<longleftrightarrow>
     hd_caller d = hd_caller d0 \<and> hd_self_address d = hd_self_address d0 \<and>
     hd_timestamp d = hd_timestamp d0 \<and> hd_args d = hd_args d0 \<and>
     length (hd_events d) \<le> MAX_EVENTS \<and> length (hd_logs d) \<le> MAX_LOGS \<and>
     (\<forall>e \<in> set (hd_events d). ev_contract e = hd_self_address d0 \<and> ev_timestamp e = hd_timestamp d0)"

definition host_inv :: "host_data \<Rightarrow> host_data \<Rightarrow> bool" where
  "host_inv d0 d \<longleftrightarrow> funds_ok d0 d \<and> state_tracked d0 d \<and> context_kept d0 d"

lemma write_guest_bytes_inner [simp]: "hs_inner (snd (write_guest_bytes hs p data m)) = hs_inner hs"
  by (simp add: write_guest_bytes_def Let_def split: option.split)

lemma inner_of_queries [simp]:
  "hs_inner (snd (host_get_state_fn hs kp kl op om)) = hs_inner hs"
  "hs_inner (snd (host_get_caller_fn hs op om)) = hs_inner hs"
  "hs_inner (snd (host_get_self_address_fn hs op om)) = hs_inner hs"
  "hs_inner (snd (host_get_arg_fn hs i op om)) = hs_inner hs"
  "hs_inner (snd (host_blake3_fn ve hs dp dl op)) = hs_inner hs"
  by (simp_all add: host_get_state_fn_def host_get_caller_fn_def host_get_self_address_fn_def
      host_get_arg_fn_def host_blake3_fn_def Let_def split: option.split)

text \<open>Reading the guest's memory does not look at the data of the call.\<close>

lemma read_guest_frame:
  "read_guest_bytes \<lparr>hs_memory = m, hs_inner = d\<rparr> p l = read_guest_bytes \<lparr>hs_memory = m, hs_inner = e\<rparr> p l"
  "read_guest_string \<lparr>hs_memory = m, hs_inner = d\<rparr> p l = read_guest_string \<lparr>hs_memory = m, hs_inner = e\<rparr> p l"
  by (simp_all only: read_guest_bytes_def read_guest_string_def host_state.simps)

lemmas host_writer_defs =
  host_log_fn_def host_abort_fn_def host_set_state_fn_def host_del_state_fn_def host_emit_event_fn_def
  host_transfer_fn_def host_set_return_fn_def

lemma transfer_keeps_funds:
  "funds_ok d0 d \<Longrightarrow> funds_ok d0 (hs_inner (snd (host_transfer_fn \<lparr>hs_memory = m, hs_inner = d\<rparr> p l lo hi)))"
  by (auto simp: host_transfer_fn_def funds_ok_def Let_def unat_sub_exact linorder_not_less word_le_nat_alt
      split: option.split)

lemma guest_call_keeps_funds: "funds_ok d0 d \<Longrightarrow> funds_ok d0 (guest_call ve mc d)"
  by (cases "snd mc") (simp_all add: guest_call_def transfer_keeps_funds, simp_all add: funds_ok_def host_writer_defs Let_def split: option.split)

lemma guest_call_keeps_state: "state_tracked d0 d \<Longrightarrow> state_tracked d0 (guest_call ve mc d)"
  by (cases "snd mc") (auto simp: guest_call_def state_tracked_def host_writer_defs Let_def split: option.split)

lemma guest_call_keeps_context: "context_kept d0 d \<Longrightarrow> context_kept d0 (guest_call ve mc d)"
  by (cases "snd mc") (auto simp: guest_call_def context_kept_def host_writer_defs Let_def split: option.split)

interpretation guest: invariant_system "guest_step ve" "host_inv d0"
  by unfold_locales
    (auto elim!: guest_step.cases
      simp: host_inv_def guest_call_keeps_funds guest_call_keeps_state guest_call_keeps_context)

lemma host_inv_refl: "bt_ok (hd_state d) \<Longrightarrow> hd_transfers d = [] \<Longrightarrow> hd_events d = [] \<Longrightarrow> hd_logs d = [] \<Longrightarrow>
  hd_dirty_keys d = [] \<Longrightarrow> host_inv d d"
  by (simp add: host_inv_def funds_ok_def state_tracked_def context_kept_def)

lemma guest_calls_inv: "host_inv d0 d \<Longrightarrow> host_inv d0 (guest_calls ve mcs d)"
  by (rule guest.reach_inv [OF guest_calls_reach])

text \<open>An abort is final: no later host call withdraws it.\<close>

lemma guest_call_abort: "hd_aborted d \<Longrightarrow> hd_aborted (guest_call ve mc d)"
  by (cases "snd mc") (simp_all add: guest_call_def host_writer_defs Let_def split: option.split)

lemma guest_calls_abort: "hd_aborted d \<Longrightarrow> hd_aborted (guest_calls ve mcs d)"
  by (induction mcs arbitrary: d) (simp_all add: guest_calls_def guest_call_abort)

text \<open>
  The limit of 1024 changed keys is no limit: deleting a key marks it as changed without a check, and a
  marked key may be written.
\<close>

lemma changed_keys_unlimited:
  assumes "k \<notin> set (hd_dirty_keys d)" "length (hd_dirty_keys d) = MAX_STATE_KEYS"
    and "read_guest_string \<lparr>hs_memory = m, hs_inner = d\<rparr> kp (min kl HOST_MAX_STATE_KEY_SIZE) = Some k"
    and "read_guest_bytes \<lparr>hs_memory = m, hs_inner = d\<rparr> vp (min vl MAX_STATE_VALUE_SIZE) = Some v"
  shows "guest_calls ve [(m, Host_Set_State kp kl vp vl)] d = d"
    and "length (hd_dirty_keys (guest_calls ve [(m, Host_Del_State kp kl), (m, Host_Set_State kp kl vp vl)] d)) =
      MAX_STATE_KEYS + 1"
proof -
  have read: "read_guest_string \<lparr>hs_memory = m, hs_inner = e\<rparr> kp (min kl HOST_MAX_STATE_KEY_SIZE) = Some k"
    "read_guest_bytes \<lparr>hs_memory = m, hs_inner = e\<rparr> vp (min vl MAX_STATE_VALUE_SIZE) = Some v" for e
    using assms(3,4) read_guest_frame [of m e _ _ d] by simp_all
  show "guest_calls ve [(m, Host_Set_State kp kl vp vl)] d = d"
    using assms(1,2) by (simp add: guest_calls_def guest_call_def host_set_state_fn_def read)
  show "length (hd_dirty_keys (guest_calls ve [(m, Host_Del_State kp kl), (m, Host_Set_State kp kl vp vl)] d)) =
      MAX_STATE_KEYS + 1"
    using assms(1,2) by (simp add: guest_calls_def guest_call_def host_set_state_fn_def host_del_state_fn_def read)
qed

end
