(* ===== verification/Wasm_Engine.thy ===== *)
theory Wasm_Engine
  imports Host_Functions
begin

text \<open>
  The contract engine of \<open>los-vm/src/lib.rs\<close>: deployment, the three ways a call is executed (with host
  functions, in the legacy way with integer arguments, and the built-in mock functions of the testnet),
  and the queries.

  The WASM runtime \<open>wasmer\<close> is the parameter \<open>wasm_runtime\<close>: whether a module compiles and links, the
  signature of an exported function, and for a call the sequence of host calls the guest makes, its result and
  the gas left. Whether the answer of the execution thread arrives in time is the parameter \<open>wait_outcome\<close>.
  The process-wide counter \<open>LEAKED_THREADS\<close> is a field of the engine. Errors are the message strings of the
  code, because the code decides by searching them.
\<close>

section \<open>Text\<close>

fun parse_nat_digits :: "string \<Rightarrow> nat \<Rightarrow> nat option" where
  "parse_nat_digits [] acc = Some acc"
| "parse_nat_digits (c # cs) acc =
     (if CHR ''0'' \<le> c \<and> c \<le> CHR ''9'' then parse_nat_digits cs (10 * acc + (of_char c - 48)) else None)"

text \<open>\<open>str::parse::<i32>\<close>: one sign is allowed, a lone sign and a value out of range are errors.\<close>

definition parse_i32 :: "string \<Rightarrow> i32 option" where
  "parse_i32 s =
     (case s of
        [] \<Rightarrow> None
      | c # cs \<Rightarrow>
          if (c = CHR ''+'' \<or> c = CHR ''-'') \<and> cs = [] then None
          else if c = CHR ''-'' then
            (case parse_nat_digits cs 0 of
               None \<Rightarrow> None | Some n \<Rightarrow> if n \<le> 2 ^ 31 then Some (- of_nat n) else None)
          else
            (case parse_nat_digits (if c = CHR ''+'' then cs else s) 0 of
               None \<Rightarrow> None | Some n \<Rightarrow> if n < 2 ^ 31 then Some (of_nat n) else None))"

definition i32_to_string :: "i32 \<Rightarrow> string" where
  "i32_to_string w = (if sint w < 0 then ''-'' @ nat_to_string (nat (- sint w)) else nat_to_string (nat (sint w)))"

section \<open>State\<close>

definition MAX_LEAKED_THREADS :: nat where "MAX_LEAKED_THREADS = 16"
definition MAX_BYTECODE_SIZE :: nat where "MAX_BYTECODE_SIZE = 1048576"
definition MAX_EXECUTION_SECS :: u64 where "MAX_EXECUTION_SECS = 5"
definition GAS_PER_KB_BYTECODE :: u64 where "GAS_PER_KB_BYTECODE = 100"

record contract =
  wc_address :: string
  wc_code_hash :: string
  wc_bytecode :: bytes
  wc_state :: "(string, string) btree_map"
  wc_balance :: u128
  wc_created_at_block :: u64
  wc_owner :: string

record contract_call =
  cc_contract :: string
  cc_function :: string
  cc_args :: "string list"
  cc_gas_limit :: u64
  cc_caller :: string
  cc_block_timestamp :: u64

record contract_result =
  cr_success :: bool
  cr_output :: string
  cr_gas_used :: u64
  cr_state_changes :: "(string, string) btree_map"
  cr_events :: "contract_event list"

record host_exec_result =
  hx_return_code :: i32
  hx_return_data :: bytes
  hx_gas_used :: u64
  hx_state_changes :: "(string, bytes) btree_map"
  hx_events :: "contract_event list"
  hx_transfers :: "(string \<times> u128) list"
  hx_logs :: "string list"
  hx_sdk_mode :: bool

record wasm_engine =
  we_contracts :: "(string, contract) btree_map"
  we_nonce :: "(string, u64) btree_map"
  we_leaked :: nat

definition wasm_engine_new :: wasm_engine where
  "wasm_engine_new = \<lparr>we_contracts = [], we_nonce = [], we_leaked = 0\<rparr>"

section \<open>Deployment and queries\<close>

definition wasm_magic :: bytes where
  "wasm_magic = [0, 0x61, 0x73, 0x6D]"

definition size_error :: "bytes \<Rightarrow> string" where
  "size_error bytecode = ''WASM bytecode too large: '' @ nat_to_string (length bytecode) @ '' bytes (max '' @
     nat_to_string MAX_BYTECODE_SIZE @ '' bytes)''"

definition contract_addr_input :: "string \<Rightarrow> u64 \<Rightarrow> u64 \<Rightarrow> string" where
  "contract_addr_input owner nonce block_number =
     owner @ '':'' @ uint_to_string nonce @ '':'' @ uint_to_string block_number"

definition contract_address :: "vm_env \<Rightarrow> string \<Rightarrow> u64 \<Rightarrow> u64 \<Rightarrow> string" where
  "contract_address ve owner nonce block_number =
     ''LOSCon'' @ vm_hex ve (take 16 (blake3 ve (as_bytes (contract_addr_input owner nonce block_number))))"

definition compute_code_hash :: "vm_env \<Rightarrow> bytes \<Rightarrow> string" where
  "compute_code_hash ve bytecode = vm_hex ve (take 32 (blake3 ve bytecode))"

definition owner_nonce :: "wasm_engine \<Rightarrow> string \<Rightarrow> u64" where
  "owner_nonce e owner = (case bt_get (we_nonce e) owner of None \<Rightarrow> 0 | Some n \<Rightarrow> n)"

definition new_contract :: "vm_env \<Rightarrow> string \<Rightarrow> bytes \<Rightarrow> (string, string) btree_map \<Rightarrow> u64 \<Rightarrow> string \<Rightarrow> contract" where
  "new_contract ve owner bytecode initial_state block_number address =
     \<lparr>wc_address = address, wc_code_hash = compute_code_hash ve bytecode, wc_bytecode = bytecode,
      wc_state = initial_state, wc_balance = 0, wc_created_at_block = block_number, wc_owner = owner\<rparr>"

definition deploy_contract ::
  "vm_env \<Rightarrow> string \<Rightarrow> bytes \<Rightarrow> (string, string) btree_map \<Rightarrow> u64 \<Rightarrow> wasm_engine \<Rightarrow>
   (string, string) result \<times> wasm_engine" where
  "deploy_contract ve owner bytecode initial_state block_number e =
     (if length bytecode < 4 \<or> take 4 bytecode \<noteq> wasm_magic
      then (Err ''Invalid WASM bytecode (missing magic header)'', e)
      else if MAX_BYTECODE_SIZE < length bytecode then (Err (size_error bytecode), e)
      else
        let nonce = owner_nonce e owner;
            address = contract_address ve owner nonce block_number;
            c = new_contract ve owner bytecode initial_state block_number address
        in (Ok address, e\<lparr>we_nonce := bt_insert owner (saturating_add nonce 1) (we_nonce e),
                          we_contracts := bt_insert address c (we_contracts e)\<rparr>))"

definition get_contract :: "wasm_engine \<Rightarrow> string \<Rightarrow> (contract, string) result" where
  "get_contract e address =
     (case bt_get (we_contracts e) address of None \<Rightarrow> Err ''Contract not found'' | Some c \<Rightarrow> Ok c)"

definition send_to_contract :: "string \<Rightarrow> u128 \<Rightarrow> wasm_engine \<Rightarrow> (unit, string) result \<times> wasm_engine" where
  "send_to_contract addr amount e =
     (case bt_get (we_contracts e) addr of
        None \<Rightarrow> (Err ''Contract not found'', e)
      | Some c \<Rightarrow> (Ok (), e\<lparr>we_contracts :=
          bt_insert addr (c\<lparr>wc_balance := saturating_add (wc_balance c) amount\<rparr>) (we_contracts e)\<rparr>))"

definition contract_exists :: "wasm_engine \<Rightarrow> string \<Rightarrow> bool" where
  "contract_exists e address = bt_contains (we_contracts e) address"

definition list_contracts :: "wasm_engine \<Rightarrow> string list" where
  "list_contracts e = bt_keys (we_contracts e)"

definition contract_count :: "wasm_engine \<Rightarrow> nat" where
  "contract_count e = length (we_contracts e)"

definition get_contract_state :: "wasm_engine \<Rightarrow> string \<Rightarrow> ((string, string) btree_map, string) result" where
  "get_contract_state e address =
     (case bt_get (we_contracts e) address of None \<Rightarrow> Err ''Contract not found'' | Some c \<Rightarrow> Ok (wc_state c))"

section \<open>The runtime\<close>

datatype wasm_value = I32_Value i32 | Other_Value
datatype metering_points = Remaining u64 | Exhausted
datatype wait_outcome = Delivered | Timed_Out | Disconnected

record guest_run =
  gr_calls :: "(bytes \<times> host_call) list"
  gr_result :: "string + wasm_value list"
  gr_points :: metering_points

text \<open>
  \<open>rt_module\<close> is the error of \<open>Module::new\<close>, if any. \<open>rt_instance\<close> is \<open>Instance::new\<close>, with the host functions
  on the given data or with no imports: the host calls of the module's start function, and the error, if any.
  \<open>rt_function\<close> looks up an export: an error or its number of parameters. \<open>rt_call\<close> calls it.
\<close>

record wasm_runtime =
  rt_module :: "bytes \<Rightarrow> string option"
  rt_instance :: "bytes \<Rightarrow> u64 \<Rightarrow> host_data option \<Rightarrow> host_call list \<times> string option"
  rt_exports_memory :: "bytes \<Rightarrow> bool"
  rt_function :: "bytes \<Rightarrow> string \<Rightarrow> string + nat"
  rt_call :: "bytes \<Rightarrow> string \<Rightarrow> i32 list \<Rightarrow> u64 \<Rightarrow> host_data option \<Rightarrow> guest_run"

definition leaked_error :: "nat \<Rightarrow> string" where
  "leaked_error leaked = ''WASM execution rejected: '' @ nat_to_string leaked @ '' leaked timeout threads (max '' @
     nat_to_string MAX_LEAKED_THREADS @ ''). Node restart required.''"

definition compile_gas :: "bytes \<Rightarrow> u64" where
  "compile_gas bytecode = (of_nat (length bytecode) div 1024 + 1) * GAS_PER_KB_BYTECODE"

definition compile_gas_error :: "bytes \<Rightarrow> u64 \<Rightarrow> string" where
  "compile_gas_error bytecode gas_limit = ''Out of gas: bytecode compilation cost '' @
     uint_to_string (compile_gas bytecode) @ '' exceeds gas limit '' @ uint_to_string gas_limit"

definition total_gas_error :: "u64 \<Rightarrow> u64 \<Rightarrow> u64 \<Rightarrow> string" where
  "total_gas_error compile exec limit = ''Out of gas: used '' @ uint_to_string (compile + exec) @ '' (compile: '' @
     uint_to_string compile @ '' + exec: '' @ uint_to_string exec @ '') > limit '' @ uint_to_string limit"

definition exhausted_error :: "u64 \<Rightarrow> string" where
  "exhausted_error remaining_gas =
     ''Out of gas: execution exceeded '' @ uint_to_string remaining_gas @ '' instruction limit''"

definition timeout_error :: string where
  "timeout_error = ''WASM execution timeout: exceeded '' @ uint_to_string MAX_EXECUTION_SECS @ '' second limit''"

definition channel_error :: string where
  "channel_error = ''WASM execution channel error: channel is empty and sending half is closed''"

definition missing_function_error :: "string \<Rightarrow> string \<Rightarrow> string" where
  "missing_function_error function err =
     ''Function '' @ [CHR 0x27] @ function @ [CHR 0x27] @ '' not found: '' @ err"

text \<open>The checks before an execution, which \<open>execute_wasm\<close> and \<open>execute_wasm_hosted\<close> share.\<close>

definition admission_error :: "nat \<Rightarrow> bytes \<Rightarrow> u64 \<Rightarrow> string option" where
  "admission_error leaked bytecode gas_limit =
     (if MAX_LEAKED_THREADS \<le> leaked then Some (leaked_error leaked)
      else if MAX_BYTECODE_SIZE < length bytecode then Some (size_error bytecode)
      else if gas_limit < compile_gas bytecode then Some (compile_gas_error bytecode gas_limit)
      else None)"

section \<open>Legacy execution\<close>

text \<open>
  The body of the execution thread: the first error it sends, or the returned value and the gas used. The
  module is linked without imports.
\<close>

definition legacy_thread :: "wasm_runtime \<Rightarrow> bytes \<Rightarrow> string \<Rightarrow> i32 list \<Rightarrow> u64 \<Rightarrow> (i32 \<times> u64, string) result" where
  "legacy_thread rt bytecode function args remaining_gas =
     (case rt_module rt bytecode of
        Some err \<Rightarrow> Err (''Failed to compile WASM: '' @ err)
      | None \<Rightarrow>
          (case snd (rt_instance rt bytecode remaining_gas None) of
             Some err \<Rightarrow> Err (''Failed to instantiate WASM: '' @ err)
           | None \<Rightarrow>
               (case rt_function rt bytecode function of
                  Inl err \<Rightarrow> Err (missing_function_error function err)
                | Inr params \<Rightarrow>
                    let run = rt_call rt bytecode function args remaining_gas None in
                    (case gr_points run of
                       Exhausted \<Rightarrow> Err (exhausted_error remaining_gas)
                     | Remaining remaining \<Rightarrow>
                         (case gr_result run of
                            Inr (I32_Value val # _) \<Rightarrow> Ok (val, remaining_gas - remaining)
                          | Inr _ \<Rightarrow> Err ''No return value from WASM function''
                          | Inl err \<Rightarrow>
                              if str_contains err ''unreachable''
                              then Err (''Out of gas: execution exhausted '' @ uint_to_string remaining_gas @
                                        '' gas limit'')
                              else Err (''WASM execution failed: '' @ err))))))"

definition execute_wasm ::
  "wasm_runtime \<Rightarrow> wait_outcome \<Rightarrow> bytes \<Rightarrow> string \<Rightarrow> i32 list \<Rightarrow> u64 \<Rightarrow> nat \<Rightarrow>
   (i32 \<times> u64, string) result \<times> nat" where
  "execute_wasm rt w bytecode function args gas_limit leaked =
     (case admission_error leaked bytecode gas_limit of
        Some err \<Rightarrow> (Err err, leaked)
      | None \<Rightarrow>
          let compile = compile_gas bytecode in
          (case w of
             Timed_Out \<Rightarrow> (Err timeout_error, leaked + 1)
           | Disconnected \<Rightarrow> (Err channel_error, leaked)
           | Delivered \<Rightarrow>
               (case legacy_thread rt bytecode function args (gas_limit - compile) of
                  Ok (val, exec) \<Rightarrow>
                    if gas_limit < compile + exec then (Err (total_gas_error compile exec gas_limit), leaked)
                    else (Ok (val, compile + exec), leaked)
                | Err err \<Rightarrow> (Err err, leaked)
                | Panic \<Rightarrow> (Err channel_error, leaked))))"

section \<open>Execution with host functions\<close>

definition initial_host_data ::
  "string list \<Rightarrow> string \<Rightarrow> string \<Rightarrow> (string, string) btree_map \<Rightarrow> u128 \<Rightarrow> u64 \<Rightarrow> host_data" where
  "initial_host_data args caller contract_addr contract_state balance timestamp =
     \<lparr>hd_state = map (\<lambda>(k, v). (k, as_bytes v)) contract_state, hd_dirty_keys = [], hd_events = [],
      hd_transfers = [], hd_caller = caller, hd_self_address = contract_addr, hd_balance = balance,
      hd_timestamp = timestamp, hd_args = args, hd_return_data = [], hd_logs = [], hd_aborted = False,
      hd_abort_message = []\<rparr>"

text \<open>Legacy parameters of a function with parameters: parsed or 0, padded with 0, cut to their number.\<close>

definition wasm_args :: "string list \<Rightarrow> nat \<Rightarrow> i32 list" where
  "wasm_args args params =
     (let vals = map (\<lambda>s. case parse_i32 s of Some v \<Rightarrow> v | None \<Rightarrow> 0) args in
      take params (vals @ replicate (params - length vals) 0))"

text \<open>
  Instantiation: with the host functions, or without any when that fails. Answers whether the host functions
  are linked. Host calls of a start function run before the memory is known to the host.
\<close>

definition hosted_instance ::
  "vm_env \<Rightarrow> wasm_runtime \<Rightarrow> bytes \<Rightarrow> u64 \<Rightarrow> host_data \<Rightarrow> (bool, string) result \<times> host_data" where
  "hosted_instance ve rt bytecode remaining_gas d =
     (let start = rt_instance rt bytecode remaining_gas (Some d);
          d1 = guest_calls ve (map (\<lambda>c. (None, c)) (fst start)) d in
      case snd start of
        None \<Rightarrow> (Ok True, d1)
      | Some _ \<Rightarrow>
          (case snd (rt_instance rt bytecode remaining_gas None) of
             None \<Rightarrow> (Ok False, d1)
           | Some err \<Rightarrow> (Err (''Failed to instantiate WASM: '' @ err), d1)))"

definition hosted_run ::
  "vm_env \<Rightarrow> wasm_runtime \<Rightarrow> bytes \<Rightarrow> string \<Rightarrow> string list \<Rightarrow> u64 \<Rightarrow> nat \<Rightarrow> bool \<Rightarrow> host_data \<Rightarrow>
   (i32 \<times> u64 \<times> bool, string) result \<times> host_data" where
  "hosted_run ve rt bytecode function args remaining_gas params linked d =
     (let sdk_mode = (params = 0);
          run = rt_call rt bytecode function (if sdk_mode then [] else wasm_args args params) remaining_gas
                  (if linked then Some d else None);
          d' = (if linked
                then guest_calls ve
                       (map (\<lambda>(m, c). (if rt_exports_memory rt bytecode then Some m else None, c)) (gr_calls run)) d
                else d) in
      case gr_points run of
        Exhausted \<Rightarrow> (Err (exhausted_error remaining_gas), d')
      | Remaining r \<Rightarrow>
          (case gr_result run of
             Inr results \<Rightarrow>
               let return_code = (case results of I32_Value x # _ \<Rightarrow> x | _ \<Rightarrow> 0) in
               (Ok (return_code, remaining_gas - r, sdk_mode), d')
           | Inl err \<Rightarrow>
               (Err (if str_contains err ''unreachable''
                     then ''WASM trap (abort or out of gas): '' @ err
                     else ''WASM execution failed: '' @ err), d')))"

definition hosted_thread ::
  "vm_env \<Rightarrow> wasm_runtime \<Rightarrow> bytes \<Rightarrow> string \<Rightarrow> string list \<Rightarrow> u64 \<Rightarrow> host_data \<Rightarrow>
   (i32 \<times> u64 \<times> bool, string) result \<times> host_data" where
  "hosted_thread ve rt bytecode function args remaining_gas d =
     (case rt_module rt bytecode of
        Some err \<Rightarrow> (Err (''Failed to compile WASM: '' @ err), d)
      | None \<Rightarrow>
          (case hosted_instance ve rt bytecode remaining_gas d of
             (Err err, d1) \<Rightarrow> (Err err, d1)
           | (Panic, d1) \<Rightarrow> (Panic, d1)
           | (Ok linked, d1) \<Rightarrow>
               (case rt_function rt bytecode function of
                  Inl err \<Rightarrow> (Err (missing_function_error function err), d1)
                | Inr params \<Rightarrow> hosted_run ve rt bytecode function args remaining_gas params linked d1)))"

text \<open>The changed keys that still exist, with their values.\<close>

definition dirty_changes :: "host_data \<Rightarrow> (string, bytes) btree_map" where
  "dirty_changes d =
     fold (\<lambda>k m. case bt_get (hd_state d) k of Some v \<Rightarrow> bt_insert k v m | None \<Rightarrow> m) (hd_dirty_keys d) []"

definition abort_error :: "host_data \<Rightarrow> string" where
  "abort_error d = ''Contract aborted: '' @ hd_abort_message d"

definition execute_wasm_hosted ::
  "vm_env \<Rightarrow> wasm_runtime \<Rightarrow> wait_outcome \<Rightarrow> bytes \<Rightarrow> string \<Rightarrow> string list \<Rightarrow> u64 \<Rightarrow> string \<Rightarrow> string \<Rightarrow>
   (string, string) btree_map \<Rightarrow> u128 \<Rightarrow> u64 \<Rightarrow> nat \<Rightarrow> (host_exec_result, string) result \<times> nat" where
  "execute_wasm_hosted ve rt w bytecode function args gas_limit caller contract_addr contract_state balance
       timestamp leaked =
     (case admission_error leaked bytecode gas_limit of
        Some err \<Rightarrow> (Err err, leaked)
      | None \<Rightarrow>
          let compile = compile_gas bytecode;
              d0 = initial_host_data args caller contract_addr contract_state balance timestamp in
          (case w of
             Timed_Out \<Rightarrow> (Err timeout_error, leaked + 1)
           | Disconnected \<Rightarrow> (Err channel_error, leaked)
           | Delivered \<Rightarrow>
               (case hosted_thread ve rt bytecode function args (gas_limit - compile) d0 of
                  (Ok (return_code, exec, sdk_mode), d) \<Rightarrow>
                    if gas_limit < compile + exec then (Err (total_gas_error compile exec gas_limit), leaked)
                    else if hd_aborted d then (Err (abort_error d), leaked)
                    else (Ok \<lparr>hx_return_code = return_code, hx_return_data = hd_return_data d,
                              hx_gas_used = compile + exec, hx_state_changes = dirty_changes d,
                              hx_events = hd_events d, hx_transfers = hd_transfers d, hx_logs = hd_logs d,
                              hx_sdk_mode = sdk_mode\<rparr>, leaked)
                | (Err err, d) \<Rightarrow> (Err (if hd_aborted d then abort_error d else err), leaked)
                | (Panic, d) \<Rightarrow> (Err channel_error, leaked))))"

section \<open>Calls\<close>

definition lossy_changes :: "(string, bytes) btree_map \<Rightarrow> (string, string) btree_map" where
  "lossy_changes changes = map (\<lambda>(k, v). (k, from_utf8_lossy v)) changes"

definition commit_contract :: "host_exec_result \<Rightarrow> contract \<Rightarrow> contract" where
  "commit_contract res c =
     c\<lparr>wc_state := fold (\<lambda>(k, v) st. bt_insert k (from_utf8_lossy v) st) (hx_state_changes res) (wc_state c),
       wc_balance := fold (\<lambda>(_, amount) b. saturating_sub b amount) (hx_transfers res) (wc_balance c)\<rparr>"

text \<open>The second, separately locked part of a hosted call: it changes the contract as it is by then.\<close>

definition commit_hosted :: "contract_call \<Rightarrow> host_exec_result \<Rightarrow> wasm_engine \<Rightarrow> wasm_engine" where
  "commit_hosted call res e =
     (if hx_state_changes res \<noteq> [] \<or> hx_transfers res \<noteq> [] then
        (case bt_get (we_contracts e) (cc_contract call) of
           None \<Rightarrow> e
         | Some c \<Rightarrow> e\<lparr>we_contracts := bt_insert (cc_contract call) (commit_contract res c) (we_contracts e)\<rparr>)
      else e)"

definition hosted_result :: "host_exec_result \<Rightarrow> contract_result" where
  "hosted_result res =
     \<lparr>cr_success = (if hx_sdk_mode res then hx_return_code res = 0 else True),
      cr_output = (if hx_sdk_mode res \<and> hx_return_data res \<noteq> [] then from_utf8_lossy (hx_return_data res)
                   else i32_to_string (hx_return_code res)),
      cr_gas_used = hx_gas_used res,
      cr_state_changes = lossy_changes (hx_state_changes res),
      cr_events = hx_events res\<rparr>"

definition hosted_fatal :: "string \<Rightarrow> bool" where
  "hosted_fatal err \<longleftrightarrow> str_contains err ''Out of gas'' \<or> str_contains err ''timeout'' \<or>
     str_contains err ''too large'' \<or> str_contains err ''leaked'' \<or> str_contains err ''aborted''"

definition call_timestamp :: "u64 \<Rightarrow> contract_call \<Rightarrow> u64" where
  "call_timestamp now call = (if 0 < cc_block_timestamp call then cc_block_timestamp call else now)"

definition run_hosted ::
  "vm_env \<Rightarrow> wasm_runtime \<Rightarrow> wait_outcome \<Rightarrow> u64 \<Rightarrow> contract_call \<Rightarrow> contract \<Rightarrow> nat \<Rightarrow>
   (host_exec_result, string) result \<times> nat" where
  "run_hosted ve rt w now call c leaked =
     execute_wasm_hosted ve rt w (wc_bytecode c) (cc_function call) (cc_args call) (cc_gas_limit call)
       (cc_caller call) (cc_contract call) (wc_state c) (wc_balance c) (call_timestamp now call) leaked"

definition try_hosted_call ::
  "vm_env \<Rightarrow> wasm_runtime \<Rightarrow> wait_outcome \<Rightarrow> u64 \<Rightarrow> contract_call \<Rightarrow> wasm_engine \<Rightarrow>
   (contract_result option, string) result \<times> wasm_engine" where
  "try_hosted_call ve rt w now call e =
     (case bt_get (we_contracts e) (cc_contract call) of
        None \<Rightarrow> (Ok None, e)
      | Some c \<Rightarrow>
          if length (wc_bytecode c) < 4 \<or> take 4 (wc_bytecode c) \<noteq> wasm_magic then (Ok None, e)
          else
            (case run_hosted ve rt w now call c (we_leaked e) of
               (Ok res, leaked) \<Rightarrow>
                 (Ok (Some (hosted_result res)), commit_hosted call res (e\<lparr>we_leaked := leaked\<rparr>))
             | (Err err, leaked) \<Rightarrow> (if hosted_fatal err then Err err else Ok None, e\<lparr>we_leaked := leaked\<rparr>)
             | (Panic, leaked) \<Rightarrow> (Panic, e\<lparr>we_leaked := leaked\<rparr>)))"

definition legacy_fatal :: "string \<Rightarrow> bool" where
  "legacy_fatal err \<longleftrightarrow> str_contains err ''Out of gas'' \<or> str_contains err ''timeout'' \<or> str_contains err ''too large''"

text \<open>\<open>collect::<Result<Vec<_>, _>>\<close>: all arguments parse, or none is used.\<close>

fun parse_all :: "('a \<Rightarrow> 'b option) \<Rightarrow> 'a list \<Rightarrow> 'b list option" where
  "parse_all f [] = Some []"
| "parse_all f (x # xs) =
     (case f x of None \<Rightarrow> None | Some y \<Rightarrow> map_option ((#) y) (parse_all f xs))"

definition try_legacy_call ::
  "wasm_runtime \<Rightarrow> wait_outcome \<Rightarrow> contract_call \<Rightarrow> contract \<Rightarrow> nat \<Rightarrow>
   (contract_result option, string) result \<times> nat" where
  "try_legacy_call rt w call c leaked =
     (if length (wc_bytecode c) < 8 then (Ok None, leaked)
      else
        (case parse_all parse_i32 (cc_args call) of
           None \<Rightarrow> (Ok None, leaked)
         | Some i32_args \<Rightarrow>
             (case execute_wasm rt w (wc_bytecode c) (cc_function call) i32_args (cc_gas_limit call) leaked of
                (Ok (val, gas_used), leaked') \<Rightarrow>
                  (Ok (Some \<lparr>cr_success = True, cr_output = i32_to_string val, cr_gas_used = gas_used,
                             cr_state_changes = [], cr_events = []\<rparr>), leaked')
              | (Err err, leaked') \<Rightarrow> (if legacy_fatal err then Err err else Ok None, leaked')
              | (Panic, leaked') \<Rightarrow> (Panic, leaked'))))"

text \<open>The mock functions: output, gas and state changes, and the contract with its balance changed at once.\<close>

definition mock_spend :: "contract_call \<Rightarrow> string \<Rightarrow> string \<Rightarrow> u64 \<Rightarrow> contract \<Rightarrow>
   (string \<times> u64 \<times> (string, string) btree_map, string) result \<times> contract" where
  "mock_spend call err verb gas c =
     (case parse_uint (hd (cc_args call)) of
        None \<Rightarrow> (Err ''Invalid amount'', c)
      | Some amount \<Rightarrow>
          if wc_balance c < amount then (Err err, c)
          else (Ok (verb @ '' '' @ uint_to_string amount @ '' cil'', gas, []),
                c\<lparr>wc_balance := wc_balance c - amount\<rparr>))"

definition mock_function :: "contract_call \<Rightarrow> contract \<Rightarrow>
   (string \<times> u64 \<times> (string, string) btree_map, string) result \<times> contract" where
  "mock_function call c =
     (let f = cc_function call; args = cc_args call in
      if f = ''transfer'' then
        (if length args < 2 then (Err ''transfer requires: amount, recipient'', c)
         else mock_spend call ''Insufficient contract balance'' ''Transferred'' 75 c)
      else if f = ''mint'' then
        (Err (''mint: operation not permitted '' @ [CHR 0xE2, CHR 0x80, CHR 0x94] @ '' LOS minting requires PoB consensus''), c)
      else if f = ''burn'' then
        (if args = [] then (Err ''burn requires: amount'', c)
         else mock_spend call ''Insufficient balance to burn'' ''Burned'' 100 c)
      else if f = ''set_state'' then
        (if length args < 2 then (Err ''set_state requires: key, value'', c)
         else (Ok (''State updated'', 60, bt_insert (args ! 0) (args ! 1) []), c))
      else if f = ''get_state'' then
        (if args = [] then (Err ''get_state requires: key'', c)
         else (Ok (case bt_get (wc_state c) (args ! 0) of Some v \<Rightarrow> v | None \<Rightarrow> ''null'', 30, []), c))
      else if f = ''get_balance'' then (Ok (uint_to_string (wc_balance c), 20, []), c)
      else (Err (''Unknown function: '' @ f), c))"

definition mock_dispatch :: "contract_call \<Rightarrow> contract \<Rightarrow> (contract_result, string) result \<times> contract" where
  "mock_dispatch call c =
     (case mock_function call c of
        (Ok (output, gas_used, changes), c') \<Rightarrow>
          if cc_gas_limit call < gas_used
          then (Err (''Out of gas: '' @ uint_to_string gas_used @ '' > '' @ uint_to_string (cc_gas_limit call)), c')
          else (Ok \<lparr>cr_success = True, cr_output = output, cr_gas_used = gas_used, cr_state_changes = changes,
                    cr_events = []\<rparr>,
                c'\<lparr>wc_state := fold (\<lambda>(k, v) st. bt_insert k v st) changes (wc_state c')\<rparr>)
      | (Err err, c') \<Rightarrow> (Err err, c')
      | (Panic, c') \<Rightarrow> (Panic, c'))"

definition mainnet_mock_error :: "string \<Rightarrow> string" where
  "mainnet_mock_error function = ''Contract function '' @ [CHR 0x27] @ function @ [CHR 0x27] @
     '' not found in WASM module. Mock dispatch disabled on mainnet.''"

text \<open>Phases 2 and 3 of a call, after the hosted execution gave no answer.\<close>

definition call_fallback ::
  "bool \<Rightarrow> wasm_runtime \<Rightarrow> wait_outcome \<Rightarrow> contract_call \<Rightarrow> wasm_engine \<Rightarrow>
   (contract_result, string) result \<times> wasm_engine" where
  "call_fallback mainnet rt w call e =
     (case bt_get (we_contracts e) (cc_contract call) of
        None \<Rightarrow> (Err ''Contract not found'', e)
      | Some c \<Rightarrow>
          (case try_legacy_call rt w call c (we_leaked e) of
             (Ok (Some res), leaked) \<Rightarrow> (Ok res, e\<lparr>we_leaked := leaked\<rparr>)
           | (Err err, leaked) \<Rightarrow> (Err err, e\<lparr>we_leaked := leaked\<rparr>)
           | (Panic, leaked) \<Rightarrow> (Panic, e\<lparr>we_leaked := leaked\<rparr>)
           | (Ok None, leaked) \<Rightarrow>
               if mainnet then (Err (mainnet_mock_error (cc_function call)), e\<lparr>we_leaked := leaked\<rparr>)
               else
                 let (r, c') = mock_dispatch call c in
                 (r, e\<lparr>we_leaked := leaked, we_contracts := bt_insert (cc_contract call) c' (we_contracts e)\<rparr>)))"

definition call_contract ::
  "vm_env \<Rightarrow> bool \<Rightarrow> wasm_runtime \<Rightarrow> wait_outcome \<Rightarrow> wait_outcome \<Rightarrow> u64 \<Rightarrow> contract_call \<Rightarrow> wasm_engine \<Rightarrow>
   (contract_result, string) result \<times> wasm_engine" where
  "call_contract ve mainnet rt w1 w2 now call e =
     (case try_hosted_call ve rt w1 now call e of
        (Ok (Some res), e') \<Rightarrow> (Ok res, e')
      | (Err err, e') \<Rightarrow> (Err err, e')
      | (Panic, e') \<Rightarrow> (Panic, e')
      | (Ok None, e') \<Rightarrow> call_fallback mainnet rt w2 call e')"

section \<open>Persistence\<close>

text \<open>JSON coding of the contracts and nonces is \<open>serde_json\<close>, a parameter.\<close>

definition serialize_all :: "((string, contract) btree_map \<times> (string, u64) btree_map \<Rightarrow> bytes option) \<Rightarrow>
   wasm_engine \<Rightarrow> (bytes, string) result" where
  "serialize_all to_json e =
     (case to_json (we_contracts e, we_nonce e) of None \<Rightarrow> Err ''Failed to serialize VM state'' | Some b \<Rightarrow> Ok b)"

definition deserialize_all :: "(bytes \<Rightarrow> ((string, contract) btree_map \<times> (string, u64) btree_map) option) \<Rightarrow>
   bytes \<Rightarrow> wasm_engine \<Rightarrow> (nat, string) result \<times> wasm_engine" where
  "deserialize_all from_json data e =
     (case from_json data of
        None \<Rightarrow> (Err ''Failed to deserialize VM state'', e)
      | Some (contracts, nonce) \<Rightarrow>
          (Ok (length contracts), e\<lparr>we_contracts := contracts, we_nonce := nonce\<rparr>))"

end
