(* ===== verification/Registries.thy ===== *)
theory Registries
  imports Wasm_Engine Dex_Safety Usp01_Contract
begin

text \<open>
  The queries that a node answers from stored contract state without running a contract:
  \<open>los-vm/src/token_registry.rs\<close> for USP-01 tokens and \<open>los-vm/src/dex_registry.rs\<close> for exchange pools. They
  repeat knowledge of the contracts: keys, number format and the price formula. The lemmas show that they agree
  with the contracts that write that state.
\<close>

section \<open>Numbers\<close>

definition parse_state_u128 :: "(string, string) btree_map \<Rightarrow> string \<Rightarrow> u128" where
  "parse_state_u128 state key =
     (case bt_get state key of
        None \<Rightarrow> 0
      | Some v \<Rightarrow> (case parse_uint v of None \<Rightarrow> 0 | Some n \<Rightarrow> n))"

definition parse_state_u64 :: "(string, string) btree_map \<Rightarrow> string \<Rightarrow> u64" where
  "parse_state_u64 state key =
     (case bt_get state key of
        None \<Rightarrow> 0
      | Some v \<Rightarrow> (case parse_uint v of None \<Rightarrow> 0 | Some n \<Rightarrow> n))"

definition text_at :: "(string, string) btree_map \<Rightarrow> string \<Rightarrow> string" where
  "text_at state key = (case bt_get state key of None \<Rightarrow> [] | Some v \<Rightarrow> v)"

section \<open>Tokens\<close>

record token_summary =
  ti_contract :: string
  ti_name :: string
  ti_symbol :: string
  ti_decimals :: u64
  ti_total_supply :: u128
  ti_is_wrapped :: bool
  ti_wrapped_origin :: string
  ti_max_supply :: u128
  ti_bridge_operator :: string
  ti_owner :: string

definition is_usp01_token :: "(string, string) btree_map \<Rightarrow> bool" where
  "is_usp01_token state \<longleftrightarrow>
     bt_get state ''usp01:init'' = Some ''1'' \<and>
     (case bt_get state ''usp01:symbol'' of None \<Rightarrow> False | Some v \<Rightarrow> v \<noteq> [])"

definition token_info_from_state :: "string \<Rightarrow> (string, string) btree_map \<Rightarrow> token_summary option" where
  "token_info_from_state contract_addr state =
     (if \<not> is_usp01_token state then None
      else Some \<lparr>ti_contract = contract_addr, ti_name = text_at state ''usp01:name'',
        ti_symbol = text_at state ''usp01:symbol'', ti_decimals = parse_state_u64 state ''usp01:decimals'',
        ti_total_supply = parse_state_u128 state ''usp01:total_supply'',
        ti_is_wrapped = (bt_get state ''usp01:is_wrapped'' = Some ''1''),
        ti_wrapped_origin = text_at state ''usp01:wrapped_origin'',
        ti_max_supply = parse_state_u128 state ''usp01:max_supply'',
        ti_bridge_operator = text_at state ''usp01:bridge_operator'', ti_owner = text_at state ''usp01:owner''\<rparr>)"

definition query_token_info :: "wasm_engine \<Rightarrow> string \<Rightarrow> token_summary option" where
  "query_token_info e contract_addr =
     (case get_contract_state e contract_addr of
        Ok state \<Rightarrow> token_info_from_state contract_addr state | _ \<Rightarrow> None)"

definition query_token_number :: "wasm_engine \<Rightarrow> string \<Rightarrow> string \<Rightarrow> (u128, string) result" where
  "query_token_number e contract_addr key =
     (case get_contract_state e contract_addr of
        Ok state \<Rightarrow>
          if is_usp01_token state then Ok (parse_state_u128 state key) else Err ''Contract is not a USP-01 token''
      | Err err \<Rightarrow> Err err
      | Panic \<Rightarrow> Panic)"

definition query_token_balance :: "wasm_engine \<Rightarrow> string \<Rightarrow> string \<Rightarrow> (u128, string) result" where
  "query_token_balance e contract_addr holder = query_token_number e contract_addr (''bal:'' @ holder)"

definition query_token_allowance :: "wasm_engine \<Rightarrow> string \<Rightarrow> string \<Rightarrow> string \<Rightarrow> (u128, string) result" where
  "query_token_allowance e contract_addr owner spender =
     query_token_number e contract_addr (''allow:'' @ owner @ '':'' @ spender)"

definition list_usp01_tokens :: "wasm_engine \<Rightarrow> token_summary list" where
  "list_usp01_tokens e = List.map_filter (query_token_info e) (list_contracts e)"

section \<open>Pools\<close>

record pool_info =
  pi_contract :: string
  pi_pool_id :: string
  pi_token_a :: string
  pi_token_b :: string
  pi_reserve_a :: u128
  pi_reserve_b :: u128
  pi_total_lp :: u128
  pi_fee_bps :: u64
  pi_creator :: string
  pi_last_trade :: u64

definition is_dex_contract :: "(string, string) btree_map \<Rightarrow> bool" where
  "is_dex_contract state \<longleftrightarrow>
     bt_get state ''dex:init'' = Some ''1'' \<and>
     (case bt_get state ''dex:pool_count'' of None \<Rightarrow> False | Some v \<Rightarrow> v \<noteq> [])"

definition pool_info_from_state :: "string \<Rightarrow> string \<Rightarrow> (string, string) btree_map \<Rightarrow> pool_info option" where
  "pool_info_from_state contract pool_id state =
     (let prefix = ''pool:'' @ pool_id in
      case bt_get state (prefix @ '':token_a'') of
        None \<Rightarrow> None
      | Some token_a \<Rightarrow>
          if token_a = [] then None
          else Some \<lparr>pi_contract = contract, pi_pool_id = pool_id, pi_token_a = token_a,
            pi_token_b = text_at state (prefix @ '':token_b''),
            pi_reserve_a = parse_state_u128 state (prefix @ '':reserve_a''),
            pi_reserve_b = parse_state_u128 state (prefix @ '':reserve_b''),
            pi_total_lp = parse_state_u128 state (prefix @ '':total_lp''),
            pi_fee_bps = parse_state_u64 state (prefix @ '':fee_bps''),
            pi_creator = text_at state (prefix @ '':creator''),
            pi_last_trade = parse_state_u64 state (prefix @ '':last_trade'')\<rparr>)"

definition listed_pool :: "string \<Rightarrow> (string, string) btree_map \<Rightarrow> nat \<Rightarrow> pool_info option" where
  "listed_pool contract state i =
     (case bt_get state (''pool_list:'' @ nat_to_string i) of
        None \<Rightarrow> None
      | Some pool_id \<Rightarrow> if pool_id = [] then None else pool_info_from_state contract pool_id state)"

definition list_pools_from_state :: "string \<Rightarrow> (string, string) btree_map \<Rightarrow> pool_info list" where
  "list_pools_from_state contract state =
     List.map_filter (listed_pool contract state) [0..<unat (parse_state_u64 state ''dex:pool_count'')]"

definition query_pool_info :: "wasm_engine \<Rightarrow> string \<Rightarrow> string \<Rightarrow> pool_info option" where
  "query_pool_info e contract_addr pool_id =
     (case bt_get (we_contracts e) contract_addr of
        None \<Rightarrow> None
      | Some c \<Rightarrow>
          if \<not> is_dex_contract (wc_state c) then None else pool_info_from_state contract_addr pool_id (wc_state c))"

definition query_lp_position :: "wasm_engine \<Rightarrow> string \<Rightarrow> string \<Rightarrow> string \<Rightarrow> (u128, string) result" where
  "query_lp_position e contract_addr pool_id user =
     (case bt_get (we_contracts e) contract_addr of
        None \<Rightarrow> Err ''Contract not found''
      | Some c \<Rightarrow>
          if \<not> is_dex_contract (wc_state c) then Err ''Not a DEX contract''
          else Ok (parse_state_u128 (wc_state c) (''lp:'' @ pool_id @ '':'' @ user)))"

definition list_all_dex_pools :: "wasm_engine \<Rightarrow> pool_info list" where
  "list_all_dex_pools e =
     concat (map (\<lambda>(addr, c). if is_dex_contract (wc_state c) then list_pools_from_state addr (wc_state c) else [])
       (we_contracts e))"

definition quote_output :: "u128 \<Rightarrow> u128 \<Rightarrow> u128 \<Rightarrow> u128" where
  "quote_output after_fee reserve_in reserve_out =
     (if reserve_in > 0 \<and> reserve_out > 0 \<and> after_fee > 0 then
        let precise = (let precision = 1000000000000;
                           ratio = (after_fee * precision) div saturating_add reserve_in after_fee
                       in (ratio * reserve_out) div precision) in
        case (checked_mul after_fee reserve_out, checked_add reserve_in after_fee) of
          (Some num, Some den) \<Rightarrow> if den > 0 then num div den else precise
        | _ \<Rightarrow> precise
      else 0)"

definition quote_impact :: "u128 \<Rightarrow> u128 \<Rightarrow> u128 \<Rightarrow> u128 \<Rightarrow> u128" where
  "quote_impact amount_in amount_out reserve_in reserve_out =
     (let precision = 1000000000000;
          spot = (if reserve_in > 0 then reserve_out * precision div reserve_in else 0);
          exec = (if amount_in > 0 then amount_out * precision div amount_in else 0)
      in if spot > 0 \<and> spot > exec then (spot - exec) * 10000 div spot else 0)"

definition compute_quote ::
  "wasm_engine \<Rightarrow> string \<Rightarrow> string \<Rightarrow> string \<Rightarrow> u128 \<Rightarrow> (u128 \<times> u128 \<times> u128, string) result" where
  "compute_quote e contract_addr pool_id token_in amount_in =
     (case bt_get (we_contracts e) contract_addr of
        None \<Rightarrow> Err ''Contract not found''
      | Some c \<Rightarrow>
          let state = wc_state c in
          if \<not> is_dex_contract state then Err ''Not a DEX contract''
          else
            let prefix = ''pool:'' @ pool_id;
                pool_token_a = text_at state (prefix @ '':token_a'') in
            if pool_token_a = [] then Err ''Pool not found''
            else
              let reserve_a = parse_state_u128 state (prefix @ '':reserve_a'');
                  reserve_b = parse_state_u128 state (prefix @ '':reserve_b'');
                  fee_bps = parse_state_u128 state (prefix @ '':fee_bps'');
                  (reserve_in, reserve_out) =
                    (if token_in = pool_token_a then (reserve_a, reserve_b) else (reserve_b, reserve_a));
                  fee = amount_in * fee_bps div 10000;
                  after_fee = amount_in - fee;
                  amount_out = quote_output after_fee reserve_in reserve_out
              in Ok (amount_out, fee, quote_impact amount_in amount_out reserve_in reserve_out))"

section \<open>Agreement with the contracts\<close>

text \<open>
  The registries parse with \<open>str::parse\<close>, the contracts with a loop of their own. They differ on texts with a
  leading plus sign only, which the contracts never write.
\<close>

definition no_sign :: "(string, string) btree_map \<Rightarrow> string \<Rightarrow> bool" where
  "no_sign state key = (case bt_get state key of Some (c # _) \<Rightarrow> c \<noteq> CHR ''+'' | _ \<Rightarrow> True)"

lemma parse_number_agree:
  "(case v of c # _ \<Rightarrow> c \<noteq> CHR ''+'' | _ \<Rightarrow> True) \<Longrightarrow>
   (case parse_uint v of None \<Rightarrow> 0 | Some n \<Rightarrow> n) = (parse_dec_loop v 0 :: 'a::len word)"
  by (cases v) (auto simp: parse_uint_def parse_dec_loop_digits split: option.split)

lemma parse_state_agree:
  assumes "short_key key" "no_sign (ct_kv s) key"
  shows "parse_state_u128 (ct_kv s) key = get_state_u128 s key"
    and "parse_state_u64 (ct_kv s) key = get_state_u64 s key"
proof -
  show "parse_state_u128 (ct_kv s) key = get_state_u128 s key"
  proof (cases "bt_get (ct_kv s) key")
    case (Some v)
    then show ?thesis
      using assms parse_number_agree [of v, where 'a = 128]
      by (simp add: parse_state_u128_def get_state_u128_def get_state_str_def state_get_str_def no_sign_def parse_u128_def)
  qed (use assms in \<open>simp add: parse_state_u128_def get_state_u128_def get_state_str_def state_get_str_def\<close>)
  show "parse_state_u64 (ct_kv s) key = get_state_u64 s key"
  proof (cases "bt_get (ct_kv s) key")
    case (Some v)
    then show ?thesis
      using assms parse_number_agree [of v, where 'a = 64]
      by (simp add: parse_state_u64_def get_state_u64_def get_state_str_def state_get_str_def no_sign_def parse_u64_def)
  qed (use assms in \<open>simp add: parse_state_u64_def get_state_u64_def get_state_str_def state_get_str_def parse_u64_def\<close>)
qed

lemma text_at_agree: "short_key key \<Longrightarrow> text_at (ct_kv s) key = get_state_str s key"
  by (simp add: text_at_def get_state_str_def state_get_str_def split: option.split)

lemma quote_output_eq: "quote_output a ri ro = compute_output a ri ro"
  by (simp add: quote_output_def compute_output_def DEX_PRECISION_def Let_def word_gt_0 split: option.split)

lemma prefix_pool_key:
  "(''pool:'' @ pid) @ '':token_a'' = pool_key pid ''token_a''" "(''pool:'' @ pid) @ '':token_b'' = pool_key pid ''token_b''"
  "(''pool:'' @ pid) @ '':reserve_a'' = pool_key pid ''reserve_a''" "(''pool:'' @ pid) @ '':reserve_b'' = pool_key pid ''reserve_b''"
  "(''pool:'' @ pid) @ '':total_lp'' = pool_key pid ''total_lp''" "(''pool:'' @ pid) @ '':fee_bps'' = pool_key pid ''fee_bps''"
  by (simp_all add: pool_key_def)

text \<open>A number that the contract reads as positive has no sign.\<close>

lemma positive_no_sign: "short_key key \<Longrightarrow> get_state_u128 s key \<noteq> 0 \<Longrightarrow> no_sign (ct_kv s) key"
  by (auto simp: no_sign_def get_state_u128_def get_state_str_def state_get_str_def parse_u128_def
      split: option.split list.split)

lemma compute_quote_eq:
  assumes "bt_get (we_contracts e) addr = Some c" "wc_state c = ct_kv s" "is_dex_contract (ct_kv s)"
    and "short_id pid" "no_sign (ct_kv s) (pool_key pid ''fee_bps'')" "pool_exists s pid" "swap_out s pid tok ain \<noteq> 0"
  shows "\<exists>impact. compute_quote e addr pid tok ain =
    Ok (swap_out s pid tok ain, snd (deduct_fee ain (fee_of s pid)), impact)"
proof -
  have "reserve_a_of s pid \<noteq> 0" "reserve_b_of s pid \<noteq> 0"
    using assms(7) by (auto simp: swap_out_def swap_sides_def compute_output_def split: if_splits)
  then have num: "parse_state_u128 (ct_kv s) (pool_key pid ''reserve_a'') = reserve_a_of s pid"
    "parse_state_u128 (ct_kv s) (pool_key pid ''reserve_b'') = reserve_b_of s pid"
    "parse_state_u128 (ct_kv s) (pool_key pid ''fee_bps'') = fee_of s pid"
    using assms(4,5) by (simp_all add: parse_state_agree positive_no_sign)
  have token: "text_at (ct_kv s) (pool_key pid ''token_a'') = get_state_str s (pool_key pid ''token_a'')"
    using assms(4) by (simp add: text_at_agree)
  show ?thesis
    unfolding compute_quote_def Let_def prefix_pool_key
    using assms(1-3,6)
    by (simp add: num token pool_exists_def quote_output_eq swap_out_def swap_sides_def deduct_fee_def
        DEX_BPS_DENOMINATOR_def Let_def)
qed

text \<open>C24: the price a node quotes is the price the exchange contract pays. When a swap succeeds, the quote
  of the registry for the same pool, token and amount on the stored state before the swap names exactly the
  amount that leaves the pool, overflow included.\<close>

theorem registry_quote_is_swap_output:
  assumes "swap ctx s = (0, s')" "swap_request ctx pid tok ain mn dl" "short_id pid"
    and "swap_sides s pid tok = (kin, kout)"
    and "bt_get (we_contracts e) addr = Some c" "wc_state c = ct_kv s" "is_dex_contract (ct_kv s)"
    and "no_sign (ct_kv s) (pool_key pid ''fee_bps'')"
  shows "\<exists>fee impact. compute_quote e addr pid tok ain =
    Ok (get_state_u128 s (pool_key pid kout) - get_state_u128 s' (pool_key pid kout), fee, impact)"
  using assms(1)
proof (cases rule: swap_cases)
  case (trade pid' tok' ain' mn' dl')
  then have eq: "pid' = pid" "tok' = tok" "ain' = ain" using request_unique(1) [OF assms(2) trade(2)] by auto
  have "get_state_u128 s' (pool_key pid kout) = get_state_u128 s (pool_key pid kout) - swap_out s pid tok ain"
    using swap_kv_reserves [OF assms(3,4)] get_state_kv(2) [OF trade(11)] by (simp add: eq)
  moreover have "swap_out s pid tok ain \<noteq> 0" using trade(9) by (simp add: eq word_gt_0)
  then obtain impact where "compute_quote e addr pid tok ain =
      Ok (swap_out s pid tok ain, snd (deduct_fee ain (fee_of s pid)), impact)"
    using compute_quote_eq [OF assms(5-7,3,8)] trade(4) eq by blast
  ultimately show ?thesis by auto
qed simp

definition w_dex_engine :: wasm_engine where
  "w_dex_engine = \<lparr>we_contracts = [(''LOSConDex'', \<lparr>wc_address = ''LOSConDex'', wc_code_hash = [], wc_bytecode = [],
     wc_state = ct_kv w_dex2, wc_balance = 0, wc_created_at_block = 0, wc_owner = ''LOSx''\<rparr>)], we_nonce = [], we_leaked = 0\<rparr>"

theorem registry_quote_is_swap_output_witness:
  "\<exists>fee impact. compute_quote w_dex_engine ''LOSConDex'' ''POOL:A:B'' ''A'' 100 = Ok (95, fee, impact)"
proof -
  let ?c = "w_call [''POOL:A:B'', ''A'', ''100'', ''90'', ''0'']"
  have req: "swap_request ?c ''POOL:A:B'' ''A'' 100 90 0" by (simp add: swap_request_def w_call_simps)
  have sides: "swap_sides w_dex2 ''POOL:A:B'' ''A'' = (''reserve_a'', ''reserve_b'')" by (simp add: swap_sides_def)
  have ok: "fst (swap ?c w_dex2) = 0"
    by (simp add: swap_def w_call_simps swap_execute_def Let_def deduct_fee_def compute_output_def
        DEX_BPS_DENOMINATOR_def contract_ok_data_def)
  then have swap: "swap ?c w_dex2 = (0, snd (swap ?c w_dex2))" by (simp add: prod_eq_iff)
  have out: "reserve_b_of (snd (swap ?c w_dex2)) ''POOL:A:B'' = 1905"
    by (simp add: swap_def w_call_simps swap_execute_def Let_def deduct_fee_def compute_output_def
        DEX_BPS_DENOMINATOR_def contract_ok_data_def)
  have count: "get_state_str w_dex2 ''dex:pool_count'' \<noteq> []"
    unfolding get_state_kv [OF w_create(2)]
    by (simp add: create_kv_def store_pool_def Let_def w_pool_id u128_to_str_eq uint_to_string_def nat_to_string_nonempty)
  have dex: "is_dex_contract (ct_kv w_dex2)"
    using w_dex2_get(8) count
    by (simp add: is_dex_contract_def get_state_str_def state_get_str_def host_key_short w_short split: option.splits)
  have "\<exists>fee impact. compute_quote w_dex_engine ''LOSConDex'' ''POOL:A:B'' ''A'' 100 =
      Ok (reserve_b_of w_dex2 ''POOL:A:B'' - reserve_b_of (snd (swap ?c w_dex2)) ''POOL:A:B'', fee, impact)"
    by (rule registry_quote_is_swap_output [OF swap req w_short(1) sides _ _ dex])
      (simp_all add: w_dex_engine_def positive_no_sign, simp)
  then show ?thesis by (simp add: out)
qed

text \<open>The balance a node reports for a token is the balance the token contract uses.\<close>

theorem registry_balance_is_contract_balance:
  assumes "bt_get (we_contracts e) addr = Some c" "wc_state c = ct_kv s" "is_usp01_token (ct_kv s)"
    and "short_key (bal_key holder)" "no_sign (ct_kv s) (bal_key holder)"
  shows "query_token_balance e addr holder = Ok (get_balance s holder)"
  using assms parse_state_agree(1) [OF assms(4,5)]
  by (simp add: query_token_balance_def query_token_number_def get_contract_state_def get_balance_def bal_key_def)

definition w_token_state :: contract_state where
  "w_token_state = \<lparr>ct_kv = [(''bal:LOSa'', ''7''), (''usp01:init'', ''1''), (''usp01:symbol'', ''T'')], ct_events = [],
     ct_return = [], ct_logs = []\<rparr>"

definition w_token_engine :: wasm_engine where
  "w_token_engine = \<lparr>we_contracts = [(''LOSConT'', \<lparr>wc_address = ''LOSConT'', wc_code_hash = [], wc_bytecode = [],
     wc_state = ct_kv w_token_state, wc_balance = 0, wc_created_at_block = 0, wc_owner = ''LOSa''\<rparr>)], we_nonce = [],
     we_leaked = 0\<rparr>"

theorem registry_balance_is_contract_balance_witness:
  "query_token_balance w_token_engine ''LOSConT'' ''LOSa'' = Ok 7"
proof -
  have "query_token_balance w_token_engine ''LOSConT'' ''LOSa'' = Ok (get_balance w_token_state ''LOSa'')"
    by (rule registry_balance_is_contract_balance)
      (simp_all add: w_token_engine_def w_token_state_def is_usp01_token_def bal_key_def no_sign_def, simp)
  then show ?thesis
    by (simp add: get_balance_def bal_key_def get_state_u128_def get_state_str_def state_get_str_def w_token_state_def
        parse_u128_def checked_mul_def checked_add_def)
qed

end
