(* ===== verification/Wasm_Safety.thy ===== *)
theory Wasm_Safety
  imports Wasm_Engine
begin

text \<open>
  What the contract engine guarantees for any module and any behaviour of the guest: gas and transfers stay
  within the limits of the call, a failing call changes nothing on mainnet, a call touches its own contract
  only, state changes are stored under the changed keys, and an address is given out once.
\<close>

section \<open>Execution\<close>

lemma bt_get_map_pair: "bt_get (map (\<lambda>(k, v). (k, f v)) m) k = map_option f (bt_get m k)"
  by (induction m) auto

lemma bt_ok_map_pair: "bt_ok (map (\<lambda>(k, v). (k, f v)) m) = bt_ok m"
  by (simp add: bt_ok_def case_prod_beta comp_def)

lemma initial_host_inv:
  assumes "bt_ok st"
  shows "host_inv (initial_host_data args caller addr st bal ts) (initial_host_data args caller addr st bal ts)"
  using assms by (intro host_inv_refl) (simp_all add: initial_host_data_def bt_ok_map_pair)

lemma hosted_instance_inv:
  "host_inv d0 d \<Longrightarrow> host_inv d0 (snd (hosted_instance ve rt bc g d))"
  by (simp add: hosted_instance_def Let_def guest_calls_inv split: option.split)

lemma hosted_run_inv:
  "host_inv d0 d \<Longrightarrow> host_inv d0 (snd (hosted_run ve rt bc f args g params linked d))"
  by (simp add: hosted_run_def Let_def guest_calls_inv split: metering_points.split sum.split)

lemma hosted_thread_inv:
  assumes "host_inv d0 d"
  shows "host_inv d0 (snd (hosted_thread ve rt bc f args g d))"
proof (cases "rt_module rt bc")
  case None
  obtain r d1 where i: "hosted_instance ve rt bc g d = (r, d1)" by fastforce
  then have "host_inv d0 d1" using hosted_instance_inv [OF assms, of ve rt bc g] by simp
  with None i show ?thesis
    by (cases r) (auto simp: hosted_thread_def hosted_run_inv split: sum.split)
qed (simp add: hosted_thread_def assms)

lemma bt_get_dirty:
  "bt_get (fold (\<lambda>k m. case bt_get st k of Some v \<Rightarrow> bt_insert k v m | None \<Rightarrow> m) ks m) k =
     (if k \<in> set ks \<and> bt_get st k \<noteq> None then bt_get st k else bt_get m k)"
  by (induction ks arbitrary: m) (auto split: option.split)

lemma bt_ok_dirty:
  "bt_ok m \<Longrightarrow> bt_ok (fold (\<lambda>k m. case bt_get st k of Some v \<Rightarrow> bt_insert k v m | None \<Rightarrow> m) ks m)"
  by (induction ks arbitrary: m) (auto split: option.split)

lemma dirty_changes_get:
  "bt_get (dirty_changes d) k = (if k \<in> set (hd_dirty_keys d) then bt_get (hd_state d) k else None)"
  by (simp add: dirty_changes_def bt_get_dirty)

lemma dirty_changes_ok: "bt_ok (dirty_changes d)"
  by (simp add: dirty_changes_def bt_ok_dirty)

text \<open>A successful execution is a run of the guest on the data of the call that did not abort.\<close>

definition guest_outcome :: "host_data \<Rightarrow> host_data \<Rightarrow> u64 \<Rightarrow> host_exec_result \<Rightarrow> bool" where
  "guest_outcome d0 d gas_limit res \<longleftrightarrow>
     host_inv d0 d \<and> \<not> hd_aborted d \<and> hx_gas_used res \<le> gas_limit \<and>
     hx_state_changes res = dirty_changes d \<and> hx_transfers res = hd_transfers d \<and>
     hx_events res = hd_events d \<and> hx_logs res = hd_logs d \<and> hx_return_data res = hd_return_data d"

lemma execute_wasm_hosted_Ok:
  assumes "bt_ok st"
    and "execute_wasm_hosted ve rt w bc f args gl caller addr st bal ts leaked = (Ok res, leaked')"
  shows "\<exists>d. guest_outcome (initial_host_data args caller addr st bal ts) d gl res"
proof -
  let ?d0 = "initial_host_data args caller addr st bal ts"
  let ?t = "hosted_thread ve rt bc f args (gl - compile_gas bc) ?d0"
  have inv: "host_inv ?d0 (snd ?t)"
    by (rule hosted_thread_inv [OF initial_host_inv [OF assms(1)]])
  from assms(2) have adm: "admission_error leaked bc gl = None" and w: "w = Delivered"
    by (simp_all add: execute_wasm_hosted_def Let_def split: option.splits wait_outcome.splits)
  obtain r d where t: "?t = (r, d)" by fastforce
  show ?thesis
  proof (cases r)
    case (Ok v)
    obtain rc exec sdk where v: "v = (rc, exec, sdk)" by (cases v)
    show ?thesis
      using assms(2) inv
      by (intro exI [of _ d])
        (auto simp: execute_wasm_hosted_def adm w t Ok v guest_outcome_def Let_def split: if_splits)
  qed (use assms(2) in \<open>auto simp: execute_wasm_hosted_def adm w t Let_def\<close>)
qed

lemma execute_wasm_gas:
  "execute_wasm rt w bc f args gl leaked = (Ok (val, gas), leaked') \<Longrightarrow> gas \<le> gl"
  by (auto simp: execute_wasm_def Let_def split: option.splits wait_outcome.splits result.splits if_splits)

lemma execute_leaked:
  "leaked \<le> snd (execute_wasm rt w bc f iargs gl leaked)"
  "leaked \<le> snd (execute_wasm_hosted ve rt w bc f args gl caller addr st bal ts leaked)"
  by (auto simp: execute_wasm_def execute_wasm_hosted_def Let_def
      split: option.splits wait_outcome.splits result.splits prod.splits if_splits)

section \<open>Committing\<close>

lemma fold_saturating_sub:
  assumes "transfer_total ts \<le> unat b"
  shows "unat (fold (\<lambda>(_, amount) b. saturating_sub b amount) ts b) + transfer_total ts = unat b"
  using assms
proof (induction ts arbitrary: b)
  case (Cons t ts)
  then have le: "unat (snd t) \<le> unat b" "transfer_total ts \<le> unat (saturating_sub b (snd t))"
    by (simp_all add: rust_arith)
  show ?case
    using Cons.IH [OF le(2)] le Cons.prems by (simp add: case_prod_beta rust_arith)
qed simp

lemma fold_lossy_get:
  assumes "bt_ok changes"
  shows "bt_get (fold (\<lambda>(k, v) st. bt_insert k (f v) st) changes st) k =
    (case bt_get changes k of Some v \<Rightarrow> Some (f v) | None \<Rightarrow> bt_get st k)"
  using assms
proof (induction changes arbitrary: st)
  case (Cons c cs)
  have "bt_get cs (fst c) = None"
    using Cons.prems by (force simp: bt_ok_Cons intro: bt_get_absent)
  then show ?case
    using Cons by (auto simp: bt_ok_Cons case_prod_beta split: option.split)
qed simp

lemma bt_ok_fold_insert: "bt_ok st \<Longrightarrow> bt_ok (fold (\<lambda>(k, v) st. bt_insert k (f v) st) changes st)"
  by (induction changes arbitrary: st) auto

lemma fold_saturating_sub_le: "fold (\<lambda>(_, amount) b. saturating_sub b amount) ts b \<le> b"
proof (induction ts arbitrary: b)
  case (Cons t ts)
  have "saturating_sub b (snd t) \<le> b" by (simp add: word_le_nat_alt rust_arith)
  then show ?case using Cons [of "saturating_sub b (snd t)"] by (simp add: case_prod_beta)
qed simp

section \<open>Effect of a call\<close>

text \<open>
  A contract keeps its address, code, owner and age, its balance does not grow, and its state changes exactly
  as reported.
\<close>

definition contract_updated :: "contract \<Rightarrow> (string, string) btree_map \<Rightarrow> contract \<Rightarrow> bool" where
  "contract_updated c changes c' \<longleftrightarrow>
     wc_address c' = wc_address c \<and> wc_code_hash c' = wc_code_hash c \<and> wc_bytecode c' = wc_bytecode c \<and>
     wc_owner c' = wc_owner c \<and> wc_created_at_block c' = wc_created_at_block c \<and>
     wc_balance c' \<le> wc_balance c \<and> bt_ok (wc_state c') \<and>
     (\<forall>k. bt_get (wc_state c') k =
        (case bt_get changes k of Some v \<Rightarrow> Some v | None \<Rightarrow> bt_get (wc_state c) k))"

lemma contract_updated_refl: "bt_ok (wc_state c) \<Longrightarrow> contract_updated c [] c"
  by (simp add: contract_updated_def)

lemma commit_contract_updated:
  assumes "bt_ok (wc_state c)" "bt_ok (hx_state_changes res)"
  shows "contract_updated c (lossy_changes (hx_state_changes res)) (commit_contract res c)"
  using assms
  by (simp add: contract_updated_def commit_contract_def lossy_changes_def bt_get_map_pair fold_lossy_get
      bt_ok_fold_insert fold_saturating_sub_le split: option.split)

lemma commit_contract_balance:
  assumes "transfer_total (hx_transfers res) \<le> unat (wc_balance c)"
  shows "unat (wc_balance (commit_contract res c)) + transfer_total (hx_transfers res) = unat (wc_balance c)"
  using fold_saturating_sub [OF assms] by (simp add: commit_contract_def)

text \<open>Only the called contract changes, as described; nonces never do.\<close>

definition call_effect :: "string \<Rightarrow> (string, string) btree_map \<Rightarrow> wasm_engine \<Rightarrow> wasm_engine \<Rightarrow> bool" where
  "call_effect addr changes e e' \<longleftrightarrow>
     we_nonce e' = we_nonce e \<and>
     (\<forall>a. a \<noteq> addr \<longrightarrow> bt_get (we_contracts e') a = bt_get (we_contracts e) a) \<and>
     (case bt_get (we_contracts e) addr of
        None \<Rightarrow> bt_get (we_contracts e') addr = None
      | Some c \<Rightarrow> \<exists>c'. bt_get (we_contracts e') addr = Some c' \<and> contract_updated c changes c')"

definition engine_ok :: "wasm_engine \<Rightarrow> bool" where
  "engine_ok e \<longleftrightarrow> bt_ok (we_contracts e) \<and> (\<forall>a c. bt_get (we_contracts e) a = Some c \<longrightarrow> bt_ok (wc_state c))"

lemma call_effect_same: "engine_ok e \<Longrightarrow> we_contracts e' = we_contracts e \<Longrightarrow> we_nonce e' = we_nonce e \<Longrightarrow>
  call_effect addr [] e e'"
  by (auto simp: call_effect_def engine_ok_def contract_updated_refl split: option.split)

lemma call_effect_insert:
  assumes "bt_get (we_contracts e) addr = Some c" "contract_updated c changes c'"
    and "we_contracts e' = bt_insert addr c' (we_contracts e)" "we_nonce e' = we_nonce e"
  shows "call_effect addr changes e e'"
  using assms by (auto simp: call_effect_def)

lemma run_hosted_Ok:
  assumes "bt_ok (wc_state c)" "run_hosted ve rt w now call c leaked = (Ok res, leaked')"
  obtains d where
    "guest_outcome (initial_host_data (cc_args call) (cc_caller call) (cc_contract call) (wc_state c) (wc_balance c)
       (call_timestamp now call)) d (cc_gas_limit call) res"
  using execute_wasm_hosted_Ok [OF assms(1) assms(2) [unfolded run_hosted_def]] by blast

lemma run_hosted_bounds:
  assumes "bt_ok (wc_state c)" "run_hosted ve rt w now call c leaked = (Ok res, leaked')"
  shows "hx_gas_used res \<le> cc_gas_limit call" "transfer_total (hx_transfers res) \<le> unat (wc_balance c)"
    "length (hx_transfers res) \<le> MAX_TRANSFERS" "length (hx_events res) \<le> MAX_EVENTS" "bt_ok (hx_state_changes res)"
    "\<forall>ev \<in> set (hx_events res). ev_contract ev = cc_contract call"
proof -
  obtain d where d: "guest_outcome (initial_host_data (cc_args call) (cc_caller call) (cc_contract call) (wc_state c)
      (wc_balance c) (call_timestamp now call)) d (cc_gas_limit call) res"
    by (rule run_hosted_Ok [OF assms])
  then show "hx_gas_used res \<le> cc_gas_limit call" "bt_ok (hx_state_changes res)"
    by (simp_all add: guest_outcome_def dirty_changes_ok)
  from d show "transfer_total (hx_transfers res) \<le> unat (wc_balance c)" "length (hx_transfers res) \<le> MAX_TRANSFERS"
    by (simp_all add: guest_outcome_def host_inv_def funds_ok_def initial_host_data_def)
  from d show "length (hx_events res) \<le> MAX_EVENTS" "\<forall>ev \<in> set (hx_events res). ev_contract ev = cc_contract call"
    by (simp_all add: guest_outcome_def host_inv_def context_kept_def initial_host_data_def)
qed

lemma commit_hosted_effect:
  assumes "engine_ok e" "bt_get (we_contracts e) (cc_contract call) = Some c" "bt_ok (hx_state_changes res)"
  shows "call_effect (cc_contract call) (lossy_changes (hx_state_changes res)) e
    (commit_hosted call res (e\<lparr>we_leaked := l\<rparr>))"
proof (cases "hx_state_changes res \<noteq> [] \<or> hx_transfers res \<noteq> []")
  case True
  have "bt_ok (wc_state c)" using assms(1,2) by (auto simp: engine_ok_def)
  with True assms show ?thesis
    by (intro call_effect_insert [where c = c and c' = "commit_contract res c"])
      (simp_all add: commit_hosted_def commit_contract_updated)
next
  case False
  then show ?thesis
    using assms(1) by (auto simp: commit_hosted_def lossy_changes_def intro: call_effect_same)
qed

lemma try_hosted_effect:
  assumes "engine_ok e" "try_hosted_call ve rt w now call e = (Ok (Some res), e')"
  shows "cr_gas_used res \<le> cc_gas_limit call \<and> call_effect (cc_contract call) (cr_state_changes res) e e'"
proof -
  from assms(2) obtain c where c: "bt_get (we_contracts e) (cc_contract call) = Some c"
    by (auto simp: try_hosted_call_def split: option.splits)
  have ok: "bt_ok (wc_state c)" using assms(1) c by (auto simp: engine_ok_def)
  obtain r l where r: "run_hosted ve rt w now call c (we_leaked e) = (r, l)" by fastforce
  show ?thesis
  proof (cases r)
    case (Ok hx)
    with assms(2) c r have "res = hosted_result hx" "e' = commit_hosted call hx (e\<lparr>we_leaked := l\<rparr>)"
      by (auto simp: try_hosted_call_def split: if_splits)
    then show ?thesis
      using run_hosted_bounds [OF ok r [unfolded Ok]] commit_hosted_effect [OF assms(1) c]
      by (simp add: hosted_result_def)
  qed (use assms(2) c r in \<open>auto simp: try_hosted_call_def split: if_splits\<close>)
qed

lemma try_hosted_unchanged:
  assumes "try_hosted_call ve rt w now call e = (r, e')" "\<forall>res. r \<noteq> Ok (Some res)"
  shows "we_contracts e' = we_contracts e" "we_nonce e' = we_nonce e"
  using assms by (auto simp: try_hosted_call_def split: option.splits if_splits prod.splits result.splits)

lemma try_legacy_result:
  "try_legacy_call rt w call c l = (Ok (Some res), l') \<Longrightarrow> cr_gas_used res \<le> cc_gas_limit call \<and> cr_state_changes res = []"
  by (auto simp: try_legacy_call_def dest: execute_wasm_gas split: if_splits option.splits prod.splits result.splits)

definition mock_ok :: "contract \<Rightarrow> (string \<times> u64 \<times> (string, string) btree_map, string) result \<times> contract \<Rightarrow> bool" where
  "mock_ok c p \<longleftrightarrow>
     (\<exists>b \<le> wc_balance c. snd p = c\<lparr>wc_balance := b\<rparr>) \<and> (\<forall>out g ch. fst p = Ok (out, g, ch) \<longrightarrow> bt_ok ch)"

lemma mock_ok_self: "(\<forall>out g ch. r = Ok (out, g, ch) \<longrightarrow> bt_ok ch) \<Longrightarrow> mock_ok c (r, c)"
  by (simp add: mock_ok_def exI [of _ "wc_balance c"])

lemma mock_ok_spent: "\<not> wc_balance c < amount \<Longrightarrow> mock_ok c (Ok (out, g, []), c\<lparr>wc_balance := wc_balance c - amount\<rparr>)"
  by (auto simp: mock_ok_def linorder_not_less word_sub_le intro!: exI [of _ "wc_balance c - amount"])

lemma mock_spend_ok: "mock_ok c (mock_spend call err verb gas c)"
  by (simp add: mock_spend_def mock_ok_self mock_ok_spent split: option.split)

lemma mock_function_ok: "mock_ok c (mock_function call c)"
  by (simp add: mock_function_def Let_def mock_ok_self mock_spend_ok bt_ok_Cons)

lemma mock_dispatch_effect:
  assumes "bt_ok (wc_state c)" "mock_dispatch call c = (r, c')"
  shows "\<exists>changes. contract_updated c changes c' \<and>
    (\<forall>res. r = Ok res \<longrightarrow> changes = cr_state_changes res \<and> cr_gas_used res \<le> cc_gas_limit call)"
proof -
  obtain m c1 where m: "mock_function call c = (m, c1)" by fastforce
  then obtain b where b: "b \<le> wc_balance c" "c1 = c\<lparr>wc_balance := b\<rparr>"
    and ch: "\<And>out g ch. m = Ok (out, g, ch) \<Longrightarrow> bt_ok ch"
    using mock_function_ok [of c call] by (auto simp: mock_ok_def)
  have c1: "contract_updated c [] c1" using assms(1) b by (simp add: contract_updated_def)
  show ?thesis
  proof (cases m)
    case (Ok v)
    obtain out g ch' where v: "v = (out, g, ch')" by (cases v)
    have ok: "bt_ok ch'" using ch Ok v by simp
    show ?thesis
    proof (cases "cc_gas_limit call < g")
      case True
      then show ?thesis using assms(2) m Ok v c1 by (auto simp: mock_dispatch_def)
    next
      case False
      have upd: "contract_updated c ch' (c1\<lparr>wc_state := fold (\<lambda>(k, v) st. bt_insert k v st) ch' (wc_state c1)\<rparr>)"
        using assms(1) b fold_lossy_get [OF ok, of "\<lambda>v. v" "wc_state c"] bt_ok_fold_insert [OF assms(1), of "\<lambda>v. v" ch']
        by (simp add: contract_updated_def)
      show ?thesis
        using assms(2) m Ok v False upd by (intro exI [of _ ch']) (auto simp: mock_dispatch_def linorder_not_less)
    qed
  qed (use assms(2) m c1 in \<open>auto simp: mock_dispatch_def\<close>)
qed

lemma call_fallback_effect:
  assumes "engine_ok e" "call_fallback mainnet rt w call e = (r, e')"
  shows "\<exists>changes. call_effect (cc_contract call) changes e e' \<and>
    (\<forall>res. r = Ok res \<longrightarrow> changes = cr_state_changes res \<and> cr_gas_used res \<le> cc_gas_limit call)"
proof (cases "bt_get (we_contracts e) (cc_contract call)")
  case None
  then show ?thesis using assms by (auto simp: call_fallback_def intro: call_effect_same)
next
  case (Some c)
  have same: "call_effect (cc_contract call) [] e (e\<lparr>we_leaked := l\<rparr>)" for l
    by (rule call_effect_same [OF assms(1)]) simp_all
  obtain lr l where l: "try_legacy_call rt w call c (we_leaked e) = (lr, l)" by fastforce
  have ok: "bt_ok (wc_state c)" using assms(1) Some by (auto simp: engine_ok_def)
  obtain m c' where m: "mock_dispatch call c = (m, c')" by fastforce
  obtain ch where ch: "contract_updated c ch c'"
    "\<forall>res. m = Ok res \<longrightarrow> ch = cr_state_changes res \<and> cr_gas_used res \<le> cc_gas_limit call"
    using mock_dispatch_effect [OF ok m] by blast
  have ins: "call_effect (cc_contract call) ch e
      (e\<lparr>we_leaked := l, we_contracts := bt_insert (cc_contract call) c' (we_contracts e)\<rparr>)"
    by (rule call_effect_insert [OF Some ch(1)]) simp_all
  consider (res) res where "lr = Ok (Some res)" | (fail) "\<exists>x. lr = Err x \<or> lr = Panic" | (none) "lr = Ok None"
    by (cases lr; cases "case lr of Ok x \<Rightarrow> x | _ \<Rightarrow> None") auto
  then show ?thesis
  proof cases
    case res
    then show ?thesis using assms(2) Some l same [of l] try_legacy_result [OF l [unfolded res]]
      by (auto simp: call_fallback_def)
  next
    case fail
    then show ?thesis using assms(2) Some l same [of l] by (auto simp: call_fallback_def)
  next
    case none
    then show ?thesis using assms(2) Some l same [of l] ins ch(2) m
      by (cases mainnet) (auto simp: call_fallback_def)
  qed
qed

lemma call_effect_leaked: "call_effect addr ch (e\<lparr>we_leaked := l\<rparr>) e' = call_effect addr ch e e'"
  by (simp add: call_effect_def)

lemma call_effect_cong: "we_contracts e1 = we_contracts e \<Longrightarrow> we_nonce e1 = we_nonce e \<Longrightarrow>
  call_effect addr ch e1 e' = call_effect addr ch e e'"
  by (simp add: call_effect_def)

lemma call_contract_effect:
  assumes "engine_ok e" "call_contract ve mainnet rt w1 w2 now call e = (r, e')"
  shows "\<exists>changes. call_effect (cc_contract call) changes e e' \<and>
    (\<forall>res. r = Ok res \<longrightarrow> changes = cr_state_changes res \<and> cr_gas_used res \<le> cc_gas_limit call)"
proof -
  obtain hr e1 where h: "try_hosted_call ve rt w1 now call e = (hr, e1)" by fastforce
  show ?thesis
  proof (cases "\<exists>res. hr = Ok (Some res)")
    case True
    then obtain res where res: "hr = Ok (Some res)" by blast
    have "r = Ok res" "e' = e1" using assms(2) h res by (simp_all add: call_contract_def)
    then show ?thesis using try_hosted_effect [OF assms(1) h [unfolded res]] by simp
  next
    case False
    then have un: "we_contracts e1 = we_contracts e" "we_nonce e1 = we_nonce e"
      using try_hosted_unchanged [OF h] by blast+
    then have ok1: "engine_ok e1" using assms(1) by (simp add: engine_ok_def)
    show ?thesis
    proof (cases "hr = Ok None")
      case True
      then have "call_fallback mainnet rt w2 call e1 = (r, e')" using assms(2) h by (simp add: call_contract_def)
      then show ?thesis using call_fallback_effect [OF ok1] by (simp add: call_effect_cong [OF un])
    next
      case no: False
      have "e' = e1 \<and> (\<forall>res. r \<noteq> Ok res)"
      proof (cases hr)
        case (Ok x)
        then show ?thesis using no False by (cases x) simp_all
      qed (use assms(2) h in \<open>auto simp: call_contract_def\<close>)
      then show ?thesis
        using call_effect_same [OF assms(1) un, of "cc_contract call"] by auto
    qed
  qed
qed

section \<open>Reachable engines\<close>

text \<open>
  The node shares one engine between its request handlers. A hosted call reads its contract and commits in two
  separately locked steps, so a commit of an earlier execution may come at any time.
\<close>

inductive engine_step :: "vm_env \<Rightarrow> bool \<Rightarrow> wasm_runtime \<Rightarrow> wasm_engine \<Rightarrow> wasm_engine \<Rightarrow> bool"
  for ve mainnet rt where
  engine_deploy: "bt_ok st \<Longrightarrow> engine_step ve mainnet rt e (snd (deploy_contract ve owner bytecode st block_number e))"
| engine_call: "engine_step ve mainnet rt e (snd (call_contract ve mainnet rt w1 w2 now call e))"
| engine_commit: "bt_ok (hx_state_changes res) \<Longrightarrow> engine_step ve mainnet rt e (commit_hosted call res e)"
| engine_send: "engine_step ve mainnet rt e (snd (send_to_contract addr amount e))"

text \<open>Every contract is stored under the address of its owner, a used nonce and its block number.\<close>

definition nonce_used :: "wasm_engine \<Rightarrow> string \<Rightarrow> u64 \<Rightarrow> bool" where
  "nonce_used e owner n \<longleftrightarrow> n < owner_nonce e owner \<or> owner_nonce e owner = - 1"

definition address_ok :: "vm_env \<Rightarrow> wasm_engine \<Rightarrow> string \<Rightarrow> contract \<Rightarrow> bool" where
  "address_ok ve e a c \<longleftrightarrow>
     wc_address c = a \<and>
     (\<exists>n. nonce_used e (wc_owner c) n \<and> a = contract_address ve (wc_owner c) n (wc_created_at_block c))"

definition engine_inv :: "vm_env \<Rightarrow> wasm_engine \<Rightarrow> bool" where
  "engine_inv ve e \<longleftrightarrow>
     engine_ok e \<and> (\<forall>a c. bt_get (we_contracts e) a = Some c \<longrightarrow> address_ok ve e a c)"

lemma engine_inv_new: "engine_inv ve wasm_engine_new"
  by (simp add: engine_inv_def engine_ok_def wasm_engine_new_def)

lemma address_ok_updated:
  assumes "address_ok ve e a c" "contract_updated c ch c'" "we_nonce e' = we_nonce e"
  shows "address_ok ve e' a c'"
  using assms by (simp add: address_ok_def contract_updated_def nonce_used_def owner_nonce_def)

lemma call_effect_engine_inv:
  assumes "engine_inv ve e" "call_effect addr ch e e'" "bt_ok (we_contracts e')"
  shows "engine_inv ve e'"
proof -
  have "\<exists>c0 ch0. bt_get (we_contracts e) a = Some c0 \<and> contract_updated c0 ch0 c"
    if c: "bt_get (we_contracts e') a = Some c" for a c
  proof (cases "a = addr")
    case True
    then show ?thesis using assms(2) c by (auto simp: call_effect_def split: option.splits)
  next
    case False
    then have "bt_get (we_contracts e) a = Some c" using assms(2) c by (simp add: call_effect_def)
    moreover from this have "bt_ok (wc_state c)" using assms(1) by (auto simp: engine_inv_def engine_ok_def)
    ultimately show ?thesis using contract_updated_refl by blast
  qed
  moreover have "we_nonce e' = we_nonce e" using assms(2) by (simp add: call_effect_def)
  ultimately have "bt_ok (wc_state c) \<and> address_ok ve e' a c" if "bt_get (we_contracts e') a = Some c" for a c
    using assms(1) address_ok_updated [of ve e a _ _ c e'] that
    by (fastforce simp: engine_inv_def contract_updated_def)
  then show ?thesis using assms(3) by (simp add: engine_inv_def engine_ok_def)
qed

lemma call_contract_bt_ok:
  "bt_ok (we_contracts e) \<Longrightarrow> bt_ok (we_contracts (snd (call_contract ve mainnet rt w1 w2 now call e)))"
proof -
  assume ok: "bt_ok (we_contracts e)"
  obtain r e1 where h: "try_hosted_call ve rt w1 now call e = (r, e1)" by fastforce
  have ok1: "bt_ok (we_contracts e1)"
    using h ok by (auto simp: try_hosted_call_def commit_hosted_def split: option.splits if_splits result.splits prod.splits)
  have "bt_ok (we_contracts (snd (call_fallback mainnet rt w2 call e1)))"
    using ok1 by (auto simp: call_fallback_def split: option.splits result.splits prod.splits)
  with ok1 h show ?thesis by (auto simp: call_contract_def split: result.split option.split)
qed

lemma commit_hosted_any_effect:
  assumes "engine_ok e" "bt_ok (hx_state_changes res)"
  shows "\<exists>ch. call_effect (cc_contract call) ch e (commit_hosted call res e)"
proof (cases "bt_get (we_contracts e) (cc_contract call)")
  case None
  then show ?thesis using call_effect_same [OF assms(1)] by (auto simp: commit_hosted_def)
next
  case (Some c)
  have "call_effect (cc_contract call) (lossy_changes (hx_state_changes res)) e
      (commit_hosted call res (e\<lparr>we_leaked := we_leaked e\<rparr>))"
    by (rule commit_hosted_effect [OF assms(1) Some assms(2)])
  then show ?thesis by auto
qed

lemma saturating_succ: "saturating_add N 1 = (if N = - 1 then - 1 else (N :: u64) + 1)"
proof (cases "N = - 1")
  case False
  then have "unat N \<noteq> unat (- 1 :: u64)" by (simp add: word_unat_eq_iff)
  then have "unat N + 1 < 2 ^ 64" using unat_less_exp [of N] by (simp add: unat_minus_one_max)
  with False show ?thesis by (simp add: saturating_add_def checked_add_def)
qed (simp add: saturating_add_def checked_add_def unat_minus_one_max)

lemma saturating_succ_mono:
  "n < N \<or> N = - 1 \<Longrightarrow> n < saturating_add N 1 \<or> saturating_add N 1 = (- 1 :: u64)"
  "N < saturating_add N 1 \<or> saturating_add N 1 = (- 1 :: u64)"
proof -
  have "unat (N + 1) = unat N + 1" if "N \<noteq> - 1"
  proof -
    have "unat N \<noteq> unat (- 1 :: u64)" using that by (simp add: word_unat_eq_iff)
    then show ?thesis using unat_less_exp [of N] by (simp add: unat_minus_one_max unat_add_exact)
  qed
  then show "n < N \<or> N = - 1 \<Longrightarrow> n < saturating_add N 1 \<or> saturating_add N 1 = (- 1 :: u64)"
    "N < saturating_add N 1 \<or> saturating_add N 1 = (- 1 :: u64)"
    by (auto simp: saturating_succ word_less_nat_alt)
qed

lemma deploy_contract_cases:
  assumes "deploy_contract ve owner bytecode st bn e = (r, e')"
  obtains (refused) "e' = e" "\<not> is_ok r"
  | (deployed) a where "r = Ok a" "a = contract_address ve owner (owner_nonce e owner) bn"
    "we_contracts e' = bt_insert a (new_contract ve owner bytecode st bn a) (we_contracts e)"
    "we_nonce e' = bt_insert owner (saturating_add (owner_nonce e owner) 1) (we_nonce e)"
  using assms by (auto simp: deploy_contract_def Let_def split: if_splits)

lemma deploy_keeps_inv:
  assumes "engine_inv ve e" "bt_ok st"
  shows "engine_inv ve (snd (deploy_contract ve owner bytecode st bn e))"
proof -
  obtain r e' where d: "deploy_contract ve owner bytecode st bn e = (r, e')" by fastforce
  let ?n = "owner_nonce e owner"
  from d have "engine_inv ve e'"
  proof (cases rule: deploy_contract_cases)
    case refused
    then show ?thesis using assms(1) by simp
  next
    case (deployed a)
    have nonce: "owner_nonce e' o' = (if o' = owner then saturating_add ?n 1 else owner_nonce e o')" for o'
      by (simp add: owner_nonce_def deployed(4))
    have mono: "nonce_used e o' n \<Longrightarrow> nonce_used e' o' n" for o' n
      using saturating_succ_mono(1) by (auto simp: nonce_used_def nonce)
    have "nonce_used e' owner ?n" using saturating_succ_mono(2) [of ?n] by (auto simp: nonce_used_def nonce)
    then have new: "address_ok ve e' a (new_contract ve owner bytecode st bn a)"
      using deployed(2) by (auto simp: address_ok_def new_contract_def)
    have old: "address_ok ve e a c' \<Longrightarrow> address_ok ve e' a c'" for a c'
      using mono by (auto simp: address_ok_def)
    show ?thesis
      using assms new old deployed(3) by (auto simp: engine_inv_def engine_ok_def new_contract_def)
  qed
  with d show ?thesis by simp
qed

lemma send_keeps_inv: "engine_inv ve e \<Longrightarrow> engine_inv ve (snd (send_to_contract addr amount e))"
  by (auto simp: send_to_contract_def engine_inv_def engine_ok_def address_ok_def nonce_used_def owner_nonce_def
      split: option.split)

lemma engine_step_inv:
  assumes "engine_inv ve e" "engine_step ve mainnet rt e e'"
  shows "engine_inv ve e'"
  using assms(2)
proof cases
  case (engine_deploy st owner bytecode bn)
  then show ?thesis using deploy_keeps_inv assms(1) by blast
next
  case (engine_call w1 w2 now call)
  have ok: "engine_ok e" using assms(1) by (simp add: engine_inv_def)
  obtain r where r: "call_contract ve mainnet rt w1 w2 now call e = (r, e')" using engine_call by (metis surjective_pairing)
  obtain ch where "call_effect (cc_contract call) ch e e'" using call_contract_effect [OF ok r] by blast
  moreover have "bt_ok (we_contracts e')"
    using call_contract_bt_ok [of e ve mainnet rt w1 w2 now call] ok r by (simp add: engine_ok_def)
  ultimately show ?thesis by (rule call_effect_engine_inv [OF assms(1)])
next
  case (engine_commit res call)
  have ok: "engine_ok e" using assms(1) by (simp add: engine_inv_def)
  obtain ch where "call_effect (cc_contract call) ch e e'"
    using commit_hosted_any_effect [OF ok] engine_commit by blast
  moreover have "bt_ok (we_contracts e')"
    using ok engine_commit by (auto simp: engine_ok_def commit_hosted_def split: option.split)
  ultimately show ?thesis by (rule call_effect_engine_inv [OF assms(1)])
next
  case (engine_send addr amount)
  then show ?thesis using send_keeps_inv assms(1) by blast
qed

interpretation engine: invariant_system "engine_step ve mainnet rt" "engine_inv ve"
  by unfold_locales (rule engine_step_inv)

section \<open>A small module\<close>

text \<open>
  A runtime for the examples: every module links and exports a memory with the text \<open>kvLOSB\<close>; a call writes
  \<open>v\<close> under \<open>k\<close>, asks for a transfer of 5 CIL to \<open>LOSB\<close>, uses 10 units of gas and returns the given code.
\<close>

definition demo_vm :: vm_env where
  "demo_vm = \<lparr>blake3 = (\<lambda>bs. bs), vm_hex = string_of_bytes, json_string_map = (\<lambda>s. None)\<rparr>"

definition demo_guest :: "i32 \<Rightarrow> u64 \<Rightarrow> guest_run" where
  "demo_guest code gas =
     \<lparr>gr_calls = [(as_bytes ''kvLOSB'', Host_Set_State 0 1 1 1), (as_bytes ''kvLOSB'', Host_Transfer 2 4 5 0)],
      gr_result = Inr [I32_Value code], gr_points = Remaining (gas - 10)\<rparr>"

definition demo_rt :: "i32 \<Rightarrow> wasm_runtime" where
  "demo_rt code =
     \<lparr>rt_module = (\<lambda>bc. None), rt_instance = (\<lambda>bc g d. ([], None)), rt_exports_memory = (\<lambda>bc. True),
      rt_function = (\<lambda>bc f. Inr 0), rt_call = (\<lambda>bc f args g d. demo_guest code g)\<rparr>"

definition demo_code :: bytes where
  "demo_code = wasm_magic @ [1, 0, 0, 0]"

definition demo_call :: contract_call where
  "demo_call = \<lparr>cc_contract = ''LOSCona:0:7'', cc_function = ''f'', cc_args = [], cc_gas_limit = 200, cc_caller = ''LOSA'',
     cc_block_timestamp = 9\<rparr>"

definition demo_deployed :: wasm_engine where
  "demo_deployed = snd (deploy_contract demo_vm ''a'' demo_code [] 7 wasm_engine_new)"

definition demo_contract :: contract where
  "demo_contract = (new_contract demo_vm ''a'' demo_code [] 7 ''LOSCona:0:7'')\<lparr>wc_balance := 5\<rparr>"

definition demo_engine :: wasm_engine where
  "demo_engine = snd (send_to_contract ''LOSCona:0:7'' 5 demo_deployed)"

lemma demo_address: "contract_address demo_vm ''a'' 0 7 = ''LOSCona:0:7''"
  by (simp add: contract_address_def contract_addr_input_def demo_vm_def uint_to_string_def nat_to_string.simps
      digit_char_def char_of_def bit_0 as_bytes_def string_of_bytes_def)

lemma demo_deployed_eq:
  "demo_deployed = \<lparr>we_contracts = [(''LOSCona:0:7'', demo_contract\<lparr>wc_balance := 0\<rparr>)], we_nonce = [(''a'', 1)], we_leaked = 0\<rparr>"
  by (simp add: demo_deployed_def deploy_contract_def Let_def demo_code_def wasm_magic_def MAX_BYTECODE_SIZE_def
      wasm_engine_new_def owner_nonce_def demo_address saturating_succ demo_contract_def new_contract_def)

lemma demo_engine_eq:
  "demo_engine = \<lparr>we_contracts = [(''LOSCona:0:7'', demo_contract)], we_nonce = [(''a'', 1)], we_leaked = 0\<rparr>"
  by (simp add: demo_engine_def send_to_contract_def demo_deployed_eq saturating_add_def checked_add_def demo_contract_def
      new_contract_def)

lemma demo_engine_reachable: "(engine_step demo_vm mainnet rt)\<^sup>*\<^sup>* wasm_engine_new demo_engine"
proof -
  have "engine_step demo_vm mainnet rt wasm_engine_new demo_deployed"
    unfolding demo_deployed_def by (rule engine_deploy) simp
  moreover have "engine_step demo_vm mainnet rt demo_deployed demo_engine"
    unfolding demo_engine_def by (rule engine_send)
  ultimately show ?thesis by (meson rtranclp.rtrancl_into_rtrancl rtranclp.rtrancl_refl)
qed

definition demo_result :: "i32 \<Rightarrow> host_exec_result" where
  "demo_result code = \<lparr>hx_return_code = code, hx_return_data = [], hx_gas_used = 110,
     hx_state_changes = [(''k'', as_bytes ''v'')], hx_events = [], hx_transfers = [(''LOSB'', 5)], hx_logs = [],
     hx_sdk_mode = True\<rparr>"

lemma demo_host_calls:
  assumes "hd_balance d = 5" "hd_state d = []" "hd_dirty_keys d = []" "hd_transfers d = []"
  shows "guest_calls ve [(Some (as_bytes ''kvLOSB''), Host_Set_State 0 1 1 1),
      (Some (as_bytes ''kvLOSB''), Host_Transfer 2 4 5 0)] d =
    d\<lparr>hd_state := [(''k'', as_bytes ''v'')], hd_dirty_keys := [''k''], hd_balance := 0, hd_transfers := [(''LOSB'', 5)]\<rparr>"
proof -
  have valid: "utf8_valid (as_bytes ''k'')" "utf8_valid (as_bytes ''LOSB'')"
    by (rule utf8_valid_ascii, simp add: as_bytes_def)+
  show ?thesis
    using assms valid
    by (simp add: guest_calls_def guest_call_def host_set_state_fn_def host_transfer_fn_def read_guest_string_def
        read_guest_bytes_def HOST_MAX_STATE_KEY_SIZE_def MAX_STATE_VALUE_SIZE_def MAX_STATE_KEYS_def MAX_TRANSFERS_def
        from_utf8_def transfer_amount_def as_bytes_def string_of_bytes_def Let_def)
      (simp add: char_of_def bit_0)
qed

lemma demo_admitted: "admission_error 0 demo_code 200 = None"
  by (simp add: admission_error_def MAX_LEAKED_THREADS_def compile_gas_def GAS_PER_KB_BYTECODE_def MAX_BYTECODE_SIZE_def
      demo_code_def wasm_magic_def)

lemma hosted_demo_run: "run_hosted demo_vm (demo_rt code) Delivered now demo_call demo_contract 0 = (Ok (demo_result code), 0)"
proof -
  let ?d0 = "initial_host_data [] ''LOSA'' ''LOSCona:0:7'' [] 5 9"
  have calls: "guest_calls demo_vm [(Some (as_bytes ''kvLOSB''), Host_Set_State 0 1 1 1),
      (Some (as_bytes ''kvLOSB''), Host_Transfer 2 4 5 0)] ?d0 =
    ?d0\<lparr>hd_state := [(''k'', as_bytes ''v'')], hd_dirty_keys := [''k''], hd_balance := 0, hd_transfers := [(''LOSB'', 5)]\<rparr>"
    by (rule demo_host_calls) (simp_all add: initial_host_data_def)
  have gas: "compile_gas demo_code = 100" by (simp add: compile_gas_def demo_code_def wasm_magic_def GAS_PER_KB_BYTECODE_def)
  note adm = demo_admitted
  show ?thesis
    by (simp add: run_hosted_def execute_wasm_hosted_def demo_contract_def new_contract_def demo_call_def adm gas
        hosted_thread_def hosted_instance_def hosted_run_def demo_rt_def demo_guest_def calls Let_def demo_result_def
        call_timestamp_def dirty_changes_def)
       (simp add: initial_host_data_def)
qed

lemma demo_try: "try_hosted_call demo_vm (demo_rt code) Delivered now demo_call demo_engine =
  (Ok (Some (hosted_result (demo_result code))), commit_hosted demo_call (demo_result code) demo_engine)"
  using hosted_demo_run [of code now]
  by (simp add: try_hosted_call_def demo_engine_eq demo_call_def demo_contract_def new_contract_def demo_code_def wasm_magic_def)

lemma demo_called: "call_contract demo_vm mainnet (demo_rt code) Delivered w2 now demo_call demo_engine =
  (Ok (hosted_result (demo_result code)), commit_hosted demo_call (demo_result code) demo_engine)"
  by (simp add: call_contract_def demo_try)

section \<open>Properties\<close>

text \<open>C23: every engine that deployments, calls, delayed commits and deposits reach from a new one is well
  formed: its maps are ordered without duplicates, and every contract is stored under its own address, which
  belongs to its owner, a nonce the owner has used, and its block number.\<close>

theorem reachable_engine_well_formed:
  assumes "(engine_step ve mainnet rt)\<^sup>*\<^sup>* wasm_engine_new e"
  shows "engine_inv ve e"
  by (rule engine.reach_inv [OF assms engine_inv_new])

theorem reachable_engine_well_formed_witness: "engine_inv demo_vm demo_engine"
  by (rule reachable_engine_well_formed [OF demo_engine_reachable [of True "demo_rt 0"]])

text \<open>C22: whatever the module does, a successful call in a reachable engine uses at most its gas limit,
  changes the state of the called contract exactly by the changes it reports, never raises that contract's
  balance, and changes no other contract, no code, no owner and no nonce.\<close>

theorem contract_call_within_limits:
  assumes "(engine_step ve mainnet rt)\<^sup>*\<^sup>* wasm_engine_new e"
    and "call_contract ve mainnet rt w1 w2 now call e = (Ok res, e')"
  shows "cr_gas_used res \<le> cc_gas_limit call \<and> call_effect (cc_contract call) (cr_state_changes res) e e'"
proof -
  have "engine_ok e"
    using engine.reach_inv [OF assms(1) engine_inv_new] by (simp add: engine_inv_def)
  from call_contract_effect [OF this assms(2)] show ?thesis by blast
qed

theorem contract_call_within_limits_witness:
  "cr_gas_used (hosted_result (demo_result 0)) \<le> cc_gas_limit demo_call \<and>
   call_effect (cc_contract demo_call) (cr_state_changes (hosted_result (demo_result 0))) demo_engine
     (commit_hosted demo_call (demo_result 0) demo_engine)"
  by (rule contract_call_within_limits [OF demo_engine_reachable demo_called [of True 0 Delivered 0]])

text \<open>A hosted execution asks for at most 64 transfers whose sum the contract's balance covers, and
  committing it to the contract it ran on takes exactly that sum.\<close>

theorem hosted_transfers_are_covered:
  assumes "bt_ok (wc_state c)" "run_hosted ve rt w now call c leaked = (Ok res, leaked')"
  shows "length (hx_transfers res) \<le> MAX_TRANSFERS \<and>
    unat (wc_balance (commit_contract res c)) + transfer_total (hx_transfers res) = unat (wc_balance c)"
  using run_hosted_bounds [OF assms] by (simp add: commit_contract_balance)

theorem hosted_transfers_are_covered_witness:
  "length (hx_transfers (demo_result 0)) \<le> MAX_TRANSFERS \<and>
   unat (wc_balance (commit_contract (demo_result 0) demo_contract)) + transfer_total (hx_transfers (demo_result 0)) =
     unat (wc_balance demo_contract)"
  by (rule hosted_transfers_are_covered [OF _ hosted_demo_run [of 0 0]]) (simp add: demo_contract_def new_contract_def)

lemma mainnet_failure:
  assumes "call_contract ve True rt w1 w2 now call e = (Err err, e')"
  shows "we_contracts e' = we_contracts e \<and> we_nonce e' = we_nonce e"
proof -
  obtain hr e1 where h: "try_hosted_call ve rt w1 now call e = (hr, e1)" by fastforce
  have no: "\<forall>res. hr \<noteq> Ok (Some res)" using assms h by (auto simp: call_contract_def)
  note un = try_hosted_unchanged [OF h no]
  have "we_contracts (snd (call_fallback True rt w2 call e1)) = we_contracts e1 \<and>
      we_nonce (snd (call_fallback True rt w2 call e1)) = we_nonce e1"
    by (simp add: call_fallback_def split: option.split result.split prod.split)
  with un assms h no show ?thesis
    by (auto simp: call_contract_def split: result.splits option.splits)
qed

text \<open>on mainnet a call that fails for any reason leaves every contract and nonce as it was.\<close>

theorem mainnet_failed_call_changes_nothing:
  assumes "call_contract ve True rt w1 w2 now call e = (Err err, e')"
  shows "we_contracts e' = we_contracts e \<and> we_nonce e' = we_nonce e"
  by (rule mainnet_failure [OF assms])

lemma call_times_out:
  assumes "bt_get (we_contracts e) (cc_contract call) = Some c" "wc_bytecode c = demo_code" "we_leaked e = 0"
    and "cc_gas_limit call = 200"
  shows "call_contract ve mainnet rt Timed_Out w2 now call e = (Err timeout_error, e\<lparr>we_leaked := 1\<rparr>)"
proof -
  have fatal: "hosted_fatal timeout_error"
    by (simp add: hosted_fatal_def timeout_error_def starts_with_def)
  have "4 \<le> length demo_code" "take 4 demo_code = wasm_magic" by (simp_all add: demo_code_def wasm_magic_def)
  then show ?thesis
    using assms
    by (simp add: call_contract_def try_hosted_call_def run_hosted_def execute_wasm_hosted_def demo_admitted fatal Let_def)
qed

theorem mainnet_failed_call_changes_nothing_witness:
  "we_contracts (demo_engine\<lparr>we_leaked := 1\<rparr>) = we_contracts demo_engine \<and>
   we_nonce (demo_engine\<lparr>we_leaked := 1\<rparr>) = we_nonce demo_engine"
  by (rule mainnet_failed_call_changes_nothing [OF call_times_out [where call = demo_call and c = demo_contract]])
    (simp_all add: demo_engine_eq demo_call_def demo_contract_def new_contract_def)

text \<open>The text that is hashed determines owner, nonce and block number, whatever the owner contains.\<close>

lemma contract_addr_input_inject:
  "contract_addr_input o1 n1 b1 = contract_addr_input o2 n2 b2 \<longleftrightarrow> o1 = o2 \<and> n1 = n2 \<and> b1 = b2"
proof -
  have "contract_addr_input o1 n1 b1 = contract_addr_input o2 n2 b2 \<longleftrightarrow>
      (o1 @ '':'' @ uint_to_string n1) @ CHR '':'' # uint_to_string b1 =
      (o2 @ '':'' @ uint_to_string n2) @ CHR '':'' # uint_to_string b2"
    by (simp add: contract_addr_input_def)
  also have "\<dots> \<longleftrightarrow> (o1 @ CHR '':'' # uint_to_string n1 = o2 @ CHR '':'' # uint_to_string n2) \<and>
      uint_to_string b1 = uint_to_string b2"
    by (subst last_sep_split) (simp_all add: uint_to_string_def colon_not_digit)
  also have "\<dots> \<longleftrightarrow> o1 = o2 \<and> n1 = n2 \<and> b1 = b2"
    by (subst last_sep_split) (auto simp: uint_to_string_def colon_not_digit uint_to_string_inject [unfolded uint_to_string_def])
  finally show ?thesis .
qed

text \<open>in a reachable engine a deployment never replaces a contract, as long as the owner has
  deployed fewer than 2^64 - 1 contracts and the shortened hash of its input does not collide with one of the
  inputs used before.\<close>

theorem deploy_never_replaces_contract:
  assumes "(engine_step ve mainnet rt)\<^sup>*\<^sup>* wasm_engine_new e"
    and "\<forall>o' n b. nonce_used e o' n \<and> contract_addr_input o' n b \<noteq> contract_addr_input owner (owner_nonce e owner) bn \<longrightarrow>
      contract_address ve o' n b \<noteq> contract_address ve owner (owner_nonce e owner) bn"
    and "owner_nonce e owner \<noteq> - 1"
    and "deploy_contract ve owner bytecode st bn e = (Ok a, e')"
  shows "bt_get (we_contracts e) a = None \<and>
    bt_get (we_contracts e') a = Some (new_contract ve owner bytecode st bn a) \<and>
    (\<forall>a'. a' \<noteq> a \<longrightarrow> bt_get (we_contracts e') a' = bt_get (we_contracts e) a')"
proof -
  have inv: "engine_inv ve e" by (rule engine.reach_inv [OF assms(1) engine_inv_new])
  have a: "a = contract_address ve owner (owner_nonce e owner) bn"
    and e': "we_contracts e' = bt_insert a (new_contract ve owner bytecode st bn a) (we_contracts e)"
    using assms(4) by (auto elim: deploy_contract_cases)
  have "bt_get (we_contracts e) a = None"
  proof (rule ccontr)
    assume "bt_get (we_contracts e) a \<noteq> None"
    then obtain c where "bt_get (we_contracts e) a = Some c" by blast
    then have "address_ok ve e a c" using inv by (simp add: engine_inv_def)
    then obtain n where c: "nonce_used e (wc_owner c) n" "a = contract_address ve (wc_owner c) n (wc_created_at_block c)"
      by (auto simp: address_ok_def)
    then have "contract_addr_input (wc_owner c) n (wc_created_at_block c) =
        contract_addr_input owner (owner_nonce e owner) bn"
      using assms(2) a by metis
    with c(1) assms(3) show False by (simp add: contract_addr_input_inject nonce_used_def)
  qed
  with e' show ?thesis by simp
qed

lemma demo_no_collision:
  "contract_address demo_vm ''a'' 0 b \<noteq> contract_address demo_vm ''a'' 1 8"
proof -
  have "take 3 (contract_addr_input ''a'' 0 b) = ''a:0''" "take 3 (contract_addr_input ''a'' 1 8) = ''a:1''"
    by (simp_all add: contract_addr_input_def uint_to_string_def nat_to_string.simps [of 0] nat_to_string.simps [of "Suc 0"]
        digit_char_def char_of_def bit_0)
  then have "take 3 (take 16 (contract_addr_input ''a'' 0 b)) \<noteq> take 3 (take 16 (contract_addr_input ''a'' 1 8))"
    by simp
  then have "take 16 (contract_addr_input ''a'' 0 b) \<noteq> take 16 (contract_addr_input ''a'' 1 8)" by metis
  moreover have "take 16 (as_bytes s) = as_bytes (take 16 s)" for s
    by (simp add: as_bytes_def take_map)
  then have "contract_address demo_vm ow n bl = ''LOSCon'' @ take 16 (contract_addr_input ow n bl)" for ow n bl
    by (simp add: contract_address_def demo_vm_def)
  ultimately show ?thesis by simp
qed

theorem deploy_never_replaces_contract_witness:
  "\<exists>a e'. deploy_contract demo_vm ''a'' demo_code [] 8 demo_engine = (Ok a, e') \<and>
    bt_get (we_contracts demo_engine) a = None"
proof -
  obtain a e' where d: "deploy_contract demo_vm ''a'' demo_code [] 8 demo_engine = (Ok a, e')"
    by (simp add: deploy_contract_def Let_def demo_code_def wasm_magic_def MAX_BYTECODE_SIZE_def)
  have nonce: "owner_nonce demo_engine o' = (if o' = ''a'' then 1 else 0)" for o'
    by (simp add: owner_nonce_def demo_engine_eq)
  have "bt_get (we_contracts demo_engine) a = None \<and>
    bt_get (we_contracts e') a = Some (new_contract demo_vm ''a'' demo_code [] 8 a) \<and>
    (\<forall>a'. a' \<noteq> a \<longrightarrow> bt_get (we_contracts e') a' = bt_get (we_contracts demo_engine) a')"
    by (rule deploy_never_replaces_contract [OF demo_engine_reachable [of True "demo_rt 0"] _ _ d])
      (auto simp: nonce nonce_used_def demo_no_collision split: if_splits)
  with d show ?thesis by blast
qed

section \<open>Defects\<close>

text \<open>
  A deleted key comes back: changes are collected from the keys that still have a value, so the stored
  contract keeps the old value of a key that the guest deleted.
\<close>

lemma deleted_key_survives:
  assumes "bt_ok (wc_state c)" "hx_state_changes res = dirty_changes d" "bt_get (hd_state d) k = None"
  shows "bt_get (wc_state (commit_contract res c)) k = bt_get (wc_state c) k"
proof -
  have "contract_updated c (lossy_changes (hx_state_changes res)) (commit_contract res c)"
    by (rule commit_contract_updated) (simp_all add: assms dirty_changes_ok)
  then show ?thesis
    using assms(2,3) by (simp add: contract_updated_def lossy_changes_def bt_get_map_pair dirty_changes_get)
qed

text \<open>
  Binary values do not survive: \<open>state::set_u128\<close> of the SDK stores 16 little-endian bytes, and the engine
  stores them as text. The number 128 comes back as eighteen bytes that read as another number.
\<close>

lemma binary_value_corrupted:
  "as_bytes (from_utf8_lossy (u128_le_bytes 128)) = [0xEF, 0xBF, 0xBD] @ replicate 15 0"
proof -
  have zeros: "lossy_bytes (replicate n 0) = replicate n 0" for n
    by (rule lossy_bytes_valid) (simp add: utf8_valid_ascii)
  have "u128_le_bytes 128 = map (\<lambda>i. ucast (drop_bit (8 * i) (128 :: u128))) [0, 1, 2, 3, 4, 5, 6, 7, 8, 9, 10, 11, 12, 13, 14, 15]"
    by (simp add: le_bytes_def upt_rec)
  also have "\<dots> = 0x80 # [0, 0, 0, 0, 0, 0, 0, 0, 0, 0, 0, 0, 0, 0, 0]"
    by simp
  also have "[0, 0, 0, 0, 0, 0, 0, 0, 0, 0, 0, 0, 0, 0, 0] = replicate 15 (0 :: u8)"
    by (simp add: numeral_eq_Suc)
  finally have "u128_le_bytes 128 = 0x80 # replicate 15 0" .
  then show ?thesis
    using lossy_bytes.simps [of "0x80 # replicate 15 0"] zeros [of 15]
    by (simp add: from_utf8_lossy_def utf8_scan_def safe_get_def replacement_character_def)
qed

text \<open>A contract call that reports failure through its return code keeps its changes and transfers.\<close>

lemma failing_sdk_call_commits:
  "call_contract demo_vm mainnet (demo_rt 1) Delivered w2 now demo_call demo_engine =
     (Ok (hosted_result (demo_result 1)), commit_hosted demo_call (demo_result 1) demo_engine) \<and>
   \<not> cr_success (hosted_result (demo_result 1)) \<and>
   bt_get (we_contracts (commit_hosted demo_call (demo_result 1) demo_engine)) ''LOSCona:0:7'' =
     Some (demo_contract\<lparr>wc_state := [(''k'', ''v'')], wc_balance := 0\<rparr>)"
proof -
  have "from_utf8_lossy (as_bytes ''v'') = ''v''"
    by (subst from_utf8_lossy_valid) (rule utf8_valid_ascii, simp_all add: as_bytes_def string_of_bytes_def char_of_def bit_0)
  then show ?thesis
    by (simp add: demo_called) (simp add: hosted_result_def demo_result_def commit_hosted_def demo_engine_eq demo_call_def
        commit_contract_def demo_contract_def new_contract_def saturating_sub_def checked_sub_def)
qed

text \<open>
  Two calls that run on the same snapshot both pay from the same balance: each asks for all 5 CIL, both are
  committed, and the saturating subtraction hides that 10 CIL were promised.
\<close>

lemma concurrent_calls_overspend:
  "run_hosted demo_vm (demo_rt 0) Delivered now demo_call demo_contract 0 = (Ok (demo_result 0), 0) \<and>
   transfer_total (hx_transfers (demo_result 0)) + transfer_total (hx_transfers (demo_result 0)) = 10 \<and>
   wc_balance demo_contract = 5 \<and>
   wc_balance (commit_contract (demo_result 0) (commit_contract (demo_result 0) demo_contract)) = 0"
  by (simp add: hosted_demo_run) (simp add: demo_result_def commit_contract_def demo_contract_def new_contract_def
      saturating_sub_def checked_sub_def)

text \<open>On the testnet a mock transfer is debited before its gas is checked, and the debit stays.\<close>

lemma mock_debit_survives_out_of_gas:
  assumes "cc_function call = ''transfer''" "2 \<le> length (cc_args call)" "parse_uint (hd (cc_args call)) = Some amount"
    and "amount \<le> wc_balance c" "cc_gas_limit call < 75"
  shows "\<exists>err. mock_dispatch call c = (Err err, c\<lparr>wc_balance := wc_balance c - amount\<rparr>)"
  using assms by (simp add: mock_dispatch_def mock_function_def mock_spend_def Let_def linorder_not_less)

end
