(* ===== verification/Node_Contracts.thy ===== *)
theory Node_Contracts
  imports Node_Send Wasm_Safety
begin

text \<open>
  Contracts through a node (\<open>los-node/src/main.rs\<close>): the handlers of \<open>POST /deploy-contract\<close> and
  \<open>POST /call-contract\<close>, and the gossip handlers of \<open>CONTRACT_DEPLOYED\<close> and \<open>CONTRACT_CALLED\<close>. They join the
  ledger, which debits the caller, and the contract engine, which credits and runs the contract. JSON and
  Base64 coding are parameters. Writing the engine to the database and the metrics are left out. In a gossip
  handler \<open>None\<close> is a panic of the event loop.
\<close>

section \<open>State\<close>

record contract_node =
  cn_ledger :: ledger
  cn_engine :: wasm_engine
  cn_outbox :: "string list"

record vm_node_env =
  vn_node :: node_env
  vn_vm :: vm_env
  vn_rt :: wasm_runtime
  vn_b64_encode :: "bytes \<Rightarrow> string"
  vn_b64_decode :: "string \<Rightarrow> bytes option"
  vn_args_to_b64 :: "string list \<Rightarrow> string"
  vn_args_of_b64 :: "string \<Rightarrow> string list option"

abbreviation vn_env :: "vm_node_env \<Rightarrow> los_env" where
  "vn_env vn \<equiv> ne_env (vn_node vn)"

record deploy_request =
  dq_bytecode :: string
  dq_initial_state :: "(string, string) btree_map option"
  dq_amount_cil :: "u128 option"
  dq_signature :: "string option"
  dq_public_key :: "string option"
  dq_previous :: "string option"
  dq_work :: "u64 option"
  dq_timestamp :: "u64 option"
  dq_fee :: "u128 option"

record call_request =
  lq_contract_address :: string
  lq_function :: string
  lq_args :: "string list"
  lq_gas_limit :: "u64 option"
  lq_caller :: "string option"
  lq_amount_cil :: "u128 option"
  lq_signature :: "string option"
  lq_public_key :: "string option"
  lq_previous :: "string option"
  lq_work :: "u64 option"
  lq_timestamp :: "u64 option"
  lq_fee :: "u128 option"

datatype contract_error =
    InvalidBase64
  | BlockSigningFailed
  | LedgerRefused ledger_error
  | VmDeployFailed string
  | ValueTransferFailed string
  | ExecutionFailed string

definition DEFAULT_GAS_LIMIT :: u64 where
  "DEFAULT_GAS_LIMIT = 1000000"

definition GAS_PRICE_CIL :: u128 where
  "GAS_PRICE_CIL = 1"

section \<open>Blocks of a request\<close>

definition head_or_zero :: "ledger \<Rightarrow> string \<Rightarrow> string" where
  "head_or_zero L account = (case bt_get (accounts L) account of Some a \<Rightarrow> acc_head a | None \<Rightarrow> ''0'')"

text \<open>
  The account and the key of the block: of the client when the request carries a signature and a key, where the
  address is derived from the key; of the node otherwise. A call may name another account as the caller of a
  block that the node signs.
\<close>

definition block_identity :: "vm_node_env \<Rightarrow> string option \<Rightarrow> string option \<Rightarrow> string \<Rightarrow> string \<times> string" where
  "block_identity vn signature public_key node_account =
     (case (signature, public_key) of
        (Some _, Some pk_hex) \<Rightarrow> (public_key_to_address (vn_env vn) (hex_decode_or_empty (vn_env vn) pk_hex), pk_hex)
      | _ \<Rightarrow> (node_account, hex_encode (vn_env vn) (ne_public_key (vn_node vn))))"

definition client_signed :: "string option \<Rightarrow> string option \<Rightarrow> bool" where
  "client_signed signature public_key \<longleftrightarrow> signature \<noteq> None \<and> public_key \<noteq> None"

text \<open>A client's block takes its signature from the request; the node solves the work and signs its own.\<close>

definition seal_block :: "vm_node_env \<Rightarrow> string option \<Rightarrow> string option \<Rightarrow> block \<Rightarrow> block option" where
  "seal_block vn signature public_key blk =
     (if client_signed signature public_key then Some (blk\<lparr>blk_signature := option_or signature []\<rparr>)
      else
        let blk = solve_pow (vn_env vn) blk in
        map_option (\<lambda>sig. blk\<lparr>blk_signature := sig\<rparr>)
          (try_sign_hex (vn_node vn) (as_bytes (signing_hash (vn_env vn) blk))))"

definition deploy_block :: "vm_node_env \<Rightarrow> clock \<Rightarrow> deploy_request \<Rightarrow> bytes \<Rightarrow> ledger \<Rightarrow> block option" where
  "deploy_block vn ck rq bytecode L =
     (let (account, pub_key_hex) = block_identity vn (dq_signature rq) (dq_public_key rq) (ne_address (vn_node vn));
          head = head_or_zero L account in
      seal_block vn (dq_signature rq) (dq_public_key rq)
        \<lparr>blk_account = account,
         blk_previous = (if client_signed (dq_signature rq) (dq_public_key rq) then option_or (dq_previous rq) head else head),
         blk_type = ContractDeploy, blk_amount = option_or (dq_amount_cil rq) 0,
         blk_link = ''DEPLOY:'' @ compute_code_hash (vn_vm vn) bytecode, blk_signature = [],
         blk_public_key = pub_key_hex, blk_work = option_or (dq_work rq) 0,
         blk_timestamp = option_or (dq_timestamp rq) (ck_secs ck), blk_fee = option_or (dq_fee rq) MIN_DEPLOY_FEE_CIL\<rparr>)"

definition call_gas :: "call_request \<Rightarrow> u64" where
  "call_gas rq = option_or (lq_gas_limit rq) DEFAULT_GAS_LIMIT"

definition call_link :: "vm_node_env \<Rightarrow> call_request \<Rightarrow> string" where
  "call_link vn rq = ''CALL:'' @ lq_contract_address rq @ '':'' @ lq_function rq @ '':'' @ vn_args_to_b64 vn (lq_args rq)"

definition call_block :: "vm_node_env \<Rightarrow> clock \<Rightarrow> call_request \<Rightarrow> ledger \<Rightarrow> block option" where
  "call_block vn ck rq L =
     (let (account, pub_key_hex) = block_identity vn (lq_signature rq) (lq_public_key rq)
            (option_or (lq_caller rq) (ne_address (vn_node vn)));
          head = head_or_zero L account in
      seal_block vn (lq_signature rq) (lq_public_key rq)
        \<lparr>blk_account = account,
         blk_previous = (if client_signed (lq_signature rq) (lq_public_key rq) then option_or (lq_previous rq) head else head),
         blk_type = ContractCall, blk_amount = option_or (lq_amount_cil rq) 0, blk_link = call_link vn rq,
         blk_signature = [], blk_public_key = pub_key_hex, blk_work = option_or (lq_work rq) 0,
         blk_timestamp = option_or (lq_timestamp rq) (ck_secs ck),
         blk_fee = option_or (lq_fee rq) (max MIN_CALL_FEE_CIL (saturating_mul (ucast (call_gas rq)) GAS_PRICE_CIL))\<rparr>)"

section \<open>Request handlers\<close>

definition fund_contract :: "string \<Rightarrow> u128 \<Rightarrow> wasm_engine \<Rightarrow> wasm_engine" where
  "fund_contract addr amount e = (if amount > 0 then snd (send_to_contract addr amount e) else e)"

definition handle_deploy :: "vm_node_env \<Rightarrow> clock \<Rightarrow> deploy_request \<Rightarrow> contract_node \<Rightarrow>
   (string, contract_error) result \<times> contract_node" where
  "handle_deploy vn ck rq cn =
     (case vn_b64_decode vn (dq_bytecode rq) of
        None \<Rightarrow> (Err InvalidBase64, cn)
      | Some bytecode \<Rightarrow>
          (case deploy_block vn ck rq bytecode (cn_ledger cn) of
             None \<Rightarrow> (Err BlockSigningFailed, cn)
           | Some blk \<Rightarrow>
               (case process_block (vn_env vn) (ck_secs ck) blk (cn_ledger cn) of
                  (Panic, L) \<Rightarrow> (Panic, cn\<lparr>cn_ledger := L\<rparr>)
                | (Err err, L) \<Rightarrow> (Err (LedgerRefused err), cn\<lparr>cn_ledger := L\<rparr>)
                | (Ok _, L) \<Rightarrow>
                    (case deploy_contract (vn_vm vn) (blk_account blk) bytecode (option_or (dq_initial_state rq) [])
                            (ck_secs ck) (cn_engine cn) of
                       (Panic, e) \<Rightarrow> (Panic, cn\<lparr>cn_ledger := L, cn_engine := e\<rparr>)
                     | (Err msg, e) \<Rightarrow> (Err (VmDeployFailed msg), cn\<lparr>cn_ledger := L, cn_engine := e\<rparr>)
                     | (Ok addr, e) \<Rightarrow>
                         (Ok addr,
                          cn\<lparr>cn_ledger := L, cn_engine := fund_contract addr (blk_amount blk) e,
                             cn_outbox := cn_outbox cn @
                               [colon_join [''CONTRACT_DEPLOYED'', ne_block_to_b64 (vn_node vn) blk,
                                            vn_b64_encode vn bytecode, addr]]\<rparr>)))))"

definition request_call :: "call_request \<Rightarrow> block \<Rightarrow> contract_call" where
  "request_call rq blk =
     \<lparr>cc_contract = lq_contract_address rq, cc_function = lq_function rq, cc_args = lq_args rq,
      cc_gas_limit = call_gas rq, cc_caller = blk_account blk, cc_block_timestamp = blk_timestamp blk\<rparr>"

text \<open>After the ledger accepted the block: value to the contract, then the call.\<close>

definition execute_request :: "vm_node_env \<Rightarrow> wait_outcome \<Rightarrow> wait_outcome \<Rightarrow> clock \<Rightarrow> call_request \<Rightarrow> block \<Rightarrow>
   contract_node \<Rightarrow> (contract_result, contract_error) result \<times> contract_node" where
  "execute_request vn w1 w2 ck rq blk cn =
     (case (if blk_amount blk > 0 then send_to_contract (lq_contract_address rq) (blk_amount blk) (cn_engine cn)
            else (Ok (), cn_engine cn)) of
        (Err msg, e) \<Rightarrow> (Err (ValueTransferFailed msg), cn\<lparr>cn_engine := e\<rparr>)
      | (Panic, e) \<Rightarrow> (Panic, cn\<lparr>cn_engine := e\<rparr>)
      | (Ok _, e) \<Rightarrow>
          (case call_contract (vn_vm vn) (mainnet_feature (vn_env vn)) (vn_rt vn) w1 w2 (ck_secs ck)
                  (request_call rq blk) e of
             (Ok res, e') \<Rightarrow>
               (Ok res, cn\<lparr>cn_engine := e',
                           cn_outbox := cn_outbox cn @ [colon_join [''CONTRACT_CALLED'', ne_block_to_b64 (vn_node vn) blk]]\<rparr>)
           | (Err msg, e') \<Rightarrow> (Err (ExecutionFailed msg), cn\<lparr>cn_engine := e'\<rparr>)
           | (Panic, e') \<Rightarrow> (Panic, cn\<lparr>cn_engine := e'\<rparr>)))"

definition handle_call :: "vm_node_env \<Rightarrow> wait_outcome \<Rightarrow> wait_outcome \<Rightarrow> clock \<Rightarrow> call_request \<Rightarrow> contract_node \<Rightarrow>
   (contract_result, contract_error) result \<times> contract_node" where
  "handle_call vn w1 w2 ck rq cn =
     (case call_block vn ck rq (cn_ledger cn) of
        None \<Rightarrow> (Err BlockSigningFailed, cn)
      | Some blk \<Rightarrow>
          (case process_block (vn_env vn) (ck_secs ck) blk (cn_ledger cn) of
             (Panic, L) \<Rightarrow> (Panic, cn\<lparr>cn_ledger := L\<rparr>)
           | (Err err, L) \<Rightarrow> (Err (LedgerRefused err), cn\<lparr>cn_ledger := L\<rparr>)
           | (Ok _, L) \<Rightarrow> execute_request vn w1 w2 ck rq blk (cn\<lparr>cn_ledger := L\<rparr>)))"

section \<open>Gossip handlers\<close>

text \<open>
  Both handlers accept a block of their type with a valid signature and valid work that is new to the ledger,
  and debit its account directly. \<open>None\<close> in the outer option is a panic, in the inner one a refusal.
\<close>

definition gossip_debit :: "los_env \<Rightarrow> block \<Rightarrow> ledger \<Rightarrow> (bool \<times> ledger) option" where
  "gossip_debit env blk L =
     (let L = ensure_account (blk_account blk) L; st = account_or_default L (blk_account blk) in
      if debit_refused blk L then
        (if acc_head st \<noteq> blk_previous blk \<and> \<not> printable [blk_account blk, acc_head st, blk_previous blk] then None
         else Some (False, L))
      else Some (True, direct_debit blk (calculate_hash env blk) L))"

definition code_hash_matches :: "string \<Rightarrow> string \<Rightarrow> bool" where
  "code_hash_matches code_hash expected_hash \<longleftrightarrow>
     starts_with code_hash expected_hash \<or>
     starts_with expected_hash (take (min (length expected_hash) (length code_hash)) code_hash)"

definition gossip_block_valid :: "los_env \<Rightarrow> block_type \<Rightarrow> string \<Rightarrow> block \<Rightarrow> bool" where
  "gossip_block_valid env t pfx blk \<longleftrightarrow>
     blk_type blk = t \<and> verify_signature env blk \<and> verify_pow env blk \<and> starts_with (blk_link blk) pfx"

definition replicate_deploy :: "vm_node_env \<Rightarrow> clock \<Rightarrow> block \<Rightarrow> bytes \<Rightarrow> wasm_engine \<Rightarrow> wasm_engine option" where
  "replicate_deploy vn ck blk bytecode e =
     (if code_hash_matches (compute_code_hash (vn_vm vn) bytecode) (drop 7 (blk_link blk)) then
        (case deploy_contract (vn_vm vn) (blk_account blk) bytecode [] (ck_secs ck) e of
           (Ok addr, e') \<Rightarrow>
             if printable [blk_account blk] then Some (fund_contract addr (blk_amount blk) e') else None
         | (_, e') \<Rightarrow> Some e')
      else Some e)"

definition handle_contract_deployed :: "vm_node_env \<Rightarrow> clock \<Rightarrow> string \<Rightarrow> contract_node \<Rightarrow> contract_node option" where
  "handle_contract_deployed vn ck data cn =
     (let env = vn_env vn; parts = str_splitn 4 (CHR '':'') data in
      if length parts \<noteq> 4 then Some cn
      else case (ne_block_of_b64 (vn_node vn) (parts ! 1), vn_b64_decode vn (parts ! 2)) of
             (Some blk, Some bytecode) \<Rightarrow>
               if \<not> gossip_block_valid env ContractDeploy ''DEPLOY:'' blk then Some cn
               else if bt_contains (blocks (cn_ledger cn)) (calculate_hash env blk) then Some cn
               else (case gossip_debit env blk (cn_ledger cn) of
                       None \<Rightarrow> None
                     | Some (False, L) \<Rightarrow> Some (cn\<lparr>cn_ledger := L\<rparr>)
                     | Some (True, L) \<Rightarrow>
                         map_option (\<lambda>e. cn\<lparr>cn_ledger := L, cn_engine := e\<rparr>)
                           (replicate_deploy vn ck blk bytecode (cn_engine cn)))
           | _ \<Rightarrow> Some cn)"

definition linked_call :: "vm_node_env \<Rightarrow> block \<Rightarrow> contract_call option" where
  "linked_call vn blk =
     (let parts = str_splitn 3 (CHR '':'') (drop 5 (blk_link blk)) in
      if length parts < 2 then None
      else Some \<lparr>cc_contract = parts ! 0, cc_function = parts ! 1,
                 cc_args = (if length parts = 3 then option_or (vn_args_of_b64 vn (parts ! 2)) [] else []),
                 cc_gas_limit = ucast (blk_fee blk div max GAS_PRICE_CIL 1),
                 cc_caller = blk_account blk, cc_block_timestamp = blk_timestamp blk\<rparr>)"

definition replicate_call :: "vm_node_env \<Rightarrow> wait_outcome \<Rightarrow> wait_outcome \<Rightarrow> clock \<Rightarrow> block \<Rightarrow> wasm_engine \<Rightarrow> wasm_engine" where
  "replicate_call vn w1 w2 ck blk e =
     (case linked_call vn blk of
        None \<Rightarrow> e
      | Some call \<Rightarrow>
          snd (call_contract (vn_vm vn) (mainnet_feature (vn_env vn)) (vn_rt vn) w1 w2 (ck_secs ck) call
                 (fund_contract (cc_contract call) (blk_amount blk) e)))"

definition handle_contract_called ::
  "vm_node_env \<Rightarrow> wait_outcome \<Rightarrow> wait_outcome \<Rightarrow> clock \<Rightarrow> string \<Rightarrow> contract_node \<Rightarrow> contract_node option" where
  "handle_contract_called vn w1 w2 ck data cn =
     (let env = vn_env vn; parts = str_splitn 2 (CHR '':'') data in
      if length parts \<noteq> 2 then Some cn
      else case ne_block_of_b64 (vn_node vn) (parts ! 1) of
             Some blk \<Rightarrow>
               if \<not> gossip_block_valid env ContractCall ''CALL:'' blk then Some cn
               else if bt_contains (blocks (cn_ledger cn)) (calculate_hash env blk) then Some cn
               else (case gossip_debit env blk (cn_ledger cn) of
                       None \<Rightarrow> None
                     | Some (False, L) \<Rightarrow> Some (cn\<lparr>cn_ledger := L\<rparr>)
                     | Some (True, L) \<Rightarrow>
                         Some (cn\<lparr>cn_ledger := L, cn_engine := replicate_call vn w1 w2 ck blk (cn_engine cn)\<rparr>))
           | None \<Rightarrow> Some cn)"

end
