(* ===== verification/Node_Contracts_Safety.thy ===== *)
theory Node_Contracts_Safety
  imports Node_Contracts Node_Send_Safety
begin

text \<open>
  Value across the ledger and the contracts. A contract request whose block is new to the ledger never creates
  value, whatever the contract does; a request that is sent again does. A gossiped contract block is applied
  whoever signed it, and a replica stores a deployed contract under an address of its own clock.
\<close>

section \<open>Balances of contracts\<close>

definition contracts_total :: "wasm_engine \<Rightarrow> nat" where
  "contracts_total e = bt_sum (\<lambda>c. unat (wc_balance c)) (we_contracts e)"

definition system_value :: "contract_node \<Rightarrow> nat" where
  "system_value cn = ledger_value (cn_ledger cn) + contracts_total (cn_engine cn)"

definition system_inv :: "contract_node \<Rightarrow> bool" where
  "system_inv cn \<longleftrightarrow> ledger_inv (cn_ledger cn) \<and> engine_ok (cn_engine cn)"

lemma contracts_total_insert:
  assumes "bt_ok (we_contracts e)" "we_contracts e' = bt_insert a c (we_contracts e)"
  shows "contracts_total e' + (case bt_get (we_contracts e) a of Some c0 \<Rightarrow> unat (wc_balance c0) | None \<Rightarrow> 0) =
    contracts_total e + unat (wc_balance c)"
  using bt_sum_insert [OF assms(1), of "\<lambda>c. unat (wc_balance c)" a c] assms(2)
  by (simp add: contracts_total_def bt_share_def split: option.split_asm option.split)

lemma call_effect_total:
  assumes "engine_ok e" "call_effect addr ch e e'" "bt_ok (we_contracts e')"
  shows "contracts_total e' \<le> contracts_total e"
  unfolding contracts_total_def
proof (rule bt_sum_mono [OF assms(3)])
  show "bt_ok (we_contracts e)" using assms(1) by (simp add: engine_ok_def)
  show "bt_share (\<lambda>c. unat (wc_balance c)) a (we_contracts e') \<le> bt_share (\<lambda>c. unat (wc_balance c)) a (we_contracts e)" for a
    using assms(2)
    by (cases "a = addr")
      (auto simp: call_effect_def bt_share_def contract_updated_def word_le_nat_alt split: option.splits)
qed

lemma call_effect_ok:
  assumes "engine_ok e" "call_effect addr ch e e'" "bt_ok (we_contracts e')"
  shows "engine_ok e'"
  unfolding engine_ok_def
proof (intro conjI allI impI)
  fix a c
  assume c: "bt_get (we_contracts e') a = Some c"
  show "bt_ok (wc_state c)"
  proof (cases "a = addr")
    case True
    then show ?thesis
      using assms(2) c by (auto simp: call_effect_def contract_updated_def split: option.splits)
  next
    case False
    then show ?thesis using assms(1,2) c by (auto simp: call_effect_def engine_ok_def)
  qed
qed (rule assms(3))

lemma call_contract_total:
  assumes "engine_ok e" "call_contract ve mainnet rt w1 w2 now call e = (r, e')"
  shows "engine_ok e'" "contracts_total e' \<le> contracts_total e"
proof -
  obtain ch where "call_effect (cc_contract call) ch e e'" using call_contract_effect [OF assms] by blast
  moreover have "bt_ok (we_contracts e')"
    using call_contract_bt_ok [of e ve mainnet rt w1 w2 now call] assms by (simp add: engine_ok_def)
  ultimately show "engine_ok e'" "contracts_total e' \<le> contracts_total e"
    using call_effect_ok call_effect_total assms(1) by blast+
qed

lemma send_to_contract_total:
  assumes "engine_ok e" "send_to_contract a amount e = (r, e')"
  shows "engine_ok e'" "contracts_total e' \<le> contracts_total e + unat amount"
proof -
  show "engine_ok e'" using assms by (auto simp: send_to_contract_def engine_ok_def split: option.splits if_splits)
  show "contracts_total e' \<le> contracts_total e + unat amount"
  proof (cases "bt_get (we_contracts e) a")
    case (Some c)
    have "contracts_total e' + unat (wc_balance c) = contracts_total e + unat (saturating_add (wc_balance c) amount)"
      using contracts_total_insert [of e e' a "c\<lparr>wc_balance := saturating_add (wc_balance c) amount\<rparr>"] Some assms
      by (auto simp: send_to_contract_def engine_ok_def)
    then show ?thesis by (simp add: unat_saturating_add)
  qed (use assms in \<open>simp add: send_to_contract_def\<close>)
qed

lemma fund_contract_total:
  assumes "engine_ok e"
  shows "engine_ok (fund_contract a amount e)" "contracts_total (fund_contract a amount e) \<le> contracts_total e + unat amount"
  using assms send_to_contract_total [OF assms, of a amount] by (auto simp: fund_contract_def prod_eq_iff)

lemma fund_contract_within:
  "engine_ok e \<Longrightarrow> contracts_total e \<le> n \<Longrightarrow>
   engine_ok (fund_contract a amount e) \<and> contracts_total (fund_contract a amount e) \<le> n + unat amount"
  using fund_contract_total [of e a amount] by linarith

lemma deploy_contract_total:
  assumes "engine_ok e" "deploy_contract ve owner bytecode st bn e = (r, e')" "bt_ok st"
  shows "engine_ok e' \<and> contracts_total e' \<le> contracts_total e"
  using assms(2)
proof (cases rule: deploy_contract_cases)
  case refused
  then show ?thesis using assms(1) by simp
next
  case (deployed a)
  have "bt_ok (we_contracts e)" using assms(1) by (simp add: engine_ok_def)
  from contracts_total_insert [OF this deployed(3)] show ?thesis
    using assms(1,3) deployed(3) by (auto simp: engine_ok_def new_contract_def)
qed

section \<open>The block of a request\<close>

lemma seal_block_fields:
  assumes "seal_block vn sg pk blk = Some b"
  shows "blk_type b = blk_type blk \<and> blk_amount b = blk_amount blk \<and> blk_account b = blk_account blk \<and>
    blk_link b = blk_link blk"
  using assms by (auto simp: seal_block_def Let_def split: if_splits)

lemma call_block_fields:
  assumes "call_block vn ck rq L = Some b"
  shows "blk_type b = ContractCall" "blk_amount b = option_or (lq_amount_cil rq) 0" "blk_link b = call_link vn rq"
  using assms by (auto simp: call_block_def Let_def dest!: seal_block_fields split: prod.splits)

lemma deploy_block_fields:
  assumes "deploy_block vn ck rq bytecode L = Some b"
  shows "blk_type b = ContractDeploy" "blk_amount b = option_or (dq_amount_cil rq) 0"
  using assms by (auto simp: deploy_block_def Let_def dest!: seal_block_fields split: prod.splits)

text \<open>What the ledger does with a contract block that it does not know: nothing, or it moves the amount out.\<close>

lemma contract_block_processed:
  assumes "ledger_inv L" "process_block env now b L = (r, L')" "blk_type b \<in> {ContractDeploy, ContractCall}"
    and "\<not> bt_contains (blocks L) (calculate_hash env b)"
  shows "ledger_inv L'" "is_ok r \<Longrightarrow> ledger_value L' + unat (blk_amount b) = ledger_value L"
    "\<not> is_ok r \<Longrightarrow> ledger_value L' \<le> ledger_value L"
proof -
  have inv: "ledger_inv L' \<and> ledger_value L' \<le> ledger_value L" by (rule process_block_inv [OF assms(2,1)])
  then show "ledger_inv L'" "\<not> is_ok r \<Longrightarrow> ledger_value L' \<le> ledger_value L" by simp_all
  assume ok: "is_ok r"
  from assms(2) show "ledger_value L' + unat (blk_amount b) = ledger_value L"
  proof (cases rule: process_block_cases)
    case unchanged
    have "\<exists>h. r = Ok (Applied h)"
      using assms(2,4) ok
      by (auto simp: process_block_def Let_def split: if_splits option.splits prod.splits result.splits)
    with unchanged show ?thesis by simp
  next
    case (applied st1 L1)
    with applied_value [OF assms(1) applied(5,9)] assms(3) show ?thesis by (auto simp: value_removed_def)
  qed
qed

section \<open>Requests and gossip keep the value\<close>

definition new_to :: "los_env \<Rightarrow> ledger \<Rightarrow> block option \<Rightarrow> bool" where
  "new_to env L blk = (case blk of Some b \<Rightarrow> \<not> bt_contains (blocks L) (calculate_hash env b) | None \<Rightarrow> True)"

text \<open>Room for one more unit keeps saturating sums of the gossip handlers exact.\<close>

definition system_ok :: "contract_node \<Rightarrow> bool" where
  "system_ok cn \<longleftrightarrow> system_inv cn \<and> ledger_value (cn_ledger cn) < 2 ^ 128 - 1"

lemma keeps_value:
  assumes "system_ok cn" "ledger_inv (cn_ledger cn')" "engine_ok (cn_engine cn')"
    and "ledger_value (cn_ledger cn') + k \<le> ledger_value (cn_ledger cn)"
    and "contracts_total (cn_engine cn') \<le> contracts_total (cn_engine cn) + k"
  shows "system_ok cn' \<and> system_value cn' \<le> system_value cn"
  using assms by (simp add: system_ok_def system_inv_def system_value_def)

lemma execute_request_total:
  assumes "engine_ok (cn_engine cn)" "execute_request vn w1 w2 ck rq blk cn = (r, cn')"
  shows "cn_ledger cn' = cn_ledger cn" "engine_ok (cn_engine cn')"
    "contracts_total (cn_engine cn') \<le> contracts_total (cn_engine cn) + unat (blk_amount blk)"
proof -
  obtain s e where s: "(if blk_amount blk > 0 then send_to_contract (lq_contract_address rq) (blk_amount blk) (cn_engine cn)
      else (Ok (), cn_engine cn)) = (s, e)" by fastforce
  have e: "engine_ok e" "contracts_total e \<le> contracts_total (cn_engine cn) + unat (blk_amount blk)"
    using s send_to_contract_total [OF assms(1)] assms(1) by (auto split: if_splits)
  obtain c e' where c: "call_contract (vn_vm vn) (mainnet_feature (vn_env vn)) (vn_rt vn) w1 w2 (ck_secs ck)
      (request_call rq blk) e = (c, e')" by fastforce
  note e' = call_contract_total [OF e(1) c]
  have "cn_ledger cn' = cn_ledger cn \<and> (cn_engine cn' = e \<or> cn_engine cn' = e')"
    using assms(2) s c by (cases s; cases c) (auto simp: execute_request_def)
  then show "cn_ledger cn' = cn_ledger cn" "engine_ok (cn_engine cn')"
    "contracts_total (cn_engine cn') \<le> contracts_total (cn_engine cn) + unat (blk_amount blk)"
    using e e' by auto
qed

lemma handle_call_keeps:
  assumes "system_ok cn" "new_to (vn_env vn) (cn_ledger cn) (call_block vn ck rq (cn_ledger cn))"
    and "handle_call vn w1 w2 ck rq cn = (r, cn')"
  shows "system_ok cn' \<and> system_value cn' \<le> system_value cn"
proof (cases "call_block vn ck rq (cn_ledger cn)")
  case None
  then show ?thesis using assms by (simp add: handle_call_def)
next
  case (Some b)
  obtain p L where p: "process_block (vn_env vn) (ck_secs ck) b (cn_ledger cn) = (p, L)" by fastforce
  have inv: "ledger_inv (cn_ledger cn)" "engine_ok (cn_engine cn)" using assms(1) by (simp_all add: system_ok_def system_inv_def)
  have new: "\<not> bt_contains (blocks (cn_ledger cn)) (calculate_hash (vn_env vn) b)" using assms(2) Some by (simp add: new_to_def)
  have type: "blk_type b \<in> {ContractDeploy, ContractCall}" using call_block_fields [OF Some] by simp
  note L = contract_block_processed [OF inv(1) p type new]
  show ?thesis
  proof (cases p)
    case (Ok x)
    then have run: "execute_request vn w1 w2 ck rq b (cn\<lparr>cn_ledger := L\<rparr>) = (r, cn')"
      using assms(3) Some p by (simp add: handle_call_def)
    have ok: "engine_ok (cn_engine (cn\<lparr>cn_ledger := L\<rparr>))" using inv by simp
    show ?thesis
      using execute_request_total [OF ok run] L(1) L(2) Ok
      by (intro keeps_value [OF assms(1), where k = "unat (blk_amount b)"]) simp_all
  qed (use assms(3) Some p L inv in \<open>simp add: handle_call_def; intro keeps_value [OF assms(1), where k = 0]; auto\<close>)+
qed

lemma handle_deploy_keeps:
  assumes "system_ok cn" "bt_ok (option_or (dq_initial_state rq) [])"
    and "\<And>bc. vn_b64_decode vn (dq_bytecode rq) = Some bc \<Longrightarrow> new_to (vn_env vn) (cn_ledger cn) (deploy_block vn ck rq bc (cn_ledger cn))"
    and "handle_deploy vn ck rq cn = (r, cn')"
  shows "system_ok cn' \<and> system_value cn' \<le> system_value cn"
proof (cases "vn_b64_decode vn (dq_bytecode rq)")
  case None
  then show ?thesis using assms by (simp add: handle_deploy_def)
next
  case bc: (Some bc)
  show ?thesis
  proof (cases "deploy_block vn ck rq bc (cn_ledger cn)")
    case None
    then show ?thesis using assms bc by (simp add: handle_deploy_def)
  next
    case (Some b)
    obtain p L where p: "process_block (vn_env vn) (ck_secs ck) b (cn_ledger cn) = (p, L)" by fastforce
    have inv: "ledger_inv (cn_ledger cn)" "engine_ok (cn_engine cn)" using assms(1) by (simp_all add: system_ok_def system_inv_def)
    have new: "\<not> bt_contains (blocks (cn_ledger cn)) (calculate_hash (vn_env vn) b)"
      using assms(3) [OF bc] Some by (simp add: new_to_def)
    have type: "blk_type b \<in> {ContractDeploy, ContractCall}" using deploy_block_fields [OF Some] by simp
    note L = contract_block_processed [OF inv(1) p type new]
    obtain d e where d: "deploy_contract (vn_vm vn) (blk_account b) bc (option_or (dq_initial_state rq) []) (ck_secs ck)
        (cn_engine cn) = (d, e)" by fastforce
    note e = deploy_contract_total [OF inv(2) d assms(2)]
    have cn': "cn_ledger cn' = L"
      "is_ok p \<Longrightarrow> cn_engine cn' = e \<or> (\<exists>a. cn_engine cn' = fund_contract a (blk_amount b) e)"
      "\<not> is_ok p \<Longrightarrow> cn_engine cn' = cn_engine cn"
      using assms(4) bc Some p d by (cases p; cases d; simp add: handle_deploy_def; auto)+
    show ?thesis
    proof (cases "is_ok p")
      case True
      have "engine_ok (cn_engine cn') \<and> contracts_total (cn_engine cn') \<le> contracts_total (cn_engine cn) + unat (blk_amount b)"
        using cn'(2) [OF True] e by (auto simp: fund_contract_within)
      then show ?thesis
        using L(1) L(2) [OF True] cn'(1) by (intro keeps_value [OF assms(1), where k = "unat (blk_amount b)"]) simp_all
    next
      case False
      then show ?thesis
        using L(1) L(3) [OF False] cn' inv by (intro keeps_value [OF assms(1), where k = 0]) simp_all
    qed
  qed
qed

lemma gossip_debit_keeps:
  assumes "system_ok cn" "gossip_debit env b (cn_ledger cn) = Some (done, L)" "blk_type b \<in> {ContractDeploy, ContractCall}"
    and "\<not> bt_contains (blocks (cn_ledger cn)) (calculate_hash env b)"
  shows "ledger_inv L" "ledger_value L + (if done then unat (blk_amount b) else 0) = ledger_value (cn_ledger cn)"
proof -
  let ?L = "ensure_account (blk_account b) (cn_ledger cn)"
  have inv: "ledger_inv (cn_ledger cn)" "ledger_value (cn_ledger cn) < 2 ^ 128 - 1"
    using assms(1) by (simp_all add: system_ok_def system_inv_def)
  have none: "bt_get (blocks (cn_ledger cn)) (calculate_hash env b) = None"
    using assms(4) by (auto simp: bt_contains_iff)
  have "ledger_inv L \<and> ledger_value L + (if done then unat (blk_amount b) else 0) = ledger_value (cn_ledger cn)"
  proof (cases "debit_refused b ?L")
    case True
    then show ?thesis
      using assms(2) ensure_account_safe [OF inv(1)] by (auto simp: gossip_debit_def Let_def split: if_splits)
  next
    case False
    have t: "blk_type b \<in> {Send, ContractDeploy, ContractCall}" using assms(3) by auto
    show ?thesis
      using assms(2,3) False direct_debit_safe [OF inv t False none]
      by (auto simp: gossip_debit_def Let_def value_removed_def)
  qed
  then show "ledger_inv L" "ledger_value L + (if done then unat (blk_amount b) else 0) = ledger_value (cn_ledger cn)"
    by simp_all
qed

lemma replicate_deploy_total:
  assumes "engine_ok e" "replicate_deploy vn ck b bc e = Some e'"
  shows "engine_ok e' \<and> contracts_total e' \<le> contracts_total e + unat (blk_amount b)"
proof -
  obtain d e1 where d: "deploy_contract (vn_vm vn) (blk_account b) bc [] (ck_secs ck) e = (d, e1)" by fastforce
  have e1: "engine_ok e1 \<and> contracts_total e1 \<le> contracts_total e" by (rule deploy_contract_total [OF assms(1) d]) simp
  have "e' = e \<or> e' = e1 \<or> (\<exists>a. e' = fund_contract a (blk_amount b) e1)"
    using assms(2) d by (cases d) (auto simp: replicate_deploy_def split: if_splits)
  then show ?thesis
    using assms(1) e1 by (auto simp: fund_contract_within)
qed

lemma replicate_call_total:
  assumes "engine_ok e"
  shows "engine_ok (replicate_call vn w1 w2 ck b e) \<and>
    contracts_total (replicate_call vn w1 w2 ck b e) \<le> contracts_total e + unat (blk_amount b)"
proof (cases "linked_call vn b")
  case None
  then show ?thesis using assms by (simp add: replicate_call_def)
next
  case (Some call)
  let ?e1 = "fund_contract (cc_contract call) (blk_amount b) e"
  obtain r e' where c: "call_contract (vn_vm vn) (mainnet_feature (vn_env vn)) (vn_rt vn) w1 w2 (ck_secs ck) call ?e1 = (r, e')"
    by fastforce
  show ?thesis
    using call_contract_total [OF fund_contract_total(1) [OF assms] c] fund_contract_total(2) [OF assms, of "cc_contract call" "blk_amount b"]
    by (simp add: replicate_call_def Some c)
qed

lemma handle_contract_deployed_keeps:
  assumes "system_ok cn" "handle_contract_deployed vn ck data cn = Some cn'"
  shows "system_ok cn' \<and> system_value cn' \<le> system_value cn"
proof (cases "cn' = cn")
  case False
  then obtain b bc d L where b: "blk_type b = ContractDeploy"
      "\<not> bt_contains (blocks (cn_ledger cn)) (calculate_hash (vn_env vn) b)"
      "gossip_debit (vn_env vn) b (cn_ledger cn) = Some (d, L)"
      and cn': "d \<and> (\<exists>e. replicate_deploy vn ck b bc (cn_engine cn) = Some e \<and> cn' = cn\<lparr>cn_ledger := L, cn_engine := e\<rparr>)
        \<or> \<not> d \<and> cn' = cn\<lparr>cn_ledger := L\<rparr>"
    using assms(2)
    by (fastforce simp: handle_contract_deployed_def Let_def gossip_block_valid_def split: if_splits option.splits prod.splits bool.splits)
  have ok: "engine_ok (cn_engine cn)" using assms(1) by (simp add: system_ok_def system_inv_def)
  note L = gossip_debit_keeps [OF assms(1) b(3) _ b(2)]
  show ?thesis
  proof (cases d)
    case True
    then obtain e where e: "replicate_deploy vn ck b bc (cn_engine cn) = Some e" "cn' = cn\<lparr>cn_ledger := L, cn_engine := e\<rparr>"
      using cn' by auto
    show ?thesis
      using L True b(1) e(2) replicate_deploy_total [OF ok e(1)]
      by (intro keeps_value [OF assms(1), where k = "unat (blk_amount b)"]) simp_all
  next
    case no: False
    then show ?thesis using L b(1) cn' ok by (intro keeps_value [OF assms(1), where k = 0]) simp_all
  qed
qed (use assms(1) in simp)

lemma handle_contract_called_keeps:
  assumes "system_ok cn" "handle_contract_called vn w1 w2 ck data cn = Some cn'"
  shows "system_ok cn' \<and> system_value cn' \<le> system_value cn"
proof (cases "cn' = cn")
  case False
  then obtain b d L where b: "blk_type b = ContractCall"
      "\<not> bt_contains (blocks (cn_ledger cn)) (calculate_hash (vn_env vn) b)"
      "gossip_debit (vn_env vn) b (cn_ledger cn) = Some (d, L)"
      and cn': "cn' = (if d then cn\<lparr>cn_ledger := L, cn_engine := replicate_call vn w1 w2 ck b (cn_engine cn)\<rparr>
        else cn\<lparr>cn_ledger := L\<rparr>)"
    using assms(2)
    by (auto simp: handle_contract_called_def Let_def gossip_block_valid_def split: if_splits option.splits prod.splits bool.splits)
  have ok: "engine_ok (cn_engine cn)" using assms(1) by (simp add: system_ok_def system_inv_def)
  note L = gossip_debit_keeps [OF assms(1) b(3) _ b(2)]
  show ?thesis
  proof (cases d)
    case True
    show ?thesis
      using L True b(1) cn' replicate_call_total [OF ok, of vn w1 w2 ck b]
      by (intro keeps_value [OF assms(1), where k = "unat (blk_amount b)"]) simp_all
  next
    case no: False
    then show ?thesis using L b(1) cn' ok by (intro keeps_value [OF assms(1), where k = 0]) simp_all
  qed
qed (use assms(1) in simp)

section \<open>Runs of a node\<close>

inductive contract_step :: "vm_node_env \<Rightarrow> contract_node \<Rightarrow> contract_node \<Rightarrow> bool" for vn where
  deploy_request: "handle_deploy vn ck rq cn = (r, cn') \<Longrightarrow> bt_ok (option_or (dq_initial_state rq) []) \<Longrightarrow>
    (\<And>bc. vn_b64_decode vn (dq_bytecode rq) = Some bc \<Longrightarrow> new_to (vn_env vn) (cn_ledger cn) (deploy_block vn ck rq bc (cn_ledger cn))) \<Longrightarrow>
    contract_step vn cn cn'"
| call_request: "handle_call vn w1 w2 ck rq cn = (r, cn') \<Longrightarrow>
    new_to (vn_env vn) (cn_ledger cn) (call_block vn ck rq (cn_ledger cn)) \<Longrightarrow> contract_step vn cn cn'"
| deployed_message: "handle_contract_deployed vn ck data cn = Some cn' \<Longrightarrow> contract_step vn cn cn'"
| called_message: "handle_contract_called vn w1 w2 ck data cn = Some cn' \<Longrightarrow> contract_step vn cn cn'"

lemma contract_step_keeps:
  assumes "contract_step vn cn cn'" "system_ok cn"
  shows "system_ok cn' \<and> system_value cn' \<le> system_value cn"
  using assms(1)
proof cases
  case (deploy_request ck rq r)
  then show ?thesis using handle_deploy_keeps [OF assms(2)] by blast
next
  case (call_request w1 w2 ck rq r)
  then show ?thesis using handle_call_keeps [OF assms(2)] by blast
next
  case (deployed_message ck data)
  then show ?thesis using handle_contract_deployed_keeps [OF assms(2)] by blast
next
  case (called_message w1 w2 ck data)
  then show ?thesis using handle_contract_called_keeps [OF assms(2)] by blast
qed

interpretation contract_system: conserving_system "contract_step vn" system_ok system_value for vn
  by unfold_locales (use contract_step_keeps in blast)+

text \<open>C25: contract requests and contract gossip never create value. Over any run of requests whose blocks
  are new to the ledger and of messages of peers, for any contract code, the balances, unclaimed sends, fees and
  remaining supply of the ledger and the balances of all contracts together never grow.\<close>

theorem contract_requests_create_no_value:
  assumes "(contract_step vn)\<^sup>*\<^sup>* cn cn'" "system_ok cn"
  shows "system_value cn' \<le> system_value cn \<and> ledger_inv (cn_ledger cn')"
  using contract_system.reach_val [OF assms] contract_system.reach_inv [OF assms] by (simp add: system_ok_def system_inv_def)

text \<open>A message with a call of 7 CIL by \<open>LOSA\<close>, for the example environment.\<close>

definition demo_call_block :: block where
  "demo_call_block =
     \<lparr>blk_account = ''LOSA'', blk_previous = calculate_hash demo_env demo_mint, blk_type = ContractCall,
      blk_amount = 7, blk_link = ''CALL:LOSConX:f'', blk_signature = ''ss'', blk_public_key = ''alice'',
      blk_work = 0, blk_timestamp = 20, blk_fee = 100000\<rparr>"

definition demo_vn :: vm_node_env where
  "demo_vn = \<lparr>vn_node = demo_node_env demo_env (\<lambda>s. Some demo_call_block), vn_vm = demo_vm, vn_rt = demo_rt 0,
     vn_b64_encode = (\<lambda>b. ''b''), vn_b64_decode = (\<lambda>s. None), vn_args_to_b64 = (\<lambda>as. ''a''),
     vn_args_of_b64 = (\<lambda>s. None)\<rparr>"

definition demo_cn :: "ledger \<Rightarrow> contract_node" where
  "demo_cn L = \<lparr>cn_ledger = L, cn_engine = demo_engine, cn_outbox = []\<rparr>"

lemma demo_vn_sel [simp]: "vn_env demo_vn = demo_env" "vn_vm demo_vn = demo_vm" "ne_block_of_b64 (vn_node demo_vn) s = Some demo_call_block"
  by (simp_all add: demo_vn_def demo_node_env_def)

lemma demo_engine_ok: "engine_ok demo_engine"
  using engine.reach_inv [OF demo_engine_reachable engine_inv_new] by (simp add: engine_inv_def)

lemma demo_system_ok: "system_ok (demo_cn demo_L1)"
proof -
  have "ledger_value demo_L1 < 2 ^ 128 - 1"
    using ledger_sys.reach_val [OF demo_reach(1) ledger_new_inv] unfolding ledger_new_value
    by (simp add: ledger_constants)
  then show ?thesis
    using demo_inv [OF demo_reach(1)] demo_engine_ok by (simp add: system_ok_def system_inv_def demo_cn_def)
qed

lemma demo_debited: "\<exists>L. gossip_debit demo_env demo_call_block demo_L1 = Some (True, L) \<and>
  acc_balance (account_or_default L ''LOSA'') = 899993"
  by (simp add: gossip_debit_def ensure_account_def bt_contains_def debit_refused_def demo_L1_def demo_call_block_def
      demo_hash demo_blocks saturating_add_def checked_add_def direct_debit_def bt_modify_def account_or_default_def Let_def)

theorem contract_requests_create_no_value_witness:
  "\<exists>cn'. handle_contract_called demo_vn Delivered Delivered demo_clock ''CONTRACT_CALLED:s'' (demo_cn demo_L1) = Some cn' \<and>
     acc_balance (account_or_default (cn_ledger cn') ''LOSA'') = 899993 \<and>
     system_value cn' \<le> system_value (demo_cn demo_L1)"
proof -
  let ?cn = "demo_cn demo_L1"
  obtain L where L: "gossip_debit demo_env demo_call_block demo_L1 = Some (True, L)"
    "acc_balance (account_or_default L ''LOSA'') = 899993"
    using demo_debited by blast
  have split: "str_splitn 2 (CHR '':'') ''CONTRACT_CALLED:s'' = [''CONTRACT_CALLED'', ''s'']"
    by (simp add: numeral_2_eq_2 before_char_def after_char_def)
  have valid: "gossip_block_valid demo_env ContractCall ''CALL:'' demo_call_block"
    by (simp add: gossip_block_valid_def demo_pow demo_signature) (simp add: demo_call_block_def starts_with_def)
  have new: "\<not> bt_contains (blocks demo_L1) (calculate_hash demo_env demo_call_block)"
    by (simp add: bt_contains_def demo_hash demo_call_block_def demo_blocks demo_L1_def)
  let ?cn' = "?cn\<lparr>cn_ledger := L, cn_engine := replicate_call demo_vn Delivered Delivered demo_clock demo_call_block (cn_engine ?cn)\<rparr>"
  have h: "handle_contract_called demo_vn Delivered Delivered demo_clock ''CONTRACT_CALLED:s'' ?cn = Some ?cn'"
    using L(1) valid new by (simp add: handle_contract_called_def split demo_cn_def)
  have "(contract_step demo_vn)\<^sup>*\<^sup>* ?cn ?cn'" using called_message [OF h] by blast
  from contract_requests_create_no_value [OF this demo_system_ok] h L(2) show ?thesis by simp
qed

section \<open>Defects\<close>

text \<open>a call request can be replayed. When its block is already in the ledger, \<open>process_block\<close> answers
  that it is a duplicate and debits nothing, but the handler goes on: it credits the amount to the contract again
  and runs the call again. Already a call that fails leaves the system richer by the amount, every time.\<close>

theorem replayed_call_creates_value:
  assumes "mainnet_feature (vn_env vn)" "engine_ok (cn_engine cn)"
    and "call_block vn ck rq (cn_ledger cn) = Some b"
    and "verify_pow (vn_env vn) b" "verify_signature (vn_env vn) b" "check_owner (vn_env vn) b = None"
    and "bt_contains (blocks (cn_ledger cn)) (calculate_hash (vn_env vn) b)"
    and "bt_get (we_contracts (cn_engine cn)) (lq_contract_address rq) = Some c"
    and "0 < blk_amount b" "unat (wc_balance c) + unat (blk_amount b) < 2 ^ 128"
    and "fst (call_contract (vn_vm vn) True (vn_rt vn) w1 w2 (ck_secs ck) (request_call rq b)
      (snd (send_to_contract (lq_contract_address rq) (blk_amount b) (cn_engine cn)))) = Err msg"
  shows "\<exists>r cn'. handle_call vn w1 w2 ck rq cn = (r, cn') \<and> cn_ledger cn' = cn_ledger cn \<and>
    system_value cn' = system_value cn + unat (blk_amount b)"
proof -
  let ?a = "lq_contract_address rq" and ?e = "cn_engine cn"
  let ?c = "c\<lparr>wc_balance := saturating_add (wc_balance c) (blk_amount b)\<rparr>"
  let ?e1 = "?e\<lparr>we_contracts := bt_insert ?a ?c (we_contracts ?e)\<rparr>"
  have p: "process_block (vn_env vn) (ck_secs ck) b (cn_ledger cn) =
      (Ok (Duplicate (calculate_hash (vn_env vn) b)), cn_ledger cn)"
    using assms(4-7) by (simp add: process_block_def Let_def)
  have s: "send_to_contract ?a (blk_amount b) ?e = (Ok (), ?e1)" using assms(8) by (simp add: send_to_contract_def)
  obtain e' where call: "call_contract (vn_vm vn) True (vn_rt vn) w1 w2 (ck_secs ck) (request_call rq b) ?e1 = (Err msg, e')"
    using assms(11) s by (cases "call_contract (vn_vm vn) True (vn_rt vn) w1 w2 (ck_secs ck) (request_call rq b) ?e1") simp
  have "contracts_total ?e1 + unat (wc_balance c) = contracts_total ?e + unat (saturating_add (wc_balance c) (blk_amount b))"
    using contracts_total_insert [of ?e ?e1 ?a ?c] assms(2,8) by (simp add: engine_ok_def)
  then have "contracts_total ?e1 = contracts_total ?e + unat (blk_amount b)"
    using assms(10) by (simp add: unat_saturating_add)
  moreover have "contracts_total e' = contracts_total ?e1"
    using mainnet_failure [OF call] by (simp add: contracts_total_def)
  moreover have "handle_call vn w1 w2 ck rq cn = (Err (ExecutionFailed msg), cn\<lparr>cn_engine := e'\<rparr>)"
    using assms(1,3,9) p s call by (simp add: handle_call_def execute_request_def)
  ultimately show ?thesis by (simp add: system_value_def)
qed

definition replay_request :: call_request where
  "replay_request =
     \<lparr>lq_contract_address = ''LOSCona:0:7'', lq_function = ''f'', lq_args = [], lq_gas_limit = Some 200, lq_caller = None,
      lq_amount_cil = Some 7, lq_signature = Some ''ss'', lq_public_key = Some ''alice'', lq_previous = Some ''0'',
      lq_work = Some 0, lq_timestamp = Some 20, lq_fee = Some 100000\<rparr>"

definition replay_block :: block where
  "replay_block =
     \<lparr>blk_account = ''LOSA'', blk_previous = ''0'', blk_type = ContractCall, blk_amount = 7,
      blk_link = ''CALL:LOSCona:0:7:f:a'', blk_signature = ''ss'', blk_public_key = ''alice'', blk_work = 0,
      blk_timestamp = 20, blk_fee = 100000\<rparr>"

definition replay_cn :: contract_node where
  "replay_cn = demo_cn (ledger_new\<lparr>blocks := [(calculate_hash demo_env replay_block, replay_block)]\<rparr>)"

theorem replayed_call_creates_value_witness:
  "\<exists>r cn'. handle_call demo_vn Timed_Out Delivered demo_clock replay_request replay_cn = (r, cn') \<and>
    cn_ledger cn' = cn_ledger replay_cn \<and> system_value cn' = system_value replay_cn + 7"
proof -
  have b: "call_block demo_vn demo_clock replay_request (cn_ledger replay_cn) = Some replay_block"
    by (simp add: call_block_def block_identity_def replay_request_def seal_block_def client_signed_def option_or_def
        replay_block_def call_link_def demo_vn_def demo_node_env_def)
  have c: "bt_get (we_contracts (cn_engine replay_cn)) (lq_contract_address replay_request) = Some demo_contract"
    by (simp add: replay_cn_def demo_cn_def demo_engine_eq replay_request_def)
  let ?e1 = "snd (send_to_contract (lq_contract_address replay_request) (blk_amount replay_block) (cn_engine replay_cn))"
  have call: "call_contract (vn_vm demo_vn) True (vn_rt demo_vn) Timed_Out Delivered (ck_secs demo_clock)
      (request_call replay_request replay_block) ?e1 = (Err timeout_error, ?e1\<lparr>we_leaked := 1\<rparr>)"
    by (rule call_times_out [where c = "demo_contract\<lparr>wc_balance := saturating_add (wc_balance demo_contract) 7\<rparr>"])
      (simp_all add: send_to_contract_def replay_cn_def demo_cn_def demo_engine_eq replay_request_def replay_block_def
        request_call_def call_gas_def option_or_def demo_contract_def new_contract_def)
  have "\<exists>r cn'. handle_call demo_vn Timed_Out Delivered demo_clock replay_request replay_cn = (r, cn') \<and>
      cn_ledger cn' = cn_ledger replay_cn \<and> system_value cn' = system_value replay_cn + unat (blk_amount replay_block)"
  proof (rule replayed_call_creates_value [OF _ _ b _ _ _ _ c, where msg = timeout_error])
    show "fst (call_contract (vn_vm demo_vn) True (vn_rt demo_vn) Timed_Out Delivered (ck_secs demo_clock)
        (request_call replay_request replay_block) ?e1) = Err timeout_error"
      by (simp only: call fst_conv)
    show "engine_ok (cn_engine replay_cn)" by (simp add: replay_cn_def demo_cn_def demo_engine_ok)
    show "bt_contains (blocks (cn_ledger replay_cn)) (calculate_hash (vn_env demo_vn) replay_block)"
      by (simp add: replay_cn_def demo_cn_def bt_contains_def)
    show "check_owner (vn_env demo_vn) replay_block = None"
      by (simp add: check_owner_def owner_signed_type_def replay_block_def as_bytes_def Let_def)
  qed (simp_all add: demo_pow demo_signature, simp_all add: replay_block_def demo_contract_def new_contract_def)
  then show ?thesis by (simp add: replay_block_def)
qed

text \<open>
  The messages of peers carry no proof of ownership: a call block that any key signed debits the account it
  names, although \<open>process_block\<close> would refuse it.
\<close>

lemma contract_called_spends_any_account:
  assumes "str_splitn 2 (CHR '':'') data = [tag, x]" "ne_block_of_b64 (vn_node vn) x = Some b"
    and "gossip_block_valid (vn_env vn) ContractCall ''CALL:'' b"
    and "hex_decode (vn_env vn) (blk_public_key b) = Some pk" "pk \<noteq> []" "public_key_to_address (vn_env vn) pk \<noteq> blk_account b"
    and "bt_get (blocks (cn_ledger cn)) (calculate_hash (vn_env vn) b) = None"
    and "bt_get (accounts (cn_ledger cn)) (blk_account b) = Some st" "acc_head st = blk_previous b"
      "saturating_add (blk_amount b) (blk_fee b) \<le> acc_balance st"
  shows "fst (process_block (vn_env vn) now b (cn_ledger cn))
      = Err (AuthWrongOwner (public_key_to_address (vn_env vn) pk) (blk_account b))"
    and "\<exists>cn'. handle_contract_called vn w1 w2 ck data cn = Some cn' \<and>
      acc_balance (account_or_default (cn_ledger cn') (blk_account b)) = acc_balance st - saturating_add (blk_amount b) (blk_fee b)"
proof -
  have v: "verify_pow (vn_env vn) b" "verify_signature (vn_env vn) b" "blk_type b = ContractCall"
    using assms(3) by (simp_all add: gossip_block_valid_def)
  show "fst (process_block (vn_env vn) now b (cn_ledger cn))
      = Err (AuthWrongOwner (public_key_to_address (vn_env vn) pk) (blk_account b))"
    using v assms(4-6) by (simp add: process_block_def check_owner_def owner_signed_type_def Let_def)
  have "ensure_account (blk_account b) (cn_ledger cn) = cn_ledger cn"
    using assms(8) by (simp add: ensure_account_def bt_contains_def)
  moreover have "\<not> debit_refused b (cn_ledger cn)" using assms(8-10) by (simp add: debit_refused_def not_less)
  ultimately have "gossip_debit (vn_env vn) b (cn_ledger cn) =
      Some (True, direct_debit b (calculate_hash (vn_env vn) b) (cn_ledger cn))"
    by (simp add: gossip_debit_def Let_def)
  then show "\<exists>cn'. handle_contract_called vn w1 w2 ck data cn = Some cn' \<and>
      acc_balance (account_or_default (cn_ledger cn') (blk_account b)) = acc_balance st - saturating_add (blk_amount b) (blk_fee b)"
    using assms(1-3,7,8)
    by (simp add: handle_contract_called_def bt_contains_def Let_def direct_debit_def account_or_default_def)
qed

text \<open>
  A replica deploys under an address computed from its own clock and with an empty state, so that neither the
  address nor the initial state of the request is replicated.
\<close>

lemma replica_address_differs:
  assumes "ck_secs ck \<noteq> ck_secs ck'"
  shows "contract_addr_input owner n (ck_secs ck) \<noteq> contract_addr_input owner n' (ck_secs ck')"
  using assms by (simp add: contract_addr_input_inject)

lemma replica_loses_initial_state:
  assumes "replicate_deploy vn ck b bc e = Some e'" "deploy_contract (vn_vm vn) (blk_account b) bc [] (ck_secs ck) e = (Ok a, e1)"
    and "code_hash_matches (compute_code_hash (vn_vm vn) bc) (drop 7 (blk_link b))"
  shows "\<exists>c. bt_get (we_contracts e') a = Some c \<and> wc_state c = [] \<and> wc_created_at_block c = ck_secs ck"
proof -
  have e1: "bt_get (we_contracts e1) a = Some (new_contract (vn_vm vn) (blk_account b) bc [] (ck_secs ck) a)"
    using assms(2) by (auto elim: deploy_contract_cases)
  have "e' = fund_contract a (blk_amount b) e1" using assms by (auto simp: replicate_deploy_def split: if_splits)
  then show ?thesis using e1 by (auto simp: fund_contract_def send_to_contract_def new_contract_def)
qed

text \<open>The link \<open>DEPLOY:\<close> without a hash matches every bytecode.\<close>

lemma empty_code_hash_matches: "code_hash_matches h []"
  by (simp add: code_hash_matches_def starts_with_def)

end
