(* ===== verification/Burn_Oracle.thy ===== *)
theory Burn_Oracle
  imports Node_Core
begin

text \<open>
  What a node learns from outside about burned coins (\<open>los-node/src/main.rs\<close>): the prices of ETH and BTC from
  three price services (\<open>get_crypto_prices\<close>) and the amount a transaction sent to the burn address
  (\<open>verify_eth_burn_tx\<close>, \<open>verify_btc_burn_tx\<close>). The replies of the services are parameters, the JSON parser
  and printer of \<open>serde_json\<close> too, and so is the conversion of a floating-point price at the boundary. A value
  \<open>None\<close> of the outer option is a panic. Shown here: in production a price is zero or inside the sanity
  bounds; a decimal price with fewer than six decimals loses its fraction.
\<close>

section \<open>Replies\<close>

datatype json =
    JNull
  | JBool bool
  | JU64 u64
  | JNumber
  | JString string
  | JArray "json list"
  | JObject "(string \<times> json) list"

definition json_index :: "json \<Rightarrow> string \<Rightarrow> json" where
  "json_index j k = (case j of JObject kvs \<Rightarrow> (case map_of kvs k of Some v \<Rightarrow> v | None \<Rightarrow> JNull) | _ \<Rightarrow> JNull)"

definition json_array :: "json \<Rightarrow> json list option" where
  "json_array j = (case j of JArray xs \<Rightarrow> Some xs | _ \<Rightarrow> None)"

definition json_str :: "json \<Rightarrow> string option" where
  "json_str j = (case j of JString s \<Rightarrow> Some s | _ \<Rightarrow> None)"

definition json_u64 :: "json \<Rightarrow> u64 option" where
  "json_u64 j = (case j of JU64 n \<Rightarrow> Some n | _ \<Rightarrow> None)"

text \<open>No reply at all, a status that is no success, or a success; the body may be unreadable.\<close>

datatype http_reply = NoReply | ErrorReply "string option" | Reply "string option"

text \<open>The last trade prices of Kraken are an array under \<open>c\<close>; its first element may be no string.\<close>

record price_replies =
  pr_coingecko_eth :: "u128 option"
  pr_coingecko_btc :: "u128 option"
  pr_cryptocompare_eth :: "u128 option"
  pr_cryptocompare_btc :: "u128 option"
  pr_kraken_eth :: "string option list option"
  pr_kraken_btc :: "string option list option"

record burn_env =
  be_node :: node_env
  be_lower_tables :: "string \<Rightarrow> string"
  be_upper_tables :: "string \<Rightarrow> string"
  be_proxy :: string
  be_proxy_valid :: bool
  be_prices :: price_replies
  be_http :: "string \<Rightarrow> bool \<Rightarrow> http_reply"
  be_parse :: "string \<Rightarrow> json option"
  be_print :: "json \<Rightarrow> string"
  be_block_to_json :: "block \<Rightarrow> string"

abbreviation be_config :: "burn_env \<Rightarrow> testnet_config" where
  "be_config be \<equiv> ne_config (be_node be)"

abbreviation be_env :: "burn_env \<Rightarrow> los_env" where
  "be_env be \<equiv> ne_env (be_node be)"

abbreviation be_lower :: "burn_env \<Rightarrow> string \<Rightarrow> string" where
  "be_lower be \<equiv> to_lowercase (be_lower_tables be)"

abbreviation be_upper :: "burn_env \<Rightarrow> string \<Rightarrow> string" where
  "be_upper be \<equiv> to_uppercase (be_upper_tables be)"

section \<open>Prices\<close>

definition MICRO :: u128 where "MICRO = 1000000"
definition FALLBACK_ETH_MICRO :: u128 where "FALLBACK_ETH_MICRO = 2500000000"
definition FALLBACK_BTC_MICRO :: u128 where "FALLBACK_BTC_MICRO = 83000000000"
definition ETH_MIN_MICRO :: u128 where "ETH_MIN_MICRO = 10 * MICRO"
definition ETH_MAX_MICRO :: u128 where "ETH_MAX_MICRO = 100000 * MICRO"
definition BTC_MIN_MICRO :: u128 where "BTC_MIN_MICRO = 100 * MICRO"
definition BTC_MAX_MICRO :: u128 where "BTC_MAX_MICRO = 10000000 * MICRO"

text \<open>\<open>format!("{:<06}", s)\<close>: the flag \<open>0\<close> is for numbers only, a string is filled up with blanks to six
  characters.\<close>

definition char_count :: "string \<Rightarrow> nat" where
  "char_count s = length (filter (\<lambda>c. of_char c < (128 :: nat) \<or> of_char c \<ge> (192 :: nat)) s)"

definition pad_right_6 :: "string \<Rightarrow> string" where
  "pad_right_6 s = s @ replicate (6 - char_count s) CHR '' ''"

definition frac_micro :: "string list \<Rightarrow> u128 option" where
  "frac_micro parts =
     (if 1 < length parts
      then map_option (\<lambda>s. case parse_uint s of Some n \<Rightarrow> n | None \<Rightarrow> 0) (str_slice_to (pad_right_6 (parts ! 1)) 6)
      else Some 0)"

definition str_to_micro :: "string \<Rightarrow> u128 option option" where
  "str_to_micro price_str =
     (let trimmed = str_trim price_str in
      if trimmed = [] then Some None
      else
        let parts = str_split (CHR ''.'') trimmed in
        (case parse_uint (parts ! 0) of
           None \<Rightarrow> Some None
         | Some whole \<Rightarrow>
             map_option (\<lambda>frac. case checked_mul whole MICRO of None \<Rightarrow> None | Some m \<Rightarrow> checked_add m frac)
               (frac_micro parts)))"

text \<open>\<open>p_array[0]\<close> panics on an empty array.\<close>

definition kraken_price :: "string option list option \<Rightarrow> u128 option option" where
  "kraken_price reply =
     (case reply of
        None \<Rightarrow> Some None
      | Some [] \<Rightarrow> None
      | Some (None # _) \<Rightarrow> Some None
      | Some (Some s # _) \<Rightarrow> str_to_micro s)"

definition option_list :: "'a option \<Rightarrow> 'a list" where
  "option_list x = (case x of Some v \<Rightarrow> [v] | None \<Rightarrow> [])"

definition is_production_level :: "testnet_config \<Rightarrow> bool" where
  "is_production_level c = (tc_oracle_consensus c \<and> tc_level c = Production)"

definition average_price :: "bool \<Rightarrow> u128 \<Rightarrow> u128 list \<Rightarrow> u128" where
  "average_price production fallback prices =
     (if prices = [] then (if production then 0 else fallback)
      else sum_list prices div of_nat (length prices))"

definition bounded_price :: "bool \<Rightarrow> u128 \<Rightarrow> u128 \<Rightarrow> u128 \<Rightarrow> u128 \<Rightarrow> u128" where
  "bounded_price production fallback lo hi p =
     (if \<not> (lo \<le> p \<and> p \<le> hi) then (if production \<or> p = 0 then 0 else fallback) else p)"

definition price_of :: "bool \<Rightarrow> u128 \<Rightarrow> u128 \<Rightarrow> u128 \<Rightarrow> u128 list \<Rightarrow> u128" where
  "price_of production fallback lo hi prices =
     bounded_price production fallback lo hi (average_price production fallback prices)"

definition get_crypto_prices :: "burn_env \<Rightarrow> (u128 \<times> u128) option" where
  "get_crypto_prices be =
     (if be_proxy be \<noteq> [] \<and> \<not> be_proxy_valid be then Some (0, 0)
      else
        let r = be_prices be; production = is_production_level (be_config be) in
        (case (kraken_price (pr_kraken_eth r), kraken_price (pr_kraken_btc r)) of
           (Some ke, Some kb) \<Rightarrow>
             let eth = option_list (pr_coingecko_eth r) @ option_list (pr_cryptocompare_eth r) @ option_list ke;
                 btc = option_list (pr_coingecko_btc r) @ option_list (pr_cryptocompare_btc r) @ option_list kb
             in Some (price_of production FALLBACK_ETH_MICRO ETH_MIN_MICRO ETH_MAX_MICRO eth,
                      price_of production FALLBACK_BTC_MICRO BTC_MIN_MICRO BTC_MAX_MICRO btc)
         | _ \<Rightarrow> None))"

section \<open>Burn transactions\<close>

definition BURN_ADDRESS_ETH :: string where
  "BURN_ADDRESS_ETH = ''0x000000000000000000000000000000000000dead''"

definition BURN_ADDRESS_BTC :: string where
  "BURN_ADDRESS_BTC = ''1BitcoinEaterAddressDontSendf59kuE''"

definition mock_txid :: "string \<Rightarrow> bool" where
  "mock_txid clean_txid = (length clean_txid = 64 \<and> list_all is_ascii_hexdigit clean_txid)"

definition output_value :: "json \<Rightarrow> u128" where
  "output_value out =
     (case json_u64 (json_index out ''value'') of
        Some v \<Rightarrow> ucast v
      | None \<Rightarrow>
          (case json_str (json_index out ''value'') of
             Some s \<Rightarrow> (case parse_uint s of Some n \<Rightarrow> n | None \<Rightarrow> 0)
           | None \<Rightarrow> 0))"

fun first_some :: "('a \<Rightarrow> 'b option) \<Rightarrow> 'a list \<Rightarrow> 'b option" where
  "first_some f [] = None"
| "first_some f (x # xs) = (case f x of Some y \<Rightarrow> Some y | None \<Rightarrow> first_some f xs)"

definition eth_output :: "burn_env \<Rightarrow> json \<Rightarrow> u128 option" where
  "eth_output be out =
     (case json_array (json_index out ''addresses'') of
        None \<Rightarrow> None
      | Some addrs \<Rightarrow>
          if list_ex (\<lambda>a. be_lower be (case json_str a of Some s \<Rightarrow> s | None \<Rightarrow> []) = drop 2 BURN_ADDRESS_ETH) addrs
          then Some (output_value out) else None)"

definition btc_output :: "burn_env \<Rightarrow> json \<Rightarrow> u128 option" where
  "btc_output be out = (if str_contains (be_print be out) BURN_ADDRESS_BTC then Some (output_value out) else None)"

definition eth_attempt :: "burn_env \<Rightarrow> http_reply \<Rightarrow> u128 option option" where
  "eth_attempt be reply =
     (case reply of
        Reply (Some body) \<Rightarrow>
          (case be_parse be body of
             None \<Rightarrow> Some None
           | Some j \<Rightarrow>
               Some (case json_array (json_index j ''outputs'') of
                       None \<Rightarrow> None | Some outs \<Rightarrow> first_some (eth_output be) outs))
      | _ \<Rightarrow> Some None)"

text \<open>The messages print the beginning of the body, cut at a byte position.\<close>

definition printed_body :: "nat \<Rightarrow> string \<Rightarrow> u128 option option" where
  "printed_body n body = (if is_char_boundary body (min (length body) n) then Some None else None)"

definition btc_attempt :: "burn_env \<Rightarrow> http_reply \<Rightarrow> u128 option option" where
  "btc_attempt be reply =
     (case reply of
        ErrorReply (Some body) \<Rightarrow> printed_body 200 body
      | Reply (Some body) \<Rightarrow>
          (case be_parse be body of
             None \<Rightarrow> printed_body 200 body
           | Some j \<Rightarrow>
               (case json_array (json_index j ''vout'') of
                  None \<Rightarrow> Some None
                | Some outs \<Rightarrow>
                    (case first_some (btc_output be) outs of
                       Some v \<Rightarrow> Some (Some v)
                     | None \<Rightarrow> printed_body 500 body)))
      | _ \<Rightarrow> Some None)"

fun run_attempts :: "('a \<Rightarrow> 'b option option) \<Rightarrow> 'a list \<Rightarrow> 'b option option" where
  "run_attempts f [] = Some None"
| "run_attempts f (x # xs) =
     (case f x of None \<Rightarrow> None | Some (Some v) \<Rightarrow> Some (Some v) | Some None \<Rightarrow> run_attempts f xs)"

definition attempts :: "burn_env \<Rightarrow> bool list" where
  "attempts be = (if be_proxy be = [] then [False] else [True, False])"

definition verify_eth_burn_tx :: "burn_env \<Rightarrow> string \<Rightarrow> u128 option option" where
  "verify_eth_burn_tx be txid =
     (let clean_txid = be_lower be (trim_0x (str_trim txid)) in
      if tc_enable_faucet (be_config be)
      then Some (if mock_txid clean_txid then Some 10000000000000000 else None)
      else run_attempts
             (\<lambda>use_proxy. eth_attempt be (be_http be (''https://api.blockcypher.com/v1/eth/main/txs/'' @ clean_txid) use_proxy))
             (attempts be))"

definition verify_btc_burn_tx :: "burn_env \<Rightarrow> string \<Rightarrow> u128 option option" where
  "verify_btc_burn_tx be txid =
     (if tc_enable_faucet (be_config be)
      then Some (if mock_txid (be_lower be (str_trim txid)) then Some 100000 else None)
      else run_attempts
             (\<lambda>use_proxy. btc_attempt be (be_http be (''https://mempool.space/api/tx/'' @ str_trim txid) use_proxy))
             (attempts be))"

section \<open>What the prices guarantee\<close>

text \<open>Nothing is trimmed between printable ASCII characters.\<close>

lemma starts_with_Cons: "starts_with (c # s) (d # w) \<longleftrightarrow> c = d \<and> starts_with s w"
  by (auto simp: starts_with_def)

lemma strip_start_graphic:
  assumes "of_char c \<in> {33 .. 126 :: nat}"
  shows "strip_start n white_space (c # s) = c # s" "strip_start n (map rev white_space) (c # s) = c # s"
proof -
  have "c \<noteq> d" if "of_char d \<notin> {33 .. 126 :: nat}" for d using assms that by blast
  then have "List.find (starts_with (c # s)) white_space = None"
      "List.find (starts_with (c # s)) (map rev white_space) = None"
    by (simp_all add: white_space_def starts_with_Cons)
  then show "strip_start n white_space (c # s) = c # s" "strip_start n (map rev white_space) (c # s) = c # s"
    by (cases n; simp)+
qed

lemma str_trim_graphic:
  assumes "of_char (hd s) \<in> {33 .. 126 :: nat}" "of_char (last s) \<in> {33 .. 126 :: nat}"
  shows "str_trim s = s"
proof (cases s)
  case (Cons d u)
  then have "rev s \<noteq> []" by simp
  then obtain e v where r: "rev s = e # v" by (cases "rev s") auto
  then have "s = rev v @ [e]" by (metis rev.simps(2) rev_rev_ident)
  then have e: "e = last s" by simp
  have "strip_start (length s) white_space s = s"
    using strip_start_graphic(1) [of d "length s" u] assms(1) Cons by simp
  moreover have "strip_start (length s) (map rev white_space) (rev s) = rev s"
    unfolding r using assms(2) e by (intro strip_start_graphic(2)) simp
  ultimately show ?thesis by (simp only: str_trim_def Let_def rev_rev_ident)
qed (simp add: str_trim_def)

lemma bounded_price_ok:
  "bounded_price True fb lo hi p = 0 \<or> lo \<le> bounded_price True fb lo hi p \<and> bounded_price True fb lo hi p \<le> hi"
  by (simp add: bounded_price_def)

lemma mainnet_production: "is_mainnet_build env \<Longrightarrow> is_production_level (get_testnet_config env level)"
  by (simp add: is_production_level_def get_testnet_config_def config_production_simulation_def)

text \<open>On mainnet a price that is used is zero, which stops every burn, or inside the sanity bounds, whatever
  the price services answer.\<close>

lemma mainnet_prices_bounded:
  assumes "is_mainnet_build (be_env be)" "get_crypto_prices be = Some (eth, btc)"
  shows "eth = 0 \<or> ETH_MIN_MICRO \<le> eth \<and> eth \<le> ETH_MAX_MICRO"
    and "btc = 0 \<or> BTC_MIN_MICRO \<le> btc \<and> btc \<le> BTC_MAX_MICRO"
  using assms bounded_price_ok
  by (auto simp: get_crypto_prices_def price_of_def mainnet_production Let_def split: if_splits option.splits)

lemma replicate_numeral: "replicate (numeral k) x = x # replicate (pred_numeral k) x"
  by (simp add: numeral_eq_Suc)

text \<open>The text of a price is meant to be filled up with zeros on the right. It is filled up with blanks, which
  the parser refuses, so that the fraction of a price with one to five decimals is dropped.\<close>

lemma short_fraction_dropped:
  "str_to_micro ''2000.50'' = Some (Some 2000000000)"
  "str_to_micro ''2000.500000'' = Some (Some 2000500000)"
  by (simp_all add: str_to_micro_def str_trim_graphic frac_micro_def pad_right_6_def char_count_def str_slice_to_def
      is_char_boundary_def parse_uint_def digit_value_def checked_mul_def checked_add_def MICRO_def
      replicate_numeral)

lemma empty_price_array_panics: "kraken_price (Some []) = None"
  by (simp add: kraken_price_def)

end
