(* ===== verification/Node_Burn.thy ===== *)
theory Node_Burn
  imports Burn_Oracle Node_Send Oracle
begin

text \<open>
  Burning coins for LOS through a node (\<open>los-node/src/main.rs\<close>): the handler of \<open>POST /burn\<close>, the gossip
  handlers of \<open>VOTE_REQ\<close> and \<open>VOTE_RES\<close>, the \<open>burn\<close> command of the console and the cleanup of pending burns.
  The handler of \<open>POST /burn\<close> waits for price services and block explorers between its checks and its effects;
  it is split there into \<open>burn_begin\<close> and \<open>burn_finish\<close>. In a gossip handler \<open>None\<close> is a panic, which ends the
  event loop; the answer to \<open>VOTE_REQ\<close> runs in a task of its own and a panic there ends the task only.
\<close>

section \<open>State\<close>

record pending_burn =
  pb_amount :: u128
  pb_price :: u128
  pb_symbol :: string
  pb_power :: u128
  pb_created_at :: u64
  pb_recipient :: string

record bridge =
  bg_ledger :: ledger
  bg_pending_burns :: "(string, pending_burn) btree_map"
  bg_burn_voters :: "(string, string list) btree_map"
  bg_anti_whale :: anti_whale
  bg_burn_limiter :: endpoint_limiter
  bg_oracle :: oracle_consensus
  bg_outbox :: "string list"

definition BURN_CONSENSUS_THRESHOLD :: u128 where
  "BURN_CONSENSUS_THRESHOLD = 20000"

definition bg_push :: "string \<Rightarrow> bridge \<Rightarrow> bridge" where
  "bg_push msg bg = bg\<lparr>bg_outbox := bg_outbox bg @ [msg]\<rparr>"

definition burn_threshold :: "burn_env \<Rightarrow> u128" where
  "burn_threshold be =
     (if \<not> should_enable_consensus (be_config be) then TESTNET_FUNCTIONAL_THRESHOLD else BURN_CONSENSUS_THRESHOLD)"

abbreviation bg_balance :: "bridge \<Rightarrow> string \<Rightarrow> u128" where
  "bg_balance bg a \<equiv> acc_balance (account_or_default (bg_ledger bg) a)"

text \<open>Some Mint block names the transaction.\<close>

definition txid_minted :: "string \<Rightarrow> ledger \<Rightarrow> bool" where
  "txid_minted txid L = list_ex (\<lambda>b. blk_type b = Mint \<and> str_contains (blk_link b) txid) (bt_values (blocks L))"

text \<open>The same with the link of older Mint blocks, as the console and voters ask.\<close>

definition claimed_before :: "burn_env \<Rightarrow> string \<Rightarrow> string \<Rightarrow> ledger \<Rightarrow> bool" where
  "claimed_before be coin txid L =
     list_ex (\<lambda>b. blk_type b = Mint \<and> (blk_link b = be_upper be coin @ '':'' @ txid \<or> str_contains (blk_link b) txid))
       (bt_values (blocks L))"

section \<open>Minting\<close>

definition mint_link :: "string \<Rightarrow> string \<Rightarrow> u128 \<Rightarrow> string" where
  "mint_link symb txid price = colon_join [symb, txid, uint_to_string price]"

definition node_block ::
    "node_env \<Rightarrow> clock \<Rightarrow> block_type \<Rightarrow> string \<Rightarrow> u128 \<Rightarrow> string \<Rightarrow> ledger \<Rightarrow> block option" where
  "node_block ne ck t account amount link L =
     (let b = solve_pow (ne_env ne)
                \<lparr>blk_account = account, blk_previous = acc_head (account_or_default L account), blk_type = t,
                 blk_amount = amount, blk_link = link, blk_signature = [],
                 blk_public_key = hex_encode (ne_env ne) (ne_public_key ne), blk_work = 0,
                 blk_timestamp = ck_secs ck, blk_fee = 0\<rparr>
      in map_option (\<lambda>sig. b\<lparr>blk_signature := sig\<rparr>) (try_sign_hex ne (as_bytes (signing_hash (ne_env ne) b))))"

text \<open>Outcome of making, signing and processing a Mint.\<close>

datatype mint_outcome = NotSigned ledger | MintPanic | MintFailed ledger_error ledger | Minted process_result block ledger

definition mint_burn :: "burn_env \<Rightarrow> clock \<Rightarrow> string \<Rightarrow> u128 \<Rightarrow> string \<Rightarrow> ledger \<Rightarrow> mint_outcome" where
  "mint_burn be ck recipient amount link L =
     (let L1 = ensure_account recipient L in
      case node_block (be_node be) ck Mint recipient amount link L1 of
        None \<Rightarrow> NotSigned L1
      | Some b \<Rightarrow>
          (case process_block (be_env be) (ck_secs ck) b L1 of
             (Panic, L2) \<Rightarrow> MintPanic
           | (Err e, L2) \<Rightarrow> MintFailed e L2
           | (Ok r, L2) \<Rightarrow> Minted r b L2))"

definition drop_pending :: "string \<Rightarrow> bridge \<Rightarrow> bridge" where
  "drop_pending txid bg =
     bg\<lparr>bg_pending_burns := bt_remove txid (bg_pending_burns bg),
        bg_burn_voters := bt_remove txid (bg_burn_voters bg)\<rparr>"

section \<open>\<open>POST /burn\<close>\<close>

record burn_request =
  bq_coin_type :: string
  bq_txid :: string
  bq_recipient_address :: "string option"
  bq_signature :: "string option"
  bq_public_key :: "string option"

datatype burn_error =
    UnsupportedCoin
  | BurnInvalidRecipient
  | BurnBadKeyHex
  | BurnWrongKey
  | BurnBadSignatureHex
  | BurnSignatureInvalid
  | BurnNeedsSignature
  | BurnRateLimited u64
  | TxidUsed
  | BurnMintOverflow mint_error
  | BurnTooSmall
  | BurnAntiWhale anti_whale_error
  | BurnSigningFailed
  | BurnMintFailed ledger_error
  | OracleVerificationFailed

datatype burn_reply = BurnMinted u128 string | BurnStarted u128 u128

text \<open>What a request carries across the wait.\<close>

record burn_ticket =
  tk_coin :: string
  tk_txid :: string
  tk_recipient :: string
  tk_power :: u128
  tk_prices :: "(u128 \<times> u128) option"

definition burn_owner_check ::
    "burn_env \<Rightarrow> burn_request \<Rightarrow> string \<Rightarrow> string \<Rightarrow> string \<Rightarrow> (unit, burn_error) result" where
  "burn_owner_check be rq coin txid recipient =
     (if bq_recipient_address rq = None \<or> \<not> should_validate_signatures (be_config be) then Ok ()
      else case (bq_signature rq, bq_public_key rq) of
             (Some sig_hex, Some pk_hex) \<Rightarrow>
               (case hex_decode (be_env be) pk_hex of
                  None \<Rightarrow> Err BurnBadKeyHex
                | Some pk \<Rightarrow>
                    if public_key_to_address (be_env be) pk \<noteq> recipient then Err BurnWrongKey
                    else case hex_decode (be_env be) sig_hex of
                           None \<Rightarrow> Err BurnBadSignatureHex
                         | Some sig \<Rightarrow>
                             if \<not> crypto_verify_signature (be_env be)
                                    (as_bytes (colon_join [''BURN'', coin, txid, recipient])) sig pk
                             then Err BurnSignatureInvalid
                             else if printable [recipient] then Ok () else Panic)
           | _ \<Rightarrow> Err BurnNeedsSignature)"

definition burn_begin ::
    "burn_env \<Rightarrow> clock \<Rightarrow> burn_request \<Rightarrow> bridge \<Rightarrow> (burn_ticket, burn_error) result \<times> bridge" where
  "burn_begin be ck rq bg =
     (let clean_txid = be_lower be (trim_0x (str_trim (bq_txid rq)));
          coin = be_lower be (bq_coin_type rq);
          recipient = option_or (bq_recipient_address rq) (ne_address (be_node be)) in
      if coin \<noteq> ''eth'' \<and> coin \<noteq> ''btc'' then (Err UnsupportedCoin, bg)
      else if (case bq_recipient_address rq of Some a \<Rightarrow> \<not> validate_address (be_env be) a | None \<Rightarrow> False)
      then (Err BurnInvalidRecipient, bg)
      else case burn_owner_check be rq coin clean_txid recipient of
             Panic \<Rightarrow> (Panic, bg)
           | Err e \<Rightarrow> (Err e, bg)
           | Ok _ \<Rightarrow>
               let (allowed, el) = check_only (ck_instant ck) recipient (bg_burn_limiter bg);
                   bg = bg\<lparr>bg_burn_limiter := el\<rparr> in
               (case allowed of
                  Panic \<Rightarrow> (Panic, bg)
                | Err wait \<Rightarrow> (Err (BurnRateLimited wait), bg)
                | Ok _ \<Rightarrow>
                    if txid_minted clean_txid (bg_ledger bg) \<or> bt_contains (bg_pending_burns bg) clean_txid
                    then (Err TxidUsed, bg)
                    else (Ok \<lparr>tk_coin = coin, tk_txid = clean_txid, tk_recipient = recipient,
                              tk_power = calculate_voting_power (bg_balance bg (ne_address (be_node be))) * 1000,
                              tk_prices = get_consensus_price (ck_secs ck) (bg_oracle bg)\<rparr>, bg)))"

definition ticket_prices :: "burn_env \<Rightarrow> burn_ticket \<Rightarrow> (u128 \<times> u128) option" where
  "ticket_prices be tk = (case tk_prices tk of Some p \<Rightarrow> Some p | None \<Rightarrow> get_crypto_prices be)"

text \<open>Amount, price and symbol of the burn.\<close>

definition burn_report :: "burn_env \<Rightarrow> string \<Rightarrow> string \<Rightarrow> u128 \<times> u128 \<Rightarrow> (u128 \<times> u128 \<times> string) option option" where
  "burn_report be coin txid prices =
     (if coin = ''eth''
      then map_option (map_option (\<lambda>a. (a, fst prices, ''ETH''))) (verify_eth_burn_tx be txid)
      else map_option (map_option (\<lambda>a. (a, snd prices, ''BTC''))) (verify_btc_burn_tx be txid))"

definition instant_link :: "burn_env \<Rightarrow> string \<Rightarrow> string \<Rightarrow> u128 \<Rightarrow> string" where
  "instant_link be symb txid price =
     (if is_testnet_build (be_env be) \<and> tc_level (be_config be) = Functional
      then ''TESTNET:'' @ mint_link symb txid price else mint_link symb txid price)"

definition burn_now ::
    "burn_env \<Rightarrow> clock \<Rightarrow> burn_ticket \<Rightarrow> u128 \<Rightarrow> string \<Rightarrow> u128 \<Rightarrow> bridge \<Rightarrow> (burn_reply, burn_error) result \<times> bridge" where
  "burn_now be ck tk price symb los_to_mint bg =
     (let (limit, aw) =
            (if tc_level (be_config be) = Functional then (Ok (), bg_anti_whale bg)
             else aw_register_burn (ck_secs ck) (tk_recipient tk) (ucast (los_to_mint div CIL_PER_LOS)) (bg_anti_whale bg));
          bg = bg\<lparr>bg_anti_whale := aw\<rparr> in
      case limit of
        Panic \<Rightarrow> (Panic, bg)
      | Err e \<Rightarrow> (Err (BurnAntiWhale e), bg)
      | Ok _ \<Rightarrow>
          (case mint_burn be ck (tk_recipient tk) los_to_mint (instant_link be symb (tk_txid tk) price) (bg_ledger bg) of
             NotSigned L \<Rightarrow> (Err BurnSigningFailed, bg\<lparr>bg_ledger := L\<rparr>)
           | MintPanic \<Rightarrow> (Panic, bg)
           | MintFailed e L \<Rightarrow> (Err (BurnMintFailed e), bg\<lparr>bg_ledger := L\<rparr>)
           | Minted r b L \<Rightarrow>
               (Ok (BurnMinted los_to_mint (process_result_hash r)),
                (bg_push (be_block_to_json be b) (bg\<lparr>bg_ledger := L\<rparr>))
                  \<lparr>bg_burn_limiter := record_success (ck_instant ck) (tk_recipient tk) (bg_burn_limiter bg)\<rparr>)))"

definition vote_req_text :: "string \<Rightarrow> string \<Rightarrow> string \<Rightarrow> u128 \<Rightarrow> string" where
  "vote_req_text coin txid requester ts = colon_join [''VOTE_REQ'', coin, txid, requester, uint_to_string ts]"

text \<open>The node's own vote alone; with consensus on it takes two voters.\<close>

definition burn_self_vote ::
    "burn_env \<Rightarrow> clock \<Rightarrow> burn_ticket \<Rightarrow> u128 \<Rightarrow> string \<Rightarrow> u128 \<Rightarrow> bridge \<Rightarrow> (burn_reply, burn_error) result \<times> bridge" where
  "burn_self_vote be ck tk price symb los_to_mint bg =
     (let txid = tk_txid tk; recipient = tk_recipient tk in
      if tk_power tk \<ge> burn_threshold be
         \<and> length (option_or (bt_get (bg_burn_voters bg) txid) []) \<ge> min_voters (be_node be)
      then
        (case mint_burn be ck recipient los_to_mint (''Src:'' @ mint_link symb txid price) (bg_ledger bg) of
           NotSigned L \<Rightarrow> (Err BurnSigningFailed, bg\<lparr>bg_ledger := L\<rparr>)
         | MintPanic \<Rightarrow> (Panic, bg)
         | MintFailed e L \<Rightarrow> (Err (BurnMintFailed e), drop_pending txid (bg\<lparr>bg_ledger := L\<rparr>))
         | Minted r b L \<Rightarrow>
             if \<not> printable [recipient] then (Panic, bg\<lparr>bg_ledger := L\<rparr>)
             else
               (Ok (BurnMinted los_to_mint []),
                (bg_push (be_block_to_json be b) (drop_pending txid (bg\<lparr>bg_ledger := L\<rparr>)))
                  \<lparr>bg_burn_limiter := record_success (ck_instant ck) recipient (bg_burn_limiter bg)\<rparr>))
      else
        let bg = bg\<lparr>bg_burn_limiter := record_success (ck_instant ck) recipient (bg_burn_limiter bg)\<rparr>;
            vote_msg = vote_req_text (tk_coin tk) txid (ne_address (be_node be)) (ck_millis ck) in
        if str_slice_to vote_msg 50 = None then (Panic, bg)
        else (Ok (BurnStarted (tk_power tk) (burn_threshold be)), bg_push vote_msg bg))"

definition burn_queue ::
    "burn_env \<Rightarrow> clock \<Rightarrow> burn_ticket \<Rightarrow> u128 \<Rightarrow> u128 \<Rightarrow> string \<Rightarrow> u128 \<Rightarrow> bridge
     \<Rightarrow> (burn_reply, burn_error) result \<times> bridge" where
  "burn_queue be ck tk amt price symb los_to_mint bg =
     (let (limit, aw) =
            (if tc_enable_faucet (be_config be) then (Ok (), bg_anti_whale bg)
             else aw_register_burn (ck_secs ck) (tk_recipient tk) (ucast (los_to_mint div CIL_PER_LOS)) (bg_anti_whale bg));
          bg = bg\<lparr>bg_anti_whale := aw\<rparr> in
      case limit of
        Panic \<Rightarrow> (Panic, bg)
      | Err e \<Rightarrow> (Err (BurnAntiWhale e), bg)
      | Ok _ \<Rightarrow>
          if \<not> tc_enable_faucet (be_config be) \<and> \<not> printable [tk_recipient tk] then (Panic, bg)
          else
            let txid = tk_txid tk;
                voters = option_or (bt_get (bg_burn_voters bg) txid) [];
                me = ne_address (be_node be);
                bg = bg\<lparr>bg_pending_burns := bt_insert txid
                          \<lparr>pb_amount = amt, pb_price = price, pb_symbol = symb, pb_power = tk_power tk,
                           pb_created_at = ck_secs ck, pb_recipient = tk_recipient tk\<rparr> (bg_pending_burns bg),
                        bg_burn_voters := bt_insert txid (if me \<in> set voters then voters else voters @ [me])
                          (bg_burn_voters bg)\<rparr>
            in burn_self_vote be ck tk price symb los_to_mint bg)"

definition burn_finish ::
    "burn_env \<Rightarrow> clock \<Rightarrow> burn_ticket \<Rightarrow> bridge \<Rightarrow> (burn_reply, burn_error) result \<times> bridge" where
  "burn_finish be ck tk bg =
     (case ticket_prices be tk of
        None \<Rightarrow> (Panic, bg)
      | Some prices \<Rightarrow>
          (case burn_report be (tk_coin tk) (tk_txid tk) prices of
             None \<Rightarrow> (Panic, bg)
           | Some None \<Rightarrow>
               (if str_slice_to (tk_txid tk) (min (length (tk_txid tk)) 16) = None then Panic
                else Err OracleVerificationFailed, bg)
           | Some (Some (amt, price, symb)) \<Rightarrow>
               (case calculate_mint_cil amt price symb of
                  Panic \<Rightarrow> (Panic, bg)
                | Err e \<Rightarrow> (Err (BurnMintOverflow e), bg)
                | Ok los_to_mint \<Rightarrow>
                    if los_to_mint = 0 then (Err BurnTooSmall, bg)
                    else if \<not> should_enable_consensus (be_config be) then burn_now be ck tk price symb los_to_mint bg
                    else burn_queue be ck tk amt price symb los_to_mint bg)))"

text \<open>A request that no other one overlaps.\<close>

definition handle_burn ::
    "burn_env \<Rightarrow> clock \<Rightarrow> clock \<Rightarrow> burn_request \<Rightarrow> bridge \<Rightarrow> (burn_reply, burn_error) result \<times> bridge" where
  "handle_burn be ck ck' rq bg =
     (case burn_begin be ck rq bg of
        (Panic, bg) \<Rightarrow> (Panic, bg)
      | (Err e, bg) \<Rightarrow> (Err e, bg)
      | (Ok tk, bg) \<Rightarrow> burn_finish be ck' tk bg)"

section \<open>The console\<close>

text \<open>\<open>burn <coin> <txid>\<close>: the node is the recipient and does not vote itself. \<open>None\<close> is a panic.\<close>

definition console_burn :: "burn_env \<Rightarrow> clock \<Rightarrow> string \<Rightarrow> string \<Rightarrow> bridge \<Rightarrow> bridge option" where
  "console_burn be ck coin_word raw_txid bg =
     (let coin = be_lower be coin_word;
          txid = be_lower be (trim_0x (str_trim raw_txid));
          me = ne_address (be_node be) in
      if claimed_before be coin txid (bg_ledger bg) then Some bg
      else if bt_contains (bg_pending_burns bg) txid then Some bg
      else
        case (case get_consensus_price (ck_secs ck) (bg_oracle bg) of Some p \<Rightarrow> Some p | None \<Rightarrow> get_crypto_prices be) of
          None \<Rightarrow> None
        | Some prices \<Rightarrow>
            (case (if coin = ''eth'' \<or> coin = ''btc'' then burn_report be coin txid prices else Some None) of
               None \<Rightarrow> None
             | Some None \<Rightarrow> Some bg
             | Some (Some (amt, price, symb)) \<Rightarrow>
                 Some (bg_push (vote_req_text coin txid me (ck_millis ck))
                   (bg\<lparr>bg_pending_burns := bt_insert txid
                         \<lparr>pb_amount = amt, pb_price = price, pb_symbol = symb, pb_power = 0,
                          pb_created_at = ck_secs ck, pb_recipient = me\<rparr> (bg_pending_burns bg)\<rparr>))))"

section \<open>Gossip\<close>

text \<open>\<open>VOTE_REQ:coin:txid:requester:time\<close>: a second claim is answered by a proposal to slash the requester, a
  burn that an explorer confirms by a signed vote.\<close>

definition slash_payload :: "string \<Rightarrow> string \<Rightarrow> string \<Rightarrow> string \<Rightarrow> string" where
  "slash_payload cheater txid proposer ts = colon_join [''SLASH'', cheater, txid, proposer, ts]"

definition signed_suffix :: "burn_env \<Rightarrow> bytes \<Rightarrow> string list" where
  "signed_suffix be sig = [hex_encode (be_env be) sig, hex_encode (be_env be) (ne_public_key (be_node be))]"

definition accuse :: "burn_env \<Rightarrow> clock \<Rightarrow> string \<Rightarrow> string \<Rightarrow> string list" where
  "accuse be ck requester txid =
     (let me = ne_address (be_node be); ts = uint_to_string (ck_millis ck) in
      if requester = me \<or> \<not> printable [requester] then []
      else case ne_sign (be_node be) (as_bytes (slash_payload requester txid me ts)) of
             None \<Rightarrow> []
           | Some sig \<Rightarrow> [colon_join ([''SLASH_REQ'', requester, txid, me, ts] @ signed_suffix be sig)])"

definition cast_vote :: "burn_env \<Rightarrow> clock \<Rightarrow> string \<Rightarrow> string \<Rightarrow> string \<Rightarrow> string list" where
  "cast_vote be ck coin txid requester =
     (case (if coin = ''eth'' then verify_eth_burn_tx be txid else verify_btc_burn_tx be txid) of
        Some (Some _) \<Rightarrow>
          let me = ne_address (be_node be); ts = uint_to_string (ck_millis ck) in
          (case ne_sign (be_node be) (as_bytes (vote_payload txid requester me ts)) of
             None \<Rightarrow> []
           | Some sig \<Rightarrow> [colon_join ([''VOTE_RES'', txid, requester, ''YES'', me, ts] @ signed_suffix be sig)])
      | _ \<Rightarrow> [])"

definition handle_vote_req :: "burn_env \<Rightarrow> clock \<Rightarrow> string \<Rightarrow> bridge \<Rightarrow> bridge" where
  "handle_vote_req be ck data bg =
     (let parts = str_split (CHR '':'') data in
      if length parts \<noteq> 5 then bg
      else bg\<lparr>bg_outbox := bg_outbox bg @
             (if claimed_before be (parts ! 1) (parts ! 2) (bg_ledger bg)
              then accuse be ck (parts ! 3) (parts ! 2)
              else cast_vote be ck (parts ! 1) (parts ! 2) (parts ! 3))\<rparr>)"

text \<open>\<open>VOTE_RES:txid:requester:YES:voter:time:signature:key\<close>\<close>

definition mint_confirmed :: "burn_env \<Rightarrow> clock \<Rightarrow> string \<Rightarrow> pending_burn \<Rightarrow> bridge \<Rightarrow> bridge option" where
  "mint_confirmed be ck txid pb bg =
     (case calculate_mint_cil (pb_amount pb) (pb_price pb) (pb_symbol pb) of
        Panic \<Rightarrow> None
      | Err e \<Rightarrow> Some bg
      | Ok los_to_mint \<Rightarrow>
          if los_to_mint = 0 then Some bg
          else
            (case mint_burn be ck (pb_recipient pb) los_to_mint
                    (''Src:'' @ mint_link (pb_symbol pb) txid (pb_price pb)) (bg_ledger bg) of
               NotSigned L \<Rightarrow> Some (bg\<lparr>bg_ledger := L\<rparr>)
             | MintPanic \<Rightarrow> None
             | MintFailed e L \<Rightarrow> Some (drop_pending txid (bg\<lparr>bg_ledger := L\<rparr>))
             | Minted r b L \<Rightarrow>
                 if \<not> printable [pb_recipient pb] then None
                 else Some (drop_pending txid (bg_push (be_block_to_json be b) (bg\<lparr>bg_ledger := L\<rparr>)))))"

definition count_burn_vote :: "burn_env \<Rightarrow> clock \<Rightarrow> string \<Rightarrow> string \<Rightarrow> bridge \<Rightarrow> bridge option" where
  "count_burn_vote be ck txid voter bg =
     (let power = calculate_voting_power (bg_balance bg voter);
          voters = option_or (bt_get (bg_burn_voters bg) txid) [] in
      if \<not> printable [voter] then None
      else if power = 0 then Some bg
      else if voter \<in> set voters then Some bg
      else
        let voters = voters @ [voter];
            bg = bg\<lparr>bg_burn_voters := bt_insert txid voters (bg_burn_voters bg)\<rparr> in
        (case bt_get (bg_pending_burns bg) txid of
           None \<Rightarrow> Some bg
         | Some pb \<Rightarrow>
             let pb = pb\<lparr>pb_power := pb_power pb + power * 1000\<rparr>;
                 bg = bg\<lparr>bg_pending_burns := bt_insert txid pb (bg_pending_burns bg)\<rparr> in
             if pb_power pb \<ge> burn_threshold be \<and> length voters \<ge> min_voters (be_node be)
             then mint_confirmed be ck txid pb bg else Some bg))"

definition handle_vote_res :: "burn_env \<Rightarrow> clock \<Rightarrow> string \<Rightarrow> bridge \<Rightarrow> bridge option" where
  "handle_vote_res be ck data bg =
     (let parts = str_split (CHR '':'') data in
      if length parts \<noteq> 8 then Some bg
      else if \<not> vote_authentic (be_env be) parts then (if printable [parts ! 4] then Some bg else None)
      else if \<not> bt_contains (bg_pending_burns bg) (parts ! 1) then Some bg
      else count_burn_vote be ck (parts ! 1) (parts ! 4) bg)"

section \<open>Cleanup\<close>

text \<open>A burn that is too old is forgotten; its voters are not.\<close>

definition cleanup_burns :: "clock \<Rightarrow> bridge \<Rightarrow> bridge" where
  "cleanup_burns ck bg =
     bg\<lparr>bg_pending_burns :=
          filter (\<lambda>e. saturating_sub (ck_secs ck) (pb_created_at (snd e)) < PENDING_TTL_SECS) (bg_pending_burns bg)\<rparr>"

end
