(* ===== verification/Node_Gossip.thy ===== *)
theory Node_Gossip
  imports Node_Burn
begin

text \<open>
  Gossip that changes the ledger or the safety records of validators (\<open>los-node/src/main.rs\<close>): the handlers of
  \<open>SLASH_REQ\<close>, of \<open>ORACLE_SUBMIT\<close> and of a bare block. They run in the event loop; \<open>None\<close> is a panic, which
  ends it. The serialised form of a block is a parameter.
\<close>

section \<open>State\<close>

record watch_node =
  wn_ledger :: ledger
  wn_slashing :: slashing_manager
  wn_oracle :: oracle_consensus
  wn_outbox :: "string list"

record gossip_env =
  ge_node :: node_env
  ge_block_to_json :: "block \<Rightarrow> string"
  ge_block_of_json :: "string \<Rightarrow> block option"

abbreviation ge_env :: "gossip_env \<Rightarrow> los_env" where
  "ge_env ge \<equiv> ne_env (ge_node ge)"

definition wn_push :: "string \<Rightarrow> watch_node \<Rightarrow> watch_node" where
  "wn_push msg wn = wn\<lparr>wn_outbox := wn_outbox wn @ [msg]\<rparr>"

definition staked :: "string \<Rightarrow> ledger \<Rightarrow> bool" where
  "staked a L = (case bt_get (accounts L) a of Some st \<Rightarrow> acc_balance st \<ge> MIN_VALIDATOR_STAKE_CIL | None \<Rightarrow> False)"

text \<open>A Slash block of the node, processed if it can be signed; it is sent to the peers when it was accepted.\<close>

definition slash_account ::
    "gossip_env \<Rightarrow> clock \<Rightarrow> string \<Rightarrow> u128 \<Rightarrow> string \<Rightarrow> watch_node \<Rightarrow> watch_node option" where
  "slash_account ge ck account amount link wn =
     (case node_block (ge_node ge) ck Slash account amount link (wn_ledger wn) of
        None \<Rightarrow> Some wn
      | Some b \<Rightarrow>
          if blk_signature b = [] then Some wn
          else
            (case process_block (ge_env ge) (ck_secs ck) b (wn_ledger wn) of
               (Panic, L) \<Rightarrow> None
             | (Err e, L) \<Rightarrow> Some (wn\<lparr>wn_ledger := L\<rparr>)
             | (Ok r, L) \<Rightarrow> Some (wn_push (ge_block_to_json ge b) (wn\<lparr>wn_ledger := L\<rparr>))))"

section \<open>\<open>SLASH_REQ\<close>\<close>

text \<open>\<open>SLASH_REQ:cheater:txid:proposer:time:signature:key\<close>, or without the last four on the testnet. The
  proposer proves that it holds its own key, nothing else.\<close>

definition slash_request_authentic :: "los_env \<Rightarrow> string list \<Rightarrow> bool" where
  "slash_request_authentic env parts =
     (let pk = hex_decode_or_empty env (parts ! 6)
      in crypto_verify_signature env (as_bytes (slash_payload (parts ! 1) (parts ! 2) (parts ! 3) (parts ! 4)))
           (hex_decode_or_empty env (parts ! 5)) pk
         \<and> public_key_to_address env pk = parts ! 3)"

definition slash_vote_threshold :: "slashing_manager \<Rightarrow> u32" where
  "slash_vote_threshold m = max (ss_total_validators (get_safety_stats m)) 1 * 2 div 3 + 1"

definition open_proposals :: "string \<Rightarrow> slashing_manager \<Rightarrow> nat" where
  "open_proposals cheater m =
     length (filter (\<lambda>p. pr_offender p = cheater \<and> \<not> pr_executed p) (bt_values (sm_pending_proposals m)))"

definition execute_slash_request ::
    "gossip_env \<Rightarrow> clock \<Rightarrow> string \<Rightarrow> string \<Rightarrow> watch_node \<Rightarrow> watch_node option" where
  "execute_slash_request ge ck cheater txid wn =
     (case bt_get (accounts (wn_ledger wn)) cheater of
        None \<Rightarrow> Some wn
      | Some st \<Rightarrow>
          if acc_balance st = 0 then Some wn
          else
            (case node_block (ge_node ge) ck Slash cheater (acc_balance st div 10) (''PENALTY:FAKE_TXID:'' @ txid) (wn_ledger wn) of
               None \<Rightarrow> Some wn
             | Some b \<Rightarrow>
                 (case process_block (ge_env ge) (ck_secs ck) b (wn_ledger wn) of
                    (Panic, L) \<Rightarrow> None
                  | (Err e, L) \<Rightarrow> Some (wn\<lparr>wn_ledger := L\<rparr>)
                  | (Ok r, L) \<Rightarrow>
                      if str_slice_to (process_result_hash r) 8 = None then None
                      else Some (wn_push (ge_block_to_json ge b) (wn\<lparr>wn_ledger := L\<rparr>)))))"

definition slash_proposal_received ::
    "gossip_env \<Rightarrow> clock \<Rightarrow> string \<Rightarrow> string \<Rightarrow> watch_node \<Rightarrow> watch_node option" where
  "slash_proposal_received ge ck cheater txid wn =
     (let me = ne_address (ge_node ge); L = wn_ledger wn in
      if \<not> printable [cheater] then None
      else if acc_balance (account_or_default L me) < MIN_VALIDATOR_STAKE_CIL then Some wn
      else if \<not> (bt_contains (accounts L) cheater \<and> \<not> txid_minted txid L) then Some wn
      else
        let m = wn_slashing wn; threshold = slash_vote_threshold m;
            m' = snd (propose_slash cheater FraudulentTransaction (''FAKE_TXID:'' @ txid) me (ck_secs ck) m);
            wn = wn\<lparr>wn_slashing := m'\<rparr>
        in if open_proposals cheater m' \<ge> unat threshold
           then execute_slash_request ge ck cheater txid wn else Some wn)"

definition handle_slash_req :: "gossip_env \<Rightarrow> clock \<Rightarrow> string \<Rightarrow> watch_node \<Rightarrow> watch_node option" where
  "handle_slash_req ge ck data wn =
     (let env = ge_env ge; parts = str_split (CHR '':'') data in
      if length parts = 7 then
        (if \<not> slash_request_authentic env parts then (if printable [parts ! 3] then Some wn else None)
         else slash_proposal_received ge ck (parts ! 1) (parts ! 2) wn)
      else if length parts = 3 then
        (if is_mainnet_build env then Some wn else slash_proposal_received ge ck (parts ! 1) (parts ! 2) wn)
      else Some wn)"

section \<open>\<open>ORACLE_SUBMIT\<close>\<close>

text \<open>\<open>ORACLE_SUBMIT:validator:eth:btc:signature:key\<close>. The signature covers the numbers as parsed.\<close>

definition handle_oracle_submit :: "gossip_env \<Rightarrow> clock \<Rightarrow> string \<Rightarrow> watch_node \<Rightarrow> watch_node option" where
  "handle_oracle_submit ge ck data wn =
     (let env = ge_env ge; parts = str_split (CHR '':'') data in
      if length parts \<noteq> 6 then Some wn
      else
        let validator = parts ! 1;
            eth = option_or (parse_uint (parts ! 2)) (0 :: u128); btc = option_or (parse_uint (parts ! 3)) (0 :: u128);
            pk = hex_decode_or_empty env (parts ! 5);
            derived = public_key_to_address env pk in
        if \<not> crypto_verify_signature env
               (as_bytes (colon_join [validator, uint_to_string eth, uint_to_string btc]))
               (hex_decode_or_empty env (parts ! 4)) pk
        then (if printable [validator] then Some wn else None)
        else if derived \<noteq> validator then (if printable [validator, derived] then Some wn else None)
        else if \<not> staked validator (wn_ledger wn) then (if printable [validator] then Some wn else None)
        else
          (case submit_price (ck_secs ck) validator eth btc (wn_oracle wn) of
             (Panic, oc) \<Rightarrow> None
           | (_, oc) \<Rightarrow>
               if get_consensus_price (ck_secs ck) oc = None \<and> \<not> printable [validator] then None
               else Some (wn\<lparr>wn_oracle := oc\<rparr>)))"

section \<open>Blocks\<close>

text \<open>A Mint or a Slash needs a valid signature and proof of work; the signer needs a stake unless the faucet is
  on and the block is a Mint. \<open>None\<close> is a panic, \<open>Some False\<close> a refusal.\<close>

definition system_block_accepted :: "gossip_env \<Rightarrow> block \<Rightarrow> ledger \<Rightarrow> bool option" where
  "system_block_accepted ge inc L =
     (let env = ge_env ge;
          sig_ok = (case (hex_decode env (blk_signature inc), hex_decode env (blk_public_key inc)) of
                      (Some sig, Some pk) \<Rightarrow> crypto_verify_signature env (as_bytes (signing_hash env inc)) sig pk
                    | _ \<Rightarrow> False);
          signer = (case hex_decode env (blk_public_key inc) of
                      Some pk \<Rightarrow> public_key_to_address env pk | None \<Rightarrow> []) in
      if blk_signature inc = [] \<or> blk_public_key inc = [] then Some False
      else if \<not> sig_ok then Some False
      else if \<not> verify_pow env inc then Some False
      else if (\<not> tc_enable_faucet (ne_config (ge_node ge)) \<or> blk_type inc = Slash) \<and> \<not> staked signer L
      then (if printable [signer] then Some False else None)
      else Some True)"

definition system_block :: "block \<Rightarrow> bool" where
  "system_block b = (blk_type b \<in> {Mint, Slash})"

text \<open>Phase 1: the account is created, the block is recorded as signed by the account at its present height,
  and another block recorded there makes a double signature. The signature of the block is not looked at.\<close>

definition note_signature :: "clock \<Rightarrow> block \<Rightarrow> string \<Rightarrow> ledger \<Rightarrow> slashing_manager \<Rightarrow> bool \<times> slashing_manager" where
  "note_signature ck inc block_hash L m =
     (let account = blk_account inc; st = account_or_default L account;
          m1 = (if bt_get (sm_validators m) account = None \<and> acc_is_validator st
                then sm_register_validator account m else m) in
      if bt_get (sm_validators m1) account = None then (False, m1)
      else case record_signature account (acc_block_count st) block_hash (ck_secs ck) m1 of
             (Err e, m2) \<Rightarrow> (True, m2) | (_, m2) \<Rightarrow> (False, m2))"

definition punish_double_sign :: "gossip_env \<Rightarrow> clock \<Rightarrow> block \<Rightarrow> string \<Rightarrow> watch_node \<Rightarrow> watch_node option" where
  "punish_double_sign ge ck inc block_hash wn =
     (let account = blk_account inc; L = wn_ledger wn in
      if \<not> printable [account] then None
      else case slash_double_signing account (of_nat (length (blocks L))) (acc_balance (account_or_default L account))
                  (ck_secs ck) (wn_slashing wn) of
             (Ok slashed, m) \<Rightarrow>
               slash_account ge ck account slashed (''PENALTY:DOUBLE_SIGN:'' @ block_hash) (wn\<lparr>wn_slashing := m\<rparr>)
           | (_, m) \<Rightarrow> Some (wn\<lparr>wn_slashing := m\<rparr>))"

definition block_phase1 :: "gossip_env \<Rightarrow> clock \<Rightarrow> block \<Rightarrow> watch_node \<Rightarrow> (bool \<times> watch_node) option" where
  "block_phase1 ge ck inc wn =
     (let h = calculate_hash (ge_env ge) inc; L = ensure_account (blk_account inc) (wn_ledger wn);
          (twice, m) = (if system_block inc then (False, wn_slashing wn) else note_signature ck inc h L (wn_slashing wn));
          wn = wn\<lparr>wn_ledger := L, wn_slashing := m\<rparr> in
      if twice then map_option (\<lambda>wn. (True, wn)) (punish_double_sign ge ck inc h wn) else Some (False, wn))"

text \<open>Phase 2: the block is processed; then participation and downtime of its account, its registration, and
  the Receive for a transfer to this node.\<close>

definition track_participation :: "gossip_env \<Rightarrow> clock \<Rightarrow> string \<Rightarrow> watch_node \<Rightarrow> watch_node option" where
  "track_participation ge ck account wn =
     (let L = wn_ledger wn; height = of_nat (length (blocks L));
          m = snd (record_block_participation account height (ck_secs ck) (wn_slashing wn)) in
      case bt_get (accounts L) account of
        None \<Rightarrow> Some (wn\<lparr>wn_slashing := m\<rparr>)
      | Some st \<Rightarrow>
          (case check_and_slash_downtime account height (acc_balance st) (ck_secs ck) m of
             (Ok (Some slashed), m') \<Rightarrow>
               if \<not> printable [account] then None
               else slash_account ge ck account slashed (''PENALTY:DOWNTIME:'' @ uint_to_string height)
                      (wn\<lparr>wn_slashing := m'\<rparr>)
           | (_, m') \<Rightarrow> Some (wn\<lparr>wn_slashing := m'\<rparr>)))"

definition receive_own :: "gossip_env \<Rightarrow> clock \<Rightarrow> block \<Rightarrow> string \<Rightarrow> watch_node \<Rightarrow> watch_node option" where
  "receive_own ge ck inc block_hash wn =
     (let me = ne_address (ge_node ge) in
      if blk_type inc = Send \<and> blk_link inc = me then
        let wn = wn\<lparr>wn_ledger := ensure_account me (wn_ledger wn)\<rparr> in
        (case auto_receive (ge_node ge) ck me block_hash (blk_amount inc) (wn_ledger wn) of
           None \<Rightarrow> Some wn
         | Some rb \<Rightarrow>
             if blk_signature rb = [] then Some wn
             else
               (case process_block (ge_env ge) (ck_secs ck) rb (wn_ledger wn) of
                  (Panic, L) \<Rightarrow> None
                | (Err e, L) \<Rightarrow> Some (wn\<lparr>wn_ledger := L\<rparr>)
                | (Ok r, L) \<Rightarrow> Some (wn_push (ge_block_to_json ge rb) (wn\<lparr>wn_ledger := L\<rparr>))))
      else Some wn)"

definition block_phase2 :: "gossip_env \<Rightarrow> clock \<Rightarrow> block \<Rightarrow> watch_node \<Rightarrow> watch_node option" where
  "block_phase2 ge ck inc wn =
     (case process_block (ge_env ge) (ck_secs ck) inc (wn_ledger wn) of
        (Panic, L) \<Rightarrow> None
      | (Err e, L) \<Rightarrow> (if printable [blk_account inc] then Some (wn\<lparr>wn_ledger := L\<rparr>) else None)
      | (Ok r, L) \<Rightarrow>
          (case track_participation ge ck (blk_account inc) (wn\<lparr>wn_ledger := L\<rparr>) of
             None \<Rightarrow> None
           | Some wn \<Rightarrow>
               if \<not> printable [blk_account inc] then None
               else
                 let wn = (if blk_type inc = Send
                           then wn\<lparr>wn_ledger := auto_unregister (blk_account inc) (wn_ledger wn)\<rparr> else wn)
                 in receive_own ge ck inc (process_result_hash r) wn))"

definition handle_block :: "gossip_env \<Rightarrow> clock \<Rightarrow> string \<Rightarrow> watch_node \<Rightarrow> watch_node option" where
  "handle_block ge ck data wn =
     (case ge_block_of_json ge data of
        None \<Rightarrow> Some wn
      | Some inc \<Rightarrow>
          (case (if system_block inc then system_block_accepted ge inc (wn_ledger wn) else Some True) of
             None \<Rightarrow> None
           | Some False \<Rightarrow> Some wn
           | Some True \<Rightarrow>
               if bt_contains (blocks (wn_ledger wn)) (calculate_hash (ge_env ge) inc) then Some wn
               else
                 (case block_phase1 ge ck inc wn of
                    None \<Rightarrow> None
                  | Some (True, wn) \<Rightarrow> Some wn
                  | Some (False, wn) \<Rightarrow> block_phase2 ge ck inc wn)))"

end
