(* ===== verification/Node_Gossip_Safety.thy ===== *)
theory Node_Gossip_Safety
  imports Node_Gossip Node_Send_Safety
begin

text \<open>
  What gossip can do to the ledger and to validators. No message creates value: the ledger invariant is kept and
  the accounted value never grows. But validators are punished on evidence that is not checked: two unsigned
  blocks that name a validator ban it and burn its balance, and slash proposals are counted per message and not
  per proposer. A Mint from one staked validator is applied without any vote.
\<close>

section \<open>No message creates value\<close>

definition sound_change :: "ledger \<Rightarrow> ledger \<Rightarrow> bool" where
  "sound_change L L' \<longleftrightarrow> (ledger_inv L \<longrightarrow> ledger_inv L' \<and> ledger_value L' \<le> ledger_value L)"

named_theorems sound_changes

lemma sound_refl [sound_changes]: "sound_change L L"
  by (simp add: sound_change_def)

lemma sound_trans: "sound_change L M \<Longrightarrow> sound_change M N \<Longrightarrow> sound_change L N"
  by (auto simp: sound_change_def)

lemma sound_process [sound_changes]: "process_block env now b L = (r, L') \<Longrightarrow> sound_change L L'"
  by (simp add: sound_change_def process_block_inv)

lemma sound_ensure [sound_changes]: "sound_change L (ensure_account a L)"
  by (simp add: sound_change_def ensure_account_safe)

lemma sound_unregister [sound_changes]: "sound_change L (auto_unregister a L)"
  by (simp add: sound_change_def auto_unregister_safe)

lemma wn_push_sel [simp]:
  "wn_ledger (wn_push m wn) = wn_ledger wn" "wn_slashing (wn_push m wn) = wn_slashing wn"
  "wn_oracle (wn_push m wn) = wn_oracle wn"
  by (simp_all add: wn_push_def)

lemma slash_account_sound:
  assumes "slash_account ge ck a amt link wn = Some wn'"
  shows "sound_change (wn_ledger wn) (wn_ledger wn')" "wn_slashing wn' = wn_slashing wn"
  using assms by (auto simp: slash_account_def sound_refl dest: sound_process split: option.splits if_splits prod.splits result.splits)

lemma execute_slash_request_sound:
  assumes "execute_slash_request ge ck c txid wn = Some wn'"
  shows "sound_change (wn_ledger wn) (wn_ledger wn')" "wn_slashing wn' = wn_slashing wn"
  using assms
  by (auto simp: execute_slash_request_def sound_refl dest: sound_process split: option.splits if_splits prod.splits result.splits)

lemma slash_proposal_sound:
  assumes "slash_proposal_received ge ck c txid wn = Some wn'"
  shows "sound_change (wn_ledger wn) (wn_ledger wn')"
  using assms
  by (auto simp: slash_proposal_received_def Let_def sound_refl dest: execute_slash_request_sound(1) split: if_splits)

lemma handle_slash_req_sound:
  assumes "handle_slash_req ge ck data wn = Some wn'"
  shows "sound_change (wn_ledger wn) (wn_ledger wn')"
  using assms by (auto simp: handle_slash_req_def Let_def sound_refl dest: slash_proposal_sound split: if_splits)

lemma handle_oracle_submit_ledger:
  assumes "handle_oracle_submit ge ck data wn = Some wn'"
  shows "wn_ledger wn' = wn_ledger wn" "wn_slashing wn' = wn_slashing wn"
  using assms by (auto simp: handle_oracle_submit_def Let_def split: if_splits prod.splits result.splits)

lemma punish_double_sign_sound:
  assumes "punish_double_sign ge ck inc h wn = Some wn'"
  shows "sound_change (wn_ledger wn) (wn_ledger wn')"
  using assms
  by (auto simp: punish_double_sign_def Let_def sound_refl dest: slash_account_sound(1) split: if_splits prod.splits result.splits)

lemma block_phase1_sound:
  assumes "block_phase1 ge ck inc wn = Some (d, wn')"
  shows "sound_change (wn_ledger wn) (wn_ledger wn')"
  using assms sound_trans [OF sound_ensure [of "wn_ledger wn" "blk_account inc"]]
  by (auto simp: block_phase1_def Let_def sound_ensure dest: punish_double_sign_sound split: if_splits prod.splits)

lemma track_participation_sound:
  assumes "track_participation ge ck a wn = Some wn'"
  shows "sound_change (wn_ledger wn) (wn_ledger wn')"
  using assms
  by (auto simp: track_participation_def Let_def sound_refl dest: slash_account_sound(1)
      split: if_splits prod.splits option.splits result.splits)

lemma receive_own_sound:
  assumes "receive_own ge ck inc h wn = Some wn'"
  shows "sound_change (wn_ledger wn) (wn_ledger wn')"
  using assms sound_trans [OF sound_ensure [of "wn_ledger wn" "ne_address (ge_node ge)"]]
  by (auto simp: receive_own_def Let_def sound_refl sound_ensure dest: sound_process
      split: if_splits prod.splits option.splits result.splits)

lemma block_phase2_sound:
  assumes "block_phase2 ge ck inc wn = Some wn'"
  shows "sound_change (wn_ledger wn) (wn_ledger wn')"
proof -
  obtain r L where p: "process_block (ge_env ge) (ck_secs ck) inc (wn_ledger wn) = (r, L)" by fastforce
  show ?thesis
  proof (cases r)
    case (Ok v)
    with assms p obtain w where w: "track_participation ge ck (blk_account inc) (wn\<lparr>wn_ledger := L\<rparr>) = Some w"
      and r: "receive_own ge ck inc (process_result_hash v)
        (if blk_type inc = Send then w\<lparr>wn_ledger := auto_unregister (blk_account inc) (wn_ledger w)\<rparr> else w) = Some wn'"
      by (auto simp: block_phase2_def Let_def split: option.splits if_splits)
    have "sound_change (wn_ledger wn) (wn_ledger w)"
      using sound_trans [OF sound_process [OF p]] track_participation_sound [OF w] by simp
    moreover have "sound_change (wn_ledger w) (wn_ledger wn')"
      using receive_own_sound [OF r] sound_trans [OF sound_unregister [of "wn_ledger w" "blk_account inc"]]
      by (auto split: if_splits)
    ultimately show ?thesis by (rule sound_trans)
  qed (use assms p sound_process [OF p] in \<open>auto simp: block_phase2_def split: if_splits\<close>)
qed

lemma handle_block_cases:
  assumes "handle_block ge ck data wn = Some wn'"
  obtains (ignored) "wn' = wn"
  | (punished) inc where "ge_block_of_json ge data = Some inc" "block_phase1 ge ck inc wn = Some (True, wn')"
  | (processed) inc w where "ge_block_of_json ge data = Some inc"
      "system_block inc \<Longrightarrow> system_block_accepted ge inc (wn_ledger wn) = Some True"
      "block_phase1 ge ck inc wn = Some (False, w)" "block_phase2 ge ck inc w = Some wn'"
proof (cases "ge_block_of_json ge data")
  case (Some inc)
  obtain ok where ok: "(if system_block inc then system_block_accepted ge inc (wn_ledger wn) else Some True) = Some ok"
    using assms Some by (fastforce simp: handle_block_def split: option.splits)
  show thesis
  proof (cases "ok \<and> \<not> bt_contains (blocks (wn_ledger wn)) (calculate_hash (ge_env ge) inc)")
    case True
    with assms Some ok obtain d w where d: "block_phase1 ge ck inc wn = Some (d, w)"
      by (fastforce simp: handle_block_def simp del: if_split_asm split: option.splits)
    show thesis
    proof (cases d)
      case True
      with assms Some ok d \<open>ok \<and> _\<close> show thesis using punished [of inc] by (simp add: handle_block_def)
    next
      case False
      with assms Some ok d \<open>ok \<and> _\<close> show thesis using processed [of inc w] by (simp add: handle_block_def split: if_splits)
    qed
  next
    case False
    with assms Some ok show thesis using ignored by (cases ok) (simp_all add: handle_block_def)
  qed
qed (use assms ignored in \<open>simp add: handle_block_def\<close>)

lemma handle_block_sound:
  assumes "handle_block ge ck data wn = Some wn'"
  shows "sound_change (wn_ledger wn) (wn_ledger wn')"
  using assms
proof (cases rule: handle_block_cases)
  case (processed inc w)
  then show ?thesis using block_phase1_sound block_phase2_sound sound_trans by blast
qed (auto simp: sound_refl dest: block_phase1_sound)

inductive gossip_step :: "gossip_env \<Rightarrow> watch_node \<Rightarrow> watch_node \<Rightarrow> bool" for ge where
  slash_req: "handle_slash_req ge ck data wn = Some wn' \<Longrightarrow> gossip_step ge wn wn'"
| oracle_submit: "handle_oracle_submit ge ck data wn = Some wn' \<Longrightarrow> gossip_step ge wn wn'"
| block: "handle_block ge ck data wn = Some wn' \<Longrightarrow> gossip_step ge wn wn'"

lemma gossip_step_sound: "gossip_step ge wn wn' \<Longrightarrow> sound_change (wn_ledger wn) (wn_ledger wn')"
  by (erule gossip_step.cases)
    (auto simp: handle_oracle_submit_ledger sound_refl dest: handle_slash_req_sound handle_block_sound)

interpretation gossip_sys: conserving_system "gossip_step ge" "\<lambda>wn. ledger_inv (wn_ledger wn)"
    "\<lambda>wn. ledger_value (wn_ledger wn)" for ge
  by unfold_locales (auto dest: gossip_step_sound simp: sound_change_def)

text \<open>C27: gossip creates no value. Whatever blocks, slash proposals and prices peers send, in every
  state the node reaches the ledger invariant holds and the value the ledger accounts for (balances, unclaimed
  Sends, fees and the supply not yet minted) has not grown.\<close>

theorem gossip_creates_no_value:
  assumes "(gossip_step ge)\<^sup>*\<^sup>* wn0 wn" "ledger_inv (wn_ledger wn0)"
  shows "ledger_inv (wn_ledger wn) \<and> ledger_value (wn_ledger wn) \<le> ledger_value (wn_ledger wn0)"
  using gossip_sys.reach_inv [OF assms] gossip_sys.reach_val [OF assms] by blast

section \<open>Forged double signatures\<close>

lemma process_block_unsigned:
  assumes "\<not> verify_signature env b"
  shows "\<exists>e. process_block env now b L = (Err e, L)"
  using assms by (simp add: process_block_def)

lemma slash_applied_balance:
  assumes "process_block env now s L = (Ok (Applied h), L')" "blk_type s = Slash" "blk_account s = a"
  shows "acc_balance (account_or_default L' a) = saturating_sub (acc_balance (account_or_default L a)) (blk_amount s)"
  using assms(1)
proof (cases rule: process_block_cases)
  case unchanged
  then show ?thesis by blast
next
  case (applied st1 L1)
  have "acc_balance st1 = saturating_sub (acc_balance (account_or_default L a)) (blk_amount s)"
    using applied(9) assms(2,3)
    by (auto simp: process_transaction_def process_slash_def slash_err_def Let_def split: if_splits option.splits)
  then show ?thesis using applied(10) assms(3) by (simp add: account_or_default_def)
qed

lemma node_block_fields:
  assumes "node_block ne ck t a amt link L = Some b"
  shows "blk_type b = t" "blk_account b = a" "blk_amount b = amt" "blk_link b = link"
    "blk_previous b = acc_head (account_or_default L a)"
  using assms by (auto simp: node_block_def Let_def)

lemma slash_account_applied:
  assumes "node_block (ge_node ge) ck Slash a amt link (wn_ledger wn) = Some s"
    and "process_block (ge_env ge) (ck_secs ck) s (wn_ledger wn) = (Ok (Applied h), L')"
  shows "slash_account ge ck a amt link wn = Some (wn_push (ge_block_to_json ge s) (wn\<lparr>wn_ledger := L'\<rparr>))"
proof -
  have "blk_signature s \<noteq> []"
    using assms(2) process_block_unsigned [of "ge_env ge" s "ck_secs ck" "wn_ledger wn"]
    by (auto simp: verify_signature_def)
  then show ?thesis using assms by (simp add: slash_account_def)
qed

lemma forged_block_recorded:
  assumes "ge_block_of_json ge d = Some b" "blk_account b = v" "\<not> system_block b" "\<not> verify_signature (ge_env ge) b"
    and "bt_get (blocks (wn_ledger wn)) (calculate_hash (ge_env ge) b) = None"
    and "bt_get (accounts (wn_ledger wn)) v = Some st" "printable [v]"
    and "record_signature v (acc_block_count st) (calculate_hash (ge_env ge) b) (ck_secs ck) (wn_slashing wn) = (Ok (), m)"
    and "bt_get (sm_validators (wn_slashing wn)) v = Some p"
  shows "handle_block ge ck d wn = Some (wn\<lparr>wn_slashing := m\<rparr>)"
proof -
  obtain e where e: "process_block (ge_env ge) (ck_secs ck) b (wn_ledger wn) = (Err e, wn_ledger wn)"
    using process_block_unsigned [OF assms(4)] by blast
  have st: "account_or_default (wn_ledger wn) v = st" using assms(6) by (simp add: account_or_default_def)
  have "block_phase1 ge ck b wn = Some (False, wn\<lparr>wn_slashing := m\<rparr>)"
    using assms(2,3,8,9) st ensure_existing [OF assms(6)] by (simp add: block_phase1_def note_signature_def Let_def)
  then show ?thesis
    using assms(1,2,3,5,7) e by (simp add: handle_block_def block_phase2_def bt_contains_def)
qed

lemma forged_block_punished:
  assumes "ge_block_of_json ge d = Some b" "blk_account b = v" "\<not> system_block b"
    and "bt_get (blocks (wn_ledger wn)) (calculate_hash (ge_env ge) b) = None"
    and "bt_get (accounts (wn_ledger wn)) v = Some st" "printable [v]"
    and "record_signature v (acc_block_count st) (calculate_hash (ge_env ge) b) (ck_secs ck) (wn_slashing wn) = (Err e, wn_slashing wn)"
    and "bt_get (sm_validators (wn_slashing wn)) v = Some p" "sp_status p \<noteq> Banned"
    and "node_block (ge_node ge) ck Slash v (acc_balance st) (''PENALTY:DOUBLE_SIGN:'' @ calculate_hash (ge_env ge) b)
           (wn_ledger wn) = Some s"
    and "process_block (ge_env ge) (ck_secs ck) s (wn_ledger wn) = (Ok (Applied h), L')"
  shows "\<exists>wn'. handle_block ge ck d wn = Some wn' \<and> wn_ledger wn' = L' \<and> get_status (wn_slashing wn') v = Some Banned"
proof -
  have st: "account_or_default (wn_ledger wn) v = st" using assms(5) by (simp add: account_or_default_def)
  obtain m where m: "slash_double_signing v (of_nat (length (blocks (wn_ledger wn)))) (acc_balance st) (ck_secs ck)
      (wn_slashing wn) = (Ok (acc_balance st), m)" "get_status m v = Some Banned"
    using assms(8,9) by (auto simp: slash_double_signing_def get_status_def set_profile_def Let_def)
  have "wn\<lparr>wn_ledger := wn_ledger wn, wn_slashing := wn_slashing wn\<rparr> = wn" by simp
  then have "block_phase1 ge ck b wn
      = Some (True, wn_push (ge_block_to_json ge s) (wn\<lparr>wn_slashing := m, wn_ledger := L'\<rparr>))"
    using assms(2,3,6,7,8) st m(1) ensure_existing [OF assms(5)]
      slash_account_applied [of ge ck v "acc_balance st" _ "wn\<lparr>wn_slashing := m\<rparr>" s h L'] assms(10,11)
    by (simp add: block_phase1_def note_signature_def punish_double_sign_def Let_def)
  then show ?thesis using assms(1,2,3,4) m(2) by (simp add: handle_block_def bt_contains_def)
qed

text \<open>Two forged blocks slash a validator. Anyone who can send blocks to a node can make up two
  different blocks that name a validator as their account, without any signature. The node records both as
  signed by the validator, takes them for a double signature, bans the validator and burns its whole balance
  with a Slash block of its own.\<close>

theorem forged_blocks_slash_validator:
  fixes ge wn
  defines "L \<equiv> wn_ledger wn" and "hash \<equiv> calculate_hash (ge_env ge)"
  assumes "ge_block_of_json ge d1 = Some b1" "ge_block_of_json ge d2 = Some b2"
    and "blk_account b1 = v" "blk_account b2 = v" "blk_type b1 \<notin> {Mint, Slash}" "blk_type b2 \<notin> {Mint, Slash}"
    and "blk_signature b1 = []" "blk_signature b2 = []"
    and "hash b1 \<noteq> hash b2" "bt_get (blocks L) (hash b1) = None" "bt_get (blocks L) (hash b2) = None"
    and "bt_get (accounts L) v = Some st" "printable [v]"
    and "bt_get (sm_validators (wn_slashing wn)) v = Some p" "sp_status p \<noteq> Banned"
      "\<forall>s \<in> set (sp_recent_signatures p). sr_block_height s \<noteq> acc_block_count st"
    and "node_block (ge_node ge) ck' Slash v (acc_balance st) (''PENALTY:DOUBLE_SIGN:'' @ hash b2) L = Some s"
      "process_block (ge_env ge) (ck_secs ck') s L = (Ok (Applied h), L')"
  shows "\<exists>wn1 wn2. handle_block ge ck d1 wn = Some wn1 \<and> handle_block ge ck' d2 wn1 = Some wn2
    \<and> get_status (wn_slashing wn2) v = Some Banned \<and> acc_balance (account_or_default (wn_ledger wn2) v) = 0"
proof -
  let ?r = "\<lparr>sr_block_height = acc_block_count st, sr_signature_hash = hash b1, sr_timestamp = ck_secs ck\<rparr>"
  let ?p = "p\<lparr>sp_recent_signatures := push_signature ?r (sp_recent_signatures p)\<rparr>"
  let ?m = "set_profile v ?p (wn_slashing wn)"
  have "\<not> list_ex (\<lambda>s. sr_block_height s = acc_block_count st \<and> sr_signature_hash s \<noteq> hash b1) (sp_recent_signatures p)"
    using assms(18) by (auto simp: list_ex_iff)
  then have "record_signature v (acc_block_count st) (hash b1) (ck_secs ck) (wn_slashing wn) = (Ok (), ?m)"
    using assms(16) by (simp add: record_signature_def)
  then have 1: "handle_block ge ck d1 wn = Some (wn\<lparr>wn_slashing := ?m\<rparr>)"
    using forged_block_recorded [OF assms(3,5) _ _ _ _ assms(15) _ assms(16), of st ck ?m] assms(7,9,12,14)
    by (simp add: system_block_def verify_signature_def L_def hash_def)
  have "?r \<in> set (sp_recent_signatures ?p)" by (cases "sp_recent_signatures p") (auto simp: push_signature_def Let_def)
  then have "list_ex (\<lambda>s. sr_block_height s = acc_block_count st \<and> sr_signature_hash s \<noteq> hash b2) (sp_recent_signatures ?p)"
    using assms(11) by (auto simp: list_ex_iff intro!: bexI [of _ ?r])
  then have e: "record_signature v (acc_block_count st) (hash b2) (ck_secs ck') ?m
      = (Err (DoubleSigningDetected v (acc_block_count st)), ?m)"
    by (simp add: record_signature_def set_profile_def)
  have "\<exists>wn'. handle_block ge ck' d2 (wn\<lparr>wn_slashing := ?m\<rparr>) = Some wn' \<and> wn_ledger wn' = L'
      \<and> get_status (wn_slashing wn') v = Some Banned"
    by (rule forged_block_punished [OF assms(4,6) _ _ _ assms(15), of _ st ck' _ ?p s h])
      (use assms(8,13,14,17,19,20) e in \<open>simp_all add: system_block_def L_def hash_def set_profile_def\<close>)
  moreover have "acc_balance (account_or_default L' v) = 0"
    using slash_applied_balance [OF assms(20)] node_block_fields [OF assms(19)] assms(14)
    by (simp add: account_or_default_def saturating_sub_def)
  ultimately show ?thesis using 1 by blast
qed

text \<open>A network of two validators: \<open>LOSN\<close>, the node, and \<open>LOSV\<close>. The hash of an unsigned block depends on its
  length, that of a signed one on the length of its signature.\<close>

definition net_env :: los_env where
  "net_env = vote_env\<lparr>mainnet_feature := True,
     keccak256 := (\<lambda>b. [0, 0, 1, if length b = 8 then b ! 3 + 1 else of_nat (length b), 0, 0, 0, 0])\<rparr>"

lemma net_env_simps [simp]:
  "hex_decode net_env t = Some (as_bytes t)" "hex_encode net_env b = map (\<lambda>w. char_of (unat w)) b"
  "mainnet_feature net_env" "keccak256 net_env b = [0, 0, 1, if length b = 8 then b ! 3 + 1 else of_nat (length b), 0, 0, 0, 0]"
  "dilithium_pk_valid net_env b" "dilithium_sig_valid net_env b" "dilithium_verify net_env b c d"
  "public_key_to_address net_env [k] = ''LOS'' @ [char_of (unat k)]"
  by (simp_all add: net_env_def vote_env_def open_env_def demo_env_def plain_env_def public_key_to_address_def Let_def)

lemma net_signing_hash: "as_bytes (signing_hash net_env b) = [0, 0, 1, of_nat (length (signing_bytes net_env b)), 0, 0, 0, 0]"
proof -
  have "length (signing_bytes net_env b) \<noteq> 8" by (simp add: signing_bytes_def)
  then show ?thesis by (simp only: signing_hash_def net_env_simps as_bytes_char_of if_False)
qed

lemma net_pow: "verify_pow net_env b"
  by (simp add: verify_pow_def net_signing_hash MIN_POW_DIFFICULTY_BITS_def u8_leading_zeros_def upt_rec)

lemma net_hash:
  "calculate_hash net_env b = map (\<lambda>w. char_of (unat w))
     [0 :: u8, 0, 1, if blk_signature b = [] then of_nat (length (signing_bytes net_env b)) + 1
                     else of_nat (8 + length (blk_signature b)), 0, 0, 0, 0]"
  unfolding calculate_hash_def net_signing_hash by (simp add: as_bytes_def)

definition net_node_env :: node_env where
  "net_node_env = (demo_node_env net_env (\<lambda>_. None))\<lparr>ne_public_key := [78]\<rparr>"

lemma net_node_env_simps [simp]:
  "ne_env net_node_env = net_env" "ne_address net_node_env = ''LOSN''" "ne_public_key net_node_env = [78]"
  "ne_sign net_node_env m = Some [1]"
  by (simp_all add: net_node_env_def demo_node_env_def)

definition net_account :: "u128 \<Rightarrow> account_state" where
  "net_account b = \<lparr>acc_head = ''0'', acc_balance = b, acc_block_count = 0, acc_is_validator = True\<rparr>"

definition net_ledger :: ledger where
  "net_ledger = ledger_new\<lparr>accounts := [(''LOSN'', net_account 100000000000000), (''LOSV'', net_account 200000000000000)]\<rparr>"

definition forged_block :: "string \<Rightarrow> block" where
  "forged_block link = \<lparr>blk_account = ''LOSV'', blk_previous = ''0'', blk_type = Change, blk_amount = 0, blk_link = link,
     blk_signature = [], blk_public_key = [], blk_work = 0, blk_timestamp = 0, blk_fee = 0\<rparr>"

definition net_gossip :: gossip_env where
  "net_gossip = \<lparr>ge_node = net_node_env, ge_block_to_json = (\<lambda>_. ''{}''), ge_block_of_json = (\<lambda>d. Some (forged_block d))\<rparr>"

definition net_watch :: watch_node where
  "net_watch = \<lparr>wn_ledger = net_ledger, wn_slashing = sm_register_validator ''LOSV'' slashing_new,
     wn_oracle = oracle_new, wn_outbox = []\<rparr>"

text \<open>A Slash block of the node for an account at its first block.\<close>

definition net_slash :: "u128 \<Rightarrow> string \<Rightarrow> block" where
  "net_slash amt link =
     (solve_pow net_env
       \<lparr>blk_account = ''LOSV'', blk_previous = ''0'', blk_type = Slash, blk_amount = amt, blk_link = link,
        blk_signature = [], blk_public_key = ''N'', blk_work = 0, blk_timestamp = 100, blk_fee = 0\<rparr>)
     \<lparr>blk_signature := [CHR 0x01]\<rparr>"

lemma net_slash_made: "node_block net_node_env demo_clock Slash ''LOSV'' amt link net_ledger = Some (net_slash amt link)"
  by (simp add: node_block_def net_slash_def try_sign_hex_def net_ledger_def net_account_def account_or_default_def
      char_of_def bit_0 Let_def)

lemma net_slash_applied:
  assumes "amt \<noteq> 0" "link \<noteq> []"
  shows "\<exists>L'. process_block net_env 100 (net_slash amt link) net_ledger
    = (Ok (Applied (calculate_hash net_env (net_slash amt link))), L')"
  using assms
  by (simp add: process_block_def net_pow verify_signature_def crypto_verify_signature_def verify_dilithium5_def
      check_owner_def owner_signed_type_def net_slash_def net_ledger_def net_account_def ledger_new_def bt_contains_def
      account_or_default_def check_timestamp_def MAX_TIMESTAMP_DRIFT_SECS_def process_transaction_def process_slash_def
      as_bytes_def hex_decode_or_empty_def ledger_constants char_of_def bit_0 Let_def)

theorem forged_blocks_slash_validator_witness:
  "\<exists>wn1 wn2. handle_block net_gossip demo_clock ''x'' net_watch = Some wn1 \<and> handle_block net_gossip demo_clock ''xy'' wn1 = Some wn2
    \<and> get_status (wn_slashing wn2) ''LOSV'' = Some Banned \<and> acc_balance (account_or_default (wn_ledger wn2) ''LOSV'') = 0"
proof -
  let ?h = "calculate_hash net_env (forged_block ''xy'')"
  obtain L' where "process_block net_env 100 (net_slash 200000000000000 (''PENALTY:DOUBLE_SIGN:'' @ ?h)) net_ledger
      = (Ok (Applied (calculate_hash net_env (net_slash 200000000000000 (''PENALTY:DOUBLE_SIGN:'' @ ?h)))), L')"
    using net_slash_applied [of 200000000000000 "''PENALTY:DOUBLE_SIGN:'' @ ?h"] by auto
  note run = this
  have w: "wn_ledger net_watch = net_ledger" "ge_env net_gossip = net_env" "ge_node net_gossip = net_node_env"
    "ge_block_of_json net_gossip d = Some (forged_block d)" for d by (simp_all add: net_watch_def net_gossip_def)
  have h: "calculate_hash net_env (forged_block ''x'') \<noteq> ?h"
    by (simp add: net_hash forged_block_def signing_bytes_def char_of_def bit_0)
  show ?thesis
    by (rule forged_blocks_slash_validator [of net_gossip "''x''" "forged_block ''x''" "''xy''" "forged_block ''xy''" "''LOSV''"
          net_watch "net_account 200000000000000" "safety_profile_new ''LOSV''" demo_clock
          "net_slash 200000000000000 (''PENALTY:DOUBLE_SIGN:'' @ ?h)" _ L' demo_clock])
      (use run in \<open>simp_all add: w h net_slash_made net_account_def\<close>,
       simp_all add: forged_block_def net_ledger_def ledger_new_def net_watch_def sm_register_validator_def slashing_new_def
         safety_profile_new_def net_account_def printable_def get_short_addr_def)
qed

section \<open>Slash proposals are counted per message\<close>

lemma filter_values_insert:
  assumes "bt_get m k = None"
  shows "length (filter P (bt_values (bt_insert k v m))) = length (filter P (bt_values m)) + (if P v then 1 else 0)"
  using assms by (induction m) (auto simp: bt_values_def bt_get_def split: if_splits)

text \<open>A new proposal about a registered validator, by whomever it was asked for.\<close>

lemma propose_adds_one:
  fixes off me
  assumes "bt_contains (sm_validators m) c"
    and "bt_get (sm_pending_proposals m) (slash_proposal_id c ev ts) = None"
  defines "m' \<equiv> snd (propose_slash c off ev me ts m)"
  shows "open_proposals c m' = Suc (open_proposals c m)"
    and "sm_validators m' = sm_validators m" "slash_vote_threshold m' = slash_vote_threshold m"
    and "\<And>i. i \<noteq> slash_proposal_id c ev ts \<Longrightarrow> bt_get (sm_pending_proposals m') i = bt_get (sm_pending_proposals m) i"
  using assms(1,2)
  by (simp_all add: m'_def propose_slash_def open_proposals_def bt_contains_def filter_values_insert Let_def
      slash_vote_threshold_def get_safety_stats_def)

text \<open>A request that any holder of a key can make: the proposer needs no account.\<close>

definition slash_request :: "los_env \<Rightarrow> string \<Rightarrow> string \<Rightarrow> string \<Rightarrow> string \<Rightarrow> bool" where
  "slash_request env proposer c data txid \<longleftrightarrow>
     (let parts = str_split (CHR '':'') data in
      length parts = 7 \<and> slash_request_authentic env parts \<and> parts ! 1 = c \<and> parts ! 2 = txid \<and> parts ! 3 = proposer)"

lemma slash_request_handled:
  "slash_request (ge_env ge) proposer c data txid \<Longrightarrow>
     handle_slash_req ge ck data wn = slash_proposal_received ge ck c txid wn"
  by (auto simp: slash_request_def handle_slash_req_def Let_def)

abbreviation evidence_id :: "clock \<Rightarrow> string \<Rightarrow> string \<Rightarrow> string" where
  "evidence_id ck c txid \<equiv> slash_proposal_id c (''FAKE_TXID:'' @ txid) (ck_secs ck)"

lemma evidence_id_inj: "evidence_id ck c t = evidence_id ck c u \<longleftrightarrow> t = u"
  by (simp add: slash_proposal_id_def)

definition slash_ready :: "gossip_env \<Rightarrow> string \<Rightarrow> string list \<Rightarrow> ledger \<Rightarrow> bool" where
  "slash_ready ge c txids L \<longleftrightarrow>
     printable [c] \<and> MIN_VALIDATOR_STAKE_CIL \<le> acc_balance (account_or_default L (ne_address (ge_node ge)))
     \<and> bt_contains (accounts L) c \<and> (\<forall>t \<in> set txids. \<not> txid_minted t L)"

lemma slash_proposal_received_ready:
  assumes "slash_ready ge c [t] (wn_ledger wn)"
  shows "slash_proposal_received ge ck c t wn =
    (let m' = snd (propose_slash c FraudulentTransaction (''FAKE_TXID:'' @ t) (ne_address (ge_node ge)) (ck_secs ck) (wn_slashing wn))
     in if unat (slash_vote_threshold (wn_slashing wn)) \<le> open_proposals c m'
        then execute_slash_request ge ck c t (wn\<lparr>wn_slashing := m'\<rparr>) else Some (wn\<lparr>wn_slashing := m'\<rparr>))"
  using assms unfolding slash_ready_def
  by (simp add: slash_proposal_received_def Let_def linorder_not_less [symmetric] del: linorder_not_less)

fun handle_slash_reqs :: "gossip_env \<Rightarrow> clock \<Rightarrow> string list \<Rightarrow> watch_node \<Rightarrow> watch_node option" where
  "handle_slash_reqs ge ck [] wn = Some wn"
| "handle_slash_reqs ge ck (d # ds) wn =
     (case handle_slash_req ge ck d wn of None \<Rightarrow> None | Some wn' \<Rightarrow> handle_slash_reqs ge ck ds wn')"

lemma execute_slash_applied:
  assumes "bt_get (accounts (wn_ledger wn)) c = Some st" "acc_balance st \<noteq> 0"
    and "node_block (ge_node ge) ck Slash c (acc_balance st div 10) (''PENALTY:FAKE_TXID:'' @ t) (wn_ledger wn) = Some s"
    and "process_block (ge_env ge) (ck_secs ck) s (wn_ledger wn) = (Ok (Applied h), L')" "str_slice_to h 8 \<noteq> None"
  shows "execute_slash_request ge ck c t wn = Some (wn_push (ge_block_to_json ge s) (wn\<lparr>wn_ledger := L'\<rparr>))"
  using assms by (simp add: execute_slash_request_def)

lemma slash_requests_reach_threshold:
  assumes "list_all2 (slash_request (ge_env ge) proposer c) ds ts" "ds \<noteq> []" "distinct ts"
    and "slash_ready ge c ts (wn_ledger wn)" "bt_contains (sm_validators (wn_slashing wn)) c"
    and "\<forall>t \<in> set ts. bt_get (sm_pending_proposals (wn_slashing wn)) (evidence_id ck c t) = None"
    and "open_proposals c (wn_slashing wn) + length ds = unat (slash_vote_threshold (wn_slashing wn))"
    and "bt_get (accounts (wn_ledger wn)) c = Some st" "acc_balance st \<noteq> 0"
    and "node_block (ge_node ge) ck Slash c (acc_balance st div 10) (''PENALTY:FAKE_TXID:'' @ last ts) (wn_ledger wn) = Some s"
    and "process_block (ge_env ge) (ck_secs ck) s (wn_ledger wn) = (Ok (Applied h), L')" "str_slice_to h 8 \<noteq> None"
  shows "\<exists>wn'. handle_slash_reqs ge ck ds wn = Some wn' \<and> wn_ledger wn' = L'"
  using assms
proof (induction ds ts arbitrary: wn rule: list_all2_induct)
  case (Cons d ds t ts)
  let ?m = "wn_slashing wn"
  let ?m' = "snd (propose_slash c FraudulentTransaction (''FAKE_TXID:'' @ t) (ne_address (ge_node ge)) (ck_secs ck) ?m)"
  let ?wn = "wn\<lparr>wn_slashing := ?m'\<rparr>"
  have fresh: "bt_get (sm_pending_proposals ?m) (evidence_id ck c t) = None" using Cons.prems(5) by simp
  note one = propose_adds_one [OF Cons.prems(4) fresh, where off = FraudulentTransaction and me = "ne_address (ge_node ge)"]
  have step: "handle_slash_req ge ck d wn =
      (if unat (slash_vote_threshold ?m) \<le> open_proposals c ?m' then execute_slash_request ge ck c t ?wn else Some ?wn)"
    using Cons.prems(3) slash_request_handled [OF Cons(1)] slash_proposal_received_ready [of ge c t wn ck]
    by (simp add: slash_ready_def Let_def)
  show ?case
  proof (cases "ds = []")
    case True
    then have t: "ts = []" using Cons(2) by simp
    have "execute_slash_request ge ck c t ?wn = Some (wn_push (ge_block_to_json ge s) (?wn\<lparr>wn_ledger := L'\<rparr>))"
      by (rule execute_slash_applied [OF _ Cons.prems(8)]) (use Cons.prems t in simp_all)
    then show ?thesis using step one(1) Cons.prems(6) True by simp
  next
    case False
    then have ts: "last (t # ts) = last ts" using Cons(2) by auto
    have fr: "bt_get (sm_pending_proposals ?m') (evidence_id ck c u) = None" if "u \<in> set ts" for u
    proof -
      have "evidence_id ck c u \<noteq> evidence_id ck c t" using that Cons.prems(2) evidence_id_inj by fastforce
      from one(4) [OF this] Cons.prems(5) that show ?thesis by simp
    qed
    have "\<exists>wn'. handle_slash_reqs ge ck ds ?wn = Some wn' \<and> wn_ledger wn' = L'"
      by (rule Cons.IH [OF False])
        (use Cons.prems one(1-3) fr in \<open>simp_all add: ts slash_ready_def del: last.simps\<close>)
    moreover have "\<not> unat (slash_vote_threshold ?m) \<le> open_proposals c ?m'"
      using one(1) Cons.prems(6) False by (cases ds) simp_all
    then have "handle_slash_req ge ck d wn = Some ?wn" using step by (simp only: if_False)
    ultimately show ?thesis by simp
  qed
qed simp

text \<open>Slash proposals are counted per message. One party that holds no stake sends a node as many slash
  requests against a registered validator as the node's threshold of two thirds of the validators asks for, each
  naming another transaction that was never minted. The node takes every request for the proposal of one more
  validator, and at the last one burns a tenth of the accused balance.\<close>

theorem outsider_slashes_validator:
  assumes "list_all2 (slash_request (ge_env ge) proposer c) ds ts" "ds \<noteq> []" "distinct ts"
    and "\<not> staked proposer (wn_ledger wn)"
    and "slash_ready ge c ts (wn_ledger wn)" "bt_contains (sm_validators (wn_slashing wn)) c"
    and "\<forall>t \<in> set ts. bt_get (sm_pending_proposals (wn_slashing wn)) (evidence_id ck c t) = None"
    and "open_proposals c (wn_slashing wn) + length ds = unat (slash_vote_threshold (wn_slashing wn))"
    and "bt_get (accounts (wn_ledger wn)) c = Some st" "acc_balance st \<noteq> 0"
    and "node_block (ge_node ge) ck Slash c (acc_balance st div 10) (''PENALTY:FAKE_TXID:'' @ last ts) (wn_ledger wn) = Some s"
    and "process_block (ge_env ge) (ck_secs ck) s (wn_ledger wn) = (Ok (Applied h), L')" "str_slice_to h 8 \<noteq> None"
  shows "\<exists>wn'. handle_slash_reqs ge ck ds wn = Some wn'
    \<and> acc_balance (account_or_default (wn_ledger wn') c) = acc_balance st - acc_balance st div 10"
proof -
  have "acc_balance (account_or_default L' c) = saturating_sub (acc_balance st) (acc_balance st div 10)"
    using slash_applied_balance [OF assms(12)] node_block_fields [OF assms(11)] assms(9)
    by (simp add: account_or_default_def)
  moreover have "acc_balance st div 10 \<le> acc_balance st" by (simp add: word_le_nat_alt unat_div)
  ultimately show ?thesis
    using slash_requests_reach_threshold [OF assms(1,2,3,5-13)] by (auto simp: saturating_sub_def)
qed

definition net_watch2 :: watch_node where
  "net_watch2 = net_watch\<lparr>wn_slashing := sm_register_validator ''LOSN'' (sm_register_validator ''LOSV'' slashing_new)\<rparr>"

definition net_request :: "char \<Rightarrow> string" where
  "net_request t = ''SLASH_REQ:LOSV:'' @ [t] @ '':LOSX:1:s:X''"

lemma net_request_ok: "t \<noteq> CHR '':'' \<Longrightarrow> slash_request net_env ''LOSX'' ''LOSV'' (net_request t) [t]"
  by (simp add: slash_request_def net_request_def slash_request_authentic_def hex_decode_or_empty_def
      crypto_verify_signature_def verify_dilithium5_def as_bytes_def char_of_def bit_0)

lemma net_slash_hash: "calculate_hash net_env (net_slash amt link) = map (\<lambda>w. char_of (unat w)) [0 :: u8, 0, 1, 9, 0, 0, 0, 0]"
  by (simp add: net_hash net_slash_def)

theorem outsider_slashes_validator_witness:
  "\<exists>wn'. handle_slash_reqs net_gossip demo_clock [net_request (CHR ''a''), net_request (CHR ''b'')] net_watch2 = Some wn'
    \<and> acc_balance (account_or_default (wn_ledger wn') ''LOSV'') = 180000000000000"
proof -
  let ?h = "calculate_hash net_env (net_slash 20000000000000 (''PENALTY:FAKE_TXID:b''))"
  obtain L' where run: "process_block net_env 100 (net_slash 20000000000000 ''PENALTY:FAKE_TXID:b'') net_ledger = (Ok (Applied ?h), L')"
    using net_slash_applied [of 20000000000000 "''PENALTY:FAKE_TXID:b''"] by auto
  have w: "wn_ledger net_watch2 = net_ledger" "ge_env net_gossip = net_env" "ge_node net_gossip = net_node_env"
    by (simp_all add: net_watch2_def net_watch_def net_gossip_def)
  have st: "bt_get (accounts net_ledger) ''LOSV'' = Some (net_account 200000000000000)"
    "acc_balance (net_account 200000000000000) div 10 = 20000000000000" "acc_balance (net_account 200000000000000) = 200000000000000"
    by (simp_all add: net_ledger_def net_account_def)
  have rd: "slash_ready net_gossip ''LOSV'' [''a'', ''b''] net_ledger" "\<not> staked ''LOSX'' net_ledger"
    by (simp_all add: slash_ready_def printable_def get_short_addr_def w net_ledger_def net_account_def account_or_default_def
        bt_contains_def txid_minted_def ledger_new_def bt_values_def ledger_constants staked_def)
  have sm: "bt_contains (sm_validators (wn_slashing net_watch2)) ''LOSV''"
    "sm_pending_proposals (wn_slashing net_watch2) = []" "open_proposals ''LOSV'' (wn_slashing net_watch2) = 0"
    "unat (slash_vote_threshold (wn_slashing net_watch2)) = 2"
    by (simp_all add: net_watch2_def sm_register_validator_def slashing_new_def bt_contains_def open_proposals_def
        slash_vote_threshold_def get_safety_stats_def bt_values_def Let_def)
  have h: "str_slice_to ?h 8 \<noteq> None" by (simp add: net_slash_hash str_slice_to_def is_char_boundary_def)
  have "\<exists>wn'. handle_slash_reqs net_gossip demo_clock [net_request (CHR ''a''), net_request (CHR ''b'')] net_watch2 = Some wn'
    \<and> acc_balance (account_or_default (wn_ledger wn') ''LOSV'')
      = acc_balance (net_account 200000000000000) - acc_balance (net_account 200000000000000) div 10"
    by (rule outsider_slashes_validator [of net_gossip "''LOSX''" "''LOSV''" _ "[''a'', ''b'']" net_watch2 demo_clock
          "net_account 200000000000000" "net_slash 20000000000000 ''PENALTY:FAKE_TXID:b''" ?h L'])
      (use run h rd sm st in \<open>simp_all add: w net_request_ok net_slash_made\<close>)
  then show ?thesis by (simp add: st)
qed

section \<open>An example of gossip\<close>

lemma net_ledger_inv: "ledger_inv net_ledger"
proof -
  let ?n = "net_account 100000000000000" and ?v = "net_account 200000000000000"
  have a: "accounts net_ledger = bt_insert ''LOSV'' ?v (bt_insert ''LOSN'' ?n [])" by (simp add: net_ledger_def)
  have "balances_total net_ledger = 300000000000000"
    using bt_sum_insert [of "[]" "\<lambda>st. unat (acc_balance st)" "''LOSN''" ?n]
      bt_sum_insert [of "bt_insert ''LOSN'' ?n []" "\<lambda>st. unat (acc_balance st)" "''LOSV''" ?v]
    by (simp add: balances_total_def a bt_share_def net_account_def del: bt_insert.simps)
  moreover have "bt_ok (accounts net_ledger)" unfolding a by (intro bt_ok_insert bt_ok_Nil)
  then have "maps_ok net_ledger" by (simp add: maps_ok_def) (simp add: net_ledger_def ledger_new_def)
  ultimately show ?thesis
    by (simp add: ledger_inv_def claims_ok_def receives_unique_def heads_ok_def ledger_value_def in_flight_def
        net_ledger_def net_account_def ledger_new_def distribution_new_def ledger_constants)
qed

definition net_watch3 :: watch_node where
  "net_watch3 = net_watch\<lparr>wn_slashing := snd (record_signature ''LOSV'' 0 ''h'' 50 (wn_slashing net_watch))\<rparr>"

theorem gossip_creates_no_value_witness:
  "\<exists>wn. gossip_step net_gossip net_watch3 wn \<and> get_status (wn_slashing wn) ''LOSV'' = Some Banned
    \<and> ledger_inv (wn_ledger wn) \<and> ledger_value (wn_ledger wn) \<le> ledger_value net_ledger"
proof -
  let ?h = "calculate_hash net_env (forged_block ''x'')"
  let ?s = "net_slash 200000000000000 (''PENALTY:DOUBLE_SIGN:'' @ ?h)"
  let ?p = "(safety_profile_new ''LOSV'')\<lparr>sp_recent_signatures := [\<lparr>sr_block_height = 0, sr_signature_hash = ''h'', sr_timestamp = 50\<rparr>]\<rparr>"
  obtain L' where run: "process_block net_env 100 ?s net_ledger = (Ok (Applied (calculate_hash net_env ?s)), L')"
    using net_slash_applied [of 200000000000000 "''PENALTY:DOUBLE_SIGN:'' @ ?h"] by auto
  have w: "wn_ledger net_watch3 = net_ledger" "ge_env net_gossip = net_env" "ge_node net_gossip = net_node_env"
    "ge_block_of_json net_gossip d = Some (forged_block d)" for d
    by (simp_all add: net_watch3_def net_watch_def net_gossip_def)
  have b: "blk_account (forged_block ''x'') = ''LOSV''" "\<not> system_block (forged_block ''x'')" "?h \<noteq> ''h''" "printable [''LOSV'']"
    "bt_get (accounts net_ledger) ''LOSV'' = Some (net_account 200000000000000)" "bt_get (blocks net_ledger) ?h = None"
    by (simp_all add: forged_block_def system_block_def net_hash printable_def get_short_addr_def net_ledger_def ledger_new_def)
  have p: "bt_get (sm_validators (wn_slashing net_watch3)) ''LOSV'' = Some ?p"
    by (simp add: net_watch3_def net_watch_def record_signature_def sm_register_validator_def slashing_new_def set_profile_def
        push_signature_def safety_profile_new_def)
  have e: "record_signature ''LOSV'' 0 ?h 100 (wn_slashing net_watch3) = (Err (DoubleSigningDetected ''LOSV'' 0), wn_slashing net_watch3)"
    using b(3) p by (simp add: record_signature_def)
  obtain wn where wn: "handle_block net_gossip demo_clock ''x'' net_watch3 = Some wn" "get_status (wn_slashing wn) ''LOSV'' = Some Banned"
    using forged_block_punished [of net_gossip "''x''" "forged_block ''x''" "''LOSV''" net_watch3 "net_account 200000000000000" demo_clock
        "DoubleSigningDetected ''LOSV'' 0" ?p ?s "calculate_hash net_env ?s" L'] run b e p
    by (auto simp: w net_slash_made net_account_def safety_profile_new_def)
  have step: "gossip_step net_gossip net_watch3 wn" by (rule gossip_step.block [OF wn(1)])
  show ?thesis
    using gossip_creates_no_value [OF r_into_rtranclp [of "gossip_step net_gossip", OF step]] net_ledger_inv step wn(2)
    by (auto simp: w)
qed

section \<open>Evidence that contradicts itself\<close>

text \<open>A node accuses a peer of a second claim exactly when a Mint block names the transaction; a node that
  receives the accusation ignores it exactly then. So a double claim is never punished by a node that knows of
  the first one.\<close>

lemma double_claim_ignored:
  assumes "txid_minted txid (wn_ledger wn)" "slash_proposal_received ge ck c txid wn = Some wn'"
  shows "wn' = wn"
  using assms by (simp add: slash_proposal_received_def Let_def split: if_splits)

lemma claimed_before_minted: "claimed_before be coin txid L \<longleftrightarrow> txid_minted txid L"
proof -
  have "str_contains (be_upper be coin @ '':'' @ txid) txid"
    using str_contains_split [of "be_upper be coin @ '':''" txid "[]"] by simp
  then show ?thesis by (auto simp: claimed_before_def txid_minted_def list_ex_iff)
qed

section \<open>Mints without votes\<close>

text \<open>A Mint that one staked validator signed is applied as it is: its link is not compared with earlier Mint
  blocks and no vote is asked for.\<close>

lemma single_validator_mints:
  assumes "ge_block_of_json ge data = Some inc" "blk_type inc = Mint" "printable [blk_account inc]"
    and "system_block_accepted ge inc (wn_ledger wn) = Some True"
    and "bt_get (blocks (wn_ledger wn)) (calculate_hash (ge_env ge) inc) = None"
    and "process_block (ge_env ge) (ck_secs ck) inc (ensure_account (blk_account inc) (wn_ledger wn)) = (Ok (Applied h), L')"
    and "bt_get (sm_validators (wn_slashing wn)) (blk_account inc) = None"
  shows "\<exists>wn'. handle_block ge ck data wn = Some wn' \<and> wn_ledger wn' = L'"
proof -
  let ?w = "wn\<lparr>wn_ledger := ensure_account (blk_account inc) (wn_ledger wn), wn_slashing := wn_slashing wn\<rparr>"
  have p1: "block_phase1 ge ck inc wn = Some (False, ?w)"
    using assms(2) by (simp add: block_phase1_def system_block_def)
  have "\<exists>w. track_participation ge ck (blk_account inc) (?w\<lparr>wn_ledger := L'\<rparr>) = Some w \<and> wn_ledger w = L'"
    using assms(7)
    by (auto simp: track_participation_def record_block_participation_def check_and_slash_downtime_def Let_def split: option.splits)
  then have "\<exists>wn'. block_phase2 ge ck inc ?w = Some wn' \<and> wn_ledger wn' = L'"
    using assms(2,3,6) by (auto simp: block_phase2_def receive_own_def)
  then show ?thesis
    using assms(1,2,4,5) p1 by (simp add: handle_block_def system_block_def bt_contains_def)
qed

end
