(* ===== verification/Node_Burn_Safety.thy ===== *)
theory Node_Burn_Safety
  imports Node_Gossip_Safety
begin

text \<open>
  What burning coins through a node guarantees and what it does not. With consensus switched on, every Mint that
  a node makes for a burn rests on two distinct voters for that transaction, the node itself or holders of keys
  that signed a vote; no step creates value. But a request that waits for its explorer does not look at the
  ledger again, a vote can be sent again after its burn was minted, and the same signed vote counts for a
  transfer.
\<close>

section \<open>Steps\<close>

text \<open>The two halves of a request are steps of their own; the second half runs for any ticket.\<close>

inductive bridge_step :: "burn_env \<Rightarrow> bridge \<Rightarrow> bridge \<Rightarrow> bool" for be where
  begin_burn: "burn_begin be ck rq bg = (rt, bg') \<Longrightarrow> bridge_step be bg bg'"
| finish_burn: "burn_finish be ck tk bg = (rr, bg') \<Longrightarrow> bridge_step be bg bg'"
| console: "console_burn be ck coin txid bg = Some bg' \<Longrightarrow> bridge_step be bg bg'"
| vote_req: "bridge_step be bg (handle_vote_req be ck data bg)"
| vote_res: "handle_vote_res be ck data bg = Some bg' \<Longrightarrow> bridge_step be bg bg'"
| cleanup: "bridge_step be bg (cleanup_burns ck bg)"

lemma bg_push_sel [simp]:
  "bg_ledger (bg_push m bg) = bg_ledger bg" "bg_burn_voters (bg_push m bg) = bg_burn_voters bg"
  "bg_pending_burns (bg_push m bg) = bg_pending_burns bg"
  by (simp_all add: bg_push_def)

lemma drop_pending_sel [simp]:
  "bg_ledger (drop_pending t bg) = bg_ledger bg" "bg_burn_voters (drop_pending t bg) = bt_remove t (bg_burn_voters bg)"
  "bg_pending_burns (drop_pending t bg) = bt_remove t (bg_pending_burns bg)"
  by (simp_all add: drop_pending_def)

lemma burn_begin_frame:
  assumes "burn_begin be ck rq bg = (r, bg')"
  shows "bg_ledger bg' = bg_ledger bg \<and> bg_burn_voters bg' = bg_burn_voters bg \<and> bg_pending_burns bg' = bg_pending_burns bg"
proof -
  obtain a el where el: "check_only (ck_instant ck) (option_or (bq_recipient_address rq) (ne_address (be_node be))) (bg_burn_limiter bg) = (a, el)"
    by fastforce
  have "bg' = bg \<or> bg' = bg\<lparr>bg_burn_limiter := el\<rparr>"
    using assms by (simp add: burn_begin_def el Let_def split: if_splits result.splits)
  then show ?thesis by auto
qed

section \<open>Minting\<close>

text \<open>A ledger gains a Mint for a transaction.\<close>

definition minted_for :: "string \<Rightarrow> ledger \<Rightarrow> ledger \<Rightarrow> bool" where
  "minted_for txid L L' \<longleftrightarrow>
     (\<exists>h b symb price. bt_get (blocks L) h = None \<and> bt_get (blocks L') h = Some b \<and> blk_type b = Mint
        \<and> blk_link b = ''Src:'' @ mint_link symb txid price)"

definition outcome_ledger :: "ledger \<Rightarrow> mint_outcome \<Rightarrow> ledger" where
  "outcome_ledger L out =
     (case out of NotSigned L' \<Rightarrow> L' | MintPanic \<Rightarrow> L | MintFailed e L' \<Rightarrow> L' | Minted r b L' \<Rightarrow> L')"

lemma mint_burn_sound: "sound_change L (outcome_ledger L (mint_burn be ck rc amt link L))"
proof -
  let ?L = "ensure_account rc L"
  have p: "sound_change L L'" if "process_block env now b ?L = (r, L')" for env now b r L'
    using sound_trans [OF sound_ensure sound_process [OF that]] .
  show ?thesis
    by (auto simp: mint_burn_def outcome_ledger_def Let_def sound_refl sound_ensure intro: p
        split: option.splits prod.splits result.splits)
qed

lemma mint_burn_for:
  defines "link \<equiv> \<lambda>symb txid price. ''Src:'' @ mint_link symb txid price"
  assumes "distribution (outcome_ledger L (mint_burn be ck rc amt (link symb txid price) L)) \<noteq> distribution L"
  shows "minted_for txid L (outcome_ledger L (mint_burn be ck rc amt (link symb txid price) L))"
proof (cases "node_block (be_node be) ck Mint rc amt (link symb txid price) (ensure_account rc L)")
  case (Some b)
  let ?L = "ensure_account rc L"
  obtain r L' where p: "process_block (be_env be) (ck_secs ck) b ?L = (r, L')" by fastforce
  then have out: "outcome_ledger L (mint_burn be ck rc amt (link symb txid price) L) = (if r = Panic then L else L')"
    using Some by (cases r) (simp_all add: mint_burn_def outcome_ledger_def)
  from p show ?thesis
  proof (cases rule: process_block_cases)
    case unchanged
    then show ?thesis using assms(2) out by (simp split: if_splits)
  next
    case (applied st1 L1)
    have "blocks L1 = blocks L" using process_transaction_frame [OF applied(9)] by simp
    then have "minted_for txid L L'"
      using applied(5,10) node_block_fields [OF Some] unfolding minted_for_def link_def
      by (rule_tac x = "calculate_hash (be_env be) b" in exI, rule_tac x = b in exI) auto
    then show ?thesis using out applied(1) by simp
  qed
qed (use assms in \<open>simp add: mint_burn_def outcome_ledger_def\<close>)

section \<open>Votes\<close>

definition supports :: "burn_env \<Rightarrow> string \<Rightarrow> string \<Rightarrow> bool" where
  "supports be txid v \<longleftrightarrow> v = ne_address (be_node be) \<or> voted (be_env be) txid v"

definition burn_votes_inv :: "burn_env \<Rightarrow> bridge \<Rightarrow> bool" where
  "burn_votes_inv be bg \<longleftrightarrow> (\<forall>(t, vs) \<in> set (bg_burn_voters bg). distinct vs \<and> (\<forall>v \<in> set vs. supports be t v))"

definition burn_quorum :: "burn_env \<Rightarrow> string \<Rightarrow> bool" where
  "burn_quorum be txid \<longleftrightarrow> (\<exists>V. distinct V \<and> min_voters (be_node be) \<le> length V \<and> (\<forall>v \<in> set V. supports be txid v))"

lemma burn_votes_of:
  assumes "burn_votes_inv be bg" "vs = option_or (bt_get (bg_burn_voters bg) t) []"
  shows "distinct vs \<and> (\<forall>v \<in> set vs. supports be t v)"
proof (cases "bt_get (bg_burn_voters bg) t")
  case (Some ws)
  then show ?thesis using assms bt_get_set [OF Some] by (auto simp: burn_votes_inv_def option_or_def)
qed (use assms in \<open>simp add: option_or_def\<close>)

lemma burn_votes_insert:
  assumes "burn_votes_inv be bg" "distinct vs" "\<forall>v \<in> set vs. supports be t v"
    and "set (bg_burn_voters bg') \<subseteq> set (bt_insert t vs (bg_burn_voters bg))"
  shows "burn_votes_inv be bg'"
  using assms set_bt_insert [of t vs "bg_burn_voters bg"] unfolding burn_votes_inv_def by blast

lemma set_bt_remove: "set (bt_remove k m) \<subseteq> set m"
  by (auto simp: bt_remove_def)

text \<open>What a step of the bridge does to ledger and votes, in one relation: the voters stay supported, the ledger
  changes soundly, and supply leaves only by a Mint with a quorum.\<close>

definition bridge_change :: "burn_env \<Rightarrow> bridge \<Rightarrow> bridge \<Rightarrow> bool" where
  "bridge_change be bg bg' \<longleftrightarrow>
     burn_votes_inv be bg' \<and> sound_change (bg_ledger bg) (bg_ledger bg')
     \<and> (should_enable_consensus (be_config be) \<and> distribution (bg_ledger bg') \<noteq> distribution (bg_ledger bg)
        \<longrightarrow> (\<exists>t. burn_quorum be t \<and> minted_for t (bg_ledger bg) (bg_ledger bg')))"

lemma bridge_change_frame:
  assumes "burn_votes_inv be bg" "bg_ledger bg' = bg_ledger bg" "set (bg_burn_voters bg') \<subseteq> set (bg_burn_voters bg)"
  shows "bridge_change be bg bg'"
  using assms unfolding bridge_change_def burn_votes_inv_def by (auto simp: sound_refl)

lemma bridge_change_mint:
  assumes "burn_votes_inv be bg" "min_voters (be_node be) \<le> length (option_or (bt_get (bg_burn_voters bg) t) [])"
    and "bg_ledger bg' \<in> {bg_ledger bg,
           outcome_ledger (bg_ledger bg) (mint_burn be ck rc amt (''Src:'' @ mint_link symb t price) (bg_ledger bg))}"
    and "set (bg_burn_voters bg') \<subseteq> set (bg_burn_voters bg)"
  shows "bridge_change be bg bg'"
proof -
  have "burn_quorum be t" using burn_votes_of [OF assms(1) refl] assms(2) unfolding burn_quorum_def by blast
  moreover have "burn_votes_inv be bg'" using assms(1,4) unfolding burn_votes_inv_def by blast
  ultimately show ?thesis
    using assms(3) mint_burn_sound mint_burn_for unfolding bridge_change_def by (auto simp: sound_refl)
qed

lemma burn_self_vote_change:
  assumes "burn_votes_inv be bg" "burn_self_vote be ck tk price symb amt bg = (r, bg')"
  shows "bridge_change be bg bg'"
proof (cases "tk_power tk \<ge> burn_threshold be \<and> length (option_or (bt_get (bg_burn_voters bg) (tk_txid tk)) []) \<ge> min_voters (be_node be)")
  case True
  show ?thesis
    by (rule bridge_change_mint [OF assms(1), of "tk_txid tk" _ ck "tk_recipient tk" amt symb price])
      (use True assms(2) in \<open>auto simp: burn_self_vote_def outcome_ledger_def Let_def dest: set_bt_remove [THEN subsetD]
         split: if_splits mint_outcome.splits\<close>)
next
  case False
  then show ?thesis
    using assms by (intro bridge_change_frame) (auto simp: burn_self_vote_def Let_def split: if_splits)
qed

lemma bridge_change_from:
  "bridge_change be bg1 bg' \<Longrightarrow> bg_ledger bg1 = bg_ledger bg \<Longrightarrow> bridge_change be bg bg'"
  by (simp add: bridge_change_def)

lemma burn_queue_change:
  assumes "burn_votes_inv be bg" "burn_queue be ck tk amt price symb mint bg = (r, bg')"
  shows "bridge_change be bg bg'"
proof -
  let ?t = "tk_txid tk" and ?me = "ne_address (be_node be)"
  let ?vs = "option_or (bt_get (bg_burn_voters bg) ?t) []"
  let ?ws = "if ?me \<in> set ?vs then ?vs else ?vs @ [?me]"
  obtain lim aw where lim: "(if tc_enable_faucet (be_config be) then (Ok (), bg_anti_whale bg)
      else aw_register_burn (ck_secs ck) (tk_recipient tk) (ucast (mint div CIL_PER_LOS)) (bg_anti_whale bg)) = (lim, aw)"
    by fastforce
  let ?bg = "bg\<lparr>bg_anti_whale := aw,
     bg_pending_burns := bt_insert ?t \<lparr>pb_amount = amt, pb_price = price, pb_symbol = symb, pb_power = tk_power tk,
       pb_created_at = ck_secs ck, pb_recipient = tk_recipient tk\<rparr> (bg_pending_burns bg),
     bg_burn_voters := bt_insert ?t ?ws (bg_burn_voters bg)\<rparr>"
  have "bg' = bg\<lparr>bg_anti_whale := aw\<rparr> \<or> burn_self_vote be ck tk price symb mint ?bg = (r, bg')"
    using assms(2) unfolding burn_queue_def lim Let_def by (auto split: result.splits if_splits)
  then show ?thesis
  proof
    assume "bg' = bg\<lparr>bg_anti_whale := aw\<rparr>"
    then show ?thesis using assms(1) by (intro bridge_change_frame) auto
  next
    assume v: "burn_self_vote be ck tk price symb mint ?bg = (r, bg')"
    have "distinct ?ws \<and> (\<forall>v \<in> set ?ws. supports be ?t v)"
      using burn_votes_of [OF assms(1) refl, of ?t] by (auto simp: supports_def)
    then have "burn_votes_inv be ?bg" by (intro burn_votes_insert [OF assms(1), of ?ws ?t]) auto
    then show ?thesis using bridge_change_from [OF burn_self_vote_change [OF _ v]] by simp
  qed
qed

lemma burn_now_change:
  assumes "burn_votes_inv be bg" "\<not> should_enable_consensus (be_config be)"
    and "burn_now be ck tk price symb mint bg = (r, bg')"
  shows "bridge_change be bg bg'"
proof -
  obtain lim aw where lim: "(if tc_level (be_config be) = Functional then (Ok (), bg_anti_whale bg)
      else aw_register_burn (ck_secs ck) (tk_recipient tk) (ucast (mint div CIL_PER_LOS)) (bg_anti_whale bg)) = (lim, aw)"
    by fastforce
  have "bg_burn_voters bg' = bg_burn_voters bg \<and> sound_change (bg_ledger bg) (bg_ledger bg')"
    using assms(3) mint_burn_sound [of "bg_ledger bg" be ck "tk_recipient tk" mint "instant_link be symb (tk_txid tk) price"]
    unfolding burn_now_def lim Let_def outcome_ledger_def by (auto simp: sound_refl split: result.splits mint_outcome.splits)
  then show ?thesis using assms(1,2) by (simp add: bridge_change_def burn_votes_inv_def)
qed

lemma burn_finish_change:
  assumes "burn_votes_inv be bg" "burn_finish be ck tk bg = (r, bg')"
  shows "bridge_change be bg bg'"
proof -
  have "bg' = bg \<or> (\<exists>p s m. \<not> should_enable_consensus (be_config be) \<and> burn_now be ck tk p s m bg = (r, bg'))
      \<or> (\<exists>a p s m. burn_queue be ck tk a p s m bg = (r, bg'))"
    using assms(2) by (auto simp: burn_finish_def split: option.splits result.splits prod.splits if_splits)
  then show ?thesis
    using bridge_change_frame [OF assms(1)] burn_now_change [OF assms(1)] burn_queue_change [OF assms(1)] by blast
qed

lemma mint_confirmed_change:
  assumes "burn_votes_inv be bg" "mint_confirmed be ck t pb bg = Some bg'"
    and "min_voters (be_node be) \<le> length (option_or (bt_get (bg_burn_voters bg) t) [])"
  shows "bridge_change be bg bg'"
proof (cases "calculate_mint_cil (pb_amount pb) (pb_price pb) (pb_symbol pb)")
  case (Ok mint)
  show ?thesis
    by (rule bridge_change_mint [OF assms(1,3), of _ ck "pb_recipient pb" mint "pb_symbol pb" "pb_price pb"])
      (use Ok assms(2) in \<open>auto simp: mint_confirmed_def outcome_ledger_def dest: set_bt_remove [THEN subsetD]
         split: if_splits mint_outcome.splits\<close>)
qed (use assms bridge_change_frame in \<open>auto simp: mint_confirmed_def\<close>)

lemma count_burn_vote_change:
  assumes "burn_votes_inv be bg" "voted (be_env be) t v" "count_burn_vote be ck t v bg = Some bg'"
  shows "bridge_change be bg bg'"
proof (cases "bg' = bg")
  case False
  let ?vs = "option_or (bt_get (bg_burn_voters bg) t) []"
  let ?bg = "bg\<lparr>bg_burn_voters := bt_insert t (?vs @ [v]) (bg_burn_voters bg)\<rparr>"
  have n: "v \<notin> set ?vs" using assms(3) False by (auto simp: count_burn_vote_def Let_def split: if_splits)
  have d: "distinct (?vs @ [v]) \<and> (\<forall>w \<in> set (?vs @ [v]). supports be t w)"
    using burn_votes_of [OF assms(1) refl, of t] n assms(2) by (auto simp: supports_def)
  have inv: "burn_votes_inv be bg1" if "bg_burn_voters bg1 = bg_burn_voters ?bg" for bg1
    using d that by (intro burn_votes_insert [OF assms(1), of "?vs @ [v]" t]) auto
  have "bg' = ?bg \<or> (\<exists>m. bg' = ?bg\<lparr>bg_pending_burns := m\<rparr>)
      \<or> (\<exists>m pb. mint_confirmed be ck t pb (?bg\<lparr>bg_pending_burns := m\<rparr>) = Some bg' \<and> min_voters (be_node be) \<le> length (?vs @ [v]))"
    using assms(3) False n by (auto simp: count_burn_vote_def Let_def split: if_splits option.splits)
  then consider (only) m where "bg' = ?bg \<or> bg' = ?bg\<lparr>bg_pending_burns := m\<rparr>"
    | (mint) m pb where "mint_confirmed be ck t pb (?bg\<lparr>bg_pending_burns := m\<rparr>) = Some bg'" "min_voters (be_node be) \<le> length (?vs @ [v])"
    by blast
  then show ?thesis
  proof cases
    case only
    then show ?thesis using inv by (auto simp: bridge_change_def sound_refl)
  next
    case mint
    have "bridge_change be (?bg\<lparr>bg_pending_burns := m\<rparr>) bg'"
      using mint by (intro mint_confirmed_change [OF inv mint(1)]) (simp_all add: option_or_def)
    then show ?thesis by (rule bridge_change_from) simp
  qed
qed (use assms bridge_change_frame in auto)

lemma handle_vote_res_change:
  assumes "burn_votes_inv be bg" "handle_vote_res be ck data bg = Some bg'"
  shows "bridge_change be bg bg'"
proof (cases "bg' = bg")
  case False
  let ?p = "str_split (CHR '':'') data"
  have "length ?p = 8" "vote_authentic (be_env be) ?p" "count_burn_vote be ck (?p ! 1) (?p ! 4) bg = Some bg'"
    using assms(2) False by (auto simp: handle_vote_res_def Let_def split: if_splits)
  then show ?thesis using count_burn_vote_change [OF assms(1)] unfolding voted_def by blast
qed (use assms bridge_change_frame in auto)

lemma console_burn_frame:
  assumes "console_burn be ck coin txid bg = Some bg'"
  shows "bg_ledger bg' = bg_ledger bg" "bg_burn_voters bg' = bg_burn_voters bg"
  using assms by (auto simp: console_burn_def Let_def split: if_splits option.splits prod.splits)

lemma bridge_step_change:
  assumes "bridge_step be bg bg'" "burn_votes_inv be bg"
  shows "bridge_change be bg bg'"
  using assms
proof (induction rule: bridge_step.induct)
  case (begin_burn ck rq bg rt bg')
  then show ?case using burn_begin_frame by (intro bridge_change_frame) auto
next
  case (vote_req bg ck data)
  then show ?case by (intro bridge_change_frame) (auto simp: handle_vote_req_def Let_def)
next
  case (console ck coin txid bg bg')
  then show ?case using console_burn_frame by (intro bridge_change_frame) auto
qed (auto intro: burn_finish_change handle_vote_res_change bridge_change_frame simp: cleanup_burns_def)

interpretation bridge_sys: conserving_system "bridge_step be" "\<lambda>bg. burn_votes_inv be bg \<and> ledger_inv (bg_ledger bg)"
    "\<lambda>bg. ledger_value (bg_ledger bg)" for be
  by unfold_locales (auto dest: bridge_step_change simp: bridge_change_def sound_change_def)

interpretation bridge_votes: invariant_system "bridge_step be" "burn_votes_inv be" for be
  by unfold_locales (auto dest: bridge_step_change simp: bridge_change_def)

lemma bridge_creates_no_value:
  assumes "(bridge_step be)\<^sup>*\<^sup>* bg0 bg" "bg_burn_voters bg0 = []" "ledger_inv (bg_ledger bg0)"
  shows "ledger_inv (bg_ledger bg) \<and> ledger_value (bg_ledger bg) \<le> ledger_value (bg_ledger bg0)"
  using bridge_sys.reach_inv [OF assms(1)] bridge_sys.reach_val [OF assms(1)] assms(2,3) by (auto simp: burn_votes_inv_def)


text \<open>An example: two validators with the minimum stake vote for a burn worth 250 LOS.\<close>

definition burn_demo :: burn_env where
  "burn_demo = \<lparr>be_node = net_node_env, be_lower_tables = id, be_upper_tables = id, be_proxy = [], be_proxy_valid = False,
     be_prices = \<lparr>pr_coingecko_eth = None, pr_coingecko_btc = None, pr_cryptocompare_eth = None, pr_cryptocompare_btc = None,
       pr_kraken_eth = None, pr_kraken_btc = None\<rparr>,
     be_http = (\<lambda>_ _. NoReply), be_parse = (\<lambda>_. None), be_print = (\<lambda>_. []), be_block_to_json = (\<lambda>_. ''{}'')\<rparr>"

definition burn_ledger :: ledger where
  "burn_ledger = ledger_new\<lparr>accounts := [(''LOSA'', net_account 100000000000000), (''LOSB'', net_account 100000000000000)]\<rparr>"

definition burn_pending :: "u128 \<Rightarrow> pending_burn" where
  "burn_pending p = \<lparr>pb_amount = 1000000000000000, pb_price = 2500000000, pb_symbol = ''ETH'', pb_power = p, pb_created_at = 50,
     pb_recipient = ''LOSR''\<rparr>"

definition burn_start :: bridge where
  "burn_start = \<lparr>bg_ledger = burn_ledger, bg_pending_burns = [(''tx'', burn_pending 0)], bg_burn_voters = [],
     bg_anti_whale = anti_whale_new anti_whale_config_new, bg_burn_limiter = endpoint_limiter_new 1 60 0,
     bg_oracle = oracle_new, bg_outbox = []\<rparr>"

definition burn_vote :: "char \<Rightarrow> string" where
  "burn_vote c = ''VOTE_RES:tx:LOSN:YES:LOS'' @ [c] @ '':1:s:'' @ [c]"

lemma burn_demo_simps [simp]: "be_node burn_demo = net_node_env" "be_block_to_json burn_demo b = ''{}''"
  by (simp_all add: burn_demo_def)

lemma net_config: "should_enable_consensus (get_testnet_config net_env level)"
  by (rule mainnet_config_strict [THEN conjunct1]) (simp add: is_mainnet_build_def CHAIN_ID_def)

lemma burn_power: "calculate_voting_power 100000000000000 = 10000000"
proof -
  let ?p = "unat (calculate_voting_power 100000000000000)"
  have "?p ^ 2 \<le> (10 ^ 7) ^ 2" "(10 ^ 7) ^ 2 < (?p + 1) ^ 2"
    using voting_power_sq [of 100000000000000] by (simp_all add: MIN_STAKE_CIL_def)
  then have "?p \<le> 10 ^ 7" "10 ^ 7 < ?p + 1"
    using power2_le_imp_le [of ?p "10 ^ 7"] power2_less_imp_less [of "10 ^ 7" "?p + 1"] by simp_all
  then have "?p = 10 ^ 7" by simp
  then show ?thesis by (simp add: word_unat_eq_iff)
qed

lemma burn_vote_handled:
  assumes "c \<noteq> CHR '':''" "bt_contains (bg_pending_burns bg) ''tx''"
  shows "handle_vote_res burn_demo demo_clock (burn_vote c) bg = count_burn_vote burn_demo demo_clock ''tx'' (''LOS'' @ [c]) bg"
proof -
  have p: "str_split (CHR '':'') (burn_vote c) = [''VOTE_RES'', ''tx'', ''LOSN'', ''YES'', ''LOS'' @ [c], ''1'', ''s'', [c]]"
    using assms(1) by (simp add: burn_vote_def)
  have "map (\<lambda>w. char_of (unat w)) (as_bytes [c]) = [c]" by (simp add: as_bytes_def unat_of_char)
  then have "vote_authentic net_env (str_split (CHR '':'') (burn_vote c))"
    unfolding p by (simp add: vote_authentic_def crypto_verify_signature_def verify_dilithium5_def hex_decode_or_empty_def as_bytes_def)
  then show ?thesis using assms(2) by (simp add: handle_vote_res_def p)
qed

lemma burn_first_vote:
  "handle_vote_res burn_demo demo_clock (burn_vote (CHR ''A'')) burn_start
    = Some (burn_start\<lparr>bg_burn_voters := [(''tx'', [''LOSA''])], bg_pending_burns := [(''tx'', burn_pending 10000000000)]\<rparr>)"
  by (simp add: burn_vote_handled count_burn_vote_def burn_start_def bt_contains_def burn_ledger_def account_or_default_def
      net_account_def burn_power printable_def get_short_addr_def option_or_def min_voters_def MIN_DISTINCT_VOTERS_def net_config
      burn_pending_def Let_def)

lemma burn_mint_applied:
  "\<exists>r b L'. mint_burn burn_demo demo_clock ''LOSR'' 25000000000000 (''Src:'' @ link) burn_ledger = Minted r b L'
    \<and> distribution L' \<noteq> distribution burn_ledger"
proof -
  let ?L = "ensure_account ''LOSR'' burn_ledger"
  obtain b where b: "node_block net_node_env demo_clock Mint ''LOSR'' 25000000000000 (''Src:'' @ link) ?L = Some b"
    by (simp add: node_block_def try_sign_hex_def Let_def)
  have h: "acc_head (account_or_default burn_ledger ''LOSR'') = ''0''" by (simp add: account_or_default_def burn_ledger_def)
  have f: "blk_type b = Mint" "blk_account b = ''LOSR''" "blk_amount b = 25000000000000" "blk_link b = ''Src:'' @ link"
      "blk_previous b = ''0''" "blk_timestamp b = 100" "verify_signature net_env b"
    using b by (auto simp: node_block_def Let_def h try_sign_hex_def verify_signature_def
        crypto_verify_signature_def verify_dilithium5_def hex_decode_or_empty_def as_bytes_def)
  have m: "\<not> is_system_mint b" "\<not> is_faucet net_env b"
    by (simp_all add: is_system_mint_def is_faucet_def f starts_with_def is_testnet_build_def CHAIN_ID_def)
  have d: "remaining_supply (distribution burn_ledger) = 2115841300000000000"
    by (simp add: burn_ledger_def ledger_new_def distribution_new_def ledger_constants)
  obtain st L1 where tx: "process_transaction net_env b (account_or_default ?L ''LOSR'') ?L = (Ok st, L1)"
      "remaining_supply (distribution L1) = 2115816300000000000"
    using m by (cases "burned_usd_of_link (blk_link b)")
      (simp_all add: process_transaction_def process_mint_def f d ledger_constants saturating_sub_def Let_def)
  have n: "bt_contains (blocks burn_ledger) k = False" for k by (simp add: burn_ledger_def ledger_new_def bt_contains_def)
  have "process_block net_env 100 b ?L = (Ok (Applied (calculate_hash net_env b)), commit_block b (calculate_hash net_env b) st L1)"
    using tx(1) f h n by (simp add: process_block_def net_pow check_owner_def owner_signed_type_def
        check_timestamp_def MAX_TIMESTAMP_DRIFT_SECS_def Let_def)
  moreover have "distribution (commit_block b (calculate_hash net_env b) st L1) \<noteq> distribution burn_ledger"
    using tx(2) d by auto
  ultimately show ?thesis using b by (simp add: mint_burn_def)
qed

lemma burn_second_vote:
  "\<exists>bg'. handle_vote_res burn_demo demo_clock (burn_vote (CHR ''B''))
      (burn_start\<lparr>bg_burn_voters := [(''tx'', [''LOSA''])], bg_pending_burns := [(''tx'', burn_pending 10000000000)]\<rparr>) = Some bg'
    \<and> distribution (bg_ledger bg') \<noteq> distribution burn_ledger"
proof -
  obtain r b L' where m: "mint_burn burn_demo demo_clock ''LOSR'' 25000000000000 (''Src:'' @ mint_link ''ETH'' ''tx'' 2500000000) burn_ledger
      = Minted r b L'" "distribution L' \<noteq> distribution burn_ledger"
    using burn_mint_applied by blast
  have c: "calculate_mint_cil 1000000000000000 2500000000 ''ETH'' = Ok 25000000000000"
    by (simp add: calculate_mint_cil_def checked_mul_def CIL_PER_LOS_def Let_def)
  have "bg_balance burn_start ''LOSB'' = 100000000000000"
    by (simp add: burn_start_def burn_ledger_def account_or_default_def net_account_def)
  then show ?thesis
    using m c
    by (simp add: burn_vote_handled count_burn_vote_def bt_contains_def burn_power printable_def get_short_addr_def option_or_def
        min_voters_def MIN_DISTINCT_VOTERS_def net_config burn_threshold_def BURN_CONSENSUS_THRESHOLD_def mint_confirmed_def
        burn_pending_def burn_start_def Let_def)
qed


section \<open>What is not checked\<close>

text \<open>A vote for a burn and a vote for a transfer sign the same text.\<close>

lemma burn_vote_is_send_vote:
  "vote_authentic env (''VOTE_RES'' # ps) \<Longrightarrow> vote_authentic env (''CONFIRM_RES'' # ps)"
  by (simp add: vote_authentic_def)

text \<open>The second half of a request does not look whether the transaction was minted while it waited: the burn
  becomes pending again, whatever the ledger holds.\<close>

lemma burn_finish_ignores_ledger:
  assumes "should_enable_consensus (be_config be)" "ticket_prices be tk = Some prices"
    and "burn_report be (tk_coin tk) (tk_txid tk) prices = Some (Some (amt, price, symb))"
    and "calculate_mint_cil amt price symb = Ok mint" "mint \<noteq> 0" "printable [tk_recipient tk]"
    and "aw_register_burn (ck_secs ck) (tk_recipient tk) (ucast (mint div CIL_PER_LOS)) (bg_anti_whale bg) = (Ok (), aw)"
    and "bt_get (bg_burn_voters bg) (tk_txid tk) = None"
  shows "bt_contains (bg_pending_burns (snd (burn_finish be ck tk bg))) (tk_txid tk)"
proof -
  have "min_voters (be_node be) = 2" using assms(1) by (simp add: min_voters_def MIN_DISTINCT_VOTERS_def)
  then have "bt_contains (bg_pending_burns (snd (burn_queue be ck tk amt price symb mint bg))) (tk_txid tk)"
    using assms(6-8) by (simp add: burn_queue_def burn_self_vote_def option_or_def bt_contains_def Let_def)
  then show ?thesis using assms(1-5) by (simp add: burn_finish_def)
qed

text \<open>A burn that expires is forgotten, its voters are not. When it is asked for again, none of the earlier voters
  is counted.\<close>

lemma expired_votes_are_lost:
  assumes "voter \<in> set (option_or (bt_get (bg_burn_voters bg) txid) [])" "printable [voter]"
    and "bg_burn_voters bg' = bg_burn_voters (cleanup_burns ck bg)"
  shows "count_burn_vote be ck' txid voter bg' = Some bg'"
  using assms by (simp add: count_burn_vote_def cleanup_burns_def Let_def)

end
