(* ===== verification/Node_Validators.thy ===== *)
theory Node_Validators
  imports Node_Gossip_Safety Rewards Abft
begin

text \<open>
  Joining and leaving the set of validators through a node (\<open>los-node/src/main.rs\<close>): the handlers of
  \<open>POST /register-validator\<close> and \<open>POST /unregister-validator\<close>, the gossip handlers of \<open>VALIDATOR_REG\<close>,
  \<open>VALIDATOR_UNREG\<close> and \<open>PEER_LIST\<close>, and the map of endpoints. JSON is a parameter: a message is given by the
  values of its fields, where a field that is missing or of another type is \<open>None\<close>. In a gossip handler \<open>None\<close>
  is a panic of the event loop. Shown here: the flag of a validator is only set for the holder of its key with
  the minimum stake, the consensus engine gets exactly the staked validators, and leaving and joining again
  wipes a ban.
\<close>

section \<open>State and messages\<close>

record validator_request =
  vq_address :: "string option"
  vq_public_key :: "string option"
  vq_signature :: "string option"
  vq_timestamp :: "u64 option"
  vq_onion_address :: "string option"

record validator_node =
  vd_ledger :: ledger
  vd_slashing :: slashing_manager
  vd_rewards :: reward_pool
  vd_abft :: abft
  vd_local :: "string set"
  vd_endpoints :: "(string, string) btree_map"
  vd_address_book :: "(string, string) btree_map"
  vd_outbox :: "string list"

text \<open>The printer for messages, the onion address in the environment of the process and the validators of the
  genesis configuration.\<close>

record validator_env =
  ve_node :: node_env
  ve_request :: "string \<Rightarrow> validator_request option"
  ve_peers :: "string \<Rightarrow> (string option \<times> string option) list option"
  ve_print :: "string \<Rightarrow> validator_request \<Rightarrow> string"
  ve_onion :: "string option"
  ve_bootstrap :: "string list"

abbreviation ve_env :: "validator_env \<Rightarrow> los_env" where
  "ve_env ve \<equiv> ne_env (ve_node ve)"

datatype validator_reply = Registered u128 | AlreadyRegistered bool | Unregistered u128

datatype validator_error =
    MissingAddress
  | MissingPublicKey
  | MissingSignature
  | InvalidAddress
  | BadKeyHex
  | WrongKey
  | BadSignatureHex
  | SignatureFailed
  | StaleTimestamp
  | InsufficientStake u128
  | BootstrapCannotLeave
  | NotAValidator

definition vd_push :: "string \<Rightarrow> validator_node \<Rightarrow> validator_node" where
  "vd_push msg vd = vd\<lparr>vd_outbox := vd_outbox vd @ [msg]\<rparr>"

section \<open>Endpoints\<close>

text \<open>Another address with the same onion address is dropped, which prints both.\<close>

definition insert_validator_endpoint ::
    "string \<Rightarrow> string \<Rightarrow> (string, string) btree_map \<Rightarrow> (string, string) btree_map option" where
  "insert_validator_endpoint address onion m =
     (let stale = filter (\<lambda>(a, o'). o' = onion \<and> a \<noteq> address) m in
      if stale \<noteq> [] \<and> \<not> printable (address # map fst stale) then None
      else Some (bt_insert address onion (filter (\<lambda>(a, o'). \<not> (o' = onion \<and> a \<noteq> address)) m)))"

definition onion_valid :: "string \<Rightarrow> bool" where
  "onion_valid onion = (onion \<noteq> [] \<and> ends_with onion ''.onion'')"

section \<open>Proof of ownership\<close>

definition ownership_error ::
    "los_env \<Rightarrow> u64 \<Rightarrow> string \<Rightarrow> string \<Rightarrow> string \<Rightarrow> string \<Rightarrow> u64 \<Rightarrow> validator_error option" where
  "ownership_error env now verb address public_key signature timestamp =
     (if \<not> validate_address env address then Some InvalidAddress
      else case hex_decode env public_key of
             None \<Rightarrow> Some BadKeyHex
           | Some pk \<Rightarrow>
               if public_key_to_address env pk \<noteq> address then Some WrongKey
               else case hex_decode env signature of
                      None \<Rightarrow> Some BadSignatureHex
                    | Some sig \<Rightarrow>
                        if \<not> crypto_verify_signature env (as_bytes (colon_join [verb, address, uint_to_string timestamp])) sig pk
                        then Some SignatureFailed
                        else if timestamp = 0 \<or> abs_diff now timestamp > 300 then Some StaleTimestamp
                        else None)"

section \<open>Changing the validator set\<close>

definition set_validator_flag :: "bool \<Rightarrow> string \<Rightarrow> ledger \<Rightarrow> ledger" where
  "set_validator_flag v a L = L\<lparr>accounts := bt_modify a (\<lambda>st. st\<lparr>acc_is_validator := v\<rparr>) (accounts L)\<rparr>"

definition active_validators :: "ledger \<Rightarrow> string list" where
  "active_validators L =
     sort (map fst (filter (\<lambda>(_, st). acc_balance st \<ge> MIN_VALIDATOR_STAKE_CIL \<and> acc_is_validator st) (accounts L)))"

definition refresh_abft :: "validator_node \<Rightarrow> validator_node" where
  "refresh_abft vd = vd\<lparr>vd_abft := update_validator_set (active_validators (vd_ledger vd)) (vd_abft vd)\<rparr>"

definition admit :: "string \<Rightarrow> u128 \<Rightarrow> validator_node \<Rightarrow> validator_node" where
  "admit a balance vd =
     refresh_abft (vd\<lparr>vd_ledger := set_validator_flag True a (vd_ledger vd),
                      vd_slashing := sm_register_validator a (vd_slashing vd),
                      vd_rewards := rp_register_validator a False balance (vd_rewards vd)\<rparr>)"

definition dismiss :: "string \<Rightarrow> validator_node \<Rightarrow> validator_node" where
  "dismiss a vd =
     refresh_abft (vd\<lparr>vd_ledger := set_validator_flag False a (vd_ledger vd),
                      vd_slashing := snd (sm_remove_validator a (vd_slashing vd)),
                      vd_rewards := snd (rp_unregister_validator a (vd_rewards vd)),
                      vd_endpoints := bt_remove a (vd_endpoints vd)\<rparr>)"

definition balance_and_flag :: "ledger \<Rightarrow> string \<Rightarrow> u128 \<times> bool" where
  "balance_and_flag L a =
     (case bt_get (accounts L) a of Some st \<Rightarrow> (acc_balance st, acc_is_validator st) | None \<Rightarrow> (0, False))"

section \<open>\<open>POST /register-validator\<close>\<close>

definition nonempty :: "string option \<Rightarrow> string option" where
  "nonempty x = (case x of Some [] \<Rightarrow> None | _ \<Rightarrow> x)"

definition register_endpoint ::
    "validator_env \<Rightarrow> string \<Rightarrow> u128 \<Rightarrow> string option \<Rightarrow> validator_node
     \<Rightarrow> (validator_reply, validator_error) result \<times> validator_node" where
  "register_endpoint ve address balance onion vd =
     (case onion of
        Some o' \<Rightarrow>
          if onion_valid o' then
            (case insert_validator_endpoint address o' (vd_endpoints vd) of
               None \<Rightarrow> (Panic, vd)
             | Some m \<Rightarrow> (if printable [address] then Ok (Registered balance) else Panic, vd\<lparr>vd_endpoints := m\<rparr>))
          else (if printable [address] then Ok (Registered balance) else Panic, vd)
      | None \<Rightarrow> (if printable [address] then Ok (Registered balance) else Panic, vd))"

definition register_owner ::
    "validator_env \<Rightarrow> clock \<Rightarrow> validator_request \<Rightarrow> string \<Rightarrow> string \<Rightarrow> string \<Rightarrow> validator_node
     \<Rightarrow> (validator_reply, validator_error) result \<times> validator_node" where
  "register_owner ve ck rq address public_key signature vd =
     (let ts = option_or (vq_timestamp rq) 0;
          (balance, already) = balance_and_flag (vd_ledger vd) address in
      case ownership_error (ve_env ve) (ck_secs ck) ''REGISTER_VALIDATOR'' address public_key signature ts of
        Some e \<Rightarrow> (Err e, vd)
      | None \<Rightarrow>
          if already \<or> address \<in> set (ve_bootstrap ve) then (Ok (AlreadyRegistered (address \<in> set (ve_bootstrap ve))), vd)
          else if balance < MIN_VALIDATOR_STAKE_CIL then (Err (InsufficientStake (balance div CIL_PER_LOS)), vd)
          else
            let vd = admit address balance (vd\<lparr>vd_local := insert address (vd_local vd)\<rparr>);
                onion = (case vq_onion_address rq of Some o' \<Rightarrow> Some o' | None \<Rightarrow> ve_onion ve);
                msg = \<lparr>vq_address = Some address, vq_public_key = Some public_key, vq_signature = Some signature,
                       vq_timestamp = Some ts, vq_onion_address = onion\<rparr>
            in register_endpoint ve address balance onion (vd_push (''VALIDATOR_REG:'' @ ve_print ve ''VALIDATOR_REG'' msg) vd))"

definition handle_register_validator ::
    "validator_env \<Rightarrow> clock \<Rightarrow> validator_request \<Rightarrow> validator_node
     \<Rightarrow> (validator_reply, validator_error) result \<times> validator_node" where
  "handle_register_validator ve ck rq vd =
     (case nonempty (vq_address rq) of
        None \<Rightarrow> (Err MissingAddress, vd)
      | Some address \<Rightarrow>
          (case nonempty (vq_public_key rq) of
             None \<Rightarrow> (Err MissingPublicKey, vd)
           | Some public_key \<Rightarrow>
               (case nonempty (vq_signature rq) of
                  None \<Rightarrow> (Err MissingSignature, vd)
                | Some signature \<Rightarrow> register_owner ve ck rq address public_key signature vd)))"

section \<open>\<open>POST /unregister-validator\<close>\<close>

definition unregister_owner ::
    "validator_env \<Rightarrow> clock \<Rightarrow> validator_request \<Rightarrow> string \<Rightarrow> string \<Rightarrow> string \<Rightarrow> validator_node
     \<Rightarrow> (validator_reply, validator_error) result \<times> validator_node" where
  "unregister_owner ve ck rq address public_key signature vd =
     (let ts = option_or (vq_timestamp rq) 0;
          (balance, is_validator) = balance_and_flag (vd_ledger vd) address in
      case ownership_error (ve_env ve) (ck_secs ck) ''UNREGISTER_VALIDATOR'' address public_key signature ts of
        Some e \<Rightarrow> (Err e, vd)
      | None \<Rightarrow>
          if address \<in> set (ve_bootstrap ve) then (Err BootstrapCannotLeave, vd)
          else if \<not> is_validator then (Err NotAValidator, vd)
          else
            let vd = dismiss address (vd\<lparr>vd_local := vd_local vd - {address}\<rparr>);
                msg = \<lparr>vq_address = Some address, vq_public_key = Some public_key, vq_signature = Some signature,
                       vq_timestamp = Some ts, vq_onion_address = None\<rparr>
            in (if printable [address] then Ok (Unregistered balance) else Panic,
                vd_push (''VALIDATOR_UNREG:'' @ ve_print ve ''VALIDATOR_UNREG'' msg) vd))"

definition handle_unregister_validator ::
    "validator_env \<Rightarrow> clock \<Rightarrow> validator_request \<Rightarrow> validator_node
     \<Rightarrow> (validator_reply, validator_error) result \<times> validator_node" where
  "handle_unregister_validator ve ck rq vd =
     (case nonempty (vq_address rq) of
        None \<Rightarrow> (Err MissingAddress, vd)
      | Some address \<Rightarrow>
          (case nonempty (vq_public_key rq) of
             None \<Rightarrow> (Err MissingPublicKey, vd)
           | Some public_key \<Rightarrow>
               (case nonempty (vq_signature rq) of
                  None \<Rightarrow> (Err MissingSignature, vd)
                | Some signature \<Rightarrow> unregister_owner ve ck rq address public_key signature vd)))"

section \<open>Gossip\<close>

text \<open>The refusals of a signature, of a stale time and of a missing stake print the address.\<close>

definition refused :: "validator_error \<Rightarrow> string \<Rightarrow> validator_node \<Rightarrow> validator_node option" where
  "refused e address vd =
     (case e of
        SignatureFailed \<Rightarrow> if printable [address] then Some vd else None
      | StaleTimestamp \<Rightarrow> if printable [address] then Some vd else None
      | _ \<Rightarrow> Some vd)"

text \<open>The short form of the address is the key of the address book; an entry that exists is kept.\<close>

definition add_to_book :: "string \<Rightarrow> validator_node \<Rightarrow> validator_node option" where
  "add_to_book address vd =
     map_option (\<lambda>short. if bt_contains (vd_address_book vd) short then vd
                         else vd\<lparr>vd_address_book := bt_insert short address (vd_address_book vd)\<rparr>)
       (get_short_addr address)"

definition gossip_register :: "validator_env \<Rightarrow> clock \<Rightarrow> validator_request \<Rightarrow> validator_node \<Rightarrow> validator_node option" where
  "gossip_register ve ck reg vd =
     (let address = option_or (vq_address reg) []; ts = option_or (vq_timestamp reg) 0;
          (balance, already) = balance_and_flag (vd_ledger vd) address in
      case ownership_error (ve_env ve) (ck_secs ck) ''REGISTER_VALIDATOR'' address
             (option_or (vq_public_key reg) []) (option_or (vq_signature reg) []) ts of
        Some e \<Rightarrow> refused e address vd
      | None \<Rightarrow>
          if already then Some vd
          else if balance < MIN_VALIDATOR_STAKE_CIL then (if printable [address] then Some vd else None)
          else
            (case add_to_book address (admit address balance vd) of
               None \<Rightarrow> None
             | Some vd \<Rightarrow>
                 (case vq_onion_address reg of
                    Some o' \<Rightarrow>
                      if onion_valid o'
                      then map_option (\<lambda>m. vd\<lparr>vd_endpoints := m\<rparr>) (insert_validator_endpoint address o' (vd_endpoints vd))
                      else Some vd
                  | None \<Rightarrow> Some vd)))"

definition handle_validator_reg :: "validator_env \<Rightarrow> clock \<Rightarrow> string \<Rightarrow> validator_node \<Rightarrow> validator_node option" where
  "handle_validator_reg ve ck json vd =
     (case ve_request ve json of None \<Rightarrow> Some vd | Some reg \<Rightarrow> gossip_register ve ck reg vd)"

definition gossip_unregister :: "validator_env \<Rightarrow> clock \<Rightarrow> validator_request \<Rightarrow> validator_node \<Rightarrow> validator_node option" where
  "gossip_unregister ve ck reg vd =
     (let address = option_or (vq_address reg) []; ts = option_or (vq_timestamp reg) 0 in
      case ownership_error (ve_env ve) (ck_secs ck) ''UNREGISTER_VALIDATOR'' address
             (option_or (vq_public_key reg) []) (option_or (vq_signature reg) []) ts of
        Some e \<Rightarrow> refused e address vd
      | None \<Rightarrow>
          if \<not> snd (balance_and_flag (vd_ledger vd) address) then Some vd
          else if printable [address] then Some (dismiss address vd) else None)"

definition handle_validator_unreg :: "validator_env \<Rightarrow> clock \<Rightarrow> string \<Rightarrow> validator_node \<Rightarrow> validator_node option" where
  "handle_validator_unreg ve ck json vd =
     (case ve_request ve json of None \<Rightarrow> Some vd | Some reg \<Rightarrow> gossip_unregister ve ck reg vd)"

text \<open>\<open>PEER_LIST\<close>: every endpoint that looks right is taken over, for any address.\<close>

fun merge_endpoints ::
    "los_env \<Rightarrow> (string option \<times> string option) list \<Rightarrow> (string, string) btree_map \<Rightarrow> (string, string) btree_map option" where
  "merge_endpoints env [] m = Some m"
| "merge_endpoints env ((a, o') # es) m =
     (let address = option_or a []; onion = option_or o' [] in
      if address \<noteq> [] \<and> onion_valid onion \<and> validate_address env address
      then (case insert_validator_endpoint address onion m of None \<Rightarrow> None | Some m' \<Rightarrow> merge_endpoints env es m')
      else merge_endpoints env es m)"

definition handle_peer_list :: "validator_env \<Rightarrow> string \<Rightarrow> validator_node \<Rightarrow> validator_node option" where
  "handle_peer_list ve json vd =
     (case ve_peers ve json of
        None \<Rightarrow> Some vd
      | Some eps \<Rightarrow> map_option (\<lambda>m. vd\<lparr>vd_endpoints := m\<rparr>) (merge_endpoints (ve_env ve) eps (vd_endpoints vd)))"

end
