(* ===== verification/Node_Validators_Safety.thy ===== *)
theory Node_Validators_Safety
  imports Node_Validators
begin

text \<open>
  What joining and leaving guarantees: only the holder of the key of an account with the minimum stake can turn
  it into a validator, and the consensus engine always works with exactly the staked validators of the ledger.
  What it does not: leaving deletes the safety profile, so a banned validator that leaves and joins again is
  active, and the message of a registration can be sent again after its validator has left.
\<close>

section \<open>Steps\<close>

inductive validator_step :: "validator_env \<Rightarrow> clock \<Rightarrow> validator_node \<Rightarrow> validator_node \<Rightarrow> bool" for ve ck where
  api_register: "handle_register_validator ve ck rq vd = (r, vd') \<Longrightarrow> validator_step ve ck vd vd'"
| api_unregister: "handle_unregister_validator ve ck rq vd = (r, vd') \<Longrightarrow> validator_step ve ck vd vd'"
| peer_register: "handle_validator_reg ve ck json vd = Some vd' \<Longrightarrow> validator_step ve ck vd vd'"
| peer_unregister: "handle_validator_unreg ve ck json vd = Some vd' \<Longrightarrow> validator_step ve ck vd vd'"
| peer_list: "handle_peer_list ve json vd = Some vd' \<Longrightarrow> validator_step ve ck vd vd'"

text \<open>The three ways a step can change ledger, safety records and consensus engine.\<close>

definition unchanged :: "validator_node \<Rightarrow> validator_node \<Rightarrow> bool" where
  "unchanged vd vd' \<longleftrightarrow> vd_ledger vd' = vd_ledger vd \<and> vd_slashing vd' = vd_slashing vd \<and> vd_abft vd' = vd_abft vd"

definition admitted :: "validator_env \<Rightarrow> clock \<Rightarrow> string \<Rightarrow> validator_node \<Rightarrow> validator_node \<Rightarrow> bool" where
  "admitted ve ck a vd vd' \<longleftrightarrow>
     (\<exists>pk sig ts. ownership_error (ve_env ve) (ck_secs ck) ''REGISTER_VALIDATOR'' a pk sig ts = None)
     \<and> MIN_VALIDATOR_STAKE_CIL \<le> fst (balance_and_flag (vd_ledger vd) a)
     \<and> unchanged (admit a (fst (balance_and_flag (vd_ledger vd) a)) vd) vd'"

definition dismissed :: "validator_env \<Rightarrow> clock \<Rightarrow> string \<Rightarrow> validator_node \<Rightarrow> validator_node \<Rightarrow> bool" where
  "dismissed ve ck a vd vd' \<longleftrightarrow>
     (\<exists>pk sig ts. ownership_error (ve_env ve) (ck_secs ck) ''UNREGISTER_VALIDATOR'' a pk sig ts = None)
     \<and> snd (balance_and_flag (vd_ledger vd) a) \<and> unchanged (dismiss a vd) vd'"

lemma admittedI:
  assumes "ownership_error (ve_env ve) (ck_secs ck) ''REGISTER_VALIDATOR'' a pk sig ts = None"
    and "balance_and_flag (vd_ledger vd) a = (b, f)" "\<not> b < MIN_VALIDATOR_STAKE_CIL" "unchanged (admit a b vd) vd'"
  shows "admitted ve ck a vd vd'"
  using assms unfolding admitted_def by (auto simp: not_less)

lemma dismissedI:
  assumes "ownership_error (ve_env ve) (ck_secs ck) ''UNREGISTER_VALIDATOR'' a pk sig ts = None"
    and "snd (balance_and_flag (vd_ledger vd) a)" "unchanged (dismiss a vd) vd'"
  shows "dismissed ve ck a vd vd'"
  using assms unfolding dismissed_def by auto

lemma unchanged_refl [simp]: "unchanged vd vd"
  by (simp add: unchanged_def)

lemma unchanged_update [simp]:
  "unchanged vd (vd\<lparr>vd_endpoints := m\<rparr>)" "unchanged vd (vd\<lparr>vd_address_book := m\<rparr>)" "unchanged vd (vd_push msg vd)"
  "unchanged (admit a b vd) (admit a b (vd\<lparr>vd_local := s\<rparr>))" "unchanged (dismiss a vd) (dismiss a (vd\<lparr>vd_local := s\<rparr>))"
  by (simp_all add: unchanged_def vd_push_def admit_def dismiss_def refresh_abft_def)

lemma unchanged_trans: "unchanged x y \<Longrightarrow> unchanged y z \<Longrightarrow> unchanged x z"
  by (simp add: unchanged_def)

lemma register_endpoint_unchanged: "register_endpoint ve a b onion vd = (r, vd') \<Longrightarrow> unchanged vd vd'"
  by (auto simp: register_endpoint_def split: option.splits if_splits)

lemma register_owner_effect:
  assumes "register_owner ve ck rq a pk sig vd = (r, vd')"
  shows "unchanged vd vd' \<or> admitted ve ck a vd vd'"
proof (cases "ownership_error (ve_env ve) (ck_secs ck) ''REGISTER_VALIDATOR'' a pk sig (option_or (vq_timestamp rq) 0)")
  case None
  obtain b f where bf: "balance_and_flag (vd_ledger vd) a = (b, f)" by fastforce
  show ?thesis
  proof (cases "f \<or> a \<in> set (ve_bootstrap ve) \<or> b < MIN_VALIDATOR_STAKE_CIL")
    case True
    then show ?thesis using assms None bf by (auto simp: register_owner_def split: if_splits)
  next
    case False
    let ?vd = "admit a b (vd\<lparr>vd_local := insert a (vd_local vd)\<rparr>)"
    obtain onion msg where "register_endpoint ve a b onion (vd_push msg ?vd) = (r, vd')"
      using assms None bf False by (auto simp: register_owner_def Let_def)
    then have "unchanged (vd_push msg ?vd) vd'" by (rule register_endpoint_unchanged)
    then have "unchanged (admit a b vd) vd'"
      using unchanged_trans [OF unchanged_update(4) unchanged_trans [OF unchanged_update(3)]] by blast
    then show ?thesis using admittedI [OF None bf] False by blast
  qed
qed (use assms in \<open>auto simp: register_owner_def Let_def split: prod.splits\<close>)

lemma gossip_register_effect:
  assumes "gossip_register ve ck reg vd = Some vd'"
  shows "unchanged vd vd' \<or> (\<exists>a. admitted ve ck a vd vd')"
proof -
  let ?a = "option_or (vq_address reg) []"
  let ?e = "ownership_error (ve_env ve) (ck_secs ck) ''REGISTER_VALIDATOR'' ?a (option_or (vq_public_key reg) [])
    (option_or (vq_signature reg) []) (option_or (vq_timestamp reg) 0)"
  obtain b f where bf: "balance_and_flag (vd_ledger vd) ?a = (b, f)" by fastforce
  show ?thesis
  proof (cases "?e = None \<and> \<not> f \<and> \<not> b < MIN_VALIDATOR_STAKE_CIL")
    case True
    then obtain w where w: "add_to_book ?a (admit ?a b vd) = Some w" "unchanged w vd'"
      using assms bf by (fastforce simp: gossip_register_def Let_def split: option.splits if_splits)
    then have "unchanged (admit ?a b vd) w" by (auto simp: add_to_book_def split: if_splits)
    then have "unchanged (admit ?a b vd) vd'" using w(2) unchanged_trans by blast
    then show ?thesis using admittedI [OF _ bf] True by blast
  next
    case False
    then have "vd' = vd"
      using assms bf by (auto simp: gossip_register_def refused_def Let_def split: option.splits if_splits validator_error.splits)
    then show ?thesis by simp
  qed
qed

lemma unregister_owner_effect:
  assumes "unregister_owner ve ck rq a pk sig vd = (r, vd')"
  shows "unchanged vd vd' \<or> dismissed ve ck a vd vd'"
proof (cases "ownership_error (ve_env ve) (ck_secs ck) ''UNREGISTER_VALIDATOR'' a pk sig (option_or (vq_timestamp rq) 0)")
  case None
  obtain b f where bf: "balance_and_flag (vd_ledger vd) a = (b, f)" by fastforce
  let ?vd = "dismiss a (vd\<lparr>vd_local := vd_local vd - {a}\<rparr>)"
  have "vd' = vd \<or> f \<and> (\<exists>msg. vd' = vd_push msg ?vd)"
    using assms None bf by (auto simp: unregister_owner_def Let_def split: if_splits)
  then show ?thesis
    using dismissedI [OF None] bf unchanged_trans [OF unchanged_update(5) unchanged_update(3)] by fastforce
qed (use assms in \<open>auto simp: unregister_owner_def Let_def split: prod.splits\<close>)

lemma gossip_unregister_effect:
  assumes "gossip_unregister ve ck reg vd = Some vd'"
  shows "unchanged vd vd' \<or> (\<exists>a. dismissed ve ck a vd vd')"
proof (cases "vd' = vd")
  case False
  let ?a = "option_or (vq_address reg) []"
  have d: "ownership_error (ve_env ve) (ck_secs ck) ''UNREGISTER_VALIDATOR'' ?a (option_or (vq_public_key reg) [])
      (option_or (vq_signature reg) []) (option_or (vq_timestamp reg) 0) = None"
    "snd (balance_and_flag (vd_ledger vd) ?a)" "vd' = dismiss ?a vd"
    using assms False by (auto simp: gossip_unregister_def refused_def Let_def split: option.splits if_splits validator_error.splits)
  have "dismissed ve ck ?a vd vd'" by (rule dismissedI [OF d(1,2)]) (simp add: d(3))
  then show ?thesis by blast
qed simp

lemma validator_step_effect:
  assumes "validator_step ve ck vd vd'"
  shows "unchanged vd vd' \<or> (\<exists>a. admitted ve ck a vd vd') \<or> (\<exists>a. dismissed ve ck a vd vd')"
  using assms
proof cases
  case (api_register rq r)
  then show ?thesis using register_owner_effect by (fastforce simp: handle_register_validator_def split: option.splits)
next
  case (api_unregister rq r)
  then show ?thesis using unregister_owner_effect by (fastforce simp: handle_unregister_validator_def split: option.splits)
next
  case (peer_register json)
  then show ?thesis using gossip_register_effect by (fastforce simp: handle_validator_reg_def split: option.splits)
next
  case (peer_unregister json)
  then show ?thesis using gossip_unregister_effect by (fastforce simp: handle_validator_unreg_def split: option.splits)
next
  case (peer_list json)
  then show ?thesis by (auto simp: handle_peer_list_def split: option.splits)
qed

section \<open>Who becomes a validator\<close>

definition is_validator :: "ledger \<Rightarrow> string \<Rightarrow> bool" where
  "is_validator L a = snd (balance_and_flag L a)"

lemma is_validator_set:
  "is_validator (set_validator_flag v a L) x = (if x = a \<and> bt_contains (accounts L) a then v else is_validator L x)"
  by (auto simp: is_validator_def set_validator_flag_def balance_and_flag_def bt_contains_def bt_modify_def split: option.splits)

lemma ownership_proved:
  assumes "ownership_error env now verb a pk_hex sig_hex ts = None"
  shows "\<exists>pk sig. public_key_to_address env pk = a
    \<and> crypto_verify_signature env (as_bytes (colon_join [verb, a, uint_to_string ts])) sig pk \<and> abs_diff now ts \<le> 300"
  using assms by (auto simp: ownership_error_def not_less split: if_splits option.splits)


section \<open>The validators of the consensus engine\<close>

definition abft_synced :: "validator_node \<Rightarrow> bool" where
  "abft_synced vd \<longleftrightarrow> ac_validator_set (vd_abft vd) = active_validators (vd_ledger vd)"

interpretation validator_sys: invariant_system "validator_step ve ck" abft_synced for ve ck
proof
  show "abft_synced vd'" if "abft_synced vd" "validator_step ve ck vd vd'" for vd vd'
    using validator_step_effect [OF that(2)] that(1)
    by (auto simp: abft_synced_def unchanged_def admitted_def dismissed_def admit_def dismiss_def refresh_abft_def
        update_validator_set_def Let_def)
qed

text \<open>Whatever validators join and leave, the consensus engine keeps exactly the accounts that carry the flag and
  hold the minimum stake.\<close>

lemma consensus_uses_staked_validators:
  assumes "(validator_step ve ck)\<^sup>*\<^sup>* vd0 vd" "ac_validator_set (vd_abft vd0) = active_validators (vd_ledger vd0)"
  shows "set (ac_validator_set (vd_abft vd))
    = {a. \<exists>st. (a, st) \<in> set (accounts (vd_ledger vd)) \<and> MIN_VALIDATOR_STAKE_CIL \<le> acc_balance st \<and> acc_is_validator st}"
  using validator_sys.reach_inv [OF assms(1)] assms(2) by (force simp: abft_synced_def active_validators_def)

section \<open>Leaving wipes a ban\<close>

lemma dismiss_then_admit:
  assumes "bt_contains (accounts (vd_ledger vd)) a"
  shows "is_validator (vd_ledger (dismiss a vd)) a = False" "balance_and_flag (vd_ledger (dismiss a vd)) a
      = (fst (balance_and_flag (vd_ledger vd) a), False)"
    and "is_validator (vd_ledger (admit a b (dismiss a vd))) a"
    and "get_status (vd_slashing (admit a b (dismiss a vd))) a = Some Active"
  using assms
  by (auto simp: dismiss_def admit_def refresh_abft_def is_validator_def balance_and_flag_def set_validator_flag_def bt_modify_def
      bt_contains_def get_status_def sm_remove_validator_def sm_register_validator_def safety_profile_new_def split: option.splits)

text \<open>a ban is wiped by leaving and joining again. A banned validator that sends the node its own signed
  deregistration and then its own signed registration is an active validator afterwards: the deregistration
  deletes the profile that held the ban.\<close>

theorem rejoining_wipes_ban:
  assumes "ve_request ve j1 = Some unreg" "ve_request ve j2 = Some reg"
    and "vq_address unreg = Some a" "vq_public_key unreg = Some pk" "vq_signature unreg = Some sig" "vq_timestamp unreg = Some ts"
    and "ownership_error (ve_env ve) (ck_secs ck) ''UNREGISTER_VALIDATOR'' a pk sig ts = None"
    and "vq_address reg = Some a" "vq_public_key reg = Some pk'" "vq_signature reg = Some sig'" "vq_timestamp reg = Some ts'"
    and "ownership_error (ve_env ve) (ck_secs ck') ''REGISTER_VALIDATOR'' a pk' sig' ts' = None" "vq_onion_address reg = None"
    and "is_validator (vd_ledger vd) a" "MIN_VALIDATOR_STAKE_CIL \<le> acc_balance (account_or_default (vd_ledger vd) a)"
    and "get_status (vd_slashing vd) a = Some Banned" "printable [a]"
  shows "\<exists>vd1 vd2. handle_validator_unreg ve ck j1 vd = Some vd1 \<and> handle_validator_reg ve ck' j2 vd1 = Some vd2
    \<and> is_validator (vd_ledger vd2) a \<and> get_status (vd_slashing vd2) a = Some Active"
proof -
  let ?b = "fst (balance_and_flag (vd_ledger vd) a)"
  have c: "bt_contains (accounts (vd_ledger vd)) a" "\<not> ?b < MIN_VALIDATOR_STAKE_CIL"
    using assms(14,15)
    by (auto simp: is_validator_def balance_and_flag_def account_or_default_def bt_contains_def not_less split: option.splits)
  note da = dismiss_then_admit [OF c(1)]
  have 1: "handle_validator_unreg ve ck j1 vd = Some (dismiss a vd)"
    using assms(1,3-7,14,17) by (simp add: handle_validator_unreg_def gossip_unregister_def is_validator_def option_or_def)
  obtain w where w: "add_to_book a (admit a ?b (dismiss a vd)) = Some w" "unchanged (admit a ?b (dismiss a vd)) w"
    using assms(17) by (auto simp: add_to_book_def printable_def)
  have 2: "handle_validator_reg ve ck' j2 (dismiss a vd) = Some w"
    using assms(2,8-13) c(2) da(2) w(1) by (simp add: handle_validator_reg_def gossip_register_def option_or_def)
  show ?thesis using 1 2 da(3,4) w(2) by (auto simp: unchanged_def)
qed

text \<open>A registration stays good for five minutes. Sent again after its validator has left, it makes the account a
  validator once more.\<close>

lemma ownership_later:
  assumes "ownership_error env now verb a pk sig ts = None" "\<not> 300 < abs_diff now' ts"
  shows "ownership_error env now' verb a pk sig ts = None"
  using assms by (auto simp: ownership_error_def split: if_splits option.splits)

lemma registration_replayed:
  fixes reg
  defines "a \<equiv> option_or (vq_address reg) []" and "ts \<equiv> option_or (vq_timestamp reg) 0"
  assumes "ve_request ve j = Some reg" "vq_onion_address reg = None" "printable [a]"
    and "ownership_error (ve_env ve) (ck_secs ck) ''REGISTER_VALIDATOR'' a
      (option_or (vq_public_key reg) []) (option_or (vq_signature reg) []) ts = None"
    and "\<not> 300 < abs_diff (ck_secs ck') ts"
    and "balance_and_flag (vd_ledger vd) a = (b, False)" "\<not> b < MIN_VALIDATOR_STAKE_CIL"
  shows "\<exists>vd'. handle_validator_reg ve ck' j vd = Some vd' \<and> is_validator (vd_ledger vd') a"
proof -
  obtain w where w: "add_to_book a (admit a b vd) = Some w" "unchanged (admit a b vd) w"
    using assms(5) by (auto simp: add_to_book_def printable_def)
  have "bt_contains (accounts (vd_ledger vd)) a"
    using assms(8,9) by (auto simp: balance_and_flag_def bt_contains_def MIN_VALIDATOR_STAKE_CIL_def CIL_PER_LOS_def split: option.splits)
  then have "is_validator (vd_ledger w) a"
    using w(2) by (simp add: unchanged_def admit_def refresh_abft_def is_validator_set)
  moreover have "handle_validator_reg ve ck' j vd = Some w"
    using assms(3,4,8,9) ownership_later [OF assms(6,7)] w(1)
    by (simp add: handle_validator_reg_def gossip_register_def Let_def a_def ts_def)
  ultimately show ?thesis by blast
qed

section \<open>An example\<close>

definition valid_request :: validator_request where
  "valid_request = \<lparr>vq_address = Some ''LOSV'', vq_public_key = Some ''V'', vq_signature = Some ''s'', vq_timestamp = Some 100,
     vq_onion_address = None\<rparr>"

definition valid_env :: validator_env where
  "valid_env = \<lparr>ve_node = net_node_env, ve_request = (\<lambda>_. Some valid_request), ve_peers = (\<lambda>_. None), ve_print = (\<lambda>_ _. ''{}''),
     ve_onion = None, ve_bootstrap = []\<rparr>"

definition valid_node :: "ledger \<Rightarrow> slashing_manager \<Rightarrow> validator_node" where
  "valid_node L m = \<lparr>vd_ledger = L, vd_slashing = m, vd_rewards = reward_pool_with_balance net_env 0 0,
     vd_abft = abft_new ''LOSN'' 4, vd_local = {}, vd_endpoints = [], vd_address_book = [], vd_outbox = []\<rparr>"

lemma valid_ownership: "ownership_error net_env 100 verb ''LOSV'' ''V'' ''s'' 100 = None"
  by (simp add: ownership_error_def validate_address_def net_env_def vote_env_def open_env_def demo_env_def plain_env_def
      address_checksum_def starts_with_def public_key_to_address_def crypto_verify_signature_def verify_dilithium5_def
      as_bytes_def abs_diff_def char_of_def bit_0 Let_def)

theorem rejoining_wipes_ban_witness:
  "\<exists>vd1 vd2. handle_validator_unreg valid_env demo_clock ''u'' (valid_node net_ledger (snd (emergency_ban ''LOSV'' ''x'' (wn_slashing net_watch)))) = Some vd1
    \<and> handle_validator_reg valid_env demo_clock ''r'' vd1 = Some vd2
    \<and> is_validator (vd_ledger vd2) ''LOSV'' \<and> get_status (vd_slashing vd2) ''LOSV'' = Some Active"
  by (rule rejoining_wipes_ban [of valid_env _ valid_request _ valid_request "''LOSV''" "''V''" "''s''" 100 demo_clock
        "''V''" "''s''" 100 demo_clock])
    (simp_all add: valid_env_def valid_request_def valid_node_def valid_ownership is_validator_def balance_and_flag_def net_ledger_def
      net_account_def account_or_default_def ledger_constants emergency_ban_def net_watch_def sm_register_validator_def slashing_new_def
      set_profile_def get_status_def printable_def get_short_addr_def)


end
