(* ===== verification/Node_Epoch.thy ===== *)
theory Node_Epoch
  imports Node_Gossip_Safety Rewards Voting
begin

text \<open>
  Liveness of validators and the end of an epoch (\<open>los-node/src/main.rs\<close>): the task that announces this node,
  counts heartbeats, elects the leader of an epoch and pays rewards and fees, and the gossip handlers of
  \<open>VALIDATOR_HEARTBEAT\<close> and \<open>VALIDATOR_HEARTBEAT_PROXY\<close>. The task gives its locks back between its phases, so
  each phase is a definition of its own and the ledger may change in between; the whole tick takes these
  changes as an argument. Replies to the HTTP check are a parameter. \<open>None\<close> is a panic, which ends the task.
  A hash set is visited in the order of its sorted elements.
\<close>

section \<open>State\<close>

record reward_node =
  rn_pool :: reward_pool
  rn_ledger :: ledger
  rn_local :: "string set"
  rn_live :: "(string, u64) btree_map"
  rn_endpoints :: "(string, string) btree_map"
  rn_ticks :: u64
  rn_outbox :: "string list"

definition heartbeat_secs :: "los_env \<Rightarrow> u64" where
  "heartbeat_secs env = (if is_testnet_build env then 10 else 60)"

definition http_check_interval :: u64 where
  "http_check_interval = 6"

section \<open>Announcing liveness\<close>

definition heartbeat_text :: "string \<Rightarrow> u64 \<Rightarrow> string" where
  "heartbeat_text address now = colon_join [''VALIDATOR_HEARTBEAT'', address, uint_to_string now]"

definition proxy_text :: "string \<Rightarrow> string \<Rightarrow> u64 \<Rightarrow> string" where
  "proxy_text wallet address now = colon_join [''VALIDATOR_HEARTBEAT_PROXY'', wallet, address, uint_to_string now]"

text \<open>A signed text: the text, the key of the node and the signature. Without a signature nothing is sent.\<close>

definition announce :: "node_env \<Rightarrow> string \<Rightarrow> string list" where
  "announce ne text =
     (case try_sign_hex ne (as_bytes text) of
        None \<Rightarrow> []
      | Some sig \<Rightarrow> [colon_join [text, hex_encode (ne_env ne) (ne_public_key ne), sig]])"

definition heartbeat_messages :: "node_env \<Rightarrow> u64 \<Rightarrow> string set \<Rightarrow> string list" where
  "heartbeat_messages ne now wallets =
     announce ne (heartbeat_text (ne_address ne) now)
     @ concat (map (\<lambda>w. announce ne (proxy_text w (ne_address ne) now))
                 (filter (\<lambda>w. w \<noteq> ne_address ne) (sorted_list_of_set wallets)))"

section \<open>Receiving heartbeats\<close>

definition mark_live :: "string \<Rightarrow> u64 \<Rightarrow> reward_node \<Rightarrow> reward_node" where
  "mark_live a now rn = rn\<lparr>rn_live := bt_insert a now (rn_live rn)\<rparr>"

definition fresh_heartbeat :: "los_env \<Rightarrow> u64 \<Rightarrow> u64 \<Rightarrow> bool" where
  "fresh_heartbeat env now ts = (abs_diff now ts \<le> heartbeat_secs env * 2)"

text \<open>The key hashes to the address and signed the text.\<close>

definition signed_by :: "los_env \<Rightarrow> string \<Rightarrow> string \<Rightarrow> string \<Rightarrow> string \<Rightarrow> bool" where
  "signed_by env address text pk_hex sig_hex =
     (case (hex_decode env pk_hex, hex_decode env sig_hex) of
        (Some pk, Some sig) \<Rightarrow>
          public_key_to_address env pk = address \<and> crypto_verify_signature env (as_bytes text) sig pk
      | _ \<Rightarrow> False)"

definition handle_heartbeat :: "node_env \<Rightarrow> clock \<Rightarrow> string \<Rightarrow> reward_node \<Rightarrow> reward_node" where
  "handle_heartbeat ne ck rest rn =
     (let env = ne_env ne; parts = str_splitn 4 (CHR '':'') rest in
      if length parts = 4 \<and> parts ! 0 \<noteq> ne_address ne \<and> validate_address env (parts ! 0) then
        (case parse_uint (parts ! 1) of
           None \<Rightarrow> rn
         | Some ts \<Rightarrow>
             if fresh_heartbeat env (ck_secs ck) ts
                \<and> signed_by env (parts ! 0) (heartbeat_text (parts ! 0) ts) (parts ! 2) (parts ! 3)
                \<and> bt_contains (rp_validators (rn_pool rn)) (parts ! 0)
             then mark_live (parts ! 0) (ck_secs ck) rn else rn)
      else rn)"

definition handle_heartbeat_proxy :: "node_env \<Rightarrow> clock \<Rightarrow> string \<Rightarrow> reward_node \<Rightarrow> reward_node" where
  "handle_heartbeat_proxy ne ck rest rn =
     (let env = ne_env ne; parts = str_splitn 5 (CHR '':'') rest in
      if length parts = 5 \<and> parts ! 0 \<noteq> ne_address ne
         \<and> validate_address env (parts ! 0) \<and> validate_address env (parts ! 1) then
        (case parse_uint (parts ! 2) of
           None \<Rightarrow> rn
         | Some ts \<Rightarrow>
             if fresh_heartbeat env (ck_secs ck) ts
                \<and> signed_by env (parts ! 1) (proxy_text (parts ! 0) (parts ! 1) ts) (parts ! 3) (parts ! 4)
                \<and> bt_contains (rp_validators (rn_pool rn)) (parts ! 0)
             then mark_live (parts ! 0) (ck_secs ck) rn else rn)
      else rn)"

section \<open>Counting heartbeats\<close>

definition beat_once :: "string \<Rightarrow> string set \<times> reward_pool \<Rightarrow> string set \<times> reward_pool" where
  "beat_once a = (\<lambda>(seen, p). snd (record_heartbeat_once a seen p))"

definition liveness_window :: "los_env \<Rightarrow> u64" where
  "liveness_window env = heartbeat_secs env * 2"

definition recent_peers :: "los_env \<Rightarrow> u64 \<Rightarrow> (string, u64) btree_map \<Rightarrow> string list" where
  "recent_peers env now live =
     map fst (filter (\<lambda>(_, last_seen). last_seen \<ge> saturating_sub now (liveness_window env)) live)"

definition evict_stale :: "los_env \<Rightarrow> u64 \<Rightarrow> (string, u64) btree_map \<Rightarrow> (string, u64) btree_map" where
  "evict_stale env now live =
     filter (\<lambda>(_, ts). ts \<ge> saturating_sub now (liveness_window env * 5)) live"

text \<open>This node, the wallets registered through it, and the peers seen lately.\<close>

definition record_tick :: "node_env \<Rightarrow> u64 \<Rightarrow> reward_node \<Rightarrow> string set \<times> reward_node" where
  "record_tick ne now rn =
     (let env = ne_env ne;
          (seen, p) = fold beat_once
            (ne_address ne # sorted_list_of_set (rn_local rn) @ recent_peers env now (rn_live rn)) ({}, rn_pool rn)
      in (seen, rn\<lparr>rn_pool := p, rn_live := evict_stale env now (rn_live rn)\<rparr>))"

text \<open>Endpoints of registered validators that were not seen in this tick.\<close>

definition endpoints_to_check :: "string \<Rightarrow> string set \<Rightarrow> reward_node \<Rightarrow> (string \<times> string) list" where
  "endpoints_to_check me seen rn =
     concat (map (\<lambda>a. case bt_get (rn_endpoints rn) a of Some onion \<Rightarrow> [(a, onion)] | None \<Rightarrow> [])
       (filter (\<lambda>a. a \<notin> seen \<and> a \<noteq> me) (map fst (rp_validators (rn_pool rn)))))"

definition apply_replies :: "u64 \<Rightarrow> (string \<times> bool) list \<Rightarrow> string set \<Rightarrow> reward_node \<Rightarrow> string set \<times> reward_node" where
  "apply_replies now replies seen rn =
     (let alive = map fst (filter snd replies);
          (seen, p) = fold beat_once alive (seen, rn_pool rn)
      in (seen, rn\<lparr>rn_pool := p, rn_live := fold (\<lambda>a. bt_insert a now) alive (rn_live rn)\<rparr>))"

text \<open>Every sixth tick and only with a proxy the health endpoints are asked; \<open>healthy\<close> is the answer of an
  endpoint in time.\<close>

definition http_fallback ::
    "node_env \<Rightarrow> bool \<Rightarrow> (string \<Rightarrow> bool) \<Rightarrow> u64 \<Rightarrow> string set \<Rightarrow> reward_node \<Rightarrow> string set \<times> reward_node" where
  "http_fallback ne proxy healthy now seen rn =
     (if rn_ticks rn mod http_check_interval = 0 \<and> proxy
      then apply_replies now (map (\<lambda>(a, onion). (a, healthy onion)) (endpoints_to_check (ne_address ne) seen rn)) seen rn
      else (seen, rn))"

section \<open>The end of an epoch\<close>

text \<open>Phase 1: leader election over the sorted list of registered validators.\<close>

definition epoch_leader :: "reward_pool \<Rightarrow> string option" where
  "epoch_leader p =
     (let registered = sort (map fst (rp_validators p)) in
      if registered = [] then None
      else Some (registered ! (unat (rp_current_epoch p) mod length registered)))"

definition refresh_stakes :: "ledger \<Rightarrow> reward_pool \<Rightarrow> reward_pool" where
  "refresh_stakes L p =
     fold (\<lambda>a p. case bt_get (accounts L) a of Some st \<Rightarrow> rp_update_stake a (acc_balance st) p | None \<Rightarrow> p)
       (map fst (rp_validators p)) p"

type_synonym fee_data = "u128 \<times> (string \<times> u128) list \<times> u128"

definition fee_eligible :: "ledger \<Rightarrow> (string \<times> u128) list" where
  "fee_eligible L =
     map (\<lambda>(a, st). (a, calculate_voting_power (acc_balance st)))
       (filter (\<lambda>(_, st). acc_is_validator st \<and> acc_balance st \<ge> MIN_VALIDATOR_STAKE_CIL) (accounts L))"

definition collect_fee_data :: "ledger \<Rightarrow> fee_data option" where
  "collect_fee_data L =
     (let fees = accumulated_fees_cil L; eligible = fee_eligible L; total_weight = sum_list (map snd eligible) in
      if fees > 0 \<and> total_weight > 0 \<and> eligible \<noteq> [] then Some (fees, eligible, total_weight) else None)"

record epoch_plan =
  ep_rewards :: "(string \<times> u128) list"
  ep_is_leader :: bool
  ep_completed_epoch :: u64
  ep_fee_data :: "fee_data option"

definition no_plan :: epoch_plan where
  "no_plan = \<lparr>ep_rewards = [], ep_is_leader = False, ep_completed_epoch = 0, ep_fee_data = None\<rparr>"

definition epoch_phase1 :: "node_env \<Rightarrow> u64 \<Rightarrow> ledger \<Rightarrow> reward_pool \<Rightarrow> (epoch_plan \<times> reward_pool) option" where
  "epoch_phase1 ne now L p =
     (let hb = heartbeat_secs (ne_env ne); leader = epoch_leader p;
          is_leader = (leader = Some (ne_address ne)) in
      if \<not> is_epoch_complete p now then Some (no_plan, p)
      else if \<not> is_leader
        \<and> (case leader of None \<Rightarrow> False | Some a \<Rightarrow> str_slice_to a (min (length a) 15) = None) then None
      else
        let p = set_expected_heartbeats hb p in
        if is_leader then
          let (rewards, p) = distribute_epoch_rewards (refresh_stakes L p);
              p = set_expected_heartbeats hb p
          in Some (\<lparr>ep_rewards = rewards, ep_is_leader = True,
                    ep_completed_epoch = saturating_sub (rp_current_epoch p) 1,
                    ep_fee_data = collect_fee_data L\<rparr>, p)
        else
          Some (\<lparr>ep_rewards = [], ep_is_leader = False, ep_completed_epoch = rp_current_epoch p, ep_fee_data = None\<rparr>,
                set_expected_heartbeats hb (advance_epoch_only p)))"

text \<open>Phase 2: unsigned blocks on the present heads, then proof of work and signature without a lock.\<close>

type_synonym epoch_blocks = "(string \<times> u128 \<times> block) list"

definition epoch_template :: "node_env \<Rightarrow> u64 \<Rightarrow> string \<Rightarrow> ledger \<Rightarrow> string \<times> u128 \<Rightarrow> string \<times> u128 \<times> block" where
  "epoch_template ne now link L = (\<lambda>(a, amount).
     (a, amount,
      \<lparr>blk_account = a, blk_previous = acc_head (account_or_default L a), blk_type = Mint, blk_amount = amount,
       blk_link = link, blk_signature = [], blk_public_key = hex_encode (ne_env ne) (ne_public_key ne), blk_work = 0,
       blk_timestamp = now, blk_fee = 0\<rparr>))"

text \<open>A reward above the remaining supply is left out, which prints the address.\<close>

definition reward_templates :: "node_env \<Rightarrow> u64 \<Rightarrow> epoch_plan \<Rightarrow> ledger \<Rightarrow> epoch_blocks option" where
  "reward_templates ne now plan L =
     (let left = remaining_supply (distribution L);
          (paid, skipped) = partition (\<lambda>(_, r). \<not> left < r) (ep_rewards plan) in
      if printable (map fst skipped)
      then Some (map (epoch_template ne now (''REWARD:EPOCH:'' @ uint_to_string (ep_completed_epoch plan)) L) paid)
      else None)"

definition fee_shares :: "fee_data \<Rightarrow> (string \<times> u128) list" where
  "fee_shares = (\<lambda>(fees, eligible, total_weight).
     filter (\<lambda>(_, share). share \<noteq> 0)
       (map (\<lambda>(a, w). (a, option_or (checked_mul fees w) 0 div total_weight)) eligible))"

definition fee_templates :: "node_env \<Rightarrow> u64 \<Rightarrow> u64 \<Rightarrow> fee_data \<Rightarrow> ledger \<Rightarrow> epoch_blocks" where
  "fee_templates ne now epoch fd L =
     map (epoch_template ne now (''FEE_REWARD:EPOCH:'' @ uint_to_string epoch) L) (fee_shares fd)"

definition sign_template :: "node_env \<Rightarrow> block \<Rightarrow> block option" where
  "sign_template ne b =
     (let b = compute_pow_inline (ne_env ne) b in
      map_option (\<lambda>sig. b\<lparr>blk_signature := sig\<rparr>) (try_sign_hex ne (as_bytes (signing_hash (ne_env ne) b))))"

fun sign_templates :: "node_env \<Rightarrow> epoch_blocks \<Rightarrow> epoch_blocks option" where
  "sign_templates ne [] = Some []"
| "sign_templates ne ((a, amount, b) # ts) =
     (case sign_template ne b of
        Some b' \<Rightarrow> map_option (\<lambda>ts. (a, amount, b') # ts) (sign_templates ne ts)
      | None \<Rightarrow> if printable [a] then sign_templates ne ts else None)"

text \<open>Phase 3: the signed blocks are processed; a block whose account has a new head is left out. For fees the
  remaining supply is put back. The result is the ledger, the sum credited and the blocks to send.\<close>

definition stale_block :: "ledger \<Rightarrow> string \<Rightarrow> block \<Rightarrow> bool" where
  "stale_block L a b = (case bt_get (accounts L) a of Some st \<Rightarrow> acc_head st \<noteq> blk_previous b | None \<Rightarrow> False)"

definition restore_supply :: "bool \<Rightarrow> u128 \<Rightarrow> ledger \<Rightarrow> ledger" where
  "restore_supply fees supply L =
     (if fees then L\<lparr>distribution := (distribution L)\<lparr>remaining_supply := supply\<rparr>\<rparr> else L)"

fun apply_epoch_blocks ::
    "gossip_env \<Rightarrow> u64 \<Rightarrow> bool \<Rightarrow> epoch_blocks \<Rightarrow> ledger \<Rightarrow> (ledger \<times> u128 \<times> string list) option" where
  "apply_epoch_blocks ge now fees [] L = Some (L, 0, [])"
| "apply_epoch_blocks ge now fees ((a, amount, b) # bs) L =
     (if \<not> printable [a] then None
      else if stale_block L a b then apply_epoch_blocks ge now fees bs L
      else
        (case process_block (ge_env ge) now b L of
           (Panic, L') \<Rightarrow> None
         | (Err e, L') \<Rightarrow> apply_epoch_blocks ge now fees bs L'
         | (Ok r, L') \<Rightarrow>
             if str_slice_to (process_result_hash r) 12 = None then None
             else map_option (\<lambda>(M, total, msgs). (M, amount + total, ge_block_to_json ge b # msgs))
                    (apply_epoch_blocks ge now fees bs
                       (restore_supply fees (remaining_supply (distribution L)) L'))))"

definition apply_rewards :: "gossip_env \<Rightarrow> u64 \<Rightarrow> epoch_blocks \<Rightarrow> ledger \<Rightarrow> (ledger \<times> string list) option" where
  "apply_rewards ge now bs L = map_option (\<lambda>(L, total, msgs). (L, msgs)) (apply_epoch_blocks ge now False bs L)"

definition apply_fees :: "gossip_env \<Rightarrow> u64 \<Rightarrow> epoch_blocks \<Rightarrow> ledger \<Rightarrow> (ledger \<times> string list) option" where
  "apply_fees ge now bs L =
     map_option
       (\<lambda>(L, total, msgs).
          (if total > 0 then L\<lparr>accumulated_fees_cil := saturating_sub (accumulated_fees_cil L) total\<rparr> else L, msgs))
       (apply_epoch_blocks ge now True bs L)"

text \<open>\<open>other n\<close> is what the rest of the node does to the ledger after phase \<open>n\<close>.\<close>

definition epoch_rewards_paid ::
    "gossip_env \<Rightarrow> u64 \<Rightarrow> (ledger \<Rightarrow> ledger) \<Rightarrow> epoch_plan \<Rightarrow> ledger \<Rightarrow> (ledger \<times> string list) option" where
  "epoch_rewards_paid ge now other plan L =
     (if ep_rewards plan \<noteq> [] \<and> ep_is_leader plan
      then Option.bind (reward_templates (ge_node ge) now plan L)
             (\<lambda>ts. Option.bind (sign_templates (ge_node ge) ts) (\<lambda>bs. apply_rewards ge now bs (other L)))
      else Some (L, []))"

definition epoch_fees_paid ::
    "gossip_env \<Rightarrow> u64 \<Rightarrow> (ledger \<Rightarrow> ledger) \<Rightarrow> epoch_plan \<Rightarrow> ledger \<Rightarrow> (ledger \<times> string list) option" where
  "epoch_fees_paid ge now other plan L =
     (case (ep_is_leader plan, ep_fee_data plan) of
        (True, Some fd) \<Rightarrow>
          Option.bind (sign_templates (ge_node ge) (fee_templates (ge_node ge) now (ep_completed_epoch plan) fd L))
            (\<lambda>bs. apply_fees ge now bs (other L))
      | _ \<Rightarrow> Some (L, []))"

definition epoch_end ::
    "gossip_env \<Rightarrow> u64 \<Rightarrow> (nat \<Rightarrow> ledger \<Rightarrow> ledger) \<Rightarrow> reward_node \<Rightarrow> reward_node option" where
  "epoch_end ge now other rn =
     Option.bind (epoch_phase1 (ge_node ge) now (rn_ledger rn) (rn_pool rn)) (\<lambda>(plan, p).
     Option.bind (epoch_rewards_paid ge now (other 2) plan (other 1 (rn_ledger rn))) (\<lambda>(L, rmsgs).
     Option.bind (epoch_fees_paid ge now (other 4) plan (other 3 L)) (\<lambda>(L, fmsgs).
       Some (rn\<lparr>rn_pool := p, rn_ledger := L, rn_outbox := rn_outbox rn @ rmsgs @ fmsgs\<rparr>))))"

text \<open>One turn of the task.\<close>

definition reward_tick ::
    "gossip_env \<Rightarrow> clock \<Rightarrow> bool \<Rightarrow> (string \<Rightarrow> bool) \<Rightarrow> (nat \<Rightarrow> ledger \<Rightarrow> ledger) \<Rightarrow> reward_node \<Rightarrow> reward_node option" where
  "reward_tick ge ck proxy healthy other rn =
     (let ne = ge_node ge; now = ck_secs ck;
          rn = rn\<lparr>rn_ticks := rn_ticks rn + 1,
                  rn_outbox := rn_outbox rn @ heartbeat_messages ne now (rn_local rn)\<rparr>;
          (seen, rn) = record_tick ne now rn;
          (_, rn) = http_fallback ne proxy healthy now seen rn
      in epoch_end ge now other rn)"

end
