(* ===== verification/Node_Epoch_Safety.thy ===== *)
theory Node_Epoch_Safety
  imports Node_Epoch
begin

text \<open>
  What the end of an epoch does to the ledger, who is counted as alive, and who leads. A tick creates no value
  whatever happens between its phases; each validator is counted once in a tick; the leaders of consecutive
  epochs take turns; a heartbeat of one node is counted by another. Anybody can vouch for any validator, and
  fee rewards leave leader and peers with different ledgers.
\<close>

section \<open>Value\<close>

lemma inv_parts_distribution [simp]:
  "maps_ok (L\<lparr>distribution := d\<rparr>) = maps_ok L"
  "claims_ok (L\<lparr>distribution := d\<rparr>) = claims_ok L"
  "receives_unique (L\<lparr>distribution := d\<rparr>) = receives_unique L"
  "heads_ok (L\<lparr>distribution := d\<rparr>) = heads_ok L"
  "balances_total (L\<lparr>distribution := d\<rparr>) = balances_total L"
  "in_flight (L\<lparr>distribution := d\<rparr>) = in_flight L"
  by (simp_all add: maps_ok_def claims_ok_def receives_unique_def heads_ok_def balances_total_def in_flight_def)

lemma mint_applied:
  assumes "process_block env now b L = (Ok (Applied h), L')" "blk_type b = Mint"
  shows "accumulated_fees_cil L' = accumulated_fees_cil L"
    and "unat (remaining_supply (distribution L')) + unat (blk_amount b) = unat (remaining_supply (distribution L))"
proof -
  obtain st1 L1 where "process_mint env b (account_or_default L (blk_account b)) L = (Ok st1, L1)"
      "L' = commit_block b (calculate_hash env b) st1 L1"
    using assms by (auto elim!: process_block_cases simp: process_transaction_def)
  then show "accumulated_fees_cil L' = accumulated_fees_cil L"
    "unat (remaining_supply (distribution L')) + unat (blk_amount b) = unat (remaining_supply (distribution L))"
    by (auto simp: process_mint_def Let_def unat_saturating_sub word_less_nat_alt split: if_splits option.splits)
qed

lemma process_ok_cases:
  assumes "process_block env now b L = (r, L')"
  obtains "L' = L" | h where "r = Ok (Applied h)"
  using assms by (cases rule: process_block_cases) auto

lemma mint_keeps_fees:
  assumes "process_block env now b L = (r, L')" "blk_type b = Mint"
  shows "accumulated_fees_cil L' = accumulated_fees_cil L"
  using assms(1) by (rule process_ok_cases) (use assms mint_applied(1) in auto)

text \<open>A Mint with the supply put back adds its amount.\<close>

lemma mint_restored:
  assumes p: "process_block env now b L = (r, L')" and t: "blk_type b = Mint" and inv: "ledger_inv L"
    and room: "ledger_value L + unat (blk_amount b) < 2 ^ 128"
  defines "M \<equiv> restore_supply True (remaining_supply (distribution L)) L'"
  shows "ledger_inv M \<and> ledger_value M \<le> ledger_value L + unat (blk_amount b)
    \<and> accumulated_fees_cil M = accumulated_fees_cil L"
  using p
proof (cases rule: process_ok_cases)
  case 1
  then have "M = L" by (simp add: M_def restore_supply_def)
  with inv show ?thesis by simp
next
  case (2 h)
  have L': "ledger_inv L'" "ledger_value L' \<le> ledger_value L" using process_block_inv [OF p inv] by auto
  note m = mint_applied [OF p [unfolded 2] t]
  have "ledger_value M = ledger_value L' + unat (blk_amount b)"
    using m(2) by (simp add: M_def restore_supply_def ledger_value_def)
  then show ?thesis
    using L' m(1) room by (auto simp: M_def restore_supply_def ledger_inv_def)
qed

definition mint_list :: "epoch_blocks \<Rightarrow> bool" where
  "mint_list bs \<longleftrightarrow> (\<forall>(a, amount, b) \<in> set bs. blk_type b = Mint \<and> blk_amount b = amount)"

abbreviation amounts :: "epoch_blocks \<Rightarrow> nat" where
  "amounts bs \<equiv> sum_list (map (\<lambda>(a, amount, b). unat amount) bs)"

lemma mint_list_Cons: "mint_list ((a, amount, b) # bs) \<longleftrightarrow> blk_type b = Mint \<and> blk_amount b = amount \<and> mint_list bs"
  by (auto simp: mint_list_def)

lemma err_unchanged: "process_block env now b L = (Err e, L') \<Longrightarrow> L' = L"
  by (auto elim: process_ok_cases)

text \<open>The result of a run over a non-empty list comes from the run over its tail.\<close>

lemma apply_epoch_blocks_Cons:
  assumes "apply_epoch_blocks ge now fees ((a, amount, b) # bs) L = Some (M, tot, msgs)"
  obtains (skipped) "apply_epoch_blocks ge now fees bs L = Some (M, tot, msgs)"
  | (credited) r L' tot' msgs' where "process_block (ge_env ge) now b L = (Ok r, L')"
      "apply_epoch_blocks ge now fees bs (restore_supply fees (remaining_supply (distribution L)) L')
         = Some (M, tot', msgs')" "tot = amount + tot'"
proof (cases "process_block (ge_env ge) now b L")
  case (Pair r L')
  then show thesis using assms skipped credited by (cases r) (auto dest: err_unchanged split: if_splits)
qed

lemma apply_rewards_sound:
  assumes "apply_epoch_blocks ge now False bs L = Some (M, tot, msgs)" "mint_list bs"
  shows "sound_change L M \<and> accumulated_fees_cil M = accumulated_fees_cil L"
  using assms
proof (induction bs arbitrary: L M tot msgs)
  case (Cons x bs)
  obtain a amount b where x: "x = (a, amount, b)" by (cases x)
  from Cons.prems(1) [unfolded x] show ?case
  proof (cases rule: apply_epoch_blocks_Cons)
    case (credited r L' tot' msgs')
    with Cons show ?thesis
      using sound_trans [OF sound_process [OF credited(1)]] mint_keeps_fees [OF credited(1)]
      by (fastforce simp: x mint_list_Cons restore_supply_def)
  qed (use Cons in \<open>auto simp: x mint_list_Cons\<close>)
qed (simp add: sound_refl)

lemma apply_fees_bound:
  assumes "apply_epoch_blocks ge now True bs L = Some (M, tot, msgs)" "mint_list bs" "ledger_inv L"
    and "ledger_value L + amounts bs < 2 ^ 128"
  shows "ledger_inv M \<and> ledger_value M \<le> ledger_value L + unat tot \<and> unat tot \<le> amounts bs
    \<and> accumulated_fees_cil M = accumulated_fees_cil L"
  using assms
proof (induction bs arbitrary: L M tot msgs)
  case (Cons x bs)
  obtain a amount b where x: "x = (a, amount, b)" by (cases x)
  from Cons.prems(1) [unfolded x] show ?case
  proof (cases rule: apply_epoch_blocks_Cons)
    case (credited r L' tot' msgs')
    let ?N = "restore_supply True (remaining_supply (distribution L)) L'"
    have b: "blk_type b = Mint" "blk_amount b = amount" "mint_list bs" using Cons.prems(2) by (auto simp: x mint_list_Cons)
    have N: "ledger_inv ?N" "ledger_value ?N \<le> ledger_value L + unat amount"
        "accumulated_fees_cil ?N = accumulated_fees_cil L"
      using mint_restored [OF credited(1) b(1) Cons.prems(3)] Cons.prems(4) b(2) by (auto simp: x)
    have IH: "ledger_inv M" "ledger_value M \<le> ledger_value ?N + unat tot'" "unat tot' \<le> amounts bs"
        "accumulated_fees_cil M = accumulated_fees_cil ?N"
      using Cons.IH [OF credited(2) b(3) N(1)] Cons.prems(4) N(2) by (auto simp: x)
    have "unat tot = unat amount + unat tot'"
      using IH(3) Cons.prems(4) by (simp add: credited(3) x unat_add_exact)
    with N IH show ?thesis by (simp add: x)
  next
    case skipped
    with Cons.IH [OF skipped _ Cons.prems(3)] Cons.prems(2,4) show ?thesis by (simp add: x mint_list_Cons)
  qed
qed simp

text \<open>Signing keeps type and amount, so the prepared blocks are Mints over what was planned.\<close>

lemma sign_template_fields:
  assumes "sign_template ne b = Some b'"
  shows "blk_type b' = blk_type b \<and> blk_amount b' = blk_amount b"
  using assms solve_pow_fields(3,4) [of "ne_env ne" b]
  by (auto simp: sign_template_def Let_def compute_pow_inline_def solve_pow_def)

lemma sign_templates_ok:
  assumes "sign_templates ne ts = Some bs" "mint_list ts"
  shows "mint_list bs \<and> amounts bs \<le> amounts ts"
  using assms
proof (induction ne ts arbitrary: bs rule: sign_templates.induct)
  case (2 ne a amount b ts)
  then show ?case
    by (cases "sign_template ne b")
      (auto simp: mint_list_Cons dest: sign_template_fields split: if_splits intro: trans_le_add2)
qed (simp add: mint_list_def)

lemma epoch_template_mint: "mint_list (map (epoch_template ne now link L) rs)"
  by (auto simp: mint_list_def epoch_template_def split: prod.splits)

lemma epoch_template_amounts: "amounts (map (epoch_template ne now link L) rs) = sum_list (map (unat \<circ> snd) rs)"
  by (induction rs) (auto simp: epoch_template_def split: prod.splits)

text \<open>The fees handed out are at most the fees collected, rounding and overflow included.\<close>

lemma reward_share_le: "unat (reward_share budget tw w) \<le> unat budget * unat w div unat tw"
  by (auto simp: reward_share_def checked_mul_def unat_div unat_mult_exact split: option.splits)

lemma fee_shares_eq: "fee_shares (fees, ws, sum_list (map snd ws)) = epoch_rewards fees ws"
proof -
  have "option_or (checked_mul fees w) 0 div t = reward_share fees t w" for w t
    by (simp add: reward_share_def option_or_def split: option.splits)
  then show ?thesis
    by (simp add: fee_shares_def epoch_rewards_def Let_def word_gt_0 case_prod_beta cong: filter_cong)
qed

lemma shares_sum_le:
  assumes "weights_ok ws" "0 < sum_list (map snd ws)"
  shows "paid (epoch_rewards fees ws) \<le> unat fees"
proof -
  let ?W = "sum_list (map (unat \<circ> snd) ws)"
  have W: "0 < ?W" using assms(2) unat_total_weight [OF assms(1)] by (simp add: word_less_nat_alt)
  have "paid (epoch_rewards fees ws) = sum_list (map (\<lambda>x. unat (reward_share fees (sum_list (map snd ws)) (snd x))) ws)"
    unfolding epoch_rewards_def Let_def sum_list_filter_pos by (simp add: comp_def case_prod_beta)
  also have "\<dots> \<le> sum_list (map (\<lambda>x. unat fees * unat (snd x) div ?W) ws)"
    using reward_share_le unfolding unat_total_weight [OF assms(1), symmetric]
    by (intro sum_list_mono) auto
  also have "\<dots> = sum_list (map (\<lambda>w. unat fees * w div ?W) (map (unat \<circ> snd) ws))"
    by (simp add: comp_def case_prod_beta)
  also have "\<dots> \<le> unat fees * ?W div ?W" by (rule sum_floor_shares [OF W])
  finally show ?thesis using W by simp
qed

lemma weights_ok_fees:
  assumes "length (accounts L) < 2 ^ 64"
  shows "weights_ok (fee_eligible L)"
proof -
  have "length (fee_eligible L) \<le> length (accounts L)" by (simp add: fee_eligible_def)
  moreover have "unat w < 2 ^ 46" if w: "(a, w) \<in> set (fee_eligible L)" for a w
  proof -
    obtain s where "w = calculate_voting_power s" using w by (auto simp: fee_eligible_def)
    then show ?thesis using voting_power_bound [of s] by simp
  qed
  ultimately show ?thesis using assms unfolding weights_ok_def by fastforce
qed

lemma collected_shares:
  assumes "collect_fee_data L = Some fd" "length (accounts L) < 2 ^ 64"
  shows "paid (fee_shares fd) \<le> unat (accumulated_fees_cil L)"
  using assms shares_sum_le [OF weights_ok_fees]
  by (auto simp: collect_fee_data_def Let_def fee_shares_eq split: if_splits)

section \<open>The whole tick\<close>

text \<open>What the rest of the node may do between the phases: it keeps the invariant, creates no value and leaves
  the collected fees alone or adds to them.\<close>

definition fair_interference :: "(nat \<Rightarrow> ledger \<Rightarrow> ledger) \<Rightarrow> bool" where
  "fair_interference other \<longleftrightarrow>
     (\<forall>n L. sound_change L (other n L) \<and> accumulated_fees_cil L \<le> accumulated_fees_cil (other n L))"

lemma fair_interferenceD:
  assumes "fair_interference other" "ledger_inv L"
  shows "ledger_inv (other n L)" "ledger_value (other n L) \<le> ledger_value L"
    "accumulated_fees_cil L \<le> accumulated_fees_cil (other n L)"
  using assms by (auto simp: fair_interference_def sound_change_def)

lemma fair_at:
  assumes "fair_interference other"
  shows "sound_change L (other n L)" "accumulated_fees_cil L \<le> accumulated_fees_cil (other n L)"
  using assms by (auto simp: fair_interference_def)

lemma fees_le_value: "unat (accumulated_fees_cil L) \<le> ledger_value L"
  by (simp add: ledger_value_def)

lemma rewards_paid_sound:
  assumes "epoch_rewards_paid ge now other plan L = Some (M, msgs)"
    and "sound_change L (other L)" "accumulated_fees_cil L \<le> accumulated_fees_cil (other L)"
  shows "sound_change L M" "accumulated_fees_cil L \<le> accumulated_fees_cil M"
proof -
  have "sound_change L M \<and> accumulated_fees_cil L \<le> accumulated_fees_cil M"
  proof (cases "ep_rewards plan \<noteq> [] \<and> ep_is_leader plan")
    case True
    with assms(1) obtain ts bs tot where ts: "reward_templates (ge_node ge) now plan L = Some ts"
      and bs: "sign_templates (ge_node ge) ts = Some bs" "apply_epoch_blocks ge now False bs (other L) = Some (M, tot, msgs)"
      by (auto simp: epoch_rewards_paid_def apply_rewards_def bind_eq_Some_conv)
    have "mint_list ts"
      using ts by (auto simp: reward_templates_def Let_def epoch_template_mint split: if_splits)
    then have "sound_change (other L) M" "accumulated_fees_cil M = accumulated_fees_cil (other L)"
      using apply_rewards_sound [OF bs(2)] sign_templates_ok [OF bs(1)] by auto
    with assms(2,3) show ?thesis using sound_trans by metis
  qed (use assms in \<open>auto simp: epoch_rewards_paid_def sound_refl\<close>)
  then show "sound_change L M" "accumulated_fees_cil L \<le> accumulated_fees_cil M" by auto
qed

lemma fees_paid_sound:
  assumes run: "epoch_fees_paid ge now other plan L = Some (M, msgs)"
    and other: "sound_change L (other L)" "accumulated_fees_cil L \<le> accumulated_fees_cil (other L)"
    and shares: "\<And>fd. ep_fee_data plan = Some fd \<Longrightarrow> paid (fee_shares fd) \<le> unat (accumulated_fees_cil L)"
    and inv: "ledger_inv L" and cap: "2 * ledger_value L < 2 ^ 128"
  shows "ledger_inv M \<and> ledger_value M \<le> ledger_value L"
proof (cases "ep_is_leader plan \<and> ep_fee_data plan \<noteq> None")
  case True
  then obtain fd where fd: "ep_is_leader plan" "ep_fee_data plan = Some fd" by auto
  let ?ts = "fee_templates (ge_node ge) now (ep_completed_epoch plan) fd L"
  obtain bs N tot where bs: "sign_templates (ge_node ge) ?ts = Some bs"
    and N: "apply_epoch_blocks ge now True bs (other L) = Some (N, tot, msgs)"
    and M: "M = (if tot > 0 then N\<lparr>accumulated_fees_cil := saturating_sub (accumulated_fees_cil N) tot\<rparr> else N)"
    using run fd by (auto simp: epoch_fees_paid_def apply_fees_def bind_eq_Some_conv)
  have L': "ledger_inv (other L)" "ledger_value (other L) \<le> ledger_value L"
    using other(1) inv by (auto simp: sound_change_def)
  have ok: "mint_list bs" "amounts bs \<le> unat (accumulated_fees_cil L)"
    using sign_templates_ok [OF bs [unfolded fee_templates_def] epoch_template_mint] shares [OF fd(2)]
    unfolding epoch_template_amounts by auto
  have "ledger_value (other L) + amounts bs < 2 ^ 128" using L'(2) ok(2) fees_le_value [of L] cap by linarith
  then have n: "ledger_inv N" "ledger_value N \<le> ledger_value (other L) + unat tot" "unat tot \<le> amounts bs"
      "accumulated_fees_cil N = accumulated_fees_cil (other L)"
    using apply_fees_bound [OF N ok(1) L'(1)] by auto
  have "unat tot \<le> unat (accumulated_fees_cil N)"
    using n(3,4) ok(2) other(2) by (simp add: word_le_nat_alt)
  then have "ledger_value M + unat tot = ledger_value N"
    by (auto simp: M ledger_value_def balances_total_def in_flight_def unat_saturating_sub word_gt_0)
  moreover have "ledger_inv M" using n(1) calculation by (auto simp: M ledger_inv_def)
  ultimately show ?thesis using n(2) L'(2) by linarith
qed (use run inv in \<open>auto simp: epoch_fees_paid_def split: option.splits bool.splits\<close>)

lemma phase1_shares:
  assumes "epoch_phase1 ne now L p = Some (plan, p')" "ep_fee_data plan = Some fd" "length (accounts L) < 2 ^ 64"
  shows "paid (fee_shares fd) \<le> unat (accumulated_fees_cil L)"
  using assms collected_shares [of L fd]
  by (auto simp: epoch_phase1_def no_plan_def Let_def split: if_splits prod.splits)

lemma epoch_end_sound:
  assumes run: "epoch_end ge now other rn = Some rn'" and fair: "fair_interference other"
    and inv: "ledger_inv (rn_ledger rn)" and cap: "2 * ledger_value (rn_ledger rn) < 2 ^ 128"
    and len: "length (accounts (rn_ledger rn)) < 2 ^ 64"
  shows "ledger_inv (rn_ledger rn') \<and> ledger_value (rn_ledger rn') \<le> ledger_value (rn_ledger rn)"
proof -
  let ?L = "rn_ledger rn"
  obtain plan p L rmsgs M fmsgs where p: "epoch_phase1 (ge_node ge) now ?L (rn_pool rn) = Some (plan, p)"
    and r: "epoch_rewards_paid ge now (other 2) plan (other 1 ?L) = Some (L, rmsgs)"
    and f: "epoch_fees_paid ge now (other 4) plan (other 3 L) = Some (M, fmsgs)" and rn': "rn_ledger rn' = M"
    using run by (auto simp: epoch_end_def bind_eq_Some_conv)
  note o = fair_interferenceD [OF fair]
  have L: "ledger_inv L" "ledger_value L \<le> ledger_value ?L" "accumulated_fees_cil ?L \<le> accumulated_fees_cil L"
    using rewards_paid_sound [OF r fair_at [OF fair]] o [OF inv, of 1] by (auto simp: sound_change_def)
  have "paid (fee_shares fd) \<le> unat (accumulated_fees_cil (other 3 L))" if "ep_fee_data plan = Some fd" for fd
    using phase1_shares [OF p that len] L(3) o(3) [OF L(1), of 3] by (simp add: word_le_nat_alt)
  then have "ledger_inv M \<and> ledger_value M \<le> ledger_value (other 3 L)"
    using o [OF L(1), of 3] L(2) cap by (intro fees_paid_sound [OF f fair_at [OF fair]]) auto
  then show ?thesis using o(2) [OF L(1), of 3] L(2) rn' by simp
qed

lemma record_tick_frame: "rn_ledger (snd (record_tick ne now rn)) = rn_ledger rn"
  by (simp add: record_tick_def Let_def split: prod.splits)

lemma http_fallback_frame: "rn_ledger (snd (http_fallback ne proxy healthy now seen rn)) = rn_ledger rn"
  by (simp add: http_fallback_def apply_replies_def Let_def split: prod.splits)


section \<open>Counting heartbeats\<close>

lemma beat_once_eq:
  "beat_once a (seen, p) =
     (if a \<notin> seen \<and> bt_contains (rp_validators p) a then (insert a seen, record_heartbeat a p) else (seen, p))"
  by (simp add: beat_once_def record_heartbeat_once_def)

lemma fold_beat:
  assumes "fold beat_once as (seen, p) = (seen', p')"
  shows "bt_get (rp_validators p') a
      = (if a \<in> set as - seen then map_option beat (bt_get (rp_validators p) a) else bt_get (rp_validators p) a)
    \<and> (a \<in> seen' \<longleftrightarrow> a \<in> seen \<or> a \<in> set as \<and> bt_contains (rp_validators p) a)"
  using assms
proof (induction "as" arbitrary: seen p)
  case (Cons x as)
  show ?case
  proof (cases "x \<notin> seen \<and> bt_contains (rp_validators p) x")
    case True
    then have "fold beat_once as (insert x seen, record_heartbeat x p) = (seen', p')"
      using Cons.prems by (simp add: beat_once_eq)
    from Cons.IH [OF this] True show ?thesis
      by (cases "a = x") (simp_all add: record_heartbeat_def bt_contains_iff split: if_splits)
  next
    case False
    then have "fold beat_once as (seen, p) = (seen', p')" using Cons.prems by (simp add: beat_once_eq split: if_splits)
    from Cons.IH [OF this] False show ?thesis
      by (cases "a = x") (auto simp: bt_contains_iff)
  qed
qed auto

text \<open>Who is alive in a tick: this node, the wallets registered here, a peer seen in the window, or, when the
  health endpoints are asked, a validator whose endpoint answers.\<close>

definition alive_in_tick :: "node_env \<Rightarrow> bool \<Rightarrow> (string \<Rightarrow> bool) \<Rightarrow> u64 \<Rightarrow> reward_node \<Rightarrow> string \<Rightarrow> bool" where
  "alive_in_tick ne proxy healthy now rn a \<longleftrightarrow>
     a = ne_address ne \<or> a \<in> rn_local rn \<or> a \<in> set (recent_peers (ne_env ne) now (rn_live rn))
     \<or> (rn_ticks rn mod http_check_interval = 0 \<and> proxy
        \<and> (\<exists>onion. bt_get (rn_endpoints rn) a = Some onion \<and> healthy onion))"

lemma record_tick_counts:
  assumes "record_tick ne now rn = (seen, rn')" "finite (rn_local rn)"
  shows "bt_get (rp_validators (rn_pool rn')) a
      = (if a = ne_address ne \<or> a \<in> rn_local rn \<or> a \<in> set (recent_peers (ne_env ne) now (rn_live rn))
         then map_option beat else id) (bt_get (rp_validators (rn_pool rn)) a)"
    and "a \<in> seen \<longleftrightarrow> bt_contains (rp_validators (rn_pool rn)) a
      \<and> (a = ne_address ne \<or> a \<in> rn_local rn \<or> a \<in> set (recent_peers (ne_env ne) now (rn_live rn)))"
    and "rn_endpoints rn' = rn_endpoints rn" "rn_ticks rn' = rn_ticks rn"
proof -
  let ?as = "ne_address ne # sorted_list_of_set (rn_local rn) @ recent_peers (ne_env ne) now (rn_live rn)"
  obtain s p where f: "fold beat_once ?as ({}, rn_pool rn) = (s, p)" by fastforce
  have rn': "seen = s" "rn_pool rn' = p" "rn_endpoints rn' = rn_endpoints rn" "rn_ticks rn' = rn_ticks rn"
    using assms(1) unfolding record_tick_def Let_def f prod.case by auto
  show "bt_get (rp_validators (rn_pool rn')) a
      = (if a = ne_address ne \<or> a \<in> rn_local rn \<or> a \<in> set (recent_peers (ne_env ne) now (rn_live rn))
         then map_option beat else id) (bt_get (rp_validators (rn_pool rn)) a)"
    "a \<in> seen \<longleftrightarrow> bt_contains (rp_validators (rn_pool rn)) a
      \<and> (a = ne_address ne \<or> a \<in> rn_local rn \<or> a \<in> set (recent_peers (ne_env ne) now (rn_live rn)))"
    using fold_beat [OF f, of a] assms(2) by (auto simp: rn')
  show "rn_endpoints rn' = rn_endpoints rn" "rn_ticks rn' = rn_ticks rn" by (fact rn')+
qed

lemma endpoints_to_check_iff:
  "(a, onion) \<in> set (endpoints_to_check me seen rn) \<longleftrightarrow>
     bt_contains (rp_validators (rn_pool rn)) a \<and> a \<notin> seen \<and> a \<noteq> me \<and> bt_get (rn_endpoints rn) a = Some onion"
  using bt_keys_iff [of a "rp_validators (rn_pool rn)"]
  by (auto simp: endpoints_to_check_def bt_contains_iff bt_keys_def split: option.splits)

text \<open>Heartbeats are counted once. In one tick the count of a registered validator goes up by exactly one
  if it is alive by any of the sources, however many report it, and stays as it is otherwise; nobody else is
  counted.\<close>

theorem tick_counts_once:
  assumes "record_tick ne now rn = (seen, rn1)" and "http_fallback ne proxy healthy now seen rn1 = (seen', rn2)"
    and "finite (rn_local rn)"
  shows "bt_get (rp_validators (rn_pool rn2)) a
    = (if alive_in_tick ne proxy healthy now rn a then map_option beat (bt_get (rp_validators (rn_pool rn)) a)
       else bt_get (rp_validators (rn_pool rn)) a)"
proof -
  note r = record_tick_counts(1,2) [OF assms(1,3), of a] record_tick_counts(3,4) [OF assms(1,3)]
  let ?me = "ne_address ne" and ?seen = "a = ne_address ne \<or> a \<in> rn_local rn \<or> a \<in> set (recent_peers (ne_env ne) now (rn_live rn))"
  show ?thesis
  proof (cases "rn_ticks rn mod http_check_interval = 0 \<and> proxy")
    case True
    let ?replies = "map (\<lambda>(a, onion). (a, healthy onion)) (endpoints_to_check ?me seen rn1)"
    let ?alive = "map fst (filter snd ?replies)"
    obtain s p where f: "fold beat_once ?alive (seen, rn_pool rn1) = (s, p)" by fastforce
    have p: "rn_pool rn2 = p"
      using assms(2) True r(4) f by (auto simp: http_fallback_def apply_replies_def Let_def)
    have "a \<in> set ?alive \<longleftrightarrow> (\<exists>onion. (a, onion) \<in> set (endpoints_to_check ?me seen rn1) \<and> healthy onion)"
      by force
    then have alive: "a \<in> set ?alive \<longleftrightarrow> bt_contains (rp_validators (rn_pool rn1)) a \<and> a \<notin> seen \<and> a \<noteq> ?me
        \<and> (\<exists>onion. bt_get (rn_endpoints rn) a = Some onion \<and> healthy onion)"
      unfolding endpoints_to_check_iff r(3) by blast
    have new: "bt_get (rp_validators p) a = (if a \<in> set ?alive - seen
        then map_option beat (bt_get (rp_validators (rn_pool rn1)) a) else bt_get (rp_validators (rn_pool rn1)) a)"
      using fold_beat [OF f, of a] by blast
    show ?thesis
    proof (cases ?seen)
      case seen: True
      then have "a \<notin> set ?alive" using alive r(1,2) by (auto simp: bt_contains_iff)
      moreover have "alive_in_tick ne proxy healthy now rn a" using seen by (auto simp: alive_in_tick_def)
      ultimately show ?thesis using new r(1) seen by (simp add: p)
    next
      case False
      then have "a \<notin> seen" "bt_get (rp_validators (rn_pool rn1)) a = bt_get (rp_validators (rn_pool rn)) a" using r(1,2) by auto
      with new alive False True show ?thesis
        by (cases "bt_get (rp_validators (rn_pool rn)) a") (auto simp: p alive_in_tick_def bt_contains_iff)
    qed
  next
    case False
    then have "rn2 = rn1" using assms(2) r(4) by (auto simp: http_fallback_def)
    then show ?thesis using r(1) False by (auto simp: alive_in_tick_def)
  qed
qed

section \<open>Leaders\<close>


section \<open>A heartbeat from one node to another\<close>

lemma at_separator:
  assumes "c \<notin> set a"
  shows "before_char c (a @ c # s) = a" "after_char c (a @ c # s) = s"
  using assms by (induction a) (auto simp: before_char_def after_char_def)

lemma colon_not_number: "CHR '':'' \<notin> set (uint_to_string w)"
  by (simp add: uint_to_string_def colon_not_digit)

text \<open>What is used of the third-party code on the way: hexadecimal text can be read back and has no colon, and a
  signature made with the key of a node verifies under it.\<close>

definition honest_signer :: "node_env \<Rightarrow> bool" where
  "honest_signer ne \<longleftrightarrow>
     (\<forall>x. hex_decode (ne_env ne) (hex_encode (ne_env ne) x) = Some x)
     \<and> CHR '':'' \<notin> set (hex_encode (ne_env ne) (ne_public_key ne))
     \<and> (\<forall>m. \<exists>sig. ne_sign ne m = Some sig \<and> crypto_verify_signature (ne_env ne) m sig (ne_public_key ne))
     \<and> ne_address ne = public_key_to_address (ne_env ne) (ne_public_key ne)
     \<and> validate_address (ne_env ne) (ne_address ne) \<and> CHR '':'' \<notin> set (ne_address ne)"

lemma honest_signerD:
  assumes "honest_signer ne"
  shows "CHR '':'' \<notin> set (ne_address ne)" "CHR '':'' \<notin> set (hex_encode (ne_env ne) (ne_public_key ne))"
    "validate_address (ne_env ne) (ne_address ne)"
  using assms unfolding honest_signer_def by blast+

lemma announce_signed:
  assumes "honest_signer ne"
  obtains sig where "announce ne text = [colon_join [text, hex_encode (ne_env ne) (ne_public_key ne), sig]]"
    "signed_by (ne_env ne) (ne_address ne) text (hex_encode (ne_env ne) (ne_public_key ne)) sig"
proof -
  obtain sig where "ne_sign ne (as_bytes text) = Some sig"
      "crypto_verify_signature (ne_env ne) (as_bytes text) sig (ne_public_key ne)"
    using assms unfolding honest_signer_def by blast
  then show thesis
    using assms by (intro that [of "hex_encode (ne_env ne) sig"])
      (simp_all add: announce_def try_sign_hex_def signed_by_def honest_signer_def)
qed

lemma heartbeat_received:
  assumes "honest_signer ne" "ne_env ne' = ne_env ne" "ne_address ne \<noteq> ne_address ne'"
    and "bt_contains (rp_validators (rn_pool rn)) (ne_address ne)" "fresh_heartbeat (ne_env ne) (ck_secs ck) now"
  obtains rest more where "heartbeat_messages ne now wallets = (''VALIDATOR_HEARTBEAT:'' @ rest) # more"
    "handle_heartbeat ne' ck rest rn = mark_live (ne_address ne) (ck_secs ck) rn"
proof -
  let ?pk = "hex_encode (ne_env ne) (ne_public_key ne)" and ?a = "ne_address ne"
  obtain sig where sig: "announce ne (heartbeat_text ?a now) = [colon_join [heartbeat_text ?a now, ?pk, sig]]"
      "signed_by (ne_env ne) ?a (heartbeat_text ?a now) ?pk sig"
    by (rule announce_signed [OF assms(1)])
  let ?rest = "colon_join [?a, uint_to_string now, ?pk, sig]"
  have parts: "str_splitn 4 (CHR '':'') ?rest = [?a, uint_to_string now, ?pk, sig]"
    by (simp add: honest_signerD [OF assms(1)] colon_not_number at_separator numeral_eq_Suc)
  have "handle_heartbeat ne' ck ?rest rn = mark_live ?a (ck_secs ck) rn"
    unfolding handle_heartbeat_def Let_def parts
    using assms(2-5) sig(2) by (simp add: honest_signerD [OF assms(1)] parse_uint_to_string)
  moreover have "heartbeat_messages ne now wallets = (''VALIDATOR_HEARTBEAT:'' @ ?rest)
      # tl (heartbeat_messages ne now wallets)"
    unfolding heartbeat_messages_def sig(1) by (simp add: heartbeat_text_def)
  ultimately show thesis by (rule that [rotated])
qed

lemma marked_is_recent:
  assumes "bt_ok (rn_live rn)" "saturating_sub tick (liveness_window env) \<le> seen_at"
  shows "a \<in> set (recent_peers env tick (rn_live (mark_live a seen_at rn)))"
proof -
  have "(a, seen_at) \<in> set (bt_insert a seen_at (rn_live rn))"
    using bt_entries_get [of "bt_insert a seen_at (rn_live rn)" a seen_at] assms(1) by simp
  with assms(2) show ?thesis by (force simp: recent_peers_def mark_live_def)
qed

text \<open>Liveness reaches the reward pool. A node announces itself, a peer that has it registered receives
  the message while it is fresh, and the next tick of the peer within the window counts one heartbeat for it.\<close>

theorem heartbeat_is_credited:
  assumes "honest_signer ne" "ne_env ne' = ne_env ne" "ne_address ne \<noteq> ne_address ne'"
    and "bt_get (rp_validators (rn_pool rn)) (ne_address ne) = Some v" "bt_ok (rn_live rn)" "finite (rn_local rn)"
    and "abs_diff (ck_secs ck) now \<le> heartbeat_secs (ne_env ne) * 2"
    and "saturating_sub tick (heartbeat_secs (ne_env ne) * 2) \<le> ck_secs ck"
  shows "\<exists>rest more. heartbeat_messages ne now wallets = (''VALIDATOR_HEARTBEAT:'' @ rest) # more
    \<and> bt_get (rp_validators (rn_pool (snd (record_tick ne' tick (handle_heartbeat ne' ck rest rn))))) (ne_address ne)
        = Some (beat v)"
proof -
  have reg: "bt_contains (rp_validators (rn_pool rn)) (ne_address ne)" using assms(4) by (simp add: bt_contains_iff)
  have fresh: "fresh_heartbeat (ne_env ne) (ck_secs ck) now" using assms(7) by (simp add: fresh_heartbeat_def)
  obtain rest more where m: "heartbeat_messages ne now wallets = (''VALIDATOR_HEARTBEAT:'' @ rest) # more"
    "handle_heartbeat ne' ck rest rn = mark_live (ne_address ne) (ck_secs ck) rn"
    using heartbeat_received [OF assms(1-3) reg fresh] by blast
  let ?rn = "mark_live (ne_address ne) (ck_secs ck) rn"
  have "ne_address ne \<in> set (recent_peers (ne_env ne') tick (rn_live ?rn))"
    using assms(2,8) by (intro marked_is_recent [OF assms(5)]) (simp add: liveness_window_def)
  moreover obtain s rn1 where "record_tick ne' tick ?rn = (s, rn1)" by fastforce
  ultimately have "bt_get (rp_validators (rn_pool (snd (record_tick ne' tick ?rn)))) (ne_address ne) = Some (beat v)"
    using record_tick_counts(1) [of ne' tick ?rn s rn1 "ne_address ne"] assms(4,6) by (simp add: mark_live_def)
  with m show ?thesis by auto
qed

text \<open>A heartbeat needs no validator to vouch. Any key, whether or not its address is known to anybody,
  signs the proxy message for any registered validator, and the receiving node counts that validator as alive,
  although the format is described as a node with a validator's standing speaking for a wallet.\<close>

theorem stranger_vouches_for_validator:
  assumes "honest_signer ne" "ne_env ne' = ne_env ne" "w \<noteq> ne_address ne'"
    and "validate_address (ne_env ne) w" "CHR '':'' \<notin> set w"
    and "bt_get (rp_validators (rn_pool rn)) w = Some v" "bt_ok (rn_live rn)" "finite (rn_local rn)"
    and "bt_get (rp_validators (rn_pool rn)) (ne_address ne) = None"
  shows "\<exists>rest. announce ne (proxy_text w (ne_address ne) (ck_secs ck)) = [''VALIDATOR_HEARTBEAT_PROXY:'' @ rest]
    \<and> bt_get (rp_validators (rn_pool (snd (record_tick ne' (ck_secs ck) (handle_heartbeat_proxy ne' ck rest rn))))) w
        = Some (beat v)"
proof -
  let ?pk = "hex_encode (ne_env ne) (ne_public_key ne)" and ?a = "ne_address ne" and ?now = "ck_secs ck"
  obtain sig where sig: "announce ne (proxy_text w ?a ?now) = [colon_join [proxy_text w ?a ?now, ?pk, sig]]"
      "signed_by (ne_env ne) ?a (proxy_text w ?a ?now) ?pk sig"
    by (rule announce_signed [OF assms(1)])
  let ?rest = "colon_join [w, ?a, uint_to_string ?now, ?pk, sig]"
  have parts: "str_splitn 5 (CHR '':'') ?rest = [w, ?a, uint_to_string ?now, ?pk, sig]"
    by (simp add: honest_signerD [OF assms(1)] assms(5) colon_not_number at_separator numeral_eq_Suc)
  have "handle_heartbeat_proxy ne' ck ?rest rn = mark_live w ?now rn"
    unfolding handle_heartbeat_proxy_def Let_def parts
    using assms(2-6) sig(2)
    by (simp add: honest_signerD [OF assms(1)] parse_uint_to_string fresh_heartbeat_def abs_diff_def bt_contains_iff)
  moreover have "w \<in> set (recent_peers (ne_env ne') ?now (rn_live (mark_live w ?now rn)))"
    by (rule marked_is_recent [OF assms(7)]) (simp add: word_le_nat_alt unat_saturating_sub)
  moreover obtain s rn1 where "record_tick ne' ?now (mark_live w ?now rn) = (s, rn1)" by fastforce
  ultimately have "bt_get (rp_validators (rn_pool (snd (record_tick ne' ?now (handle_heartbeat_proxy ne' ck ?rest rn))))) w
      = Some (beat v)"
    using record_tick_counts(1) [of ne' ?now "mark_live w ?now rn" s rn1 w] assms(6,8) by (simp add: mark_live_def)
  moreover have "announce ne (proxy_text w ?a ?now) = [''VALIDATOR_HEARTBEAT_PROXY:'' @ ?rest]"
    unfolding sig(1) by (simp add: proxy_text_def)
  ultimately show ?thesis by blast
qed

section \<open>An example epoch\<close>

text \<open>One validator, this node, leads. The pool is empty and a thousand CIL of fees are collected.\<close>

definition tick_env :: los_env where
  "tick_env = (plain_env True)
     \<lparr>keccak256 := (\<lambda>b. [0, 0, 1, 1, 1, 1, 1, 1, 1, 1, 1, of_nat (length b)]), bs58_encode := (\<lambda>_. ''N'')\<rparr>"

definition tick_gossip :: gossip_env where
  "tick_gossip =
     \<lparr>ge_node = demo_node_env tick_env (\<lambda>_. None), ge_block_to_json = (\<lambda>_. ''block''), ge_block_of_json = (\<lambda>_. None)\<rparr>"

definition tick_clock :: clock where
  "tick_clock = \<lparr>ck_secs = 3000000, ck_millis = 0, ck_instant = 0\<rparr>"

definition tick_account :: account_state where
  "tick_account = \<lparr>acc_head = ''0'', acc_balance = 400000000000000, acc_block_count = 0, acc_is_validator = True\<rparr>"

definition tick_ledger :: ledger where
  "tick_ledger =
     \<lparr>accounts = [(''LOSN'', tick_account)], blocks = [],
      distribution = \<lparr>remaining_supply = 5000, total_burned_usd = 0\<rparr>, claimed_sends = {}, accumulated_fees_cil = 1000\<rparr>"

definition tick_pool :: reward_pool where
  "tick_pool = (reward_pool_with_balance tick_env 0 0)\<lparr>rp_validators := [(''LOSN'', reward_state_new 0 True 0)]\<rparr>"

definition tick_node :: reward_node where
  "tick_node =
     \<lparr>rn_pool = tick_pool, rn_ledger = tick_ledger, rn_local = {}, rn_live = [], rn_endpoints = [], rn_ticks = 0,
      rn_outbox = []\<rparr>"

lemma tick_env_simps [simp]:
  "hex_encode tick_env b = map (\<lambda>w. char_of (unat w)) b" "hex_decode tick_env s = Some (as_bytes s)"
  "keccak256 tick_env b = [0, 0, 1, 1, 1, 1, 1, 1, 1, 1, 1, of_nat (length b)]" "mainnet_feature tick_env = True"
  "dilithium_pk_valid tick_env b" "dilithium_sig_valid tick_env b" "dilithium_verify tick_env b c d"
  "public_key_to_address tick_env b = ''LOSN''"
  by (simp_all add: tick_env_def plain_env_def public_key_to_address_def Let_def)

lemma tick_gossip_simps [simp]:
  "ge_node tick_gossip = demo_node_env tick_env (\<lambda>_. None)" "ge_block_to_json tick_gossip b = ''block''"
  by (simp_all add: tick_gossip_def)

lemma demo_node_env_simps [simp]:
  "ne_env (demo_node_env env f) = env" "ne_address (demo_node_env env f) = ''LOSN''"
  "ne_public_key (demo_node_env env f) = [1]" "ne_sign (demo_node_env env f) m = Some [1]"
  by (simp_all add: demo_node_env_def)

lemma tick_pow: "verify_pow tick_env b"
proof -
  have "hex_decode tick_env (signing_hash tick_env b)
      = Some [0, 0, 1, 1, 1, 1, 1, 1, 1, 1, 1, of_nat (length (signing_bytes tick_env b))]"
    by (simp only: tick_env_simps signing_hash_def as_bytes_char_of)
  then show ?thesis
    by (simp add: verify_pow_def MIN_POW_DIFFICULTY_BITS_def u8_leading_zeros_def upt_rec)
qed

lemma tick_hash_printable: "str_slice_to (calculate_hash tick_env b) 12 \<noteq> None"
  by (simp add: calculate_hash_def signing_hash_def str_slice_to_def is_char_boundary_def)

definition fee_block :: block where
  "fee_block =
     \<lparr>blk_account = ''LOSN'', blk_previous = ''0'', blk_type = Mint, blk_amount = 1000, blk_link = ''FEE_REWARD:EPOCH:0'',
      blk_signature = [CHR 0x01], blk_public_key = [CHR 0x01], blk_work = 0, blk_timestamp = 3000000, blk_fee = 0\<rparr>"

definition tick_ledger_after :: ledger where
  "tick_ledger_after =
     \<lparr>accounts = [(''LOSN'', tick_account\<lparr>acc_head := calculate_hash tick_env fee_block,
                              acc_balance := 400000000001000, acc_block_count := 1\<rparr>)],
      blocks = [(calculate_hash tick_env fee_block, fee_block)],
      distribution = \<lparr>remaining_supply = 4000, total_burned_usd = 0\<rparr>, claimed_sends = {}, accumulated_fees_cil = 1000\<rparr>"

lemma tick_fees: "\<exists>w. collect_fee_data tick_ledger = Some (1000, [(''LOSN'', w)], w) \<and> fee_shares (1000, [(''LOSN'', w)], w) = [(''LOSN'', 1000)]"
proof -
  let ?w = "calculate_voting_power 400000000000000"
  have "(400000000000000 :: nat) < (unat ?w + 1) ^ 2"
    using voting_power_sq(2) [of 400000000000000] by (simp add: MIN_STAKE_CIL_def CIL_PER_LOS_def)
  then have w: "?w \<noteq> 0" by (cases "?w = 0") auto
  have "unat (1000 :: u128) * unat ?w < 2 ^ 128" using voting_power_bound [of 400000000000000] by simp
  then have "checked_mul 1000 ?w = Some (1000 * ?w)" "unat (1000 * ?w) = 1000 * unat ?w"
    by (simp_all add: checked_mul_def unat_mult_exact)
  moreover have "(1000 * ?w) div ?w = 1000"
    using w calculation(2) by (simp add: word_unat_eq_iff unat_div)
  ultimately have "fee_shares (1000, [(''LOSN'', ?w)], ?w) = [(''LOSN'', 1000)]"
    by (simp add: fee_shares_def option_or_def)
  moreover have "collect_fee_data tick_ledger = Some (1000, [(''LOSN'', ?w)], ?w)"
    using w by (simp add: collect_fee_data_def fee_eligible_def tick_ledger_def tick_account_def ledger_constants word_gt_0 Let_def)
  ultimately show ?thesis by blast
qed

lemma tick_fee_block:
  "process_block tick_env 3000000 fee_block tick_ledger = (Ok (Applied (calculate_hash tick_env fee_block)), tick_ledger_after)"
proof -
  have "verify_signature tick_env fee_block"
    by (simp add: fee_block_def verify_signature_def crypto_verify_signature_def verify_dilithium5_def)
  moreover have "burned_usd_of_link ''FEE_REWARD:EPOCH:0'' = None"
    by (simp add: burned_usd_of_link_def)
  ultimately show ?thesis
    by (simp add: block_run_defs tick_pow fee_block_def tick_ledger_def tick_ledger_after_def tick_account_def
        saturating_add_def saturating_sub_def checked_add_def checked_sub_def)
qed

lemma tick_fees_paid:
  assumes "ep_is_leader plan" "ep_completed_epoch plan = 0" "ep_fee_data plan = collect_fee_data tick_ledger"
  shows "epoch_fees_paid tick_gossip 3000000 (\<lambda>L. L) plan tick_ledger =
    Some (tick_ledger_after\<lparr>distribution := distribution tick_ledger, accumulated_fees_cil := 0\<rparr>, [''block''])"
proof -
  obtain w where w: "collect_fee_data tick_ledger = Some (1000, [(''LOSN'', w)], w)"
      "fee_shares (1000, [(''LOSN'', w)], w) = [(''LOSN'', 1000)]"
    using tick_fees by blast
  have "sign_template (ge_node tick_gossip) (fee_block\<lparr>blk_signature := []\<rparr>) = Some fee_block"
    by (simp add: sign_template_def compute_pow_inline_def pow_search.simps [of tick_env _ 0] tick_pow try_sign_hex_def
        fee_block_def char_of_def bit_0)
  moreover have "fee_templates (ge_node tick_gossip) 3000000 0 (1000, [(''LOSN'', w)], w) tick_ledger
      = [(''LOSN'', 1000, fee_block\<lparr>blk_signature := []\<rparr>)]"
    unfolding fee_templates_def w(2)
    by (simp add: epoch_template_def tick_ledger_def tick_account_def account_or_default_def fee_block_def char_of_def bit_0
        uint_to_string_def nat_to_string.simps [of 0] digit_char_def)
  moreover have "\<not> stale_block tick_ledger ''LOSN'' fee_block" "printable [''LOSN'']"
    by (simp_all add: stale_block_def tick_ledger_def tick_account_def fee_block_def printable_def get_short_addr_def)
  moreover have "accumulated_fees_cil tick_ledger_after = 1000"
      "(distribution tick_ledger_after)\<lparr>remaining_supply := remaining_supply (distribution tick_ledger)\<rparr> = distribution tick_ledger"
    by (simp_all add: tick_ledger_after_def tick_ledger_def)
  ultimately show ?thesis
    using assms w(1) tick_hash_printable [of fee_block]
    by (simp add: epoch_fees_paid_def apply_fees_def tick_fee_block restore_supply_def saturating_sub_def checked_sub_def)
qed

lemma tick_plan:
  "\<exists>plan p. epoch_phase1 (ge_node tick_gossip) 3000000 tick_ledger (record_heartbeat ''LOSN'' tick_pool) = Some (plan, p)
     \<and> ep_rewards plan = [] \<and> ep_is_leader plan \<and> ep_completed_epoch plan = 0
     \<and> ep_fee_data plan = collect_fee_data tick_ledger"
proof -
  let ?p = "record_heartbeat ''LOSN'' tick_pool"
  have p: "rp_current_epoch ?p = 0" "rp_epoch_start_timestamp ?p = 0" "rp_epoch_duration_secs ?p = 2592000"
      "rp_remaining_cil ?p = 0" "map fst (rp_validators ?p) = [''LOSN'']"
    by (simp_all add: record_heartbeat_def tick_pool_def reward_pool_with_balance_def bt_modify_def
        effective_reward_epoch_secs_def is_testnet_build_def CHAIN_ID_def REWARD_EPOCH_SECS_def)
  have frame: "rp_current_epoch (set_expected_heartbeats h q) = rp_current_epoch q"
      "rp_remaining_cil (set_expected_heartbeats h q) = rp_remaining_cil q"
      "rp_current_epoch (refresh_stakes L q) = rp_current_epoch q"
      "rp_remaining_cil (refresh_stakes L q) = rp_remaining_cil q" for h q L
  proof -
    have "rp_current_epoch (fold (\<lambda>a p. case bt_get (accounts L) a of Some st \<Rightarrow> rp_update_stake a (acc_balance st) p | None \<Rightarrow> p) as q)
          = rp_current_epoch q
        \<and> rp_remaining_cil (fold (\<lambda>a p. case bt_get (accounts L) a of Some st \<Rightarrow> rp_update_stake a (acc_balance st) p | None \<Rightarrow> p) as q)
          = rp_remaining_cil q" for "as"
      by (induction "as" arbitrary: q) (auto simp: rp_update_stake_def split: option.splits)
    then show "rp_current_epoch (refresh_stakes L q) = rp_current_epoch q"
      "rp_remaining_cil (refresh_stakes L q) = rp_remaining_cil q" by (simp_all add: refresh_stakes_def)
  qed (simp_all add: set_expected_heartbeats_def Let_def)
  have "is_epoch_complete ?p 3000000" "epoch_leader ?p = Some ''LOSN''"
    by (simp_all add: is_epoch_complete_def epoch_leader_def p)
  moreover have "distribute_epoch_rewards (refresh_stakes tick_ledger (set_expected_heartbeats h ?p))
      = ([], advance_epoch (refresh_stakes tick_ledger (set_expected_heartbeats h ?p)))" for h
    by (simp add: distribute_epoch_rewards_def frame p)
  ultimately show ?thesis
    by (simp add: epoch_phase1_def Let_def frame p saturating_sub_def checked_sub_def)
qed

lemma tick_run:
  "\<exists>rn'. reward_tick tick_gossip tick_clock False (\<lambda>_. False) (\<lambda>_ L. L) tick_node = Some rn'
     \<and> rn_ledger rn' = tick_ledger_after\<lparr>distribution := distribution tick_ledger, accumulated_fees_cil := 0\<rparr>"
proof -
  obtain plan p where plan: "epoch_phase1 (ge_node tick_gossip) 3000000 tick_ledger (record_heartbeat ''LOSN'' tick_pool) = Some (plan, p)"
      "ep_rewards plan = []" "ep_is_leader plan" "ep_completed_epoch plan = 0" "ep_fee_data plan = collect_fee_data tick_ledger"
    using tick_plan by blast
  have reg: "bt_contains (rp_validators tick_pool) ''LOSN''"
    by (simp add: tick_pool_def reward_pool_with_balance_def bt_contains_iff)
  show ?thesis
    using plan tick_fees_paid [OF plan(3-5)] reg
    by (simp add: reward_tick_def record_tick_def http_fallback_def tick_clock_def tick_node_def recent_peers_def
        evict_stale_def beat_once_eq epoch_end_def epoch_rewards_paid_def)
qed

text \<open>The leader takes fee rewards out of the collected fees and puts the supply back; a peer that applies the same
  block by gossip takes it out of the supply and keeps the fees, which it pays out again when it leads.\<close>

lemma fee_reward_diverges:
  "\<exists>rn'. reward_tick tick_gossip tick_clock False (\<lambda>_. False) (\<lambda>_ L. L) tick_node = Some rn'
     \<and> accumulated_fees_cil (rn_ledger rn') = 0 \<and> remaining_supply (distribution (rn_ledger rn')) = 5000
     \<and> bt_values (blocks (rn_ledger rn')) = [fee_block]
     \<and> (\<exists>F. process_block tick_env 3000000 fee_block tick_ledger = (Ok (Applied (calculate_hash tick_env fee_block)), F)
          \<and> accumulated_fees_cil F = 1000 \<and> remaining_supply (distribution F) = 4000)"
proof -
  obtain rn' where "reward_tick tick_gossip tick_clock False (\<lambda>_. False) (\<lambda>_ L. L) tick_node = Some rn'"
      "rn_ledger rn' = tick_ledger_after\<lparr>distribution := distribution tick_ledger, accumulated_fees_cil := 0\<rparr>"
    using tick_run by blast
  then show ?thesis
    by (simp add: tick_fee_block) (simp add: tick_ledger_def tick_ledger_after_def bt_values_def)
qed


definition duo_node :: reward_node where
  "duo_node = tick_node\<lparr>rn_live := [(''LOSN'', 3000000)], rn_local := {''LOSN''}\<rparr>"

theorem tick_counts_once_witness:
  "\<exists>seen rn1 seen' rn2. record_tick (ge_node tick_gossip) 3000000 duo_node = (seen, rn1)
     \<and> http_fallback (ge_node tick_gossip) True (\<lambda>_. True) 3000000 seen rn1 = (seen', rn2)
     \<and> bt_get (rp_validators (rn_pool rn2)) ''LOSN'' = Some (beat (reward_state_new 0 True 0))"
proof -
  obtain seen rn1 where 1: "record_tick (ge_node tick_gossip) 3000000 duo_node = (seen, rn1)" by fastforce
  obtain seen' rn2 where 2: "http_fallback (ge_node tick_gossip) True (\<lambda>_. True) 3000000 seen rn1 = (seen', rn2)" by fastforce
  have "bt_get (rp_validators (rn_pool rn2)) ''LOSN'' = Some (beat (reward_state_new 0 True 0))"
    using tick_counts_once [OF 1 2, of "''LOSN''"]
    by (simp add: duo_node_def tick_node_def alive_in_tick_def tick_pool_def reward_pool_with_balance_def)
  with 1 2 show ?thesis by blast
qed

definition duo_pool :: reward_pool where
  "duo_pool = tick_pool\<lparr>rp_validators := [(''A'', reward_state_new 0 True 0), (''B'', reward_state_new 0 True 0)], rp_current_epoch := 7\<rparr>"


text \<open>A node with the key 1 and a validator with the key 2, in an environment where bytes are their own text.\<close>

definition key_env :: "u8 \<Rightarrow> node_env" where
  "key_env k = (demo_node_env (plain_env True) (\<lambda>_. None))
     \<lparr>ne_address := public_key_to_address (plain_env True) [k], ne_public_key := [k]\<rparr>"

lemma key_address:
  "public_key_to_address (plain_env True) [k]
     = ''LOS'' @ map (\<lambda>w. char_of (unat w)) (version_byte # k # replicate 19 0 @ [version_byte, k, 0, 0])"
  by (simp add: public_key_to_address_def plain_env_def address_checksum_def Let_def min_def take_Cons' numeral_2_eq_2)

lemma key_address_valid: "validate_address (plain_env True) (public_key_to_address (plain_env True) [k])"
proof -
  have "as_bytes (map (\<lambda>w. char_of (unat w)) b) = b" for b :: bytes by (rule as_bytes_char_of)
  then show ?thesis
    unfolding key_address
    by (simp add: validate_address_def starts_with_def plain_env_def address_checksum_def Let_def min_def take_Cons'
        drop_Cons' numeral_2_eq_2 del: list.map replicate.simps)
      simp
qed

lemma key_address_colon:
  "CHR '':'' \<notin> set (public_key_to_address (plain_env True) [1])" "CHR '':'' \<notin> set (public_key_to_address (plain_env True) [2])"
  by (simp_all add: key_address version_byte_def char_of_def bit_0)

lemma key_env_simps [simp]:
  "ne_env (key_env k) = plain_env True" "ne_address (key_env k) = public_key_to_address (plain_env True) [k]"
  "ne_public_key (key_env k) = [k]" "ne_sign (key_env k) m = Some [1]"
  by (simp_all add: key_env_def demo_node_env_def)

lemma key_honest: "honest_signer (key_env 1)"
proof -
  have "hex_decode (plain_env True) (hex_encode (plain_env True) x) = Some x" for x
    by (simp add: plain_env_def as_bytes_char_of)
  moreover have "CHR '':'' \<notin> set (hex_encode (plain_env True) [1])" by (simp add: plain_env_def char_of_def bit_0)
  moreover have "crypto_verify_signature (plain_env True) m [1] [1]" for m
    by (simp add: crypto_verify_signature_def verify_dilithium5_def plain_env_def)
  ultimately show ?thesis by (simp add: honest_signer_def key_address_valid key_address_colon)
qed

definition key_node :: "u8 \<Rightarrow> reward_node" where
  "key_node k = tick_node\<lparr>rn_pool := tick_pool\<lparr>rp_validators := [(public_key_to_address (plain_env True) [k], reward_state_new 0 True 0)]\<rparr>\<rparr>"

lemma key_node_simps [simp]:
  "rp_validators (rn_pool (key_node k)) = [(public_key_to_address (plain_env True) [k], reward_state_new 0 True 0)]"
  "rn_live (key_node k) = []" "rn_local (key_node k) = {}"
  by (simp_all add: key_node_def tick_node_def)

definition watcher_env :: node_env where
  "watcher_env = (key_env 3)\<lparr>ne_address := ''LOSW''\<rparr>"

lemma watcher_simps [simp]: "ne_env watcher_env = plain_env True" "ne_address watcher_env = ''LOSW''"
  by (simp_all add: watcher_env_def)

lemma key_address_not_watcher: "public_key_to_address (plain_env True) [k] \<noteq> ''LOSW''"
  by (simp add: key_address)

theorem heartbeat_is_credited_witness:
  "\<exists>rest more. heartbeat_messages (key_env 1) 3000000 {} = (''VALIDATOR_HEARTBEAT:'' @ rest) # more
    \<and> bt_get (rp_validators (rn_pool (snd (record_tick watcher_env 3000000 (handle_heartbeat watcher_env tick_clock rest (key_node 1))))))
        (public_key_to_address (plain_env True) [1]) = Some (beat (reward_state_new 0 True 0))"
  using heartbeat_is_credited [OF key_honest, of watcher_env "key_node 1" "reward_state_new 0 True 0" tick_clock 3000000 3000000 "{}"]
    key_address_not_watcher
  by (simp add: tick_clock_def abs_diff_def word_le_nat_alt unat_saturating_sub)

theorem stranger_vouches_for_validator_witness:
  "\<exists>rest. announce (key_env 1) (proxy_text (public_key_to_address (plain_env True) [2]) (ne_address (key_env 1)) (ck_secs tick_clock))
        = [''VALIDATOR_HEARTBEAT_PROXY:'' @ rest]
    \<and> bt_get (rp_validators (rn_pool (snd (record_tick watcher_env (ck_secs tick_clock)
          (handle_heartbeat_proxy watcher_env tick_clock rest (key_node 2)))))) (public_key_to_address (plain_env True) [2])
        = Some (beat (reward_state_new 0 True 0))"
  by (rule stranger_vouches_for_validator [OF key_honest])
    (simp_all add: key_address_not_watcher key_address_valid key_address_colon, simp add: key_address char_of_def bit_0)

end
