(* ===== verification/Node_Sync.thy ===== *)
theory Node_Sync
  imports Node_Gossip_Safety Rewards
begin

text \<open>
  How nodes exchange their state (\<open>los-node/src/main.rs\<close>): the handlers of \<open>ID\<close>, \<open>SYNC_GZIP\<close> and
  \<open>SYNC_REQUEST\<close>, the console command \<open>send\<close>, and the walk along the chain of an account behind the command
  \<open>history\<close>. Compression, Base64 and the JSON form of a ledger are parameters, as is the clock. \<open>None\<close> is a
  panic, which ends the event loop. Storing a peer in the database is left out.
\<close>

section \<open>State\<close>

record sync_node =
  sy_ledger :: ledger
  sy_slashing :: slashing_manager
  sy_pool :: reward_pool
  sy_address_book :: "(string, string) btree_map"
  sy_live :: "(string, u64) btree_map"
  sy_pending_sends :: "(string, block \<times> u128) btree_map"
  sy_last_sync :: u64
  sy_response_times :: "(string, u64) btree_map"
  sy_outbox :: "string list"

record sync_env =
  se_node :: node_env
  se_ledger_to_json :: "ledger \<Rightarrow> string option"
  se_ledger_of_json :: "string \<Rightarrow> ledger option"
  se_gzip :: "string \<Rightarrow> bytes option"
  se_gunzip :: "nat \<Rightarrow> bytes \<Rightarrow> string option"
  se_base64 :: "bytes \<Rightarrow> string"
  se_unbase64 :: "string \<Rightarrow> bytes option"

abbreviation se_env :: "sync_env \<Rightarrow> los_env" where
  "se_env se \<equiv> ne_env (se_node se)"

definition sy_push :: "string list \<Rightarrow> sync_node \<Rightarrow> sync_node" where
  "sy_push msgs sy = sy\<lparr>sy_outbox := sy_outbox sy @ msgs\<rparr>"

definition MAX_SYNC_PAYLOAD :: nat where
  "MAX_SYNC_PAYLOAD = 8 * 1024 * 1024"

definition MAX_DECOMPRESSED_SIZE :: nat where
  "MAX_DECOMPRESSED_SIZE = 50 * 1024 * 1024"

text \<open>The whole ledger, compressed, if it is small enough.\<close>

definition sync_message :: "sync_env \<Rightarrow> ledger \<Rightarrow> string list" where
  "sync_message se L =
     (case Option.bind (se_ledger_to_json se L) (se_gzip se) of
        None \<Rightarrow> []
      | Some compressed \<Rightarrow>
          if length compressed \<le> MAX_SYNC_PAYLOAD then [''SYNC_GZIP:'' @ se_base64 se compressed] else [])"

section \<open>\<open>ID\<close>\<close>

definition MAX_PEERS :: nat where
  "MAX_PEERS = 10000"

text \<open>The supply that remains according to the Mint blocks of this node; the sum wraps around.\<close>

definition calculated_remaining :: "ledger \<Rightarrow> u128" where
  "calculated_remaining L =
     saturating_sub PUBLIC_SUPPLY_CAP
       (sum_list (map blk_amount (filter (\<lambda>b. blk_type b = Mint) (bt_values (blocks L)))))"

definition adopt_supply :: "u128 \<Rightarrow> u128 \<Rightarrow> ledger \<Rightarrow> ledger" where
  "adopt_supply rem_s tot_b L =
     (let c = calculated_remaining L; tolerance = PUBLIC_SUPPLY_CAP div 100 in
      if rem_s < remaining_supply (distribution L) \<and> rem_s \<noteq> 0
         \<and> saturating_sub c tolerance \<le> rem_s \<and> rem_s \<le> saturating_add c tolerance
      then L\<lparr>distribution := (distribution L)\<lparr>remaining_supply := c, total_burned_usd := tot_b\<rparr>\<rparr> else L)"

definition confirm_retry :: "sync_env \<Rightarrow> clock \<Rightarrow> string \<times> block \<times> u128 \<Rightarrow> string" where
  "confirm_retry se ck = (\<lambda>(hash, blk, _).
     colon_join [''CONFIRM_REQ'', hash, blk_account blk, uint_to_string (blk_amount blk), uint_to_string (ck_millis ck),
                 ne_block_to_b64 (se_node se) blk])"

definition identity_message :: "sync_env \<Rightarrow> clock \<Rightarrow> ledger \<Rightarrow> string" where
  "identity_message se ck L =
     colon_join [''ID'', ne_address (se_node se), uint_to_string (remaining_supply (distribution L)),
                 uint_to_string (total_burned_usd (distribution L)), uint_to_string (ck_millis ck)]"

definition greet :: "sync_env \<Rightarrow> clock \<Rightarrow> string \<Rightarrow> u128 \<Rightarrow> u128 \<Rightarrow> bool \<Rightarrow> sync_node \<Rightarrow> sync_node option" where
  "greet se ck full rem_s tot_b unknown sy =
     (let L = adopt_supply rem_s tot_b (sy_ledger sy); sy = sy\<lparr>sy_ledger := L\<rparr> in
      if (\<exists>(hash, _) \<in> set (sy_pending_sends sy). str_slice_to hash 8 = None) then None
      else Some (sy_push (map (confirm_retry se ck) (sy_pending_sends sy)
                          @ (if unknown then identity_message se ck L # sync_message se L else [])) sy))"

definition handle_id :: "sync_env \<Rightarrow> clock \<Rightarrow> string \<Rightarrow> sync_node \<Rightarrow> sync_node option" where
  "handle_id se ck data sy =
     (let parts = str_split (CHR '':'') data in
      if length parts < 4 \<or> parts ! 1 = ne_address (se_node se) then Some sy
      else
        let full = parts ! 1;
            rem_s = option_or (parse_uint (parts ! 2)) 0; tot_b = option_or (parse_uint (parts ! 3)) 0 in
        (case get_short_addr full of
           None \<Rightarrow> None
         | Some short \<Rightarrow>
             let known = bt_contains (sy_address_book sy) short;
                 room = (known \<or> length (sy_address_book sy) < MAX_PEERS);
                 book = (if room then bt_insert short full (sy_address_book sy) else sy_address_book sy);
                 sy = sy\<lparr>sy_address_book := book, sy_live := bt_insert full (ck_secs ck) (sy_live sy)\<rparr>
             in if room then greet se ck full rem_s tot_b (\<not> known) sy else Some sy))"

section \<open>\<open>SYNC_GZIP\<close>\<close>

text \<open>A Mint or a Slash needs a signature and proof of work; who signed is not asked.\<close>

definition sync_accepts :: "los_env \<Rightarrow> block \<Rightarrow> bool" where
  "sync_accepts env blk =
     (system_block blk \<longrightarrow>
        (case (hex_decode env (blk_signature blk), hex_decode env (blk_public_key blk)) of
           (Some sig, Some pk) \<Rightarrow> crypto_verify_signature env (as_bytes (signing_hash env blk)) sig pk
         | _ \<Rightarrow> False)
        \<and> verify_pow env blk)"

definition reward_link :: "block \<Rightarrow> bool" where
  "reward_link blk =
     (blk_type blk = Mint
      \<and> (starts_with (blk_link blk) ''REWARD:EPOCH:'' \<or> starts_with (blk_link blk) ''FEE_REWARD:EPOCH:''))"

definition note_participation :: "u64 \<Rightarrow> block \<Rightarrow> ledger \<Rightarrow> slashing_manager \<Rightarrow> slashing_manager" where
  "note_participation now blk L m =
     (if staked (blk_account blk) L
      then snd (record_block_participation (blk_account blk) (of_nat (length (blocks L))) now
                  (if bt_contains (sm_validators m) (blk_account blk) then m
                   else sm_register_validator (blk_account blk) m))
      else m)"

text \<open>One block of one pass, with the counters of added and of invalid blocks.\<close>

record sync_run =
  sr_node :: sync_node
  sr_added :: nat
  sr_invalid :: nat

definition sync_block :: "sync_env \<Rightarrow> u64 \<Rightarrow> bool \<Rightarrow> block \<Rightarrow> sync_run \<Rightarrow> sync_run option" where
  "sync_block se now final blk sr =
     (let env = se_env se; sy = sr_node sr; L = sy_ledger sy in
      if \<not> sync_accepts env blk then Some (sr\<lparr>sr_invalid := sr_invalid sr + 1\<rparr>)
      else if bt_contains (blocks L) (calculate_hash env blk) then Some sr
      else
        (case process_block env now blk (ensure_account (blk_account blk) L) of
           (Panic, L') \<Rightarrow> None
         | (Err e, L') \<Rightarrow>
             Some (sr\<lparr>sr_node := sy\<lparr>sy_ledger := L'\<rparr>, sr_invalid := sr_invalid sr + (if final then 1 else 0)\<rparr>)
         | (Ok r, L') \<Rightarrow>
             Some (sr\<lparr>sr_node :=
                        sy\<lparr>sy_ledger := L',
                           sy_pool := (if reward_link blk
                                       then sync_reward_from_gossip (blk_account blk) (blk_amount blk) (sy_pool sy)
                                       else sy_pool sy),
                           sy_slashing := note_participation now blk L' (sy_slashing sy)\<rparr>,
                      sr_added := sr_added sr + 1\<rparr>)))"

fun sync_pass :: "sync_env \<Rightarrow> u64 \<Rightarrow> bool \<Rightarrow> block list \<Rightarrow> sync_run \<Rightarrow> sync_run option" where
  "sync_pass se now final [] sr = Some sr"
| "sync_pass se now final (b # bs) sr =
     (case sync_block se now final b sr of None \<Rightarrow> None | Some sr' \<Rightarrow> sync_pass se now final bs sr')"

definition sync_blocks :: "ledger \<Rightarrow> block list" where
  "sync_blocks incoming = sort_key blk_timestamp (bt_values (blocks incoming))"

definition merge_ledger :: "sync_env \<Rightarrow> u64 \<Rightarrow> ledger \<Rightarrow> sync_node \<Rightarrow> sync_node option" where
  "merge_ledger se now incoming sy =
     map_option sr_node
       (Option.bind (sync_pass se now False (sync_blocks incoming) \<lparr>sr_node = sy, sr_added = 0, sr_invalid = 0\<rparr>)
          (sync_pass se now True (sync_blocks incoming)))"

definition incoming_ledger :: "sync_env \<Rightarrow> string \<Rightarrow> ledger option" where
  "incoming_ledger se encoded =
     Option.bind (se_unbase64 se encoded) (\<lambda>compressed.
     Option.bind (se_gunzip se MAX_DECOMPRESSED_SIZE compressed) (se_ledger_of_json se))"

definition handle_sync_gzip :: "sync_env \<Rightarrow> clock \<Rightarrow> string \<Rightarrow> sync_node \<Rightarrow> sync_node option" where
  "handle_sync_gzip se ck encoded sy =
     (let now = ck_secs ck in
      if saturating_sub now (sy_last_sync sy) < 10 then Some sy
      else
        let sy = sy\<lparr>sy_last_sync := now\<rparr> in
        case incoming_ledger se encoded of None \<Rightarrow> Some sy | Some incoming \<Rightarrow> merge_ledger se now incoming sy)"

section \<open>\<open>SYNC_REQUEST\<close>\<close>

definition handle_sync_request :: "sync_env \<Rightarrow> clock \<Rightarrow> string \<Rightarrow> sync_node \<Rightarrow> sync_node option" where
  "handle_sync_request se ck data sy =
     (let parts = str_split (CHR '':'') data; now = ck_secs ck in
      if length parts < 3 then Some sy
      else
        let requester = parts ! 1; their_count = option_or (parse_uint (parts ! 2)) (0 :: u64);
            asked = option_or (bt_get (sy_response_times sy) requester) 0 in
        if saturating_sub now asked < 15 then Some sy
        else
          let sy = sy\<lparr>sy_response_times :=
                     filter (\<lambda>(_, ts). saturating_sub now ts < 300) (bt_insert requester now (sy_response_times sy))\<rparr> in
          if length (blocks (sy_ledger sy)) > unat their_count \<and> requester \<noteq> ne_address (se_node se)
          then (if printable [requester] then Some (sy_push (sync_message se (sy_ledger sy)) sy) else None)
          else Some sy)"

section \<open>Console\<close>

text \<open>\<open>send <id> <amount>\<close>. Products and sums wrap around.\<close>

definition own_pending :: "string \<Rightarrow> sync_node \<Rightarrow> u128" where
  "own_pending me sy =
     sum_list (map (blk_amount \<circ> fst) (filter (\<lambda>e. blk_account (fst e) = me) (bt_values (sy_pending_sends sy))))"

definition console_block :: "sync_env \<Rightarrow> clock \<Rightarrow> string \<Rightarrow> u128 \<Rightarrow> ledger \<Rightarrow> block option" where
  "console_block se ck target amt L =
     (let ne = se_node se; env = ne_env ne;
          b = solve_pow env
                \<lparr>blk_account = ne_address ne, blk_previous = acc_head (account_or_default L (ne_address ne)),
                 blk_type = Send, blk_amount = amt, blk_link = target, blk_signature = [],
                 blk_public_key = hex_encode env (ne_public_key ne), blk_work = 0, blk_timestamp = ck_secs ck,
                 blk_fee = BASE_FEE_CIL\<rparr>
      in map_option (\<lambda>sig. b\<lparr>blk_signature := sig\<rparr>) (try_sign_hex ne (as_bytes (signing_hash env b))))"

definition console_send :: "sync_env \<Rightarrow> clock \<Rightarrow> string \<Rightarrow> string \<Rightarrow> sync_node \<Rightarrow> sync_node" where
  "console_send se ck target_short amount sy =
     (let me = ne_address (se_node se); amt = option_or (parse_uint amount) 0 * CIL_PER_LOS in
      if amt = 0 then sy
      else case bt_get (sy_address_book sy) target_short of
             None \<Rightarrow> sy
           | Some target \<Rightarrow>
               if acc_balance (account_or_default (sy_ledger sy) me) < amt + own_pending me sy then sy
               else case console_block se ck target amt (sy_ledger sy) of
                      None \<Rightarrow> sy
                    | Some blk \<Rightarrow>
                        let hash = calculate_hash (se_env se) blk in
                        sy_push [colon_join [''CONFIRM_REQ'', hash, me, uint_to_string amt, uint_to_string (ck_millis ck),
                                             ne_block_to_b64 (se_node se) blk]]
                          (sy\<lparr>sy_pending_sends := bt_insert hash (blk, 0) (sy_pending_sends sy)\<rparr>))"

text \<open>\<open>history\<close>: from the head back to the first block; nothing bounds the walk.\<close>

partial_function (option) chain_walk :: "ledger \<Rightarrow> string \<Rightarrow> block list option" where
  "chain_walk L h =
     (if h = ''0'' then Some []
      else case bt_get (blocks L) h of
             None \<Rightarrow> Some []
           | Some blk \<Rightarrow> Option.bind (chain_walk L (blk_previous blk)) (\<lambda>bs. Some (blk # bs)))"

definition account_history :: "ledger \<Rightarrow> string \<Rightarrow> block list option" where
  "account_history L a = (case bt_get (accounts L) a of None \<Rightarrow> Some [] | Some st \<Rightarrow> chain_walk L (acc_head st))"

end
