(* ===== verification/Node_Sync_Safety.thy ===== *)
theory Node_Sync_Safety
  imports Node_Sync
begin

text \<open>
  What synchronisation does to the ledger. It creates no value; a fresh node that receives the ledger of a peer
  ends with exactly that ledger when the blocks of the peer have increasing times. The history of an account is
  a finite walk over as many blocks as the account counts. But a Mint needs no stake on this way, and a peer can
  set the burned total of any node.
\<close>

section \<open>Value\<close>

lemma sync_block_cases:
  assumes "sync_block se now final blk sr = Some sr'"
  obtains (same) "sr_node sr' = sr_node sr"
  | (failed) e L' where
      "process_block (se_env se) now blk (ensure_account (blk_account blk) (sy_ledger (sr_node sr))) = (Err e, L')"
      "sr_node sr' = (sr_node sr)\<lparr>sy_ledger := L'\<rparr>"
  | (added) r L' where "sync_accepts (se_env se) blk"
      "process_block (se_env se) now blk (ensure_account (blk_account blk) (sy_ledger (sr_node sr))) = (Ok r, L')"
      "sy_ledger (sr_node sr') = L'"
  using assms
  by (cases "process_block (se_env se) now blk (ensure_account (blk_account blk) (sy_ledger (sr_node sr)))")
    (auto simp: sync_block_def Let_def split: if_splits result.splits)

lemma sync_block_sound:
  assumes "sync_block se now final blk sr = Some sr'"
  shows "sound_change (sy_ledger (sr_node sr)) (sy_ledger (sr_node sr'))"
  using assms
proof (cases rule: sync_block_cases)
  case (failed e L')
  then show ?thesis using sound_trans [OF sound_ensure sound_process] by simp
next
  case (added r L')
  then show ?thesis using sound_trans [OF sound_ensure sound_process] by simp
qed (simp add: sound_refl)

lemma sync_pass_sound:
  "sync_pass se now final bs sr = Some sr' \<Longrightarrow> sound_change (sy_ledger (sr_node sr)) (sy_ledger (sr_node sr'))"
proof (induction se now final bs sr rule: sync_pass.induct)
  case (2 se now final b bs sr)
  then show ?case using sync_block_sound sound_trans by (fastforce split: option.splits)
qed (simp add: sound_refl)

lemma merge_ledger_sound:
  assumes "merge_ledger se now incoming sy = Some sy'"
  shows "sound_change (sy_ledger sy) (sy_ledger sy')"
  using assms sync_pass_sound [of se now False "sync_blocks incoming" "\<lparr>sr_node = sy, sr_added = 0, sr_invalid = 0\<rparr>"]
    sync_pass_sound [of se now True "sync_blocks incoming"] sound_trans
  by (fastforce simp: merge_ledger_def bind_eq_Some_conv)

lemma handle_sync_gzip_sound:
  assumes "handle_sync_gzip se ck encoded sy = Some sy'"
  shows "sound_change (sy_ledger sy) (sy_ledger sy')"
  using assms merge_ledger_sound [of se "ck_secs ck" _ "sy\<lparr>sy_last_sync := ck_secs ck\<rparr>"]
  by (auto simp: handle_sync_gzip_def Let_def sound_refl split: if_splits option.splits)

section \<open>The recalculated supply\<close>

text \<open>In a ledger that grew by blocks alone, what remains is the cap without the minted amounts.\<close>

definition minted :: "ledger \<Rightarrow> nat" where
  "minted L = bt_sum (\<lambda>b. if blk_type b = Mint then unat (blk_amount b) else 0) (blocks L)"

definition supply_ok :: "ledger \<Rightarrow> bool" where
  "supply_ok L \<longleftrightarrow> bt_ok (blocks L) \<and> unat (remaining_supply (distribution L)) + minted L = unat PUBLIC_SUPPLY_CAP"

lemma process_transaction_supply:
  assumes "process_transaction env b st L = (Ok st1, L1)"
  shows "unat (remaining_supply (distribution L1)) + (if blk_type b = Mint then unat (blk_amount b) else 0)
    = unat (remaining_supply (distribution L))"
  using assms
  by (auto simp: process_transaction_def transaction_defs unat_saturating_sub word_less_nat_alt
      split: block_type.splits if_splits option.splits)

lemma process_block_supply:
  assumes "process_block env now b L = (r, L')" "supply_ok L"
  shows "supply_ok L'"
  using assms(1)
proof (cases rule: process_block_cases)
  case (applied st1 L1)
  have "minted L' = minted L + (if blk_type b = Mint then unat (blk_amount b) else 0)"
    using bt_sum_insert [of "blocks L" "\<lambda>b. if blk_type b = Mint then unat (blk_amount b) else 0"
        "calculate_hash env b" b] assms(2) applied process_transaction_frame [OF applied(9)]
    by (simp add: minted_def supply_ok_def bt_share_def)
  then show ?thesis
    using assms(2) process_transaction_supply [OF applied(9)] process_transaction_frame [OF applied(9)]
    by (auto simp: supply_ok_def applied(10))
qed (use assms in simp)

interpretation supply_sys: invariant_system "ledger_step env" supply_ok for env
  by unfold_locales
    (auto elim!: ledger_stepE dest: process_block_supply simp: claim_accumulated_fees_def supply_ok_def minted_def)

lemma supply_ok_new: "supply_ok ledger_new"
  by (simp add: supply_ok_def minted_def ledger_new_def distribution_new_def)

lemma calculated_remaining_exact:
  assumes "supply_ok L"
  shows "calculated_remaining L = remaining_supply (distribution L)"
proof -
  let ?ms = "map blk_amount (filter (\<lambda>b. blk_type b = Mint) (bt_values (blocks L)))"
  have sum: "sum_list (map unat ?ms) = minted L"
    unfolding minted_def bt_sum_values by (induction "bt_values (blocks L)") (auto simp: comp_def sum_list_map_filter')
  have "minted L < 2 ^ 128" using assms unat_less_exp [of PUBLIC_SUPPLY_CAP] by (simp add: supply_ok_def)
  then have "unat (sum_list ?ms) = minted L" using unat_sum_list_exact [of ?ms] sum by simp
  then show ?thesis
    using assms unfolding calculated_remaining_def by (auto simp: word_unat_eq_iff unat_saturating_sub supply_ok_def)
qed

lemma str_split_sep:
  assumes "c \<notin> set a"
  shows "str_split c (a @ c # s) = a # str_split c s" "str_split c a = [a]"
  using assms by (induction a) auto

text \<open>An unsigned greeting sets the burned total. In every ledger that grew from blocks the recalculation of
  the remaining supply changes nothing, but any text that names a supply slightly below it, from anybody, makes
  the node take over the burned total it names. Accounts, blocks, supply and fees stay as they are.\<close>

theorem peer_sets_burned_total:
  assumes "(ledger_step (se_env se))\<^sup>*\<^sup>* ledger_new (sy_ledger sy)" and "remaining_supply (distribution (sy_ledger sy)) > 1"
    and "peer \<noteq> ne_address (se_node se)" "CHR '':'' \<notin> set peer" "get_short_addr peer = Some short"
    and "length (sy_address_book sy) < 10000" "sy_pending_sends sy = []"
  defines "claim \<equiv> remaining_supply (distribution (sy_ledger sy)) - 1"
  shows "\<exists>sy'. handle_id se ck (colon_join [''ID'', peer, uint_to_string claim, uint_to_string forged]) sy = Some sy'
    \<and> sy_ledger sy' = (sy_ledger sy)\<lparr>distribution := (distribution (sy_ledger sy))\<lparr>total_burned_usd := forged\<rparr>\<rparr>"
proof -
  let ?L = "sy_ledger sy"
  have "supply_ok ?L" by (rule supply_sys.reach_inv [OF assms(1) supply_ok_new])
  then have c: "calculated_remaining ?L = remaining_supply (distribution ?L)" by (rule calculated_remaining_exact)
  have "unat claim + 1 = unat (remaining_supply (distribution ?L))"
    using assms(2) unat_sub_exact [of 1 "remaining_supply (distribution ?L)"] by (auto simp: claim_def word_less_nat_alt word_le_nat_alt)
  moreover have "unat (PUBLIC_SUPPLY_CAP div 100) \<ge> 1" by (simp add: ledger_constants)
  ultimately have adopt: "adopt_supply claim forged ?L = ?L\<lparr>distribution := (distribution ?L)\<lparr>total_burned_usd := forged\<rparr>\<rparr>"
    using assms(2) unat_less_exp [of claim] by (auto simp: adopt_supply_def Let_def c word_less_nat_alt word_le_nat_alt unat_saturating_sub
        unat_saturating_add word_unat_eq_iff)
  have parts: "str_split (CHR '':'') (colon_join [''ID'', peer, uint_to_string claim, uint_to_string forged])
      = [''ID'', peer, uint_to_string claim, uint_to_string forged]"
    using assms(4) by (simp add: str_split_sep uint_to_string_def colon_not_digit)
  show ?thesis
    unfolding handle_id_def Let_def parts using assms(3,5-7)
    by (simp add: MAX_PEERS_def parse_uint_to_string option_or_def greet_def Let_def adopt sy_push_def)
qed

section \<open>Mints on the way of synchronisation\<close>

lemma check_timestamp_ensure [simp]: "check_timestamp now b (ensure_account a L) = check_timestamp now b L"
  by (simp add: check_timestamp_def)

lemma process_mint_block:
  assumes "blk_type b = Mint" "verify_pow env b" "verify_signature env b" "bt_get (blocks L) (calculate_hash env b) = None"
    and "blk_previous b = acc_head (account_or_default L (blk_account b))" "check_timestamp now b L = None"
    and "blk_amount b \<le> remaining_supply (distribution L)" "is_system_mint b"
  shows "\<exists>L'. process_block env now b L = (Ok (Applied (calculate_hash env b)), L')
    \<and> acc_balance (account_or_default L' (blk_account b))
        = saturating_add (acc_balance (account_or_default L (blk_account b))) (blk_amount b)
    \<and> bt_contains (blocks L') (calculate_hash env b)"
  using assms
  by (auto simp: process_block_def check_owner_def owner_signed_type_def bt_contains_def process_transaction_def
      process_mint_def Let_def account_or_default_def)

text \<open>A Mint needs no stake on the way of synchronisation. A ledger sent by anybody with one Mint that any
  key has signed, linked as an epoch reward, is applied: the named account gets the amount, up to everything that
  is left of the supply. The gossip of the same block is refused unless its signer is staked.\<close>

theorem sync_mints_for_anyone:
  assumes "10 \<le> saturating_sub (ck_secs ck) (sy_last_sync sy)"
    and "incoming_ledger se encoded = Some M" "blocks M = [(h, b)]"
    and "blk_type b = Mint" "starts_with (blk_link b) ''REWARD:''" "sync_accepts (se_env se) b"
    and "verify_signature (se_env se) b" "bt_get (blocks (sy_ledger sy)) (calculate_hash (se_env se) b) = None"
    and "blk_previous b = acc_head (account_or_default (sy_ledger sy) (blk_account b))"
    and "check_timestamp (ck_secs ck) b (sy_ledger sy) = None"
    and "blk_amount b \<le> remaining_supply (distribution (sy_ledger sy))"
  shows "\<exists>sy'. handle_sync_gzip se ck encoded sy = Some sy'
    \<and> acc_balance (account_or_default (sy_ledger sy') (blk_account b))
        = saturating_add (acc_balance (account_or_default (sy_ledger sy) (blk_account b))) (blk_amount b)"
proof -
  let ?L = "ensure_account (blk_account b) (sy_ledger sy)" and ?env = "se_env se" and ?now = "ck_secs ck"
  have pow: "verify_pow ?env b" using assms(4,6) by (simp add: sync_accepts_def system_block_def)
  have time: "check_timestamp ?now b ?L = None" using assms(10) by simp
  obtain L' where L': "process_block ?env ?now b ?L = (Ok (Applied (calculate_hash ?env b)), L')"
      "acc_balance (account_or_default L' (blk_account b))
        = saturating_add (acc_balance (account_or_default (sy_ledger sy) (blk_account b))) (blk_amount b)"
      "bt_contains (blocks L') (calculate_hash ?env b)"
    using process_mint_block [of b ?env ?L ?now] assms(4,5,7-9,11) pow time by (auto simp: is_system_mint_def)
  have rate: "\<not> saturating_sub ?now (sy_last_sync sy) < 10" using assms(1) by simp
  have bs: "sync_blocks M = [b]" using assms(3) by (simp add: sync_blocks_def bt_values_def)
  have new: "\<not> bt_contains (blocks (sy_ledger sy)) (calculate_hash ?env b)" using assms(8) by (simp add: bt_contains_def)
  let ?sr = "\<lparr>sr_node = sy\<lparr>sy_last_sync := ?now\<rparr>, sr_added = 0, sr_invalid = 0\<rparr>"
  obtain sr where sr: "sync_block se ?now False b ?sr = Some sr" "sy_ledger (sr_node sr) = L'"
    using assms(6) new L'(1) by (simp add: sync_block_def Let_def)
  have "sync_block se ?now True b sr = Some sr" using assms(6) sr(2) L'(3) by (simp add: sync_block_def Let_def)
  then have "\<exists>sy'. merge_ledger se ?now M (sy\<lparr>sy_last_sync := ?now\<rparr>) = Some sy' \<and> sy_ledger sy' = L'"
    using sr by (simp add: merge_ledger_def bs)
  then show ?thesis using rate assms(2) L'(2) by (auto simp: handle_sync_gzip_def Let_def)
qed

section \<open>Catching up\<close>

text \<open>The run of blocks that makes a ledger, each with the time at which it was applied.\<close>

definition apply_timed :: "los_env \<Rightarrow> u64 \<times> block \<Rightarrow> ledger \<Rightarrow> ledger option" where
  "apply_timed env = (\<lambda>(now, b) L. case process_block env now b L of (Ok (Applied h), L') \<Rightarrow> Some L' | _ \<Rightarrow> None)"

lemma apply_timedD:
  assumes "apply_timed env (now, b) L = Some L'"
  shows "process_block env now b L = (Ok (Applied (calculate_hash env b)), L')"
proof -
  obtain r M where p: "process_block env now b L = (r, M)" by fastforce
  with assms obtain h where "r = Ok (Applied h)" "M = L'"
    by (auto simp: apply_timed_def split: result.splits process_result.splits)
  with p show ?thesis by (auto elim: process_block_cases)
qed

lemma process_block_applied:
  assumes "verify_pow env b" "verify_signature env b" "check_owner env b = None"
    "bt_get (blocks L) (calculate_hash env b) = None"
    "blk_type b \<in> {Mint, Receive} \<or> bt_contains (accounts L) (blk_account b)"
    "blk_previous b = acc_head (account_or_default L (blk_account b))" "check_timestamp now b L = None"
    "process_transaction env b (account_or_default L (blk_account b)) L = (Ok st1, L1)"
  shows "process_block env now b L = (Ok (Applied (calculate_hash env b)), commit_block b (calculate_hash env b) st1 L1)"
  using assms by (auto simp: process_block_def Let_def bt_contains_def)

text \<open>Creating the account first makes no difference, and neither does a later clock.\<close>

lemma check_timestamp_later:
  "check_timestamp now b L = None \<Longrightarrow> \<not> blk_timestamp b > now' + MAX_TIMESTAMP_DRIFT_SECS \<Longrightarrow> check_timestamp now' b L = None"
  by (auto simp: check_timestamp_def split: if_splits)

lemma process_block_ensured:
  assumes "process_block env now b L = (Ok (Applied h), L')" "\<not> blk_timestamp b > now' + MAX_TIMESTAMP_DRIFT_SECS"
  shows "process_block env now' b (ensure_account (blk_account b) L) = (Ok (Applied (calculate_hash env b)), L')"
  using assms(1)
proof (cases rule: process_block_cases)
  case (applied st1 L1)
  let ?a = "blk_account b" and ?h = "calculate_hash env b"
  note time = check_timestamp_later [OF applied(8) assms(2)]
  show ?thesis
  proof (cases "bt_contains (accounts L) ?a")
    case True
    then have "ensure_account ?a L = L" by (simp add: ensure_account_def)
    then show ?thesis
      using process_block_applied [OF applied(2-7) time applied(9)] applied(10) by simp
  next
    case False
    then have t: "blk_type b \<in> {Mint, Receive}" using applied(6) by simp
    let ?E = "ensure_account ?a L" and ?M = "L1\<lparr>accounts := accounts (ensure_account ?a L)\<rparr>"
    have E: "?E = L\<lparr>accounts := accounts ?E\<rparr>" by (simp add: ensure_account_def)
    have "process_transaction env b (account_or_default L ?a) (L\<lparr>accounts := as\<rparr>) = (Ok st1, L1\<lparr>accounts := as\<rparr>)" for as
      using applied(9) t
      by (auto simp: process_transaction_def process_mint_def process_receive_def Let_def split: if_splits option.splits)
    then have "process_transaction env b (account_or_default ?E ?a) ?E = (Ok st1, ?M)"
      using E by (metis account_or_default_ensure)
    then have "process_block env now' b ?E = (Ok (Applied ?h), commit_block b ?h st1 ?M)"
      using applied(2-5,7) time t by (intro process_block_applied) auto
    moreover have "commit_block b ?h st1 ?M = L'"
      using process_transaction_frame [OF applied(9)] applied(10)
      by (simp add: commit_block_def Let_def)
    ultimately show ?thesis by simp
  qed
qed blast

lemma mset_bt_insert: "bt_get m k = None \<Longrightarrow> mset (bt_values (bt_insert k v m)) = add_mset v (mset (bt_values m))"
  by (induction m) (auto simp: bt_values_def split: if_splits)

lemma applied_blocks:
  assumes "process_block env now b L = (Ok (Applied h), L')"
  shows "bt_get (blocks L) (calculate_hash env b) = None" "blocks L' = bt_insert (calculate_hash env b) b (blocks L)"
    "verify_pow env b" "verify_signature env b"
  using assms by (auto elim!: process_block_cases dest!: process_transaction_frame)

lemma replay_blocks:
  assumes "replay (apply_timed env) run L = Some M"
  shows "mset (bt_values (blocks M)) = mset (bt_values (blocks L)) + mset (map snd run)"
    and "\<forall>h. bt_contains (blocks L) h \<longrightarrow> bt_contains (blocks M) h"
    and "\<forall>(t, b) \<in> set run. bt_contains (blocks M) (calculate_hash env b) \<and> verify_pow env b \<and> verify_signature env b"
proof -
  have "mset (bt_values (blocks M)) = mset (bt_values (blocks L)) + mset (map snd run)
    \<and> (\<forall>h. bt_contains (blocks L) h \<longrightarrow> bt_contains (blocks M) h)
    \<and> (\<forall>(t, b) \<in> set run. bt_contains (blocks M) (calculate_hash env b) \<and> verify_pow env b \<and> verify_signature env b)"
    using assms
  proof (induction run arbitrary: L)
    case (Cons tb run)
    obtain t b where tb: "tb = (t, b)" by fastforce
    with Cons.prems obtain L' where L': "apply_timed env (t, b) L = Some L'" "replay (apply_timed env) run L' = Some M"
      by (auto split: option.splits)
    note a = applied_blocks [OF apply_timedD [OF L'(1)]]
    have "bt_contains (blocks L') h \<longleftrightarrow> h = calculate_hash env b \<or> bt_contains (blocks L) h" for h
      by (auto simp: a(2) bt_contains_iff)
    then show ?case using Cons.IH [OF L'(2)] a(1,3,4) by (simp add: tb a(2) mset_bt_insert)
  qed simp
  then show "mset (bt_values (blocks M)) = mset (bt_values (blocks L)) + mset (map snd run)"
    "\<forall>h. bt_contains (blocks L) h \<longrightarrow> bt_contains (blocks M) h"
    "\<forall>(t, b) \<in> set run. bt_contains (blocks M) (calculate_hash env b) \<and> verify_pow env b \<and> verify_signature env b"
    by blast+
qed

lemma sync_pass_replays:
  assumes "replay (apply_timed (se_env se)) run L = Some M" "sy_ledger (sr_node sr) = L"
    and "\<forall>(t, b) \<in> set run. sync_accepts (se_env se) b \<and> \<not> blk_timestamp b > now + MAX_TIMESTAMP_DRIFT_SECS"
  shows "\<exists>sr'. sync_pass se now final (map snd run) sr = Some sr' \<and> sy_ledger (sr_node sr') = M"
  using assms
proof (induction run arbitrary: L sr)
  case (Cons tb run)
  obtain t b where tb: "tb = (t, b)" by fastforce
  with Cons.prems(1) obtain L' where L': "apply_timed (se_env se) (t, b) L = Some L'"
      "replay (apply_timed (se_env se)) run L' = Some M"
    by (auto split: option.splits)
  note p = apply_timedD [OF L'(1)]
  have ok: "sync_accepts (se_env se) b" "\<not> blk_timestamp b > now + MAX_TIMESTAMP_DRIFT_SECS"
    using Cons.prems(3) by (auto simp: tb)
  have "\<not> bt_contains (blocks L) (calculate_hash (se_env se) b)"
    using applied_blocks(1) [OF p] by (simp add: bt_contains_def)
  then obtain sr1 where "sync_block se now final b sr = Some sr1" "sy_ledger (sr_node sr1) = L'"
    using ok(1) process_block_ensured [OF p ok(2)] Cons.prems(2) by (simp add: sync_block_def Let_def)
  with Cons.IH [OF L'(2), of sr1] Cons.prems(3) show ?case by (simp add: tb)
qed simp

lemma sync_pass_known:
  assumes "\<forall>b \<in> set bs. sync_accepts (se_env se) b \<and> bt_contains (blocks (sy_ledger (sr_node sr))) (calculate_hash (se_env se) b)"
  shows "sync_pass se now final bs sr = Some sr"
  using assms by (induction bs) (simp_all add: sync_block_def Let_def)

lemma signed_accepted:
  assumes "verify_pow env b" "verify_signature env b" "hex_decode env (blk_signature b) \<noteq> None" "hex_decode env (blk_public_key b) \<noteq> None"
  shows "sync_accepts env b"
  using assms by (auto simp: sync_accepts_def verify_signature_def hex_decode_or_empty_def split: option.splits if_splits)

text \<open>The documented behaviour of Base64, gzip and JSON: what was written is read back.\<close>

definition codec_ok :: "sync_env \<Rightarrow> bool" where
  "codec_ok se \<longleftrightarrow>
     (\<forall>x. se_unbase64 se (se_base64 se x) = Some x)
     \<and> (\<forall>j z n. se_gzip se j = Some z \<and> length j \<le> n \<longrightarrow> se_gunzip se n z = Some j)
     \<and> (\<forall>L j. se_ledger_to_json se L = Some j \<longrightarrow> se_ledger_of_json se j = Some L)"

lemma sync_message_read:
  assumes "codec_ok se" "sync_message se M \<noteq> []"
    and "\<And>j. se_ledger_to_json se M = Some j \<Longrightarrow> length j \<le> MAX_DECOMPRESSED_SIZE"
  obtains encoded where "sync_message se M = [''SYNC_GZIP:'' @ encoded]" "incoming_ledger se encoded = Some M"
proof -
  obtain j z where j: "se_ledger_to_json se M = Some j" "se_gzip se j = Some z" "length z \<le> MAX_SYNC_PAYLOAD"
    using assms(2) by (auto simp: sync_message_def split: option.splits if_splits bind_splits)
  have "se_gunzip se MAX_DECOMPRESSED_SIZE z = Some j" "se_ledger_of_json se j = Some M" "se_unbase64 se (se_base64 se z) = Some z"
    using assms(1,3) j by (auto simp: codec_ok_def)
  with j show thesis by (intro that [of "se_base64 se z"]) (simp_all add: sync_message_def incoming_ledger_def)
qed

text \<open>C31: a fresh node catches up. A peer whose ledger was made by a run of blocks with increasing times sends its
  ledger; a node that has nothing yet applies the message and holds exactly the same ledger, account by account and
  block by block.\<close>

theorem fresh_node_catches_up:
  assumes run: "replay (apply_timed (se_env se)) run ledger_new = Some M"
    and times: "sorted_wrt (<) (map (blk_timestamp \<circ> snd) run)"
    and hexed: "\<forall>(t, b) \<in> set run. hex_decode (se_env se) (blk_signature b) \<noteq> None
      \<and> hex_decode (se_env se) (blk_public_key b) \<noteq> None \<and> blk_timestamp b \<le> ck_secs ck + MAX_TIMESTAMP_DRIFT_SECS"
    and codec: "codec_ok se" "sync_message se M \<noteq> []"
      "\<And>j. se_ledger_to_json se M = Some j \<Longrightarrow> length j \<le> MAX_DECOMPRESSED_SIZE"
    and fresh: "sy_ledger sy = ledger_new" "10 \<le> saturating_sub (ck_secs ck) (sy_last_sync sy)"
  shows "\<exists>encoded sy'. sync_message se M = [''SYNC_GZIP:'' @ encoded]
    \<and> handle_sync_gzip se ck encoded sy = Some sy' \<and> sy_ledger sy' = M"
proof -
  obtain encoded where e: "sync_message se M = [''SYNC_GZIP:'' @ encoded]" "incoming_ledger se encoded = Some M"
    using sync_message_read [OF codec] .
  note b = replay_blocks [OF run]
  have bs: "sync_blocks M = map snd run"
    unfolding sync_blocks_def
  proof (rule sort_key_inj_key_eq)
    show "mset (bt_values (blocks M)) = mset (map snd run)" using b(1) by (simp add: ledger_new_def bt_values_def)
    then have "set (bt_values (blocks M)) = snd ` set run" by (metis set_mset_mset list.set_map)
    moreover have "distinct (map blk_timestamp (map snd run))" using times by (simp add: strict_sorted_iff)
    ultimately show "inj_on blk_timestamp (set (bt_values (blocks M)))" by (simp only: distinct_map list.set_map)
    show "sorted (map blk_timestamp (map snd run))" using times by (simp add: strict_sorted_iff)
  qed
  have ok: "\<forall>(t, b) \<in> set run. sync_accepts (se_env se) b \<and> \<not> blk_timestamp b > ck_secs ck + MAX_TIMESTAMP_DRIFT_SECS"
    using b(3) hexed signed_accepted by fastforce
  let ?sr = "\<lparr>sr_node = sy\<lparr>sy_last_sync := ck_secs ck\<rparr>, sr_added = 0, sr_invalid = 0\<rparr>"
  obtain sr where sr: "sync_pass se (ck_secs ck) False (map snd run) ?sr = Some sr" "sy_ledger (sr_node sr) = M"
    using sync_pass_replays [OF run _ ok, of ?sr False] fresh(1) by auto
  have "sync_pass se (ck_secs ck) True (map snd run) sr = Some sr"
    using ok b(3) sr(2) by (intro sync_pass_known) fastforce
  then have "handle_sync_gzip se ck encoded sy = Some (sr_node sr)"
    using fresh(2) e(2) sr(1) by (simp add: handle_sync_gzip_def Let_def merge_ledger_def bs)
  with e(1) sr(2) show ?thesis by blast
qed

section \<open>The history of an account\<close>

text \<open>The blocks from a head back to the first block of an account.\<close>

inductive chain :: "ledger \<Rightarrow> string \<Rightarrow> string \<Rightarrow> block list \<Rightarrow> bool" for L a where
  first: "chain L a ''0'' []"
| extend: "bt_get (blocks L) h = Some b \<Longrightarrow> h \<noteq> ''0'' \<Longrightarrow> blk_account b = a \<Longrightarrow> chain L a (blk_previous b) bs
    \<Longrightarrow> chain L a h (b # bs)"

lemma chain_walks: "chain L a h bs \<Longrightarrow> chain_walk L h = Some bs"
  by (induction rule: chain.induct) (simp_all add: chain_walk.simps)

lemma chain_more:
  assumes "chain L a h bs" "blocks L' = bt_insert k c (blocks L)" "bt_get (blocks L) k = None"
  shows "chain L' a h bs"
  using assms(1)
proof (induction rule: chain.induct)
  case (extend h b bs)
  then show ?case using assms(2,3) by (intro chain.extend) auto
qed (rule chain.first)

lemma chain_cong: "chain L a h bs \<Longrightarrow> blocks L' = blocks L \<Longrightarrow> chain L' a h bs"
  by (induction rule: chain.induct) (auto intro: chain.intros)

lemma chain_accounts: "chain L a h bs \<Longrightarrow> \<forall>b \<in> set bs. blk_account b = a"
  by (induction rule: chain.induct) auto

definition blocks_of :: "ledger \<Rightarrow> string \<Rightarrow> block set" where
  "blocks_of L a = {b. \<exists>h. bt_get (blocks L) h = Some b \<and> blk_account b = a}"

definition chains_ok :: "ledger \<Rightarrow> bool" where
  "chains_ok L \<longleftrightarrow>
     (\<forall>a. \<exists>bs. chain L a (acc_head (account_or_default L a)) bs \<and> blocks_of L a = set bs
        \<and> acc_block_count (account_or_default L a) = of_nat (length bs))"

lemma process_block_chains:
  assumes "process_block env now b L = (r, L')" "chains_ok L" "calculate_hash env b \<noteq> ''0''"
  shows "chains_ok L'"
  using assms(1)
proof (cases rule: process_block_cases)
  case (applied st1 L1)
  let ?h = "calculate_hash env b" and ?st = "account_or_default L (blk_account b)"
  note fr = process_transaction_frame [OF applied(9)]
  have bl: "blocks L' = bt_insert ?h b (blocks L)" using fr by (simp add: applied(10))
  have acc: "account_or_default L' a
      = (if a = blk_account b then st1\<lparr>acc_head := ?h, acc_block_count := acc_block_count st1 + 1\<rparr> else account_or_default L a)" for a
    using fr by (simp add: applied(10) account_or_default_def)
  have own: "blocks_of L' a = (if a = blk_account b then insert b (blocks_of L a) else blocks_of L a)" for a
    using applied(5) by (auto simp: blocks_of_def bl split: if_splits) (metis option.distinct(1))+
  show ?thesis
    unfolding chains_ok_def
  proof
    fix a
    obtain bs where bs: "chain L a (acc_head (account_or_default L a)) bs" "blocks_of L a = set bs"
        "acc_block_count (account_or_default L a) = of_nat (length bs)"
      using assms(2) unfolding chains_ok_def by blast
    note more = chain_more [OF bs(1) bl applied(5)]
    show "\<exists>bs. chain L' a (acc_head (account_or_default L' a)) bs \<and> blocks_of L' a = set bs
        \<and> acc_block_count (account_or_default L' a) = of_nat (length bs)"
    proof (cases "a = blk_account b")
      case True
      have "chain L' a ?h (b # bs)"
        using more True assms(3) applied(7) by (intro chain.extend) (simp_all add: bl)
      then show ?thesis using bs(2,3) True fr by (intro exI [of _ "b # bs"]) (simp add: acc own)
    next
      case False
      with bs(2,3) more show ?thesis by (auto simp: acc own)
    qed
  qed
qed (use assms in simp)

lemma claim_fees_chains:
  assumes "claim_accumulated_fees L = (f, L')" "chains_ok L"
  shows "chains_ok L'"
proof -
  have "blocks L' = blocks L" "accounts L' = accounts L" using assms(1) by (auto simp: claim_accumulated_fees_def)
  then have "chain L' a h bs \<longleftrightarrow> chain L a h bs" "account_or_default L' a = account_or_default L a" "blocks_of L' a = blocks_of L a" for a h bs
    using chain_cong [of L a h bs L'] chain_cong [of L' a h bs L] by (auto simp: account_or_default_def blocks_of_def)
  with assms(2) show ?thesis by (simp add: chains_ok_def)
qed

lemma chains_ok_new: "chains_ok ledger_new"
  by (auto simp: chains_ok_def ledger_new_def account_or_default_def blocks_of_def intro: chain.first)

interpretation chain_sys: invariant_system "ledger_step env" "\<lambda>L. (\<forall>b. calculate_hash env b \<noteq> ''0'') \<longrightarrow> chains_ok L" for env
  by unfold_locales (auto elim!: ledger_stepE dest: process_block_chains claim_fees_chains)

text \<open>The history of an account. In every ledger that grew from blocks the walk from the head of an account
  ends; it returns every block of the account and nothing else, as many as the account counts.\<close>

theorem history_is_complete:
  assumes "(ledger_step env)\<^sup>*\<^sup>* ledger_new L" "\<forall>b. calculate_hash env b \<noteq> ''0''" "bt_get (accounts L) a = Some st"
  shows "\<exists>bs. account_history L a = Some bs \<and> of_nat (length bs) = acc_block_count st
    \<and> set bs = {b. \<exists>h. bt_get (blocks L) h = Some b \<and> blk_account b = a}"
proof -
  have "chains_ok L" using chain_sys.reach_inv [OF assms(1)] chains_ok_new assms(2) by blast
  then obtain bs where bs: "chain L a (acc_head (account_or_default L a)) bs" "blocks_of L a = set bs"
      "acc_block_count (account_or_default L a) = of_nat (length bs)"
    unfolding chains_ok_def by blast
  have "account_or_default L a = st" using assms(3) by (simp add: account_or_default_def)
  with bs chain_walks [OF bs(1)] assms(3) show ?thesis by (auto simp: account_history_def blocks_of_def)
qed

section \<open>Examples\<close>

text \<open>The ledger after one Mint, sent as text that names nothing but is read back as that ledger.\<close>

definition demo_sync :: sync_env where
  "demo_sync =
     \<lparr>se_node = demo_node_env demo_env (\<lambda>_. None), se_ledger_to_json = (\<lambda>L. if L = demo_L1 then Some ''one'' else None),
      se_ledger_of_json = (\<lambda>j. if j = ''one'' then Some demo_L1 else None), se_gzip = (\<lambda>j. Some (as_bytes j)),
      se_gunzip = (\<lambda>n z. Some (map (\<lambda>w. char_of (unat w)) z)), se_base64 = map (\<lambda>w. char_of (unat w)),
      se_unbase64 = (\<lambda>s. Some (as_bytes s))\<rparr>"

definition empty_sync_node :: sync_node where
  "empty_sync_node =
     \<lparr>sy_ledger = ledger_new, sy_slashing = slashing_new, sy_pool = reward_pool_new demo_env 0, sy_address_book = [],
      sy_live = [], sy_pending_sends = [], sy_last_sync = 0, sy_response_times = [], sy_outbox = []\<rparr>"

definition sync_clock :: clock where
  "sync_clock = \<lparr>ck_secs = 100, ck_millis = 0, ck_instant = 0\<rparr>"

lemma demo_sync_simps [simp]: "se_env demo_sync = demo_env" "ne_address (se_node demo_sync) = ''LOSN''"
  by (simp_all add: demo_sync_def demo_node_env_def)

lemma char_of_as_bytes: "map (\<lambda>w. char_of (unat w)) (as_bytes s) = s"
proof -
  have "char_of (unat (of_nat n :: u8)) = (char_of n :: char)" for n by (simp add: unat_of_nat)
  then have "char_of (unat (of_char c :: u8)) = c" for c by (metis char_of_char of_nat_of_char)
  then show ?thesis by (simp add: as_bytes_def comp_def)
qed

lemma demo_codec: "codec_ok demo_sync"
  by (auto simp: codec_ok_def demo_sync_def as_bytes_char_of char_of_as_bytes split: if_splits)

theorem fresh_node_catches_up_witness:
  "\<exists>encoded sy'. sync_message demo_sync demo_L1 = [''SYNC_GZIP:'' @ encoded]
    \<and> handle_sync_gzip demo_sync sync_clock encoded empty_sync_node = Some sy' \<and> sy_ledger sy' = demo_L1"
proof (rule fresh_node_catches_up [where run = "[(100, demo_mint)]"])
  show "replay (apply_timed (se_env demo_sync)) [(100, demo_mint)] ledger_new = Some demo_L1"
    by (simp add: apply_timed_def demo_run_mint)
  show "sync_message demo_sync demo_L1 \<noteq> []"
    by (simp add: sync_message_def demo_sync_def MAX_SYNC_PAYLOAD_def as_bytes_def)
  show "length j \<le> MAX_DECOMPRESSED_SIZE" if "se_ledger_to_json demo_sync demo_L1 = Some j" for j
    using that by (auto simp: demo_sync_def MAX_DECOMPRESSED_SIZE_def)
qed (simp_all add: demo_codec demo_mint_def sync_clock_def empty_sync_node_def MAX_TIMESTAMP_DRIFT_SECS_def
      saturating_sub_def checked_sub_def)

theorem peer_sets_burned_total_witness:
  "\<exists>sy'. handle_id demo_sync sync_clock (colon_join [''ID'', ''mallory'', uint_to_string (PUBLIC_SUPPLY_CAP - 1), uint_to_string (7 :: u128)])
      empty_sync_node = Some sy' \<and> total_burned_usd (distribution (sy_ledger sy')) = 7"
proof -
  have r: "remaining_supply (distribution (sy_ledger empty_sync_node)) = PUBLIC_SUPPLY_CAP"
    by (simp add: empty_sync_node_def ledger_new_def distribution_new_def)
  have "\<exists>sy'. handle_id demo_sync sync_clock (colon_join [''ID'', ''mallory'',
        uint_to_string (remaining_supply (distribution (sy_ledger empty_sync_node)) - 1), uint_to_string (7 :: u128)]) empty_sync_node = Some sy'
      \<and> sy_ledger sy' = (sy_ledger empty_sync_node)\<lparr>distribution := (distribution (sy_ledger empty_sync_node))\<lparr>total_burned_usd := 7\<rparr>\<rparr>"
    by (rule peer_sets_burned_total [where short = "''mallory''"])
      (simp_all add: r ledger_constants get_short_addr_def, simp_all add: empty_sync_node_def)
  then show ?thesis unfolding r by auto
qed

definition sync_mint :: block where
  "sync_mint = demo_mint\<lparr>blk_link := ''REWARD:mallory'', blk_amount := 2000000000000000000, blk_public_key := ''stranger''\<rparr>"

definition mint_sync :: sync_env where
  "mint_sync = demo_sync\<lparr>se_ledger_of_json := (\<lambda>_. Some (demo_L1\<lparr>blocks := [(''h'', sync_mint)]\<rparr>))\<rparr>"

theorem sync_mints_for_anyone_witness:
  "\<exists>sy'. handle_sync_gzip mint_sync sync_clock [] empty_sync_node = Some sy'
    \<and> acc_balance (account_or_default (sy_ledger sy') ''LOSA'') = 2000000000000000000"
proof -
  have env: "se_env mint_sync = demo_env" by (simp add: mint_sync_def demo_sync_def demo_node_env_def)
  have "sync_accepts demo_env sync_mint"
    by (simp add: sync_accepts_def demo_pow crypto_verify_signature_def verify_dilithium5_def)
  moreover have "verify_signature demo_env sync_mint" by (simp add: demo_signature sync_mint_def demo_mint_def)
  ultimately have "\<exists>sy'. handle_sync_gzip mint_sync sync_clock [] empty_sync_node = Some sy'
      \<and> acc_balance (account_or_default (sy_ledger sy') (blk_account sync_mint))
        = saturating_add (acc_balance (account_or_default (sy_ledger empty_sync_node) (blk_account sync_mint))) (blk_amount sync_mint)"
    by (intro sync_mints_for_anyone [where M = "demo_L1\<lparr>blocks := [(''h'', sync_mint)]\<rparr>" and h = "''h''"])
      (simp_all add: env, simp_all add: sync_mint_def demo_mint_def empty_sync_node_def sync_clock_def ledger_new_def distribution_new_def
        saturating_sub_def checked_sub_def check_timestamp_def account_or_default_def ledger_constants starts_with_def
        MAX_TIMESTAMP_DRIFT_SECS_def incoming_ledger_def mint_sync_def demo_sync_def)
  then show ?thesis
    by (simp add: sync_mint_def demo_mint_def empty_sync_node_def ledger_new_def account_or_default_def saturating_add_def checked_add_def)
qed

theorem history_is_complete_witness:
  "\<exists>bs. account_history demo_L3 ''LOSA'' = Some bs \<and> of_nat (length bs) = (2 :: u64) \<and> (\<forall>b \<in> set bs. blk_account b = ''LOSA'')"
proof -
  have "\<forall>b. calculate_hash demo_env b \<noteq> ''0''" by (simp add: demo_hash)
  moreover obtain st where "bt_get (accounts demo_L3) ''LOSA'' = Some st" "acc_block_count st = 2"
    by (simp add: demo_L3_def demo_L2_def)
  ultimately show ?thesis using history_is_complete [OF demo_reach(3)] by fastforce
qed

end
