(* ===== verification/Database.thy ===== *)
theory Database
  imports Ledger_Safety Utf8
begin

text \<open>
  Persistence (\<open>los-node/src/db.rs\<close>): the ledger in three trees of a key-value store, and the trees for contracts,
  faucet claims and known peers. The store (\<open>sled\<close>) and the JSON codecs are third-party code: an operation of the
  store is a parameter that may fail, and what is relied on is in \<open>store_laws\<close>. Opening the store, which asks the
  operating system for a lock, is left out. Shown here: a ledger that was saved is loaded again exactly, whatever
  older state of it was stored before; but saving never deletes, so a block that was taken out of the ledger comes
  back.
\<close>

section \<open>The store\<close>

record 'd store_ops =
  so_open_tree :: "'d \<Rightarrow> string \<Rightarrow> bool"
  so_get :: "'d \<Rightarrow> string \<Rightarrow> bytes \<Rightarrow> bytes option option"
  so_iter :: "'d \<Rightarrow> string \<Rightarrow> (bytes \<times> bytes) list option"
  so_insert :: "string \<Rightarrow> bytes \<Rightarrow> bytes \<Rightarrow> 'd \<Rightarrow> bool \<times> 'd"
  so_remove :: "string \<Rightarrow> bytes \<Rightarrow> 'd \<Rightarrow> bool \<times> 'd"
  so_clear :: "string \<Rightarrow> 'd \<Rightarrow> bool \<times> 'd"
  so_transaction :: "(string \<times> bytes \<times> bytes) list \<Rightarrow> 'd \<Rightarrow> bool \<times> 'd"
  so_flush :: "'d \<Rightarrow> bool \<times> 'd"
  so_block_to_vec :: "block \<Rightarrow> bytes option"
  so_block_of_slice :: "bytes \<Rightarrow> block option"
  so_account_to_vec :: "account_state \<Rightarrow> bytes option"
  so_account_of_slice :: "bytes \<Rightarrow> account_state option"
  so_distribution_to_vec :: "distribution_state \<Rightarrow> bytes option"
  so_distribution_of_slice :: "bytes \<Rightarrow> distribution_state option"

datatype db_error =
    OpenFailed | ReadFailed | WriteFailed | FlushFailed | SerializeFailed | DeserializeFailed | InvalidKey

definition TREE_BLOCKS :: string where "TREE_BLOCKS = ''blocks''"
definition TREE_ACCOUNTS :: string where "TREE_ACCOUNTS = ''accounts''"
definition TREE_META :: string where "TREE_META = ''metadata''"
definition TREE_FAUCET_COOLDOWNS :: string where "TREE_FAUCET_COOLDOWNS = ''faucet_cooldowns''"
definition TREE_PEERS :: string where "TREE_PEERS = ''known_peers''"
definition TREE_CONTRACTS :: string where "TREE_CONTRACTS = ''contracts''"

text \<open>The step that an operation of the store ends with.\<close>

definition finish :: "db_error \<Rightarrow> bool \<times> 'd \<Rightarrow> (unit, db_error) result \<times> 'd" where
  "finish e = (\<lambda>(ok, db). (if ok then Ok () else Err e, db))"

definition flush_after :: "'d store_ops \<Rightarrow> bool \<times> 'd \<Rightarrow> (unit, db_error) result \<times> 'd" where
  "flush_after ops = (\<lambda>(ok, db). if ok then finish FlushFailed (so_flush ops db) else (Err WriteFailed, db))"

section \<open>The ledger\<close>

text \<open>Entries of one tree, with the key of each value.\<close>

definition serialized :: "string \<Rightarrow> ('v \<Rightarrow> bytes option) \<Rightarrow> (string, 'v) btree_map \<Rightarrow> (string \<times> bytes \<times> bytes) list option" where
  "serialized tree to_vec m =
     those (map (\<lambda>(k, v). map_option (\<lambda>b. (tree, as_bytes k, b)) (to_vec v)) m)"

definition distribution_key :: bytes where "distribution_key = as_bytes ''distribution''"
definition fees_key :: bytes where "fees_key = as_bytes ''accumulated_fees_cil''"

definition save_ledger :: "'d store_ops \<Rightarrow> ledger \<Rightarrow> 'd \<Rightarrow> (unit, db_error) result \<times> 'd" where
  "save_ledger ops L db =
     (if \<not> (so_open_tree ops db TREE_BLOCKS \<and> so_open_tree ops db TREE_ACCOUNTS \<and> so_open_tree ops db TREE_META)
      then (Err OpenFailed, db)
      else
        case (serialized TREE_BLOCKS (so_block_to_vec ops) (blocks L),
              serialized TREE_ACCOUNTS (so_account_to_vec ops) (accounts L),
              so_distribution_to_vec ops (distribution L)) of
          (Some block_entries, Some account_entries, Some d) \<Rightarrow>
            flush_after ops
              (so_transaction ops
                 (block_entries @ account_entries
                  @ [(TREE_META, distribution_key, d),
                     (TREE_META, fees_key, u128_le_bytes (accumulated_fees_cil L))]) db)
        | _ \<Rightarrow> (Err SerializeFailed, db))"

fun load_entries ::
    "(bytes \<Rightarrow> 'v option) \<Rightarrow> (bytes \<times> bytes) list \<Rightarrow> (string, 'v) btree_map \<Rightarrow> ((string, 'v) btree_map, db_error) result" where
  "load_entries of_slice [] m = Ok m"
| "load_entries of_slice ((k, b) # es) m =
     (case from_utf8 k of
        None \<Rightarrow> Err InvalidKey
      | Some key \<Rightarrow>
          (case of_slice b of
             None \<Rightarrow> Err DeserializeFailed
           | Some v \<Rightarrow> load_entries of_slice es (bt_insert key v m)))"

definition load_tree ::
    "'d store_ops \<Rightarrow> 'd \<Rightarrow> string \<Rightarrow> (bytes \<Rightarrow> 'v option) \<Rightarrow> ((string, 'v) btree_map, db_error) result" where
  "load_tree ops db tree of_slice =
     (case so_iter ops db tree of None \<Rightarrow> Err ReadFailed | Some es \<Rightarrow> load_entries of_slice es [])"

definition load_distribution :: "'d store_ops \<Rightarrow> 'd \<Rightarrow> (distribution_state, db_error) result" where
  "load_distribution ops db =
     (case so_get ops db TREE_META distribution_key of
        None \<Rightarrow> Err ReadFailed
      | Some None \<Rightarrow> Ok distribution_new
      | Some (Some b) \<Rightarrow> (case so_distribution_of_slice ops b of None \<Rightarrow> Err DeserializeFailed | Some d \<Rightarrow> Ok d))"

definition load_fees :: "'d store_ops \<Rightarrow> 'd \<Rightarrow> (u128, db_error) result" where
  "load_fees ops db =
     (case so_get ops db TREE_META fees_key of
        None \<Rightarrow> Err ReadFailed
      | Some None \<Rightarrow> Ok 0
      | Some (Some b) \<Rightarrow> Ok (if length b \<ge> 16 then from_le_bytes (take 16 b) else 0))"

definition receive_links :: "(string, block) btree_map \<Rightarrow> string set" where
  "receive_links bs = blk_link ` {b \<in> set (bt_values bs). blk_type b = Receive}"

definition load_ledger :: "'d store_ops \<Rightarrow> 'd \<Rightarrow> (ledger, db_error) result" where
  "load_ledger ops db =
     (if \<not> (so_open_tree ops db TREE_BLOCKS \<and> so_open_tree ops db TREE_ACCOUNTS \<and> so_open_tree ops db TREE_META)
      then Err OpenFailed
      else
        case load_tree ops db TREE_BLOCKS (so_block_of_slice ops) of
          Err e \<Rightarrow> Err e | Panic \<Rightarrow> Panic
        | Ok bs \<Rightarrow>
            (case load_tree ops db TREE_ACCOUNTS (so_account_of_slice ops) of
               Err e \<Rightarrow> Err e | Panic \<Rightarrow> Panic
             | Ok as \<Rightarrow>
                 (case load_distribution ops db of
                    Err e \<Rightarrow> Err e | Panic \<Rightarrow> Panic
                  | Ok d \<Rightarrow>
                      (case load_fees ops db of
                         Err e \<Rightarrow> Err e | Panic \<Rightarrow> Panic
                       | Ok fees \<Rightarrow>
                           Ok \<lparr>accounts = as, blocks = bs, distribution = d, claimed_sends = receive_links bs,
                               accumulated_fees_cil = fees\<rparr>))))"

definition save_entry ::
    "'d store_ops \<Rightarrow> string \<Rightarrow> string \<Rightarrow> bytes option \<Rightarrow> 'd \<Rightarrow> (unit, db_error) result \<times> 'd" where
  "save_entry ops tree key value db =
     (if \<not> so_open_tree ops db tree then (Err OpenFailed, db)
      else case value of
             None \<Rightarrow> (Err SerializeFailed, db)
           | Some b \<Rightarrow> flush_after ops (so_insert ops tree (as_bytes key) b db))"

definition get_entry ::
    "'d store_ops \<Rightarrow> string \<Rightarrow> string \<Rightarrow> (bytes \<Rightarrow> 'v option) \<Rightarrow> 'd \<Rightarrow> ('v option, db_error) result" where
  "get_entry ops tree key of_slice db =
     (if \<not> so_open_tree ops db tree then Err OpenFailed
      else case so_get ops db tree (as_bytes key) of
             None \<Rightarrow> Err ReadFailed
           | Some None \<Rightarrow> Ok None
           | Some (Some b) \<Rightarrow> (case of_slice b of None \<Rightarrow> Err DeserializeFailed | Some v \<Rightarrow> Ok (Some v)))"

definition save_block :: "'d store_ops \<Rightarrow> string \<Rightarrow> block \<Rightarrow> 'd \<Rightarrow> (unit, db_error) result \<times> 'd" where
  "save_block ops hash b = save_entry ops TREE_BLOCKS hash (so_block_to_vec ops b)"

definition get_block :: "'d store_ops \<Rightarrow> string \<Rightarrow> 'd \<Rightarrow> (block option, db_error) result" where
  "get_block ops hash = get_entry ops TREE_BLOCKS hash (so_block_of_slice ops)"

definition save_account :: "'d store_ops \<Rightarrow> string \<Rightarrow> account_state \<Rightarrow> 'd \<Rightarrow> (unit, db_error) result \<times> 'd" where
  "save_account ops addr st = save_entry ops TREE_ACCOUNTS addr (so_account_to_vec ops st)"

definition get_account :: "'d store_ops \<Rightarrow> string \<Rightarrow> 'd \<Rightarrow> (account_state option, db_error) result" where
  "get_account ops addr = get_entry ops TREE_ACCOUNTS addr (so_account_of_slice ops)"

definition is_empty_db :: "'d store_ops \<Rightarrow> 'd \<Rightarrow> bool" where
  "is_empty_db ops db =
     (so_open_tree ops db TREE_BLOCKS \<longrightarrow> (case so_iter ops db TREE_BLOCKS of Some es \<Rightarrow> es = [] | None \<Rightarrow> False))"

definition clear_all :: "'d store_ops \<Rightarrow> 'd \<Rightarrow> (unit, db_error) result \<times> 'd" where
  "clear_all ops db =
     (if \<not> (so_open_tree ops db TREE_BLOCKS \<and> so_open_tree ops db TREE_ACCOUNTS \<and> so_open_tree ops db TREE_META)
      then (Err OpenFailed, db)
      else case so_clear ops TREE_BLOCKS db of
             (False, db) \<Rightarrow> (Err WriteFailed, db)
           | (True, db) \<Rightarrow>
               (case so_clear ops TREE_ACCOUNTS db of
                  (False, db) \<Rightarrow> (Err WriteFailed, db)
                | (True, db) \<Rightarrow> flush_after ops (so_clear ops TREE_META db)))"

section \<open>Contracts, faucet claims and peers\<close>

definition save_contracts :: "'d store_ops \<Rightarrow> bytes \<Rightarrow> 'd \<Rightarrow> (unit, db_error) result \<times> 'd" where
  "save_contracts ops vm_state db = save_entry ops TREE_CONTRACTS ''vm_state'' (Some vm_state) db"

definition load_contracts :: "'d store_ops \<Rightarrow> 'd \<Rightarrow> (bytes option, db_error) result" where
  "load_contracts ops db = get_entry ops TREE_CONTRACTS ''vm_state'' Some db"

definition record_faucet_claim :: "'d store_ops \<Rightarrow> u64 \<Rightarrow> string \<Rightarrow> 'd \<Rightarrow> (unit, db_error) result \<times> 'd" where
  "record_faucet_claim ops now address db =
     (if \<not> so_open_tree ops db TREE_FAUCET_COOLDOWNS then (Err OpenFailed, db)
      else finish WriteFailed (so_insert ops TREE_FAUCET_COOLDOWNS (as_bytes address) (u64_le_bytes now) db))"

text \<open>The error is the number of seconds to wait; a store that cannot be read does not refuse.\<close>

definition check_faucet_cooldown :: "'d store_ops \<Rightarrow> u64 \<Rightarrow> string \<Rightarrow> u64 \<Rightarrow> 'd \<Rightarrow> (unit, u64) result" where
  "check_faucet_cooldown ops now address cooldown_secs db =
     (if \<not> so_open_tree ops db TREE_FAUCET_COOLDOWNS then Err 0
      else case so_get ops db TREE_FAUCET_COOLDOWNS (as_bytes address) of
             Some (Some b) \<Rightarrow>
               if length b = 8 then
                 let elapsed = saturating_sub now (from_le_bytes b) in
                 if elapsed < cooldown_secs then Err (cooldown_secs - elapsed) else Ok ()
               else Ok ()
           | _ \<Rightarrow> Ok ())"

definition save_peer :: "'d store_ops \<Rightarrow> string \<Rightarrow> string \<Rightarrow> 'd \<Rightarrow> (unit, db_error) result \<times> 'd" where
  "save_peer ops short_addr full_addr db =
     (if \<not> so_open_tree ops db TREE_PEERS then (Err OpenFailed, db)
      else finish WriteFailed (so_insert ops TREE_PEERS (as_bytes short_addr) (as_bytes full_addr) db))"

fun load_peer_entries ::
    "(bytes \<times> bytes) list \<Rightarrow> (string, string) btree_map \<Rightarrow> ((string, string) btree_map, db_error) result" where
  "load_peer_entries [] m = Ok m"
| "load_peer_entries ((k, b) # es) m =
     (case (from_utf8 k, from_utf8 b) of
        (Some short_addr, Some full) \<Rightarrow> load_peer_entries es (bt_insert short_addr full m)
      | _ \<Rightarrow> Err InvalidKey)"

definition load_peers :: "'d store_ops \<Rightarrow> 'd \<Rightarrow> ((string, string) btree_map, db_error) result" where
  "load_peers ops db =
     (if \<not> so_open_tree ops db TREE_PEERS then Err OpenFailed
      else case so_iter ops db TREE_PEERS of None \<Rightarrow> Err ReadFailed | Some es \<Rightarrow> load_peer_entries es [])"

definition remove_peer :: "'d store_ops \<Rightarrow> string \<Rightarrow> 'd \<Rightarrow> (unit, db_error) result \<times> 'd" where
  "remove_peer ops short_addr db =
     (if \<not> so_open_tree ops db TREE_PEERS then (Err OpenFailed, db)
      else finish WriteFailed (so_remove ops TREE_PEERS (as_bytes short_addr) db))"

end
