(* ===== verification/Database_Safety.thy ===== *)
theory Database_Safety
  imports Database "HOL-Library.AList"
begin

text \<open>
  The round trip of the ledger through the database, and what it does not give: entries that were removed from the
  ledger stay in the store.
\<close>

section \<open>What the store promises\<close>

text \<open>The documented behaviour of the store: reading does not fail, an iteration lists the entries of a tree, a
  transaction makes all its writes or none, and flushing changes nothing that can be read. The codecs read back what
  they wrote.\<close>

definition store_laws :: "'d store_ops \<Rightarrow> bool" where
  "store_laws ops \<longleftrightarrow>
     (\<forall>db t. \<exists>es. so_iter ops db t = Some es \<and> distinct (map fst es) \<and> (\<forall>k. so_get ops db t k = Some (map_of es k)))
     \<and> (\<forall>ws db ok db'. so_transaction ops ws db = (ok, db') \<longrightarrow>
          (\<forall>t. so_open_tree ops db' t = so_open_tree ops db t)
          \<and> (\<forall>t k. so_get ops db' t k =
               (case (if ok then map_of (rev (map (\<lambda>(t, k, v). ((t, k), v)) ws)) (t, k) else None) of
                  Some v \<Rightarrow> Some (Some v) | None \<Rightarrow> so_get ops db t k)))
     \<and> (\<forall>db ok db' t k. so_flush ops db = (ok, db') \<longrightarrow>
          so_open_tree ops db' t = so_open_tree ops db t \<and> so_get ops db' t k = so_get ops db t k)
     \<and> (\<forall>b v. so_block_to_vec ops b = Some v \<longrightarrow> so_block_of_slice ops v = Some b)
     \<and> (\<forall>b v. so_account_to_vec ops b = Some v \<longrightarrow> so_account_of_slice ops v = Some b)
     \<and> (\<forall>b v. so_distribution_to_vec ops b = Some v \<longrightarrow> so_distribution_of_slice ops v = Some b)"

lemma store_lawsD:
  assumes "store_laws ops"
  shows "\<exists>es. so_iter ops db t = Some es \<and> distinct (map fst es) \<and> (\<forall>k. so_get ops db t k = Some (map_of es k))"
    and "so_transaction ops ws db = (ok, db') \<Longrightarrow> so_open_tree ops db' t = so_open_tree ops db t"
    and "so_transaction ops ws db = (True, db') \<Longrightarrow> so_get ops db' t k =
           (case map_of (rev (map (\<lambda>(t, k, v). ((t, k), v)) ws)) (t, k) of Some v \<Rightarrow> Some (Some v) | None \<Rightarrow> so_get ops db t k)"
    and "so_flush ops db = (ok, db') \<Longrightarrow> so_open_tree ops db' t = so_open_tree ops db t \<and> so_get ops db' t k = so_get ops db t k"
    and "so_block_to_vec ops b = Some v \<Longrightarrow> so_block_of_slice ops v = Some b"
    and "so_account_to_vec ops st = Some v \<Longrightarrow> so_account_of_slice ops v = Some st"
    and "so_distribution_to_vec ops d = Some v \<Longrightarrow> so_distribution_of_slice ops v = Some d"
  using assms unfolding store_laws_def by (blast, blast, (simp; fail), blast+)

section \<open>Maps and entries\<close>

text \<open>Ordered maps with the same entries are the same.\<close>

lemma bt_eqI:
  assumes "bt_ok m" "bt_ok m'" "\<And>k. bt_get m k = bt_get m' k"
  shows "m = m'"
proof (rule map_sorted_distinct_set_unique [where f = fst])
  have set_iff: "set m = set m'" using assms by (auto simp: bt_entries_get)
  then show "set m = set m'" .
  have s: "sorted_wrt (<) (map fst m)" "sorted_wrt (<) (map fst m')" using assms(1,2) by (simp_all add: bt_ok_sorted)
  then show "sorted (map fst m)" "distinct (map fst m)" "sorted (map fst m')" "distinct (map fst m')"
    by (simp_all add: strict_sorted_iff)
  then show "inj_on fst (set m \<union> set m')" using set_iff by (simp add: distinct_map)
qed

lemma serialized_Some:
  assumes "serialized tree to_vec m = Some es"
  shows "es = map (\<lambda>(k, v). (tree, as_bytes k, the (to_vec v))) m" "\<forall>(k, v) \<in> set m. to_vec v \<noteq> None"
proof -
  have "es = map (\<lambda>(k, v). (tree, as_bytes k, the (to_vec v))) m \<and> (\<forall>(k, v) \<in> set m. to_vec v \<noteq> None)"
    using assms unfolding serialized_def
    by (induction m arbitrary: es) (auto split: option.splits)
  then show "es = map (\<lambda>(k, v). (tree, as_bytes k, the (to_vec v))) m" "\<forall>(k, v) \<in> set m. to_vec v \<noteq> None" by auto
qed

lemma load_entries_ok:
  assumes "\<forall>(k, b) \<in> set es. utf8_valid k \<and> of_slice b \<noteq> None" "distinct (map fst es)" "bt_ok m"
  shows "\<exists>m'. load_entries of_slice es m = Ok m' \<and> bt_ok m'
    \<and> (\<forall>key. bt_get m' key = (case map_of es (as_bytes key) of Some b \<Rightarrow> of_slice b | None \<Rightarrow> bt_get m key))"
  using assms
proof (induction es arbitrary: m)
  case (Cons e es)
  obtain k b where e: "e = (k, b)" by fastforce
  obtain v where v: "of_slice b = Some v" and k: "from_utf8 k = Some (string_of_bytes k)"
    using Cons.prems(1) by (auto simp: e from_utf8_eq_Some)
  obtain m' where m': "load_entries of_slice es (bt_insert (string_of_bytes k) v m) = Ok m'" "bt_ok m'"
      "\<And>key. bt_get m' key = (case map_of es (as_bytes key) of Some b \<Rightarrow> of_slice b
         | None \<Rightarrow> bt_get (bt_insert (string_of_bytes k) v m) key)"
    using Cons.IH [of "bt_insert (string_of_bytes k) v m"] Cons.prems by (auto simp: e)
  have "map_of es k = None" using Cons.prems(2) by (auto simp: e map_of_eq_None_iff)
  moreover have "as_bytes key = k \<longleftrightarrow> key = string_of_bytes k" for key by auto
  ultimately show ?case using m' v k by (auto simp: e split: option.splits)
qed simp

text \<open>A tree that holds the entries of a map and no other key is loaded as that map.\<close>

lemma load_tree_exact:
  assumes "store_laws ops" "bt_ok m"
    and "\<And>key. so_get ops db t (as_bytes key) = Some (Option.bind (bt_get m key) to_vec)"
    and "\<And>k v. so_get ops db t k = Some (Some v) \<Longrightarrow> k \<in> as_bytes ` (fst ` set m)"
    and "\<forall>(k, v) \<in> set m. utf8_valid (as_bytes k) \<and> to_vec v \<noteq> None"
    and "\<And>v b. to_vec v = Some b \<Longrightarrow> of_slice b = Some v"
  shows "load_tree ops db t of_slice = Ok m"
proof -
  obtain es where es: "so_iter ops db t = Some es" "distinct (map fst es)" "\<And>k. so_get ops db t k = Some (map_of es k)"
    using store_lawsD(1) [OF assms(1)] by blast
  have entry: "\<exists>key v. k = as_bytes key \<and> (key, v) \<in> set m \<and> to_vec v = Some b" if "(k, b) \<in> set es" for k b
  proof -
    have kb: "map_of es k = Some b" using es(2) that by simp
    then have "k \<in> as_bytes ` (fst ` set m)" using assms(4) [of k b] es(3) [of k] by simp
    then obtain key where key: "k = as_bytes key" by blast
    then have "Option.bind (bt_get m key) to_vec = Some b" using assms(3) [of key] es(3) kb by simp
    then show ?thesis using key assms(2) by (auto simp: bind_eq_Some_conv bt_entries_get)
  qed
  have "\<forall>(k, b) \<in> set es. utf8_valid k \<and> of_slice b \<noteq> None"
    using entry assms(5,6) by fastforce
  then obtain m' where m': "load_entries of_slice es [] = Ok m'" "bt_ok m'"
      "\<And>key. bt_get m' key = (case map_of es (as_bytes key) of Some b \<Rightarrow> of_slice b | None \<Rightarrow> bt_get [] key)"
    using load_entries_ok [OF _ es(2), of of_slice "[]"] by auto
  have "bt_get m' key = bt_get m key" for key
  proof (cases "bt_get m key")
    case None
    then have "map_of es (as_bytes key) = None" using assms(3) [of key] es(3) by simp
    with None m'(3) show ?thesis by simp
  next
    case (Some v)
    then obtain b where "to_vec v = Some b" using assms(2,5) by (fastforce simp: bt_entries_get)
    then have "map_of es (as_bytes key) = Some b" "of_slice b = Some v" using Some assms(3) [of key] assms(6) es(3) by auto
    with Some m'(3) show ?thesis by simp
  qed
  then have "m' = m" by (rule bt_eqI [OF m'(2) assms(2)])
  with es(1) m'(1) show ?thesis by (simp add: load_tree_def)
qed

section \<open>The round trip\<close>

text \<open>Claimed sends are the links of the Receive blocks, so that they can be rebuilt.\<close>

definition claims_rebuilt :: "ledger \<Rightarrow> bool" where
  "claims_rebuilt L \<longleftrightarrow> claimed_sends L = blk_link ` {b. \<exists>h. bt_get (blocks L) h = Some b \<and> blk_type b = Receive}"

lemma bt_insert_values:
  assumes "bt_get m k = None"
  shows "(\<exists>h. bt_get (bt_insert k b m) h = Some c \<and> Q c) \<longleftrightarrow> (\<exists>h. bt_get m h = Some c \<and> Q c) \<or> c = b \<and> Q b"
proof -
  have "bt_get (bt_insert k b m) h = Some c \<longleftrightarrow> (if h = k then c = b else bt_get m h = Some c)" for h by auto
  then show ?thesis using assms by (metis option.distinct(1))
qed

lemma process_block_claims:
  assumes "process_block env now b L = (r, L')" "claims_rebuilt L"
  shows "claims_rebuilt L'"
  using assms(1)
proof (cases rule: process_block_cases)
  case (applied st1 L1)
  let ?P = "\<lambda>L b. \<exists>h. bt_get (blocks L) h = Some b \<and> blk_type b = Receive"
  note fr = process_transaction_frame [OF applied(9)]
  have "?P L' c \<longleftrightarrow> ?P L c \<or> c = b \<and> blk_type b = Receive" for c
    using bt_insert_values [OF applied(5), of b c "\<lambda>c. blk_type c = Receive"] by (simp add: applied(10) fr)
  then have "{c. ?P L' c} = {c. ?P L c} \<union> (if blk_type b = Receive then {b} else {})" by auto
  then show ?thesis
    using assms(2) fr unfolding claims_rebuilt_def by (simp add: applied(10))
qed (use assms in simp)

lemma claim_fees_claims: "claim_accumulated_fees L = (f, L') \<Longrightarrow> claims_rebuilt L \<Longrightarrow> claims_rebuilt L'"
  unfolding claim_accumulated_fees_def claims_rebuilt_def by (elim Pair_inject, hypsubst) simp

text \<open>Blocks and accounts are added and replaced, never taken away.\<close>

definition keys_kept :: "ledger \<Rightarrow> ledger \<Rightarrow> bool" where
  "keys_kept L L' \<longleftrightarrow> (\<forall>k. bt_get (blocks L) k \<noteq> None \<longrightarrow> bt_get (blocks L') k \<noteq> None)
     \<and> (\<forall>k. bt_get (accounts L) k \<noteq> None \<longrightarrow> bt_get (accounts L') k \<noteq> None)"

lemma process_block_maps:
  assumes "process_block env now b L = (r, L')"
  shows "keys_kept L L'" "maps_ok L \<Longrightarrow> maps_ok L'"
proof -
  have "keys_kept L L' \<and> (maps_ok L \<longrightarrow> maps_ok L')"
    using assms
  proof (cases rule: process_block_cases)
    case (applied st1 L1)
    with process_transaction_frame [OF applied(9)] show ?thesis by (simp add: keys_kept_def maps_ok_def)
  qed (simp add: keys_kept_def)
  then show "keys_kept L L'" "maps_ok L \<Longrightarrow> maps_ok L'" by simp_all
qed

lemma claim_fees_maps:
  assumes "claim_accumulated_fees L = (f, L')"
  shows "keys_kept L L'" "maps_ok L \<Longrightarrow> maps_ok L'"
  using assms unfolding claim_accumulated_fees_def by (elim Pair_inject, hypsubst, simp add: keys_kept_def maps_ok_def)+

definition rebuildable :: "ledger \<Rightarrow> bool" where
  "rebuildable L \<longleftrightarrow> maps_ok L \<and> claims_rebuilt L"

lemmas step_rebuildable = process_block_claims process_block_maps(2) claim_fees_claims claim_fees_maps(2)

interpretation rebuild_sys: invariant_system "ledger_step env" rebuildable for env
  unfolding rebuildable_def by unfold_locales (erule ledger_stepE; blast dest: step_rebuildable)

lemma reach_keys_kept: "(ledger_step env)\<^sup>*\<^sup>* L L' \<Longrightarrow> keys_kept L L'"
proof (induction rule: rtranclp_induct)
  case (step L1 L2)
  have "keys_kept L1 L2" using step.hyps(2) by (rule ledger_stepE) (blast dest: process_block_maps(1) claim_fees_maps(1))+
  with step.IH show ?case unfolding keys_kept_def by blast
qed (simp add: keys_kept_def)

lemma receive_links_eq: "bt_ok bs \<Longrightarrow> receive_links bs = blk_link ` {b. \<exists>h. bt_get bs h = Some b \<and> blk_type b = Receive}"
  by (force simp: receive_links_def bt_values_def bt_entries_get [symmetric])

text \<open>What a successful save leaves in the store.\<close>

definition ledger_writes :: "'d store_ops \<Rightarrow> ledger \<Rightarrow> bytes \<Rightarrow> ((string \<times> bytes) \<times> bytes) list" where
  "ledger_writes ops L d =
     map (\<lambda>(k, v). ((TREE_BLOCKS, as_bytes k), the (so_block_to_vec ops v))) (blocks L)
     @ map (\<lambda>(k, v). ((TREE_ACCOUNTS, as_bytes k), the (so_account_to_vec ops v))) (accounts L)
     @ [((TREE_META, distribution_key), d), ((TREE_META, fees_key), u128_le_bytes (accumulated_fees_cil L))]"

lemmas tree_names = TREE_BLOCKS_def TREE_ACCOUNTS_def TREE_META_def

lemma inj_as_bytes: "as_bytes s = as_bytes t \<longleftrightarrow> s = t"
  by (metis string_of_bytes_as_bytes)

lemma distinct_tree_keys:
  assumes "bt_ok m"
  shows "distinct (map (\<lambda>x. (t, as_bytes (fst x))) m)"
proof -
  have "distinct (map fst m)" using bt_ok_sorted [OF assms] by (simp add: strict_sorted_iff)
  then have "distinct (map (\<lambda>k. (t, as_bytes k)) (map fst m))"
    by (simp add: distinct_map inj_on_def inj_as_bytes del: map_map)
  then show ?thesis by (simp add: comp_def)
qed

lemma ledger_writes_distinct:
  assumes "maps_ok L"
  shows "distinct (map fst (ledger_writes ops L d))"
  using assms
  by (auto simp: ledger_writes_def maps_ok_def comp_def case_prod_beta tree_names distribution_key_def fees_key_def
      inj_as_bytes distinct_tree_keys)

lemma save_ledger_Ok:
  assumes "store_laws ops" "save_ledger ops L db = (Ok u, db')" "maps_ok L"
  obtains d where "so_distribution_to_vec ops (distribution L) = Some d"
    "\<forall>(k, v) \<in> set (blocks L). so_block_to_vec ops v \<noteq> None" "\<forall>(k, v) \<in> set (accounts L). so_account_to_vec ops v \<noteq> None"
    "\<forall>t \<in> {TREE_BLOCKS, TREE_ACCOUNTS, TREE_META}. so_open_tree ops db' t"
    "\<And>t k v. ((t, k), v) \<in> set (ledger_writes ops L d) \<Longrightarrow> so_get ops db' t k = Some (Some v)"
    "\<And>t k. (t, k) \<notin> fst ` set (ledger_writes ops L d) \<Longrightarrow> so_get ops db' t k = so_get ops db t k"
proof -
  obtain be ae d where e: "serialized TREE_BLOCKS (so_block_to_vec ops) (blocks L) = Some be"
      "serialized TREE_ACCOUNTS (so_account_to_vec ops) (accounts L) = Some ae"
      "so_distribution_to_vec ops (distribution L) = Some d"
    and opened: "so_open_tree ops db TREE_BLOCKS" "so_open_tree ops db TREE_ACCOUNTS" "so_open_tree ops db TREE_META"
    using assms(2) by (auto simp: save_ledger_def split: if_splits option.splits)
  let ?ws = "be @ ae @ [(TREE_META, distribution_key, d), (TREE_META, fees_key, u128_le_bytes (accumulated_fees_cil L))]"
  obtain db1 where t: "so_transaction ops ?ws db = (True, db1)" and f: "so_flush ops db1 = (True, db')"
    using assms(2) e opened by (auto simp: save_ledger_def flush_after_def finish_def split: prod.splits if_splits)
  have ws: "map (\<lambda>(t, k, v). ((t, k), v)) ?ws = ledger_writes ops L d"
    by (simp add: serialized_Some(1) [OF e(1)] serialized_Some(1) [OF e(2)] ledger_writes_def comp_def case_prod_beta)
  have get: "so_get ops db' t k = (case map_of (rev (ledger_writes ops L d)) (t, k) of Some v \<Rightarrow> Some (Some v) | None \<Rightarrow> so_get ops db t k)" for t k
    using store_lawsD(3) [OF assms(1) t] store_lawsD(4) [OF assms(1) f] unfolding ws by metis
  have iff: "map_of (rev (ledger_writes ops L d)) x = Some v \<longleftrightarrow> (x, v) \<in> set (ledger_writes ops L d)" for x v
    using ledger_writes_distinct [OF assms(3)] by (subst map_of_eq_Some_iff) (simp_all add: rev_map [symmetric])
  show thesis
  proof (rule that)
    show "so_get ops db' t k = Some (Some v)" if "((t, k), v) \<in> set (ledger_writes ops L d)" for t k v
    proof -
      have "map_of (rev (ledger_writes ops L d)) (t, k) = Some v" using that iff by simp
      then show ?thesis by (simp add: get)
    qed
    show "so_get ops db' t k = so_get ops db t k" if "(t, k) \<notin> fst ` set (ledger_writes ops L d)" for t k
    proof -
      have "map_of (rev (ledger_writes ops L d)) (t, k) = None" using that by (simp add: map_of_eq_None_iff)
      then show ?thesis by (simp add: get)
    qed
    show "\<forall>t \<in> {TREE_BLOCKS, TREE_ACCOUNTS, TREE_META}. so_open_tree ops db' t"
      using opened store_lawsD(2) [OF assms(1) t] store_lawsD(4) [OF assms(1) f] by simp
  qed (use e(3) serialized_Some(2) [OF e(1)] serialized_Some(2) [OF e(2)] in auto)
qed

text \<open>What is known of a store that was loaded: its trees hold no key that the ledger does not have.\<close>

lemma load_entries_keys:
  assumes "load_entries of_slice es m = Ok m'" "bt_ok m"
  shows "bt_ok m' \<and> (\<forall>k. bt_get m k \<noteq> None \<longrightarrow> bt_get m' k \<noteq> None)
    \<and> (\<forall>k \<in> fst ` set es. \<exists>key. k = as_bytes key \<and> bt_get m' key \<noteq> None)"
  using assms
proof (induction es arbitrary: m)
  case (Cons e es)
  obtain k b where e: "e = (k, b)" by fastforce
  obtain key v where kv: "from_utf8 k = Some key" "load_entries of_slice es (bt_insert key v m) = Ok m'"
    using Cons.prems(1) by (auto simp: e split: option.splits)
  have "k = as_bytes key" using kv(1) by (auto simp: from_utf8_eq_Some)
  moreover have "bt_get m' key \<noteq> None" using Cons.IH [OF kv(2)] Cons.prems(2) by simp
  ultimately show ?case using Cons.IH [OF kv(2)] Cons.prems(2) by (auto simp: e)
qed simp

lemma load_tree_keys:
  assumes "store_laws ops" "load_tree ops db t of_slice = Ok m"
  shows "bt_ok m" "so_get ops db t k = Some (Some v) \<Longrightarrow> \<exists>key. k = as_bytes key \<and> bt_get m key \<noteq> None"
proof -
  obtain es where es: "so_iter ops db t = Some es" "\<And>k. so_get ops db t k = Some (map_of es k)"
    using store_lawsD(1) [OF assms(1)] by blast
  then have l: "load_entries of_slice es [] = Ok m" using assms(2) by (simp add: load_tree_def)
  have keys: "bt_ok m \<and> (\<forall>k \<in> fst ` set es. \<exists>key. k = as_bytes key \<and> bt_get m key \<noteq> None)"
    using load_entries_keys [OF l bt_ok_Nil] by blast
  show "bt_ok m" using keys by simp
  show "\<exists>key. k = as_bytes key \<and> bt_get m key \<noteq> None" if "so_get ops db t k = Some (Some v)"
  proof -
    have "map_of es k = Some v" using that es(2) by simp
    then have "k \<in> fst ` set es" by (force dest: map_of_SomeD)
    then show ?thesis using keys by blast
  qed
qed

lemma load_ledger_Ok:
  assumes "load_ledger ops db = Ok L"
  shows "load_tree ops db TREE_BLOCKS (so_block_of_slice ops) = Ok (blocks L)"
    "load_tree ops db TREE_ACCOUNTS (so_account_of_slice ops) = Ok (accounts L)" "claimed_sends L = receive_links (blocks L)"
  using assms by (auto simp: load_ledger_def split: if_splits result.splits)

lemma load_ledger_rebuildable:
  assumes "store_laws ops" "load_ledger ops db = Ok L"
  shows "rebuildable L"
proof -
  note ok = load_ledger_Ok [OF assms(2)]
  have "bt_ok (blocks L)" "bt_ok (accounts L)" using load_tree_keys(1) [OF assms(1)] ok by blast+
  with ok(3) show ?thesis by (simp add: rebuildable_def maps_ok_def claims_rebuilt_def receive_links_eq)
qed

text \<open>A store holds no key of a block or an account that a ledger lacks.\<close>

definition stored_within :: "'d store_ops \<Rightarrow> 'd \<Rightarrow> ledger \<Rightarrow> bool" where
  "stored_within ops db L \<longleftrightarrow>
     (\<forall>k v. so_get ops db TREE_BLOCKS k = Some (Some v) \<longrightarrow> (\<exists>key. k = as_bytes key \<and> bt_get (blocks L) key \<noteq> None))
     \<and> (\<forall>k v. so_get ops db TREE_ACCOUNTS k = Some (Some v) \<longrightarrow> (\<exists>key. k = as_bytes key \<and> bt_get (accounts L) key \<noteq> None))"

lemma load_ledger_within: "store_laws ops \<Longrightarrow> load_ledger ops db = Ok L \<Longrightarrow> stored_within ops db L"
  unfolding stored_within_def by (meson load_ledger_Ok(1,2) load_tree_keys(2))

lemma stored_within_kept: "stored_within ops db L \<Longrightarrow> keys_kept L L' \<Longrightarrow> stored_within ops db L'"
  unfolding stored_within_def keys_kept_def by blast

text \<open>One tree after a save.\<close>

lemma saved_tree_loads:
  assumes laws: "store_laws ops" and m: "bt_ok m"
    and old: "\<And>k v. so_get ops db t k = Some (Some v) \<Longrightarrow> \<exists>key. k = as_bytes key \<and> bt_get m key \<noteq> None"
    and written: "\<And>key v. (key, v) \<in> set m \<Longrightarrow> so_get ops db' t (as_bytes key) = Some (Some (the (to_vec v)))"
    and kept: "\<And>k. k \<notin> as_bytes ` fst ` set m \<Longrightarrow> so_get ops db' t k = so_get ops db t k"
    and codec: "\<forall>(k, v) \<in> set m. utf8_valid (as_bytes k) \<and> to_vec v \<noteq> None"
      "\<And>v b. to_vec v = Some b \<Longrightarrow> of_slice b = Some v"
  shows "load_tree ops db' t of_slice = Ok m"
proof (rule load_tree_exact [OF laws m _ _ codec])
  have stored: "k \<in> as_bytes ` fst ` set m" if g: "so_get ops db t k = Some (Some v)" for k v
  proof -
    obtain key w where "k = as_bytes key" "bt_get m key = Some w" using old [OF g] by blast
    then have "(key, w) \<in> set m" using m by (simp add: bt_entries_get)
    with \<open>k = as_bytes key\<close> show ?thesis by force
  qed
  show "k \<in> as_bytes ` fst ` set m" if "so_get ops db' t k = Some (Some v)" for k v
    using stored [of k v] kept [of k] that by metis
  show "so_get ops db' t (as_bytes key) = Some (Option.bind (bt_get m key) to_vec)" for key
  proof (cases "bt_get m key")
    case None
    then have "as_bytes key \<notin> as_bytes ` fst ` set m" using m by (auto simp: inj_as_bytes bt_entries_get)
    moreover obtain o' where "so_get ops db t (as_bytes key) = Some o'" using store_lawsD(1) [OF laws] by blast
    ultimately show ?thesis using None kept [of "as_bytes key"] stored [of "as_bytes key"] by (cases o') auto
  next
    case (Some v)
    then have "(key, v) \<in> set m" using m by (simp add: bt_entries_get)
    with Some written codec(1) show ?thesis by fastforce
  qed
qed

lemma saved_ledger_loads:
  assumes "store_laws ops" "stored_within ops db L" "rebuildable L"
    and "\<forall>k \<in> fst ` set (blocks L) \<union> fst ` set (accounts L). utf8_valid (as_bytes k)"
    and "save_ledger ops L db = (Ok (), db')"
  shows "load_ledger ops db' = Ok L"
proof -
  note reb = assms(3) and old = assms(2) [unfolded stored_within_def]
  then have ok: "maps_ok L" "bt_ok (blocks L)" "bt_ok (accounts L)" by (simp_all add: rebuildable_def maps_ok_def)
  have u: "utf8_valid (as_bytes k)" if "(k, v) \<in> set (blocks L) \<or> (k, w) \<in> set (accounts L)" for k v w
    using assms(4) that by force
  obtain d where d: "so_distribution_to_vec ops (distribution L) = Some d"
    and sb: "\<forall>(k, v) \<in> set (blocks L). so_block_to_vec ops v \<noteq> None"
    and sa: "\<forall>(k, v) \<in> set (accounts L). so_account_to_vec ops v \<noteq> None"
    and opened: "\<forall>t \<in> {TREE_BLOCKS, TREE_ACCOUNTS, TREE_META}. so_open_tree ops db' t"
    and new: "\<And>t k v. ((t, k), v) \<in> set (ledger_writes ops L d) \<Longrightarrow> so_get ops db' t k = Some (Some v)"
    and same: "\<And>t k. (t, k) \<notin> fst ` set (ledger_writes ops L d) \<Longrightarrow> so_get ops db' t k = so_get ops db t k"
    using save_ledger_Ok [OF assms(1,5) ok(1)] by metis
  have "load_tree ops db' TREE_BLOCKS (so_block_of_slice ops) = Ok (blocks L)"
  proof (rule saved_tree_loads [OF assms(1) ok(2)])
    show "so_get ops db' TREE_BLOCKS (as_bytes key) = Some (Some (the (so_block_to_vec ops v)))" if "(key, v) \<in> set (blocks L)" for key v
      by (rule new) (use that in \<open>force simp: ledger_writes_def\<close>)
    show "so_get ops db' TREE_BLOCKS k = so_get ops db TREE_BLOCKS k" if "k \<notin> as_bytes ` fst ` set (blocks L)" for k
      by (rule same) (use that in \<open>force simp: ledger_writes_def tree_names\<close>)
  qed (use u sb old store_lawsD(5) [OF assms(1)] in auto)
  moreover have "load_tree ops db' TREE_ACCOUNTS (so_account_of_slice ops) = Ok (accounts L)"
  proof (rule saved_tree_loads [OF assms(1) ok(3)])
    show "so_get ops db' TREE_ACCOUNTS (as_bytes key) = Some (Some (the (so_account_to_vec ops v)))" if "(key, v) \<in> set (accounts L)" for key v
      by (rule new) (use that in \<open>force simp: ledger_writes_def\<close>)
    show "so_get ops db' TREE_ACCOUNTS k = so_get ops db TREE_ACCOUNTS k" if "k \<notin> as_bytes ` fst ` set (accounts L)" for k
      by (rule same) (use that in \<open>force simp: ledger_writes_def tree_names\<close>)
  qed (use u sa old store_lawsD(6) [OF assms(1)] in auto)
  moreover have "load_distribution ops db' = Ok (distribution L)"
    using new [of TREE_META distribution_key d] store_lawsD(7) [OF assms(1) d] by (simp add: load_distribution_def ledger_writes_def)
  moreover have "load_fees ops db' = Ok (accumulated_fees_cil L)"
    using new [of TREE_META fees_key "u128_le_bytes (accumulated_fees_cil L)"] by (simp add: load_fees_def ledger_writes_def)
  moreover have "claimed_sends L = receive_links (blocks L)"
    using reb ok(2) by (simp add: rebuildable_def claims_rebuilt_def receive_links_eq)
  ultimately show ?thesis using opened by (simp add: load_ledger_def)
qed


section \<open>A store in memory\<close>

definition mem_iter :: "((string \<times> bytes) \<times> bytes) list \<Rightarrow> string \<Rightarrow> (bytes \<times> bytes) list" where
  "mem_iter db t = map (\<lambda>((t', k), v). (k, v)) (filter (\<lambda>((t', k), v). t' = t) (AList.clearjunk db))"

text \<open>A codec for the members of a list: the position.\<close>

definition pick :: "'v list \<Rightarrow> 'v \<Rightarrow> bytes option" where
  "pick xs v = map_option (\<lambda>i. [of_nat i]) (List.find (\<lambda>i. xs ! i = v) [0..<length xs])"

definition unpick :: "'v list \<Rightarrow> bytes \<Rightarrow> 'v option" where
  "unpick xs b = (case b of [i] \<Rightarrow> (if unat i < length xs then Some (xs ! unat i) else None) | _ \<Rightarrow> None)"

lemma unpick_pick: "length xs < 256 \<Longrightarrow> pick xs v = Some b \<Longrightarrow> unpick xs b = Some v"
  by (auto simp: pick_def unpick_def find_Some_iff unat_of_nat_small)

definition mem_store :: "account_state list \<Rightarrow> ((string \<times> bytes) \<times> bytes) list store_ops" where
  "mem_store accs =
     \<lparr>so_open_tree = \<lambda>db t. True, so_get = \<lambda>db t k. Some (map_of db (t, k)), so_iter = \<lambda>db t. Some (mem_iter db t),
      so_insert = \<lambda>t k v db. (True, ((t, k), v) # db), so_remove = \<lambda>t k db. (True, AList.delete (t, k) db),
      so_clear = \<lambda>t db. (True, filter (\<lambda>((t', k), v). t' \<noteq> t) db),
      so_transaction = \<lambda>ws db. (True, rev (map (\<lambda>(t, k, v). ((t, k), v)) ws) @ db), so_flush = \<lambda>db. (True, db),
      so_block_to_vec = pick [demo_mint], so_block_of_slice = unpick [demo_mint],
      so_account_to_vec = pick accs, so_account_of_slice = unpick accs,
      so_distribution_to_vec = pick [distribution demo_L1], so_distribution_of_slice = unpick [distribution demo_L1]\<rparr>"

lemma mem_iter_laws: "distinct (map fst (mem_iter db t))" "map_of (mem_iter db t) k = map_of db (t, k)"
proof -
  have d: "distinct (map fst (AList.clearjunk db))" by (rule distinct_clearjunk)
  have "distinct (map fst xs) \<Longrightarrow>
      distinct (map fst (map (\<lambda>((t', k), v). (k, v)) (filter (\<lambda>((t', k), v). t' = t) xs)))
      \<and> map_of (map (\<lambda>((t', k), v). (k, v)) (filter (\<lambda>((t', k), v). t' = t) xs)) k = map_of xs (t, k)"
    for xs :: "((string \<times> bytes) \<times> bytes) list"
    by (induction xs) (force split: if_splits)+
  from this [OF d] show "distinct (map fst (mem_iter db t))" "map_of (mem_iter db t) k = map_of db (t, k)"
    by (simp_all add: mem_iter_def map_of_clearjunk)
qed

lemma mem_store_laws: "length accs < 256 \<Longrightarrow> store_laws (mem_store accs)"
  unfolding store_laws_def
  by (auto simp: mem_store_def mem_iter_laws unpick_pick map_add_def split: option.splits)

lemma mem_store_empty: "load_ledger (mem_store accs) [] = Ok ledger_new"
  by (simp add: load_ledger_def load_tree_def load_distribution_def load_fees_def mem_store_def mem_iter_def ledger_new_def
      receive_links_def bt_values_def)

lemma demo_L1_keys: "\<forall>k \<in> fst ` set (blocks demo_L1) \<union> fst ` set (accounts demo_L1). utf8_valid (as_bytes k)"
  by (simp add: demo_L1_def demo_hash demo_mint_def as_bytes_def utf8_valid_ascii char_of_def bit_0)

lemma mem_store_saves:
  assumes "blocks L = blocks demo_L1" "distribution L = distribution demo_L1" "set (bt_values (accounts L)) \<subseteq> set accs"
  shows "save_ledger (mem_store accs) L db = (Ok (), snd (save_ledger (mem_store accs) L db))"
proof -
  have p: "\<forall>st \<in> set accs. pick accs st \<noteq> None"
    by (auto simp: pick_def find_None_iff in_set_conv_nth)
  have "those (map (\<lambda>(k, v). map_option (\<lambda>b. (TREE_ACCOUNTS, as_bytes k, b)) (pick accs v)) m) \<noteq> None"
    if "set (bt_values m) \<subseteq> set accs" for m :: "(string, account_state) btree_map"
    using that p by (induction m) (auto simp: bt_values_def split: option.splits)
  from this [OF assms(3)] show ?thesis
    by (auto simp: save_ledger_def serialized_def mem_store_def flush_after_def finish_def assms(1,2))
      (simp add: demo_L1_def pick_def flush_after_def finish_def)
qed


text \<open>Saving never deletes: an entry that the ledger no longer has stays in the store, and is loaded again.\<close>

lemma removed_block_returns:
  assumes "store_laws ops" "maps_ok L" "save_ledger ops L db = (Ok (), db')"
    and "bt_get (blocks L) h = None" "so_get ops db TREE_BLOCKS (as_bytes h) = Some (Some v)" "load_ledger ops db' = Ok L'"
  shows "bt_get (blocks L') h \<noteq> None"
proof -
  obtain d where same: "\<And>t k. (t, k) \<notin> fst ` set (ledger_writes ops L d) \<Longrightarrow> so_get ops db' t k = so_get ops db t k"
    using save_ledger_Ok [OF assms(1,3,2)] by metis
  have "so_get ops db' TREE_BLOCKS (as_bytes h) = Some (Some v)"
    unfolding assms(5) [symmetric]
    by (rule same) (use assms(2,4) in \<open>auto simp: ledger_writes_def tree_names inj_as_bytes maps_ok_def bt_entries_get\<close>)
  from load_tree_keys(2) [OF assms(1) load_ledger_Ok(1) [OF assms(6)] this] show ?thesis by (auto simp: inj_as_bytes)
qed

end
