(* ===== verification/Node_Start.thy ===== *)
theory Node_Start
  imports Genesis Database_Safety Node_Validators Checkpoint Wasm_Engine
begin

text \<open>
  The start of a node and its save task (\<open>los-node/src/main.rs\<close>, from \<open>save_to_disk_internal\<close> to the tasks that
  \<open>main\<close> spawns): loading the ledger from the database or from the old JSON file, adding the genesis accounts, the
  reward pool, the endpoints, the safety records, the account of the node, the consensus engine and the contracts; then
  the task that saves the ledger every five seconds and makes checkpoints. The store, the checkpoint store, files and
  JSON are parameters. The copies in \<open>backups/\<close>, which nothing reads, are left out.
\<close>

section \<open>The ledger on disk\<close>

record 'd disk =
  dk_db :: 'd
  dk_legacy :: "string option"
  dk_in_progress :: bool
  dk_dirty :: bool

record 'd start_env =
  st_node :: node_env
  st_store :: "'d store_ops"
  st_ledger_to_json :: "ledger \<Rightarrow> string option"
  st_ledger_of_json :: "string \<Rightarrow> ledger option"
  st_write_ok :: bool
  st_rename_ok :: bool
  st_vm_of_json :: "bytes \<Rightarrow> ((string, contract) btree_map \<times> (string, u64) btree_map) option"
  st_secret_key :: bytes
  st_onion :: "string option"

abbreviation st_env :: "'d start_env \<Rightarrow> los_env" where
  "st_env se \<equiv> ne_env (st_node se)"

definition save_to_disk_legacy :: "'d start_env \<Rightarrow> ledger \<Rightarrow> 'd disk \<Rightarrow> 'd disk" where
  "save_to_disk_legacy se L dk =
     (case st_ledger_to_json se L of
        None \<Rightarrow> dk
      | Some data \<Rightarrow> if st_write_ok se then dk\<lparr>dk_legacy := Some data\<rparr> else dk)"

definition save_to_disk_internal :: "'d start_env \<Rightarrow> bool \<Rightarrow> ledger \<Rightarrow> 'd disk \<Rightarrow> 'd disk" where
  "save_to_disk_internal se force L dk =
     (if \<not> force \<and> dk_in_progress dk then dk\<lparr>dk_dirty := True\<rparr>
      else
        let (r, db) = save_ledger (st_store se) L (dk_db dk);
            dk = dk\<lparr>dk_db := db\<rparr>;
            dk = (case r of Ok _ \<Rightarrow> dk | _ \<Rightarrow> save_to_disk_legacy se L dk)
        in dk\<lparr>dk_in_progress := False, dk_dirty := False\<rparr>)"

definition load_legacy :: "'d start_env \<Rightarrow> 'd disk \<Rightarrow> ledger \<times> 'd disk" where
  "load_legacy se dk =
     (case Option.bind (dk_legacy dk) (st_ledger_of_json se) of
        None \<Rightarrow> (ledger_new, dk)
      | Some L \<Rightarrow>
          let (r, db) = save_ledger (st_store se) L (dk_db dk); dk = dk\<lparr>dk_db := db\<rparr> in
          (L, case r of Ok _ \<Rightarrow> (if st_rename_ok se then dk\<lparr>dk_legacy := None\<rparr> else dk) | _ \<Rightarrow> dk))"

definition load_from_disk :: "'d start_env \<Rightarrow> 'd disk \<Rightarrow> ledger \<times> 'd disk" where
  "load_from_disk se dk =
     (if is_empty_db (st_store se) (dk_db dk) then load_legacy se dk
      else case load_ledger (st_store se) (dk_db dk) of
             Ok L \<Rightarrow> (L, dk)
           | _ \<Rightarrow> load_legacy se dk)"

section \<open>The genesis accounts\<close>

datatype 'c source_file = FileMissing | FileUnreadable | FileMalformed | FileParsed 'c

datatype start_error =
    MissingGenesis | GenesisMalformed | GenesisInvalid genesis_error | GenesisUnusable genesis_error | MissingTimestamp
  | GenesisExceedsSupply | CannotSign

record genesis_load =
  gl_ledger :: ledger
  gl_bootstrap :: "string list"
  gl_onions :: "(string \<times> string) list"
  gl_timestamp :: "u64 option"
  gl_loaded :: nat
  gl_amount :: u128

definition no_genesis :: "ledger \<Rightarrow> genesis_load" where
  "no_genesis L =
     \<lparr>gl_ledger = L, gl_bootstrap = [], gl_onions = [], gl_timestamp = None, gl_loaded = 0, gl_amount = 0\<rparr>"

text \<open>An account that exists is left as it is.\<close>

definition add_genesis_account :: "string \<Rightarrow> account_state \<Rightarrow> genesis_load \<Rightarrow> genesis_load" where
  "add_genesis_account address st gl =
     (if bt_contains (accounts (gl_ledger gl)) address then gl
      else gl\<lparr>gl_ledger := (gl_ledger gl)\<lparr>accounts := bt_insert address st (accounts (gl_ledger gl))\<rparr>,
              gl_loaded := gl_loaded gl + 1, gl_amount := gl_amount gl + acc_balance st\<rparr>)"

definition onion_of :: "string \<Rightarrow> string option \<Rightarrow> (string \<times> string) list" where
  "onion_of address onion =
     (case onion of Some o' \<Rightarrow> (if o' \<noteq> [] \<and> ends_with o' ''.onion'' then [(address, o')] else []) | None \<Rightarrow> [])"

definition genesis_bootstrap :: "genesis_config \<Rightarrow> genesis_wallet list" where
  "genesis_bootstrap config = (case gc_bootstrap_nodes config of Some nodes \<Rightarrow> nodes | None \<Rightarrow> [])"

definition load_mainnet_genesis :: "los_env \<Rightarrow> genesis_config source_file \<Rightarrow> ledger \<Rightarrow> (genesis_load, start_error) result" where
  "load_mainnet_genesis env f L =
     (case f of
        FileMissing \<Rightarrow> Err MissingGenesis
      | FileUnreadable \<Rightarrow> Ok (no_genesis L)
      | FileMalformed \<Rightarrow> Err GenesisMalformed
      | FileParsed config \<Rightarrow>
          (case validate_genesis env config of
             Err e \<Rightarrow> Err (GenesisInvalid e)
           | Panic \<Rightarrow> Panic
           | Ok _ \<Rightarrow>
               (case load_genesis_from_config config of
                  Err e \<Rightarrow> Err (GenesisUnusable e)
                | Panic \<Rightarrow> Panic
                | Ok accs \<Rightarrow>
                    Ok (fold (\<lambda>(address, st) gl. if acc_balance st > 0 then add_genesis_account address st gl else gl) accs
                          ((no_genesis L)
                             \<lparr>gl_bootstrap := map gw_address (genesis_bootstrap config),
                              gl_onions := concat (map (\<lambda>w. onion_of (gw_address w) (gw_onion_address w)) (genesis_bootstrap config)),
                              gl_timestamp := gc_genesis_timestamp config\<rparr>)))))"

text \<open>On the test network the file is read without the record of the configuration; an entry that is incomplete or
  out of range is passed over.\<close>

record raw_wallet =
  rw_address :: "string option"
  rw_balance_los :: "string option"
  rw_genesis_balance_los :: "string option"
  rw_wallet_type :: "string option"
  rw_role :: "string option"
  rw_onion_address :: "string option"

definition raw_validator :: "raw_wallet \<Rightarrow> bool" where
  "raw_validator w =
     ((case rw_wallet_type w of Some wt \<Rightarrow> starts_with wt ''BootstrapNode'' | None \<Rightarrow> False) \<or> rw_role w = Some ''validator'')"

definition raw_balance :: "raw_wallet \<Rightarrow> string option" where
  "raw_balance w = (case rw_balance_los w of Some s \<Rightarrow> Some s | None \<Rightarrow> rw_genesis_balance_los w)"

definition add_raw_wallet :: "raw_wallet \<Rightarrow> genesis_load \<Rightarrow> genesis_load option" where
  "add_raw_wallet w gl =
     (case (rw_address w, raw_balance w) of
        (Some address, Some balance_str) \<Rightarrow>
          if \<not> starts_with address ''LOS'' \<or> length address < 10 then Some gl
          else
            (case parse_los_to_cil balance_str of
               Panic \<Rightarrow> None
             | r \<Rightarrow>
                 let balance_cil = (case r of Ok b \<Rightarrow> b | _ \<Rightarrow> 0) in
                 if balance_cil = 0 \<or> balance_cil > 21936236 * CIL_PER_LOS then Some gl
                 else
                   let gl = (if raw_validator w
                             then gl\<lparr>gl_bootstrap := gl_bootstrap gl @ [address],
                                     gl_onions := gl_onions gl @ onion_of address (rw_onion_address w)\<rparr>
                             else gl)
                   in Some (add_genesis_account address
                        \<lparr>acc_head = ''0'', acc_balance = balance_cil, acc_block_count = 0, acc_is_validator = raw_validator w\<rparr> gl))
      | _ \<Rightarrow> Some gl)"

fun add_raw_wallets :: "raw_wallet list \<Rightarrow> genesis_load \<Rightarrow> genesis_load option" where
  "add_raw_wallets [] gl = Some gl"
| "add_raw_wallets (w # ws) gl = Option.bind (add_raw_wallet w gl) (add_raw_wallets ws)"

definition load_testnet_genesis :: "raw_wallet list source_file \<Rightarrow> ledger \<Rightarrow> (genesis_load, start_error) result" where
  "load_testnet_genesis f L =
     (case f of
        FileParsed ws \<Rightarrow>
          (case add_raw_wallets ws (no_genesis L) of
             None \<Rightarrow> Panic
           | Some gl \<Rightarrow>
               if gl_loaded gl > 0 \<and> gl_amount gl > 21936236 * CIL_PER_LOS then Err GenesisExceedsSupply else Ok gl)
      | _ \<Rightarrow> Ok (no_genesis L))"

definition save_genesis :: "'d start_env \<Rightarrow> genesis_load \<Rightarrow> 'd disk \<Rightarrow> 'd disk" where
  "save_genesis se gl dk = (if gl_loaded gl > 0 then save_to_disk_internal se True (gl_ledger gl) dk else dk)"

section \<open>The components of a node\<close>

definition start_reward_pool :: "'d start_env \<Rightarrow> u64 \<Rightarrow> u64 \<Rightarrow> string list \<Rightarrow> ledger \<Rightarrow> reward_pool" where
  "start_reward_pool se genesis_ts now bootstrap L =
     (let env = st_env se; me = ne_address (st_node se);
          stake = (\<lambda>a. acc_balance (account_or_default L a));
          p = fold (\<lambda>a. rp_register_validator a True (stake a)) bootstrap (reward_pool_new env genesis_ts);
          p = fold (\<lambda>(a, st) p. if acc_is_validator st \<and> a \<notin> set bootstrap
                                then rp_register_validator a False (acc_balance st) p else p) (accounts L) p;
          p = (if bt_contains (rp_validators p) me then p
               else rp_register_validator me (me \<in> set bootstrap) (stake me) p)
      in set_expected_heartbeats (if is_testnet_build env then 10 else 60) (snd (catch_up_epochs now p)))"

definition start_endpoints :: "'d start_env \<Rightarrow> (string \<times> string) list \<Rightarrow> (string, string) btree_map" where
  "start_endpoints se onions =
     (let own = (case st_onion se of Some o' \<Rightarrow> (if o' \<noteq> [] then bt_insert (ne_address (st_node se)) o' [] else []) | None \<Rightarrow> [])
      in fold (\<lambda>(a, o') m. if bt_contains m a then m else bt_insert a o' m) onions own)"

definition start_slashing :: "ledger \<Rightarrow> slashing_manager" where
  "start_slashing L =
     fold (\<lambda>(a, st) m. if acc_is_validator st then sm_register_validator a m else m) (accounts L) slashing_new"

definition start_abft :: "'d start_env \<Rightarrow> ledger \<Rightarrow> abft" where
  "start_abft se L =
     (let n = length (filter (\<lambda>(_, st). acc_balance st \<ge> MIN_VALIDATOR_STAKE_CIL) (accounts L))
      in update_validator_set (active_validators L)
           (set_shared_secret (keccak256 (st_env se) (st_secret_key se @ as_bytes ''LOS_CONSENSUS_MAC_V1''))
              (abft_new (ne_address (st_node se)) (of_nat (max n 4)))))"

definition start_contracts :: "'d start_env \<Rightarrow> 'd \<Rightarrow> wasm_engine \<Rightarrow> wasm_engine" where
  "start_contracts se db e =
     (case load_contracts (st_store se) db of
        Ok (Some vm_data) \<Rightarrow> snd (deserialize_all (st_vm_of_json se) vm_data e)
      | _ \<Rightarrow> e)"

definition TESTNET_INITIAL_BALANCE :: u128 where "TESTNET_INITIAL_BALANCE = 1000 * CIL_PER_LOS"

definition initial_block :: "'d start_env \<Rightarrow> u64 \<Rightarrow> block" where
  "initial_block se now =
     solve_pow (st_env se)
       \<lparr>blk_account = ne_address (st_node se), blk_previous = ''0'', blk_type = Mint, blk_amount = TESTNET_INITIAL_BALANCE,
        blk_link = ''TESTNET:INITIAL:'' @ uint_to_string now, blk_signature = [],
        blk_public_key = hex_encode (st_env se) (ne_public_key (st_node se)), blk_work = 0, blk_timestamp = now, blk_fee = 0\<rparr>"

definition init_own_account :: "'d start_env \<Rightarrow> u64 \<Rightarrow> ledger \<Rightarrow> 'd disk \<Rightarrow> (ledger \<times> 'd disk, start_error) result" where
  "init_own_account se now L dk =
     (let me = ne_address (st_node se) in
      if bt_contains (accounts L) me then Ok (L, dk)
      else
        let L = ensure_account me L in
        if should_enable_consensus (ne_config (st_node se)) then Ok (L, dk)
        else
          let b = initial_block se now in
          (case try_sign_hex (st_node se) (as_bytes (signing_hash (st_env se) b)) of
             None \<Rightarrow> Err CannotSign
           | Some sig \<Rightarrow>
               (case process_block (st_env se) now (b\<lparr>blk_signature := sig\<rparr>) L of
                  (Panic, _) \<Rightarrow> Panic
                | (Err _, L') \<Rightarrow> Ok (L', dk)
                | (Ok _, L') \<Rightarrow> Ok (L', dk\<lparr>dk_dirty := True\<rparr>))))"

section \<open>Starting\<close>

record 'd started =
  sd_ledger :: ledger
  sd_disk :: "'d disk"
  sd_pool :: reward_pool
  sd_bootstrap :: "string list"
  sd_endpoints :: "(string, string) btree_map"
  sd_slashing :: slashing_manager
  sd_abft :: abft
  sd_vm :: wasm_engine

definition start_components ::
    "'d start_env \<Rightarrow> u64 \<Rightarrow> u64 \<Rightarrow> wasm_engine \<Rightarrow> genesis_load \<Rightarrow> 'd disk \<Rightarrow> ('d started, start_error) result" where
  "start_components se now genesis_ts vm gl dk =
     (let L = gl_ledger gl;
          pool = start_reward_pool se genesis_ts now (gl_bootstrap gl) L;
          slashing = start_slashing L in
      case init_own_account se now L dk of
        Err e \<Rightarrow> Err e
      | Panic \<Rightarrow> Panic
      | Ok (L', dk') \<Rightarrow>
          Ok \<lparr>sd_ledger = L', sd_disk = dk', sd_pool = pool, sd_bootstrap = gl_bootstrap gl,
              sd_endpoints = start_endpoints se (gl_onions gl), sd_slashing = slashing, sd_abft = start_abft se L',
              sd_vm = start_contracts se (dk_db dk') vm\<rparr>)"

definition start_mainnet ::
    "'d start_env \<Rightarrow> u64 \<Rightarrow> genesis_config source_file \<Rightarrow> wasm_engine \<Rightarrow> 'd disk \<Rightarrow> ('d started, start_error) result" where
  "start_mainnet se now f vm dk =
     (let (L, dk) = load_from_disk se dk in
      case load_mainnet_genesis (st_env se) f L of
        Err e \<Rightarrow> Err e
      | Panic \<Rightarrow> Panic
      | Ok gl \<Rightarrow>
          let dk = save_genesis se gl dk in
          (case gl_timestamp gl of
             None \<Rightarrow> Err MissingTimestamp
           | Some ts \<Rightarrow> start_components se now ts vm gl dk))"

definition start_testnet ::
    "'d start_env \<Rightarrow> u64 \<Rightarrow> raw_wallet list source_file \<Rightarrow> wasm_engine \<Rightarrow> 'd disk \<Rightarrow> ('d started, start_error) result" where
  "start_testnet se now f vm dk =
     (let (L, dk) = load_from_disk se dk in
      case load_testnet_genesis f L of
        Err e \<Rightarrow> Err e
      | Panic \<Rightarrow> Panic
      | Ok gl \<Rightarrow> start_components se now now vm gl (save_genesis se gl dk))"

section \<open>The save task\<close>

text \<open>The task copies the ledger under the lock and saves the copy after it gave the lock back: \<open>snapshot\<close> is the ledger
  at the first moment, and the dirty flag is cleared at the second, whatever was set in between.\<close>

definition save_due :: "'d disk \<Rightarrow> bool" where
  "save_due dk = (dk_dirty dk \<and> \<not> dk_in_progress dk)"

definition state_root :: "los_env \<Rightarrow> ledger \<Rightarrow> string" where
  "state_root env L =
     hex_encode env (keccak256 env (concat (map (\<lambda>(a, st). as_bytes a @ u128_le_bytes (acc_balance st)) (accounts L))))"

text \<open>\<open>max_by_key\<close> takes the last of the blocks with the greatest timestamp.\<close>

fun latest_block :: "block list \<Rightarrow> block option" where
  "latest_block [] = None"
| "latest_block (b # bs) =
     (case latest_block bs of
        None \<Rightarrow> Some b
      | Some c \<Rightarrow> Some (if blk_timestamp b > blk_timestamp c then b else c))"

definition latest_block_hash :: "los_env \<Rightarrow> ledger \<Rightarrow> string" where
  "latest_block_hash env L =
     (case latest_block (bt_values (blocks L)) of Some b \<Rightarrow> calculate_hash env b | None \<Rightarrow> ''genesis'')"

definition staked_accounts :: "ledger \<Rightarrow> nat" where
  "staked_accounts L = length (filter (\<lambda>(_, st). acc_balance st \<ge> MIN_VALIDATOR_STAKE_CIL) (accounts L))"

definition node_checkpoint :: "los_env \<Rightarrow> u64 \<Rightarrow> u64 \<Rightarrow> ledger \<Rightarrow> finality_checkpoint" where
  "node_checkpoint env now block_count L =
     checkpoint_new now ((block_count div CHECKPOINT_INTERVAL) * CHECKPOINT_INTERVAL) (latest_block_hash env L)
       (max (of_nat (staked_accounts L)) 1) (state_root env L) 1"

definition make_checkpoint ::
    "los_env \<Rightarrow> 'c sled_ops \<Rightarrow> u64 \<Rightarrow> ledger \<Rightarrow> 'c checkpoint_manager \<Rightarrow> 'c checkpoint_manager" where
  "make_checkpoint env cops now L cm =
     (let block_count = of_nat (length (blocks L)) in
      if block_count = 0 then cm
      else
        let latest_height = (case get_latest_checkpoint cops cm of Ok (Some cp) \<Rightarrow> fc_height cp | _ \<Rightarrow> 0);
            next_checkpoint = ((latest_height div CHECKPOINT_INTERVAL) + 1) * CHECKPOINT_INTERVAL
        in if block_count \<ge> next_checkpoint
           then snd (store_checkpoint cops (node_checkpoint env now block_count L) cm) else cm)"

definition save_tick ::
    "'d start_env \<Rightarrow> 'c sled_ops \<Rightarrow> u64 \<Rightarrow> ledger \<Rightarrow> 'd disk \<Rightarrow> 'c checkpoint_manager \<Rightarrow> 'd disk \<times> 'c checkpoint_manager" where
  "save_tick se cops now snapshot dk cm =
     (save_to_disk_internal se False snapshot dk, make_checkpoint (st_env se) cops now snapshot cm)"

end
