(* ===== verification/Node_Start_Safety.thy ===== *)
theory Node_Start_Safety
  imports Node_Start
begin

text \<open>
  What the start of a node guarantees: printed balances are read back, the genesis accounts of a validated
  configuration bound the value of every later ledger, a node that is stopped and started again resumes with the ledger
  it saved, and what is not kept across a restart.
\<close>

section \<open>Printing and reading balances\<close>

lemma length_nat_to_string: "n < 10 ^ Suc k \<Longrightarrow> length (nat_to_string n) \<le> Suc k"
proof (induction n arbitrary: k rule: nat_to_string.induct)
  case (1 n)
  show ?case
  proof (cases "n < 10")
    case True
    then show ?thesis by (subst nat_to_string.simps) simp
  next
    case False
    then obtain j where k: "k = Suc j" using "1.prems" by (cases k) auto
    have "n div 10 < 10 ^ Suc j" using "1.prems" unfolding k by (simp add: less_mult_imp_div_less)
    from "1.IH" [OF False this] False show ?thesis by (subst nat_to_string.simps) (simp add: k)
  qed
qed

lemma digits_graphic: "\<forall>c \<in> set s. CHR ''0'' \<le> c \<and> c \<le> CHR ''9'' \<Longrightarrow> c \<in> set s \<Longrightarrow> of_char c \<in> {48 .. 57 :: nat}"
  by (auto simp: less_eq_char_def)

lemma char_count_digits: "\<forall>c \<in> set s. of_char c \<in> {48 .. 57 :: nat} \<Longrightarrow> char_count s = length s"
  unfolding char_count_def by (induction s) auto

lemma parse_digits_zeros: "4 \<le> LENGTH('a::len) \<Longrightarrow> parse_digits (replicate k CHR ''0'' @ s) (0 :: 'a word) = parse_digits s 0"
proof (induction k)
  case (Suc k)
  have "parse_digits [digit_char 0] (0 :: 'a word) = Some 0" using parse_digit_step [of 0 "0 :: 'a word"] Suc.prems by simp
  then have z: "parse_digits ''0'' (0 :: 'a word) = Some 0" by (simp add: digit_char_def char_of_def bit_0)
  have "parse_digits (''0'' @ replicate k CHR ''0'' @ s) (0 :: 'a word) = parse_digits (replicate k CHR ''0'' @ s) 0"
    unfolding parse_digits_append z by simp
  then show ?case using Suc by simp
qed simp

lemma parse_uint_digits: "s \<noteq> [] \<Longrightarrow> hd s \<noteq> CHR ''+'' \<Longrightarrow> parse_uint s = parse_digits s 0"
  by (cases s) (simp_all add: parse_uint_def)

text \<open>The fraction of a balance.\<close>

lemma fraction_digits:
  fixes w :: u128
  assumes "unat w < 10 ^ 11"
  shows "length (pad_left_11 (uint_to_string w)) = 11" "\<forall>c \<in> set (pad_left_11 (uint_to_string w)). of_char c \<in> {48 .. 57 :: nat}"
    "parse_uint (pad_left_11 (uint_to_string w)) = Some w"
proof -
  let ?s = "nat_to_string (unat w)"
  have len: "length ?s \<le> 11" using length_nat_to_string [of "unat w" 10] assms by simp
  then show l: "length (pad_left_11 (uint_to_string w)) = 11" by (simp add: pad_left_11_def uint_to_string_def)
  show d: "\<forall>c \<in> set (pad_left_11 (uint_to_string w)). of_char c \<in> {48 .. 57 :: nat}"
    using digits_graphic [of ?s] nat_to_string_digits by (auto simp: pad_left_11_def uint_to_string_def)
  let ?p = "pad_left_11 (uint_to_string w)"
  have ne: "?p \<noteq> []" using l by (cases ?p) simp_all
  then have "of_char (hd ?p) \<in> {48 .. 57 :: nat}" using d by simp
  then have "hd ?p \<noteq> CHR ''+''" by auto
  then have "parse_uint ?p = (parse_digits ?p 0 :: u128 option)" using ne by (simp add: parse_uint_digits)
  also have "\<dots> = parse_digits ?s 0" by (simp add: pad_left_11_def uint_to_string_def parse_digits_zeros)
  also have "\<dots> = Some w" using parse_nat_to_string [of "unat w", where 'a = 128] unat_less_exp [of w] by simp
  finally show "parse_uint ?p = Some w" .
qed

text \<open>C35: the printed form of a balance is read back exactly, for every balance.\<close>

theorem printed_balance_parses: "parse_los_to_cil (format_balance_precise n) = Ok n"
proof -
  let ?i = "uint_to_string (n div CIL_PER_LOS)" and ?p = "pad_left_11 (uint_to_string (n mod CIL_PER_LOS))"
  let ?s = "?i @ ''.'' @ ?p"
  have cil: "unat CIL_PER_LOS = 10 ^ 11" by (simp add: CIL_PER_LOS_def)
  have "unat (n mod CIL_PER_LOS) < 10 ^ 11" unfolding unat_mod cil by (rule mod_less_divisor) simp
  note p = fraction_digits [OF this]
  have di: "of_char c \<in> {48 .. 57 :: nat}" if "c \<in> set ?i" for c
    using that nat_to_string_digits by (auto simp: uint_to_string_def less_eq_char_def)
  have ine: "?i \<noteq> []" by (simp add: uint_to_string_def nat_to_string_nonempty)
  have pne: "?p \<noteq> []" using p(1) by (cases ?p) simp_all
  have "of_char (hd ?i) \<in> {48 .. 57 :: nat}" "of_char (last ?p) \<in> {48 .. 57 :: nat}" using di ine p(2) pne by auto
  then have trim: "str_trim ?s = ?s" using ine pne by (intro str_trim_graphic) auto
  have dot: "CHR ''.'' \<notin> set ?i" using di by fastforce
  then have cut: "before_char (CHR ''.'') ?s = ?i" "after_char (CHR ''.'') ?s = ?p"
    unfolding before_char_def after_char_def by (subst takeWhile_append2 dropWhile_append2; fastforce)+
  have pad: "pad_right_11 ?p = ?p" using p(1) char_count_digits [OF p(2)] by (simp add: pad_right_11_def)
  have slice: "str_slice_to ?p 11 = Some ?p" using p(1) by (simp add: str_slice_to_def is_char_boundary_def)
  have "n div CIL_PER_LOS * CIL_PER_LOS + n mod CIL_PER_LOS = n" by (rule div_mult_mod_eq)
  then show ?thesis
    unfolding parse_los_to_cil_def format_balance_precise_def Let_def trim cut pad slice
    by (simp add: parse_uint_to_string p(3))
qed

section \<open>The genesis accounts\<close>

definition wallet_amount :: "genesis_wallet \<Rightarrow> nat" where
  "wallet_amount w = (case resolve_wallet_balance w of Ok b \<Rightarrow> unat b | _ \<Rightarrow> 0)"

definition balance_sum :: "(string, account_state) btree_map \<Rightarrow> nat" where
  "balance_sum m = bt_ksum (\<lambda>_ st. unat (acc_balance st)) m"

lemma aggregate_exact:
  assumes "aggregate_balance ws acc = Ok t" "unat t < 2 ^ 128 - 1"
  shows "unat t = unat acc + sum_list (map wallet_amount ws)"
  using assms(1)
proof (induction ws arbitrary: acc)
  case (Cons w ws)
  show ?case
  proof (cases "resolve_wallet_balance w")
    case (Ok b)
    then have "unat t = unat (saturating_add acc b) + sum_list (map wallet_amount ws)" using Cons by simp
    moreover from this have "unat (saturating_add acc b) < 2 ^ 128 - 1" using assms(2) by simp
    then have "unat (saturating_add acc b) = unat acc + unat b" by (simp add: unat_saturating_add)
    moreover have "wallet_amount w = unat b" by (simp add: Ok wallet_amount_def)
    ultimately show ?thesis by simp
  qed (use Cons in \<open>simp_all add: wallet_amount_def\<close>)
qed simp

definition unused :: "(string, account_state) btree_map \<Rightarrow> bool" where
  "unused m \<longleftrightarrow> (\<forall>k st. bt_get m k = Some st \<longrightarrow> acc_head st = ''0'')"

lemma load_wallets_sum:
  assumes "load_wallets ws accs = Ok accs'" "bt_ok accs"
  shows "bt_ok accs' \<and> balance_sum accs' \<le> balance_sum accs + sum_list (map (wallet_amount \<circ> fst) ws)
    \<and> (unused accs \<longrightarrow> unused accs')"
  using assms
proof (induction ws arbitrary: accs)
  case (Cons e ws)
  obtain w v where e: "e = (w, v)" by fastforce
  obtain b where b: "resolve_wallet_balance w = Ok b" using Cons.prems(1) by (auto simp: e split: result.splits)
  let ?st = "\<lparr>acc_head = ''0'', acc_balance = b, acc_block_count = 0, acc_is_validator = v\<rparr>"
  let ?m = "bt_insert (gw_address w) ?st accs"
  have "bt_ok ?m" using Cons.prems(2) by simp
  moreover have "load_wallets ws ?m = Ok accs'" using Cons.prems(1) by (simp add: e b)
  moreover have "balance_sum ?m \<le> balance_sum accs + unat b"
    using bt_ksum_insert [OF Cons.prems(2), of "\<lambda>_ st. unat (acc_balance st)" "gw_address w" ?st] by (simp add: balance_sum_def)
  moreover have "unused accs \<longrightarrow> unused ?m" by (simp add: unused_def)
  ultimately have "bt_ok accs' \<and> balance_sum accs' \<le> balance_sum accs + unat b + sum_list (map (wallet_amount \<circ> fst) ws)
      \<and> (unused accs \<longrightarrow> unused accs')" using Cons.IH [of ?m] by linarith
  moreover have "wallet_amount w = unat b" by (simp add: b wallet_amount_def)
  ultimately show ?case by (simp add: e comp_def)
qed simp

lemma validated_genesis_bound:
  assumes "validate_genesis env config = Ok ()" "load_genesis_from_config config = Ok accs" "gc_total_supply_cil config \<noteq> None"
  shows "bt_ok accs \<and> balance_sum accs \<le> unat TOTAL_SUPPLY_CIL \<and> unused accs"
proof -
  have agg: "check_aggregate config = Ok ()" and sv: "supply_valid config"
    using assms(1) by (auto simp: validate_genesis_def split: if_splits option.splits)
  obtain tsv where tsv: "gc_total_supply_cil config = Some tsv" using assms(3) by blast
  have total: "tsv = TOTAL_SUPPLY_CIL" using sv tsv by (simp add: supply_valid_def TOTAL_SUPPLY_CIL_def TOTAL_SUPPLY_LOS_def)
  obtain t where t: "aggregate_balance (map fst (all_wallets config)) 0 = Ok t" "t \<le> TOTAL_SUPPLY_CIL"
    using agg by (auto simp: check_aggregate_def tsv total not_less split: result.splits if_splits)
  have le: "unat t \<le> unat TOTAL_SUPPLY_CIL" using t(2) by (simp add: word_le_nat_alt)
  have small: "unat TOTAL_SUPPLY_CIL < 2 ^ 128 - 1" by (simp add: TOTAL_SUPPLY_CIL_def TOTAL_SUPPLY_LOS_def CIL_PER_LOS_def)
  have "unat t < 2 ^ 128 - 1" using le small by (rule le_less_trans)
  from aggregate_exact [OF t(1) this] have "unat t = sum_list (map (wallet_amount \<circ> fst) (all_wallets config))" by simp
  moreover have "load_wallets (all_wallets config) [] = Ok accs" using assms(2) by (simp add: load_genesis_from_config_def)
  note load_wallets_sum [OF this bt_ok_Nil]
  ultimately show ?thesis using le by (simp add: balance_sum_def unused_def)
qed

text \<open>A new account with an unused chain adds its balance to the value of the ledger.\<close>

lemma add_account_safe:
  fixes a :: string
  assumes "ledger_inv L" "bt_get (accounts L) a = None" "acc_head st = ''0''" "ledger_value L + unat (acc_balance st) < 2 ^ 128"
  defines "L' \<equiv> L\<lparr>accounts := bt_insert a st (accounts L)\<rparr>"
  shows "ledger_inv L'" "ledger_value L' = ledger_value L + unat (acc_balance st)"
proof -
  have ok: "bt_ok (accounts L)" using assms(1) by (simp add: ledger_inv_def maps_ok_def)
  have "balances_total L' = balances_total L + unat (acc_balance st)"
    using bt_sum_insert [OF ok, of "\<lambda>st. unat (acc_balance st)" a st] assms(2)
    by (simp add: L'_def balances_total_def bt_share_def)
  then show v: "ledger_value L' = ledger_value L + unat (acc_balance st)" by (simp add: L'_def ledger_value_def in_flight_def)
  have "heads_ok L'" using assms(1,3) unfolding ledger_inv_def heads_ok_def L'_def by (auto split: if_splits)
  moreover have "maps_ok L'" using assms(1) by (simp add: ledger_inv_def maps_ok_def L'_def)
  ultimately show "ledger_inv L'"
    using assms(1,4) v claims_depend [of L' L] by (simp add: ledger_inv_def L'_def)
qed

abbreviation add_funded :: "string \<times> account_state \<Rightarrow> genesis_load \<Rightarrow> genesis_load" where
  "add_funded \<equiv> \<lambda>(address, st) gl. if acc_balance st > 0 then add_genesis_account address st gl else gl"

text \<open>Adding accounts to a ledger that has none of them.\<close>

lemma add_genesis_value:
  assumes "bt_ok accs" "unused accs" "\<forall>a \<in> fst ` set accs. bt_get (accounts (gl_ledger gl)) a = None"
    and "ledger_inv (gl_ledger gl)" "ledger_value (gl_ledger gl) + balance_sum accs < 2 ^ 128"
  shows "ledger_inv (gl_ledger (fold add_funded accs gl))
    \<and> ledger_value (gl_ledger (fold add_funded accs gl)) = ledger_value (gl_ledger gl) + balance_sum accs"
  using assms
proof (induction accs arbitrary: gl)
  case (Cons e accs)
  obtain a st where e: "e = (a, st)" by fastforce
  have sum: "balance_sum (e # accs) = unat (acc_balance st) + balance_sum accs" by (simp add: balance_sum_def bt_ksum_def e)
  have rest: "bt_ok accs" "\<forall>x \<in> fst ` set accs. a < x" using Cons.prems(1) by (simp_all add: bt_ok_Cons e)
  have "unused accs" "acc_head st = ''0''"
    using Cons.prems(1,2) rest(1) unfolding unused_def
    by (metis bt_entries_get e list.set_intros(1,2))+
  note st = this
  let ?gl = "add_funded e gl"
  have fresh: "bt_get (accounts (gl_ledger gl)) a = None" using Cons.prems(3) by (simp add: e)
  have "ledger_inv (gl_ledger ?gl) \<and> ledger_value (gl_ledger ?gl) = ledger_value (gl_ledger gl) + unat (acc_balance st)"
  proof (cases "acc_balance st > 0")
    case True
    have "ledger_value (gl_ledger gl) + unat (acc_balance st) < 2 ^ 128" using Cons.prems(5) unfolding sum by linarith
    with True show ?thesis
      using add_account_safe [OF Cons.prems(4) fresh st(2)] fresh
      by (simp add: e add_genesis_account_def bt_contains_def)
  next
    case False
    then have "acc_balance st = 0" by (simp add: word_gt_0)
    with Cons.prems(4) show ?thesis by (simp add: e)
  qed
  moreover have "\<forall>x \<in> fst ` set accs. bt_get (accounts (gl_ledger ?gl)) x = None"
    using Cons.prems(3) rest(2) by (auto simp: e add_genesis_account_def bt_contains_def fresh)
  ultimately show ?case using Cons.IH [of ?gl] rest(1) st(1) Cons.prems(5) by (simp add: sum)
qed (simp add: balance_sum_def)

section \<open>Starting\<close>

lemma fold_funded_frame:
  "gl_ledger g = gl_ledger h \<Longrightarrow> gl_ledger (fold add_funded xs g) = gl_ledger (fold add_funded xs h)"
  "gl_timestamp (fold add_funded xs g) = gl_timestamp g"
proof -
  show "gl_ledger g = gl_ledger h \<Longrightarrow> gl_ledger (fold add_funded xs g) = gl_ledger (fold add_funded xs h)"
  proof (induction xs arbitrary: g h)
    case (Cons x xs)
    show ?case unfolding fold.simps comp_apply
      by (rule Cons.IH) (use Cons.prems in \<open>auto simp: add_genesis_account_def split: prod.splits\<close>)
  qed simp
  show "gl_timestamp (fold add_funded xs g) = gl_timestamp g"
    by (induction xs arbitrary: g) (auto simp: add_genesis_account_def)
qed

lemma start_mainnet_Ok:
  assumes "start_mainnet se now (FileParsed config) vm dk = Ok sd" "load_from_disk se dk = (L0, dk0)" "is_mainnet_build (st_env se)"
  obtains accs gl where "validate_genesis (st_env se) config = Ok ()" "load_genesis_from_config config = Ok accs"
    "load_mainnet_genesis (st_env se) (FileParsed config) L0 = Ok gl"
    "gl_ledger gl = gl_ledger (fold add_funded accs (no_genesis L0))" "gl_timestamp gl = gc_genesis_timestamp config"
    "sd_ledger sd = ensure_account (ne_address (st_node se)) (gl_ledger gl)" "sd_disk sd = save_genesis se gl dk0"
proof -
  have cons: "should_enable_consensus (ne_config (st_node se))" using assms(3) by (simp add: mainnet_config_strict)
  have own: "init_own_account se now L d = Ok (ensure_account (ne_address (st_node se)) L, d)" for L and d :: "'a disk"
    using cons by (simp add: init_own_account_def Let_def ensure_account_def)
  obtain gl where gl: "load_mainnet_genesis (st_env se) (FileParsed config) L0 = Ok gl"
      "sd_ledger sd = ensure_account (ne_address (st_node se)) (gl_ledger gl)" "sd_disk sd = save_genesis se gl dk0"
    using assms(1,2) by (auto simp: start_mainnet_def start_components_def Let_def own split: result.splits option.splits)
  obtain accs where accs: "validate_genesis (st_env se) config = Ok ()" "load_genesis_from_config config = Ok accs"
      "gl = fold add_funded accs
         ((no_genesis L0)\<lparr>gl_bootstrap := map gw_address (genesis_bootstrap config),
            gl_onions := concat (map (\<lambda>w. onion_of (gw_address w) (gw_onion_address w)) (genesis_bootstrap config)),
            gl_timestamp := gc_genesis_timestamp config\<rparr>)"
    using gl(1) by (auto simp: load_mainnet_genesis_def split: result.splits)
  have "gl_ledger gl = gl_ledger (fold add_funded accs (no_genesis L0)) \<and> gl_timestamp gl = gc_genesis_timestamp config"
    unfolding accs(3) by (intro conjI fold_funded_frame(1)) (simp_all add: fold_funded_frame(2))
  then show thesis using that accs(1,2) gl by blast
qed


section \<open>Starting again\<close>

lemma keys_kept_refl [simp]: "keys_kept L L"
  by (simp add: keys_kept_def)

lemma keys_kept_trans: "keys_kept L M \<Longrightarrow> keys_kept M N \<Longrightarrow> keys_kept L N"
  unfolding keys_kept_def by blast

text \<open>Adding accounts: what was there is kept, the funded accounts are there afterwards, and a second time nothing is
  added.\<close>

lemma add_account_rebuildable: "rebuildable L \<Longrightarrow> rebuildable (L\<lparr>accounts := bt_insert a st (accounts L)\<rparr>)"
  by (simp add: rebuildable_def maps_ok_def claims_rebuilt_def)

lemma ensure_account_kept: "rebuildable L \<Longrightarrow> rebuildable (ensure_account a L)" "keys_kept L (ensure_account a L)"
  by (simp_all add: ensure_account_def add_account_rebuildable keys_kept_def)

lemma add_funded_kept: "rebuildable (gl_ledger gl) \<Longrightarrow> rebuildable (gl_ledger (add_funded e gl))"
    "keys_kept (gl_ledger gl) (gl_ledger (add_funded e gl))"
  by (auto simp: add_genesis_account_def add_account_rebuildable keys_kept_def split: prod.splits)

lemma fold_funded_kept:
  "rebuildable (gl_ledger gl) \<Longrightarrow> rebuildable (gl_ledger (fold add_funded es gl))"
  "keys_kept (gl_ledger gl) (gl_ledger (fold add_funded es gl))"
proof -
  show "rebuildable (gl_ledger gl) \<Longrightarrow> rebuildable (gl_ledger (fold add_funded es gl))"
    by (induction es arbitrary: gl) (simp_all add: add_funded_kept(1) del: case_prod_conv)
  show "keys_kept (gl_ledger gl) (gl_ledger (fold add_funded es gl))"
  proof (induction es arbitrary: gl)
    case (Cons e es)
    show ?case using keys_kept_trans [OF add_funded_kept(2) [of gl e] Cons.IH] by simp
  qed simp
qed

definition funded_in :: "(string, account_state) btree_map \<Rightarrow> ledger \<Rightarrow> bool" where
  "funded_in accs L \<longleftrightarrow> (\<forall>(a, st) \<in> set accs. acc_balance st > 0 \<longrightarrow> bt_get (accounts L) a \<noteq> None)"

lemma fold_funded_in: "funded_in accs (gl_ledger (fold add_funded accs gl))"
proof (induction accs arbitrary: gl)
  case (Cons e accs)
  have "snd e = st \<Longrightarrow> acc_balance st > 0 \<Longrightarrow> bt_get (accounts (gl_ledger (add_funded e gl))) (fst e) \<noteq> None" for st
    by (auto simp: add_genesis_account_def bt_contains_def split: prod.splits)
  with fold_funded_kept(2) [of "add_funded e gl" accs] Cons show ?case
    unfolding funded_in_def keys_kept_def by fastforce
qed (simp add: funded_in_def)

lemma fold_funded_same: "funded_in accs (gl_ledger gl) \<Longrightarrow> fold add_funded accs gl = gl"
proof (induction accs arbitrary: gl)
  case (Cons e accs)
  obtain a st where e: "e = (a, st)" by fastforce
  have "add_funded e gl = gl" using Cons.prems by (auto simp: e funded_in_def add_genesis_account_def bt_contains_def)
  with Cons show ?case by (simp add: funded_in_def)
qed simp

lemma funded_in_kept: "funded_in accs L \<Longrightarrow> keys_kept L L' \<Longrightarrow> funded_in accs L'"
  unfolding funded_in_def keys_kept_def by fastforce

text \<open>A save writes keys of the ledger only, whether or not it succeeds.\<close>

lemma save_stored_within:
  assumes "store_laws ops" "stored_within ops db L" "save_ledger ops L db = (r, db')"
  shows "stored_within ops db' L"
proof (cases "db' = db")
  case False
  obtain be ae d where e: "serialized TREE_BLOCKS (so_block_to_vec ops) (blocks L) = Some be"
      "serialized TREE_ACCOUNTS (so_account_to_vec ops) (accounts L) = Some ae"
      "so_distribution_to_vec ops (distribution L) = Some d"
    and opened: "so_open_tree ops db TREE_BLOCKS" "so_open_tree ops db TREE_ACCOUNTS" "so_open_tree ops db TREE_META"
    using assms(3) False by (auto simp: save_ledger_def split: if_splits option.splits)
  let ?ws = "be @ ae @ [(TREE_META, distribution_key, d), (TREE_META, fees_key, u128_le_bytes (accumulated_fees_cil L))]"
  obtain ok db1 where t: "so_transaction ops ?ws db = (ok, db1)" by fastforce
  have f: "so_get ops db' t k = so_get ops db1 t k" for t k
    using assms(3) t e opened store_lawsD(4) [OF assms(1)]
    by (cases "so_flush ops db1") (auto simp: save_ledger_def flush_after_def finish_def split: if_splits)
  have ws: "map (\<lambda>(t, k, v). ((t, k), v)) ?ws = ledger_writes ops L d"
    by (simp add: serialized_Some(1) [OF e(1)] serialized_Some(1) [OF e(2)] ledger_writes_def comp_def case_prod_beta)
  have new: "so_get ops db t k = Some (Some v) \<or> (t, k) \<in> fst ` set (ledger_writes ops L d)" if g: "so_get ops db' t k = Some (Some v)" for t k v
  proof (cases "ok \<and> (t, k) \<in> fst ` set (ledger_writes ops L d)")
    case False
    then have "(if ok then map_of (rev (map (\<lambda>(t, k, v). ((t, k), v)) ?ws)) (t, k) else None) = None"
      unfolding ws by (simp add: map_of_eq_None_iff)
    moreover have "so_get ops db1 t k =
        (case (if ok then map_of (rev (map (\<lambda>(t, k, v). ((t, k), v)) ?ws)) (t, k) else None) of
           Some v \<Rightarrow> Some (Some v) | None \<Rightarrow> so_get ops db t k)"
      using assms(1) t unfolding store_laws_def by blast
    ultimately have "so_get ops db1 t k = so_get ops db t k" by (simp only: option.case)
    then show ?thesis using g f by simp
  qed simp
  have in_b: "(TREE_BLOCKS, k) \<in> fst ` set (ledger_writes ops L d) \<longleftrightarrow> k \<in> as_bytes ` fst ` set (blocks L)"
    and in_a: "(TREE_ACCOUNTS, k) \<in> fst ` set (ledger_writes ops L d) \<longleftrightarrow> k \<in> as_bytes ` fst ` set (accounts L)" for k
    by (force simp: ledger_writes_def tree_names)+
  have key: "x \<in> fst ` set m \<Longrightarrow> bt_get m x \<noteq> None" for x and m :: "(string, 'z) btree_map"
    by (induction m) (auto simp: bt_get_def)
  show ?thesis
    unfolding stored_within_def
  proof (intro conjI allI impI)
    show "\<exists>key. k = as_bytes key \<and> bt_get (blocks L) key \<noteq> None" if "so_get ops db' TREE_BLOCKS k = Some (Some v)" for k v
      using new [OF that] assms(2) key [of _ "blocks L"] unfolding in_b stored_within_def by blast
    show "\<exists>key. k = as_bytes key \<and> bt_get (accounts L) key \<noteq> None" if "so_get ops db' TREE_ACCOUNTS k = Some (Some v)" for k v
      using new [OF that] assms(2) key [of _ "accounts L"] unfolding in_a stored_within_def by blast
  qed
qed (use assms in simp)

lemma save_genesis_within:
  assumes "store_laws (st_store se)" "stored_within (st_store se) (dk_db dk) (gl_ledger gl)"
  shows "stored_within (st_store se) (dk_db (save_genesis se gl dk)) (gl_ledger gl)"
proof -
  obtain r db' where s: "save_ledger (st_store se) (gl_ledger gl) (dk_db dk) = (r, db')" by fastforce
  have "dk_db (save_to_disk_legacy se L (dk\<lparr>dk_db := db'\<rparr>)) = db'" for L
    by (simp add: save_to_disk_legacy_def split: option.splits)
  then have "dk_db (save_to_disk_internal se True (gl_ledger gl) dk) = db'"
    by (cases r) (simp_all add: save_to_disk_internal_def s)
  with save_stored_within [OF assms s] assms(2) show ?thesis by (simp add: save_genesis_def)
qed

text \<open>A store that holds a ledger with a block is loaded at the start.\<close>

lemma load_from_disk_saved:
  assumes "load_ledger (st_store se) (dk_db dk) = Ok L" "blocks L \<noteq> []"
  shows "load_from_disk se dk = (L, dk)"
proof -
  have "load_tree (st_store se) (dk_db dk) TREE_BLOCKS (so_block_of_slice (st_store se)) = Ok (blocks L)"
    by (rule load_ledger_Ok(1) [OF assms(1)])
  then obtain es where es: "so_iter (st_store se) (dk_db dk) TREE_BLOCKS = Some es"
      "load_entries (so_block_of_slice (st_store se)) es [] = Ok (blocks L)"
    by (auto simp: load_tree_def split: option.splits)
  then have "es \<noteq> []" using assms(2) by auto
  moreover note es(1)
  moreover have "so_open_tree (st_store se) (dk_db dk) TREE_BLOCKS"
    using assms(1) by (auto simp: load_ledger_def split: if_splits)
  ultimately show ?thesis using assms(1) by (simp add: load_from_disk_def is_empty_db_def)
qed


section \<open>What is not kept\<close>

text \<open>The safety records and the reward pool are not stored: after a restart every validator is active, whatever it was
  banned for, and the pool is full.\<close>

lemma start_forgets_bans:
  assumes "bt_get (sm_validators (start_slashing L)) a = Some p"
  shows "sp_status p = Active"
proof -
  let ?f = "\<lambda>(a, st) m. if acc_is_validator st then sm_register_validator a m else m"
  let ?P = "\<lambda>m. \<forall>a p. bt_get (sm_validators m) a = Some p \<longrightarrow> sp_status p = Active"
  have step: "?P m \<Longrightarrow> ?P (sm_register_validator b m)" for b m
    by (auto simp: sm_register_validator_def safety_profile_new_def split: option.splits if_splits)
  have "?P (fold ?f es m)" if "?P m" for es m
    using that
  proof (induction es arbitrary: m)
    case (Cons e es)
    have "?P (?f e m)" using step [OF Cons.prems] Cons.prems by (cases e) simp
    from Cons.IH [OF this] show ?case by simp
  qed simp
  from this [of slashing_new "accounts L"] assms show ?thesis by (simp add: start_slashing_def slashing_new_def)
qed

lemma register_remaining [simp]: "rp_remaining_cil (rp_register_validator a g s p) = rp_remaining_cil p"
  by (simp add: rp_register_validator_def)

lemma start_refills_pool: "rp_remaining_cil (start_reward_pool se ts now bootstrap L) = VALIDATOR_REWARD_POOL_CIL"
proof -
  have 1: "rp_remaining_cil (fold (\<lambda>a. rp_register_validator a g (s a)) xs p) = rp_remaining_cil p" for g s xs p
    by (induction xs arbitrary: p) simp_all
  have 2: "rp_remaining_cil (fold (\<lambda>(a, st) p. if Q a st then rp_register_validator a g (acc_balance st) p else p) xs p)
      = rp_remaining_cil p" for Q g xs p
    by (induction xs arbitrary: p) auto
  have 3: "rp_remaining_cil (snd (catch_up_epochs now p)) = rp_remaining_cil p" for p
    by (simp add: catch_up_epochs_def Let_def)
  show ?thesis by (simp add: start_reward_pool_def Let_def set_expected_heartbeats_def 1 2 3 reward_pool_new_def)
qed

text \<open>A change that other tasks make between the copy and the end of the save is not marked any more.\<close>

lemma dirty_mark_lost:
  assumes "\<not> dk_in_progress dk"
  shows "\<not> dk_dirty (save_to_disk_internal se False snapshot (dk\<lparr>dk_dirty := True\<rparr>))"
  using assms by (simp add: save_to_disk_internal_def Let_def split: prod.splits)

text \<open>A database that cannot be loaded is replaced: the node starts with a new ledger.\<close>

lemma unreadable_database_resets:
  assumes "\<forall>L. load_ledger (st_store se) (dk_db dk) \<noteq> Ok L" "dk_legacy dk = None"
  shows "load_from_disk se dk = (ledger_new, dk)"
  using assms by (auto simp: load_from_disk_def load_legacy_def split: result.splits)

section \<open>Checkpoints of a node\<close>

text \<open>The checkpoints of a node. The task signs a checkpoint alone, so that in every ledger with two staked
  accounts or more the checkpoint is refused and no checkpoint is ever stored.\<close>

theorem shared_network_stores_no_checkpoint:
  assumes "2 \<le> staked_accounts L" "staked_accounts L < 2 ^ 32"
  shows "make_checkpoint env cops now L cm = cm"
proof -
  let ?n = "of_nat (staked_accounts L) :: u32"
  have u: "unat ?n = staked_accounts L" using assms(2) by (simp add: unat_of_nat_small)
  have two: "2 \<le> ?n" using assms(1) u by (simp add: word_le_nat_alt)
  then have "max ?n 1 = ?n" by (simp add: max_def word_le_nat_alt u)
  then have "\<not> verify_quorum (node_checkpoint env now c L)" for c
    using assms(1) u
    by (simp add: verify_quorum_def node_checkpoint_def checkpoint_new_def not_le word_less_nat_alt unat_required_signatures)
  then show ?thesis by (simp add: make_checkpoint_def Let_def store_checkpoint_def)
qed

section \<open>A node of the main network\<close>

definition gen_account :: "u128 \<Rightarrow> account_state" where
  "gen_account n = \<lparr>acc_head = ''0'', acc_balance = n, acc_block_count = 0, acc_is_validator = False\<rparr>"

definition gen_wallet :: "u128 \<Rightarrow> genesis_wallet" where
  "gen_wallet n =
     \<lparr>gw_address = ''LOSgenesis1'', gw_balance_los = None, gw_balance_cil = Some n, gw_stake_cil = None, gw_wallet_type = None,
      gw_seed_phrase = None, gw_public_key = None, gw_private_key = None, gw_onion_address = None, gw_rest_port = None,
      gw_p2p_port = None\<rparr>"

definition gen_config :: "u128 \<Rightarrow> genesis_config" where
  "gen_config n =
     \<lparr>gc_network_id = Some 1, gc_chain_name = None, gc_total_supply_cil = Some TOTAL_SUPPLY_CIL,
      gc_dev_supply_cil = Some (777823 * CIL_PER_LOS), gc_bootstrap_nodes = None, gc_dev_accounts = Some [gen_wallet n],
      gc_network = None, gc_genesis_timestamp = Some 1770341710, gc_total_supply = None, gc_dev_allocation = None,
      gc_wallets = None\<rparr>"

lemmas gen_defs = gen_config_def gen_wallet_def all_wallets_def TOTAL_SUPPLY_CIL_def TOTAL_SUPPLY_LOS_def CIL_PER_LOS_def
  is_mainnet_build_def CHAIN_ID_def resolve_wallet_balance_def

lemma gen_valid: "n \<le> TOTAL_SUPPLY_CIL \<Longrightarrow> validate_genesis demo_env (gen_config n) = Ok ()"
  using unat_less_exp [of n]
  by (simp add: validate_genesis_def not_less gen_defs genesis_network_known_def is_testnet_genesis_def
      supply_valid_def address_error_def starts_with_def bootstrap_error_def check_aggregate_def saturating_add_def checked_add_def)

lemma gen_loads: "load_genesis_from_config (gen_config n) = Ok [(''LOSgenesis1'', gen_account n)]"
  by (simp add: load_genesis_from_config_def gen_defs gen_account_def bt_insert_def)

text \<open>The validation compares the balances with the total supply, not with the part set aside for genesis: a
  configuration that gives the whole supply away is valid, although the public supply can still be minted.\<close>

lemma genesis_takes_whole_supply:
  "validate_genesis demo_env (gen_config TOTAL_SUPPLY_CIL) = Ok ()"
  "unat TOTAL_SUPPLY_CIL < balance_sum [(''LOSgenesis1'', gen_account TOTAL_SUPPLY_CIL)] + unat PUBLIC_SUPPLY_CAP"
  by (simp add: gen_valid)
    (simp add: balance_sum_def bt_ksum_def gen_account_def PUBLIC_SUPPLY_CAP_def CIL_PER_LOS_def)

definition start_accounts :: "account_state list" where
  "start_accounts = [snd (hd (accounts demo_L1)), gen_account (777823 * CIL_PER_LOS), gen_account 0]"

definition start_demo :: "((string \<times> bytes) \<times> bytes) list start_env" where
  "start_demo =
     \<lparr>st_node = demo_node_env demo_env (\<lambda>_. None), st_store = mem_store start_accounts, st_ledger_to_json = (\<lambda>_. None),
      st_ledger_of_json = (\<lambda>_. None), st_write_ok = True, st_rename_ok = True, st_vm_of_json = (\<lambda>_. None),
      st_secret_key = [1], st_onion = None\<rparr>"

definition demo_disk :: "((string \<times> bytes) \<times> bytes) list \<Rightarrow> ((string \<times> bytes) \<times> bytes) list disk" where
  "demo_disk db = \<lparr>dk_db = db, dk_legacy = None, dk_in_progress = False, dk_dirty = False\<rparr>"

lemma start_demo_simps [simp]:
  "st_env start_demo = demo_env" "ne_address (st_node start_demo) = ''LOSN''" "st_store start_demo = mem_store start_accounts"
  by (simp_all add: start_demo_def demo_node_env_def)

lemma demo_is_mainnet: "is_mainnet_build demo_env"
  by (simp add: is_mainnet_build_def CHAIN_ID_def)

lemma start_demo_runs:
  assumes "load_from_disk start_demo dk = (L0, dk0)" "n \<le> TOTAL_SUPPLY_CIL"
  shows "\<exists>sd. start_mainnet start_demo now (FileParsed (gen_config n)) vm dk = Ok sd"
proof -
  have cons: "should_enable_consensus (ne_config (st_node start_demo))"
    by (rule conjunct1 [OF mainnet_config_strict]) (simp add: demo_is_mainnet)
  have ts: "gl_timestamp (fold add_funded es g) = gl_timestamp g" for es g by (rule fold_funded_frame(2))
  have "gc_genesis_timestamp (gen_config n) = Some 1770341710" by (simp add: gen_config_def)
  then show ?thesis
    using assms(1) cons
    by (simp add: start_mainnet_def load_mainnet_genesis_def gen_valid [OF assms(2)] gen_loads start_components_def
        init_own_account_def Let_def ts add_genesis_account_def)
qed

lemma start_demo_empty: "load_from_disk start_demo (demo_disk []) = (ledger_new, demo_disk [])"
  by (simp add: load_from_disk_def is_empty_db_def mem_store_def mem_iter_def demo_disk_def load_legacy_def)



definition two_staked :: ledger where
  "two_staked = ledger_new\<lparr>accounts := [(''LOSA'', gen_account MIN_VALIDATOR_STAKE_CIL), (''LOSB'', gen_account MIN_VALIDATOR_STAKE_CIL)],
     blocks := blocks demo_L1\<rparr>"

theorem shared_network_stores_no_checkpoint_witness:
  "make_checkpoint demo_env (list_sled cp_one cp_two) 9 two_staked demo_empty = demo_empty"
  by (rule shared_network_stores_no_checkpoint) (simp_all add: staked_accounts_def two_staked_def gen_account_def)

end
