(* ===== verification/Node_Faucet.thy ===== *)
theory Node_Faucet
  imports Database_Safety Node_Gossip_Safety
begin

text \<open>
  The two handlers of the test network that change the ledger (\<open>los-node/src/main.rs\<close>): \<open>POST /faucet\<close>, which mints for an
  address, and \<open>POST /reset-burn-txid\<close>, which takes mints back. Shown here: two claims of one address that succeed
  lie at least 120 seconds apart, whatever the database does, and the database refuses also after a restart; a claim
  pays exactly 5000 LOS out of the remaining supply; the main network has no faucet. A reset does not give the supply
  back, and an empty identifier takes back every mint.
\<close>

section \<open>\<open>POST /faucet\<close>\<close>

record 'd faucet_node =
  fa_ledger :: ledger
  fa_db :: 'd
  fa_limiter :: endpoint_limiter
  fa_dirty :: bool
  fa_outbox :: "string list"

datatype faucet_error =
    FaucetBadRequest | FaucetOnMainnet | FaucetDisabled | FaucetNoAddress | FaucetBadAddress | FaucetCooldown u64
  | FaucetRateLimit u64 | FaucetSigning | FaucetMintFailed

record faucet_answer =
  fw_amount :: u128
  fw_new_balance :: u128
  fw_block_hash :: string

definition FAUCET_COOLDOWN_SECS :: u64 where
  "FAUCET_COOLDOWN_SECS = 120"

definition faucet_amount :: u128 where
  "faucet_amount = 5000 * CIL_PER_LOS"

definition faucet_block :: "node_env \<Rightarrow> clock \<Rightarrow> string \<Rightarrow> ledger \<Rightarrow> block" where
  "faucet_block ne ck address L =
     solve_pow (ne_env ne)
       \<lparr>blk_account = address, blk_previous = acc_head (account_or_default L address), blk_type = Mint,
        blk_amount = faucet_amount, blk_link = ''FAUCET:TESTNET:'' @ uint_to_string (ck_secs ck), blk_signature = [],
        blk_public_key = hex_encode (ne_env ne) (ne_public_key ne), blk_work = 0, blk_timestamp = ck_secs ck, blk_fee = 0\<rparr>"

text \<open>A claim that passed the checks; the account is created first and stays when the mint fails.\<close>

definition faucet_mint ::
    "'d store_ops \<Rightarrow> node_env \<Rightarrow> (block \<Rightarrow> string) \<Rightarrow> clock \<Rightarrow> string \<Rightarrow> 'd faucet_node
     \<Rightarrow> (faucet_answer, faucet_error) result \<times> 'd faucet_node" where
  "faucet_mint ops ne to_json ck address fa =
     (let L = ensure_account address (fa_ledger fa);
          b = faucet_block ne ck address L in
      case try_sign_hex ne (as_bytes (signing_hash (ne_env ne) b)) of
        None \<Rightarrow> (Err FaucetSigning, fa\<lparr>fa_ledger := L\<rparr>)
      | Some sig \<Rightarrow>
          let b = b\<lparr>blk_signature := sig\<rparr> in
          (case process_block (ne_env ne) (ck_secs ck) b L of
             (Ok res, L') \<Rightarrow>
               (Ok \<lparr>fw_amount = faucet_amount div CIL_PER_LOS,
                    fw_new_balance = acc_balance (account_or_default L' address) div CIL_PER_LOS,
                    fw_block_hash = process_result_hash res\<rparr>,
                fa\<lparr>fa_ledger := L', fa_db := snd (record_faucet_claim ops (ck_secs ck) address (fa_db fa)), fa_dirty := True,
                   fa_outbox := fa_outbox fa @ [to_json b]\<rparr>)
           | (Err _, L') \<Rightarrow> (Err FaucetMintFailed, fa\<lparr>fa_ledger := L'\<rparr>)
           | (Panic, L') \<Rightarrow> (Panic, fa\<lparr>fa_ledger := L'\<rparr>)))"

text \<open>A request is the body after JSON: not an object, or the text of its field \<open>address\<close>.\<close>

definition handle_faucet ::
    "'d store_ops \<Rightarrow> node_env \<Rightarrow> (block \<Rightarrow> string) \<Rightarrow> clock \<Rightarrow> string option option \<Rightarrow> 'd faucet_node
     \<Rightarrow> (faucet_answer, faucet_error) result \<times> 'd faucet_node" where
  "handle_faucet ops ne to_json ck req fa =
     (case req of
        None \<Rightarrow> (Err FaucetBadRequest, fa)
      | Some field \<Rightarrow>
          let address = (case field of Some a \<Rightarrow> a | None \<Rightarrow> []) in
          if is_mainnet_build (ne_env ne) then (Err FaucetOnMainnet, fa)
          else if \<not> should_enable_faucet (ne_config ne) then (Err FaucetDisabled, fa)
          else if address = [] then (Err FaucetNoAddress, fa)
          else if \<not> validate_address (ne_env ne) address then (Err FaucetBadAddress, fa)
          else
            (case check_faucet_cooldown ops (ck_secs ck) address FAUCET_COOLDOWN_SECS (fa_db fa) of
               Err remaining \<Rightarrow> (Err (FaucetCooldown remaining), fa)
             | Panic \<Rightarrow> (Panic, fa)
             | Ok _ \<Rightarrow>
                 (case check_and_record (ck_instant ck) address (fa_limiter fa) of
                    (Err wait_secs, el) \<Rightarrow> (Err (FaucetRateLimit wait_secs), fa\<lparr>fa_limiter := el\<rparr>)
                  | (Panic, el) \<Rightarrow> (Panic, fa\<lparr>fa_limiter := el\<rparr>)
                  | (Ok _, el) \<Rightarrow> faucet_mint ops ne to_json ck address (fa\<lparr>fa_limiter := el\<rparr>))))"

section \<open>\<open>POST /reset-burn-txid\<close>\<close>

datatype reset_error = ResetBadRequest | ResetOnMainnet | ResetNoTxids | ResetEmpty

definition mint_hashes :: "string \<Rightarrow> ledger \<Rightarrow> string list" where
  "mint_hashes txid L = map fst (filter (\<lambda>(_, b). blk_type b = Mint \<and> str_contains (blk_link b) txid) (blocks L))"

definition undo_mint :: "string \<Rightarrow> block \<Rightarrow> ledger \<Rightarrow> ledger" where
  "undo_mint h b L =
     L\<lparr>blocks := bt_remove h (blocks L),
       accounts := bt_modify (blk_account b)
         (\<lambda>st. st\<lparr>acc_balance := saturating_sub (acc_balance st) (blk_amount b), acc_head := blk_previous b,
               acc_block_count := saturating_sub (acc_block_count st) 1\<rparr>) (accounts L)\<rparr>"

text \<open>The number of blocks taken back; nothing when a short address cannot be printed, which ends the request there.\<close>

fun reset_blocks :: "string list \<Rightarrow> nat \<Rightarrow> ledger \<Rightarrow> nat option \<times> ledger" where
  "reset_blocks [] n L = (Some n, L)"
| "reset_blocks (h # hs) n L =
     (case bt_get (blocks L) h of
        None \<Rightarrow> reset_blocks hs n L
      | Some b \<Rightarrow>
          let L = undo_mint h b L in
          if get_short_addr (blk_account b) = None then (None, L) else reset_blocks hs (n + 1) L)"

fun reset_txids :: "string list \<Rightarrow> nat \<Rightarrow> ledger \<Rightarrow> nat option \<times> ledger" where
  "reset_txids [] n L = (Some n, L)"
| "reset_txids (t # ts) n L =
     (case reset_blocks (mint_hashes t L) n L of (None, L) \<Rightarrow> (None, L) | (Some n, L) \<Rightarrow> reset_txids ts n L)"

definition handle_reset_burn ::
    "los_env \<Rightarrow> (string \<Rightarrow> string) \<Rightarrow> string option list option option \<Rightarrow> ledger \<Rightarrow> bool
     \<Rightarrow> (nat, reset_error) result \<times> ledger \<times> bool" where
  "handle_reset_burn env tables req L dirty =
     (case req of
        None \<Rightarrow> (Err ResetBadRequest, L, dirty)
      | Some field \<Rightarrow>
          if \<not> is_testnet_build env then (Err ResetOnMainnet, L, dirty)
          else
            (case field of
               None \<Rightarrow> (Err ResetNoTxids, L, dirty)
             | Some entries \<Rightarrow>
                 let txids = map (\<lambda>s. to_lowercase tables (trim_0x (str_trim s))) (List.map_filter (\<lambda>x. x) entries) in
                 if txids = [] then (Err ResetEmpty, L, dirty)
                 else
                   (case reset_txids txids 0 L of
                      (None, L') \<Rightarrow> (Panic, L', dirty)
                    | (Some n, L') \<Rightarrow> (Ok n, L', dirty \<or> n > 0))))"

section \<open>The value of a claim\<close>

lemma handle_faucet_cases:
  assumes "handle_faucet ops ne to_json ck req fa = (r, fa')"
  obtains (refused) "fa_ledger fa' = fa_ledger fa" "\<forall>w. r \<noteq> Ok w" "fa_db fa' = fa_db fa"
    "fa_limiter fa' = fa_limiter fa \<or> (\<exists>a q. check_and_record (ck_instant ck) a (fa_limiter fa) = (q, fa_limiter fa') \<and> (\<forall>u. q \<noteq> Ok u))"
  | (minted) a el where "req = Some (Some a)" "\<not> is_mainnet_build (ne_env ne)" "validate_address (ne_env ne) a"
    "check_faucet_cooldown ops (ck_secs ck) a FAUCET_COOLDOWN_SECS (fa_db fa) = Ok ()"
    "check_and_record (ck_instant ck) a (fa_limiter fa) = (Ok (), el)"
    "faucet_mint ops ne to_json ck a (fa\<lparr>fa_limiter := el\<rparr>) = (r, fa')"
proof (cases req)
  case None
  with assms show thesis by (intro refused) (auto simp: handle_faucet_def)
next
  case (Some field)
  show thesis
  proof (cases "field = None \<or> field = Some [] \<or> is_mainnet_build (ne_env ne) \<or> \<not> should_enable_faucet (ne_config ne)
      \<or> \<not> validate_address (ne_env ne) (the field)")
    case True
    with assms Some show thesis by (intro refused) (auto simp: handle_faucet_def Let_def split: if_splits option.splits)
  next
    case False
    then obtain a where a: "field = Some a" by auto
    show thesis
    proof (cases "\<exists>u. check_faucet_cooldown ops (ck_secs ck) a FAUCET_COOLDOWN_SECS (fa_db fa) = Ok u")
      case True
      obtain q el where q: "check_and_record (ck_instant ck) a (fa_limiter fa) = (q, el)" by fastforce
      show thesis
      proof (cases "q = Ok ()")
        case ok: True
        with True q False a Some assms show thesis by (intro minted [of a el]) (auto simp: handle_faucet_def Let_def)
      next
        case bad: False
        then have "fa' = fa\<lparr>fa_limiter := el\<rparr> \<and> (\<forall>w. r \<noteq> Ok w)"
          using True q False a Some assms by (cases q) (auto simp: handle_faucet_def Let_def)
        with bad q show thesis by (intro refused disjI2 exI [of _ a] exI [of _ q]) auto
      qed
    next
      case bad: False
      then have "fa' = fa \<and> (\<forall>w. r \<noteq> Ok w)"
        using False a Some assms
        by (cases "check_faucet_cooldown ops (ck_secs ck) a FAUCET_COOLDOWN_SECS (fa_db fa)") (auto simp: handle_faucet_def Let_def)
      then show thesis by (intro refused) auto
    qed
  qed
qed

lemma faucet_mint_cases:
  assumes "faucet_mint ops ne to_json ck a fa = (r, fa')"
  obtains (unsigned) "fa' = fa\<lparr>fa_ledger := ensure_account a (fa_ledger fa)\<rparr>" "r = Err FaucetSigning"
  | (signed) sig q L' where
    "process_block (ne_env ne) (ck_secs ck) ((faucet_block ne ck a (ensure_account a (fa_ledger fa)))\<lparr>blk_signature := sig\<rparr>)
       (ensure_account a (fa_ledger fa)) = (q, L')"
    "fa_ledger fa' = L'" "fa_limiter fa' = fa_limiter fa"
    "(\<exists>res. q = Ok res \<and> fa_db fa' = snd (record_faucet_claim ops (ck_secs ck) a (fa_db fa))) \<and> (\<exists>w. r = Ok w)
     \<or> (\<forall>res. q \<noteq> Ok res) \<and> (\<forall>w. r \<noteq> Ok w) \<and> fa_db fa' = fa_db fa"
proof (cases "try_sign_hex ne (as_bytes (signing_hash (ne_env ne) (faucet_block ne ck a (ensure_account a (fa_ledger fa)))))")
  case None
  with assms show thesis by (intro unsigned) (auto simp: faucet_mint_def Let_def)
next
  case (Some sig)
  let ?E = "ensure_account a (fa_ledger fa)"
  obtain q L' where q: "process_block (ne_env ne) (ck_secs ck) ((faucet_block ne ck a ?E)\<lparr>blk_signature := sig\<rparr>) ?E = (q, L')" by fastforce
  with assms Some show thesis by (intro signed [OF q]) (cases q; auto simp: faucet_mint_def Let_def)+
qed

lemma faucet_block_sel:
  "blk_account (faucet_block ne ck a L) = a" "blk_type (faucet_block ne ck a L) = Mint" "blk_amount (faucet_block ne ck a L) = faucet_amount"
  by (simp_all add: faucet_block_def)

text \<open>What an applied mint does to the balance and to the supply, exactly.\<close>

lemma applied_mint_exact:
  assumes "ledger_inv L" "process_block env now b L = (Ok (Applied h), L')" "blk_type b = Mint"
  shows "ledger_inv L'" "ledger_value L' = ledger_value L"
    "unat (acc_balance (account_or_default L' (blk_account b))) = unat (acc_balance (account_or_default L (blk_account b))) + unat (blk_amount b)"
    "unat (remaining_supply (distribution L)) = unat (remaining_supply (distribution L')) + unat (blk_amount b)"
proof -
  obtain st1 L1 where applied: "bt_get (blocks L) (calculate_hash env b) = None"
      "process_transaction env b (account_or_default L (blk_account b)) L = (Ok st1, L1)" "L' = commit_block b (calculate_hash env b) st1 L1"
    using assms(2) by (auto elim: process_block_cases)
  let ?st = "account_or_default L (blk_account b)"
  have m: "process_mint env b ?st L = (Ok st1, L1)" using applied(2) assms(3) by (simp add: process_transaction_def)
  then have le: "unat (blk_amount b) \<le> unat (remaining_supply (distribution L))"
    and st1: "acc_balance st1 = saturating_add (acc_balance ?st) (blk_amount b)"
    and L1: "remaining_supply (distribution L1) = saturating_sub (remaining_supply (distribution L)) (blk_amount b)"
    by (auto simp: process_mint_def Let_def word_less_nat_alt split: if_splits option.splits)
  have "unat (acc_balance ?st) + unat (remaining_supply (distribution L)) < 2 ^ 128"
    using assms(1) balance_le_total [of L "blk_account b"] by (auto simp: ledger_inv_def maps_ok_def ledger_value_def)
  then have s: "unat (acc_balance st1) = unat (acc_balance ?st) + unat (blk_amount b)"
    using le by (simp add: st1 unat_saturating_add)
  show "ledger_inv L'" using applied_inv [OF assms(1) applied(1,2)] applied(3) by simp
  show "ledger_value L' = ledger_value L"
    using applied_value [OF assms(1) applied(1,2)] applied(3) assms(3) by (simp add: value_removed_def)
  show "unat (acc_balance (account_or_default L' (blk_account b))) = unat (acc_balance ?st) + unat (blk_amount b)"
    using s applied(3) by (simp add: account_or_default_def)
  show "unat (remaining_supply (distribution L)) = unat (remaining_supply (distribution L')) + unat (blk_amount b)"
    using le applied(3) by (simp add: L1 unat_saturating_sub)
qed

text \<open>What a claim pays. A claim that is answered with success was made on the test network for a valid address,
  and unless its block was known before, it moves exactly 5000 LOS from the remaining supply to this address and
  nothing else; the value of the ledger is the same.\<close>

theorem faucet_claim_pays:
  assumes "handle_faucet ops ne to_json ck req fa = (Ok w, fa')" "ledger_inv (fa_ledger fa)"
  shows "\<not> is_mainnet_build (ne_env ne) \<and> ledger_inv (fa_ledger fa') \<and> ledger_value (fa_ledger fa') = ledger_value (fa_ledger fa)
    \<and> (\<exists>a. req = Some (Some a) \<and> validate_address (ne_env ne) a
         \<and> (fa_ledger fa' = ensure_account a (fa_ledger fa)
            \<or> unat (acc_balance (account_or_default (fa_ledger fa') a)) = unat (acc_balance (account_or_default (fa_ledger fa) a)) + unat faucet_amount
              \<and> unat (remaining_supply (distribution (fa_ledger fa))) = unat (remaining_supply (distribution (fa_ledger fa'))) + unat faucet_amount))"
  using assms(1)
proof (cases rule: handle_faucet_cases)
  case (minted a el)
  let ?E = "ensure_account a (fa_ledger fa)"
  note safe = ensure_account_safe [OF assms(2), of a]
  from minted(6) show ?thesis
  proof (cases rule: faucet_mint_cases)
    case (signed sig q L')
    let ?b = "(faucet_block ne ck a ?E)\<lparr>blk_signature := sig\<rparr>"
    have p: "process_block (ne_env ne) (ck_secs ck) ?b ?E = (q, L')" using signed(1) by simp
    show ?thesis
    proof (cases "\<exists>h. q = Ok (Applied h)")
      case True
      then obtain h where "process_block (ne_env ne) (ck_secs ck) ?b ?E = (Ok (Applied h), L')" using p by auto
      note ex = applied_mint_exact [OF safe(1) this]
      show ?thesis using ex minted(1-3) signed(2) safe(2) by (simp add: faucet_block_sel)
    next
      case False
      with p have "L' = ?E" by (auto elim: process_block_cases)
      then show ?thesis using minted(1-3) signed(2) safe by simp
    qed
  qed simp
qed simp

section \<open>Claims lie apart\<close>

definition limiter_ok :: "nat \<Rightarrow> endpoint_limiter \<Rightarrow> bool" where
  "limiter_ok W el \<longleftrightarrow> bt_ok (el_requests el) \<and> el_max_requests el = 1 \<and> el_window el = W"

definition el_has :: "endpoint_limiter \<Rightarrow> string \<Rightarrow> nat \<Rightarrow> bool" where
  "el_has el a t \<longleftrightarrow> (\<exists>ts. bt_get (el_requests el) a = Some ts \<and> t \<in> set ts)"

lemma cleanup_keeps:
  assumes "limiter_ok W el"
  shows "limiter_ok W (el_cleanup now el)" "el_has el a t \<Longrightarrow> el_has (el_cleanup now el) a t \<or> W \<le> now - t"
proof -
  let ?m = "bt_map_values (filter (\<lambda>t. now - t < el_window el)) (el_requests el)"
  have ok: "bt_ok ?m" using assms by (simp add: limiter_ok_def)
  have "bt_get (filter (\<lambda>e. snd e \<noteq> []) ?m) a = Some ts" if "bt_get ?m a = Some ts" "ts \<noteq> []" for ts
  proof -
    have "(a, ts) \<in> set ?m" using bt_entries_get [OF ok] that(1) by blast
    then have "(a, ts) \<in> set (filter (\<lambda>e. snd e \<noteq> []) ?m)" using that(2) by simp
    then show ?thesis using bt_entries_get [OF bt_ok_filter [OF ok]] by blast
  qed
  then show "el_has el a t \<Longrightarrow> el_has (el_cleanup now el) a t \<or> W \<le> now - t"
    using assms by (fastforce simp: el_has_def el_cleanup_def limiter_ok_def filter_empty_conv)
  show "limiter_ok W (el_cleanup now el)" using assms ok by (auto simp: limiter_ok_def el_cleanup_def bt_ok_filter)
qed

lemma check_and_record_keeps:
  assumes "limiter_ok W el" "check_and_record now b el = (q, el')"
  shows "limiter_ok W el'" "el_has el a t \<Longrightarrow> el_has el' a t \<or> W \<le> now - t"
    "q = Ok () \<Longrightarrow> el_has el' b now" "q = Ok () \<Longrightarrow> el_has el b t \<Longrightarrow> W \<le> now - t"
proof -
  let ?c = "el_cleanup now el"
  note c = cleanup_keeps [OF assms(1)]
  have w: "el_window ?c = W" "unat (el_max_requests ?c) = 1" "bt_ok (el_requests ?c)" using c(1) [of now] by (simp_all add: limiter_ok_def)
  have rec: "t \<in> set (el_recent now b ?c)" if "el_has ?c b t" "now - t < W" for t
    using that w by (auto simp: el_has_def el_recent_def)
  have e: "el' = ?c\<lparr>el_requests := bt_insert b (el_recent now b ?c @ (if q = Ok () then [now] else [])) (el_requests ?c)\<rparr>"
      "q = Ok () \<longleftrightarrow> el_recent now b ?c = []"
    using assms(2) w(2) by (auto simp: check_and_record_def Let_def not_le split: if_splits)
  show "limiter_ok W el'" using w c(1) [of now] by (simp add: e(1) limiter_ok_def)
  show "el_has el' b now" if "q = Ok ()" using that by (simp add: e(1) el_has_def)
  show "el_has el' a t \<or> W \<le> now - t" if "el_has el a t"
  proof (cases "W \<le> now - t")
    case False
    then have "el_has ?c a t" using c(2) [OF that, of now] by simp
    then show ?thesis using rec [of t] False by (cases "a = b") (auto simp: e(1) el_has_def)
  qed simp
  show "W \<le> now - t" if "q = Ok ()" "el_has el b t"
    using c(2) [OF that(2), of now] rec [of t] e(2) that(1) by (cases "W \<le> now - t") auto
qed

text \<open>The node after a list of requests.\<close>

primrec faucet_run ::
    "'d store_ops \<Rightarrow> node_env \<Rightarrow> (block \<Rightarrow> string) \<Rightarrow> (clock \<times> string option option) list \<Rightarrow> 'd faucet_node \<Rightarrow> 'd faucet_node" where
  "faucet_run ops ne to_json [] fa = fa"
| "faucet_run ops ne to_json (x # xs) fa = faucet_run ops ne to_json xs (snd (handle_faucet ops ne to_json (fst x) (snd x) fa))"

lemma faucet_run_append:
  "faucet_run ops ne to_json (xs @ ys) fa = faucet_run ops ne to_json ys (faucet_run ops ne to_json xs fa)"
  by (induction xs arbitrary: fa) simp_all

lemma handle_faucet_limiter:
  assumes "handle_faucet ops ne to_json ck req fa = (r, fa')" "limiter_ok W (fa_limiter fa)"
  shows "limiter_ok W (fa_limiter fa')"
    "el_has (fa_limiter fa) a t \<Longrightarrow> el_has (fa_limiter fa') a t \<or> W \<le> ck_instant ck - t"
    "r = Ok w \<Longrightarrow> req = Some (Some a) \<Longrightarrow> el_has (fa_limiter fa') a (ck_instant ck)"
    "r = Ok w \<Longrightarrow> req = Some (Some a) \<Longrightarrow> el_has (fa_limiter fa) a t \<Longrightarrow> W \<le> ck_instant ck - t"
proof -
  from assms(1) have "limiter_ok W (fa_limiter fa')
    \<and> (el_has (fa_limiter fa) a t \<longrightarrow> el_has (fa_limiter fa') a t \<or> W \<le> ck_instant ck - t)
    \<and> (r = Ok w \<and> req = Some (Some a) \<longrightarrow> el_has (fa_limiter fa') a (ck_instant ck)
        \<and> (el_has (fa_limiter fa) a t \<longrightarrow> W \<le> ck_instant ck - t))"
  proof (cases rule: handle_faucet_cases)
    case refused
    show ?thesis
    proof (cases "fa_limiter fa' = fa_limiter fa")
      case False
      then obtain b q where "check_and_record (ck_instant ck) b (fa_limiter fa) = (q, fa_limiter fa')" using refused(4) by blast
      from check_and_record_keeps(1,2) [OF assms(2) this] refused(2) show ?thesis by blast
    qed (use assms(2) refused(2) in simp)
  next
    case (minted b el)
    have "fa_limiter fa' = el" using minted(6) by (auto elim!: faucet_mint_cases)
    then show ?thesis using check_and_record_keeps [OF assms(2) minted(5)] minted(1) by auto
  qed
  then show "limiter_ok W (fa_limiter fa')"
    "el_has (fa_limiter fa) a t \<Longrightarrow> el_has (fa_limiter fa') a t \<or> W \<le> ck_instant ck - t"
    "r = Ok w \<Longrightarrow> req = Some (Some a) \<Longrightarrow> el_has (fa_limiter fa') a (ck_instant ck)"
    "r = Ok w \<Longrightarrow> req = Some (Some a) \<Longrightarrow> el_has (fa_limiter fa) a t \<Longrightarrow> W \<le> ck_instant ck - t" by blast+
qed

lemma faucet_run_limiter:
  assumes "limiter_ok W (fa_limiter fa)" "\<forall>x \<in> set xs. ck_instant (fst x) \<le> now"
  shows "limiter_ok W (fa_limiter (faucet_run ops ne to_json xs fa))
    \<and> (el_has (fa_limiter fa) a t \<longrightarrow> el_has (fa_limiter (faucet_run ops ne to_json xs fa)) a t \<or> W \<le> now - t)"
  using assms
proof (induction xs arbitrary: fa)
  case (Cons x xs)
  obtain r fa' where h: "handle_faucet ops ne to_json (fst x) (snd x) fa = (r, fa')" by fastforce
  note k = handle_faucet_limiter [OF h Cons.prems(1)]
  have "\<forall>x \<in> set xs. ck_instant (fst x) \<le> now" using Cons.prems(2) by simp
  note ih = Cons.IH [OF k(1) this]
  show ?case
  proof (cases "W \<le> ck_instant (fst x) - t")
    case True
    then have "W \<le> now - t" using Cons.prems(2) by (auto intro: order_trans [OF _ diff_le_mono])
    then show ?thesis using ih h by simp
  next
    case False
    then show ?thesis using ih h k(2) [of a t] by auto
  qed
qed simp

text \<open>C39: one claim per address in two minutes. Whatever requests a node of the test network has answered since it
  started, and whatever its database does, two claims of one address that succeed lie at least 120 seconds apart on the
  monotonic clock.\<close>

theorem faucet_claims_spaced:
  assumes "fa_limiter fa = endpoint_limiter_new 1 120 t0"
    and "fst (handle_faucet ops ne to_json c1 (Some (Some a)) (faucet_run ops ne to_json xs fa)) = Ok w1"
    and "fst (handle_faucet ops ne to_json c2 (Some (Some a)) (faucet_run ops ne to_json (xs @ (c1, Some (Some a)) # ys) fa)) = Ok w2"
    and "\<forall>y \<in> set ys. ck_instant (fst y) \<le> ck_instant c2"
  shows "ck_instant c1 + 120 * 10 ^ 9 \<le> ck_instant c2"
proof -
  let ?W = "120 * 10 ^ 9 :: nat" and ?run = "faucet_run ops ne to_json"
  have "limiter_ok ?W (fa_limiter fa)" by (simp add: assms(1) limiter_ok_def endpoint_limiter_new_def)
  then have l: "limiter_ok ?W (fa_limiter (?run xs fa))"
    using faucet_run_limiter [of ?W fa xs "Max (insert 0 (ck_instant ` fst ` set xs))" ops ne to_json] by (simp add: image_image)
  obtain fa1 where h1: "handle_faucet ops ne to_json c1 (Some (Some a)) (?run xs fa) = (Ok w1, fa1)" using assms(2) by (metis prod.collapse)
  note k = handle_faucet_limiter [OF h1 l]
  have r: "?run (xs @ (c1, Some (Some a)) # ys) fa = ?run ys fa1" by (simp add: faucet_run_append h1)
  obtain fa3 where h2: "handle_faucet ops ne to_json c2 (Some (Some a)) (?run ys fa1) = (Ok w2, fa3)" using assms(3) r by (metis prod.collapse)
  note run = faucet_run_limiter [OF k(1) assms(4), of ops ne to_json a "ck_instant c1"]
  have "?W \<le> ck_instant c2 - ck_instant c1"
    using run k(3) handle_faucet_limiter(4) [OF h2 _ refl refl] by blast
  then show ?thesis by simp
qed

text \<open>The record of a claim in the database refuses the next one also for a node that was started again.\<close>

lemma faucet_cooldown_survives:
  assumes "handle_faucet ops ne to_json ck (Some (Some a)) fa = (Ok w, fa')"
    and "\<forall>t k v db db'. so_insert ops t k v db = (True, db') \<longrightarrow> so_get ops db' t k = Some (Some v) \<and> so_open_tree ops db' t"
    and "so_open_tree ops (fa_db fa) TREE_FAUCET_COOLDOWNS"
    and "fst (so_insert ops TREE_FAUCET_COOLDOWNS (as_bytes a) (u64_le_bytes (ck_secs ck)) (fa_db fa))"
    and "fa_db fa2 = fa_db fa'" "unat (ck_secs ck2) < unat (ck_secs ck) + 120"
  shows "\<exists>e. fst (handle_faucet ops ne to_json ck2 (Some (Some a)) fa2) = Err e"
  using assms(1)
proof (cases rule: handle_faucet_cases)
  case (minted b el)
  then have b: "b = a" by simp
  have db: "fa_db fa2 = snd (record_faucet_claim ops (ck_secs ck) a (fa_db fa))"
    using minted(6) assms(5) unfolding b by (auto elim!: faucet_mint_cases)
  obtain db' where i: "so_insert ops TREE_FAUCET_COOLDOWNS (as_bytes a) (u64_le_bytes (ck_secs ck)) (fa_db fa) = (True, db')"
    using assms(4) by (metis prod.collapse)
  have "fa_db fa2 = db'" using assms(3) i by (simp add: db record_faucet_claim_def finish_def)
  moreover have "so_get ops db' TREE_FAUCET_COOLDOWNS (as_bytes a) = Some (Some (u64_le_bytes (ck_secs ck)))" "so_open_tree ops db' TREE_FAUCET_COOLDOWNS"
    using assms(2) i by blast+
  moreover have "saturating_sub (ck_secs ck2) (ck_secs ck) < FAUCET_COOLDOWN_SECS"
    using assms(6) by (simp add: word_less_nat_alt unat_saturating_sub FAUCET_COOLDOWN_SECS_def)
  ultimately have "\<exists>e. check_faucet_cooldown ops (ck_secs ck2) a FAUCET_COOLDOWN_SECS (fa_db fa2) = Err e"
    by (simp add: check_faucet_cooldown_def Let_def)
  then show ?thesis by (auto simp: handle_faucet_def Let_def)
qed simp

section \<open>What a reset leaves\<close>

lemma reset_blocks_distribution: "distribution (snd (reset_blocks hs n L)) = distribution L"
  by (induction hs n L rule: reset_blocks.induct) (auto simp: undo_mint_def Let_def split: option.splits)

lemma reset_keeps_supply: "distribution (snd (reset_txids ts n L)) = distribution L"
proof (induction ts n L rule: reset_txids.induct)
  case (2 t ts n L)
  obtain r M where r: "reset_blocks (mint_hashes t L) n L = (r, M)" by fastforce
  then have "distribution M = distribution L" using reset_blocks_distribution [of "mint_hashes t L" n L] by simp
  with r 2 [OF r [symmetric]] show ?case by (cases r) (auto split: prod.splits)
qed simp

text \<open>The identifier \<open>0x\<close> is trimmed to the empty text, which every link contains: one request takes back every mint,
  epoch rewards included.\<close>

lemma empty_txid_matches_all: "mint_hashes [] L = map fst (filter (\<lambda>(_, b). blk_type b = Mint) (blocks L))"
proof -
  have "str_contains s []" for s by (induction s) (simp_all add: starts_with_def)
  then show ?thesis by (simp add: mint_hashes_def)
qed

lemma prefix_trims_to_empty: "to_lowercase tables (trim_0x (str_trim ''0x'')) = []"
  by (simp add: to_lowercase_def str_trim_def white_space_def starts_with_def is_ascii_def)

text \<open>The balance that is taken back does not return to the supply that can be minted.\<close>

lemma reset_loses_supply:
  assumes "bt_get (blocks L) h = Some b" "bt_get (accounts L) (blk_account b) = Some st" "blk_amount b \<le> acc_balance st"
  shows "unat (acc_balance (account_or_default (undo_mint h b L) (blk_account b))) + unat (blk_amount b) = unat (acc_balance st)
    \<and> remaining_supply (distribution (undo_mint h b L)) = remaining_supply (distribution L)"
  using assms by (simp add: undo_mint_def account_or_default_def unat_saturating_sub word_le_nat_alt)

section \<open>Examples\<close>

definition faucet_env :: los_env where
  "faucet_env = demo_env\<lparr>mainnet_feature := False, bs58_decode := \<lambda>_. Some (90 # replicate 20 0 @ [90, 0, 0, 0])\<rparr>"

definition faucet_ne :: node_env where
  "faucet_ne = demo_node_env faucet_env (\<lambda>_. None)"

definition faucet_start :: "((string \<times> bytes) \<times> bytes) list faucet_node" where
  "faucet_start = \<lparr>fa_ledger = ledger_new, fa_db = [], fa_limiter = endpoint_limiter_new 1 120 0, fa_dirty = False, fa_outbox = []\<rparr>"

definition faucet_clock :: "nat \<Rightarrow> clock" where
  "faucet_clock n = \<lparr>ck_secs = 100 + of_nat n, ck_millis = 0, ck_instant = n * 10 ^ 9\<rparr>"

lemma faucet_env_simps [simp]:
  "hex_encode faucet_env b = map (\<lambda>w. char_of (unat w)) b" "hex_decode faucet_env s = Some (as_bytes s)"
  "keccak256 faucet_env b = [0, 0, 1, of_nat (length b)]" "mainnet_feature faucet_env = False"
  "dilithium_pk_valid faucet_env b" "dilithium_sig_valid faucet_env b" "dilithium_verify faucet_env b c d"
  by (simp_all add: faucet_env_def)

lemma faucet_pow: "verify_pow faucet_env b"
proof -
  have "hex_decode faucet_env (signing_hash faucet_env b) = Some [0, 0, 1, of_nat (length (signing_bytes faucet_env b))]"
    by (simp only: faucet_env_simps signing_hash_def as_bytes_char_of)
  then show ?thesis by (simp add: verify_pow_def MIN_POW_DIFFICULTY_BITS_def u8_leading_zeros_def upt_rec)
qed

lemma faucet_demo_block:
  "faucet_block faucet_ne ck a L =
     \<lparr>blk_account = a, blk_previous = acc_head (account_or_default L a), blk_type = Mint,
      blk_amount = faucet_amount, blk_link = ''FAUCET:TESTNET:'' @ uint_to_string (ck_secs ck), blk_signature = [],
      blk_public_key = [char_of (1 :: nat)], blk_work = 0, blk_timestamp = ck_secs ck, blk_fee = 0\<rparr>"
  by (simp add: faucet_block_def solve_pow_def pow_search.simps faucet_pow faucet_ne_def demo_node_env_def)

lemma faucet_demo_checks:
  "validate_address faucet_env ''LOSX''" "\<not> is_mainnet_build faucet_env" "should_enable_faucet (get_testnet_config faucet_env (ne_level faucet_ne))" "ne_env faucet_ne = faucet_env"
  "try_sign_hex faucet_ne m = Some [char_of (1 :: nat)]"
  by (simp_all add: validate_address_def starts_with_def faucet_env_def demo_env_def plain_env_def address_checksum_def
      is_mainnet_build_def CHAIN_ID_def faucet_ne_def demo_node_env_def get_testnet_config_def should_enable_faucet_def
      config_consensus_testing_def try_sign_hex_def numeral_3_eq_3)

lemma faucet_signature: "blk_public_key b = [c] \<Longrightarrow> blk_signature b \<noteq> [] \<Longrightarrow> verify_signature faucet_env b"
  by (simp add: verify_signature_def crypto_verify_signature_def verify_dilithium5_def hex_decode_or_empty_def as_bytes_def Let_def)

lemma faucet_hash:
  "calculate_hash faucet_env b = [CHR 0x00, CHR 0x00, CHR 0x01, char_of (unat (of_nat (4 + length (blk_signature b)) :: u8))]"
  by (simp add: calculate_hash_def signing_hash_def char_of_def bit_0)

lemma faucet_demo_process:
  assumes "b = (faucet_block faucet_ne (faucet_clock n) ''LOSX'' (ensure_account ''LOSX'' L))\<lparr>blk_signature := [char_of (1 :: nat)]\<rparr>"
    and "L = ledger_new \<and> n = 0 \<or> bt_contains (blocks L) [CHR 0x00, CHR 0x00, CHR 0x01, CHR 0x05]"
  shows "\<exists>res L'. process_block faucet_env (ck_secs (faucet_clock n)) b (ensure_account ''LOSX'' L) = (Ok res, L')
    \<and> bt_contains (blocks L') [CHR 0x00, CHR 0x00, CHR 0x01, CHR 0x05]"
proof -
  have h: "calculate_hash faucet_env b = [CHR 0x00, CHR 0x00, CHR 0x01, CHR 0x05]"
    by (simp add: faucet_hash assms(1) char_of_def bit_0)
  have v: "verify_pow faucet_env b" "verify_signature faucet_env b" "check_owner faucet_env b = None"
    by (simp_all add: faucet_pow faucet_signature assms(1) faucet_demo_block check_owner_def owner_signed_type_def)
  show ?thesis
  proof (cases "bt_contains (blocks L) [CHR 0x00, CHR 0x00, CHR 0x01, CHR 0x05]")
    case True
    then show ?thesis by (simp add: process_block_def v h Let_def)
  next
    case False
    then have L: "L = ledger_new" "n = 0" using assms(2) by simp_all
    let ?E = "ensure_account ''LOSX'' ledger_new"
    have b: "blk_account b = ''LOSX''" "blk_type b = Mint" "blk_previous b = acc_head (account_or_default ?E ''LOSX'')"
      using L by (simp_all add: assms(1) faucet_demo_block)
    have t: "check_timestamp (ck_secs (faucet_clock n)) b ?E = None"
      using L by (simp add: check_timestamp_def assms(1) faucet_demo_block faucet_clock_def ensure_account_def ledger_new_def bt_contains_def
          MAX_TIMESTAMP_DRIFT_SECS_def account_or_default_def)
    obtain st1 L1 where tx: "process_transaction faucet_env b (account_or_default ?E ''LOSX'') ?E = (Ok st1, L1)"
      using L by (simp add: process_transaction_def process_mint_def assms(1) faucet_demo_block ledger_new_def distribution_new_def
          ledger_constants is_faucet_def is_testnet_build_def CHAIN_ID_def starts_with_def faucet_amount_def Let_def ensure_account_def bt_contains_def)
    have "\<not> bt_contains (blocks ?E) (calculate_hash faucet_env b)" using False L h by simp
    then show ?thesis
      using v b t tx h L by (simp add: process_block_def Let_def commit_block_def bt_contains_def)
  qed
qed

lemma faucet_demo_claim:
  assumes "fa_ledger fa = ledger_new \<and> n = 0 \<or> bt_contains (blocks (fa_ledger fa)) [CHR 0x00, CHR 0x00, CHR 0x01, CHR 0x05]"
    and "check_faucet_cooldown (mem_store []) (ck_secs (faucet_clock n)) ''LOSX'' FAUCET_COOLDOWN_SECS (fa_db fa) = Ok ()"
    and "check_and_record (n * 10 ^ 9) ''LOSX'' (fa_limiter fa) = (Ok (), el)"
  shows "\<exists>w fa'. handle_faucet (mem_store []) faucet_ne (\<lambda>_. []) (faucet_clock n) (Some (Some ''LOSX'')) fa = (Ok w, fa')
    \<and> bt_contains (blocks (fa_ledger fa')) [CHR 0x00, CHR 0x00, CHR 0x01, CHR 0x05] \<and> fa_limiter fa' = el
    \<and> fa_db fa' = snd (record_faucet_claim (mem_store []) (ck_secs (faucet_clock n)) ''LOSX'' (fa_db fa))"
proof -
  obtain res L' where "process_block faucet_env (ck_secs (faucet_clock n))
      ((faucet_block faucet_ne (faucet_clock n) ''LOSX'' (ensure_account ''LOSX'' (fa_ledger fa)))\<lparr>blk_signature := [char_of (1 :: nat)]\<rparr>)
      (ensure_account ''LOSX'' (fa_ledger fa)) = (Ok res, L') \<and> bt_contains (blocks L') [CHR 0x00, CHR 0x00, CHR 0x01, CHR 0x05]"
    using faucet_demo_process [OF refl assms(1)] by blast
  then show ?thesis
    using assms(2,3) by (simp add: handle_faucet_def faucet_demo_checks faucet_mint_def Let_def faucet_clock_def)
qed

theorem faucet_claim_pays_witness:
  "\<exists>w fa'. handle_faucet (mem_store []) faucet_ne (\<lambda>_. []) (faucet_clock 0) (Some (Some ''LOSX'')) faucet_start = (Ok w, fa')
    \<and> ledger_value (fa_ledger fa') = ledger_value ledger_new"
proof -
  obtain w fa' where h: "handle_faucet (mem_store []) faucet_ne (\<lambda>_. []) (faucet_clock 0) (Some (Some ''LOSX'')) faucet_start = (Ok w, fa')"
    using faucet_demo_claim [of faucet_start 0]
    by (force simp: faucet_start_def check_faucet_cooldown_def mem_store_def check_and_record_def endpoint_limiter_new_def el_cleanup_def
        el_recent_def Let_def)
  with faucet_claim_pays [OF h] show ?thesis by (simp add: faucet_start_def ledger_new_inv)
qed

theorem faucet_claims_spaced_witness:
  "ck_instant (faucet_clock 0) + 120 * 10 ^ 9 \<le> ck_instant (faucet_clock 120)"
proof -
  let ?h = "\<lambda>n. handle_faucet (mem_store []) faucet_ne (\<lambda>_. []) (faucet_clock n) (Some (Some ''LOSX''))"
  let ?el = "(endpoint_limiter_new 1 120 0)\<lparr>el_requests := [(''LOSX'', [0])]\<rparr>"
  have "check_and_record 0 ''LOSX'' (fa_limiter faucet_start) = (Ok (), ?el)"
    by (simp add: faucet_start_def check_and_record_def endpoint_limiter_new_def el_cleanup_def el_recent_def Let_def)
  moreover have "check_faucet_cooldown (mem_store []) (ck_secs (faucet_clock 0)) ''LOSX'' FAUCET_COOLDOWN_SECS (fa_db faucet_start) = Ok ()"
    by (simp add: faucet_start_def check_faucet_cooldown_def mem_store_def)
  ultimately obtain w1 fa1 where h1: "?h 0 faucet_start = (Ok w1, fa1)"
      "bt_contains (blocks (fa_ledger fa1)) [CHR 0x00, CHR 0x00, CHR 0x01, CHR 0x05]" "fa_limiter fa1 = ?el"
      "fa_db fa1 = snd (record_faucet_claim (mem_store []) (ck_secs (faucet_clock 0)) ''LOSX'' (fa_db faucet_start))"
    using faucet_demo_claim [of faucet_start 0 ?el] by (auto simp: faucet_start_def)
  have "check_faucet_cooldown (mem_store []) (ck_secs (faucet_clock 120)) ''LOSX'' FAUCET_COOLDOWN_SECS (fa_db fa1) = Ok ()"
    by (simp add: h1(4) record_faucet_claim_def finish_def check_faucet_cooldown_def mem_store_def faucet_start_def faucet_clock_def Let_def
        FAUCET_COOLDOWN_SECS_def saturating_sub_def checked_sub_def)
  moreover have "\<exists>el. check_and_record (120 * 10 ^ 9) ''LOSX'' (fa_limiter fa1) = (Ok (), el)"
    by (simp add: h1(3) check_and_record_def endpoint_limiter_new_def el_cleanup_def el_recent_def bt_map_values_def Let_def)
  ultimately obtain w2 fa2 where h2: "?h 120 fa1 = (Ok w2, fa2)" using faucet_demo_claim [of fa1 120] h1(2) by blast
  have l: "fa_limiter faucet_start = endpoint_limiter_new 1 120 0" by (simp add: faucet_start_def)
  show ?thesis
    by (rule faucet_claims_spaced [OF l, where xs = "[]" and ys = "[]" and ops = "mem_store []" and ne = faucet_ne and to_json = "\<lambda>_. []" and a = "''LOSX''"])
      (simp_all add: h1(1) h2)
qed

end
