(* ===== verification/Validator_Config.thy ===== *)
theory Validator_Config
  imports Los_Strings Step_Systems
begin

text \<open>
  Configuration of validators (\<open>los-core/src/validator_config.rs\<close>) and of the nodes that are dialled at the start
  (\<open>los-network/src/tor_transport.rs\<close>, \<open>parse_bootstrap_node\<close>). Shown here: a manager that is filled one by one has valid
  configurations with distinct names and addresses, so that the lookups by name and by address agree; an onion address
  that is printed with its port is parsed back (in \<open>Node_Queries\<close>). A manager that is loaded from a directory is not checked for duplicates.
\<close>

section \<open>Validators\<close>

record sentry_public_config =
  spc_listen_addr :: string
  spc_listen_port :: u16

record sentry_private_config =
  svc_listen_addr :: string
  svc_listen_port :: u16
  svc_psk_file :: string

record validator_config =
  vc_node_id :: string
  vc_address :: string
  vc_private_key_path :: string
  vc_stake_cil :: u128
  vc_sentry_public :: sentry_public_config
  vc_sentry_private :: sentry_private_config

datatype config_error =
    EmptyNodeId | InvalidConfigAddress | StakeTooLow | InvalidPublicPort | InvalidPrivatePort
  | ValidatorExists string | AddressInUse string | AddressNotSet | NotANumber | ConfigUnreadable

text \<open>The variables of the environment are a function; \<open>pid\<close> is the process number.\<close>

definition load_from_env :: "nat \<Rightarrow> (string \<Rightarrow> string option) \<Rightarrow> (validator_config, config_error) result" where
  "load_from_env pid var =
     (let or_else = (\<lambda>name default. case var name of Some v \<Rightarrow> v | None \<Rightarrow> default);
          node_id = or_else ''LOS_NODE_ID'' (''validator-'' @ nat_to_string pid) in
      case var ''LOS_VALIDATOR_ADDRESS'' of
        None \<Rightarrow> Err AddressNotSet
      | Some address \<Rightarrow>
          (case (parse_uint (or_else ''LOS_STAKE_CIL'' ''100000000000000''), parse_uint (or_else ''LOS_SENTRY_PUBLIC_PORT'' ''30333''),
                 parse_uint (or_else ''LOS_SENTRY_PRIVATE_PORT'' ''31333'')) of
             (Some stake, Some public_port, Some private_port) \<Rightarrow>
               Ok \<lparr>vc_node_id = node_id, vc_address = address,
                   vc_private_key_path = or_else ''LOS_PRIVKEY_PATH'' (''/etc/los/'' @ node_id @ ''/private_key.hex''),
                   vc_stake_cil = stake, vc_sentry_public = \<lparr>spc_listen_addr = ''0.0.0.0'', spc_listen_port = public_port\<rparr>,
                   vc_sentry_private = \<lparr>svc_listen_addr = ''127.0.0.1'', svc_listen_port = private_port,
                     svc_psk_file = or_else ''LOS_PSK_FILE'' (''/etc/los/'' @ node_id @ ''/signer.psk'')\<rparr>\<rparr>
           | _ \<Rightarrow> Err NotANumber))"

definition config_validate :: "validator_config \<Rightarrow> (unit, config_error) result" where
  "config_validate c =
     (if vc_node_id c = [] then Err EmptyNodeId
      else if vc_address c = [] \<or> \<not> starts_with (vc_address c) ''LOS'' then Err InvalidConfigAddress
      else if vc_stake_cil c < 100000000000000 then Err StakeTooLow
      else if spc_listen_port (vc_sentry_public c) = 0 then Err InvalidPublicPort
      else if svc_listen_port (vc_sentry_private c) = 0 then Err InvalidPrivatePort
      else Ok ())"

definition sentry_public_addr :: "validator_config \<Rightarrow> string" where
  "sentry_public_addr c = spc_listen_addr (vc_sentry_public c) @ '':'' @ uint_to_string (spc_listen_port (vc_sentry_public c))"

definition sentry_private_addr :: "validator_config \<Rightarrow> string" where
  "sentry_private_addr c = svc_listen_addr (vc_sentry_private c) @ '':'' @ uint_to_string (svc_listen_port (vc_sentry_private c))"

type_synonym validator_manager = "validator_config list"

definition vm_new :: validator_manager where
  "vm_new = []"

text \<open>The files of a directory in the order in which it is read; the contents after TOML.\<close>

fun load_from_directory :: "(string \<times> validator_config option) list \<Rightarrow> validator_manager \<Rightarrow> (validator_manager, config_error) result" where
  "load_from_directory [] m = Ok m"
| "load_from_directory ((extension, content) # entries) m =
     (if extension = ''toml''
      then (case content of
              None \<Rightarrow> Err ConfigUnreadable
            | Some c \<Rightarrow>
                (case config_validate c of
                   Err e \<Rightarrow> Err e
                 | Panic \<Rightarrow> Panic
                 | Ok _ \<Rightarrow> load_from_directory entries (m @ [c])))
      else load_from_directory entries m)"

definition vm_add_validator :: "validator_config \<Rightarrow> validator_manager \<Rightarrow> (unit, config_error) result \<times> validator_manager" where
  "vm_add_validator c m =
     (case config_validate c of
        Err e \<Rightarrow> (Err e, m)
      | Panic \<Rightarrow> (Panic, m)
      | Ok _ \<Rightarrow>
          if list_ex (\<lambda>v. vc_node_id v = vc_node_id c) m then (Err (ValidatorExists (vc_node_id c)), m)
          else if list_ex (\<lambda>v. vc_address v = vc_address c) m then (Err (AddressInUse (vc_address c)), m)
          else (Ok (), m @ [c]))"

definition vm_get_validator :: "string \<Rightarrow> validator_manager \<Rightarrow> validator_config option" where
  "vm_get_validator node_id m = List.find (\<lambda>v. vc_node_id v = node_id) m"

definition vm_get_validator_by_address :: "string \<Rightarrow> validator_manager \<Rightarrow> validator_config option" where
  "vm_get_validator_by_address address m = List.find (\<lambda>v. vc_address v = address) m"

definition vm_list_validators :: "validator_manager \<Rightarrow> string list" where
  "vm_list_validators m = map vc_node_id m"

definition vm_get_all_addresses :: "validator_manager \<Rightarrow> string list" where
  "vm_get_all_addresses m = map vc_address m"

definition vm_total_stake :: "validator_manager \<Rightarrow> u128" where
  "vm_total_stake m = sum_list (map vc_stake_cil m)"

inductive vm_step :: "validator_manager \<Rightarrow> validator_manager \<Rightarrow> bool" where
  vm_step_add: "vm_add_validator c m = (r, m') \<Longrightarrow> vm_step m m'"

definition vm_inv :: "validator_manager \<Rightarrow> bool" where
  "vm_inv m \<longleftrightarrow> distinct (map vc_node_id m) \<and> distinct (map vc_address m) \<and> (\<forall>c \<in> set m. config_validate c = Ok ())"

lemma vm_add_inv: "vm_add_validator c m = (r, m') \<Longrightarrow> vm_inv m \<Longrightarrow> vm_inv m'"
  by (fastforce simp: vm_add_validator_def vm_inv_def list_ex_iff split: result.splits if_splits)

interpretation vm_sys: invariant_system vm_step vm_inv
  by unfold_locales (auto elim: vm_step.cases intro: vm_add_inv)

lemma find_distinct:
  assumes "distinct (map f xs)" "x \<in> set xs"
  shows "List.find (\<lambda>y. f y = f x) xs = Some x"
  using assms by (induction xs) (auto simp: rev_image_eqI)

text \<open>The two lookups of a configuration. In every manager that is filled one by one, each configuration is valid and is
  found by its name and by its address.\<close>

theorem validator_lookups_agree:
  assumes "vm_step\<^sup>*\<^sup>* vm_new m" "c \<in> set m"
  shows "config_validate c = Ok () \<and> vm_get_validator (vc_node_id c) m = Some c \<and> vm_get_validator_by_address (vc_address c) m = Some c"
proof -
  have "vm_inv m" by (rule vm_sys.reach_inv [OF assms(1)]) (simp add: vm_inv_def vm_new_def)
  then show ?thesis
    using assms(2) find_distinct [of vc_node_id m c] find_distinct [of vc_address m c]
    by (simp add: vm_inv_def vm_get_validator_def vm_get_validator_by_address_def)
qed

text \<open>Two files with the same configuration are both loaded.\<close>

lemma directory_keeps_duplicates:
  "config_validate c = Ok () \<Longrightarrow> load_from_directory [(''toml'', Some c), (''toml'', Some c)] vm_new = Ok [c, c]"
  by (simp add: vm_new_def)

section \<open>Nodes to dial\<close>

datatype bootstrap_node = Multiaddr string | Onion string u16

definition parse_bootstrap_node :: "string \<Rightarrow> bootstrap_node" where
  "parse_bootstrap_node node_str =
     (let trimmed = str_trim node_str in
      if starts_with trimmed ''/ip4/'' \<or> starts_with trimmed ''/dns4/'' then Multiaddr trimmed
      else if str_contains trimmed ''.onion''
      then
        let parts = str_split (CHR '':'') trimmed in
        Onion (hd parts)
          (case tl parts of
             [] \<Rightarrow> 4001
           | p # _ \<Rightarrow> (case parse_uint p of Some port \<Rightarrow> port | None \<Rightarrow> 4001))
      else Multiaddr trimmed)"

definition load_bootstrap_nodes :: "string option \<Rightarrow> bootstrap_node list" where
  "load_bootstrap_nodes variable =
     (case variable of
        Some val \<Rightarrow> if str_trim val \<noteq> [] then map parse_bootstrap_node (str_split (CHR '','') val) else []
      | None \<Rightarrow> [])"

end
