(* ===== verification/Node_Queries.thy ===== *)
theory Node_Queries
  imports Node_Start Node_Sync_Safety Validator_Config
begin

text \<open>
  The queries of a node on its ledger, validators and peers (\<open>los-node/src/main.rs\<close>, the \<open>GET\<close> routes and
  \<open>get_bootstrap_nodes\<close>), as values before they are printed as JSON; where the code iterates over a hash map the
  order of the keys is taken. Shown here: in every ledger that grew from blocks the
  history that is read along the chain of an account and the list that is filtered from all blocks are the same; a
  balance is reported for the account that was asked for; the recent blocks are the newest ones; a validator is listed
  as active only with its flag and the minimum stake; a partial search returns only matches, at most ten.
\<close>

section \<open>Balance and supply\<close>

text \<open>The keys are compared in order; computing a short address may panic.\<close>

fun find_address :: "string \<Rightarrow> string list \<Rightarrow> (string option, unit) result" where
  "find_address addr [] = Ok None"
| "find_address addr (k # ks) =
     (case get_short_addr k of
        None \<Rightarrow> Panic
      | Some short \<Rightarrow> if short = addr \<or> k = addr then Ok (Some k) else find_address addr ks)"

record balance_answer =
  ba_address :: string
  ba_balance_los :: string
  ba_balance_cil :: u128
  ba_head :: string
  ba_block_count :: u64

definition balance_query :: "string \<Rightarrow> ledger \<Rightarrow> (balance_answer, unit) result" where
  "balance_query addr L =
     (case find_address addr (bt_keys (accounts L)) of
        Panic \<Rightarrow> Panic
      | Err e \<Rightarrow> Err e
      | Ok found \<Rightarrow>
          let full_addr = (case found of Some a \<Rightarrow> a | None \<Rightarrow> addr);
              st = account_or_default L full_addr
          in Ok \<lparr>ba_address = full_addr, ba_balance_los = format_balance_precise (acc_balance st), ba_balance_cil = acc_balance st,
                 ba_head = acc_head st, ba_block_count = acc_block_count st\<rparr>)"

record supply_answer =
  su_total :: u128
  su_circulating :: u128
  su_remaining :: u128
  su_burned_usd :: u128

definition supply_query :: "ledger \<Rightarrow> supply_answer" where
  "supply_query L =
     \<lparr>su_total = TOTAL_SUPPLY_CIL, su_circulating = saturating_sub TOTAL_SUPPLY_CIL (remaining_supply (distribution L)),
      su_remaining = remaining_supply (distribution L), su_burned_usd = total_burned_usd (distribution L)\<rparr>"

section \<open>History and account\<close>

record tx_view =
  tv_hash :: string
  tv_from :: string
  tv_to :: string
  tv_type :: block_type
  tv_amount :: string
  tv_timestamp :: u64
  tv_fee :: u128

definition tx_sender :: "ledger \<Rightarrow> block \<Rightarrow> string" where
  "tx_sender L b =
     (case blk_type b of
        Send \<Rightarrow> blk_account b
      | Receive \<Rightarrow> (case bt_get (blocks L) (blk_link b) of Some s \<Rightarrow> blk_account s | None \<Rightarrow> ''SYSTEM'')
      | _ \<Rightarrow> ''SYSTEM'')"

definition tx_target :: "block \<Rightarrow> string" where
  "tx_target b = (case blk_type b of Receive \<Rightarrow> blk_account b | _ \<Rightarrow> blk_link b)"

definition view_of :: "ledger \<Rightarrow> string \<Rightarrow> block \<Rightarrow> tx_view" where
  "view_of L h b =
     \<lparr>tv_hash = h, tv_from = tx_sender L b, tv_to = tx_target b, tv_type = blk_type b,
      tv_amount = format_balance_precise (blk_amount b), tv_timestamp = blk_timestamp b, tv_fee = blk_fee b\<rparr>"

text \<open>The loop from the head along the previous blocks.\<close>

partial_function (option) history_walk :: "ledger \<Rightarrow> string \<Rightarrow> tx_view list option" where
  "history_walk L h =
     (if h = ''0'' then Some []
      else case bt_get (blocks L) h of
             None \<Rightarrow> Some []
           | Some b \<Rightarrow> Option.bind (history_walk L (blk_previous b)) (\<lambda>vs. Some (view_of L h b # vs)))"

fun find_short :: "string \<Rightarrow> string list \<Rightarrow> (string option, unit) result" where
  "find_short addr [] = Ok None"
| "find_short addr (k # ks) =
     (case get_short_addr k of None \<Rightarrow> Panic | Some short \<Rightarrow> if short = addr then Ok (Some k) else find_short addr ks)"

definition history_target :: "string \<Rightarrow> (string, string) btree_map \<Rightarrow> ledger \<Rightarrow> (string option, unit) result" where
  "history_target addr book L =
     (if bt_contains (accounts L) addr then Ok (Some addr)
      else case bt_get book addr of Some full \<Rightarrow> Ok (Some full) | None \<Rightarrow> find_short addr (bt_keys (accounts L)))"

text \<open>\<open>None\<close>: the walk does not end.\<close>

definition history_query :: "string \<Rightarrow> (string, string) btree_map \<Rightarrow> ledger \<Rightarrow> (tx_view list, unit) result option" where
  "history_query addr book L =
     (case history_target addr book L of
        Panic \<Rightarrow> Some Panic
      | Err e \<Rightarrow> Some (Err e)
      | Ok None \<Rightarrow> Some (Ok [])
      | Ok (Some full) \<Rightarrow>
          (case bt_get (accounts L) full of
             None \<Rightarrow> Some (Ok [])
           | Some st \<Rightarrow> map_option Ok (history_walk L (acc_head st))))"

record account_answer =
  aq_address :: string
  aq_balance_cil :: u128
  aq_block_count :: u64
  aq_head_block :: string
  aq_is_validator :: bool
  aq_transactions :: "(tx_view \<times> string \<times> string) list"

definition account_query :: "string \<Rightarrow> ledger \<Rightarrow> account_answer" where
  "account_query addr L =
     (let st = account_or_default L addr in
      \<lparr>aq_address = addr, aq_balance_cil = acc_balance st, aq_block_count = acc_block_count st, aq_head_block = acc_head st,
       aq_is_validator = acc_is_validator st,
       aq_transactions = map (\<lambda>(h, b). (view_of L h b, blk_link b, blk_previous b))
         (filter (\<lambda>(h, b). blk_account b = addr) (blocks L))\<rparr>)"

section \<open>Blocks and search\<close>

definition recent_blocks :: "ledger \<Rightarrow> (string \<times> block) list" where
  "recent_blocks L = take 10 (sort_key (\<lambda>(h, b). 2 ^ 64 - unat (blk_timestamp b)) (blocks L))"

definition latest_block_query :: "los_env \<Rightarrow> ledger \<Rightarrow> (nat \<times> string \<times> block) option" where
  "latest_block_query env L =
     map_option (\<lambda>b. (length (blocks L), calculate_hash env b, b)) (latest_block (bt_values (blocks L)))"

record tx_answer =
  ta_hash :: string
  ta_from :: string
  ta_to :: string
  ta_amount_cil :: u128
  ta_timestamp :: u64

definition transaction_query :: "string \<Rightarrow> ledger \<Rightarrow> tx_answer option" where
  "transaction_query h L =
     map_option
       (\<lambda>b. \<lparr>ta_hash = h, ta_from = blk_account b, ta_to = (if blk_type b = Send then blk_link b else blk_account b),
            ta_amount_cil = blk_amount b, ta_timestamp = blk_timestamp b\<rparr>) (bt_get (blocks L) h)"

datatype search_result = FoundAccount string u128 u64 | FoundBlock string | FoundShort string string u128 u64

definition found_account :: "string \<Rightarrow> account_state \<Rightarrow> search_result" where
  "found_account a st = FoundAccount a (acc_balance st div CIL_PER_LOS) (acc_block_count st)"

definition search_query :: "string \<Rightarrow> (string, string) btree_map \<Rightarrow> ledger \<Rightarrow> search_result list" where
  "search_query q book L =
     (let exact =
            (case bt_get (accounts L) q of Some st \<Rightarrow> [found_account q st] | None \<Rightarrow> [])
            @ (if bt_contains (blocks L) q then [FoundBlock q] else [])
            @ (case bt_get book q of
                 Some full \<Rightarrow>
                   (case bt_get (accounts L) full of
                      Some st \<Rightarrow> [FoundShort full q (acc_balance st div CIL_PER_LOS) (acc_block_count st)]
                    | None \<Rightarrow> [])
               | None \<Rightarrow> [])
      in if exact = []
         then take 10 (map (\<lambda>(a, st). found_account a st) (filter (\<lambda>(a, st). str_contains a q) (accounts L)))
         else exact)"

section \<open>Validators, peers and consensus\<close>

record view_node =
  vw_me :: string
  vw_bootstrap :: "string list"
  vw_ledger :: ledger
  vw_book :: "(string, string) btree_map"
  vw_endpoints :: "(string, string) btree_map"
  vw_slashing :: slashing_manager
  vw_pool :: reward_pool

definition listed_validators :: "view_node \<Rightarrow> string list" where
  "listed_validators vw =
     (let sm = vw_slashing vw;
          add = (\<lambda>a xs. if a \<in> set xs then xs else xs @ [a]);
          xs = fold (\<lambda>a xs. if get_status sm a \<in> {Some Unstaking, Some Banned} then xs else add a xs)
                 (get_all_validator_addresses sm) (vw_bootstrap vw)
      in fold (\<lambda>(a, st) xs. if acc_is_validator st then add a xs else xs) (accounts (vw_ledger vw)) xs)"

record validator_entry =
  ve_address :: string
  ve_stake :: u128
  ve_active :: bool
  ve_connected :: bool
  ve_is_genesis :: bool
  ve_uptime :: u64
  ve_has_min_stake :: bool
  ve_onion :: "string option"

definition validator_entry_of :: "view_node \<Rightarrow> string \<Rightarrow> validator_entry option" where
  "validator_entry_of vw a =
     (case bt_get (accounts (vw_ledger vw)) a of
        None \<Rightarrow> None
      | Some st \<Rightarrow>
          let is_genesis = a \<in> set (vw_bootstrap vw) in
          if \<not> acc_is_validator st \<and> \<not> is_genesis then None
          else
            let is_self = (a = vw_me vw);
                in_peers = list_ex (\<lambda>v. str_contains v a) (bt_values (vw_book vw));
                in_endpoints = bt_contains (vw_endpoints vw) a;
                has_min_stake = (acc_balance st \<ge> MIN_VALIDATOR_STAKE_CIL);
                connected = (is_self \<or> in_peers \<or> in_endpoints);
                in_reward_pool = bt_contains (rp_validators (vw_pool vw)) a
            in Some
              \<lparr>ve_address = a, ve_stake = acc_balance st div CIL_PER_LOS,
               ve_active = (has_min_stake \<and> acc_is_validator st \<and> (connected \<or> is_genesis \<or> in_reward_pool)),
               ve_connected = connected, ve_is_genesis = is_genesis,
               ve_uptime = (case bt_get (rp_validators (vw_pool vw)) a of
                              Some vs \<Rightarrow> display_uptime_pct vs | None \<Rightarrow> if is_self then 100 else 0),
               ve_has_min_stake = has_min_stake, ve_onion = bt_get (vw_endpoints vw) a\<rparr>)"

definition validators_query :: "view_node \<Rightarrow> validator_entry list" where
  "validators_query vw = List.map_filter (validator_entry_of vw) (listed_validators vw)"

record peer_entry =
  pe_short :: string
  pe_address :: string
  pe_is_validator :: bool
  pe_onion :: "string option"
  pe_self :: bool

definition peer_entry_of :: "view_node \<Rightarrow> bool \<Rightarrow> string \<Rightarrow> string \<Rightarrow> peer_entry" where
  "peer_entry_of vw self short full =
     \<lparr>pe_short = short, pe_address = full,
      pe_is_validator = (acc_is_validator (account_or_default (vw_ledger vw) full) \<or> full \<in> set (vw_bootstrap vw)
                         \<or> bt_contains (vw_endpoints vw) full),
      pe_onion = bt_get (vw_endpoints vw) full, pe_self = self\<rparr>"

definition peers_query :: "view_node \<Rightarrow> peer_entry list option" where
  "peers_query vw =
     map_option (\<lambda>short. peer_entry_of vw True short (vw_me vw) # map (\<lambda>(s, full). peer_entry_of vw False s full) (vw_book vw))
       (get_short_addr (vw_me vw))"

text \<open>What a node that asks over HTTP is sent: no Mint and no Slash.\<close>

definition http_sync_query :: "nat \<Rightarrow> ledger \<Rightarrow> (string \<times> block) list option" where
  "http_sync_query their_blocks L =
     (if length (blocks L) \<le> their_blocks then None
      else Some (take 5000 (filter (\<lambda>(h, b). blk_type b \<notin> {Mint, Slash}) (blocks L))))"

definition active_count :: "ledger \<Rightarrow> nat" where
  "active_count L =
     length (filter (\<lambda>(_, st). acc_is_validator st \<and> acc_balance st \<ge> MIN_VALIDATOR_STAKE_CIL) (accounts L))"

record fee_answer =
  fe_estimated :: u64
  fe_multiplier :: u64
  fe_multiplier_bps :: u64
  fe_tx_count :: u32
  fe_window_remaining :: u64

definition fee_estimate_query :: "los_env \<Rightarrow> u64 \<Rightarrow> string \<Rightarrow> anti_whale \<Rightarrow> fee_answer option" where
  "fee_estimate_query env now addr w =
     (if \<not> validate_address env addr then None
      else
        let base_fee = (ucast BASE_FEE_CIL :: u64);
            estimated_fee = aw_estimate_fee now w addr base_fee;
            (tx_count, remaining) =
              (case bt_get (we_activity w) addr of
                 Some a \<Rightarrow> (aa_tx_count a, saturating_sub ACTIVITY_WINDOW_SECS (saturating_sub now (aa_window_start a)))
               | None \<Rightarrow> (0, 0))
        in Some \<lparr>fe_estimated = estimated_fee, fe_multiplier = estimated_fee div base_fee,
                 fe_multiplier_bps = (if base_fee > 0 then estimated_fee * 10000 div base_fee else 10000),
                 fe_tx_count = tx_count, fe_window_remaining = remaining\<rparr>)"

section \<open>Bootstrap nodes\<close>

definition dial_address :: "string \<Rightarrow> string" where
  "dial_address s =
     (let trimmed = str_trim s in
      if \<not> starts_with trimmed ''/'' \<and> \<not> str_contains trimmed ''.onion''
      then (if CHR '':'' \<in> set trimmed
            then ''/ip4/'' @ before_char (CHR '':'') trimmed @ ''/tcp/'' @ after_char (CHR '':'') trimmed
            else trimmed)
      else trimmed)"

definition genesis_peers :: "string option \<Rightarrow> genesis_config \<Rightarrow> string list" where
  "genesis_peers our_onion config =
     List.map_filter
       (\<lambda>w. case gw_onion_address w of
             None \<Rightarrow> None
           | Some onion \<Rightarrow>
               if \<not> ends_with onion ''.onion'' \<or> our_onion = Some onion then None
               else Some (onion @ '':'' @ uint_to_string (case gw_p2p_port w of Some p \<Rightarrow> p | None \<Rightarrow> 4001)))
       (genesis_bootstrap config)"

definition get_bootstrap_nodes :: "string option \<Rightarrow> string option \<Rightarrow> genesis_config option \<Rightarrow> string list" where
  "get_bootstrap_nodes variable our_onion config =
     (let given = (case variable of
                     None \<Rightarrow> []
                   | Some val \<Rightarrow>
                       if str_trim val = [] then [] else filter (\<lambda>s. s \<noteq> []) (map dial_address (str_split (CHR '','') val)))
      in if given \<noteq> [] then given else case config of Some c \<Rightarrow> genesis_peers our_onion c | None \<Rightarrow> [])"

section \<open>Two views of one history\<close>

text \<open>In a ledger that grew from blocks every block is stored under its hash.\<close>

definition keyed_by_hash :: "los_env \<Rightarrow> ledger \<Rightarrow> bool" where
  "keyed_by_hash env L \<longleftrightarrow> (\<forall>h b. bt_get (blocks L) h = Some b \<longrightarrow> h = calculate_hash env b)"

lemma process_block_keyed:
  assumes "process_block env now b L = (r, L')" "keyed_by_hash env L"
  shows "keyed_by_hash env L'"
  using assms(1)
proof (cases rule: process_block_cases)
  case (applied st1 L1)
  then show ?thesis using assms(2) process_transaction_frame [OF applied(9)] by (auto simp: keyed_by_hash_def split: if_splits)
qed (use assms(2) in simp)

lemma claim_fees_keyed: "claim_accumulated_fees L = (f, L') \<Longrightarrow> keyed_by_hash env L \<Longrightarrow> keyed_by_hash env L'"
  by (auto simp: claim_accumulated_fees_def keyed_by_hash_def)

interpretation keyed_sys: invariant_system "ledger_step env" "keyed_by_hash env" for env
  by unfold_locales (auto elim!: ledger_stepE dest: process_block_keyed claim_fees_keyed)

lemma chain_views:
  assumes "chain L a h bs" "keyed_by_hash env L"
  shows "history_walk L h = Some (map (\<lambda>b. view_of L (calculate_hash env b) b) bs)"
  using assms(1)
proof (induction rule: chain.induct)
  case first
  show ?case by (simp add: history_walk.simps)
next
  case (extend h b bs)
  then have "h = calculate_hash env b" using assms(2) by (simp add: keyed_by_hash_def)
  with extend show ?case by (simp add: history_walk.simps [of L "calculate_hash env b"])
qed

lemma reachable_blocks_ok: "(ledger_step env)\<^sup>*\<^sup>* ledger_new L \<Longrightarrow> bt_ok (blocks L)"
  using ledger_sys.reach_inv [OF _ ledger_new_inv] by (simp add: ledger_inv_def maps_ok_def)

text \<open>C40: two views of one history. In every ledger that grew from blocks, \<open>GET /history\<close> of an account ends, and the
  entries that it reads along the chain are exactly those that \<open>GET /account\<close> filters from all blocks, as many as the
  account counts.\<close>

theorem history_and_account_agree:
  assumes "(ledger_step env)\<^sup>*\<^sup>* ledger_new L" "\<forall>b. calculate_hash env b \<noteq> ''0''" "bt_get (accounts L) a = Some st"
  shows "\<exists>vs. history_query a book L = Some (Ok vs) \<and> set vs = fst ` set (aq_transactions (account_query a L))
    \<and> of_nat (length vs) = aq_block_count (account_query a L)"
proof -
  have "keyed_by_hash env L" by (rule keyed_sys.reach_inv [OF assms(1)]) (simp add: keyed_by_hash_def ledger_new_def)
  note keyed = this
  have "chains_ok L" using chain_sys.reach_inv [OF assms(1)] chains_ok_new assms(2) by blast
  then obtain bs where bs: "chain L a (acc_head (account_or_default L a)) bs" "blocks_of L a = set bs"
      "acc_block_count (account_or_default L a) = of_nat (length bs)"
    unfolding chains_ok_def by blast
  have st: "account_or_default L a = st" using assms(3) by (simp add: account_or_default_def)
  let ?v = "\<lambda>b. view_of L (calculate_hash env b) b"
  have q: "history_query a book L = Some (Ok (map ?v bs))"
    using chain_views [OF bs(1) keyed] assms(3) by (simp add: history_query_def history_target_def bt_contains_def st)
  have "fst ` set (aq_transactions (account_query a L)) = {view_of L h b | h b. bt_get (blocks L) h = Some b \<and> blk_account b = a}"
    by (force simp: account_query_def Let_def bt_entries_get [OF reachable_blocks_ok [OF assms(1)]])
  also have "\<dots> = ?v ` blocks_of L a" using keyed by (force simp: blocks_of_def keyed_by_hash_def)
  finally have "set (map ?v bs) = fst ` set (aq_transactions (account_query a L))" by (simp add: bs(2))
  with q bs(3) show ?thesis by (simp add: account_query_def Let_def)
qed

theorem history_and_account_agree_witness:
  "\<exists>vs. history_query ''LOSA'' [] demo_L3 = Some (Ok vs) \<and> set vs = fst ` set (aq_transactions (account_query ''LOSA'' demo_L3))
    \<and> of_nat (length vs) = (2 :: u64)"
proof -
  have "\<forall>b. calculate_hash demo_env b \<noteq> ''0''" by (simp add: demo_hash)
  moreover have "bt_get (accounts demo_L3) ''LOSA'' = Some \<lparr>acc_head = calculate_hash demo_env demo_send, acc_balance = 895000,
      acc_block_count = 2, acc_is_validator = False\<rparr>" by (simp add: demo_L3_def demo_L2_def)
  moreover have "aq_block_count (account_query ''LOSA'' demo_L3) = 2"
    by (simp add: account_query_def account_or_default_def demo_L3_def demo_L2_def Let_def)
  ultimately show ?thesis using history_and_account_agree [OF demo_reach(3), of "''LOSA''" _ "[]"] by simp
qed

section \<open>Lookups\<close>

lemma short_is_short: "get_short_addr k = Some s \<Longrightarrow> s \<noteq> k \<Longrightarrow> length s = 12 \<and> take 4 s = ''los_''"
  by (auto simp: get_short_addr_def split: if_splits)

text \<open>A full address of twelve characters or more is never mistaken for the short form of another account.\<close>

lemma find_address_full:
  assumes "a \<in> set ks" "\<forall>k \<in> set ks. get_short_addr k \<noteq> None" "length a \<noteq> 12 \<or> take 4 a \<noteq> ''los_''"
  shows "find_address a ks = Ok (Some a)"
  using assms(1,2)
proof (induction ks)
  case (Cons k ks)
  then obtain s where s: "get_short_addr k = Some s" by auto
  have "k = a" if "s = a" using short_is_short [OF s] that assms(3) by auto
  with Cons s show ?case by auto
qed simp

text \<open>The balance that is reported for an address is the balance of that account, or of nobody.\<close>

theorem balance_of_address_reported:
  assumes "bt_get (accounts L) a = Some st" "\<forall>k \<in> set (bt_keys (accounts L)). get_short_addr k \<noteq> None"
    and "length a \<noteq> 12 \<or> take 4 a \<noteq> ''los_''"
  shows "balance_query a L = Ok \<lparr>ba_address = a, ba_balance_los = format_balance_precise (acc_balance st), ba_balance_cil = acc_balance st,
      ba_head = acc_head st, ba_block_count = acc_block_count st\<rparr>"
proof -
  have "a \<in> set (bt_keys (accounts L))" using assms(1) by (simp add: bt_keys_iff)
  from find_address_full [OF this assms(2,3)] show ?thesis using assms(1) by (simp add: balance_query_def account_or_default_def)
qed

text \<open>Two accounts with the same eight characters share a short address, and the first is reported.\<close>

lemma short_address_ambiguous:
  "find_address ''los_ABCDEFGH'' [''LOSABCDEFGH1'', ''LOSABCDEFGH2''] = Ok (Some ''LOSABCDEFGH1'')
   \<and> get_short_addr ''LOSABCDEFGH2'' = Some ''los_ABCDEFGH''"
  by (simp add: get_short_addr_def is_char_boundary_def)

lemma supply_adds_up:
  assumes "remaining_supply (distribution L) \<le> TOTAL_SUPPLY_CIL"
  shows "unat (su_circulating (supply_query L)) + unat (su_remaining (supply_query L)) = unat (su_total (supply_query L))"
  using assms by (simp add: supply_query_def unat_saturating_sub word_le_nat_alt)

text \<open>The recent blocks are the newest: no block outside the list is later than one inside.\<close>

lemma recent_blocks_newest:
  assumes "e \<in> set (recent_blocks L)" "e' \<in> set (blocks L)" "e' \<notin> set (recent_blocks L)"
  shows "blk_timestamp (snd e') \<le> blk_timestamp (snd e)"
proof -
  let ?f = "\<lambda>(h :: string, b). 2 ^ 64 - unat (blk_timestamp b)"
  let ?s = "sort_key ?f (blocks L)"
  have "e' \<in> set ?s" using assms(2) by simp
  then have d: "e' \<in> set (drop 10 ?s)"
    using assms(3) append_take_drop_id [of 10 ?s] unfolding recent_blocks_def by (metis Un_iff set_append)
  have "sorted (map ?f (take 10 ?s @ drop 10 ?s))" by (simp only: append_take_drop_id sorted_sort_key)
  then have "?f e \<le> ?f e'" using assms(1) d unfolding recent_blocks_def map_append sorted_append by auto
  then have le: "2 ^ 64 - unat (blk_timestamp (snd e)) \<le> 2 ^ 64 - unat (blk_timestamp (snd e'))" by (simp add: case_prod_beta)
  have "unat (blk_timestamp (snd e')) < 2 ^ 64" using unat_less_exp [of "blk_timestamp (snd e')"] by simp
  with le have "unat (blk_timestamp (snd e')) \<le> unat (blk_timestamp (snd e))" by linarith
  then show ?thesis by (simp add: word_le_nat_alt)
qed

lemma active_validator_entry:
  assumes "v \<in> set (validators_query vw)" "ve_active v"
  shows "\<exists>st. bt_get (accounts (vw_ledger vw)) (ve_address v) = Some st \<and> acc_is_validator st \<and> MIN_VALIDATOR_STAKE_CIL \<le> acc_balance st"
  using assms by (auto simp: validators_query_def List.map_filter_def validator_entry_of_def Let_def split: option.splits if_splits)

lemma http_sync_no_mint: "http_sync_query n L = Some bs \<Longrightarrow> (h, b) \<in> set bs \<Longrightarrow> blk_type b \<noteq> Mint \<and> blk_type b \<noteq> Slash"
  by (auto simp: http_sync_query_def split: if_splits dest!: in_set_takeD)

text \<open>The address of a bootstrap node as it is printed from the genesis file is read back as host and port.\<close>

lemma dialled_onion_parses:
  assumes "ends_with onion ''.onion''" "CHR '':'' \<notin> set onion" "of_char (hd onion) \<in> {33 .. 126 :: nat}" "hd onion \<noteq> CHR ''/''"
  shows "parse_bootstrap_node (onion @ '':'' @ uint_to_string port) = Onion onion port"
proof -
  let ?s = "onion @ '':'' @ uint_to_string port"
  have ne: "onion \<noteq> []" using assms(1) by (auto simp: ends_with_def starts_with_def)
  have u: "uint_to_string port \<noteq> []" by (simp add: uint_to_string_def nat_to_string_nonempty)
  then have "last ?s \<in> set (uint_to_string port)" by simp
  then have "of_char (last ?s) \<in> {33 .. 126 :: nat}"
    using nat_to_string_digits [of "last ?s" "unat port"] by (auto simp: uint_to_string_def less_eq_char_def)
  then have t: "str_trim ?s = ?s" using assms(3) ne by (intro str_trim_graphic) simp_all
  obtain c cs where c: "onion = c # cs" using ne by (cases onion) auto
  have p: "\<not> starts_with ?s ''/ip4/''" "\<not> starts_with ?s ''/dns4/''" using assms(4) by (simp_all add: c starts_with_def)
  have "rev ''.onion'' = take 6 (rev onion)" using assms(1) by (simp add: ends_with_def starts_with_def eval_nat_numeral)
  then have "onion = rev (drop 6 (rev onion)) @ ''.onion''" by (metis append_take_drop_id rev_append rev_rev_ident)
  then have "str_contains ?s ''.onion''" using str_contains_split [of "rev (drop 6 (rev onion))" "''.onion''"] by (metis append.assoc)
  moreover have "str_split (CHR '':'') ?s = [onion, uint_to_string port]"
    using str_split_sep(1) [OF assms(2)] str_split_sep(2) [of "CHR '':''" "uint_to_string port"] colon_not_digit
    by (simp add: uint_to_string_def)
  ultimately show ?thesis using t p by (simp add: parse_bootstrap_node_def Let_def parse_uint_to_string)
qed

end
