(* ===== verification/P2p_Session.thy ===== *)
theory P2p_Session
  imports Los_Strings BTree_Map Step_Systems Utf8
begin

text \<open>
  Encrypted sessions between nodes (\<open>los-network/src/p2p_encryption.rs\<close>): cipher keys with their counters, sessions,
  the manager that encrypts and decrypts, and the sentry and signer nodes. ChaCha20-Poly1305 and SHA3 are parameters;
  what is relied on is in \<open>aead_laws\<close>. Shown here: what one side encrypts the other side decrypts, the nonces of one key
  do not repeat within a session, a message that decrypts was encrypted under the key; and what the sessions do not
  give: a message can be replayed, a repeated handshake starts the nonces again, and the signer does not encrypt.
\<close>

section \<open>Keys and sessions\<close>

datatype noise_pattern = IK | NN | IX

datatype node_type = Sentry | Signer | Full

record cipher_key =
  ck_key_id :: u64
  ck_material :: bytes
  ck_nonce_counter :: u64
  ck_created_at :: u64

definition cipher_key_new :: "u64 \<Rightarrow> bytes \<Rightarrow> u64 \<Rightarrow> cipher_key" where
  "cipher_key_new key_id material timestamp =
     \<lparr>ck_key_id = key_id, ck_material = material, ck_nonce_counter = 0, ck_created_at = timestamp\<rparr>"

definition increment_nonce :: "cipher_key \<Rightarrow> u64 \<times> cipher_key" where
  "increment_nonce k = (ck_nonce_counter k + 1, k\<lparr>ck_nonce_counter := ck_nonce_counter k + 1\<rparr>)"

definition key_is_expired :: "u64 \<Rightarrow> u64 \<Rightarrow> cipher_key \<Rightarrow> bool" where
  "key_is_expired current_timestamp ttl_seconds k = (saturating_sub current_timestamp (ck_created_at k) > ttl_seconds)"

record noise_session =
  ns_session_id :: string
  ns_peer_id :: string
  ns_handshake_pattern :: noise_pattern
  ns_send_key :: "cipher_key option"
  ns_receive_key :: "cipher_key option"
  ns_established_at :: u64
  ns_last_message_timestamp :: u64
  ns_messages_sent :: u64
  ns_messages_received :: u64

definition session_new :: "string \<Rightarrow> string \<Rightarrow> noise_pattern \<Rightarrow> u64 \<Rightarrow> noise_session" where
  "session_new session_id peer_id pattern timestamp =
     \<lparr>ns_session_id = session_id, ns_peer_id = peer_id, ns_handshake_pattern = pattern, ns_send_key = None,
      ns_receive_key = None, ns_established_at = timestamp, ns_last_message_timestamp = timestamp,
      ns_messages_sent = 0, ns_messages_received = 0\<rparr>"

definition is_established :: "noise_session \<Rightarrow> bool" where
  "is_established s = (ns_send_key s \<noteq> None \<and> ns_receive_key s \<noteq> None)"

definition session_age :: "u64 \<Rightarrow> noise_session \<Rightarrow> u64" where
  "session_age current_timestamp s = saturating_sub current_timestamp (ns_established_at s)"

definition install_keys :: "cipher_key \<Rightarrow> cipher_key \<Rightarrow> u64 \<Rightarrow> noise_session \<Rightarrow> noise_session" where
  "install_keys send_key receive_key timestamp s =
     s\<lparr>ns_send_key := Some send_key, ns_receive_key := Some receive_key, ns_last_message_timestamp := timestamp\<rparr>"

record encrypted_message =
  em_session_id :: string
  em_sequence_number :: u64
  em_ciphertext :: bytes
  em_mac_tag :: bytes
  em_timestamp :: u64

record node_identity =
  ni_peer_id :: string
  ni_static_key :: bytes
  ni_node_type :: node_type

datatype session_error =
    KeyLength nat | SessionNotFound string | NotEstablished | InvalidKeyLength | EncryptionFailed | DecryptionFailed
  | TunnelMissing

definition identity_new :: "string \<Rightarrow> bytes \<Rightarrow> node_type \<Rightarrow> (node_identity, session_error) result" where
  "identity_new peer_id static_key node_type =
     (if length static_key \<noteq> 32 then Err (KeyLength (length static_key))
      else Ok \<lparr>ni_peer_id = peer_id, ni_static_key = static_key, ni_node_type = node_type\<rparr>)"

section \<open>The manager\<close>

record aead =
  ae_encrypt :: "bytes \<Rightarrow> bytes \<Rightarrow> bytes \<Rightarrow> bytes option"
  ae_decrypt :: "bytes \<Rightarrow> bytes \<Rightarrow> bytes \<Rightarrow> bytes option"
  ae_sha3 :: "bytes \<Rightarrow> bytes"

record noise_manager =
  nm_identity :: node_identity
  nm_sessions :: "(string, noise_session) btree_map"
  nm_peer_keys :: "(string, bytes) btree_map"
  nm_pattern :: noise_pattern

definition noise_manager_new :: "node_identity \<Rightarrow> noise_pattern \<Rightarrow> noise_manager" where
  "noise_manager_new identity pattern =
     \<lparr>nm_identity = identity, nm_sessions = [], nm_peer_keys = [], nm_pattern = pattern\<rparr>"

definition set_session :: "string \<Rightarrow> noise_session \<Rightarrow> noise_manager \<Rightarrow> noise_manager" where
  "set_session session_id s m = m\<lparr>nm_sessions := bt_insert session_id s (nm_sessions m)\<rparr>"

definition initiate_handshake ::
    "string \<Rightarrow> bytes \<Rightarrow> u64 \<Rightarrow> noise_manager \<Rightarrow> (string, session_error) result \<times> noise_manager" where
  "initiate_handshake peer_id peer_static_key timestamp m =
     (if length peer_static_key \<noteq> 32 then (Err (KeyLength (length peer_static_key)), m)
      else
        let session_id = ''noise_'' @ ni_peer_id (nm_identity m) @ ''_'' @ peer_id in
        (Ok session_id,
         set_session session_id (session_new session_id peer_id (nm_pattern m) timestamp)
           (m\<lparr>nm_peer_keys := bt_insert peer_id peer_static_key (nm_peer_keys m)\<rparr>)))"

definition noise_complete_handshake ::
    "string \<Rightarrow> bytes \<Rightarrow> bytes \<Rightarrow> u64 \<Rightarrow> noise_manager \<Rightarrow> (unit, session_error) result \<times> noise_manager" where
  "noise_complete_handshake session_id send_material receive_material timestamp m =
     (case bt_get (nm_sessions m) session_id of
        None \<Rightarrow> (Err (SessionNotFound session_id), m)
      | Some s \<Rightarrow>
          (Ok (),
           set_session session_id
             (install_keys (cipher_key_new 1 send_material timestamp) (cipher_key_new 2 receive_material timestamp) timestamp s) m))"

text \<open>The nonce: eight bytes of the counter and four zero bytes.\<close>

definition nonce_bytes :: "u64 \<Rightarrow> bytes" where
  "nonce_bytes n = u64_le_bytes n @ [0, 0, 0, 0]"

text \<open>The counter is raised before the length of the key is checked.\<close>

definition encrypt_message ::
    "aead \<Rightarrow> string \<Rightarrow> bytes \<Rightarrow> u64 \<Rightarrow> noise_manager \<Rightarrow> (encrypted_message, session_error) result \<times> noise_manager" where
  "encrypt_message ae session_id plaintext timestamp m =
     (case bt_get (nm_sessions m) session_id of
        None \<Rightarrow> (Err (SessionNotFound session_id), m)
      | Some s \<Rightarrow>
          (case (ns_send_key s, ns_receive_key s) of
             (Some k, Some _) \<Rightarrow>
               let (nonce, k) = increment_nonce k; s = s\<lparr>ns_send_key := Some k\<rparr>; m = set_session session_id s m in
               if length (ck_material k) \<noteq> 32 then (Err InvalidKeyLength, m)
               else
                 (case ae_encrypt ae (ck_material k) (nonce_bytes nonce) plaintext of
                    None \<Rightarrow> (Err EncryptionFailed, m)
                  | Some c \<Rightarrow>
                      if length c < 16 then (Panic, m)
                      else
                        (Ok \<lparr>em_session_id = session_id, em_sequence_number = nonce,
                             em_ciphertext = take (length c - 16) c, em_mac_tag = drop (length c - 16) c,
                             em_timestamp = timestamp\<rparr>,
                         set_session session_id (s\<lparr>ns_messages_sent := ns_messages_sent s + 1\<rparr>) m))
           | _ \<Rightarrow> (Err NotEstablished, m)))"

definition decrypt_message ::
    "aead \<Rightarrow> string \<Rightarrow> encrypted_message \<Rightarrow> noise_manager \<Rightarrow> (bytes, session_error) result \<times> noise_manager" where
  "decrypt_message ae session_id msg m =
     (case bt_get (nm_sessions m) session_id of
        None \<Rightarrow> (Err (SessionNotFound session_id), m)
      | Some s \<Rightarrow>
          (case (ns_send_key s, ns_receive_key s) of
             (Some _, Some k) \<Rightarrow>
               if length (ck_material k) \<noteq> 32 then (Err InvalidKeyLength, m)
               else
                 (case ae_decrypt ae (ck_material k) (nonce_bytes (em_sequence_number msg)) (em_ciphertext msg @ em_mac_tag msg) of
                    None \<Rightarrow> (Err DecryptionFailed, m)
                  | Some plaintext \<Rightarrow>
                      (Ok plaintext, set_session session_id (s\<lparr>ns_messages_received := ns_messages_received s + 1\<rparr>) m))
           | _ \<Rightarrow> (Err NotEstablished, m)))"

record session_stats =
  ss_peer_id :: string
  ss_is_established :: bool
  ss_messages_sent :: u64
  ss_messages_received :: u64
  ss_handshake_pattern :: noise_pattern

definition get_session_stats :: "string \<Rightarrow> noise_manager \<Rightarrow> session_stats option" where
  "get_session_stats session_id m =
     map_option
       (\<lambda>s. \<lparr>ss_peer_id = ns_peer_id s, ss_is_established = is_established s, ss_messages_sent = ns_messages_sent s,
             ss_messages_received = ns_messages_received s, ss_handshake_pattern = ns_handshake_pattern s\<rparr>)
       (bt_get (nm_sessions m) session_id)"

definition get_active_sessions :: "noise_manager \<Rightarrow> nat" where
  "get_active_sessions m = length (filter is_established (bt_values (nm_sessions m)))"

definition clear_expired_sessions :: "u64 \<Rightarrow> u64 \<Rightarrow> noise_manager \<Rightarrow> noise_manager" where
  "clear_expired_sessions current_timestamp ttl_seconds m =
     m\<lparr>nm_sessions := filter (\<lambda>(_, s). session_age current_timestamp s < ttl_seconds) (nm_sessions m)\<rparr>"

section \<open>Sentry and signer\<close>

record sentry_node =
  sn_identity :: node_identity
  sn_public_address :: string
  sn_active_sessions :: "(string, noise_session) btree_map"
  sn_connected_peers :: "string list"
  sn_messages_relayed :: u64
  sn_created_at :: u64

definition sentry_new :: "string \<Rightarrow> bytes \<Rightarrow> string \<Rightarrow> u64 \<Rightarrow> (sentry_node, session_error) result" where
  "sentry_new peer_id static_key public_address timestamp =
     (case identity_new peer_id static_key Sentry of
        Ok i \<Rightarrow> Ok \<lparr>sn_identity = i, sn_public_address = public_address, sn_active_sessions = [], sn_connected_peers = [],
                   sn_messages_relayed = 0, sn_created_at = timestamp\<rparr>
      | Err e \<Rightarrow> Err e | Panic \<Rightarrow> Panic)"

definition create_session :: "string \<Rightarrow> noise_pattern \<Rightarrow> u64 \<Rightarrow> sentry_node \<Rightarrow> string \<times> sentry_node" where
  "create_session peer_id pattern timestamp n =
     (let session_id = ''session_'' @ ni_peer_id (sn_identity n) @ ''_'' @ peer_id in
      (session_id,
       n\<lparr>sn_active_sessions := bt_insert session_id (session_new session_id peer_id pattern timestamp) (sn_active_sessions n),
         sn_connected_peers := (if peer_id \<in> set (sn_connected_peers n) then sn_connected_peers n
                                else sn_connected_peers n @ [peer_id])\<rparr>))"

definition sentry_complete_handshake ::
    "string \<Rightarrow> cipher_key \<Rightarrow> cipher_key \<Rightarrow> u64 \<Rightarrow> sentry_node \<Rightarrow> (unit, session_error) result \<times> sentry_node" where
  "sentry_complete_handshake session_id send_key receive_key timestamp n =
     (case bt_get (sn_active_sessions n) session_id of
        None \<Rightarrow> (Err (SessionNotFound session_id), n)
      | Some s \<Rightarrow>
          (Ok (), n\<lparr>sn_active_sessions := bt_insert session_id (install_keys send_key receive_key timestamp s) (sn_active_sessions n)\<rparr>))"

text \<open>The message itself is not looked at.\<close>

definition relay_to_signer ::
    "string \<Rightarrow> encrypted_message \<Rightarrow> sentry_node \<Rightarrow> (unit, session_error) result \<times> sentry_node" where
  "relay_to_signer session_id message n =
     (case bt_get (sn_active_sessions n) session_id of
        None \<Rightarrow> (Err (SessionNotFound session_id), n)
      | Some s \<Rightarrow>
          if \<not> is_established s then (Err NotEstablished, n)
          else
            (Ok (),
             n\<lparr>sn_active_sessions :=
                 bt_insert session_id (s\<lparr>ns_messages_received := ns_messages_received s + 1\<rparr>) (sn_active_sessions n),
               sn_messages_relayed := sn_messages_relayed n + 1\<rparr>))"

record signer_node =
  sg_identity :: node_identity
  sg_sentry_tunnel :: "string option"
  sg_private_address :: string
  sg_stake_address :: string
  sg_active_sessions :: "(string, noise_session) btree_map"
  sg_messages_signed :: u64
  sg_created_at :: u64

definition signer_new :: "string \<Rightarrow> bytes \<Rightarrow> string \<Rightarrow> string \<Rightarrow> u64 \<Rightarrow> (signer_node, session_error) result" where
  "signer_new peer_id static_key private_address stake_address timestamp =
     (case identity_new peer_id static_key Signer of
        Ok i \<Rightarrow> Ok \<lparr>sg_identity = i, sg_sentry_tunnel = None, sg_private_address = private_address,
                   sg_stake_address = stake_address, sg_active_sessions = [], sg_messages_signed = 0, sg_created_at = timestamp\<rparr>
      | Err e \<Rightarrow> Err e | Panic \<Rightarrow> Panic)"

definition connect_to_sentry :: "string \<Rightarrow> noise_pattern \<Rightarrow> u64 \<Rightarrow> signer_node \<Rightarrow> string \<times> signer_node" where
  "connect_to_sentry sentry_peer_id pattern timestamp n =
     (let session_id = ''sentry_tunnel_'' @ ni_peer_id (sg_identity n) @ ''_'' @ sentry_peer_id in
      (session_id,
       n\<lparr>sg_active_sessions := bt_insert session_id (session_new session_id sentry_peer_id pattern timestamp) (sg_active_sessions n),
         sg_sentry_tunnel := Some session_id\<rparr>))"

definition tunnel_session :: "signer_node \<Rightarrow> (string \<times> noise_session, session_error) result" where
  "tunnel_session n =
     (case sg_sentry_tunnel n of
        None \<Rightarrow> Err TunnelMissing
      | Some t \<Rightarrow> (case bt_get (sg_active_sessions n) t of None \<Rightarrow> Err (SessionNotFound t) | Some s \<Rightarrow> Ok (t, s)))"

definition establish_sentry_tunnel ::
    "cipher_key \<Rightarrow> cipher_key \<Rightarrow> u64 \<Rightarrow> signer_node \<Rightarrow> (unit, session_error) result \<times> signer_node" where
  "establish_sentry_tunnel send_key receive_key timestamp n =
     (case tunnel_session n of
        Err e \<Rightarrow> (Err e, n) | Panic \<Rightarrow> (Panic, n)
      | Ok (t, s) \<Rightarrow>
          (Ok (), n\<lparr>sg_active_sessions := bt_insert t (install_keys send_key receive_key timestamp s) (sg_active_sessions n)\<rparr>))"

definition signer_mac :: "aead \<Rightarrow> string \<Rightarrow> u64 \<Rightarrow> bytes \<Rightarrow> u64 \<Rightarrow> bytes \<Rightarrow> bytes" where
  "signer_mac ae tunnel seq ciphertext ts key =
     take 16 (ae_sha3 ae (as_bytes tunnel @ u64_le_bytes seq @ ciphertext @ u64_le_bytes ts @ key))"

definition sign_and_send ::
    "aead \<Rightarrow> u64 \<Rightarrow> string \<Rightarrow> bytes \<Rightarrow> signer_node \<Rightarrow> (encrypted_message, session_error) result \<times> signer_node" where
  "sign_and_send ae ts message signature n =
     (case tunnel_session n of
        Err e \<Rightarrow> (Err e, n) | Panic \<Rightarrow> (Panic, n)
      | Ok (t, s) \<Rightarrow>
          if \<not> is_established s then (Err NotEstablished, n)
          else
            let s = s\<lparr>ns_messages_sent := ns_messages_sent s + 1\<rparr>;
                key = (case ns_send_key s of Some k \<Rightarrow> ck_material k | None \<Rightarrow> [])
            in (Ok \<lparr>em_session_id = t, em_sequence_number = ns_messages_sent s, em_ciphertext = as_bytes message,
                    em_mac_tag = signer_mac ae t (ns_messages_sent s) (as_bytes message) ts key, em_timestamp = ts\<rparr>,
                n\<lparr>sg_active_sessions := bt_insert t s (sg_active_sessions n), sg_messages_signed := sg_messages_signed n + 1\<rparr>))"

definition is_connected_to_sentry :: "signer_node \<Rightarrow> bool" where
  "is_connected_to_sentry n = (case tunnel_session n of Ok (_, s) \<Rightarrow> is_established s | _ \<Rightarrow> False)"

section \<open>What the cipher promises\<close>

text \<open>The documented behaviour of the cipher: encryption appends a tag of 16 bytes, decryption inverts it, and nothing
  else is accepted under the same key and nonce.\<close>

definition aead_laws :: "aead \<Rightarrow> bool" where
  "aead_laws ae \<longleftrightarrow>
     (\<forall>k n p c. ae_encrypt ae k n p = Some c \<longrightarrow> length c = length p + 16 \<and> ae_decrypt ae k n c = Some p)
     \<and> (\<forall>k n p c. ae_decrypt ae k n c = Some p \<longrightarrow> ae_encrypt ae k n p = Some c)"

lemma aead_lawsD:
  assumes "aead_laws ae"
  shows "ae_encrypt ae k n p = Some c \<Longrightarrow> length c = length p + 16" "ae_encrypt ae k n p = Some c \<Longrightarrow> ae_decrypt ae k n c = Some p"
    "ae_decrypt ae k n c = Some p \<Longrightarrow> ae_encrypt ae k n p = Some c"
  using assms unfolding aead_laws_def by blast+

text \<open>A session that is ready to send under a key, or to receive.\<close>

definition sends_with :: "noise_manager \<Rightarrow> string \<Rightarrow> cipher_key \<Rightarrow> bool" where
  "sends_with m sid k \<longleftrightarrow>
     (\<exists>s. bt_get (nm_sessions m) sid = Some s \<and> ns_send_key s = Some k \<and> ns_receive_key s \<noteq> None \<and> length (ck_material k) = 32)"

definition receives_with :: "noise_manager \<Rightarrow> string \<Rightarrow> cipher_key \<Rightarrow> bool" where
  "receives_with m sid k \<longleftrightarrow>
     (\<exists>s. bt_get (nm_sessions m) sid = Some s \<and> ns_receive_key s = Some k \<and> ns_send_key s \<noteq> None \<and> length (ck_material k) = 32)"

lemma encrypt_message_Ok:
  assumes "encrypt_message ae sid p ts m = (Ok msg, m')" "sends_with m sid k"
  obtains c where "ae_encrypt ae (ck_material k) (nonce_bytes (ck_nonce_counter k + 1)) p = Some c"
    "em_sequence_number msg = ck_nonce_counter k + 1" "em_ciphertext msg @ em_mac_tag msg = c" "16 \<le> length c"
    "sends_with m' sid (k\<lparr>ck_nonce_counter := ck_nonce_counter k + 1\<rparr>)"
  using assms
  by (auto simp: encrypt_message_def sends_with_def increment_nonce_def set_session_def Let_def split: option.splits if_splits)

lemma decrypt_message_Ok:
  assumes "receives_with m sid k"
  shows "ae_decrypt ae (ck_material k) (nonce_bytes (em_sequence_number msg)) (em_ciphertext msg @ em_mac_tag msg) = Some p
    \<Longrightarrow> \<exists>m'. decrypt_message ae sid msg m = (Ok p, m') \<and> receives_with m' sid k"
    and "decrypt_message ae sid msg m = (Ok p, m') \<Longrightarrow>
      ae_decrypt ae (ck_material k) (nonce_bytes (em_sequence_number msg)) (em_ciphertext msg @ em_mac_tag msg) = Some p"
  using assms
  by (auto simp: decrypt_message_def receives_with_def set_session_def split: option.splits if_splits)

text \<open>C36: encrypted messages. What one side encrypts in a session is decrypted by a side that receives under the
  same key material, and whatever that side decrypts was encrypted under this material with the sequence number of the
  message: a changed text, tag or number is refused.\<close>

theorem session_message_roundtrip:
  assumes "aead_laws ae" "sends_with A sa ka" "receives_with B sb kb" "ck_material ka = ck_material kb"
    and "encrypt_message ae sa p ts A = (Ok msg, A')"
  shows "(\<exists>B'. decrypt_message ae sb msg B = (Ok p, B'))
    \<and> (\<forall>msg' p' B'. decrypt_message ae sb msg' B = (Ok p', B') \<longrightarrow>
         ae_encrypt ae (ck_material ka) (nonce_bytes (em_sequence_number msg')) p' = Some (em_ciphertext msg' @ em_mac_tag msg'))"
proof (intro conjI allI impI)
  obtain c where c: "ae_encrypt ae (ck_material ka) (nonce_bytes (ck_nonce_counter ka + 1)) p = Some c"
      "em_sequence_number msg = ck_nonce_counter ka + 1" "em_ciphertext msg @ em_mac_tag msg = c" "16 \<le> length c"
      "sends_with A' sa (ka\<lparr>ck_nonce_counter := ck_nonce_counter ka + 1\<rparr>)"
    by (rule encrypt_message_Ok [OF assms(5,2)])
  have "ae_decrypt ae (ck_material kb) (nonce_bytes (em_sequence_number msg)) (em_ciphertext msg @ em_mac_tag msg) = Some p"
    using aead_lawsD(2) [OF assms(1) c(1)] by (simp only: c(2,3) assms(4))
  from decrypt_message_Ok(1) [OF assms(3) this] show "\<exists>B'. decrypt_message ae sb msg B = (Ok p, B')" by blast
  show "ae_encrypt ae (ck_material ka) (nonce_bytes (em_sequence_number msg')) p' = Some (em_ciphertext msg' @ em_mac_tag msg')"
    if "decrypt_message ae sb msg' B = (Ok p', B')" for msg' p' B'
    using aead_lawsD(3) [OF assms(1) decrypt_message_Ok(2) [OF assms(3) that]] by (simp only: assms(4))
qed

section \<open>Nonces\<close>

text \<open>Encrypting one message after the other in a session.\<close>

fun encrypt_all :: "aead \<Rightarrow> string \<Rightarrow> (bytes \<times> u64) list \<Rightarrow> noise_manager \<Rightarrow> encrypted_message list option \<times> noise_manager" where
  "encrypt_all ae sid [] m = (Some [], m)"
| "encrypt_all ae sid ((p, ts) # ps) m =
     (case encrypt_message ae sid p ts m of
        (Ok msg, m1) \<Rightarrow> (let (r, m2) = encrypt_all ae sid ps m1 in (map_option (\<lambda>ms. msg # ms) r, m2))
      | (_, m1) \<Rightarrow> (None, m1))"

lemma nonce_bytes_inject: "nonce_bytes a = nonce_bytes b \<longleftrightarrow> a = b"
  unfolding nonce_bytes_def by (metis append_same_eq from_le_bytes_inverses(1))

lemma encrypt_all_numbers:
  assumes "encrypt_all ae sid ps m = (Some ms, m')" "sends_with m sid k"
  shows "map em_sequence_number ms = map (\<lambda>i. ck_nonce_counter k + of_nat (Suc i)) [0..<length ps]"
  using assms
proof (induction ps arbitrary: m ms k)
  case (Cons e ps)
  obtain p ts where e: "e = (p, ts)" by fastforce
  obtain msg m1 ms' where 1: "encrypt_message ae sid p ts m = (Ok msg, m1)" "encrypt_all ae sid ps m1 = (Some ms', m')" "ms = msg # ms'"
    using Cons.prems(1) by (auto simp: e split: prod.splits result.splits)
  let ?k = "k\<lparr>ck_nonce_counter := ck_nonce_counter k + 1\<rparr>"
  have 2: "em_sequence_number msg = ck_nonce_counter k + 1" "sends_with m1 sid ?k"
    using encrypt_message_Ok [OF 1(1) Cons.prems(2)] by blast+
  from Cons.IH [OF 1(2) 2(2)]
  have "map em_sequence_number ms' = map (\<lambda>i. ck_nonce_counter k + of_nat (Suc (Suc i))) [0..<length ps]" by (simp add: algebra_simps)
  then show ?case
    unfolding 1(3) list.map length_Cons upt_conv_Cons [OF zero_less_Suc] 2(1)
    by (simp add: map_Suc_upt [symmetric] comp_def del: map_Suc_upt upt_Suc)
qed simp

text \<open>C37: no nonce is used twice. The messages that are encrypted in a session without a new handshake carry
  different nonces, as long as there are fewer than two to the power of 64 of them.\<close>

theorem session_nonces_distinct:
  assumes "sends_with m sid k" "encrypt_all ae sid ps m = (Some ms, m')" "length ps < 2 ^ 64"
  shows "distinct (map (\<lambda>msg. nonce_bytes (em_sequence_number msg)) ms)"
proof -
  have inj: "inj_on (\<lambda>i. ck_nonce_counter k + of_nat (Suc i)) {0..<length ps}"
  proof (rule inj_onI)
    fix i j assume ij: "i \<in> {0..<length ps}" "j \<in> {0..<length ps}" and e: "ck_nonce_counter k + of_nat (Suc i) = ck_nonce_counter k + of_nat (Suc j)"
    have u: "unat (of_nat (Suc n) :: u64) = Suc n" if "n < length ps" for n
      by (rule unat_of_nat_small) (use that assms(3) in simp)
    from e have "(of_nat (Suc i) :: u64) = of_nat (Suc j)" by (simp only: add_left_cancel)
    then have "Suc i = Suc j" using u [of i] u [of j] ij by (metis atLeastLessThan_iff)
    then show "i = j" by simp
  qed
  then have "distinct (map em_sequence_number ms)"
    unfolding encrypt_all_numbers [OF assms(2,1)] by (simp add: distinct_map)
  then show ?thesis by (simp add: distinct_map inj_on_def nonce_bytes_inject)
qed

text \<open>What the sessions do not give. A message can be delivered any number of times;\<close>

lemma message_replayed:
  assumes "decrypt_message ae sid msg m = (Ok p, m')" "receives_with m sid k"
  shows "\<exists>m''. decrypt_message ae sid msg m' = (Ok p, m'')"
  by (metis assms decrypt_message_Ok prod.inject)

text \<open>a handshake with the same material starts the nonces again;\<close>

lemma handshake_resets_nonce:
  assumes "sends_with m sid k" "ns_receive_key (the (bt_get (nm_sessions m) sid)) = Some r"
  shows "sends_with (snd (noise_complete_handshake sid (ck_material k) (ck_material r) ts m)) sid (cipher_key_new 1 (ck_material k) ts)"
  using assms by (auto simp: sends_with_def noise_complete_handshake_def set_session_def install_keys_def cipher_key_new_def)

text \<open>and the signer sends its text as it is.\<close>

lemma signer_sends_plaintext: "sign_and_send ae ts message sig n = (Ok msg, n') \<Longrightarrow> em_ciphertext msg = as_bytes message"
  by (auto simp: sign_and_send_def Let_def split: result.splits if_splits)

section \<open>Two nodes\<close>

definition plain_cipher :: aead where
  "plain_cipher =
     \<lparr>ae_encrypt = (\<lambda>k n p. Some (p @ replicate 16 0)),
      ae_decrypt = (\<lambda>k n c. if 16 \<le> length c \<and> drop (length c - 16) c = replicate 16 0 then Some (take (length c - 16) c) else None),
      ae_sha3 = (\<lambda>b. b)\<rparr>"

lemma plain_cipher_laws: "aead_laws plain_cipher"
proof -
  have "take (length c - 16) c @ replicate 16 0 = c" if "drop (length c - 16) c = replicate 16 0" for c :: bytes
    using append_take_drop_id [of "length c - 16" c] that by simp
  then show ?thesis by (simp add: aead_laws_def plain_cipher_def)
qed

definition demo_peer :: "string \<Rightarrow> noise_manager" where
  "demo_peer other =
     snd (noise_complete_handshake (''noise_n_'' @ other) (replicate 32 1) (replicate 32 1) 5
       (snd (initiate_handshake other (replicate 32 9) 5
         (noise_manager_new \<lparr>ni_peer_id = ''n'', ni_static_key = replicate 32 7, ni_node_type = Full\<rparr> IK))))"

lemma demo_peer_ready:
  "sends_with (demo_peer other) (''noise_n_'' @ other) (cipher_key_new 1 (replicate 32 1) 5)"
  "receives_with (demo_peer other) (''noise_n_'' @ other) (cipher_key_new 2 (replicate 32 1) 5)"
  by (simp_all add: demo_peer_def initiate_handshake_def noise_manager_new_def noise_complete_handshake_def set_session_def
      sends_with_def receives_with_def install_keys_def session_new_def cipher_key_new_def Let_def)

lemmas encrypt_run = encrypt_message_def demo_peer_def initiate_handshake_def noise_manager_new_def noise_complete_handshake_def
  set_session_def install_keys_def session_new_def cipher_key_new_def increment_nonce_def plain_cipher_def bt_get_def

theorem session_message_roundtrip_witness:
  "\<exists>msg A' B'. encrypt_message plain_cipher ''noise_n_b'' [1, 2, 3] 6 (demo_peer ''b'') = (Ok msg, A')
     \<and> decrypt_message plain_cipher ''noise_n_a'' msg (demo_peer ''a'') = (Ok [1, 2, 3], B')"
proof -
  have "\<exists>msg A'. encrypt_message plain_cipher ''noise_n_b'' [1, 2, 3] 6 (demo_peer ''b'') = (Ok msg, A')"
    by (simp add: encrypt_run Let_def)
  then obtain msg A' where e: "encrypt_message plain_cipher ''noise_n_b'' [1, 2, 3] 6 (demo_peer ''b'') = (Ok msg, A')" by blast
  from session_message_roundtrip [OF plain_cipher_laws demo_peer_ready(1) [of "''b''", simplified]
      demo_peer_ready(2) [of "''a''", simplified] _ e]
  show ?thesis using e by (auto simp: cipher_key_new_def)
qed

theorem session_nonces_distinct_witness:
  "\<exists>ms m'. encrypt_all plain_cipher ''noise_n_b'' [([1], 6), ([2], 7)] (demo_peer ''b'') = (Some ms, m')
     \<and> distinct (map (\<lambda>msg. nonce_bytes (em_sequence_number msg)) ms) \<and> length ms = 2"
proof -
  have "\<exists>ms m'. encrypt_all plain_cipher ''noise_n_b'' [([1], 6), ([2], 7)] (demo_peer ''b'') = (Some ms, m') \<and> length ms = 2"
    by (simp add: encrypt_run Let_def)
  then obtain ms m' where e: "encrypt_all plain_cipher ''noise_n_b'' [([1], 6), ([2], 7)] (demo_peer ''b'') = (Some ms, m')" "length ms = 2"
    by blast
  from session_nonces_distinct [OF demo_peer_ready(1) [of "''b''", simplified] e(1)] e show ?thesis by simp
qed

end
