(* ===== verification/P2p_Network.thy ===== *)
theory P2p_Network
  imports Los_Strings BTree_Map Step_Systems "HOL-Library.Multiset"
begin

text \<open>
  The registry of peers and the message queues (\<open>los-network/src/p2p_integration.rs\<close>). Shown here: the count of peers
  is the number of registered sessions in every reachable state, every message that was accepted is handed out exactly
  once, higher priorities first and in order of arrival within a priority; the count of connected peers has no such
  meaning.
\<close>

datatype message_priority = Low | Normal | High | Critical

primrec priority_rank :: "message_priority \<Rightarrow> nat" where
  "priority_rank Low = 0"
| "priority_rank Normal = 1"
| "priority_rank High = 2"
| "priority_rank Critical = 3"

datatype node_role = RoleValidator | RoleSentry | RoleFull

record peer_session =
  ps_peer_id :: string
  ps_session_id :: string
  ps_established_at :: u64
  ps_last_activity :: u64
  ps_messages_sent :: u64
  ps_messages_received :: u64

record queued_message =
  qm_destination :: string
  qm_payload :: bytes
  qm_priority :: message_priority
  qm_queued_at :: u64

record network_stats =
  ws_total_peers :: u32
  ws_connected_peers :: u32
  ws_messages_sent :: u64
  ws_messages_received :: u64
  ws_bytes_sent :: u64
  ws_bytes_received :: u64
  ws_security_events :: u32

record p2p_manager =
  pm_node_id :: string
  pm_listen_addr :: string
  pm_listen_port :: u16
  pm_role :: node_role
  pm_sessions :: "(string, peer_session) btree_map"
  pm_stats :: network_stats
  pm_outbound :: "queued_message list"
  pm_inbound :: "queued_message list"
  pm_enforcement :: bool

datatype p2p_error = AlreadyRegistered string | PeerNotFound string | EnforcementDisabled

definition p2p_new :: "string \<Rightarrow> string \<Rightarrow> u16 \<Rightarrow> node_role \<Rightarrow> p2p_manager" where
  "p2p_new node_id listen_addr listen_port role =
     \<lparr>pm_node_id = node_id, pm_listen_addr = listen_addr, pm_listen_port = listen_port, pm_role = role, pm_sessions = [],
      pm_stats = \<lparr>ws_total_peers = 0, ws_connected_peers = 0, ws_messages_sent = 0, ws_messages_received = 0,
                  ws_bytes_sent = 0, ws_bytes_received = 0, ws_security_events = 0\<rparr>,
      pm_outbound = [], pm_inbound = [], pm_enforcement = True\<rparr>"

section \<open>Peers\<close>

definition add_peer :: "u64 \<Rightarrow> string \<Rightarrow> p2p_manager \<Rightarrow> (string, p2p_error) result \<times> p2p_manager" where
  "add_peer now peer_id m =
     (if bt_contains (pm_sessions m) peer_id then (Err (AlreadyRegistered peer_id), m)
      else
        let session_id = ''noise_'' @ pm_node_id m @ ''_to_'' @ peer_id in
        (Ok session_id,
         m\<lparr>pm_sessions :=
             bt_insert peer_id
               \<lparr>ps_peer_id = peer_id, ps_session_id = session_id, ps_established_at = now, ps_last_activity = now,
                ps_messages_sent = 0, ps_messages_received = 0\<rparr> (pm_sessions m),
           pm_stats := (pm_stats m)\<lparr>ws_total_peers := ws_total_peers (pm_stats m) + 1\<rparr>\<rparr>))"

definition drop_peer :: "string \<Rightarrow> p2p_manager \<Rightarrow> (unit, p2p_error) result \<times> p2p_manager" where
  "drop_peer peer_id m =
     (if bt_contains (pm_sessions m) peer_id
      then (Ok (),
            m\<lparr>pm_sessions := bt_remove peer_id (pm_sessions m),
              pm_stats := (pm_stats m)
                \<lparr>ws_total_peers := saturating_sub (ws_total_peers (pm_stats m)) 1,
                 ws_connected_peers := saturating_sub (ws_connected_peers (pm_stats m)) 1\<rparr>\<rparr>)
      else (Err (PeerNotFound peer_id), m))"

definition connect_peer :: "string \<Rightarrow> p2p_manager \<Rightarrow> (unit, p2p_error) result \<times> p2p_manager" where
  "connect_peer peer_id m =
     (if bt_contains (pm_sessions m) peer_id
      then (Ok (), m\<lparr>pm_stats := (pm_stats m)\<lparr>ws_connected_peers := ws_connected_peers (pm_stats m) + 1\<rparr>\<rparr>)
      else (Err (PeerNotFound peer_id), m))"

definition disconnect_peer :: "string \<Rightarrow> p2p_manager \<Rightarrow> (unit, p2p_error) result \<times> p2p_manager" where
  "disconnect_peer peer_id m =
     (if bt_contains (pm_sessions m) peer_id
      then (Ok (), m\<lparr>pm_stats := (pm_stats m)\<lparr>ws_connected_peers := saturating_sub (ws_connected_peers (pm_stats m)) 1\<rparr>\<rparr>)
      else (Err (PeerNotFound peer_id), m))"

section \<open>Messages\<close>

definition queue_message ::
    "u64 \<Rightarrow> string \<Rightarrow> bytes \<Rightarrow> message_priority \<Rightarrow> p2p_manager \<Rightarrow> (unit, p2p_error) result \<times> p2p_manager" where
  "queue_message now peer_id payload priority m =
     (if \<not> pm_enforcement m then (Err EnforcementDisabled, m)
      else if \<not> bt_contains (pm_sessions m) peer_id then (Err (PeerNotFound peer_id), m)
      else
        (Ok (),
         m\<lparr>pm_outbound := pm_outbound m
             @ [\<lparr>qm_destination = peer_id, qm_payload = payload, qm_priority = priority, qm_queued_at = now\<rparr>],
           pm_stats := (pm_stats m)
             \<lparr>ws_messages_sent := ws_messages_sent (pm_stats m) + 1,
              ws_bytes_sent := ws_bytes_sent (pm_stats m) + of_nat (length payload)\<rparr>,
           pm_sessions := bt_modify peer_id
             (\<lambda>s. s\<lparr>ps_messages_sent := ps_messages_sent s + 1, ps_last_activity := now\<rparr>) (pm_sessions m)\<rparr>))"

definition process_received_message ::
    "u64 \<Rightarrow> string \<Rightarrow> bytes \<Rightarrow> p2p_manager \<Rightarrow> (unit, p2p_error) result \<times> p2p_manager" where
  "process_received_message now peer_id payload m =
     (if \<not> bt_contains (pm_sessions m) peer_id then (Err (PeerNotFound peer_id), m)
      else
        (Ok (),
         m\<lparr>pm_inbound := pm_inbound m
             @ [\<lparr>qm_destination = peer_id, qm_payload = payload, qm_priority = Normal, qm_queued_at = now\<rparr>],
           pm_stats := (pm_stats m)
             \<lparr>ws_messages_received := ws_messages_received (pm_stats m) + 1,
              ws_bytes_received := ws_bytes_received (pm_stats m) + of_nat (length payload)\<rparr>,
           pm_sessions := bt_modify peer_id
             (\<lambda>s. s\<lparr>ps_messages_received := ps_messages_received s + 1, ps_last_activity := now\<rparr>) (pm_sessions m)\<rparr>))"

definition get_connected_peers :: "p2p_manager \<Rightarrow> string list" where
  "get_connected_peers m = map fst (pm_sessions m)"

definition get_peer_session :: "string \<Rightarrow> p2p_manager \<Rightarrow> peer_session option" where
  "get_peer_session peer_id m = bt_get (pm_sessions m) peer_id"

text \<open>\<open>sort_by\<close> is stable and the order is that of falling priority.\<close>

definition flush_outbound_queue :: "p2p_manager \<Rightarrow> queued_message list \<times> p2p_manager" where
  "flush_outbound_queue m =
     (sort_key (\<lambda>q. 3 - priority_rank (qm_priority q)) (pm_outbound m), m\<lparr>pm_outbound := []\<rparr>)"

definition flush_inbound_queue :: "p2p_manager \<Rightarrow> queued_message list \<times> p2p_manager" where
  "flush_inbound_queue m = (pm_inbound m, m\<lparr>pm_inbound := []\<rparr>)"

definition record_security_event :: "p2p_manager \<Rightarrow> p2p_manager" where
  "record_security_event m =
     m\<lparr>pm_stats := (pm_stats m)\<lparr>ws_security_events := ws_security_events (pm_stats m) + 1\<rparr>\<rparr>"

definition set_enforcement :: "bool \<Rightarrow> p2p_manager \<Rightarrow> p2p_manager" where
  "set_enforcement on m = m\<lparr>pm_enforcement := on\<rparr>"

section \<open>Runs\<close>

text \<open>A run of a manager, with the messages that were accepted for sending and those that were handed out.\<close>

datatype p2p_event =
    Added | Dropped | Accepted queued_message | HandedOut "queued_message list" | OtherEvent

inductive p2p_step :: "p2p_manager \<Rightarrow> p2p_event \<Rightarrow> p2p_manager \<Rightarrow> bool" where
  step_add: "add_peer now peer_id m = (r, m') \<Longrightarrow> p2p_step m Added m'"
| step_drop: "drop_peer peer_id m = (r, m') \<Longrightarrow> p2p_step m Dropped m'"
| step_connect: "connect_peer peer_id m = (r, m') \<Longrightarrow> p2p_step m OtherEvent m'"
| step_disconnect: "disconnect_peer peer_id m = (r, m') \<Longrightarrow> p2p_step m OtherEvent m'"
| step_queue: "queue_message now peer_id payload priority m = (Ok (), m') \<Longrightarrow>
    p2p_step m (Accepted \<lparr>qm_destination = peer_id, qm_payload = payload, qm_priority = priority, qm_queued_at = now\<rparr>) m'"
| step_refuse: "queue_message now peer_id payload priority m = (Err e, m') \<Longrightarrow> p2p_step m OtherEvent m'"
| step_receive: "process_received_message now peer_id payload m = (r, m') \<Longrightarrow> p2p_step m OtherEvent m'"
| step_flush: "flush_outbound_queue m = (out, m') \<Longrightarrow> p2p_step m (HandedOut out) m'"
| step_flush_in: "flush_inbound_queue m = (out, m') \<Longrightarrow> p2p_step m OtherEvent m'"
| step_event: "p2p_step m OtherEvent (record_security_event m)"
| step_enforce: "p2p_step m OtherEvent (set_enforcement on m)"

inductive p2p_run :: "p2p_manager \<Rightarrow> p2p_event list \<Rightarrow> p2p_manager \<Rightarrow> bool" where
  run_start: "p2p_run m [] m"
| run_more: "p2p_run m es m1 \<Longrightarrow> p2p_step m1 e m2 \<Longrightarrow> p2p_run m (es @ [e]) m2"

inductive_cases p2p_stepE: "p2p_step m e m'"

definition accepted :: "p2p_event list \<Rightarrow> queued_message list" where
  "accepted es = concat (map (\<lambda>e. case e of Accepted q \<Rightarrow> [q] | _ \<Rightarrow> []) es)"

definition handed_out :: "p2p_event list \<Rightarrow> queued_message list" where
  "handed_out es = concat (map (\<lambda>e. case e of HandedOut qs \<Rightarrow> qs | _ \<Rightarrow> []) es)"

lemma events_snoc [simp]:
  "accepted [] = []" "handed_out [] = []"
  "accepted (es @ [e]) = accepted es @ (case e of Accepted q \<Rightarrow> [q] | _ \<Rightarrow> [])"
  "handed_out (es @ [e]) = handed_out es @ (case e of HandedOut qs \<Rightarrow> qs | _ \<Rightarrow> [])"
  by (simp_all add: accepted_def handed_out_def)

section \<open>Properties\<close>

lemmas p2p_defs = add_peer_def drop_peer_def connect_peer_def disconnect_peer_def queue_message_def
  process_received_message_def flush_outbound_queue_def flush_inbound_queue_def record_security_event_def set_enforcement_def

definition p2p_inv :: "p2p_manager \<Rightarrow> bool" where
  "p2p_inv m \<longleftrightarrow> bt_ok (pm_sessions m) \<and> ws_total_peers (pm_stats m) = of_nat (length (pm_sessions m))
     \<and> (\<forall>k s. bt_get (pm_sessions m) k = Some s \<longrightarrow> ps_peer_id s = k)"

lemma p2p_inv_new: "p2p_inv (p2p_new a b c d)"
  by (simp add: p2p_inv_def p2p_new_def)

abbreviation additions :: "p2p_event list \<Rightarrow> nat" where
  "additions es \<equiv> length (filter (\<lambda>e. e = Added) es)"

text \<open>One step: the sessions, and how their number is counted.\<close>

lemma p2p_step_sessions:
  assumes "p2p_step m e m'" "p2p_inv m" "length (pm_sessions m) < 2 ^ 32"
  shows "p2p_inv m' \<and> length (pm_sessions m') \<le> length (pm_sessions m) + (if e = Added then 1 else 0)"
  using assms(1)
proof (cases rule: p2p_step.cases)
  case (step_add now peer_id r)
  show ?thesis
  proof (cases "bt_contains (pm_sessions m) peer_id")
    case False
    then have "bt_get (pm_sessions m) peer_id = None" by (simp add: bt_contains_def)
    with step_add False assms(2) show ?thesis
      by (auto simp: p2p_defs Let_def p2p_inv_def length_bt_insert_fresh split: if_splits)
  qed (use step_add assms(2) in \<open>simp add: p2p_defs\<close>)
next
  case (step_drop peer_id r)
  show ?thesis
  proof (cases "bt_get (pm_sessions m) peer_id")
    case (Some s)
    have "Suc (length (bt_remove peer_id (pm_sessions m))) = length (pm_sessions m)"
      using assms(2) Some by (intro length_bt_remove) (simp_all add: p2p_inv_def)
    note len = this [symmetric]
    have u: "unat (of_nat (length (pm_sessions m)) :: u32) = length (pm_sessions m)" using assms(3) by (simp add: unat_of_nat_small)
    have "saturating_sub (of_nat (length (pm_sessions m)) :: u32) 1 = of_nat (length (bt_remove peer_id (pm_sessions m)))"
      unfolding saturating_sub_def using u by (simp add: len word_le_nat_alt word_less_nat_alt)
    with step_drop Some assms(2) len show ?thesis
      by (auto simp: p2p_defs p2p_inv_def bt_contains_def split: if_splits)
  qed (use step_drop assms(2) in \<open>auto simp: p2p_defs bt_contains_def\<close>)
qed (use assms(2) in \<open>auto simp: p2p_defs p2p_inv_def length_bt_modify split: if_splits option.splits\<close>)

lemma p2p_run_sessions:
  assumes "p2p_run m es m'" "p2p_inv m" "length (pm_sessions m) + additions es < 2 ^ 32"
  shows "p2p_inv m' \<and> length (pm_sessions m') \<le> length (pm_sessions m) + additions es"
  using assms
proof (induction rule: p2p_run.induct)
  case (run_more m es m1 e m2)
  have "p2p_inv m1 \<and> length (pm_sessions m1) \<le> length (pm_sessions m) + additions es"
    using run_more.IH run_more.prems by simp
  moreover from this p2p_step_sessions [OF run_more.hyps(2)] run_more.prems(2)
  have "p2p_inv m2 \<and> length (pm_sessions m2) \<le> length (pm_sessions m1) + (if e = Added then 1 else 0)" by force
  ultimately show ?case by auto
qed simp

text \<open>The number of peers. From a new manager on, the count in the statistics is the number of registered
  sessions, each of them under the name of its peer, as long as fewer than four thousand million were added.\<close>

theorem peer_count_exact:
  assumes "p2p_run (p2p_new node_id addr port role) es m" "additions es < 2 ^ 32"
  shows "unat (ws_total_peers (pm_stats m)) = length (get_connected_peers m) \<and> distinct (get_connected_peers m)
    \<and> (\<forall>k s. get_peer_session k m = Some s \<longrightarrow> ps_peer_id s = k)"
proof -
  have i: "p2p_inv m" "length (pm_sessions m) \<le> additions es"
    using p2p_run_sessions [OF assms(1) p2p_inv_new] assms(2) by (simp_all add: p2p_new_def)
  then have "unat (ws_total_peers (pm_stats m)) = length (pm_sessions m)"
    using assms(2) by (simp add: p2p_inv_def unat_of_nat_small)
  moreover have "distinct (map fst (pm_sessions m))" using i(1) bt_ok_sorted by (auto simp: p2p_inv_def strict_sorted_iff)
  ultimately show ?thesis using i(1) by (simp add: get_connected_peers_def get_peer_session_def p2p_inv_def)
qed

lemma p2p_run_messages:
  assumes "p2p_run m es m'"
  shows "mset (pm_outbound m) + mset (accepted es) = mset (handed_out es) + mset (pm_outbound m')"
  using assms
proof (induction rule: p2p_run.induct)
  case (run_more m es m1 e m2)
  let ?a = "mset (case e of Accepted q \<Rightarrow> [q] | _ \<Rightarrow> [])" and ?h = "mset (case e of HandedOut qs \<Rightarrow> qs | _ \<Rightarrow> [])"
  have step: "mset (pm_outbound m1) + ?a = ?h + mset (pm_outbound m2)"
    using run_more.hyps(2) by (cases rule: p2p_stepE) (auto simp: p2p_defs Let_def split: if_splits option.splits)
  have "mset (pm_outbound m) + (mset (accepted es) + ?a) = mset (handed_out es) + (mset (pm_outbound m1) + ?a)"
    using run_more.IH by (simp only: add.assoc [symmetric])
  also have "\<dots> = mset (handed_out es) + ?h + mset (pm_outbound m2)" unfolding step by (simp only: add.assoc)
  finally show ?case by (simp only: events_snoc mset_append)
qed simp

text \<open>Delivery. Every accepted message is handed out exactly once or still waits; a flush empties the queue,
  hands out higher priorities first and keeps the order of arrival within a priority.\<close>

theorem messages_delivered_in_order:
  assumes "p2p_run (p2p_new node_id addr port role) es m" "flush_outbound_queue m = (out, m')"
  shows "mset (accepted es) = mset (handed_out es) + mset out \<and> pm_outbound m' = []
    \<and> sorted_wrt (\<lambda>a b. priority_rank (qm_priority b) \<le> priority_rank (qm_priority a)) out
    \<and> (\<forall>p. filter (\<lambda>q. qm_priority q = p) out = filter (\<lambda>q. qm_priority q = p) (pm_outbound m))"
proof (intro conjI allI)
  let ?key = "\<lambda>q. 3 - priority_rank (qm_priority q)"
  have rank: "priority_rank x \<le> 3" for x by (cases x) simp_all
  have out: "out = sort_key ?key (pm_outbound m)" "m' = m\<lparr>pm_outbound := []\<rparr>" using assms(2) by (simp_all add: flush_outbound_queue_def)
  show "mset (accepted es) = mset (handed_out es) + mset out"
    using p2p_run_messages [OF assms(1)] by (simp add: out(1) p2p_new_def)
  show "pm_outbound m' = []" by (simp add: out(2))
  have "sorted (map ?key out)" by (simp add: out(1))
  then have "sorted_wrt (\<lambda>a b. ?key a \<le> ?key b) out" by (simp add: sorted_map)
  then show "sorted_wrt (\<lambda>a b. priority_rank (qm_priority b) \<le> priority_rank (qm_priority a)) out"
  proof (rule sorted_wrt_mono_rel [rotated])
    show "priority_rank (qm_priority b) \<le> priority_rank (qm_priority a)" if "?key a \<le> ?key b" for a b
      using that rank [of "qm_priority a"] rank [of "qm_priority b"] by linarith
  qed
  have key: "qm_priority q = p \<longleftrightarrow> ?key q = 3 - priority_rank p" for q p by (cases "qm_priority q"; cases p) simp_all
  show "filter (\<lambda>q. qm_priority q = p) out = filter (\<lambda>q. qm_priority q = p) (pm_outbound m)" for p
    unfolding key out(1) by (rule sort_key_stable)
qed

section \<open>A small run\<close>

definition peer_start :: p2p_manager where "peer_start = p2p_new ''n'' ''a'' 4001 RoleFull"
definition peer_added :: p2p_manager where "peer_added = snd (add_peer 1 ''p'' peer_start)"
definition peer_low :: p2p_manager where "peer_low = snd (queue_message 2 ''p'' [1] Low peer_added)"
definition peer_high :: p2p_manager where "peer_high = snd (queue_message 3 ''p'' [2] High peer_low)"

definition msg_low :: queued_message where
  "msg_low = \<lparr>qm_destination = ''p'', qm_payload = [1], qm_priority = Low, qm_queued_at = 2\<rparr>"

definition msg_high :: queued_message where
  "msg_high = \<lparr>qm_destination = ''p'', qm_payload = [2], qm_priority = High, qm_queued_at = 3\<rparr>"

lemmas peer_defs = peer_start_def peer_added_def peer_low_def peer_high_def msg_low_def msg_high_def p2p_new_def p2p_defs
  bt_contains_def bt_get_def bt_modify_def

lemma peer_run: "p2p_run peer_start [Added, Accepted msg_low, Accepted msg_high] peer_high"
proof -
  have 1: "p2p_step peer_start Added peer_added"
    by (rule step_add [of 1 "''p''" _ "fst (add_peer 1 ''p'' peer_start)"]) (simp add: peer_added_def)
  have 2: "p2p_step peer_added (Accepted msg_low) peer_low"
    unfolding msg_low_def by (rule step_queue) (simp add: peer_defs Let_def)
  have 3: "p2p_step peer_low (Accepted msg_high) peer_high"
    unfolding msg_high_def by (rule step_queue) (simp add: peer_defs Let_def)
  from run_more [OF run_more [OF run_more [OF run_start 1] 2] 3] show ?thesis by simp
qed

theorem peer_count_exact_witness: "unat (ws_total_peers (pm_stats peer_high)) = length (get_connected_peers peer_high)"
  by (rule conjunct1 [OF peer_count_exact [OF peer_run [unfolded peer_start_def]]]) simp

theorem messages_delivered_in_order_witness:
  "mset [msg_low, msg_high] = mset (handed_out [Added, Accepted msg_low, Accepted msg_high]) + mset (fst (flush_outbound_queue peer_high))
    \<and> fst (flush_outbound_queue peer_high) = [msg_high, msg_low]"
proof -
  have f: "flush_outbound_queue peer_high = (fst (flush_outbound_queue peer_high), snd (flush_outbound_queue peer_high))" by simp
  have "mset (accepted [Added, Accepted msg_low, Accepted msg_high])
      = mset (handed_out [Added, Accepted msg_low, Accepted msg_high]) + mset (fst (flush_outbound_queue peer_high))"
    by (rule conjunct1 [OF messages_delivered_in_order [OF peer_run [unfolded peer_start_def] f]])
  moreover have "fst (flush_outbound_queue peer_high) = [msg_high, msg_low]"
    by (simp add: peer_defs Let_def)
  ultimately show ?thesis by (simp add: accepted_def)
qed

text \<open>A peer that is connected twice counts twice.\<close>

lemma connected_peers_overcounted:
  "ws_connected_peers (pm_stats (snd (connect_peer ''p'' (snd (connect_peer ''p'' peer_added))))) = 2"
  "length (get_connected_peers (snd (connect_peer ''p'' (snd (connect_peer ''p'' peer_added))))) = 1"
  by (simp_all add: peer_defs Let_def get_connected_peers_def)

end
