(* ===== verification/Network_Slashing.thy ===== *)
theory Network_Slashing
  imports Slashing Step_Systems
begin

text \<open>
  The slashing manager of the network crate (\<open>los-network/src/slashing_integration.rs\<close>), which keeps the safety
  profiles of the consensus crate together with a list of banned validators and a total. Shown here: in every reachable
  state the list and the profiles name the same validators, the total is the sum over the profiles and over their
  histories, and a ban is never lifted; a downtime slash, however, is repeated by every further check.
\<close>

section \<open>The manager\<close>

record network_slashing =
  nw_profiles :: "(string, safety_profile) btree_map"
  nw_height :: u64
  nw_banned :: "string list"
  nw_total_slashed :: u128
  nw_enforcement :: bool

datatype nw_error = NwDoubleSigning | NwDisabled | NwAlreadyBanned | NwNotFound | NwCannotRestoreBanned | NwUnstaking

definition nw_new :: network_slashing where
  "nw_new = \<lparr>nw_profiles = [], nw_height = 0, nw_banned = [], nw_total_slashed = 0, nw_enforcement = True\<rparr>"

definition nw_set :: "string \<Rightarrow> safety_profile \<Rightarrow> network_slashing \<Rightarrow> network_slashing" where
  "nw_set a p m = m\<lparr>nw_profiles := bt_insert a p (nw_profiles m)\<rparr>"

definition nw_register_validator :: "string \<Rightarrow> network_slashing \<Rightarrow> network_slashing" where
  "nw_register_validator a m =
     (if bt_contains (nw_profiles m) a then m else nw_set a (safety_profile_new a) m)"

definition nw_record_participation :: "u64 \<Rightarrow> string \<Rightarrow> network_slashing \<Rightarrow> network_slashing" where
  "nw_record_participation now a m =
     (case bt_get (nw_profiles m) a of
        None \<Rightarrow> m
      | Some p \<Rightarrow>
          if sp_status p = Active
          then nw_set a (p\<lparr>sp_blocks_participated := sp_blocks_participated p + 1, sp_last_participation_timestamp := now\<rparr>) m
          else m)"

definition nw_is_banned :: "string \<Rightarrow> network_slashing \<Rightarrow> bool" where
  "nw_is_banned a m = (a \<in> set (nw_banned m))"

definition nw_can_validate :: "string \<Rightarrow> network_slashing \<Rightarrow> bool" where
  "nw_can_validate a m =
     (if \<not> nw_enforcement m then True
      else case bt_get (nw_profiles m) a of Some p \<Rightarrow> sp_status p = Active | None \<Rightarrow> True)"

definition nw_record_signature ::
    "string \<Rightarrow> u64 \<Rightarrow> string \<Rightarrow> u64 \<Rightarrow> network_slashing \<Rightarrow> (unit, nw_error) result \<times> network_slashing" where
  "nw_record_signature a block_height signature_hash timestamp m =
     (let m = nw_register_validator a m in
      case bt_get (nw_profiles m) a of
        None \<Rightarrow> (Err NwNotFound, m)
      | Some p \<Rightarrow>
          if list_ex (\<lambda>s. sr_block_height s = block_height \<and> sr_signature_hash s \<noteq> signature_hash) (sp_recent_signatures p)
          then (Err NwDoubleSigning, m)
          else
            (Ok (), nw_set a
               (p\<lparr>sp_recent_signatures :=
                  push_signature \<lparr>sr_block_height = block_height, sr_signature_hash = signature_hash, sr_timestamp = timestamp\<rparr>
                    (sp_recent_signatures p)\<rparr>) m))"

text \<open>The two penalties: the profile, the event and the total.\<close>

definition nw_punish ::
    "string \<Rightarrow> safety_profile \<Rightarrow> validator_status \<Rightarrow> slash_event \<Rightarrow> network_slashing \<Rightarrow> network_slashing" where
  "nw_punish a p status event m =
     (nw_set a
        (p\<lparr>sp_status := status, sp_total_slashed_cil := sp_total_slashed_cil p + se_slash_amount_cil event,
           sp_violation_count := sp_violation_count p + 1, sp_slash_history := sp_slash_history p @ [event]\<rparr>) m)
     \<lparr>nw_total_slashed := nw_total_slashed m + se_slash_amount_cil event\<rparr>"

definition nw_slash_double_signing ::
    "u64 \<Rightarrow> string \<Rightarrow> u64 \<Rightarrow> u128 \<Rightarrow> network_slashing \<Rightarrow> (slash_event, nw_error) result \<times> network_slashing" where
  "nw_slash_double_signing now a block_height stake m =
     (if \<not> nw_enforcement m then (Err NwDisabled, m)
      else
        let m = nw_register_validator a m in
        case bt_get (nw_profiles m) a of
          None \<Rightarrow> (Err NwNotFound, m)
        | Some p \<Rightarrow>
            if sp_status p = Banned then (Err NwAlreadyBanned, m)
            else
              let event = \<lparr>se_block_height = block_height, se_validator_address = a, se_violation_type = DoubleSigning,
                           se_slash_amount_cil = stake, se_slash_bps = DOUBLE_SIGNING_SLASH_BPS, se_timestamp = now\<rparr>;
                  m = nw_punish a p Banned event m
              in (Ok event, if a \<in> set (nw_banned m) then m else m\<lparr>nw_banned := nw_banned m @ [a]\<rparr>))"

definition nw_slash_downtime ::
    "u64 \<Rightarrow> string \<Rightarrow> u64 \<Rightarrow> u128 \<Rightarrow> network_slashing \<Rightarrow> (slash_event, nw_error) result \<times> network_slashing" where
  "nw_slash_downtime now a block_height stake m =
     (if \<not> nw_enforcement m then (Err NwDisabled, m)
      else
        let m = nw_register_validator a m in
        case bt_get (nw_profiles m) a of
          None \<Rightarrow> (Err NwNotFound, m)
        | Some p \<Rightarrow>
            if sp_status p = Banned then (Err NwAlreadyBanned, m)
            else
              let event = \<lparr>se_block_height = block_height, se_validator_address = a, se_violation_type = ExtendedDowntime,
                           se_slash_amount_cil = div_ceil (stake * ucast DOWNTIME_SLASH_BPS) 10000,
                           se_slash_bps = DOWNTIME_SLASH_BPS, se_timestamp = now\<rparr>
              in (Ok event, nw_punish a p (if sp_status p = Active then Slashed else sp_status p) event m))"

definition nw_uptime_bps :: "safety_profile \<Rightarrow> u32" where
  "nw_uptime_bps p =
     (if sp_total_blocks_observed p > 0
      then ucast (((ucast (sp_blocks_participated p) :: u128) * 10000) div ucast (sp_total_blocks_observed p)) else 0)"

definition nw_check_downtime ::
    "u64 \<Rightarrow> string \<Rightarrow> u64 \<Rightarrow> u128 \<Rightarrow> network_slashing \<Rightarrow> slash_event option \<times> network_slashing" where
  "nw_check_downtime now a block_height stake m =
     (case bt_get (nw_profiles m) a of
        None \<Rightarrow> (None, m)
      | Some p \<Rightarrow>
          let p = p\<lparr>sp_total_blocks_observed := block_height\<rparr>; m = nw_set a p m in
          if sp_total_blocks_observed p < DOWNTIME_WINDOW_BLOCKS then (None, m)
          else if nw_uptime_bps p < MIN_UPTIME_BPS
          then (case nw_slash_downtime now a block_height stake m of (Ok event, m) \<Rightarrow> (Some event, m) | (_, m) \<Rightarrow> (None, m))
          else (None, m))"

definition nw_restore_validator :: "string \<Rightarrow> network_slashing \<Rightarrow> (unit, nw_error) result \<times> network_slashing" where
  "nw_restore_validator a m =
     (case bt_get (nw_profiles m) a of
        None \<Rightarrow> (Err NwNotFound, m)
      | Some p \<Rightarrow>
          (case sp_status p of
             Slashed \<Rightarrow>
               (Ok (), nw_set a (p\<lparr>sp_status := Active, sp_blocks_participated := 0, sp_total_blocks_observed := 0\<rparr>) m)
           | Active \<Rightarrow> (Ok (), m)
           | Banned \<Rightarrow> (Err NwCannotRestoreBanned, m)
           | Unstaking \<Rightarrow> (Err NwUnstaking, m)))"

definition nw_with_status :: "validator_status \<Rightarrow> network_slashing \<Rightarrow> string list" where
  "nw_with_status st m = map fst (filter (\<lambda>(_, p). sp_status p = st) (nw_profiles m))"

definition nw_active_validators :: "network_slashing \<Rightarrow> string list" where
  "nw_active_validators m = nw_with_status Active m"

definition nw_all_banned_validators :: "network_slashing \<Rightarrow> string list" where
  "nw_all_banned_validators m = nw_with_status Banned m"

record nw_statistics =
  nt_total_validators :: u32
  nt_active_validators :: u32
  nt_banned_validators :: u32
  nt_total_violations :: u64
  nt_total_slashed_cil :: u128
  nt_enforcement_enabled :: bool

definition nw_get_statistics :: "network_slashing \<Rightarrow> nw_statistics" where
  "nw_get_statistics m =
     \<lparr>nt_total_validators = of_nat (length (nw_profiles m)), nt_active_validators = of_nat (length (nw_active_validators m)),
      nt_banned_validators = of_nat (length (nw_all_banned_validators m)),
      nt_total_violations = sum_list (map (\<lambda>p. ucast (sp_violation_count p)) (bt_values (nw_profiles m))),
      nt_total_slashed_cil = nw_total_slashed m, nt_enforcement_enabled = nw_enforcement m\<rparr>"

definition nw_set_enforcement :: "bool \<Rightarrow> network_slashing \<Rightarrow> network_slashing" where
  "nw_set_enforcement on m = m\<lparr>nw_enforcement := on\<rparr>"

section \<open>Runs\<close>

inductive nw_step :: "network_slashing \<Rightarrow> network_slashing \<Rightarrow> bool" where
  nw_step_register: "nw_step m (nw_register_validator a m)"
| nw_step_participate: "nw_step m (nw_record_participation now a m)"
| nw_step_signature: "nw_record_signature a h s t m = (r, m') \<Longrightarrow> nw_step m m'"
| nw_step_double: "nw_slash_double_signing now a h stake m = (r, m') \<Longrightarrow> nw_step m m'"
| nw_step_downtime: "nw_slash_downtime now a h stake m = (r, m') \<Longrightarrow> nw_step m m'"
| nw_step_check: "nw_check_downtime now a h stake m = (r', m') \<Longrightarrow> nw_step m m'"
| nw_step_restore: "nw_restore_validator a m = (r'', m') \<Longrightarrow> nw_step m m'"
| nw_step_enforce: "nw_step m (nw_set_enforcement on m)"

definition history_total :: "safety_profile \<Rightarrow> u128" where
  "history_total p = sum_list (map se_slash_amount_cil (sp_slash_history p))"

definition profile_sum :: "(safety_profile \<Rightarrow> u128) \<Rightarrow> (string, safety_profile) btree_map \<Rightarrow> u128" where
  "profile_sum f m = sum_list (map (\<lambda>e. f (snd e)) m)"

definition nw_inv :: "network_slashing \<Rightarrow> bool" where
  "nw_inv m \<longleftrightarrow> bt_ok (nw_profiles m) \<and> distinct (nw_banned m)
     \<and> (\<forall>a. a \<in> set (nw_banned m) \<longleftrightarrow> (\<exists>p. bt_get (nw_profiles m) a = Some p \<and> sp_status p = Banned))
     \<and> (\<forall>a p. bt_get (nw_profiles m) a = Some p \<longrightarrow> history_total p = sp_total_slashed_cil p)
     \<and> profile_sum sp_total_slashed_cil (nw_profiles m) = nw_total_slashed m"

lemma nw_inv_new: "nw_inv nw_new"
  by (simp add: nw_inv_def nw_new_def profile_sum_def)

lemma profile_sum_insert:
  assumes "bt_ok m"
  shows "profile_sum f (bt_insert k v m) + (case bt_get m k of None \<Rightarrow> 0 | Some v' \<Rightarrow> f v') = profile_sum f m + f v"
  using assms
proof (induction m)
  case (Cons e es)
  have "bt_get es k = None" if "fst e = k \<or> k < fst e"
    by (rule bt_get_absent) (use Cons.prems that in \<open>auto simp: bt_ok_Cons\<close>)
  with Cons show ?case by (auto simp: profile_sum_def bt_ok_Cons algebra_simps split: option.splits)
qed (simp add: profile_sum_def)

section \<open>The invariant\<close>

text \<open>A profile may be replaced by one with the same record of slashes that is banned or not as before.\<close>

lemma nw_set_keeps:
  assumes "nw_inv m" "bt_get (nw_profiles m) a = Some p" "sp_status q = Banned \<longleftrightarrow> sp_status p = Banned"
    and "sp_total_slashed_cil q = sp_total_slashed_cil p" "sp_slash_history q = sp_slash_history p"
  shows "nw_inv (nw_set a q m)"
proof -
  have ok: "bt_ok (nw_profiles m)" using assms(1) by (simp add: nw_inv_def)
  have "profile_sum sp_total_slashed_cil (bt_insert a q (nw_profiles m)) = profile_sum sp_total_slashed_cil (nw_profiles m)"
    using profile_sum_insert [OF ok, of sp_total_slashed_cil a q] assms(2,4) by simp
  with assms show ?thesis by (auto simp: nw_inv_def nw_set_def history_total_def split: if_splits)
qed

lemma nw_register_keeps:
  assumes "nw_inv m"
  shows "nw_inv (nw_register_validator a m)" "bt_get (nw_profiles (nw_register_validator a m)) a \<noteq> None"
    "nw_banned (nw_register_validator a m) = nw_banned m"
proof -
  have ok: "bt_ok (nw_profiles m)" using assms by (simp add: nw_inv_def)
  show "nw_inv (nw_register_validator a m)"
  proof (cases "bt_get (nw_profiles m) a")
    case None
    with profile_sum_insert [OF ok, of sp_total_slashed_cil a "safety_profile_new a"] assms show ?thesis
      by (auto simp: nw_register_validator_def bt_contains_def nw_set_def nw_inv_def history_total_def safety_profile_new_def
          split: if_splits)
  qed (use assms in \<open>simp add: nw_register_validator_def bt_contains_def\<close>)
qed (auto simp: nw_register_validator_def bt_contains_def nw_set_def)

lemma nw_punish_keeps:
  assumes "nw_inv m" "bt_get (nw_profiles m) a = Some p" "sp_status p \<noteq> Banned"
  shows "status \<noteq> Banned \<Longrightarrow> nw_inv (nw_punish a p status event m)"
    and "nw_inv ((nw_punish a p Banned event m)\<lparr>nw_banned := nw_banned m @ [a]\<rparr>)" "a \<notin> set (nw_banned m)"
proof -
  have ok: "bt_ok (nw_profiles m)" using assms(1) by (simp add: nw_inv_def)
  have hist: "history_total p = sp_total_slashed_cil p" using assms(1,2) by (simp add: nw_inv_def)
  let ?q = "\<lambda>status. p\<lparr>sp_status := status, sp_total_slashed_cil := sp_total_slashed_cil p + se_slash_amount_cil event,
    sp_violation_count := sp_violation_count p + 1, sp_slash_history := sp_slash_history p @ [event]\<rparr>"
  have h: "history_total (?q status) = sp_total_slashed_cil p + se_slash_amount_cil event" for status
    using hist by (simp add: history_total_def)
  have sum: "profile_sum sp_total_slashed_cil (bt_insert a (?q status) (nw_profiles m))
      = profile_sum sp_total_slashed_cil (nw_profiles m) + se_slash_amount_cil event" for status
    using profile_sum_insert [OF ok, of sp_total_slashed_cil a "?q status"] assms(2) by (simp add: algebra_simps)
  show no: "a \<notin> set (nw_banned m)" using assms by (auto simp: nw_inv_def)
  show "nw_inv (nw_punish a p status event m)" if "status \<noteq> Banned"
    using assms that no by (auto simp: nw_inv_def nw_punish_def nw_set_def sum h split: if_splits)
  show "nw_inv ((nw_punish a p Banned event m)\<lparr>nw_banned := nw_banned m @ [a]\<rparr>)"
    using assms no by (auto simp: nw_inv_def nw_punish_def nw_set_def sum h split: if_splits)
qed

lemma nw_downtime_keeps:
  assumes "nw_inv m" "nw_slash_downtime now a h stake m = (r, m')"
  shows "nw_inv m' \<and> nw_banned m' = nw_banned m"
proof -
  let ?m = "nw_register_validator a m"
  obtain p where p: "bt_get (nw_profiles ?m) a = Some p" using nw_register_keeps(2) [OF assms(1)] by blast
  show ?thesis
  proof (cases "sp_status p = Banned")
    case False
    then have "(if sp_status p = Active then Slashed else sp_status p) \<noteq> Banned" by simp
    note pun = nw_punish_keeps(1) [OF nw_register_keeps(1) [OF assms(1)] p False this]
    have b: "nw_banned (nw_punish a p st event ?m) = nw_banned m" for st event
      by (simp add: nw_punish_def nw_set_def nw_register_keeps(3) [OF assms(1)])
    from assms(2) False p have "m' = m \<or> (\<exists>event. m' = nw_punish a p (if sp_status p = Active then Slashed else sp_status p) event ?m)"
      unfolding nw_slash_downtime_def Let_def by (auto simp del: if_split_asm split: if_split_asm)
    then show ?thesis
    proof (elim disjE exE)
      fix event assume "m' = nw_punish a p (if sp_status p = Active then Slashed else sp_status p) event ?m"
      then show ?thesis using pun [of event] b by simp
    qed (use assms(1) in simp)
  qed (use assms p nw_register_keeps in \<open>auto simp: nw_slash_downtime_def Let_def split: if_splits\<close>)
qed

lemma nw_step_keeps:
  assumes "nw_step m m'" "nw_inv m"
  shows "nw_inv m' \<and> set (nw_banned m) \<subseteq> set (nw_banned m')"
  using assms(1)
proof (cases rule: nw_step.cases)
  case (nw_step_signature a h s t r)
  obtain p where p: "bt_get (nw_profiles (nw_register_validator a m)) a = Some p" using nw_register_keeps(2) [OF assms(2)] by blast
  note reg = nw_register_keeps [OF assms(2), of a]
  have i: "nw_inv (nw_set a (p\<lparr>sp_recent_signatures := sigs\<rparr>) (nw_register_validator a m))" for sigs
    by (rule nw_set_keeps [OF reg(1) p]) simp_all
  have b: "nw_banned (nw_set a q (nw_register_validator a m)) = nw_banned m" for q by (simp add: nw_set_def reg(3))
  from nw_step_signature p reg i b show ?thesis by (auto simp: nw_record_signature_def Let_def split: if_splits)
next
  case (nw_step_double now a h stake r)
  let ?m = "nw_register_validator a m"
  obtain p where p: "bt_get (nw_profiles ?m) a = Some p" using nw_register_keeps(2) [OF assms(2)] by blast
  note reg = nw_register_keeps [OF assms(2), of a]
  show ?thesis
  proof (cases "sp_status p = Banned")
    case False
    note pun = nw_punish_keeps(2,3) [OF reg(1) p False]
    have "nw_banned (nw_punish a p Banned event ?m) = nw_banned ?m" for event by (simp add: nw_punish_def nw_set_def)
    with pun False p nw_step_double assms(2) reg(3) show ?thesis
      by (auto simp: nw_slash_double_signing_def Let_def split: if_splits)
  qed (use nw_step_double assms(2) p reg in \<open>auto simp: nw_slash_double_signing_def Let_def split: if_splits\<close>)
next
  case (nw_step_downtime now a h stake r)
  from nw_downtime_keeps [OF assms(2) this] show ?thesis by simp
next
  case (nw_step_check now a h stake r)
  show ?thesis
  proof (cases "bt_get (nw_profiles m) a")
    case (Some p)
    let ?m = "nw_set a (p\<lparr>sp_total_blocks_observed := h\<rparr>) m"
    have i: "nw_inv ?m" using nw_set_keeps [OF assms(2) Some] by simp
    have b: "nw_banned ?m = nw_banned m" by (simp add: nw_set_def)
    obtain r2 m2 where d: "nw_slash_downtime now a h stake ?m = (r2, m2)" by fastforce
    from nw_downtime_keeps [OF i d] have "nw_inv m2 \<and> nw_banned m2 = nw_banned m" by (simp add: b)
    with nw_step_check Some i b d show ?thesis by (auto simp: nw_check_downtime_def Let_def split: if_splits result.splits)
  qed (use nw_step_check assms(2) in \<open>simp add: nw_check_downtime_def\<close>)
next
  case (nw_step_restore a r)
  show ?thesis
  proof (cases "bt_get (nw_profiles m) a")
    case (Some p)
    then have "sp_status p = Slashed \<Longrightarrow>
        nw_inv (nw_set a (p\<lparr>sp_status := Active, sp_blocks_participated := 0, sp_total_blocks_observed := 0\<rparr>) m)"
      using nw_set_keeps [OF assms(2) Some] by simp
    with nw_step_restore Some assms(2) show ?thesis
      by (auto simp: nw_restore_validator_def nw_set_def split: validator_status.splits)
  qed (use nw_step_restore assms(2) in \<open>simp add: nw_restore_validator_def\<close>)
next
  case (nw_step_participate now a)
  show ?thesis
  proof (cases "bt_get (nw_profiles m) a")
    case (Some p)
    then show ?thesis
      using nw_set_keeps [OF assms(2) Some] nw_step_participate assms(2)
      by (simp add: nw_record_participation_def) (simp add: nw_set_def)
  qed (use nw_step_participate assms(2) in \<open>simp add: nw_record_participation_def\<close>)
next
  case (nw_step_register a)
  then show ?thesis using nw_register_keeps [OF assms(2)] by simp
next
  case (nw_step_enforce on)
  then show ?thesis using assms(2) by (simp add: nw_set_enforcement_def nw_inv_def)
qed

interpretation nw_sys: invariant_system nw_step nw_inv
  by unfold_locales (simp add: nw_step_keeps)

text \<open>C38: the two records of bans. In every state that a manager reaches, the list of banned validators names
  exactly the validators whose profile is banned, the total of the network is the sum of the totals of the profiles,
  each of which is the sum of its history, and whoever is banned stays banned.\<close>

theorem banned_list_matches_profiles:
  assumes "nw_step\<^sup>*\<^sup>* nw_new m"
  shows "set (nw_banned m) = set (nw_all_banned_validators m) \<and> distinct (nw_banned m)
    \<and> nw_total_slashed m = profile_sum history_total (nw_profiles m)
    \<and> (\<forall>m' a. nw_step\<^sup>*\<^sup>* m m' \<and> nw_is_banned a m \<longrightarrow> nw_is_banned a m' \<and> (nw_enforcement m' \<longrightarrow> \<not> nw_can_validate a m'))"
proof (intro conjI allI impI; (elim conjE)?)
  have inv: "nw_inv m" by (rule nw_sys.reach_inv [OF assms nw_inv_new])
  then have ok: "bt_ok (nw_profiles m)" by (simp add: nw_inv_def)
  have e: "a \<in> set (nw_all_banned_validators m) \<longleftrightarrow> (\<exists>p. bt_get (nw_profiles m) a = Some p \<and> sp_status p = Banned)" for a
    using ok by (force simp: nw_all_banned_validators_def nw_with_status_def bt_entries_get)
  show "set (nw_banned m) = set (nw_all_banned_validators m)" using inv e by (auto simp: nw_inv_def)
  show "distinct (nw_banned m)" using inv by (simp add: nw_inv_def)
  have "profile_sum history_total (nw_profiles m) = profile_sum sp_total_slashed_cil (nw_profiles m)"
    unfolding profile_sum_def using inv ok by (intro arg_cong [where f = sum_list] map_cong refl) (auto simp: nw_inv_def bt_entries_get)
  then show "nw_total_slashed m = profile_sum history_total (nw_profiles m)" using inv by (simp add: nw_inv_def)
  fix m' a assume r: "nw_step\<^sup>*\<^sup>* m m'" and b: "nw_is_banned a m"
  have "set (nw_banned m) \<subseteq> set (nw_banned m')"
    by (rule nw_sys.reach_rel [OF r inv, where R = "\<lambda>m m'. set (nw_banned m) \<subseteq> set (nw_banned m')"]) (auto dest: nw_step_keeps)
  then show bm: "nw_is_banned a m'" using b by (auto simp: nw_is_banned_def)
  have "nw_inv m'" by (rule nw_sys.reach_inv [OF r inv])
  then show "\<not> nw_can_validate a m'" if "nw_enforcement m'" using bm that by (auto simp: nw_is_banned_def nw_inv_def nw_can_validate_def)
qed

definition nw_demo :: network_slashing where
  "nw_demo = snd (nw_slash_double_signing 9 ''v'' 7 1000 nw_new)"

lemma nw_demo_reach: "nw_step\<^sup>*\<^sup>* nw_new nw_demo"
  by (rule r_into_rtranclp, rule nw_step_double [of 9 "''v''" 7 1000 _ "fst (nw_slash_double_signing 9 ''v'' 7 1000 nw_new)"])
    (simp add: nw_demo_def)

theorem banned_list_matches_profiles_witness:
  "set (nw_banned nw_demo) = set (nw_all_banned_validators nw_demo) \<and> nw_banned nw_demo = [''v''] \<and> nw_total_slashed nw_demo = 1000"
  using banned_list_matches_profiles [OF nw_demo_reach]
  by (simp add: nw_demo_def nw_slash_double_signing_def nw_new_def nw_register_validator_def bt_contains_def nw_set_def
      nw_punish_def Let_def safety_profile_new_def)

text \<open>Nothing is reset after a downtime slash, so that the next check slashes again.\<close>

lemma downtime_slashed_again:
  assumes "nw_check_downtime now a h stake m = (Some e, m1)"
  shows "\<exists>e' m2. nw_check_downtime now' a h stake m1 = (Some e', m2)"
proof -
  obtain p where p: "bt_get (nw_profiles m) a = Some p" using assms(1) by (cases "bt_get (nw_profiles m) a") (auto simp: nw_check_downtime_def)
  then show ?thesis
    using assms(1)
    by (auto simp: nw_check_downtime_def Let_def nw_slash_downtime_def nw_register_validator_def bt_contains_def nw_set_def nw_punish_def
        nw_uptime_bps_def split: if_splits result.splits)
qed

end
