(* ===== verification/Network_Fees.thy ===== *)
theory Network_Fees
  imports BTree_Map Step_Systems
begin

text \<open>
  Fees of the network crate: the spam detector and the burn limit per block (\<open>los-network/src/fee_scaling.rs\<close>), the gas
  fee and the reward accounts of the block producers (\<open>los-network/src/validator_rewards.rs\<close>). Shown here: the factor that
  the detector answers depends only on how often the sender has appeared in the same second, whatever else it was asked
  before; the fee of a transaction is the exact natural number or an error; the burns of a block never exceed the
  limit; nothing of the collected fees is lost between what is pending and what was claimed. The power of the detector
  wraps around, so that a burst that is long enough pays nothing.
\<close>

section \<open>The spam detector\<close>

definition RATE_LIMIT_WINDOW_SECS :: u64 where
  "RATE_LIMIT_WINDOW_SECS = 1"

definition SPAM_THRESHOLD_TX_PER_SEC :: u32 where
  "SPAM_THRESHOLD_TX_PER_SEC = 10"

definition SPAM_SCALING_FACTOR :: u32 where
  "SPAM_SCALING_FACTOR = 2"

record address_spam_state =
  as_recent_tx_timestamps :: "u64 list"
  as_fee_multiplier :: u128
  as_last_reset_timestamp :: u64
  as_spam_violations :: u32

definition spam_state_default :: address_spam_state where
  "spam_state_default =
     \<lparr>as_recent_tx_timestamps = [], as_fee_multiplier = 1, as_last_reset_timestamp = 0, as_spam_violations = 0\<rparr>"

record spam_detector =
  sd_address_states :: "(string, address_spam_state) btree_map"
  sd_spam_threshold :: u32
  sd_scaling_factor :: u32

definition spam_detector_new :: "u32 \<Rightarrow> u32 \<Rightarrow> spam_detector" where
  "spam_detector_new threshold factor =
     \<lparr>sd_address_states = [], sd_spam_threshold = threshold, sd_scaling_factor = factor\<rparr>"

definition spam_default_config :: spam_detector where
  "spam_default_config = spam_detector_new SPAM_THRESHOLD_TX_PER_SEC SPAM_SCALING_FACTOR"

definition spam_state_of :: "string \<Rightarrow> spam_detector \<Rightarrow> address_spam_state" where
  "spam_state_of a d = (case bt_get (sd_address_states d) a of Some st \<Rightarrow> st | None \<Rightarrow> spam_state_default)"

definition spam_check_and_update :: "string \<Rightarrow> u64 \<Rightarrow> spam_detector \<Rightarrow> u128 \<times> spam_detector" where
  "spam_check_and_update sender current d =
     (let st = spam_state_of sender d;
          recent = filter (\<lambda>ts. saturating_sub current ts < RATE_LIMIT_WINDOW_SECS) (as_recent_tx_timestamps st);
          tx_count = (of_nat (length recent) :: u32);
          put = (\<lambda>st. d\<lparr>sd_address_states := bt_insert sender st (sd_address_states d)\<rparr>)
      in if sd_spam_threshold d \<le> tx_count
         then
           let excess = tx_count - sd_spam_threshold d + 1;
               multiplier = (ucast (sd_scaling_factor d) :: u128) ^ unat excess
           in (multiplier, put (st\<lparr>as_fee_multiplier := multiplier, as_spam_violations := as_spam_violations st + 1,
                                   as_recent_tx_timestamps := recent @ [current]\<rparr>))
         else (1, put (st\<lparr>as_fee_multiplier := 1, as_recent_tx_timestamps := recent @ [current]\<rparr>)))"

definition spam_get_multiplier :: "string \<Rightarrow> spam_detector \<Rightarrow> u128" where
  "spam_get_multiplier a d =
     (case map_option as_fee_multiplier (bt_get (sd_address_states d) a) of Some f \<Rightarrow> f | None \<Rightarrow> 1)"

definition spam_reset_multiplier :: "string \<Rightarrow> u64 \<Rightarrow> spam_detector \<Rightarrow> spam_detector" where
  "spam_reset_multiplier a current d =
     (case bt_get (sd_address_states d) a of
        None \<Rightarrow> d
      | Some st \<Rightarrow>
          if RATE_LIMIT_WINDOW_SECS < saturating_sub current (as_last_reset_timestamp st)
          then d\<lparr>sd_address_states := bt_insert a
                   (st\<lparr>as_fee_multiplier := 1, as_recent_tx_timestamps := [], as_last_reset_timestamp := current\<rparr>)
                   (sd_address_states d)\<rparr>
          else d)"

definition spam_get_state :: "string \<Rightarrow> spam_detector \<Rightarrow> address_spam_state option" where
  "spam_get_state a d = bt_get (sd_address_states d) a"

definition spam_get_violators :: "spam_detector \<Rightarrow> (string \<times> u32) list" where
  "spam_get_violators d =
     map (\<lambda>(a, st). (a, as_spam_violations st)) (filter (\<lambda>(_, st). 0 < as_spam_violations st) (sd_address_states d))"

definition spam_clear_all :: "spam_detector \<Rightarrow> spam_detector" where
  "spam_clear_all d = d\<lparr>sd_address_states := []\<rparr>"

section \<open>Fees\<close>

definition MAX_GAS_PER_TX :: u128 where
  "MAX_GAS_PER_TX = 10000000"

definition BASE_GAS_PRICE_CIL :: u128 where
  "BASE_GAS_PRICE_CIL = 1000"

definition GAS_PER_BYTE :: u64 where
  "GAS_PER_BYTE = 10"

datatype fee_error = FeeExceedsMaximum u128 | BurnExceedsCapacity u128 u128 u128 | NoPendingRewards | UnknownValidator

definition apply_fee_multiplier :: "u128 \<Rightarrow> u128 \<Rightarrow> (u128, fee_error) result" where
  "apply_fee_multiplier base_fee multiplier =
     (let final_fee = saturating_mul base_fee multiplier
      in if MAX_GAS_PER_TX < final_fee then Err (FeeExceedsMaximum final_fee) else Ok final_fee)"

definition calculate_escalation_multiplier :: "u32 \<Rightarrow> u32 \<Rightarrow> u128" where
  "calculate_escalation_multiplier current_violations base_factor =
     (if current_violations = 0 then 1 else ucast base_factor ^ unat current_violations)"

definition calculate_gas_fee :: "u64 \<Rightarrow> u128 \<Rightarrow> u64 \<Rightarrow> u128 \<Rightarrow> (u128, fee_error) result" where
  "calculate_gas_fee tx_size_bytes base_price_cil gas_per_byte fee_multiplier =
     (let size_fee = ucast tx_size_bytes * ucast gas_per_byte;
          base_fee = base_price_cil + size_fee;
          total_fee = saturating_mul base_fee fee_multiplier
      in if MAX_GAS_PER_TX < total_fee then Err (FeeExceedsMaximum total_fee) else Ok total_fee)"

definition calculate_transaction_fee :: "u128 \<Rightarrow> u128 \<Rightarrow> (u128, fee_error) result" where
  "calculate_transaction_fee base_fee priority_tip =
     (let total_fee = saturating_add base_fee priority_tip
      in if MAX_GAS_PER_TX < total_fee then Err (FeeExceedsMaximum total_fee) else Ok total_fee)"

record transaction_fee =
  tf_base_fee_cil :: u128
  tf_priority_tip_cil :: u128
  tf_total_fee_cil :: u128
  tf_multiplier :: u128
  tf_timestamp :: u64

definition build_transaction_fee :: "u64 \<Rightarrow> u128 \<Rightarrow> u128 \<Rightarrow> u64 \<Rightarrow> (transaction_fee, fee_error) result" where
  "build_transaction_fee tx_size_bytes priority_tip_cil fee_multiplier timestamp =
     (case calculate_gas_fee tx_size_bytes BASE_GAS_PRICE_CIL GAS_PER_BYTE fee_multiplier of
        Err e \<Rightarrow> Err e
      | Panic \<Rightarrow> Panic
      | Ok base_fee \<Rightarrow>
          (case calculate_transaction_fee base_fee priority_tip_cil of
             Err e \<Rightarrow> Err e
           | Panic \<Rightarrow> Panic
           | Ok total_fee \<Rightarrow>
               Ok \<lparr>tf_base_fee_cil = base_fee, tf_priority_tip_cil = priority_tip_cil, tf_total_fee_cil = total_fee,
                   tf_multiplier = fee_multiplier, tf_timestamp = timestamp\<rparr>))"

section \<open>The burn limit of a block\<close>

definition BURN_LIMIT_PER_BLOCK_CIL :: u128 where
  "BURN_LIMIT_PER_BLOCK_CIL = 1000 * 100000000000"

record block_burn_state =
  bb_block_height :: u64
  bb_total_burn_cil :: u128
  bb_burn_count :: u32
  bb_remaining_capacity :: u128

definition block_burn_new :: "u64 \<Rightarrow> block_burn_state" where
  "block_burn_new h =
     \<lparr>bb_block_height = h, bb_total_burn_cil = 0, bb_burn_count = 0, bb_remaining_capacity = BURN_LIMIT_PER_BLOCK_CIL\<rparr>"

definition try_add_burn :: "u128 \<Rightarrow> block_burn_state \<Rightarrow> (bool, fee_error) result \<times> block_burn_state" where
  "try_add_burn amount b =
     (if bb_remaining_capacity b < amount
      then (Err (BurnExceedsCapacity amount (bb_remaining_capacity b) (bb_total_burn_cil b)), b)
      else
        let b = b\<lparr>bb_total_burn_cil := bb_total_burn_cil b + amount,
                  bb_remaining_capacity := saturating_sub (bb_remaining_capacity b) amount,
                  bb_burn_count := bb_burn_count b + 1\<rparr>
        in (Ok (0 < bb_remaining_capacity b), b))"

definition is_capacity_exhausted :: "block_burn_state \<Rightarrow> bool" where
  "is_capacity_exhausted b = (bb_remaining_capacity b = 0)"

definition get_capacity_percentage_bps :: "block_burn_state \<Rightarrow> u32" where
  "get_capacity_percentage_bps b =
     (let used = BURN_LIMIT_PER_BLOCK_CIL - bb_remaining_capacity b
      in ucast ((used * 10000) div BURN_LIMIT_PER_BLOCK_CIL))"

section \<open>Reward accounts\<close>

record reward_account =
  ra_total_rewards_cil :: u128
  ra_pending_rewards_cil :: u128
  ra_last_claim_timestamp :: u64
  ra_blocks_produced :: u64

definition reward_account_default :: reward_account where
  "reward_account_default =
     \<lparr>ra_total_rewards_cil = 0, ra_pending_rewards_cil = 0, ra_last_claim_timestamp = 0, ra_blocks_produced = 0\<rparr>"

record validator_reward =
  vr_validator_address :: string
  vr_collected_fees_cil :: u128
  vr_tx_count :: u32
  vr_block_height :: u64
  vr_timestamp :: u64

definition distribute_transaction_fees ::
    "u64 \<Rightarrow> string \<Rightarrow> u128 \<Rightarrow> reward_account \<Rightarrow> validator_reward \<times> reward_account" where
  "distribute_transaction_fees now a total_fees_cil acc =
     (\<lparr>vr_validator_address = a, vr_collected_fees_cil = total_fees_cil, vr_tx_count = 0, vr_block_height = 0, vr_timestamp = now\<rparr>,
      acc\<lparr>ra_pending_rewards_cil := ra_pending_rewards_cil acc + total_fees_cil,
          ra_total_rewards_cil := ra_total_rewards_cil acc + total_fees_cil\<rparr>)"

definition claim_rewards :: "u64 \<Rightarrow> reward_account \<Rightarrow> (u128, fee_error) result \<times> reward_account" where
  "claim_rewards timestamp acc =
     (if ra_pending_rewards_cil acc = 0 then (Err NoPendingRewards, acc)
      else (Ok (ra_pending_rewards_cil acc), acc\<lparr>ra_pending_rewards_cil := 0, ra_last_claim_timestamp := timestamp\<rparr>))"

type_synonym reward_accounts = "(string, reward_account) btree_map"

definition reward_account_of :: "string \<Rightarrow> reward_accounts \<Rightarrow> reward_account" where
  "reward_account_of a rewards = (case bt_get rewards a of Some acc \<Rightarrow> acc | None \<Rightarrow> reward_account_default)"

definition accumulate_block_rewards ::
    "u64 \<Rightarrow> string \<Rightarrow> u128 \<Rightarrow> reward_accounts \<Rightarrow> validator_reward \<times> reward_accounts" where
  "accumulate_block_rewards now a total_fees_cil rewards =
     (let acc = reward_account_of a rewards;
          (r, acc) = distribute_transaction_fees now a total_fees_cil (acc\<lparr>ra_blocks_produced := ra_blocks_produced acc + 1\<rparr>)
      in (r, bt_insert a acc rewards))"

definition get_pending_rewards :: "string \<Rightarrow> reward_accounts \<Rightarrow> (u128, fee_error) result" where
  "get_pending_rewards a rewards =
     (case bt_get rewards a of Some acc \<Rightarrow> Ok (ra_pending_rewards_cil acc) | None \<Rightarrow> Err UnknownValidator)"

definition get_total_rewards :: "string \<Rightarrow> reward_accounts \<Rightarrow> (u128, fee_error) result" where
  "get_total_rewards a rewards =
     (case bt_get rewards a of Some acc \<Rightarrow> Ok (ra_total_rewards_cil acc) | None \<Rightarrow> Err UnknownValidator)"

definition finalize_block_rewards ::
    "u64 \<Rightarrow> string \<Rightarrow> transaction_fee list \<Rightarrow> u64 \<Rightarrow> reward_accounts \<Rightarrow> validator_reward \<times> reward_accounts" where
  "finalize_block_rewards now a transaction_fees block_height rewards =
     (let total_fees = sum_list (map tf_total_fee_cil transaction_fees);
          acc = reward_account_of a rewards;
          acc = acc\<lparr>ra_pending_rewards_cil := ra_pending_rewards_cil acc + total_fees,
                    ra_total_rewards_cil := ra_total_rewards_cil acc + total_fees,
                    ra_blocks_produced := ra_blocks_produced acc + 1\<rparr>
      in (\<lparr>vr_validator_address = a, vr_collected_fees_cil = total_fees, vr_tx_count = of_nat (length transaction_fees),
           vr_block_height = block_height, vr_timestamp = now\<rparr>,
          bt_insert a acc rewards))"

record validator_reward_stats =
  vs_validator_address :: string
  vs_total_rewards_cil :: u128
  vs_total_rewards_los :: u128
  vs_pending_rewards_cil :: u128
  vs_blocks_produced :: u64
  vs_average_fee_per_block_cil :: u128

definition reward_stats :: "string \<Rightarrow> reward_account \<Rightarrow> validator_reward_stats" where
  "reward_stats a acc =
     \<lparr>vs_validator_address = a, vs_total_rewards_cil = ra_total_rewards_cil acc,
      vs_total_rewards_los = ra_total_rewards_cil acc div 100000000000, vs_pending_rewards_cil = ra_pending_rewards_cil acc,
      vs_blocks_produced = ra_blocks_produced acc,
      vs_average_fee_per_block_cil =
        (if 0 < ra_blocks_produced acc then ra_total_rewards_cil acc div ucast (ra_blocks_produced acc) else 0)\<rparr>"

definition get_validator_stats :: "string \<Rightarrow> reward_accounts \<Rightarrow> (validator_reward_stats, fee_error) result" where
  "get_validator_stats a rewards =
     (case bt_get rewards a of Some acc \<Rightarrow> Ok (reward_stats a acc) | None \<Rightarrow> Err UnknownValidator)"

definition get_all_validator_stats :: "reward_accounts \<Rightarrow> validator_reward_stats list" where
  "get_all_validator_stats rewards = map (\<lambda>(a, acc). reward_stats a acc) rewards"

text \<open>The share of one confirming validator in the fee of a block (\<open>los-node/src/validator_rewards.rs\<close>).\<close>

definition calculate_validator_reward :: "u128 \<Rightarrow> u32 \<Rightarrow> u128" where
  "calculate_validator_reward block_fee_cil validator_count =
     (if validator_count = 0 \<or> block_fee_cil = 0 then 0 else block_fee_cil div ucast validator_count)"

lemma shares_within_fee: "unat n * unat (calculate_validator_reward fee n) \<le> unat fee"
  by (simp add: calculate_validator_reward_def unat_div_distrib unat_ucast_widen)

section \<open>What the detector answers\<close>

text \<open>A history of questions, oldest first.\<close>

primrec spam_history :: "(string \<times> u64) list \<Rightarrow> spam_detector \<Rightarrow> spam_detector" where
  "spam_history [] d = d"
| "spam_history (q # qs) d = spam_history qs (snd (spam_check_and_update (fst q) (snd q) d))"

lemma spam_history_snoc:
  "spam_history (qs @ [q]) d = snd (spam_check_and_update (fst q) (snd q) (spam_history qs d))"
  by (induction qs arbitrary: d) simp_all

lemma in_window: "saturating_sub t ts < RATE_LIMIT_WINDOW_SECS \<longleftrightarrow> t \<le> ts"
  by (simp add: word_less_nat_alt word_le_nat_alt unat_saturating_sub RATE_LIMIT_WINDOW_SECS_def)

lemma spam_config_kept:
  "sd_spam_threshold (spam_history qs d) = sd_spam_threshold d \<and> sd_scaling_factor (spam_history qs d) = sd_scaling_factor d"
  by (induction qs arbitrary: d) (simp_all add: spam_check_and_update_def Let_def)

lemma spam_recent_step:
  "as_recent_tx_timestamps (spam_state_of a (snd (spam_check_and_update b t d))) =
     (if a = b then filter (\<lambda>ts. t \<le> ts) (as_recent_tx_timestamps (spam_state_of a d)) @ [t]
      else as_recent_tx_timestamps (spam_state_of a d))"
  by (simp add: spam_check_and_update_def Let_def spam_state_of_def in_window)

text \<open>The questions come in the order of their times: then the recent transactions of a sender are those it had in the
  last second it was seen in, and as far as a later second counts, they are all.\<close>

lemma spam_recent_counts:
  fixes a :: string and threshold factor :: u32
  assumes "sorted (map snd qs)" "\<forall>q \<in> set qs. snd q \<le> t"
  defines "recent \<equiv> as_recent_tx_timestamps (spam_state_of a (spam_history qs (spam_detector_new threshold factor)))"
  shows "(\<forall>ts \<in> set recent. ts \<le> t) \<and> length (filter (\<lambda>ts. t \<le> ts) recent) = count_list qs (a, t)"
  using assms(1,2) unfolding recent_def
proof (induction qs arbitrary: t rule: rev_induct)
  case Nil
  then show ?case by (simp add: spam_state_of_def spam_detector_new_def spam_state_default_def)
next
  case (snoc q qs)
  obtain b s where q: "q = (b, s)" by (cases q)
  let ?r = "as_recent_tx_timestamps (spam_state_of a (spam_history qs (spam_detector_new threshold factor)))"
  from snoc.prems q have st: "s \<le> t" and qs: "sorted (map snd qs)" "\<forall>q \<in> set qs. snd q \<le> s" "\<forall>q \<in> set qs. snd q \<le> t"
    by (auto simp: sorted_append)
  note ih = snoc.IH [OF qs(1,2)] and iht = snoc.IH [OF qs(1,3)]
  have "filter (\<lambda>ts. s \<le> ts \<and> t \<le> ts) ?r = filter (\<lambda>ts. t \<le> ts) ?r"
    using st by (intro filter_cong) auto
  then show ?case using ih iht st by (auto simp: spam_history_snoc q spam_recent_step count_list_append)
qed

lemma spam_factor_of_second_aux:
  fixes a :: string and t :: u64
  assumes "sorted (map snd qs)" "\<forall>q \<in> set qs. snd q \<le> t" "length qs + 1 < 2 ^ 32"
  defines "n \<equiv> count_list qs (a, t)"
  shows "fst (spam_check_and_update a t (spam_history qs (spam_detector_new threshold factor))) =
    (if n < unat threshold then 1 else ucast factor ^ (n - unat threshold + 1))"
proof -
  let ?d = "spam_history qs (spam_detector_new threshold factor)"
  have len: "length (filter (\<lambda>ts. t \<le> ts) (as_recent_tx_timestamps (spam_state_of a ?d))) = n"
    using spam_recent_counts [OF assms(1,2)] by (simp add: n_def)
  have "n \<le> length qs" unfolding n_def by (rule count_le_length)
  then have n: "n + 1 < 2 ^ 32" using assms(3) by linarith
  then have un: "unat (of_nat n :: u32) = n" by (simp add: unat_of_nat_small)
  have ex: "unat (of_nat n - threshold + 1) = n - unat threshold + 1" if "unat threshold \<le> n"
  proof -
    have "unat (of_nat n - threshold) = n - unat threshold"
      using that un by (simp add: unat_sub_exact word_le_nat_alt)
    then show ?thesis using that n by (subst unat_add_exact) auto
  qed
  show ?thesis
    using len spam_config_kept [of qs "spam_detector_new threshold factor"] un ex
    by (auto simp: spam_check_and_update_def Let_def in_window word_le_nat_alt spam_detector_new_def)
qed

text \<open>The factor of a transaction. Whatever a fresh detector was asked before, in the order of time and with any
  mixture of senders, the factor of the next transaction depends only on how many transactions of the same sender it
  has seen in the same second: one below the threshold, and from there the power of the scaling factor, which grows by
  one with every further transaction (as a 128 bit number).\<close>

theorem spam_factor_of_second:
  fixes a :: string and t :: u64
  assumes "sorted (map snd qs)" "\<forall>q \<in> set qs. snd q \<le> t" "length qs + 1 < 2 ^ 32"
  defines "n \<equiv> count_list qs (a, t)"
  shows "fst (spam_check_and_update a t (spam_history qs (spam_detector_new threshold factor))) =
    (if n < unat threshold then 1 else ucast factor ^ (n - unat threshold + 1))"
  using spam_factor_of_second_aux [OF assms(1-3)] by (simp add: n_def)

theorem spam_factor_of_second_witness:
  "fst (spam_check_and_update ''a'' 7 (spam_history [(''a'', 6), (''a'', 7), (''b'', 7), (''a'', 7)] (spam_detector_new 1 2))) = 4"
  using spam_factor_of_second [of "[(''a'', 6), (''a'', 7), (''b'', 7), (''a'', 7)]" 7 "''a''" 1 2] by simp

text \<open>The power wraps around: the transaction that exceeds the threshold by as many as the factor has room for is free,
  although the ones before it were refused.\<close>

lemma long_burst_is_free:
  "fst (spam_check_and_update a t (spam_history (replicate 137 (a, t)) spam_default_config)) = 0
   \<and> calculate_gas_fee bytes BASE_GAS_PRICE_CIL GAS_PER_BYTE 0 = Ok 0"
proof
  have c: "count_list (replicate n x) x = n" for n and x :: "string \<times> u64" by (induction n) simp_all
  have "fst (spam_check_and_update a t (spam_history (replicate 137 (a, t)) spam_default_config)) = (2 :: u128) ^ 128"
    using spam_factor_of_second_aux [of "replicate 137 (a, t)" t a 10 2]
    by (simp add: spam_default_config_def SPAM_THRESHOLD_TX_PER_SEC_def SPAM_SCALING_FACTOR_def c)
  then show "fst (spam_check_and_update a t (spam_history (replicate 137 (a, t)) spam_default_config)) = 0" by simp
  show "calculate_gas_fee bytes BASE_GAS_PRICE_CIL GAS_PER_BYTE 0 = Ok 0"
    by (simp add: calculate_gas_fee_def saturating_mul_def checked_mul_def MAX_GAS_PER_TX_def)
qed

section \<open>Exact fees\<close>

definition exact_fee :: "u64 \<Rightarrow> u128 \<Rightarrow> nat" where
  "exact_fee bytes multiplier = (1000 + 10 * unat bytes) * unat multiplier"

lemma base_fee_exact: "unat (BASE_GAS_PRICE_CIL + ucast bytes * ucast GAS_PER_BYTE) = 1000 + 10 * unat (bytes :: u64)"
proof -
  have u: "unat (ucast bytes :: u128) = unat bytes" "unat (ucast GAS_PER_BYTE :: u128) = 10"
    by (simp_all add: unat_ucast_widen GAS_PER_BYTE_def)
  have "unat bytes < 2 ^ 64" using unsigned_less [of bytes] by simp
  then show ?thesis by (simp add: unat_add_exact unat_mult_exact u BASE_GAS_PRICE_CIL_def)
qed

lemma gas_fee_exact:
  "calculate_gas_fee bytes BASE_GAS_PRICE_CIL GAS_PER_BYTE m = (r :: (u128, fee_error) result) \<Longrightarrow>
   (case r of Ok fee \<Rightarrow> unat fee = exact_fee bytes m \<and> exact_fee bytes m \<le> 10000000 | Err _ \<Rightarrow> 10000000 < exact_fee bytes m | Panic \<Rightarrow> False)"
  by (auto simp: calculate_gas_fee_def Let_def MAX_GAS_PER_TX_def word_less_nat_alt unat_saturating_mul base_fee_exact exact_fee_def)

text \<open>The fee of a transaction. A fee is built exactly when the natural number (1000 + 10 * bytes) * multiplier + tip
  stays within ten million CIL, and then it is this number: no overflow of any step, no saturation and no multiplier
  makes a fee smaller than what it stands for.\<close>

theorem transaction_fee_exact:
  "(case build_transaction_fee bytes tip multiplier t of
      Ok fee \<Rightarrow> unat (tf_total_fee_cil fee) = exact_fee bytes multiplier + unat tip
        \<and> exact_fee bytes multiplier + unat tip \<le> unat MAX_GAS_PER_TX
    | Err _ \<Rightarrow> unat MAX_GAS_PER_TX < exact_fee bytes multiplier + unat tip
    | Panic \<Rightarrow> False)"
proof (cases "calculate_gas_fee bytes BASE_GAS_PRICE_CIL GAS_PER_BYTE multiplier")
  case (Ok fee)
  from gas_fee_exact [OF this] have "unat fee = exact_fee bytes multiplier \<and> exact_fee bytes multiplier \<le> 10000000" by simp
  with Ok show ?thesis
    by (auto simp: build_transaction_fee_def calculate_transaction_fee_def Let_def MAX_GAS_PER_TX_def word_less_nat_alt unat_saturating_add)
next
  case (Err e)
  from gas_fee_exact [OF this] Err show ?thesis by (simp add: build_transaction_fee_def MAX_GAS_PER_TX_def)
next
  case Panic
  from gas_fee_exact [OF this] show ?thesis by simp
qed

section \<open>The burn limit holds\<close>

primrec burns :: "u128 list \<Rightarrow> block_burn_state \<Rightarrow> block_burn_state" where
  "burns [] b = b"
| "burns (x # xs) b = burns xs (snd (try_add_burn x b))"

definition burn_inv :: "block_burn_state \<Rightarrow> bool" where
  "burn_inv b \<longleftrightarrow> unat (bb_total_burn_cil b) + unat (bb_remaining_capacity b) = unat BURN_LIMIT_PER_BLOCK_CIL"

lemma try_add_burn_inv:
  assumes "burn_inv b"
  shows "burn_inv (snd (try_add_burn x b))"
    "fst (try_add_burn x b) = Ok r \<Longrightarrow> unat (bb_total_burn_cil (snd (try_add_burn x b))) = unat (bb_total_burn_cil b) + unat x"
proof -
  have m: "unat BURN_LIMIT_PER_BLOCK_CIL < 2 ^ 128" by (simp add: BURN_LIMIT_PER_BLOCK_CIL_def)
  have ex: "unat (bb_total_burn_cil b + x) = unat (bb_total_burn_cil b) + unat x" if "\<not> bb_remaining_capacity b < x"
    by (rule unat_add_exact) (use assms that m in \<open>simp add: burn_inv_def word_less_nat_alt\<close>)
  show "burn_inv (snd (try_add_burn x b))"
    using assms ex by (auto simp: try_add_burn_def Let_def burn_inv_def unat_saturating_sub word_less_nat_alt)
  show "unat (bb_total_burn_cil (snd (try_add_burn x b))) = unat (bb_total_burn_cil b) + unat x" if "fst (try_add_burn x b) = Ok r"
    using that ex by (auto simp: try_add_burn_def Let_def split: if_splits)
qed

text \<open>The burns of one block. After any sequence of burns, accepted or not, what was burned and what is left
  add up to the limit, so that at most the limit is ever burned, and the fill level is exact and at most 100 percent.\<close>

theorem block_burns_bounded:
  "unat (bb_total_burn_cil (burns xs (block_burn_new h))) + unat (bb_remaining_capacity (burns xs (block_burn_new h)))
     = unat BURN_LIMIT_PER_BLOCK_CIL
   \<and> unat (get_capacity_percentage_bps (burns xs (block_burn_new h)))
     = unat (bb_total_burn_cil (burns xs (block_burn_new h))) * 10000 div unat BURN_LIMIT_PER_BLOCK_CIL"
proof -
  have "burn_inv b \<Longrightarrow> burn_inv (burns xs b)" for b by (induction xs arbitrary: b) (simp_all add: try_add_burn_inv(1))
  then have i: "burn_inv (burns xs (block_burn_new h))" by (simp add: burn_inv_def block_burn_new_def)
  define b where "b = burns xs (block_burn_new h)"
  have l: "unat BURN_LIMIT_PER_BLOCK_CIL = 100000000000000" by (simp add: BURN_LIMIT_PER_BLOCK_CIL_def)
  have s: "unat (bb_total_burn_cil b) + unat (bb_remaining_capacity b) = 100000000000000" using i l by (simp add: burn_inv_def b_def)
  have u: "unat (BURN_LIMIT_PER_BLOCK_CIL - bb_remaining_capacity b) = unat (bb_total_burn_cil b)"
    using s l by (subst unat_sub_exact) (auto simp: word_le_nat_alt)
  have "unat ((BURN_LIMIT_PER_BLOCK_CIL - bb_remaining_capacity b) * 10000) = unat (bb_total_burn_cil b) * 10000"
    using s u by (subst unat_mult_exact) auto
  then have d: "unat (((BURN_LIMIT_PER_BLOCK_CIL - bb_remaining_capacity b) * 10000) div BURN_LIMIT_PER_BLOCK_CIL)
      = unat (bb_total_burn_cil b) * 10000 div 100000000000000" using l by (simp add: unat_div_distrib)
  have "unat (bb_total_burn_cil b) * 10000 div 100000000000000 \<le> 10000" using s by (simp add: div_le_mono2)
  then have "unat (get_capacity_percentage_bps b) = unat (bb_total_burn_cil b) * 10000 div 100000000000000"
    using d by (simp add: get_capacity_percentage_bps_def Let_def unat_ucast_small)
  with s l show ?thesis by (simp add: b_def)
qed

section \<open>Pending, claimed, total\<close>

text \<open>The accounts with a ghost component: what a validator has claimed so far.\<close>

inductive reward_step :: "reward_accounts \<times> (string \<Rightarrow> u128) \<Rightarrow> reward_accounts \<times> (string \<Rightarrow> u128) \<Rightarrow> bool" where
  reward_accumulate: "accumulate_block_rewards now a fees m = (r, m') \<Longrightarrow> reward_step (m, c) (m', c)"
| reward_finalize: "finalize_block_rewards now a tfs h m = (r, m') \<Longrightarrow> reward_step (m, c) (m', c)"
| reward_claim: "bt_get m a = Some acc \<Longrightarrow> claim_rewards now acc = (Ok x, acc') \<Longrightarrow>
    reward_step (m, c) (bt_insert a acc' m, c(a := c a + x))"

definition rewards_balanced :: "reward_accounts \<times> (string \<Rightarrow> u128) \<Rightarrow> bool" where
  "rewards_balanced s \<longleftrightarrow> (\<forall>a. ra_total_rewards_cil (reward_account_of a (fst s)) = ra_pending_rewards_cil (reward_account_of a (fst s)) + snd s a)"

lemma reward_account_of_insert:
  "reward_account_of a (bt_insert b acc m) = (if a = b then acc else reward_account_of a m)"
  by (simp add: reward_account_of_def)

lemma reward_account_of_get: "bt_get m a = Some acc \<Longrightarrow> reward_account_of a m = acc"
  by (simp add: reward_account_of_def)

lemma reward_step_balanced: "reward_step s t \<Longrightarrow> rewards_balanced s \<Longrightarrow> rewards_balanced t"
  by (induction rule: reward_step.induct)
    (auto simp: rewards_balanced_def accumulate_block_rewards_def finalize_block_rewards_def distribute_transaction_fees_def
      claim_rewards_def Let_def reward_account_of_insert algebra_simps split: if_splits dest: reward_account_of_get)

interpretation fee_rewards: invariant_system reward_step rewards_balanced
  by unfold_locales (rule reward_step_balanced)

text \<open>The reward accounts of the network. In every run from empty accounts the total of a validator is what is
  pending for it and what it has claimed together, and a claim takes all that is pending: the next one finds nothing.\<close>

theorem pending_and_claimed_make_total:
  assumes "reward_step\<^sup>*\<^sup>* ([], \<lambda>_. 0) (m, c)" "bt_get m a = Some acc"
  shows "get_total_rewards a m = Ok (ra_pending_rewards_cil acc + c a)
    \<and> fst (claim_rewards t' (snd (claim_rewards t acc))) = Err NoPendingRewards"
proof -
  have "rewards_balanced (m, c)"
    by (rule fee_rewards.reach_inv [OF assms(1)]) (simp add: rewards_balanced_def reward_account_of_def reward_account_default_def)
  then have "ra_total_rewards_cil acc = ra_pending_rewards_cil acc + c a"
    using assms(2) by (simp add: rewards_balanced_def reward_account_of_def split: option.splits)
  with assms(2) show ?thesis by (simp add: get_total_rewards_def claim_rewards_def)
qed

definition reward_demo :: reward_accounts where
  "reward_demo = snd (accumulate_block_rewards 5 ''v'' 30 [])"

theorem pending_and_claimed_make_total_witness:
  "get_total_rewards ''v'' reward_demo = Ok 30"
proof -
  have "reward_step\<^sup>*\<^sup>* ([], \<lambda>_. 0) (reward_demo, \<lambda>_. 0)"
    by (rule r_into_rtranclp) (simp add: reward_demo_def reward_accumulate [OF surjective_pairing])
  moreover have "bt_get reward_demo ''v'' = Some
      \<lparr>ra_total_rewards_cil = 30, ra_pending_rewards_cil = 30, ra_last_claim_timestamp = 0, ra_blocks_produced = 1\<rparr>"
    by (simp add: reward_demo_def accumulate_block_rewards_def distribute_transaction_fees_def reward_account_of_def
        reward_account_default_def)
  ultimately show ?thesis using pending_and_claimed_make_total [of reward_demo "\<lambda>_. 0" "''v''"] by simp
qed

end
