(* ===== verification/Spec2Isabelle.thy ===== *)
theory Spec2Isabelle
  imports Ledger_Safety Voting Slashing Abft Checkpoint Rewards AntiWhale Oracle Usp01_Refinement Dex_Safety Node_Send_Safety RateLimiter Registries Node_Contracts_Safety Node_Burn_Safety Node_Validators_Safety Node_Epoch_Safety Node_Sync_Safety Node_Start_Safety Node_Faucet Node_Queries P2p_Session P2p_Network Network_Slashing Network_Fees
begin

text \<open>
  A verification library for Unauthority (LOS), a block-lattice chain written in Rust. File names are relative to
  \<open>src/crates\<close>.

  \<^bold>\<open>The program.\<close> Every account has a chain of its own: a block of type Mint, Send, Receive, Change, Slash,
  ContractDeploy or ContractCall extends the chain of one account. \<open>los-core\<close> holds the ledger that validates and applies
  blocks, the supply that burns and rewards are minted from, the reward pool, the anti-whale engine and the price oracle.
  \<open>los-consensus\<close> holds voting, slashing, the aBFT engine and checkpoints, \<open>los-vm\<close> and \<open>los-contracts\<close> the contract engine
  with a token and an exchange, \<open>los-network\<close> sessions, peers, fees and a second slashing manager. \<open>los-node\<close> joins them:
  it starts from a database and a genesis file, answers HTTP requests, exchanges gossip with other nodes, and runs tasks
  that save the ledger, clean up and end reward epochs. The components share their state behind locks; a handler takes
  the locks it needs one after the other.

  \<^bold>\<open>How it is modelled.\<close> A struct is a record, an enum a datatype, a BTreeMap a list of entries in key order
  (\<open>BTree_Map\<close>), an integer of n bits an n bit word with the wrap-around of a release build (\<open>Los_Prelude\<close>), a string a list
  of bytes (\<open>Los_Strings\<close>, \<open>Utf8\<close>). A function of the source is a function of the same name where this is possible, from its
  arguments and the state to its result and the new state. \<open>('a, 'e) result\<close> has \<open>Ok\<close>, \<open>Err\<close> and \<open>Panic\<close>; in a gossip
  handler, where a panic ends the process, \<open>None\<close> is the panic. The clock is an argument. Where a handler releases its locks
  between two phases, the state that other tasks leave in between is an argument of the second phase. Cryptography, Base58,
  gzip, Base64, the JSON codecs, the store, WebAssembly execution and the replies of other servers are third-party code: they
  are fields of parameters (\<open>los_env\<close>, \<open>node_env\<close>, \<open>store_ops\<close>, \<open>aead\<close> and others), and what is relied on is a named
  predicate (\<open>store_laws\<close>, \<open>aead_laws\<close>, \<open>codec_ok\<close>) that stands among the assumptions of a theorem and is shown to be
  satisfiable in its witness.

  \<^bold>\<open>Shared theories.\<close>
  \<^item> \<open>Los_Prelude\<close>, \<open>Los_Strings\<close>, \<open>Utf8\<close>, \<open>BTree_Map\<close>, \<open>Isqrt\<close>: the standard library as the sources use it; exactness of
    checked and saturating arithmetic; printing and parsing of numbers; Newton's square root with its termination.
  \<^item> \<open>Step_Systems\<close>: the locales \<open>invariant_system\<close>, \<open>conserving_system\<close> and the labelled simulation. Every component with
    state interprets them for its step relation, so that what holds in all reachable states is proved once.
  \<^item> \<open>Quorum\<close>: the locale of vote thresholds, interpreted for slashing and for the consensus engine.

  \<^bold>\<open>Core and consensus.\<close>
  \<^item> \<open>Crypto\<close> (\<open>los-crypto/src/lib.rs\<close>): addresses and the choice of the signature scheme.
  \<^item> \<open>Ledger\<close>, \<open>Ledger_Safety\<close> (\<open>los-core/src/lib.rs\<close>, \<open>distribution.rs\<close>): \<open>process_block\<close> with every block type. The value of a
    ledger is the sum of balances, unclaimed Sends, collected fees and remaining supply; no block raises it, a rejected
    block changes nothing, a Send is received once, and only the owner of an account spends from it.
  \<^item> \<open>Voting\<close>, \<open>Slashing\<close>, \<open>Abft\<close>, \<open>Checkpoint\<close> (\<open>los-consensus/src\<close>): majorities are unique, two quorums share a correct
    validator, a ban is kept, stored checkpoints are found again.
  \<^item> \<open>Rewards\<close>, \<open>AntiWhale\<close>, \<open>Oracle\<close> (\<open>los-core/src\<close>): accounting of the pool, exact shares of an epoch, fees of bursts,
    the median price under a dishonest minority.

  \<^bold>\<open>Contracts.\<close>
  \<^item> \<open>Host_Functions\<close>, \<open>Wasm_Engine\<close>, \<open>Wasm_Safety\<close> (\<open>los-vm/src/host.rs\<close>, \<open>lib.rs\<close>): for every behaviour of a guest a call stays
    within gas and balance and touches its own contract only.
  \<^item> \<open>Contract_Host\<close>, \<open>Usp01\<close>, \<open>Usp01_Contract\<close>, \<open>Usp01_Refinement\<close> (\<open>los-sdk\<close>, \<open>los-vm/src/usp01.rs\<close>,
    \<open>los-contracts/src/usp01_token.rs\<close>): the deployed token refines the reference token, whose balances add up to its supply.
  \<^item> \<open>DexAmm\<close>, \<open>Dex_Safety\<close> (\<open>los-contracts/src/dex_amm.rs\<close>): swaps keep the constant product, shares add up.
  \<^item> \<open>Registries\<close> (\<open>los-vm/src/token_registry.rs\<close>, \<open>dex_registry.rs\<close>): the quote of a node is the output of the swap.

  \<^bold>\<open>Node\<close> (\<open>los-node/src/main.rs\<close> and the modules beside it).
  \<^item> \<open>Node_Core\<close>, \<open>Mempool\<close>, \<open>RateLimiter\<close>: helpers, proof of work, request limits, the pool of pending transactions.
  \<^item> \<open>Node_Send\<close>, \<open>Node_Burn\<close>, \<open>Node_Gossip\<close>, \<open>Node_Contracts\<close>, \<open>Node_Validators\<close>, \<open>Node_Epoch\<close>, \<open>Node_Sync\<close>, \<open>Burn_Oracle\<close>, each
    with a theory of the same name and \<open>_Safety\<close> except the last: the HTTP and gossip handlers for transfers, burns, blocks,
    contracts, validators, heartbeats and state exchange. Each group shows that its handlers create no value, what a
    quorum guarantees, and by counter-runs what the handlers do not guarantee.
  \<^item> \<open>Database\<close>, \<open>Genesis\<close>, \<open>Node_Start\<close> with \<open>Database_Safety\<close> and \<open>Node_Start_Safety\<close> (\<open>db.rs\<close>, \<open>genesis.rs\<close>, \<open>main\<close>): what is
    stored is loaded, a restart resumes, the genesis bounds the value of every later ledger.
  \<^item> \<open>Node_Faucet\<close>, \<open>Node_Queries\<close>: the handlers of the test network and the queries.

  \<^bold>\<open>Network\<close> (\<open>los-network/src\<close>).
  \<^item> \<open>P2p_Session\<close> (\<open>p2p_encryption.rs\<close>), \<open>P2p_Network\<close> (\<open>p2p_integration.rs\<close>), \<open>Network_Slashing\<close> (\<open>slashing_integration.rs\<close>),
    \<open>Network_Fees\<close> (\<open>fee_scaling.rs\<close>, \<open>validator_rewards.rs\<close>): messages are decrypted as sent and carry fresh nonces, queues keep
    priority and order, the two records of bans agree, fees are exact.
  \<^item> \<open>Validator_Config\<close> (\<open>los-core/src/validator_config.rs\<close>, \<open>los-network/src/tor_transport.rs\<close>): configurations of validators
    and the addresses that are dialled.

  \<^bold>\<open>Across components.\<close> \<open>Node_Contracts_Safety\<close> adds the ledger and the contracts up to one value. \<open>Node_Start_Safety\<close> composes
  database, genesis and ledger. \<open>Node_Sync_Safety\<close> lets one node replay the ledger of another. The claims C1 to C40 are
  the theorems that carry these labels; each with assumptions is followed by a witness, an instance at concrete data
  whose assumptions are evaluated.

  \<^bold>\<open>Bounds and termination.\<close> No definition runs on fuel except the trimming of a
  string, whose fuel is its length, which is shown to be enough. Loops whose end is not structural have a measure (square root, proof of
  work, which the source cuts off at ten million attempts); the two walks along a chain are partial functions, and
  that they end in every ledger that grew from blocks is proved. Numeric side conditions (fewer than \<open>2 ^ 64\<close> messages under
  one key, validators that fit a machine word, a total value below \<open>2 ^ 128\<close>) are part of the statements or of the invariant;
  the supply is below \<open>2 ^ 61\<close>.

  \<^bold>\<open>Not modelled.\<close> Input and output around the modelled code: the libp2p and Tor transports, HTTP routing and the printing of
  answers as JSON, metrics, the gRPC server, the command line wallet and the bindings for the mobile applications. The bonding
  curve uses floating point and is not used by the ledger. Key generation and encryption of key files are calls of
  third-party code. Poisoned locks and the scheduling of tasks are represented only by the order of steps and by the
  state between phases. The example contracts are demonstrations that no other part uses.
\<close>

end
